(* ===== verification/Prelude.thy ===== *)
theory Prelude
  imports Main "HOL-Library.Char_ord" "HOL-Library.List_Lexorder" "HOL-Library.Product_Lexorder"
begin

text \<open>
  The vocabulary every component shares.

  A Python call either returns or raises: the result type is \<open>py_exc + 'a\<close> (\<open>'a res\<close>),
  \<open>Inl\<close> the exception.  \<open>py_exc\<close> has one constructor per exception class of the modelled
  code, carrying the literal part of the message.  \<open>bindE\<close> sequences two calls and
  \<open>guards\<close> is the chain \<open>if c1: raise e1; if c2: raise e2; ...\<close> with which every
  \<open>__post_init__\<close> starts.  \<open>uniq\<close> lists the keys of a dictionary in insertion order,
  \<open>strictly_sorted\<close> is the test \<open>xs == tuple(sorted(set(xs)))\<close>, and the text functions
  are the ASCII part of \<open>str.strip\<close>, \<open>str.upper\<close> and \<open>str.casefold\<close>.

  The locale \<open>guarded_machine\<close> is the contract of a state whose steps may raise: an
  invariant kept by every step that returns holds after every run that returns.
\<close>

section \<open>Results and exceptions\<close>

datatype py_exc =
    ValueError string
  | TypeError string
  | KeyError string
  | InvalidOperation
  | ZeroDivision
  | CostScheduleError string
  | DeterministicSwingSignalError string
  | QuoteQualityError string
  | SwingQuoteGateError string
  | SwingOpportunityRankingError string
  | SwingPortfolioSizingError string
  | EvaluationPlanError string
  | EvaluationPlanIntegrityError string
  | TrialRegistrationError string
  | TrialRegistrationIntegrityError string
  | TrialRegistryConflict string
  | TrialNotRegistered string
  | TrialLifecycleError string
  | TrialLifecycleIntegrityError string
  | TrialLifecycleConflict string
  | HistoricalPriceIntegrityError string
  | CorporateActionIntegrityError string
  | PriceAdjustmentError string
  | TrialEvaluationError string
  | DeterministicBaselineError string
  | TrialFamilyAggregationError string
  | CalendarIntegrityError string
  | CalendarCoverageError string
  | NotTradingSessionError string
  | OutsideSessionWindowError string

type_synonym 'a res = "py_exc + 'a"

named_theorems res_simps \<open>inversion of results that return\<close>

definition bindE :: "'e + 'a \<Rightarrow> ('a \<Rightarrow> 'e + 'b) \<Rightarrow> 'e + 'b" where
  "bindE m f = (case m of Inl e \<Rightarrow> Inl e | Inr x \<Rightarrow> f x)"

lemma bindE_Inl [simp]: "bindE (Inl e) f = Inl e"
  by (simp add: bindE_def)

lemma bindE_Inr [simp]: "bindE (Inr x) f = f x"
  by (simp add: bindE_def)

lemma bindE_eq_Inr [res_simps]: "bindE m f = Inr y \<longleftrightarrow> (\<exists>x. m = Inr x \<and> f x = Inr y)"
  by (cases m) auto

lemma bindE_eq_Inl [res_simps]:
  "bindE m f = Inl e \<longleftrightarrow> m = Inl e \<or> (\<exists>x. m = Inr x \<and> f x = Inl e)"
  by (cases m) auto

lemma bindE_cong [fundef_cong]:
  "m = m' \<Longrightarrow> (\<And>x. m' = Inr x \<Longrightarrow> f x = f' x) \<Longrightarrow> bindE m f = bindE m' f'"
  by (cases m') auto

lemma if_Inl_eq_Inr [simp]: "((if c then Inl e else k) = Inr y) \<longleftrightarrow> \<not> c \<and> k = Inr y"
  by simp

lemma if_Inl_eq_Inr_swap [simp]: "(Inr y = (if c then Inl e else k)) \<longleftrightarrow> \<not> c \<and> k = Inr y"
  by auto

fun guards :: "(bool \<times> 'e) list \<Rightarrow> 'e + 'a \<Rightarrow> 'e + 'a" where
  "guards [] k = k"
| "guards ((c, e) # gs) k = (if c then Inl e else guards gs k)"

lemma guards_Inr_iff: "guards gs k = Inr y \<longleftrightarrow> (\<forall>g \<in> set gs. \<not> fst g) \<and> k = Inr y"
  by (induction gs k rule: guards.induct) auto

lemma guards_Inl_cases:
  "guards gs k = Inl e \<Longrightarrow> (\<exists>g \<in> set gs. fst g \<and> e = snd g) \<or> k = Inl e"
  by (induction gs k rule: guards.induct) (auto split: if_splits)

lemma guards_pass: "\<forall>g \<in> set gs. \<not> fst g \<Longrightarrow> guards gs k = k"
  by (induction gs k rule: guards.induct) auto

lemma guards_append: "guards (gs @ hs) k = guards gs (guards hs k)"
  by (induction gs) auto

fun mapE :: "('a \<Rightarrow> 'e + 'b) \<Rightarrow> 'a list \<Rightarrow> 'e + 'b list" where
  "mapE f [] = Inr []"
| "mapE f (x # xs) = bindE (f x) (\<lambda>y. bindE (mapE f xs) (\<lambda>ys. Inr (y # ys)))"

lemma mapE_eq_Inr: "mapE f xs = Inr ys \<longleftrightarrow> list_all2 (\<lambda>x y. f x = Inr y) xs ys"
  by (induction xs arbitrary: ys) (auto simp: res_simps list_all2_Cons1)

lemma mapE_length: "mapE f xs = Inr ys \<Longrightarrow> length ys = length xs"
  by (auto simp: mapE_eq_Inr dest: list_all2_lengthD)

lemma mapE_cong [fundef_cong]:
  "xs = ys \<Longrightarrow> (\<And>x. x \<in> set ys \<Longrightarrow> f x = g x) \<Longrightarrow> mapE f xs = mapE g ys"
  by (induction ys arbitrary: xs) (auto intro!: bindE_cong)

lemma mapE_returns: "\<forall>x \<in> set xs. \<exists>y. f x = Inr y \<and> P x y \<Longrightarrow> \<exists>ys. mapE f xs = Inr ys \<and> list_all2 P xs ys"
proof (induction xs)
  case (Cons x xs)
  then obtain y ys where "f x = Inr y" "P x y" "mapE f xs = Inr ys" "list_all2 P xs ys" by auto
  then show ?case by simp
qed simp

lemma mapE_unit: "(\<exists>us. mapE f xs = Inr us) \<longleftrightarrow> (\<forall>x \<in> set xs. \<exists>u. f x = Inr u)"
  by (induction xs) (auto simp: res_simps)

lemma mapE_raises:
  "\<forall>x \<in> set xs. f x = Inl e \<or> (\<exists>y. f x = Inr y) \<Longrightarrow> \<exists>x \<in> set xs. f x = Inl e \<Longrightarrow> mapE f xs = Inl e"
proof (induction xs)
  case (Cons x xs)
  show ?case
  proof (cases "f x = Inl e")
    case False
    then show ?thesis using Cons by auto
  qed simp
qed simp

lemma mapE_map_eq:
  assumes "mapE f xs = Inr ys" and "\<And>x y. x \<in> set xs \<Longrightarrow> f x = Inr y \<Longrightarrow> g y = h x"
  shows "map g ys = map h xs"
  using assms by (induction xs arbitrary: ys) (auto simp: res_simps)

lemma mapE_set:
  assumes "mapE f xs = Inr ys" and "y \<in> set ys"
  obtains x where "x \<in> set xs" and "f x = Inr y"
proof -
  from assms have "\<exists>x \<in> set xs. f x = Inr y"
    by (induction xs arbitrary: ys) (auto simp: res_simps)
  then show ?thesis using that by blast
qed

fun foldE :: "('s \<Rightarrow> 'a \<Rightarrow> 'e + 's) \<Rightarrow> 's \<Rightarrow> 'a list \<Rightarrow> 'e + 's" where
  "foldE f s [] = Inr s"
| "foldE f s (x # xs) = bindE (f s x) (\<lambda>s'. foldE f s' xs)"

lemma foldE_append: "foldE f s (xs @ ys) = bindE (foldE f s xs) (\<lambda>s'. foldE f s' ys)"
proof (induction xs arbitrary: s)
  case (Cons x xs)
  then show ?case by (cases "f s x") auto
qed simp

text \<open>The contract of a state machine whose steps may raise.\<close>

locale guarded_machine =
  fixes step :: "'s \<Rightarrow> 'a \<Rightarrow> 'e + 's"
    and inv :: "'s \<Rightarrow> bool"
  assumes step_inv: "inv s \<Longrightarrow> step s x = Inr s' \<Longrightarrow> inv s'"
begin

lemma run_inv: "inv s \<Longrightarrow> foldE step s xs = Inr s' \<Longrightarrow> inv s'"
proof (induction xs arbitrary: s)
  case Nil
  then show ?case by simp
next
  case (Cons x xs)
  then show ?case by (auto simp: res_simps dest: step_inv)
qed

lemma run_prefix_inv:
  assumes "inv s" and "foldE step s (xs @ ys) = Inr s'"
  obtains s1 where "foldE step s xs = Inr s1" and "inv s1" and "foldE step s1 ys = Inr s'"
  using assms by (auto simp: foldE_append res_simps dest: run_inv)

end

lemma find_unique:
  assumes "x \<in> set xs" and "P x" and "\<And>y. y \<in> set xs \<Longrightarrow> P y \<Longrightarrow> y = x"
  shows "List.find P xs = Some x"
proof -
  obtain y where y: "List.find P xs = Some y" using assms(1,2) by (cases "List.find P xs") (auto simp: find_None_iff)
  then have "y \<in> set xs \<and> P y" by (metis find_Some_iff nth_mem)
  then show ?thesis using y assms(3) by blast
qed

section \<open>Dictionary keys and sorted tuples\<close>

fun uniq :: "'a list \<Rightarrow> 'a list" where
  "uniq [] = []"
| "uniq (x # xs) = x # filter (\<lambda>y. y \<noteq> x) (uniq xs)"

lemma set_uniq [simp]: "set (uniq xs) = set xs"
  by (induction xs) auto

lemma distinct_uniq [simp]: "distinct (uniq xs)"
  by (induction xs) auto

lemma length_uniq [simp]: "length (uniq xs) = card (set xs)"
  by (metis distinct_card distinct_uniq set_uniq)

abbreviation strictly_sorted :: "'a::linorder list \<Rightarrow> bool" where
  "strictly_sorted xs \<equiv> sorted_wrt (<) xs"

definition sorted_unique :: "'a::linorder list \<Rightarrow> bool" where
  \<comment> \<open>\<open>xs == tuple(sorted(set(xs)))\<close>\<close>
  "sorted_unique xs = (xs = sort (remdups xs))"

lemma sorted_unique_iff [simp]: "sorted_unique xs \<longleftrightarrow> strictly_sorted xs"
proof
  assume "sorted_unique xs"
  then have *: "xs = sort (remdups xs)" by (simp add: sorted_unique_def)
  have "sorted (sort (remdups xs))" "distinct (sort (remdups xs))" by simp_all
  with * have "sorted xs" "distinct xs" by metis+
  then show "strictly_sorted xs" by (simp add: strict_sorted_iff)
next
  assume "strictly_sorted xs"
  then have "sorted xs" "distinct xs" by (simp_all add: strict_sorted_iff)
  then show "sorted_unique xs"
    by (simp add: sorted_unique_def sorted_sort_id distinct_remdups_id)
qed

lemma strictly_sorted_sort_remdups [simp, intro]: "strictly_sorted (sort (remdups xs))"
  by (simp add: strict_sorted_iff)

lemma strictly_sorted_take: "strictly_sorted xs \<Longrightarrow> strictly_sorted (take n xs)"
  by (rule sorted_wrt_take)

lemma strictly_sorted_drop: "strictly_sorted xs \<Longrightarrow> strictly_sorted (drop n xs)"
  by (rule sorted_wrt_drop)

lemma strictly_sorted_nth_less:
  "strictly_sorted xs \<Longrightarrow> i < length xs \<Longrightarrow> j < length xs \<Longrightarrow> xs ! i < xs ! j \<longleftrightarrow> i < j"
  by (metis linorder_neqE_nat order_less_asym order_less_irrefl sorted_wrt_nth_less)

lemma replicate_numeral [simp]: "replicate (numeral k) x = x # replicate (pred_numeral k) x"
  by (simp add: numeral_eq_Suc)

section \<open>Text\<close>

definition is_ws :: "char \<Rightarrow> bool" where
  "is_ws c = (let n = of_char c :: nat in n = 32 \<or> (9 \<le> n \<and> n \<le> 13) \<or> (28 \<le> n \<and> n \<le> 31))"

definition strip :: "string \<Rightarrow> string" where
  "strip s = rev (dropWhile is_ws (rev (dropWhile is_ws s)))"

definition upper_char :: "char \<Rightarrow> char" where
  "upper_char c = (let n = of_char c :: nat in
     if 97 \<le> n \<and> n \<le> 122 then char_of (n - 32) else c)"

definition upper :: "string \<Rightarrow> string" where
  "upper s = map upper_char s"

definition lower_char :: "char \<Rightarrow> char" where
  "lower_char c = (let n = of_char c :: nat in
     if 65 \<le> n \<and> n \<le> 90 then char_of (n + 32) else c)"

definition lower :: "string \<Rightarrow> string" where
  "lower s = map lower_char s"

definition blank :: "string \<Rightarrow> bool" where
  \<comment> \<open>\<open>not s.strip()\<close>\<close>
  "blank s = (strip s = [])"

definition normalized_upper :: "string \<Rightarrow> bool" where
  \<comment> \<open>\<open>s and s == s.strip().upper()\<close>\<close>
  "normalized_upper s = (s \<noteq> [] \<and> s = upper (strip s))"

definition sha_text :: "string \<Rightarrow> bool" where
  \<comment> \<open>the regular expression \<open>[0-9a-f]{64}\<close>, matched in full\<close>
  "sha_text s = (length s = 64 \<and> list_all (\<lambda>c. c \<in> set ''0123456789abcdef'') s)"

definition starts_with :: "string \<Rightarrow> string \<Rightarrow> bool" where
  "starts_with p s = (take (length p) s = p)"

fun contains :: "string \<Rightarrow> string \<Rightarrow> bool" where
  \<comment> \<open>\<open>p in s\<close>\<close>
  "contains p [] = (p = [])"
| "contains p (c # s) = (starts_with p (c # s) \<or> contains p s)"

end
