(* ===== verification/PyDate.thy ===== *)
theory PyDate
  imports Prelude
begin

text \<open>
  The dates and datetimes of the Python standard library, as far as the code uses them.

  A \<open>date\<close> is a year, a month and a day, ordered lexicographically, with \<open>isoformat\<close>.
  A \<open>datetime\<close> as a constructor receives it is a wall-clock reading in microseconds since
  0001-01-01T00:00 with an optional offset from UTC (no offset: a naive datetime).  A checked
  datetime is an \<open>instant\<close>, the reading of the same moment in UTC: comparison of aware
  datetimes and the content identity look at nothing else.
\<close>

datatype date = Date (year: nat) (month: nat) (day: nat)

definition date_key :: "date \<Rightarrow> nat \<times> nat \<times> nat" where
  "date_key d = (year d, month d, day d)"

lemma date_key_inject [simp]: "date_key a = date_key b \<longleftrightarrow> a = b"
  by (cases a; cases b) (simp add: date_key_def)

instantiation date :: linorder
begin

definition less_eq_date :: "date \<Rightarrow> date \<Rightarrow> bool" where
  "less_eq_date a b = (date_key a \<le> date_key b)"

definition less_date :: "date \<Rightarrow> date \<Rightarrow> bool" where
  "less_date a b = (date_key a < date_key b)"

instance
proof
  fix a b c :: date
  show "a < b \<longleftrightarrow> a \<le> b \<and> \<not> b \<le> a"
    by (simp add: less_eq_date_def less_date_def less_le_not_le)
  show "a \<le> a"
    by (simp add: less_eq_date_def)
  show "a \<le> b \<Longrightarrow> b \<le> c \<Longrightarrow> a \<le> c"
    by (simp add: less_eq_date_def)
  show "a \<le> b \<Longrightarrow> b \<le> a \<Longrightarrow> a = b"
    using date_key_inject by (fastforce simp: less_eq_date_def)
  show "a \<le> b \<or> b \<le> a"
    by (auto simp: less_eq_date_def)
qed

end

lemma Date_le [simp]:
  "Date y m d \<le> Date y' m' d' \<longleftrightarrow> y < y' \<or> (y = y' \<and> (m < m' \<or> (m = m' \<and> d \<le> d')))"
  by (auto simp: less_eq_date_def date_key_def)

lemma Date_less [simp]:
  "Date y m d < Date y' m' d' \<longleftrightarrow> y < y' \<or> (y = y' \<and> (m < m' \<or> (m = m' \<and> d < d')))"
  by (auto simp: less_date_def date_key_def)

section \<open>Decimal digits\<close>

definition digit_char :: "nat \<Rightarrow> char" where
  "digit_char d = char_of (48 + d)"

lemma digit_char_eval [simp]:
  "digit_char 0 = CHR ''0''" "digit_char 1 = CHR ''1''" "digit_char (Suc 0) = CHR ''1''"
  "digit_char 2 = CHR ''2''" "digit_char 3 = CHR ''3''" "digit_char 4 = CHR ''4''"
  "digit_char 5 = CHR ''5''" "digit_char 6 = CHR ''6''" "digit_char 7 = CHR ''7''"
  "digit_char 8 = CHR ''8''" "digit_char 9 = CHR ''9''"
  by code_simp+

fun nat_str :: "nat \<Rightarrow> string" where
  "nat_str n = (if n < 10 then [digit_char n] else nat_str (n div 10) @ [digit_char (n mod 10)])"

declare nat_str.simps [simp del]

definition int_str :: "int \<Rightarrow> string" where
  "int_str i = (if i < 0 then ''-'' @ nat_str (nat (- i)) else nat_str (nat i))"

definition pad_left :: "nat \<Rightarrow> string \<Rightarrow> string" where
  "pad_left k s = replicate (k - length s) (CHR ''0'') @ s"

definition date_iso :: "date \<Rightarrow> string" where
  "date_iso d = pad_left 4 (nat_str (year d)) @ ''-'' @ pad_left 2 (nat_str (month d))
     @ ''-'' @ pad_left 2 (nat_str (day d))"

section \<open>Datetimes\<close>

type_synonym instant = int

datatype pydatetime = PyDatetime (wall: int) (utc_offset: "int option")

definition to_utc :: "pydatetime \<Rightarrow> instant option" where
  \<comment> \<open>\<open>value.astimezone(timezone.utc)\<close>, \<open>None\<close> for a naive datetime\<close>
  "to_utc v = map_option (\<lambda>off. wall v - off) (utc_offset v)"

definition day_micros :: int where
  "day_micros = 86400 * 1000000"

text \<open>The proleptic Gregorian calendar: day 1 is 0001-01-01.\<close>

definition leap_year :: "nat \<Rightarrow> bool" where
  "leap_year y = (y mod 4 = 0 \<and> (y mod 100 \<noteq> 0 \<or> y mod 400 = 0))"

definition days_in_month :: "nat \<Rightarrow> nat \<Rightarrow> nat" where
  "days_in_month y m = (if m = 2 then (if leap_year y then 29 else 28)
     else if m \<in> {4, 6, 9, 11} then 30 else 31)"

fun month_split :: "nat \<Rightarrow> nat list \<Rightarrow> nat \<Rightarrow> nat \<times> nat" where
  \<comment> \<open>month and day of the \<open>n\<close>-th day, counted from 0 at the start of the first listed month\<close>
  "month_split y [] n = (12, n + 32)"
| "month_split y (m # ms) n =
     (if n < days_in_month y m then (m, n + 1) else month_split y ms (n - days_in_month y m))"

definition date_of_ordinal :: "nat \<Rightarrow> date" where
  \<comment> \<open>\<open>date.fromordinal(n)\<close>, by cycles of 400, 100, 4 and 1 years\<close>
  "date_of_ordinal n = (let
     r400 = (n - 1) mod 146097; r100 = r400 mod 36524; r4 = r100 mod 1461; r1 = r4 mod 365;
     n100 = r400 div 36524; n1 = r4 div 365;
     y = (n - 1) div 146097 * 400 + n100 * 100 + r100 div 1461 * 4 + n1 + 1
     in if n1 = 4 \<or> n100 = 4 then Date (y - 1) 12 31
        else let (m, d) = month_split y [1, 2, 3, 4, 5, 6, 7, 8, 9, 10, 11, 12] r1 in Date y m d)"

definition toordinal :: "date \<Rightarrow> int" where
  \<comment> \<open>\<open>date.toordinal\<close>\<close>
  "toordinal d = (let y = int (year d) - 1 in y * 365 + y div 4 - y div 100 + y div 400
     + int (sum_list (map (days_in_month (year d)) [1..<month d]) + day d))"

definition date_of_micros :: "int \<Rightarrow> date" where
  "date_of_micros t = date_of_ordinal (nat (t div day_micros) + 1)"

definition time_iso :: "int \<Rightarrow> string" where
  \<comment> \<open>hours to microseconds, as \<open>isoformat(timespec="microseconds")\<close> prints them\<close>
  "time_iso t = (let u = nat (t mod day_micros); s = u div 1000000 in
     pad_left 2 (nat_str (s div 3600)) @ '':'' @ pad_left 2 (nat_str (s div 60 mod 60))
     @ '':'' @ pad_left 2 (nat_str (s mod 60)) @ ''.'' @ pad_left 6 (nat_str (u mod 1000000)))"

definition instant_iso :: "instant \<Rightarrow> string" where
  "instant_iso t = date_iso (date_of_micros t) @ ''T'' @ time_iso t @ ''+00:00''"

text \<open>The calendar arithmetic on known days, the last of year 9999 among them.\<close>

lemma toordinal_examples:
  "toordinal (Date 1 1 1) = 1" "toordinal (Date 2026 3 1) = 739676" "toordinal (Date 2024 2 29) = 738945"
  "toordinal (Date 9999 12 31) = 3652059"
  by (simp_all add: toordinal_def upt_rec days_in_month_def leap_year_def)

lemma date_of_ordinal_examples:
  "date_of_ordinal 1 = Date 1 1 1" "date_of_ordinal 739676 = Date 2026 3 1"
  "date_of_ordinal 738945 = Date 2024 2 29" "date_of_ordinal 738946 = Date 2024 3 1"
  "date_of_ordinal 3652059 = Date 9999 12 31"
  by (simp_all add: date_of_ordinal_def days_in_month_def leap_year_def)

end
