(* ===== verification/PyDecimal.thy ===== *)
theory PyDecimal
  imports PyDate Complex_Main
begin

text \<open>
  \<open>decimal.Decimal\<close> under the default context (28 digits, ROUND_HALF_EVEN), which is the one
  the modelled code runs in: sign, coefficient and exponent as the standard library keeps
  them, so that \<open>13.00\<close> and \<open>13\<close> are equal numbers with different texts.

  \<open>dval\<close> is the number a decimal stands for.  An operation first forms its exact result and
  then rounds it with \<open>dec_fix\<close>; the lemmas say when nothing is lost (\<open>dec_fix_exact\<close>), how
  large the loss can be (\<open>dec_fix_err\<close>), and that rounding never crosses a number of 28
  digits (\<open>dec_fix_le\<close>, \<open>dec_fix_ge\<close>).  Decimals are finite, and the exponent limits of the
  context (999999) are not modelled.
\<close>

datatype decimal = Dec (dneg: bool) (dcoeff: nat) (dexp: int)

definition dint :: "decimal \<Rightarrow> int" where
  "dint d = (if dneg d then - int (dcoeff d) else int (dcoeff d))"

definition dval :: "decimal \<Rightarrow> rat" where
  "dval d = of_int (dint d) * 10 powi dexp d"

definition daligned :: "int \<Rightarrow> decimal \<Rightarrow> int" where
  \<comment> \<open>the coefficient at the smaller exponent \<open>e\<close>\<close>
  "daligned e d = dint d * 10 ^ nat (dexp d - e)"

definition dzero :: "decimal \<Rightarrow> bool" where
  "dzero d = (dcoeff d = 0)"

definition prec :: nat where
  "prec = 28"

named_theorems dval_simps \<open>the number each decimal operation computes\<close>

lemma powi10_pos [simp]: "(0::rat) < 10 powi e"
  by (simp add: zero_less_power_int)

lemma powi10_nz [simp]: "(10::rat) powi e \<noteq> 0"
  using powi10_pos [of e] by linarith

lemma powi10_split: "e \<le> f \<Longrightarrow> (10::rat) powi f = of_int (10 ^ nat (f - e)) * 10 powi e"
proof -
  assume "e \<le> f"
  then obtain n where f: "f = e + int n" by (metis zle_iff_zadd)
  have "(10::rat) powi (e + int n) = 10 powi e * 10 powi int n"
    by (rule power_int_add) simp
  with f show ?thesis by simp
qed

lemma powi10_add_nat: "(10::rat) powi (e + int k) = 10 ^ k * 10 powi e"
  by (simp add: power_int_add)

lemma powi10_mono: "e \<le> f \<Longrightarrow> (10::rat) powi e \<le> 10 powi f"
  by (simp add: power_int_increasing)

lemma dval_aligned: "e \<le> dexp d \<Longrightarrow> dval d = of_int (daligned e d) * 10 powi e"
  by (simp add: dval_def daligned_def powi10_split [of e "dexp d"])

lemma dval_zero_iff: "dval d = 0 \<longleftrightarrow> dzero d"
  by (simp add: dval_def dzero_def dint_def)

lemma dval_abs: "\<bar>dval d\<bar> = of_nat (dcoeff d) * 10 powi dexp d"
  by (simp add: dval_def dint_def abs_mult)

lemma dval_sign: "dneg d \<Longrightarrow> dval d \<le> 0" "\<not> dneg d \<Longrightarrow> 0 \<le> dval d"
  by (simp_all add: dval_def dint_def mult_nonneg_nonneg mult_nonpos_nonneg)

lemma dval_neg_abs: "dneg d \<Longrightarrow> dval d = - \<bar>dval d\<bar>"
  using dval_sign(1) [of d] by simp

lemma dval_pos_abs: "\<not> dneg d \<Longrightarrow> dval d = \<bar>dval d\<bar>"
  using dval_sign(2) [of d] by simp

section \<open>Comparison\<close>

instantiation decimal :: preorder
begin

definition less_eq_decimal :: "decimal \<Rightarrow> decimal \<Rightarrow> bool" where
  "less_eq_decimal a b = (let e = min (dexp a) (dexp b) in daligned e a \<le> daligned e b)"

definition less_decimal :: "decimal \<Rightarrow> decimal \<Rightarrow> bool" where
  "less_decimal a b = (let e = min (dexp a) (dexp b) in daligned e a < daligned e b)"

lemma le_iff_dval: "a \<le> b \<longleftrightarrow> dval a \<le> dval b" for a b :: decimal
proof -
  let ?e = "min (dexp a) (dexp b)"
  have "dval a = of_int (daligned ?e a) * 10 powi ?e" "dval b = of_int (daligned ?e b) * 10 powi ?e"
    by (simp_all add: dval_aligned)
  then show ?thesis by (simp add: less_eq_decimal_def Let_def)
qed

lemma less_iff_dval: "a < b \<longleftrightarrow> dval a < dval b" for a b :: decimal
proof -
  let ?e = "min (dexp a) (dexp b)"
  have "dval a = of_int (daligned ?e a) * 10 powi ?e" "dval b = of_int (daligned ?e b) * 10 powi ?e"
    by (simp_all add: dval_aligned)
  then show ?thesis by (simp add: less_decimal_def Let_def)
qed

instance
  by standard (auto simp: le_iff_dval less_iff_dval)

end

definition deq :: "decimal \<Rightarrow> decimal \<Rightarrow> bool" where
  \<comment> \<open>\<open>a == b\<close>: the same number, whatever the exponents\<close>
  "deq a b = (a \<le> b \<and> b \<le> a)"

lemma deq_iff_dval: "deq a b \<longleftrightarrow> dval a = dval b"
  by (auto simp: deq_def le_iff_dval)

lemma deq_refl [simp]: "deq a a"
  by (simp add: deq_iff_dval)

fun opt_deq :: "decimal option \<Rightarrow> decimal option \<Rightarrow> bool" where
  \<comment> \<open>\<open>a == b\<close> of optional decimals\<close>
  "opt_deq None None = True"
| "opt_deq (Some a) (Some b) = deq a b"
| "opt_deq _ _ = False"

lemma opt_deq_refl [simp]: "opt_deq x x"
  by (cases x) simp_all

definition py_min :: "decimal \<Rightarrow> decimal \<Rightarrow> decimal" where
  \<comment> \<open>\<open>min(a, b)\<close> returns the first of equal arguments\<close>
  "py_min a b = (if b < a then b else a)"

definition py_max :: "decimal \<Rightarrow> decimal \<Rightarrow> decimal" where
  "py_max a b = (if a < b then b else a)"

lemma dval_py_min [dval_simps]: "dval (py_min a b) = min (dval a) (dval b)"
  by (simp add: py_min_def less_iff_dval min_def)

lemma dval_py_max [dval_simps]: "dval (py_max a b) = max (dval a) (dval b)"
  by (simp add: py_max_def less_iff_dval max_def)

section \<open>Digits and rounding\<close>

fun ndigits :: "nat \<Rightarrow> nat" where
  "ndigits n = (if n < 10 then 1 else Suc (ndigits (n div 10)))"

declare ndigits.simps [simp del]

lemma ndigits_pos [simp]: "0 < ndigits n"
  by (subst ndigits.simps) simp

lemma ndigits_upper: "n < 10 ^ ndigits n"
proof (induction n rule: ndigits.induct)
  case (1 n)
  show ?case
  proof (cases "n < 10")
    case True
    then show ?thesis by (simp add: ndigits.simps [of n])
  next
    case False
    then have "n div 10 < 10 ^ ndigits (n div 10)" by (rule "1.IH")
    then have "n < 10 * 10 ^ ndigits (n div 10)" by (simp add: div_less_iff_less_mult mult.commute)
    with False show ?thesis by (simp add: ndigits.simps [of n])
  qed
qed

lemma ndigits_lower: "0 < n \<Longrightarrow> 10 ^ (ndigits n - 1) \<le> n"
proof (induction n rule: ndigits.induct)
  case (1 n)
  show ?case
  proof (cases "n < 10")
    case True
    with "1.prems" show ?thesis by (simp add: ndigits.simps [of n])
  next
    case False
    then have "10 ^ (ndigits (n div 10) - 1) \<le> n div 10" using "1.IH" by simp
    then have "10 * 10 ^ (ndigits (n div 10) - 1) \<le> n" by (simp add: less_eq_div_iff_mult_less_eq mult.commute)
    then have "10 ^ ndigits (n div 10) \<le> n"
      by (metis One_nat_def Suc_pred ndigits_pos power_Suc)
    with False show ?thesis by (simp add: ndigits.simps [of n])
  qed
qed

lemma ndigits_le_iff: "0 < k \<Longrightarrow> ndigits n \<le> k \<longleftrightarrow> n < 10 ^ k"
proof
  assume "ndigits n \<le> k"
  then have "(10::nat) ^ ndigits n \<le> 10 ^ k" by (simp add: power_increasing)
  with ndigits_upper [of n] show "n < 10 ^ k" by linarith
next
  assume k: "0 < k" and n: "n < 10 ^ k"
  show "ndigits n \<le> k"
  proof (rule ccontr)
    assume "\<not> ndigits n \<le> k"
    then have "(10::nat) ^ k \<le> 10 ^ (ndigits n - 1)" by (simp add: power_increasing)
    moreover have "0 < n"
      using \<open>\<not> ndigits n \<le> k\<close> k by (cases "n = 0") (auto simp: ndigits.simps [of 0])
    ultimately show False using ndigits_lower [of n] n by linarith
  qed
qed

lemma ndigitsI: "10 ^ k \<le> n \<Longrightarrow> n < 10 ^ Suc k \<Longrightarrow> ndigits n = Suc k"
proof -
  assume n: "10 ^ k \<le> n" "n < 10 ^ Suc k"
  have "\<not> ndigits n \<le> k"
  proof (cases k)
    case (Suc j)
    then show ?thesis using n(1) ndigits_le_iff [of k n] by simp
  qed (use ndigits_pos [of n] in simp)
  then show ?thesis using n(2) ndigits_le_iff [of "Suc k" n] by simp
qed

definition round_half_even :: "nat \<Rightarrow> nat \<Rightarrow> nat" where
  "round_half_even c m = (let q = c div m; r = c mod m in
     if 2 * r < m \<or> (2 * r = m \<and> even q) then q else Suc q)"

lemma round_half_even_err:
  assumes m: "0 < m"
  shows "2 * \<bar>int (round_half_even c m) * int m - int c\<bar> \<le> int m"
proof -
  define q r where "q = c div m" and "r = c mod m"
  have c: "int c = int q * int m + int r"
    by (metis q_def r_def div_mult_mod_eq of_nat_add of_nat_mult)
  have r: "r < m" using m by (simp add: r_def)
  have "round_half_even c m = (if 2 * r < m \<or> (2 * r = m \<and> even q) then q else Suc q)"
    by (simp add: round_half_even_def Let_def q_def r_def)
  then consider "round_half_even c m = q" "2 * r \<le> m" | "round_half_even c m = Suc q" "m \<le> 2 * r"
    by (cases "2 * r < m \<or> (2 * r = m \<and> even q)") auto
  then show ?thesis
  proof cases
    case 1
    then show ?thesis using c by simp
  next
    case 2
    then have "int (round_half_even c m) * int m - int c = int m - int r"
      using c by (simp add: algebra_simps)
    then show ?thesis using 2 r by simp
  qed
qed

lemma round_half_even_le:
  assumes m: "0 < m" and c: "c \<le> k * m"
  shows "round_half_even c m \<le> k"
proof -
  define q r where "q = c div m" and "r = c mod m"
  have c': "c = q * m + r" by (simp add: q_def r_def)
  have "q < k \<or> (q = k \<and> r = 0)"
  proof (rule ccontr)
    assume "\<not> ?thesis"
    then have "k \<le> q" and "q = k \<longrightarrow> 0 < r" by auto
    then have "k * m < c" using m c'
      by (metis add_gr_0 le_neq_implies_less less_add_same_cancel1 mult_less_mono1 trans_less_add1)
    with c show False by simp
  qed
  then show ?thesis
    using m by (auto simp: round_half_even_def Let_def simp flip: q_def r_def)
qed

lemma round_half_even_ge: "0 < m \<Longrightarrow> k * m \<le> c \<Longrightarrow> k \<le> round_half_even c m"
  by (simp add: round_half_even_def Let_def less_eq_div_iff_mult_less_eq le_SucI)

definition dec_fix :: "decimal \<Rightarrow> decimal" where
  \<comment> \<open>\<open>Decimal._fix\<close>: at most 28 digits, rounding half to even\<close>
  "dec_fix d = (let n = ndigits (dcoeff d) in
     if n \<le> prec then d
     else let k = n - prec; c = round_half_even (dcoeff d) (10 ^ k) in
       if c = 10 ^ prec then Dec (dneg d) (10 ^ (prec - 1)) (dexp d + int k + 1)
       else Dec (dneg d) c (dexp d + int k))"

definition repr :: "decimal \<Rightarrow> bool" where
  \<comment> \<open>at most 28 significant digits\<close>
  "repr d = (dcoeff d < 10 ^ prec)"

lemma prec_pos [simp]: "0 < prec" "prec \<noteq> 0"
  by (simp_all add: prec_def)

lemma dec_fix_exact: "repr d \<Longrightarrow> dec_fix d = d"
  by (simp add: repr_def dec_fix_def ndigits_le_iff)

text \<open>Where digits are dropped: the magnitude is the rounded coefficient at the new exponent.\<close>

lemma dec_fix_rounds:
  assumes "\<not> repr d"
  defines "k \<equiv> ndigits (dcoeff d) - prec"
  shows "\<bar>dval (dec_fix d)\<bar> = of_nat (round_half_even (dcoeff d) (10 ^ k)) * 10 powi (dexp d + int k)"
    and "0 < k" and "10 ^ (prec - 1 + k) \<le> dcoeff d" and "dcoeff d < 10 ^ (prec + k)"
proof -
  have n: "prec < ndigits (dcoeff d)"
    using assms by (simp add: repr_def flip: ndigits_le_iff)
  then show k: "0 < k" by (simp add: k_def)
  have pos: "0 < dcoeff d"
    using assms by (metis repr_def gr0I zero_less_numeral zero_less_power)
  show "10 ^ (prec - 1 + k) \<le> dcoeff d"
  proof -
    have "prec - 1 + k = ndigits (dcoeff d) - 1"
      using n prec_pos(1) unfolding k_def by arith
    then show ?thesis using ndigits_lower [OF pos] by simp
  qed
  show "dcoeff d < 10 ^ (prec + k)"
    using ndigits_upper [of "dcoeff d"] n by (simp add: k_def)
  let ?c = "round_half_even (dcoeff d) (10 ^ k)"
  show "\<bar>dval (dec_fix d)\<bar> = of_nat ?c * 10 powi (dexp d + int k)"
  proof (cases "?c = 10 ^ prec")
    case True
    have "dec_fix d = Dec (dneg d) (10 ^ (prec - 1)) (dexp d + int k + 1)"
      using n True by (simp add: dec_fix_def Let_def k_def)
    moreover have "(10::rat) ^ prec = 10 ^ (prec - 1) * 10"
      by (simp add: prec_def)
    ultimately show ?thesis
      using True by (simp add: dval_abs power_int_add)
  next
    case False
    then have "dec_fix d = Dec (dneg d) ?c (dexp d + int k)"
      using n by (simp add: dec_fix_def Let_def k_def)
    then show ?thesis by (simp add: dval_abs)
  qed
qed

lemma dneg_dec_fix [simp]: "dneg (dec_fix d) = dneg d"
  by (simp add: dec_fix_def Let_def)

lemma repr_dec_fix [simp]: "repr (dec_fix d)"
proof (cases "repr d")
  case True
  then show ?thesis by (simp add: dec_fix_exact)
next
  case False
  define k where "k = ndigits (dcoeff d) - prec"
  have "round_half_even (dcoeff d) (10 ^ k) \<le> 10 ^ prec"
    using dec_fix_rounds(4) [OF False] by (intro round_half_even_le) (simp_all add: k_def power_add)
  moreover have "\<not> ndigits (dcoeff d) \<le> prec"
    using False by (simp add: repr_def ndigits_le_iff)
  moreover have "(10::nat) ^ (prec - 1) < 10 ^ prec"
    by (simp add: prec_def)
  ultimately show ?thesis
    unfolding repr_def dec_fix_def Let_def by (simp flip: k_def)
qed

lemma dec_fix_idem [simp]: "dec_fix (dec_fix d) = dec_fix d"
  by (rule dec_fix_exact) simp

text \<open>The relative error of one rounding is at most half a unit in the 28th digit.\<close>

lemma dec_fix_err: "2 * 10 ^ (prec - 1) * \<bar>dval (dec_fix d) - dval d\<bar> \<le> \<bar>dval d\<bar>"
proof (cases "repr d")
  case True
  then show ?thesis by (simp add: dec_fix_exact)
next
  case False
  define k c where "k = ndigits (dcoeff d) - prec" and "c = round_half_even (dcoeff d) (10 ^ k)"
  define D where "D = \<bar>int c * 10 ^ k - int (dcoeff d)\<bar>"
  note R = dec_fix_rounds [OF False, folded k_def, folded c_def]
  have "\<bar>dval (dec_fix d) - dval d\<bar> = \<bar>\<bar>dval (dec_fix d)\<bar> - \<bar>dval d\<bar>\<bar>"
  proof (cases "dneg d")
    case True
    then show ?thesis using dval_sign(1) [of d] dval_sign(1) [of "dec_fix d"] by simp
  next
    case False
    then show ?thesis using dval_sign(2) [of d] dval_sign(2) [of "dec_fix d"] by simp
  qed
  also have "\<bar>dval (dec_fix d)\<bar> - \<bar>dval d\<bar>
      = of_int (int c * 10 ^ k - int (dcoeff d)) * 10 powi dexp d"
    unfolding R(1) by (simp add: dval_abs powi10_add_nat left_diff_distrib)
  finally have E: "\<bar>dval (dec_fix d) - dval d\<bar> = of_int D * 10 powi dexp d"
    by (simp add: D_def abs_mult)
  have "2 * D \<le> 10 ^ k"
    using round_half_even_err [of "10 ^ k" "dcoeff d"] by (simp add: c_def D_def)
  then have "10 ^ (prec - 1) * (2 * D) \<le> 10 ^ (prec - 1) * 10 ^ k"
    by (rule mult_left_mono) simp
  also have "\<dots> = int (10 ^ (prec - 1 + k))"
    by (simp add: power_add)
  also have "\<dots> \<le> int (dcoeff d)"
    using R(3) by (simp only: of_nat_le_iff)
  finally have "2 * 10 ^ (prec - 1) * D \<le> int (dcoeff d)" by simp
  then have "(of_int (2 * 10 ^ (prec - 1) * D) :: rat) \<le> of_int (int (dcoeff d))"
    by (simp only: of_int_le_iff)
  then have "of_int (2 * 10 ^ (prec - 1) * D) * 10 powi dexp d
      \<le> of_int (int (dcoeff d)) * (10::rat) powi dexp d"
    by (rule mult_right_mono) (simp add: less_imp_le)
  then show ?thesis unfolding E dval_abs by (simp add: mult.assoc)
qed

text \<open>Rounding does not cross a number of 28 digits.\<close>

lemma dec_fix_abs_le:
  assumes m: "repr m" and le: "\<bar>dval d\<bar> \<le> \<bar>dval m\<bar>"
  shows "\<bar>dval (dec_fix d)\<bar> \<le> \<bar>dval m\<bar>"
proof (cases "repr d")
  case True
  then show ?thesis using le by (simp add: dec_fix_exact)
next
  case False
  define k where "k = ndigits (dcoeff d) - prec"
  note R = dec_fix_rounds [OF False, folded k_def]
  show ?thesis
  proof (cases "dexp d + int k \<le> dexp m")
    case True
    define N where "N = dcoeff m * 10 ^ nat (dexp m - (dexp d + int k))"
    have M: "\<bar>dval m\<bar> = of_nat N * 10 powi (dexp d + int k)"
      using powi10_split [OF True] by (simp add: dval_abs N_def)
    also have "\<dots> = of_nat (N * 10 ^ k) * 10 powi dexp d"
      by (simp add: powi10_add_nat)
    finally have "of_nat (dcoeff d) * (10::rat) powi dexp d \<le> of_nat (N * 10 ^ k) * 10 powi dexp d"
      using le by (simp add: dval_abs)
    then have "dcoeff d \<le> N * 10 ^ k"
      by (simp only: mult_le_cancel_right_pos powi10_pos of_nat_le_iff)
    then have "round_half_even (dcoeff d) (10 ^ k) \<le> N"
      by (intro round_half_even_le) simp_all
    then show ?thesis unfolding M R(1) by (intro mult_right_mono) (simp_all add: less_imp_le)
  next
    case False
    have "\<bar>dval m\<bar> < of_nat (10 ^ prec) * 10 powi dexp m"
      unfolding dval_abs using m by (intro mult_strict_right_mono) (simp_all add: repr_def flip: of_nat_power)
    also have "\<dots> \<le> of_nat (10 ^ prec) * 10 powi (dexp d + int k - 1)"
      using False by (intro mult_left_mono powi10_mono) simp_all
    also have "\<dots> = of_nat (10 ^ (prec - 1 + k)) * 10 powi dexp d"
      by (simp add: power_int_add power_int_diff power_add prec_def)
    also have "\<dots> \<le> \<bar>dval d\<bar>"
      unfolding dval_abs using R(3) by (intro mult_right_mono) (simp_all only: of_nat_le_iff powi10_pos less_imp_le)
    finally show ?thesis using le by simp
  qed
qed

lemma dec_fix_abs_ge:
  assumes m: "repr m" and le: "\<bar>dval m\<bar> \<le> \<bar>dval d\<bar>"
  shows "\<bar>dval m\<bar> \<le> \<bar>dval (dec_fix d)\<bar>"
proof (cases "repr d")
  case True
  then show ?thesis using le by (simp add: dec_fix_exact)
next
  case False
  define k where "k = ndigits (dcoeff d) - prec"
  note R = dec_fix_rounds [OF False, folded k_def]
  show ?thesis
  proof (cases "dexp d + int k \<le> dexp m")
    case True
    define N where "N = dcoeff m * 10 ^ nat (dexp m - (dexp d + int k))"
    have M: "\<bar>dval m\<bar> = of_nat N * 10 powi (dexp d + int k)"
      using powi10_split [OF True] by (simp add: dval_abs N_def)
    also have "\<dots> = of_nat (N * 10 ^ k) * 10 powi dexp d"
      by (simp add: powi10_add_nat)
    finally have "of_nat (N * 10 ^ k) * 10 powi dexp d \<le> of_nat (dcoeff d) * (10::rat) powi dexp d"
      using le by (simp add: dval_abs)
    then have "N * 10 ^ k \<le> dcoeff d"
      by (simp only: mult_le_cancel_right_pos powi10_pos of_nat_le_iff)
    then have "N \<le> round_half_even (dcoeff d) (10 ^ k)"
      by (intro round_half_even_ge) simp_all
    then show ?thesis unfolding M R(1) by (intro mult_right_mono) (simp_all add: less_imp_le)
  next
    case False
    have "10 ^ (prec - 1) \<le> round_half_even (dcoeff d) (10 ^ k)"
      using R(3) by (intro round_half_even_ge) (simp_all add: power_add)
    then have c: "(of_nat (10 ^ (prec - 1)) :: rat) \<le> of_nat (round_half_even (dcoeff d) (10 ^ k))"
      by (simp only: of_nat_le_iff)
    have "\<bar>dval m\<bar> \<le> of_nat (10 ^ prec) * 10 powi dexp m"
      unfolding dval_abs using m
      by (intro mult_right_mono) (simp_all add: repr_def less_imp_le flip: of_nat_power)
    also have "\<dots> \<le> of_nat (10 ^ prec) * 10 powi (dexp d + int k - 1)"
      using False by (intro mult_left_mono powi10_mono) simp_all
    also have "\<dots> = of_nat (10 ^ (prec - 1)) * 10 powi (dexp d + int k)"
      by (simp add: power_int_add power_int_diff prec_def)
    also have "\<dots> \<le> \<bar>dval (dec_fix d)\<bar>"
      unfolding R(1) using c by (intro mult_right_mono) (simp_all only: powi10_pos less_imp_le)
    finally show ?thesis .
  qed
qed

lemma dec_fix_le: "repr m \<Longrightarrow> dval d \<le> dval m \<Longrightarrow> dval (dec_fix d) \<le> dval m"
  using dec_fix_abs_le [of m d] dec_fix_abs_ge [of m d] dval_sign [of d] dval_sign [of m]
    dval_sign [of "dec_fix d"]
  by (cases "dneg d"; cases "dneg m") auto

lemma dec_fix_ge: "repr m \<Longrightarrow> dval m \<le> dval d \<Longrightarrow> dval m \<le> dval (dec_fix d)"
  using dec_fix_abs_le [of m d] dec_fix_abs_ge [of m d] dval_sign [of d] dval_sign [of m]
    dval_sign [of "dec_fix d"]
  by (cases "dneg d"; cases "dneg m") auto

section \<open>Sums and products\<close>

definition dplus_exact :: "decimal \<Rightarrow> decimal \<Rightarrow> decimal" where
  \<comment> \<open>the exact sum at the smaller exponent; a zero is negative only if both arguments are\<close>
  "dplus_exact a b = (let e = min (dexp a) (dexp b); v = daligned e a + daligned e b in
     Dec (v < 0 \<or> (v = 0 \<and> dneg a \<and> dneg b)) (nat \<bar>v\<bar>) e)"

definition dtimes_exact :: "decimal \<Rightarrow> decimal \<Rightarrow> decimal" where
  "dtimes_exact a b = Dec (dneg a \<noteq> dneg b) (dcoeff a * dcoeff b) (dexp a + dexp b)"

definition copy_negate :: "decimal \<Rightarrow> decimal" where
  "copy_negate d = Dec (\<not> dneg d) (dcoeff d) (dexp d)"

instantiation decimal :: "{zero, one, plus, minus, times, uminus, abs}"
begin

definition zero_decimal :: decimal where
  "zero_decimal = Dec False 0 0"

definition one_decimal :: decimal where
  "one_decimal = Dec False 1 0"

definition plus_decimal :: "decimal \<Rightarrow> decimal \<Rightarrow> decimal" where
  "plus_decimal a b = dec_fix (dplus_exact a b)"

definition minus_decimal :: "decimal \<Rightarrow> decimal \<Rightarrow> decimal" where
  "minus_decimal a b = dec_fix (dplus_exact a (copy_negate b))"

definition times_decimal :: "decimal \<Rightarrow> decimal \<Rightarrow> decimal" where
  "times_decimal a b = dec_fix (dtimes_exact a b)"

definition uminus_decimal :: "decimal \<Rightarrow> decimal" where
  \<comment> \<open>\<open>-d\<close> of a zero is the positive zero\<close>
  "uminus_decimal d = dec_fix (Dec (\<not> dneg d \<and> dcoeff d \<noteq> 0) (dcoeff d) (dexp d))"

definition abs_decimal :: "decimal \<Rightarrow> decimal" where
  "abs_decimal d = dec_fix (Dec False (dcoeff d) (dexp d))"

instance ..

end

definition dec_of_int :: "int \<Rightarrow> decimal" where
  \<comment> \<open>\<open>Decimal(n)\<close>, exact\<close>
  "dec_of_int n = Dec (n < 0) (nat \<bar>n\<bar>) 0"

lemma dval_zero [simp, dval_simps]: "dval 0 = 0"
  by (simp add: zero_decimal_def dval_def dint_def)

lemma dval_one [simp, dval_simps]: "dval 1 = 1"
  by (simp add: one_decimal_def dval_def dint_def)

lemma dval_of_int [simp, dval_simps]: "dval (dec_of_int n) = of_int n"
  by (simp add: dec_of_int_def dval_def dint_def)

lemma dval_Dec: "dval (Dec s c e) = (if s then - of_nat c else of_nat c) * 10 powi e"
  by (simp add: dval_def dint_def)

lemma repr_zero [simp]: "repr 0" and repr_one [simp]: "repr 1"
  by (simp_all add: repr_def zero_decimal_def one_decimal_def prec_def)

lemma dval_plus_exact [dval_simps]: "dval (dplus_exact a b) = dval a + dval b"
proof -
  let ?e = "min (dexp a) (dexp b)"
  have "dval (dplus_exact a b) = of_int (daligned ?e a + daligned ?e b) * 10 powi ?e"
    by (auto simp: dplus_exact_def Let_def dval_def dint_def)
  then show ?thesis by (simp add: dval_aligned [of ?e] distrib_right)
qed

lemma dval_times_exact [dval_simps]: "dval (dtimes_exact a b) = dval a * dval b"
  by (auto simp: dtimes_exact_def dval_def dint_def power_int_add)

lemma dval_copy_negate [simp, dval_simps]: "dval (copy_negate d) = - dval d"
  by (simp add: copy_negate_def dval_def dint_def)

lemma repr_plus [simp]: "repr (a + b)" and repr_minus [simp]: "repr (a - b)"
  and repr_times [simp]: "repr (a * b)" and repr_uminus [simp]: "repr (- a)"
  and repr_abs [simp]: "repr \<bar>a\<bar>" for a b :: decimal
  by (simp_all add: plus_decimal_def minus_decimal_def times_decimal_def uminus_decimal_def
      abs_decimal_def)

text \<open>Rounding of each operation: bounded by any number of 28 digits that bounds the exact result.\<close>

lemma plus_le: "repr m \<Longrightarrow> dval a + dval b \<le> dval m \<Longrightarrow> dval (a + b) \<le> dval m"
  by (simp add: plus_decimal_def dec_fix_le dval_plus_exact)

lemma plus_ge: "repr m \<Longrightarrow> dval m \<le> dval a + dval b \<Longrightarrow> dval m \<le> dval (a + b)"
  by (simp add: plus_decimal_def dec_fix_ge dval_plus_exact)

lemma minus_le: "repr m \<Longrightarrow> dval a - dval b \<le> dval m \<Longrightarrow> dval (a - b) \<le> dval m"
  by (simp add: minus_decimal_def dec_fix_le dval_plus_exact)

lemma minus_ge: "repr m \<Longrightarrow> dval m \<le> dval a - dval b \<Longrightarrow> dval m \<le> dval (a - b)"
  by (simp add: minus_decimal_def dec_fix_ge dval_plus_exact)

lemma times_le: "repr m \<Longrightarrow> dval a * dval b \<le> dval m \<Longrightarrow> dval (a * b) \<le> dval m"
  by (simp add: times_decimal_def dec_fix_le dval_times_exact)

lemma times_ge: "repr m \<Longrightarrow> dval m \<le> dval a * dval b \<Longrightarrow> dval m \<le> dval (a * b)"
  by (simp add: times_decimal_def dec_fix_ge dval_times_exact)

lemma plus_nonneg: "0 \<le> dval a \<Longrightarrow> 0 \<le> dval b \<Longrightarrow> 0 \<le> dval (a + b)"
  using plus_ge [of 0 a b] by simp

lemma times_nonneg: "0 \<le> dval a \<Longrightarrow> 0 \<le> dval b \<Longrightarrow> 0 \<le> dval (a * b)"
  using times_ge [of 0 a b] by simp

text \<open>Exactness: a result that some 28-digit number equals is that number.\<close>

lemma plus_exact: "repr m \<Longrightarrow> dval m = dval a + dval b \<Longrightarrow> dval (a + b) = dval m"
  using plus_le [of m a b] plus_ge [of m a b] by simp

lemma minus_exact: "repr m \<Longrightarrow> dval m = dval a - dval b \<Longrightarrow> dval (a - b) = dval m"
  using minus_le [of m a b] minus_ge [of m a b] by simp

lemma times_exact: "repr m \<Longrightarrow> dval m = dval a * dval b \<Longrightarrow> dval (a * b) = dval m"
  using times_le [of m a b] times_ge [of m a b] by simp

lemma dval_uminus: "repr d \<Longrightarrow> dval (- d) = - dval d"
  by (subst uminus_decimal_def, subst dec_fix_exact) (simp_all add: repr_def dval_def dint_def)

section \<open>Quotients\<close>

fun strip_zeros :: "nat \<Rightarrow> nat \<Rightarrow> nat \<times> nat" where
  \<comment> \<open>drop at most \<open>k\<close> trailing zeros of \<open>q\<close>; also what is left of \<open>k\<close>\<close>
  "strip_zeros k q = (if k = 0 \<or> q mod 10 \<noteq> 0 then (q, k) else strip_zeros (k - 1) (q div 10))"

declare strip_zeros.simps [simp del]

lemma strip_zeros_value:
  "strip_zeros k q = (q', k') \<Longrightarrow> k' \<le> k \<and> q = q' * 10 ^ (k - k')"
proof (induction k q rule: strip_zeros.induct)
  case (1 k q)
  show ?case
  proof (cases "k = 0 \<or> q mod 10 \<noteq> 0")
    case True
    with "1.prems" show ?thesis by (auto simp: strip_zeros.simps [of k q])
  next
    case False
    with "1.prems" have "strip_zeros (k - 1) (q div 10) = (q', k')"
      by (simp add: strip_zeros.simps [of k q])
    with False "1.IH" have IH: "k' \<le> k - 1" "q div 10 = q' * 10 ^ (k - 1 - k')" by auto
    moreover from False have "q = 10 * (q div 10)" by auto
    moreover have "k - k' = Suc (k - 1 - k')" using IH(1) False by arith
    ultimately show ?thesis using False by simp
  qed
qed

definition dquot_shift :: "decimal \<Rightarrow> decimal \<Rightarrow> int" where
  "dquot_shift a b = int (ndigits (dcoeff b)) - int (ndigits (dcoeff a)) + int prec + 1"

definition dquot_num :: "decimal \<Rightarrow> decimal \<Rightarrow> nat" where
  "dquot_num a b = dcoeff a * 10 ^ nat (dquot_shift a b)"

definition dquot_den :: "decimal \<Rightarrow> decimal \<Rightarrow> nat" where
  "dquot_den a b = dcoeff b * 10 ^ nat (- dquot_shift a b)"

definition dquot_raw :: "decimal \<Rightarrow> decimal \<Rightarrow> decimal" where
  \<comment> \<open>\<open>Decimal.__truediv__\<close> before the final rounding: at least 29 digits of the quotient, the
    last one moved off 0 and 5 when a remainder is left\<close>
  "dquot_raw a b = (let neg = (dneg a \<noteq> dneg b); ideal = dexp a - dexp b in
     if dcoeff a = 0 then Dec neg 0 ideal
     else let shift = dquot_shift a b; e = ideal - shift;
         q = dquot_num a b div dquot_den a b in
       if dquot_num a b mod dquot_den a b \<noteq> 0
       then Dec neg (if q mod 5 = 0 then q + 1 else q) e
       else let (q', k) = strip_zeros (nat shift) q in Dec neg q' (e + int (nat shift - k)))"

definition dquot :: "decimal \<Rightarrow> decimal \<Rightarrow> decimal" where
  \<comment> \<open>the quotient by a divisor known not to be zero\<close>
  "dquot a b = dec_fix (dquot_raw a b)"

definition ddiv :: "decimal \<Rightarrow> decimal \<Rightarrow> decimal res" where
  \<comment> \<open>\<open>a / b\<close>: zero by zero is undefined rather than a division by zero\<close>
  "ddiv a b = (if dzero b then Inl (if dzero a then InvalidOperation else ZeroDivision) else Inr (dquot a b))"

lemma dneg_dquot_raw: "dneg (dquot_raw a b) = (dneg a \<noteq> dneg b)"
  by (simp add: dquot_raw_def Let_def split: prod.split)

lemma dquot_ratio:
  assumes "\<not> dzero b"
  shows "\<bar>dval a / dval b\<bar> = of_nat (dquot_num a b) / of_nat (dquot_den a b)
    * 10 powi (dexp a - dexp b - dquot_shift a b)"
proof -
  have p: "(10::rat) powi s = 10 ^ nat s / 10 ^ nat (- s)" for s
  proof (cases "0 \<le> s")
    case True
    then show ?thesis by (simp add: power_int_def)
  next
    case False
    then show ?thesis by (simp add: power_int_def power_one_over)
  qed
  have "\<bar>dval a / dval b\<bar>
      = of_nat (dcoeff a) / of_nat (dcoeff b) * 10 powi (dexp a - dexp b)"
    by (simp add: abs_divide dval_abs power_int_diff)
  also have "(10::rat) powi (dexp a - dexp b)
      = 10 powi dquot_shift a b * 10 powi (dexp a - dexp b - dquot_shift a b)"
    by (simp flip: power_int_add)
  finally show ?thesis
    by (simp add: dquot_num_def dquot_den_def p [of "dquot_shift a b"])
qed

lemma dquot_digits:
  assumes "\<not> dzero b" and "\<not> dzero a"
  shows "10 ^ prec * dquot_den a b \<le> dquot_num a b" and "0 < dquot_den a b"
proof -
  let ?s = "dquot_shift a b" and ?na = "ndigits (dcoeff a)" and ?nb = "ndigits (dcoeff b)"
  show "0 < dquot_den a b" using assms by (simp add: dquot_den_def dzero_def)
  have "0 < na \<Longrightarrow> s = int nb - int na + int p + 1 \<Longrightarrow> p + nb + nat (- s) = na - 1 + nat s"
    for na nb p :: nat and s by arith
  then have e: "prec + ?nb + nat (- ?s) = ?na - 1 + nat ?s"
    by (simp only: dquot_shift_def ndigits_pos)
  have "10 ^ prec * dquot_den a b \<le> 10 ^ prec * (10 ^ ?nb * 10 ^ nat (- ?s))"
    using ndigits_upper [of "dcoeff b"] by (simp add: dquot_den_def)
  also have "\<dots> = 10 ^ (?na - 1) * 10 ^ nat ?s"
    by (simp only: mult.assoc power_add [symmetric] add.assoc [symmetric] e)
  also have "\<dots> \<le> dquot_num a b"
    using ndigits_lower [of "dcoeff a"] assms by (simp add: dquot_num_def dzero_def)
  finally show "10 ^ prec * dquot_den a b \<le> dquot_num a b" .
qed

text \<open>What the raw quotient is: exact, or within one unit of an integer of at least 29 digits.\<close>

lemma dquot_raw_cases:
  assumes b: "\<not> dzero b"
  obtains (exact) "\<bar>dval (dquot_raw a b)\<bar> = \<bar>dval a / dval b\<bar>"
  | (inexact) q Q e where "\<bar>dval (dquot_raw a b)\<bar> = of_nat Q * 10 powi e"
      and "of_nat q * 10 powi e < \<bar>dval a / dval b\<bar>" and "\<bar>dval a / dval b\<bar> < of_nat (q + 1) * 10 powi e"
      and "10 ^ prec \<le> q" and "q \<le> Q" and "Q \<le> q + 1"
proof (cases "dzero a")
  case True
  then have "dval a = 0" and "dval (dquot_raw a b) = 0"
    by (simp_all add: dval_zero_iff) (simp add: dquot_raw_def dzero_def Let_def)
  then show ?thesis using exact by simp
next
  case False
  define N D s where "N = dquot_num a b" and "D = dquot_den a b" and "s = dquot_shift a b"
  define e q where "e = dexp a - dexp b - s" and "q = N div D"
  note dg = dquot_digits [OF b False, folded N_def D_def]
  note ratio = dquot_ratio [OF b, of a, folded N_def D_def s_def, folded e_def]
  have raw: "dquot_raw a b = (if N mod D \<noteq> 0
      then Dec (dneg a \<noteq> dneg b) (if q mod 5 = 0 then q + 1 else q) e
      else case strip_zeros (nat s) q of (q', k) \<Rightarrow> Dec (dneg a \<noteq> dneg b) q' (e + int (nat s - k)))"
    using False by (simp add: dquot_raw_def dzero_def Let_def N_def D_def s_def e_def q_def)
  show ?thesis
  proof (cases "N mod D = 0")
    case True
    obtain q' k where st: "strip_zeros (nat s) q = (q', k)" by fastforce
    from strip_zeros_value [OF st] have "q = q' * 10 ^ (nat s - k)" by simp
    then have "\<bar>dval (dquot_raw a b)\<bar> = of_nat q * 10 powi e"
      using True st by (simp add: raw dval_abs powi10_add_nat)
    moreover have "of_nat q = (of_nat N / of_nat D :: rat)"
      using True dg(2) by (auto simp: q_def)
    ultimately show ?thesis using ratio exact by simp
  next
    case False
    have N: "N = q * D + N mod D" by (simp add: q_def)
    have "q * D < N" "N < (q + 1) * D"
    proof -
      show "q * D < N" using N False by linarith
      have "N mod D < D" using dg(2) by simp
      with N show "N < (q + 1) * D" by simp
    qed
    then have "(of_nat (q * D) :: rat) < of_nat N" "(of_nat N :: rat) < of_nat ((q + 1) * D)"
      by (simp_all only: of_nat_less_iff)
    then have "of_nat q < (of_nat N / of_nat D :: rat)" "(of_nat N / of_nat D :: rat) < of_nat (q + 1)"
      using dg(2) by (simp_all add: field_simps)
    then have "of_nat q * 10 powi e < \<bar>dval a / dval b\<bar>" "\<bar>dval a / dval b\<bar> < of_nat (q + 1) * 10 powi e"
      unfolding ratio by (simp_all only: mult_less_cancel_right_pos powi10_pos)
    moreover have "10 ^ prec \<le> q"
      using dg by (simp add: q_def less_eq_div_iff_mult_less_eq)
    moreover define Q where "Q = (if q mod 5 = 0 then q + 1 else q)"
    moreover have "\<bar>dval (dquot_raw a b)\<bar> = of_nat Q * 10 powi e"
      using False by (simp add: raw dval_abs Q_def)
    moreover have "q \<le> Q" "Q \<le> q + 1" by (simp_all add: Q_def)
    ultimately show ?thesis by (intro inexact [of Q e q])
  qed
qed

lemma dquot_raw_abs_le:
  assumes b: "\<not> dzero b" and m: "repr m" and le: "\<bar>dval a / dval b\<bar> \<le> \<bar>dval m\<bar>"
  shows "\<bar>dval (dquot_raw a b)\<bar> \<le> \<bar>dval m\<bar>"
  using b
proof (cases rule: dquot_raw_cases [of b a])
  case exact
  then show ?thesis using le by simp
next
  case (inexact q Q e)
  show ?thesis
  proof (cases "e \<le> dexp m")
    case True
    define N where "N = dcoeff m * 10 ^ nat (dexp m - e)"
    have M: "\<bar>dval m\<bar> = of_nat N * 10 powi e"
      using powi10_split [OF True] by (simp add: dval_abs N_def)
    with inexact(2) le have "of_nat q * (10::rat) powi e < of_nat N * 10 powi e" by linarith
    then have "q < N" by (simp only: mult_less_cancel_right_pos powi10_pos of_nat_less_iff)
    then have "Q \<le> N" using inexact(6) by simp
    then show ?thesis unfolding M inexact(1) by (intro mult_right_mono) (simp_all add: less_imp_le)
  next
    case False
    have "\<bar>dval m\<bar> \<le> of_nat (10 ^ prec) * 10 powi dexp m"
      unfolding dval_abs using m
      by (intro mult_right_mono) (simp_all add: repr_def less_imp_le flip: of_nat_power)
    also have "\<dots> \<le> of_nat q * 10 powi e"
      using False inexact(4) by (intro mult_mono powi10_mono) (simp_all add: less_imp_le flip: of_nat_power)
    finally show ?thesis using inexact(2) le by simp
  qed
qed

lemma dquot_raw_abs_ge:
  assumes b: "\<not> dzero b" and m: "repr m" and le: "\<bar>dval m\<bar> \<le> \<bar>dval a / dval b\<bar>"
  shows "\<bar>dval m\<bar> \<le> \<bar>dval (dquot_raw a b)\<bar>"
  using b
proof (cases rule: dquot_raw_cases [of b a])
  case exact
  then show ?thesis using le by simp
next
  case (inexact q Q e)
  have qQ: "of_nat q * (10::rat) powi e \<le> of_nat Q * 10 powi e"
    using inexact(5) by (intro mult_right_mono) (simp_all add: less_imp_le)
  show ?thesis
  proof (cases "e \<le> dexp m")
    case True
    define N where "N = dcoeff m * 10 ^ nat (dexp m - e)"
    have M: "\<bar>dval m\<bar> = of_nat N * 10 powi e"
      using powi10_split [OF True] by (simp add: dval_abs N_def)
    with inexact(3) le have "of_nat N * (10::rat) powi e < of_nat (q + 1) * 10 powi e" by linarith
    then have "N \<le> q" by (simp only: mult_less_cancel_right_pos powi10_pos of_nat_less_iff)
    then have "of_nat N * (10::rat) powi e \<le> of_nat q * 10 powi e"
      by (intro mult_right_mono) (simp_all add: less_imp_le)
    then show ?thesis unfolding M inexact(1) using qQ by linarith
  next
    case False
    have "\<bar>dval m\<bar> \<le> of_nat (10 ^ prec) * 10 powi dexp m"
      unfolding dval_abs using m
      by (intro mult_right_mono) (simp_all add: repr_def less_imp_le flip: of_nat_power)
    also have "\<dots> \<le> of_nat q * 10 powi e"
      using False inexact(4) by (intro mult_mono powi10_mono) (simp_all add: less_imp_le flip: of_nat_power)
    finally show ?thesis unfolding inexact(1) using qQ by linarith
  qed
qed

lemma quot_sign:
  "dneg (dquot_raw a b) \<Longrightarrow> dval a / dval b \<le> 0" "\<not> dneg (dquot_raw a b) \<Longrightarrow> 0 \<le> dval a / dval b"
  using dval_sign [of a] dval_sign [of b]
  by (cases "dneg a"; cases "dneg b"; simp add: dneg_dquot_raw divide_nonpos_nonneg
      divide_nonneg_nonpos divide_nonpos_nonpos)+

lemma same_sign_cross:
  fixes x r m :: rat
  assumes "(x \<le> 0 \<and> r \<le> 0) \<or> (0 \<le> x \<and> 0 \<le> r)"
    and "\<bar>r\<bar> \<le> \<bar>m\<bar> \<Longrightarrow> \<bar>x\<bar> \<le> \<bar>m\<bar>" and "\<bar>m\<bar> \<le> \<bar>r\<bar> \<Longrightarrow> \<bar>m\<bar> \<le> \<bar>x\<bar>"
  shows "r \<le> m \<Longrightarrow> x \<le> m" and "m \<le> r \<Longrightarrow> m \<le> x"
  using assms by linarith+

lemma dquot_raw_sign:
  "(dval (dquot_raw a b) \<le> 0 \<and> dval a / dval b \<le> 0) \<or> (0 \<le> dval (dquot_raw a b) \<and> 0 \<le> dval a / dval b)"
  using quot_sign [of a b] dval_sign [of "dquot_raw a b"] by blast

lemma dquot_le: "\<not> dzero b \<Longrightarrow> repr m \<Longrightarrow> dval a / dval b \<le> dval m \<Longrightarrow> dval (dquot a b) \<le> dval m"
  unfolding dquot_def
  by (intro dec_fix_le same_sign_cross(1) [OF dquot_raw_sign dquot_raw_abs_le dquot_raw_abs_ge])

lemma dquot_ge: "\<not> dzero b \<Longrightarrow> repr m \<Longrightarrow> dval m \<le> dval a / dval b \<Longrightarrow> dval m \<le> dval (dquot a b)"
  unfolding dquot_def
  by (intro dec_fix_ge same_sign_cross(2) [OF dquot_raw_sign dquot_raw_abs_le dquot_raw_abs_ge])

lemma dquot_exact:
  "\<not> dzero b \<Longrightarrow> repr m \<Longrightarrow> dval m = dval a / dval b \<Longrightarrow> dval (dquot a b) = dval m"
  using dquot_le [of b m a] dquot_ge [of b m a] by simp

lemma dquot_nonneg: "\<not> dzero b \<Longrightarrow> 0 \<le> dval a \<Longrightarrow> 0 \<le> dval b \<Longrightarrow> 0 \<le> dval (dquot a b)"
  using dquot_ge [of b 0 a] by simp

lemma repr_dquot [simp]: "repr (dquot a b)"
  by (simp add: dquot_def)

text \<open>
  The integer part of a rounded quotient of two amounts on one decimal grid is the integer
  quotient of their scaled values, as long as these leave one digit of the context unused.
\<close>

lemma dquot_floor:
  assumes a: "dval a = of_nat N * g" and b: "dval b = of_nat D * g"
    and g: "0 < g" and D: "0 < D" and room: "N + D \<le> 10 ^ (prec - 1)"
  shows "of_nat (N div D) \<le> dval (dquot a b)" and "dval (dquot a b) < of_nat (N div D) + 1"
proof -
  have b0: "\<not> dzero b"
    using b g D by (simp flip: dval_zero_iff)
  have q: "dval a / dval b = of_nat N / of_nat D"
    using a b g by simp
  define K j P where "K = N div D" and "j = ndigits D" and "P = (10::nat) ^ (prec - 1)"
  have pow: "(10::nat) ^ prec = 10 * P" by (simp add: P_def prec_def)
  have room: "N + D \<le> P" using room by (simp add: P_def)
  have KD: "K * D \<le> N" by (simp add: K_def)
  have ND: "N + 1 \<le> (K + 1) * D"
    using dividend_less_div_times [OF D, of N] by (simp add: K_def)
  have "K \<le> N" by (simp add: K_def)
  then have "K < 10 ^ prec" using room D pow by linarith
  then have "repr (dec_of_int (int K))" by (simp add: repr_def dec_of_int_def)
  moreover have "(of_nat (K * D) :: rat) \<le> of_nat N" using KD by (simp only: of_nat_le_iff)
  then have "of_nat K \<le> dval a / dval b" using D by (simp add: q field_simps)
  ultimately show "of_nat (N div D) \<le> dval (dquot a b)"
    using dquot_ge [OF b0, of "dec_of_int (int K)" a] by (simp add: K_def)
  define m where "m = Dec False ((K + 1) * 10 ^ j - 1) (- int j)"
  have j: "D < 10 ^ j" "10 ^ j \<le> 10 * D"
  proof -
    show "D < 10 ^ j" by (simp add: j_def ndigits_upper)
    have "10 ^ (j - 1) \<le> D" using ndigits_lower [OF D] by (simp add: j_def)
    moreover have "j = Suc (j - 1)" by (simp add: j_def)
    then have "(10::nat) ^ j = 10 * 10 ^ (j - 1)" by (metis power_Suc)
    ultimately show "10 ^ j \<le> 10 * D" by simp
  qed
  have "(K + 1) * 10 ^ j \<le> (K + 1) * (10 * D)" using j(2) by (rule mult_left_mono) simp
  also have "\<dots> = 10 * (K * D + D)" by (simp add: algebra_simps)
  also have "\<dots> \<le> 10 ^ prec" using KD room unfolding pow by (intro mult_left_mono) simp_all
  finally have "repr m" using j(1) by (simp add: repr_def m_def less_imp_diff_less)
  have "1 \<le> (K + 1) * 10 ^ j" using j(1) by (simp add: Suc_le_eq)
  then have mval: "dval m = of_nat K + 1 - 1 / 10 ^ j"
    by (simp add: m_def dval_def dint_def of_nat_diff power_int_minus field_simps)
  have "(of_nat (N + 1) :: rat) \<le> of_nat ((K + 1) * D)" using ND by (simp only: of_nat_le_iff)
  then have "(of_nat N :: rat) / of_nat D \<le> of_nat K + 1 - 1 / of_nat D"
    using D by (simp add: field_simps)
  moreover have "(of_nat D :: rat) \<le> of_nat (10 ^ j)" using j(1) by (simp only: of_nat_le_iff less_imp_le)
  then have "1 / (10 ^ j :: rat) \<le> 1 / of_nat D" using D by (intro divide_left_mono) simp_all
  ultimately have "dval a / dval b \<le> dval m" by (simp add: q mval)
  then have "dval (dquot a b) \<le> dval m" by (rule dquot_le [OF b0 \<open>repr m\<close>])
  also have "\<dots> < of_nat K + 1" by (simp add: mval)
  finally show "dval (dquot a b) < of_nat (N div D) + 1" by (simp add: K_def)
qed

section \<open>Rounding to an exponent\<close>

datatype rounding = HalfUp | HalfEven | Floor | Ceiling

definition ceil_div :: "nat \<Rightarrow> nat \<Rightarrow> nat" where
  "ceil_div c m = (if c mod m = 0 then c div m else Suc (c div m))"

fun round_coeff :: "rounding \<Rightarrow> bool \<Rightarrow> nat \<Rightarrow> nat \<Rightarrow> nat" where
  "round_coeff HalfUp neg c m = (2 * c + m) div (2 * m)"
| "round_coeff HalfEven neg c m = round_half_even c m"
| "round_coeff Floor neg c m = (if neg then ceil_div c m else c div m)"
| "round_coeff Ceiling neg c m = (if neg then c div m else ceil_div c m)"

definition rescale :: "rounding \<Rightarrow> int \<Rightarrow> decimal \<Rightarrow> decimal" where
  \<comment> \<open>\<open>Decimal._rescale\<close>\<close>
  "rescale r e d =
     (if e \<le> dexp d then Dec (dneg d) (dcoeff d * 10 ^ nat (dexp d - e)) e
      else Dec (dneg d) (round_coeff r (dneg d) (dcoeff d) (10 ^ nat (e - dexp d))) e)"

definition quantize :: "rounding \<Rightarrow> int \<Rightarrow> decimal \<Rightarrow> decimal res" where
  \<comment> \<open>\<open>d.quantize(Decimal(1).scaleb(e), rounding=r)\<close>: a result of more than 28 digits is invalid\<close>
  "quantize r e d = (let q = rescale r e d in if repr q then Inr q else Inl InvalidOperation)"

definition to_integral :: "rounding \<Rightarrow> decimal \<Rightarrow> decimal" where
  "to_integral r d = (if 0 \<le> dexp d then d else rescale r 0 d)"

definition dec_int :: "decimal \<Rightarrow> int" where
  \<comment> \<open>\<open>int(d)\<close>, towards zero\<close>
  "dec_int d = (let v = (if 0 \<le> dexp d then dcoeff d * 10 ^ nat (dexp d)
       else dcoeff d div 10 ^ nat (- dexp d)) in if dneg d then - int v else int v)"

definition dmod :: "decimal \<Rightarrow> decimal \<Rightarrow> decimal res" where
  \<comment> \<open>\<open>a % b\<close>: the integer quotient must have at most 28 digits\<close>
  "dmod a b = (if dzero b then Inl InvalidOperation
     else let e = min (dexp a) (dexp b); x = nat \<bar>daligned e a\<bar>; y = nat \<bar>daligned e b\<bar> in
       if x div y < 10 ^ prec then Inr (dec_fix (Dec (dneg a) (x mod y) e))
       else Inl InvalidOperation)"

definition dec_str :: "decimal \<Rightarrow> string" where
  \<comment> \<open>\<open>str(d)\<close>, the to-scientific-string conversion\<close>
  "dec_str d = (let digits = nat_str (dcoeff d); n = int (length digits); left = dexp d + n;
     dot = (if dexp d \<le> 0 \<and> -6 < left then left else 1);
     body = (if dot \<le> 0 then ''0.'' @ replicate (nat (- dot)) (CHR ''0'') @ digits
       else if n \<le> dot then digits @ replicate (nat (dot - n)) (CHR ''0'')
       else take (nat dot) digits @ ''.'' @ drop (nat dot) digits)
     in (if dneg d then ''-'' else []) @ body
       @ (if left = dot then [] else ''E'' @ (if left < dot then ''-'' else ''+'')
           @ nat_str (nat \<bar>left - dot\<bar>)))"

lemma dneg_rescale [simp]: "dneg (rescale r e d) = dneg d"
  by (simp add: rescale_def)

lemma dexp_rescale [simp]: "dexp (rescale r e d) = e"
  by (simp add: rescale_def)

lemma rescale_exact: "e \<le> dexp d \<Longrightarrow> dval (rescale r e d) = dval d"
  by (simp add: rescale_def dval_def dint_def powi10_split [of e "dexp d"])

lemma rescale_cong: "dneg a = dneg b \<Longrightarrow> dval a = dval b \<Longrightarrow> e \<le> dexp a \<Longrightarrow> e \<le> dexp b
    \<Longrightarrow> rescale r e a = rescale r e b"
proof -
  assume s: "dneg a = dneg b" and v: "dval a = dval b" and ea: "e \<le> dexp a" and eb: "e \<le> dexp b"
  from v have "daligned e a = daligned e b"
    by (simp add: dval_aligned [OF ea] dval_aligned [OF eb])
  then have "int (dcoeff a * 10 ^ nat (dexp a - e)) = int (dcoeff b * 10 ^ nat (dexp b - e))"
    using s by (cases "dneg a") (simp_all add: daligned_def dint_def)
  then have "dcoeff a * 10 ^ nat (dexp a - e) = dcoeff b * 10 ^ nat (dexp b - e)"
    by (simp only: of_nat_eq_iff)
  then show ?thesis using s ea eb by (simp add: rescale_def)
qed

text \<open>Rounding to an exponent depends on the number alone, not on how it is written.\<close>

lemma round_coeff_mult:
  assumes m: "0 < m" and p: "0 < p"
  shows "round_coeff r neg (c * p) (m * p) = round_coeff r neg c m"
proof -
  have dm: "c * p div (m * p) = c div m" "c * p mod (m * p) = c mod m * p"
    using p by simp_all
  have lt: "2 * (c mod m * p) < m * p \<longleftrightarrow> 2 * (c mod m) < m" "2 * (c mod m * p) = m * p \<longleftrightarrow> 2 * (c mod m) = m"
    using p by (simp_all flip: mult.assoc)
  have "(2 * (c * p) + m * p) div (2 * (m * p)) = (2 * c + m) * p div (2 * m * p)"
    by (simp add: algebra_simps)
  also have "\<dots> = (2 * c + m) div (2 * m)" using p by simp
  finally have hu: "(2 * (c * p) + m * p) div (2 * (m * p)) = (2 * c + m) div (2 * m)" .
  have rhe: "round_half_even (c * p) (m * p) = round_half_even c m"
    unfolding round_half_even_def Let_def dm lt ..
  have cd: "ceil_div (c * p) (m * p) = ceil_div c m"
    using p unfolding ceil_div_def dm by simp
  show ?thesis by (cases r) (simp_all add: hu rhe cd dm del: mult_Suc_right)
qed

lemma round_coeff_exact: "0 < m \<Longrightarrow> round_coeff r neg (n * m) m = n"
  using round_coeff_mult [of 1 m r neg n] by (cases r) (simp_all add: round_half_even_def ceil_div_def)

lemma same_value_coeff:
  assumes v: "dval a = dval b" and s: "dneg a = dneg b" and e: "dexp b \<le> dexp a"
  shows "dcoeff b = dcoeff a * 10 ^ nat (dexp a - dexp b)"
proof -
  have "of_int (daligned (dexp b) a) * (10::rat) powi dexp b = of_int (daligned (dexp b) b) * 10 powi dexp b"
    unfolding dval_aligned [OF e, symmetric] dval_aligned [OF order_refl, symmetric] by (rule v)
  then have "daligned (dexp b) a = daligned (dexp b) b" by simp
  then have "int (dcoeff b) = int (dcoeff a * 10 ^ nat (dexp a - dexp b))"
    using s by (cases "dneg a") (simp_all add: daligned_def dint_def)
  then show ?thesis by (simp only: of_nat_eq_iff)
qed

lemma rescale_value_le:
  assumes v: "dval a = dval b" and s: "dneg a = dneg b" and e: "dexp b \<le> dexp a"
  shows "rescale r x a = rescale r x b"
proof -
  note c = same_value_coeff [OF assms]
  consider "x \<le> dexp b" | "dexp b < x" "x \<le> dexp a" | "dexp a < x" by linarith
  then show ?thesis
  proof cases
    case 1
    then show ?thesis using assms by (intro rescale_cong) simp_all
  next
    case 2
    then have "nat (dexp a - dexp b) = nat (dexp a - x) + nat (x - dexp b)" by simp
    then have "dcoeff b = dcoeff a * 10 ^ nat (dexp a - x) * 10 ^ nat (x - dexp b)"
      using c by (simp add: power_add)
    then show ?thesis using 2 s by (simp add: rescale_def round_coeff_exact)
  next
    case 3
    then have "nat (x - dexp b) = nat (x - dexp a) + nat (dexp a - dexp b)" using e by simp
    then have "(10::nat) ^ nat (x - dexp b) = 10 ^ nat (x - dexp a) * 10 ^ nat (dexp a - dexp b)"
      by (simp add: power_add)
    then show ?thesis using 3 s e c by (simp add: rescale_def round_coeff_mult)
  qed
qed

lemma rescale_value: "dval a = dval b \<Longrightarrow> dneg a = dneg b \<Longrightarrow> rescale r x a = rescale r x b"
  using rescale_value_le [of a b r x] rescale_value_le [of b a r x] by (cases "dexp b \<le> dexp a") auto

lemma quantize_value: "dval a = dval b \<Longrightarrow> dneg a = dneg b \<Longrightarrow> quantize r x a = quantize r x b"
  by (simp add: quantize_def rescale_value [of a b])

lemma ndigits_mult_pow10: "0 < c \<Longrightarrow> ndigits (c * 10 ^ j) = ndigits c + j"
proof (induction j)
  case (Suc j)
  have "c * 10 ^ Suc j = 10 * (c * 10 ^ j)" by simp
  moreover have "\<not> 10 * (c * 10 ^ j) < 10" using Suc.prems by simp
  ultimately have "ndigits (c * 10 ^ Suc j) = Suc (ndigits (c * 10 ^ j))"
    by (subst ndigits.simps) simp
  with Suc show ?case by simp
qed simp

lemma dec_fix_value_le:
  assumes v: "dval a = dval b" and s: "dneg a = dneg b" and e: "dexp b \<le> dexp a"
  shows "dval (dec_fix a) = dval (dec_fix b)"
proof (cases "repr a")
  case True
  then show ?thesis using v dec_fix_le [of a b] dec_fix_ge [of a b] by (simp add: dec_fix_exact)
next
  case False
  let ?j = "nat (dexp a - dexp b)"
  note c = same_value_coeff [OF assms]
  from False have pos: "0 < dcoeff a"
    by (metis repr_def gr0I zero_less_numeral zero_less_power)
  have big: "prec < ndigits (dcoeff a)" using False by (simp add: repr_def flip: ndigits_le_iff)
  have nd: "ndigits (dcoeff b) = ndigits (dcoeff a) + ?j"
    using ndigits_mult_pow10 [OF pos] c by simp
  have k: "dexp b + int (ndigits (dcoeff b) - prec) = dexp a + int (ndigits (dcoeff a) - prec)"
    using nd big e by simp
  have "ndigits (dcoeff b) - prec = (ndigits (dcoeff a) - prec) + ?j" using nd big by simp
  then have "round_half_even (dcoeff b) (10 ^ (ndigits (dcoeff b) - prec))
      = round_half_even (dcoeff a) (10 ^ (ndigits (dcoeff a) - prec))"
    using round_coeff_mult [of "10 ^ (ndigits (dcoeff a) - prec)" "10 ^ ?j" HalfEven True "dcoeff a"] c
    by (simp add: power_add)
  then have "dec_fix b = dec_fix a"
    unfolding dec_fix_def Let_def using k s big nd by simp
  then show ?thesis by simp
qed

lemma dec_fix_value: "dval a = dval b \<Longrightarrow> dneg a = dneg b \<Longrightarrow> dval (dec_fix a) = dval (dec_fix b)"
  using dec_fix_value_le [of a b] dec_fix_value_le [of b a] by (cases "dexp b \<le> dexp a") auto

lemma rescale_val_nonneg: "0 \<le> dval d \<Longrightarrow> 0 \<le> dval (rescale r e d)"
proof (cases "dneg d")
  case True
  assume "0 \<le> dval d"
  with True have "dval d = 0" using dval_sign(1) [of d] by simp
  then have "dcoeff d = 0" by (simp add: dval_zero_iff dzero_def)
  then have "dcoeff (rescale r e d) = 0"
    by (cases r) (simp_all add: rescale_def round_half_even_def ceil_div_def)
  then show ?thesis by (simp add: dval_def dint_def)
next
  case False
  then show ?thesis by (intro dval_sign(2)) simp
qed

lemma ceil_div_bounds:
  assumes "0 < m" shows "c \<le> ceil_div c m * m" and "ceil_div c m * m < c + m"
proof -
  define P r where "P = c div m * m" and "r = c mod m"
  have c: "c = P + r" by (simp add: P_def r_def)
  have r: "r < m" using assms by (simp add: r_def)
  have "ceil_div c m * m = (if r = 0 then P else P + m)"
    by (simp add: ceil_div_def P_def r_def)
  with c r show "c \<le> ceil_div c m * m" "ceil_div c m * m < c + m"
    by (auto split: if_splits)
qed

lemma half_up_bounds:
  assumes "0 < m" shows "2 * \<bar>int ((2 * c + m) div (2 * m)) * int m - int c\<bar> \<le> int m"
proof -
  define q r where "q = (2 * c + m) div (2 * m)" and "r = (2 * c + m) mod (2 * m)"
  have "2 * c + m = q * (2 * m) + r" unfolding q_def r_def by (rule div_mult_mod_eq [symmetric])
  then have "int (2 * c + m) = int (q * (2 * m) + r)" by (simp only:)
  then have "2 * int c + int m = 2 * (int q * int m) + int r" by simp
  moreover have "r < 2 * m" using assms by (simp add: r_def)
  then have "int r < 2 * int m" "0 \<le> int r" by simp_all
  moreover have "2 * C + M = 2 * P + R \<Longrightarrow> R < 2 * M \<Longrightarrow> 0 \<le> R \<Longrightarrow> 2 * \<bar>P - C\<bar> \<le> M"
    for C M P R :: int by presburger
  ultimately show ?thesis unfolding q_def [symmetric] by blast
qed

text \<open>Rounding half up to an exponent moves a number by at most half a unit of it.\<close>

lemma rescale_half_up: "2 * \<bar>dval (rescale HalfUp e d) - dval d\<bar> \<le> 10 powi e"
proof (cases "e \<le> dexp d")
  case True
  then show ?thesis by (simp add: rescale_exact less_imp_le)
next
  case False
  define k c where "k = nat (e - dexp d)" and "c = (2 * dcoeff d + 10 ^ k) div (2 * 10 ^ k)"
  have e: "e = dexp d + int k" using False by (simp add: k_def)
  have "dval (rescale HalfUp e d) - dval d
      = (if dneg d then - 1 else 1) * of_int (int c * 10 ^ k - int (dcoeff d)) * 10 powi dexp d"
  proof -
    have "dcoeff (rescale HalfUp e d) = c"
      using False by (simp add: rescale_def k_def c_def)
    then have "dval (rescale HalfUp e d) = (if dneg d then - 1 else 1) * of_nat c * (10 ^ k * 10 powi dexp d)"
      by (simp add: dval_def dint_def flip: powi10_add_nat e)
    then show ?thesis by (simp add: dval_def dint_def left_diff_distrib)
  qed
  then have "2 * \<bar>dval (rescale HalfUp e d) - dval d\<bar>
      = of_int (2 * \<bar>int c * 10 ^ k - int (dcoeff d)\<bar>) * 10 powi dexp d"
    by (simp add: abs_mult)
  also have "\<dots> \<le> of_int (10 ^ k) * 10 powi dexp d"
    using half_up_bounds [of "10 ^ k" "dcoeff d"]
    by (intro mult_right_mono) (simp_all add: c_def less_imp_le flip: of_int_power del: of_int_mult)
  finally show ?thesis by (simp add: e powi10_add_nat)
qed

text \<open>ROUND_FLOOR and ROUND_CEILING to an integer are floor and ceiling.\<close>

lemma of_int_quot_le:
  assumes "0 < m"
  shows "F * int m \<le> V \<Longrightarrow> (of_int F :: rat) \<le> of_int V / of_nat m"
    and "V \<le> F * int m \<Longrightarrow> of_int V / of_nat m \<le> (of_int F :: rat)"
    and "V < F * int m \<Longrightarrow> of_int V / of_nat m < (of_int F :: rat)"
proof -
  have m: "(0::rat) < of_nat m" using assms by simp
  have *: "(of_int F :: rat) * of_nat m = of_int (F * int m)" by simp
  show "F * int m \<le> V \<Longrightarrow> (of_int F :: rat) \<le> of_int V / of_nat m"
    unfolding pos_le_divide_eq [OF m] * of_int_le_iff .
  show "V \<le> F * int m \<Longrightarrow> of_int V / of_nat m \<le> (of_int F :: rat)"
    unfolding pos_divide_le_eq [OF m] * of_int_le_iff .
  show "V < F * int m \<Longrightarrow> of_int V / of_nat m < (of_int F :: rat)"
    unfolding pos_divide_less_eq [OF m] * of_int_less_iff .
qed

lemma to_integral_scaled:
  assumes "dexp d < 0"
  defines "m \<equiv> (10::nat) ^ nat (- dexp d)"
  shows "dval d = of_int (dint d) / of_nat m" and "0 < m"
    and "dval (to_integral r d) = of_int (if dneg d then - int (round_coeff r (dneg d) (dcoeff d) m)
      else int (round_coeff r (dneg d) (dcoeff d) m))"
proof -
  show "dval d = of_int (dint d) / of_nat m"
    using assms by (simp add: dval_def power_int_def power_one_over)
  show "0 < m" by (simp add: m_def)
  show "dval (to_integral r d) = of_int (if dneg d then - int (round_coeff r (dneg d) (dcoeff d) m)
      else int (round_coeff r (dneg d) (dcoeff d) m))"
    using assms by (simp add: to_integral_def rescale_def dval_def dint_def)
qed

lemma int_div_bounds:
  assumes "0 < m" shows "int (c div m) * int m \<le> int c" and "int c < (int (c div m) + 1) * int m"
    and "int c \<le> int (ceil_div c m) * int m" and "(int (ceil_div c m) - 1) * int m < int c"
proof -
  have "c div m * m \<le> c" "c < c div m * m + m"
    using dividend_less_div_times [OF assms, of c] by (simp_all add: add.commute)
  moreover note ceil_div_bounds [OF assms, of c]
  ultimately show "int (c div m) * int m \<le> int c" "int c < (int (c div m) + 1) * int m"
    "int c \<le> int (ceil_div c m) * int m" "(int (ceil_div c m) - 1) * int m < int c"
    by (simp_all add: algebra_simps flip: of_nat_mult of_nat_add)
qed

lemma to_integral_floor: "dval (to_integral Floor d) \<le> dval d" "dval d < dval (to_integral Floor d) + 1"
proof -
  have "dval (to_integral Floor d) \<le> dval d \<and> dval d < dval (to_integral Floor d) + 1"
  proof (cases "0 \<le> dexp d")
    case True
    then show ?thesis by (simp add: to_integral_def)
  next
    case False
    then have neg: "dexp d < 0" by simp
    note T = to_integral_scaled [OF neg]
    let ?m = "(10::nat) ^ nat (- dexp d)"
    let ?F = "if dneg d then - int (ceil_div (dcoeff d) ?m) else int (dcoeff d div ?m)"
    have "dval (to_integral Floor d) = of_int ?F" using T(3) [of Floor] by simp
    moreover have "?F * int ?m \<le> dint d" "dint d < (?F + 1) * int ?m"
      using int_div_bounds [OF T(2), of "dcoeff d"] by (auto simp: dint_def algebra_simps)
    ultimately show ?thesis
      using of_int_quot_le(1) [OF T(2), of ?F "dint d"] of_int_quot_le(3) [OF T(2), of "dint d" "?F + 1"]
      unfolding T(1) by simp
  qed
  then show "dval (to_integral Floor d) \<le> dval d" "dval d < dval (to_integral Floor d) + 1" by auto
qed

lemma to_integral_ceiling: "dval d \<le> dval (to_integral Ceiling d)" "dval (to_integral Ceiling d) < dval d + 1"
proof -
  have "dval d \<le> dval (to_integral Ceiling d) \<and> dval (to_integral Ceiling d) - 1 < dval d"
  proof (cases "0 \<le> dexp d")
    case True
    then show ?thesis by (simp add: to_integral_def)
  next
    case False
    then have neg: "dexp d < 0" by simp
    note T = to_integral_scaled [OF neg]
    let ?m = "(10::nat) ^ nat (- dexp d)"
    let ?C = "if dneg d then - int (dcoeff d div ?m) else int (ceil_div (dcoeff d) ?m)"
    have "dval (to_integral Ceiling d) = of_int ?C" using T(3) [of Ceiling] by simp
    moreover have "dint d \<le> ?C * int ?m" "(- dint d) < (- ?C + 1) * int ?m"
      using int_div_bounds [OF T(2), of "dcoeff d"] by (auto simp: dint_def algebra_simps)
    ultimately show ?thesis
      using of_int_quot_le(2) [OF T(2), of "dint d" ?C] of_int_quot_le(3) [OF T(2), of "- dint d" "- ?C + 1"]
      unfolding T(1) by simp
  qed
  then show "dval d \<le> dval (to_integral Ceiling d)" "dval (to_integral Ceiling d) < dval d + 1" by auto
qed

lemma dec_str_examples:
  "dec_str (Dec False 1300 (-2)) = ''13.00''" "dec_str (Dec True 5 (-3)) = ''-0.005''"
  "dec_str (Dec False 12 3) = ''1.2E+4''" "dec_str (Dec False 7 (-9)) = ''7E-9''"
  by (simp_all add: dec_str_def nat_str.simps)

lemma dec_int_value: "0 \<le> dval d \<Longrightarrow> of_int (dec_int d) \<le> dval d \<and> dval d < of_int (dec_int d) + 1"
proof (cases "0 \<le> dexp d")
  case True
  then have "dval d = of_int (dec_int d)"
    by (simp add: dval_def dint_def dec_int_def power_int_def)
  then show ?thesis by simp
next
  case False
  assume nn: "0 \<le> dval d"
  note T = to_integral_scaled [of d, OF not_le_imp_less [OF False]]
  let ?m = "(10::nat) ^ nat (- dexp d)"
  show ?thesis
  proof (cases "dneg d")
    case True
    then have "dval d = 0" using nn dval_sign(1) by force
    then have "dcoeff d = 0" by (simp add: dval_zero_iff dzero_def)
    then show ?thesis using \<open>dval d = 0\<close> by (simp add: dec_int_def)
  next
    case pos: False
    then have "dec_int d = int (dcoeff d div ?m)"
      using False by (simp add: dec_int_def)
    then show ?thesis
      using int_div_bounds(1,2) [OF T(2), of "dcoeff d"] pos
        of_int_quot_le(1) [OF T(2), of "dec_int d" "dint d"] of_int_quot_le(3) [OF T(2), of "dint d" "dec_int d + 1"]
      unfolding T(1) by (simp add: dint_def)
  qed
qed

lemma dec_int_nonneg: "0 \<le> dval d \<Longrightarrow> 0 \<le> dec_int d"
  using dec_int_value [of d] by linarith

text \<open>\<open>floor_units\<close>: the number of whole units in an amount, none in a negative one.\<close>

definition floor_units :: "decimal \<Rightarrow> int" where
  "floor_units v = (if v \<le> 0 then 0 else dec_int (to_integral Floor v))"

lemma floor_units_nonneg [simp]: "0 \<le> floor_units v"
proof (cases "v \<le> 0")
  case False
  then have "0 < dval v" by (simp add: le_iff_dval)
  then have "- 1 < dval (to_integral Floor v)" using to_integral_floor(2) [of v] by linarith
  moreover have "\<not> dneg v" using \<open>0 < dval v\<close> dval_sign(1) [of v] by force
  then have "\<not> dneg (to_integral Floor v)" by (simp add: to_integral_def)
  ultimately show ?thesis
    using False dec_int_nonneg dval_sign(2) [of "to_integral Floor v"] by (simp add: floor_units_def)
qed (simp add: floor_units_def)

lemma floor_units_le: "0 \<le> dval v \<Longrightarrow> of_int (floor_units v) \<le> dval v"
proof (cases "v \<le> 0")
  case True
  then show "0 \<le> dval v \<Longrightarrow> ?thesis" by (simp add: floor_units_def)
next
  case False
  then have "0 < dval v" by (simp add: le_iff_dval)
  then have "\<not> dneg v" using dval_sign(1) [of v] by force
  then have "0 \<le> dval (to_integral Floor v)"
    by (intro dval_sign(2)) (simp add: to_integral_def)
  then show ?thesis
    using False dec_int_value [of "to_integral Floor v"] to_integral_floor(1) [of v]
    by (simp add: floor_units_def)
qed

lemma floor_units_less: "0 \<le> dval v \<Longrightarrow> dval v < of_nat n + 1 \<Longrightarrow> floor_units v \<le> int n"
  using floor_units_le [of v] by linarith

text \<open>A positive quotient stays positive, and its ceiling is at least one.\<close>

lemma dec_fix_pos: "0 < dval d \<Longrightarrow> 0 < dval (dec_fix d)"
proof -
  assume d: "0 < dval d"
  have "dval (dec_fix d) \<noteq> 0" using dec_fix_err [of d] d by (auto simp: prec_def)
  moreover have "0 \<le> dval (dec_fix d)" using dec_fix_ge [of 0 d] d by simp
  ultimately show ?thesis by simp
qed

lemma times_pos: "0 < dval a \<Longrightarrow> 0 < dval b \<Longrightarrow> 0 < dval (a * b)"
  unfolding times_decimal_def by (rule dec_fix_pos) (simp add: dval_times_exact)

lemma plus_pos: "0 \<le> dval a \<Longrightarrow> 0 < dval b \<Longrightarrow> 0 < dval (a + b)"
  unfolding plus_decimal_def by (rule dec_fix_pos) (simp add: dval_plus_exact)

lemma dquot_pos:
  assumes b: "\<not> dzero b" "0 < dval b" and a: "0 < dval a"
  shows "0 < dval (dquot a b)"
proof -
  have r: "0 < dval a / dval b" using a b by simp
  have nz: "\<bar>dval (dquot_raw a b)\<bar> \<noteq> 0"
    using b(1)
  proof (cases rule: dquot_raw_cases [of b a])
    case exact
    then show ?thesis using a b by auto
  next
    case (inexact q Q e)
    then have "0 < Q" by (auto simp: prec_def)
    then show ?thesis using inexact(1) by simp
  qed
  moreover have "0 \<le> dval (dquot_raw a b)" using dquot_raw_sign [of a b] r by linarith
  ultimately show ?thesis unfolding dquot_def by (intro dec_fix_pos) linarith
qed

lemma to_integral_int: "\<exists>k :: int. dval (to_integral r d) = of_int k"
proof (cases "0 \<le> dexp d")
  case True
  then have "dval (to_integral r d) = of_int (dint d * 10 ^ nat (dexp d))"
    by (simp add: to_integral_def dval_def power_int_def)
  then show ?thesis by blast
next
  case False
  then show ?thesis using to_integral_scaled(3) [of d r] by (metis not_le)
qed

lemma ceiling_pos: "0 < dval d \<Longrightarrow> 1 \<le> dval (to_integral Ceiling d)"
proof -
  assume "0 < dval d"
  then have "0 < dval (to_integral Ceiling d)" using to_integral_ceiling(1) [of d] by linarith
  then show ?thesis using to_integral_int [of Ceiling d] by auto
qed

section \<open>Sums\<close>

definition dsum :: "decimal list \<Rightarrow> decimal" where
  \<comment> \<open>\<open>sum(values, ZERO)\<close>\<close>
  "dsum vs = foldl (+) 0 vs"

lemma foldl_dsum_nonneg: "0 \<le> dval a \<Longrightarrow> \<forall>v \<in> set vs. 0 \<le> dval v \<Longrightarrow> 0 \<le> dval (foldl (+) a vs)"
  by (induction vs arbitrary: a) (simp_all add: plus_nonneg)

lemma dsum_nonneg: "\<forall>v \<in> set vs. 0 \<le> dval v \<Longrightarrow> 0 \<le> dval (dsum vs)"
  by (simp add: dsum_def foldl_dsum_nonneg)

lemma dsum_Nil [simp]: "dsum [] = 0"
  by (simp add: dsum_def)

lemma quantize_props:
  assumes "quantize HalfUp e v = Inr p"
  shows "dexp p = e" and "2 * \<bar>dval p - dval v\<bar> \<le> 10 powi e" and "0 \<le> dval v \<Longrightarrow> 0 \<le> dval p" and "repr p"
  using assms rescale_half_up [of e v] rescale_val_nonneg [of v HalfUp e]
  by (auto simp: quantize_def Let_def split: if_splits)

end
