(* ===== verification/Identity.thy ===== *)
theory Identity
  imports PyDecimal Sha256 "HOL-Library.Multiset"
begin

text \<open>
  Content identities (\<open>identity.py\<close>).

  \<open>pyval\<close> is the part of Python's values that identity material is made of; a finite tree of
  them has no reference cycle, so the cycle marker of \<open>_identity_value\<close> never fires.
  \<open>identity_value\<close> maps such a value to a JSON tree, \<open>dumps\<close> is \<open>json.dumps\<close> with sorted keys
  and compact separators, and \<open>content_id\<close> hashes the UTF-8 bytes with SHA-256.

  The lemmas establish that the printed text determines the JSON tree up to the order of object
  keys (\<open>dumps_inject\<close>), so two materials share an identity only if they have the same canonical
  value or are themselves a collision of SHA-256 (\<open>content_id64_inject\<close>).  The locale \<open>content_addressed\<close>
  is the contract between a record and its stored identity that every content-addressed class
  of the program follows.
\<close>

section \<open>JSON\<close>

datatype json =
    JNull
  | JBool bool
  | JInt int
  | JStr string
  | JArr "json list"
  | JObj "(string \<times> json) list"

definition esc_char :: "char \<Rightarrow> string" where
  \<comment> \<open>\<open>json.dumps(..., ensure_ascii=False)\<close>\<close>
  "esc_char c = (let n = of_char c :: nat; b = CHR 0x5C in
     if n = 34 then [b, CHR 0x22] else if n = 92 then [b, b]
     else if n = 10 then [b, CHR ''n''] else if n = 13 then [b, CHR ''r'']
     else if n = 9 then [b, CHR ''t''] else if n = 8 then [b, CHR ''b'']
     else if n = 12 then [b, CHR ''f'']
     else if n < 32 then [b, CHR ''u'', CHR ''0'', CHR ''0'', hex_digit (n div 16), hex_digit (n mod 16)]
     else [c])"

definition quote :: "string \<Rightarrow> string" where
  "quote s = CHR 0x22 # concat (map esc_char s) @ [CHR 0x22]"

fun print_json :: "json \<Rightarrow> string"
  and print_elems :: "json list \<Rightarrow> string"
  and print_members :: "(string \<times> json) list \<Rightarrow> string" where
  "print_json JNull = ''null''"
| "print_json (JBool b) = (if b then ''true'' else ''false'')"
| "print_json (JInt i) = int_str i"
| "print_json (JStr s) = quote s"
| "print_json (JArr []) = ''[]''"
| "print_json (JArr (j # js)) = ''['' @ print_json j @ print_elems js"
| "print_json (JObj []) = ''{}''"
| "print_json (JObj ((k, j) # ms)) = ''{'' @ quote k @ '':'' @ print_json j @ print_members ms"
| "print_elems [] = '']''"
| "print_elems (j # js) = '','' @ print_json j @ print_elems js"
| "print_members [] = ''}''"
| "print_members ((k, j) # ms) = '','' @ quote k @ '':'' @ print_json j @ print_members ms"

fun sort_keys :: "json \<Rightarrow> json" where
  "sort_keys (JArr js) = JArr (map sort_keys js)"
| "sort_keys (JObj ms) = JObj (sort_key fst (map (\<lambda>(k, j). (k, sort_keys j)) ms))"
| "sort_keys j = j"

definition dumps :: "json \<Rightarrow> string" where
  \<comment> \<open>\<open>_canonical_json\<close>\<close>
  "dumps j = print_json (sort_keys j)"

section \<open>Identity values\<close>

datatype pyval =
    PNone
  | PBool bool
  | PInt int
  | PStr string
  | PEnum string pyval
  | PDecimal decimal
  | PFloat string
  | PDatetime instant
  | PDate date
  | PBytes "nat list"
  | PPath string
  | PType string
  | PDataclass string "(string \<times> pyval) list"
  | PMapping "(pyval \<times> pyval) list"
  | PTuple "pyval list"
  | PList "pyval list"
  | PSet "pyval list"
  | PCallable string
  | PMaterial string pyval
  | PObject string "(string \<times> pyval) list"

definition sensitive_parts :: "string list" where
  "sensitive_parts = [''api_key'', ''apikey'', ''authorization'', ''credential'', ''password'',
     ''private_key'', ''secret'', ''access_token'', ''refresh_token'', ''request_token'',
     ''session_token'', ''auth_token'']"

definition is_sensitive_attribute :: "string \<Rightarrow> bool" where
  "is_sensitive_attribute name =
     (let normalized = map (\<lambda>c. if c = CHR ''-'' then CHR ''_'' else c) (lower name)
      in list_ex (\<lambda>part. contains part normalized) sensitive_parts)"

fun sensitive_key :: "pyval \<Rightarrow> bool" where
  \<comment> \<open>\<open>isinstance(key, str) and _is_sensitive_attribute(key)\<close>\<close>
  "sensitive_key (PStr k) = is_sensitive_attribute k"
| "sensitive_key _ = False"

fun is_callable :: "pyval \<Rightarrow> bool" where
  "is_callable (PCallable _) = True"
| "is_callable (PType _) = True"
| "is_callable _ = False"

abbreviation tagged :: "string \<Rightarrow> json \<Rightarrow> json" where
  "tagged k j \<equiv> JObj [(k, j)]"

definition mapping_value :: "(json \<times> json) list \<Rightarrow> json" where
  "mapping_value pairs = tagged ''$mapping''
     (JArr (map (\<lambda>(k, j). JArr [k, j]) (sort_key (\<lambda>p. dumps (fst p)) pairs)))"

fun identity_value :: "pyval \<Rightarrow> json" where
  "identity_value (PEnum t v) = JObj [(''$enum'', JStr t), (''value'', identity_value v)]"
| "identity_value PNone = JNull"
| "identity_value (PBool b) = JBool b"
| "identity_value (PInt i) = JInt i"
| "identity_value (PStr s) = JStr s"
| "identity_value (PDecimal d) = tagged ''$decimal'' (JStr (dec_str d))"
| "identity_value (PFloat h) = tagged ''$float'' (JStr h)"
| "identity_value (PDatetime t) = tagged ''$datetime'' (JStr (instant_iso t))"
| "identity_value (PDate d) = tagged ''$date'' (JStr (date_iso d))"
| "identity_value (PBytes bs) =
     JObj [(''$bytes_sha256'', JStr (sha256_hex bs)), (''length'', JInt (int (length bs)))]"
| "identity_value (PPath p) = tagged ''$path'' (JStr p)"
| "identity_value (PType t) = tagged ''$type'' (JStr t)"
| "identity_value (PDataclass t fs) = JObj [(''$dataclass'', JStr t),
     (''fields'', JObj (map (\<lambda>(k, v). (k, identity_value v))
       (filter (\<lambda>(k, v). \<not> is_sensitive_attribute k) fs)))]"
| "identity_value (PMapping ps) = mapping_value (map (\<lambda>(k, v). (identity_value k, identity_value v))
     (filter (\<lambda>(k, v). \<not> sensitive_key k) ps))"
| "identity_value (PTuple vs) = tagged ''$tuple'' (JArr (map identity_value vs))"
| "identity_value (PList vs) = tagged ''$list'' (JArr (map identity_value vs))"
| "identity_value (PSet vs) = tagged ''$set'' (JArr (sort_key dumps (map identity_value vs)))"
| "identity_value (PCallable q) = tagged ''$callable'' (JStr q)"
| "identity_value (PMaterial t m) =
     JObj [(''$object'', JStr t), (''identity_material'', identity_value m)]"
| "identity_value (PObject t as) = JObj [(''$object'', JStr t),
     (''attributes'', mapping_value (map (\<lambda>(k, v). (JStr k, identity_value v))
       (filter (\<lambda>(k, v). \<not> starts_with ''_'' k \<and> \<not> is_sensitive_attribute k \<and> \<not> is_callable v) as)))]"

definition canonical_identity_json :: "pyval \<Rightarrow> string" where
  "canonical_identity_json v = dumps (identity_value v)"

definition utf8 :: "string \<Rightarrow> nat list" where
  \<comment> \<open>\<open>s.encode("utf-8")\<close> of text below code point 256\<close>
  "utf8 s = concat (map (\<lambda>c. let n = of_char c in
     if n < 128 then [n] else [192 + n div 64, 128 + n mod 64]) s)"

definition content_id64 :: "pyval \<Rightarrow> string" where
  "content_id64 v = sha256_hex (utf8 (canonical_identity_json v))"

definition content_id :: "pyval \<Rightarrow> int \<Rightarrow> string res" where
  "content_id v n = guards
     [(n \<le> 0 \<or> 64 < n, ValueError ''content ID length must be between 1 and 64'')]
     (Inr (take (nat n) (content_id64 v)))"

abbreviation fields_id :: "(string \<times> pyval) list \<Rightarrow> string" where
  \<comment> \<open>\<open>content_id({name: value, ...}, length=64)\<close>\<close>
  "fields_id fs \<equiv> content_id64 (PMapping (map (\<lambda>(k, v). (PStr k, v)) fs))"

definition popt :: "('a \<Rightarrow> pyval) \<Rightarrow> 'a option \<Rightarrow> pyval" where
  "popt f x = (case x of None \<Rightarrow> PNone | Some v \<Rightarrow> f v)"

lemma content_id_64 [simp]: "content_id v 64 = Inr (content_id64 v)"
  by (simp add: content_id_def content_id64_def)

lemma sha_text_content_id64 [simp]: "sha_text (content_id64 v)"
  by (simp add: content_id64_def)

lemma length_content_id64 [simp]: "length (content_id64 v) = 64"
  by (simp add: content_id64_def)

section \<open>The printed text determines the tree\<close>

definition is_digit :: "char \<Rightarrow> bool" where
  "is_digit c = (48 \<le> (of_char c :: nat) \<and> (of_char c :: nat) \<le> 57)"

definition digits_val :: "string \<Rightarrow> nat" where
  "digits_val s = foldl (\<lambda>a c. 10 * a + (of_char c - 48)) 0 s"

definition stops :: "string \<Rightarrow> bool" where
  \<comment> \<open>what may follow a complete value\<close>
  "stops r = (r = [] \<or> hd r \<in> {CHR '','', CHR '']'', CHR ''}''})"

lemma of_char_digit_char: "d < 10 \<Longrightarrow> of_char (digit_char d) = 48 + d"
  by (simp add: digit_char_def)

lemma nat_str_digits: "c \<in> set (nat_str n) \<Longrightarrow> is_digit c"
proof (induction n rule: nat_str.induct)
  case (1 n)
  have "is_digit (digit_char d)" if "d < 10" for d
    using that by (simp add: is_digit_def of_char_digit_char)
  with 1 show ?case by (cases "n < 10") (auto simp: nat_str.simps [of n])
qed

lemma digits_val_nat_str [simp]: "digits_val (nat_str n) = n"
proof (induction n rule: nat_str.induct)
  case (1 n)
  then show ?case
    by (cases "n < 10") (simp_all add: nat_str.simps [of n] digits_val_def of_char_digit_char)
qed

lemma nat_str_inj [simp]: "nat_str m = nat_str n \<longleftrightarrow> m = n"
  by (metis digits_val_nat_str)

lemma nat_str_nonempty [simp]: "nat_str n \<noteq> []"
  by (simp add: nat_str.simps [of n])

lemma nat_str_append_inject:
  assumes "nat_str m @ r = nat_str n @ r'" and "r = [] \<or> \<not> is_digit (hd r)" and "r' = [] \<or> \<not> is_digit (hd r')"
  shows "m = n \<and> r = r'"
proof -
  have tw: "takeWhile is_digit (nat_str k @ q) = nat_str k" if "q = [] \<or> \<not> is_digit (hd q)" for k q
  proof -
    have "takeWhile is_digit q = []" using that by (cases q) auto
    then show ?thesis by (simp add: nat_str_digits)
  qed
  from assms have "nat_str m = nat_str n" by (metis tw)
  with assms(1) show ?thesis by auto
qed

lemma stops_not_digit: "stops r \<Longrightarrow> r = [] \<or> \<not> is_digit (hd r)"
  by (auto simp: stops_def is_digit_def)

lemma nat_str_hd: "is_digit (hd (nat_str n @ r))"
  by (metis hd_append2 hd_in_set nat_str_digits nat_str_nonempty)

lemma int_str_append_inject:
  assumes "int_str i @ r = int_str j @ r'" and "stops r" and "stops r'"
  shows "i = j \<and> r = r'"
proof -
  have nd: "\<not> is_digit (CHR ''-'')" by (simp add: is_digit_def)
  have mixed: "nat_str m @ q \<noteq> CHR ''-'' # q'" for m q q'
    using nat_str_hd [of m q] nd by (metis list.sel(1))
  from assms(2,3) have st: "r = [] \<or> \<not> is_digit (hd r)" "r' = [] \<or> \<not> is_digit (hd r')"
    by (auto dest: stops_not_digit)
  consider "i < 0" "j < 0" | "i < 0" "0 \<le> j" | "0 \<le> i" "j < 0" | "0 \<le> i" "0 \<le> j" by linarith
  then show ?thesis
  proof cases
    case 1
    then have "nat_str (nat (- i)) @ r = nat_str (nat (- j)) @ r'" using assms(1) by (simp add: int_str_def)
    from nat_str_append_inject [OF this st] 1 show ?thesis by (simp add: eq_nat_nat_iff)
  next
    case 2
    then show ?thesis using assms(1) mixed [of "nat j" r' "nat_str (nat (- i)) @ r"] by (simp add: int_str_def)
  next
    case 3
    then show ?thesis using assms(1) mixed [of "nat i" r "nat_str (nat (- j)) @ r'"] by (simp add: int_str_def)
  next
    case 4
    then have "nat_str (nat i) @ r = nat_str (nat j) @ r'" using assms(1) by (simp add: int_str_def)
    from nat_str_append_inject [OF this st] 4 show ?thesis by (simp add: eq_nat_nat_iff)
  qed
qed

text \<open>Escape sequences: each is read back from its own characters.\<close>

fun unhex :: "char \<Rightarrow> nat" where
  "unhex c = (let n = of_char c :: nat in if n < 58 then n - 48 else n - 87)"

fun unesc :: "string \<Rightarrow> char \<times> string" where
  "unesc (c # s) = (if c \<noteq> CHR 0x5C then (c, s)
     else case s of d # s' \<Rightarrow>
       (let n = of_char d :: nat in
        if n = 110 then (char_of (10 :: nat), s') else if n = 114 then (char_of (13 :: nat), s')
        else if n = 116 then (char_of (9 :: nat), s') else if n = 98 then (char_of (8 :: nat), s')
        else if n = 102 then (char_of (12 :: nat), s')
        else if n = 117 then (char_of (unhex (s' ! 2) * 16 + unhex (s' ! 3)), drop 4 s')
        else (d, s')) | [] \<Rightarrow> (c, s))"
| "unesc [] = (CHR 0x5C, [])"

lemma unhex_hex_digit: "d < 16 \<Longrightarrow> unhex (hex_digit d) = d"
proof -
  have "\<forall>d \<in> set [0..<16]. unhex (hex_digit d) = d"
    by (simp add: hex_digit_def upt_rec)
  then show "d < 16 \<Longrightarrow> unhex (hex_digit d) = d" by simp
qed

lemma char_eqI: "of_char c = (n :: nat) \<Longrightarrow> char_of n = c"
  by auto

lemma unesc_esc_char: "unesc (esc_char c @ s) = (c, s)"
proof -
  define n where "n = (of_char c :: nat)"
  have c: "char_of n = c" by (simp add: n_def)
  have hex: "n < 32 \<Longrightarrow> unhex (hex_digit (n div 16)) * 16 + unhex (hex_digit (n mod 16)) = n"
    by (simp add: unhex_hex_digit del: unhex.simps)
  have "char_of (92 :: nat) = CHR 0x5C" "char_of (34 :: nat) = CHR 0x22" by code_simp+
  then have "n = 92 \<Longrightarrow> c = CHR 0x5C" "n = 34 \<Longrightarrow> c = CHR 0x22"
    using c by simp_all
  moreover have "c = CHR 0x5C \<Longrightarrow> n = 92" "c = CHR 0x22 \<Longrightarrow> n = 34"
    by (simp_all add: n_def)
  ultimately have *: "c = CHR 0x5C \<longleftrightarrow> n = 92" "c = CHR 0x22 \<longleftrightarrow> n = 34"
    by blast+
  show ?thesis
    using hex c * by (simp add: esc_char_def Let_def del: unhex.simps flip: n_def) auto
qed

lemma esc_char_not_quote: "esc_char c @ s \<noteq> CHR 0x22 # r"
  by (auto simp: esc_char_def Let_def)

lemma esc_text_inject:
  "concat (map esc_char s) @ CHR 0x22 # r = concat (map esc_char s') @ CHR 0x22 # r' \<Longrightarrow> s = s' \<and> r = r'"
proof (induction s arbitrary: s')
  case Nil
  then show ?case using esc_char_not_quote by (cases s') (auto dest: sym)
next
  case (Cons c s)
  show ?case
  proof (cases s')
    case Nil
    then show ?thesis using Cons.prems esc_char_not_quote by auto
  next
    case (Cons c' t)
    with Cons.prems have e: "esc_char c @ concat (map esc_char s) @ CHR 0x22 # r
        = esc_char c' @ concat (map esc_char t) @ CHR 0x22 # r'" by simp
    then have "c = c' \<and> concat (map esc_char s) @ CHR 0x22 # r = concat (map esc_char t) @ CHR 0x22 # r'"
      by (metis unesc_esc_char prod.inject)
    with Cons.IH [of t] Cons show ?thesis by simp
  qed
qed

lemma quote_inject: "quote s @ r = quote s' @ r' \<Longrightarrow> s = s' \<and> r = r'"
  using esc_text_inject [of s r s' r'] by (simp add: quote_def)

fun json_tag :: "json \<Rightarrow> nat" where
  "json_tag JNull = 0"
| "json_tag (JBool _) = 1"
| "json_tag (JInt _) = 2"
| "json_tag (JStr _) = 3"
| "json_tag (JArr _) = 4"
| "json_tag (JObj _) = 5"

definition text_tag :: "string \<Rightarrow> nat" where
  "text_tag s = (let c = hd s in if c = CHR ''n'' then 0 else if c = CHR ''t'' \<or> c = CHR ''f'' then 1
     else if c = CHR 0x22 then 3 else if c = CHR ''['' then 4 else if c = CHR ''{'' then 5 else 2)"

lemma text_tag_print: "text_tag (print_json j @ r) = json_tag j"
proof (cases j rule: json_tag.cases)
  case (3 i)
  have "is_digit (hd (int_str i @ r)) \<or> hd (int_str i @ r) = CHR ''-''"
    using nat_str_hd by (simp add: int_str_def)
  then have "hd (int_str i @ r) \<notin> {CHR ''n'', CHR ''t'', CHR ''f'', CHR 0x22, CHR ''['', CHR ''{''}"
    by (auto simp: is_digit_def)
  then show ?thesis using 3 by (simp add: text_tag_def Let_def)
next
  case (5 js)
  then show ?thesis by (cases js) (simp_all add: text_tag_def)
next
  case (6 ms)
  then show ?thesis by (cases ms) (auto simp: text_tag_def)
qed (simp_all add: text_tag_def quote_def)

lemma print_hd: "hd (print_json j @ r) \<notin> {CHR '']'', CHR ''}'', CHR '',''}"
proof (cases j rule: json_tag.cases)
  case (3 i)
  have "is_digit (hd (int_str i @ r)) \<or> hd (int_str i @ r) = CHR ''-''"
    using nat_str_hd by (simp add: int_str_def)
  then show ?thesis using 3 by (auto simp: is_digit_def)
next
  case (5 js)
  then show ?thesis by (cases js) simp_all
next
  case (6 ms)
  then show ?thesis by (cases ms) auto
qed (simp_all add: quote_def)

lemma print_not_close: "print_json j @ r \<noteq> CHR '']'' # q"
  by (metis insert_iff list.sel(1) print_hd)

lemma stops_elems [simp]: "stops (print_elems js @ r)"
  by (cases js) (simp_all add: stops_def)

lemma stops_members [simp]: "stops (print_members ms @ r)"
  by (cases ms) (auto simp: stops_def)

lemma quote_not_brace: "quote k @ r \<noteq> CHR ''}'' # q"
  by (simp add: quote_def)

lemma print_tag_eq: "print_json j @ r = print_json j' @ r' \<Longrightarrow> json_tag j' = json_tag j"
  by (metis text_tag_print)

lemma print_inject_aux:
  "stops r \<Longrightarrow> stops r' \<Longrightarrow> print_json j @ r = print_json j' @ r' \<Longrightarrow> j = j' \<and> r = r'"
  "print_elems js @ r = print_elems js' @ r' \<Longrightarrow> js = js' \<and> r = r'"
  "print_members ms @ r = print_members ms' @ r' \<Longrightarrow> ms = ms' \<and> r = r'"
proof (induction j and js and ms arbitrary: j' r r' and js' r r' and ms' r r'
    rule: print_json_print_elems_print_members.induct)
  case 1
  from print_tag_eq [OF "1"(3)] "1" show ?case by (cases j') simp_all
next
  case (2 b)
  from print_tag_eq [OF "2"(3)] "2" show ?case by (cases j') (simp_all split: if_splits)
next
  case (3 i)
  from print_tag_eq [OF "3"(3)] obtain i' where j': "j' = JInt i'" by (cases j') simp_all
  with int_str_append_inject [of i r i' r'] "3" show ?case by simp
next
  case (4 s)
  from print_tag_eq [OF "4"(3)] obtain s' where j': "j' = JStr s'" by (cases j') simp_all
  with quote_inject [of s r s' r'] "4" show ?case by simp
next
  case 5
  from print_tag_eq [OF "5"(3)] obtain js' where j': "j' = JArr js'" by (cases j') simp_all
  with "5" print_not_close show ?case by (cases js') (auto dest: sym)
next
  case (6 j js)
  from print_tag_eq [OF "6.prems"(3)] obtain js' where j': "j' = JArr js'" by (cases j') simp_all
  show ?case
  proof (cases js')
    case Nil
    with "6.prems" j' print_not_close show ?thesis by auto
  next
    case (Cons i ks)
    with "6.prems" j' have "print_json j @ print_elems js @ r = print_json i @ print_elems ks @ r'" by simp
    from "6.IH"(1) [OF _ _ this] have *: "j = i" "print_elems js @ r = print_elems ks @ r'" by auto
    with "6.IH"(2) [OF *(2)] j' Cons show ?thesis by simp
  qed
next
  case 7
  from print_tag_eq [OF "7"(3)] obtain ms' where j': "j' = JObj ms'" by (cases j') simp_all
  with "7" quote_not_brace show ?case by (cases ms') (auto dest: sym)
next
  case (8 k j ms)
  from print_tag_eq [OF "8.prems"(3)] obtain ms' where j': "j' = JObj ms'" by (cases j') simp_all
  show ?case
  proof (cases ms')
    case Nil
    with "8.prems" j' quote_not_brace show ?thesis by auto
  next
    case (Cons m ms1)
    obtain k' i where m: "m = (k', i)" by fastforce
    with "8.prems" j' Cons
    have "quote k @ '':'' @ print_json j @ print_members ms @ r
        = quote k' @ '':'' @ print_json i @ print_members ms1 @ r'" by simp
    from quote_inject [OF this] have k: "k = k'"
      and "print_json j @ print_members ms @ r = print_json i @ print_members ms1 @ r'" by auto
    from "8.IH"(1) [OF _ _ this(2)] have *: "j = i" "print_members ms @ r = print_members ms1 @ r'" by auto
    with "8.IH"(2) [OF *(2)] j' Cons m k show ?thesis by simp
  qed
next
  case 9
  then show ?case by (cases js') simp_all
next
  case (10 j js)
  show ?case
  proof (cases js')
    case Nil
    with "10.prems" show ?thesis by simp
  next
    case (Cons i ks)
    with "10.prems" have "print_json j @ print_elems js @ r = print_json i @ print_elems ks @ r'" by simp
    from "10.IH"(1) [OF _ _ this] have *: "j = i" "print_elems js @ r = print_elems ks @ r'" by auto
    with "10.IH"(2) [OF *(2)] Cons show ?thesis by simp
  qed
next
  case 11
  then show ?case by (cases ms') auto
next
  case (12 k j ms)
  show ?case
  proof (cases ms')
    case Nil
    with "12.prems" show ?thesis by simp
  next
    case (Cons m ms1)
    obtain k' i where m: "m = (k', i)" by fastforce
    with "12.prems" Cons
    have "quote k @ '':'' @ print_json j @ print_members ms @ r
        = quote k' @ '':'' @ print_json i @ print_members ms1 @ r'" by simp
    from quote_inject [OF this] have k: "k = k'"
      and "print_json j @ print_members ms @ r = print_json i @ print_members ms1 @ r'" by auto
    from "12.IH"(1) [OF _ _ this(2)] have *: "j = i" "print_members ms @ r = print_members ms1 @ r'" by auto
    with "12.IH"(2) [OF *(2)] Cons m k show ?thesis by simp
  qed
qed

lemma dumps_inject: "dumps i = dumps j \<longleftrightarrow> sort_keys i = sort_keys j"
  using print_inject_aux(1) [of "[]" "[]" "sort_keys i" "sort_keys j"]
  by (auto simp: dumps_def stops_def)

lemma utf8_inject: "utf8 s = utf8 t \<longleftrightarrow> s = t"
proof
  define enc where "enc = (\<lambda>c. let n = of_char c :: nat in
     if n < 128 then [n] else [192 + n div 64, 128 + n mod 64])"
  have enc: "utf8 s = concat (map enc s)" for s by (simp add: utf8_def enc_def)
  have one: "c = d \<and> x = y" if "enc c @ x = enc d @ y" for c d x y
  proof -
    define m n where "m = (of_char c :: nat)" and "n = (of_char d :: nat)"
    have "m = n \<and> x = y"
    proof (cases "m < 128 \<or> n < 128")
      case True
      then show ?thesis using that by (auto simp: enc_def Let_def simp flip: m_def n_def split: if_splits)
    next
      case False
      then have "m div 64 = n div 64" "m mod 64 = n mod 64" "x = y"
        using that by (auto simp: enc_def Let_def simp flip: m_def n_def)
      then show ?thesis by (metis div_mult_mod_eq)
    qed
    then show ?thesis unfolding m_def n_def by (metis char_of_char)
  qed
  have ne: "enc c \<noteq> []" for c by (simp add: enc_def Let_def)
  have "concat (map enc s) = concat (map enc t) \<Longrightarrow> s = t"
  proof (induction s arbitrary: t)
    case Nil
    then show ?case using ne by (cases t) auto
  next
    case (Cons c s)
    then show ?case using ne by (cases t) (auto dest!: one)
  qed
  then show "utf8 s = utf8 t \<Longrightarrow> s = t" by (simp add: enc)
qed simp

text \<open>Equal identities: equal canonical values, or two different texts with the same digest.\<close>

definition sha_collision :: "string \<Rightarrow> string \<Rightarrow> bool" where
  "sha_collision s t = (s \<noteq> t \<and> sha256_hex (utf8 s) = sha256_hex (utf8 t))"

lemma content_id64_inject:
  "content_id64 v = content_id64 w \<longleftrightarrow>
     sort_keys (identity_value v) = sort_keys (identity_value w)
     \<or> sha_collision (canonical_identity_json v) (canonical_identity_json w)"
  unfolding content_id64_def canonical_identity_json_def sha_collision_def dumps_inject [symmetric]
  by auto

section \<open>Content-addressed records\<close>

definition canon :: "pyval \<Rightarrow> json" where
  \<comment> \<open>the canonical value, with the keys of every object sorted\<close>
  "canon v = sort_keys (identity_value v)"

lemma canon_leaves [simp]:
  "canon PNone = JNull" "canon (PBool b) = JBool b" "canon (PInt i) = JInt i" "canon (PStr s) = JStr s"
  "canon (PDecimal d) = tagged ''$decimal'' (JStr (dec_str d))"
  "canon (PDatetime t) = tagged ''$datetime'' (JStr (instant_iso t))"
  "canon (PDate dt) = tagged ''$date'' (JStr (date_iso dt))"
  by (simp_all add: canon_def)

definition public_pairs :: "(string \<times> pyval) list \<Rightarrow> (json \<times> json) list" where
  "public_pairs fs = map (\<lambda>(k, v). (JStr k, identity_value v)) fs"

lemma identity_fields:
  assumes "\<forall>k \<in> fst ` set fs. \<not> is_sensitive_attribute k"
  shows "identity_value (PMapping (map (\<lambda>(k, v). (PStr k, v)) fs)) = mapping_value (public_pairs fs)"
proof -
  have "filter (\<lambda>(k, v). \<not> sensitive_key k) (map (\<lambda>(k, v). (PStr k, v)) fs) = map (\<lambda>(k, v). (PStr k, v)) fs"
    using assms by (intro filter_True) auto
  then show ?thesis by (simp add: public_pairs_def split_def comp_def)
qed

lemma sort_keys_mapping:
  "sort_keys (mapping_value ps) = tagged ''$mapping''
     (JArr (map (\<lambda>(k, j). JArr [sort_keys k, sort_keys j]) (sort_key (\<lambda>p. dumps (fst p)) ps)))"
  by (simp add: mapping_value_def case_prod_beta comp_def)

lemma fields_same_canon:
  assumes keys: "map fst fs = map fst gs" and dist: "distinct (map fst fs)"
    and eq: "sort_keys (mapping_value (public_pairs fs)) = sort_keys (mapping_value (public_pairs gs))"
  shows "map (canon \<circ> snd) fs = map (canon \<circ> snd) gs"
proof -
  let ?s = "sort_key (\<lambda>p. dumps (fst p)) :: (json \<times> json) list \<Rightarrow> _"
  let ?h = "\<lambda>(k, j). (sort_keys k, sort_keys j)"
  let ?g = "\<lambda>(a, b). JArr [a, b]"
  have "(\<lambda>(k, j). JArr [sort_keys k, sort_keys j]) = ?g \<circ> ?h" by auto
  with eq have "map ?g (map ?h (?s (public_pairs fs))) = map ?g (map ?h (?s (public_pairs gs)))"
    by (simp add: sort_keys_mapping)
  moreover have "inj ?g" by (auto simp: inj_def)
  ultimately have "map ?h (?s (public_pairs fs)) = map ?h (?s (public_pairs gs))"
    using inj_map_eq_map by blast
  then have "set (map ?h (?s (public_pairs fs))) = set (map ?h (?s (public_pairs gs)))" by simp
  then have "set (map (\<lambda>(k, v). (JStr k, canon v)) fs) = set (map (\<lambda>(k, v). (JStr k, canon v)) gs)"
    by (simp add: public_pairs_def image_image case_prod_beta canon_def)
  moreover have z: "map (\<lambda>(k, v). (JStr k, canon v)) hs = zip (map (JStr \<circ> fst) hs) (map (canon \<circ> snd) hs)" for hs
    by (induction hs) auto
  moreover have "map (JStr \<circ> fst) gs = map (JStr \<circ> fst) fs" using keys by (metis map_map)
  moreover have d: "distinct (map (JStr \<circ> fst) fs)" using dist by (auto simp: distinct_map inj_on_def)
  moreover have len: "length fs = length gs" using keys by (rule map_eq_imp_length_eq)
  ultimately have "set (zip (map (JStr \<circ> fst) fs) (map (canon \<circ> snd) fs))
      = set (zip (map (JStr \<circ> fst) fs) (map (canon \<circ> snd) gs))"
    by simp
  then have "map_of (zip (map (JStr \<circ> fst) fs) (map (canon \<circ> snd) fs))
      = map_of (zip (map (JStr \<circ> fst) fs) (map (canon \<circ> snd) gs))"
    using d len by (subst map_of_inject_set) simp_all
  then show ?thesis using d len by (intro map_of_zip_inject) simp_all
qed

definition collision_of :: "(string \<times> pyval) list \<Rightarrow> (string \<times> pyval) list \<Rightarrow> bool" where
  \<comment> \<open>the texts of these two materials are a collision of SHA-256\<close>
  "collision_of fs gs = sha_collision
     (canonical_identity_json (PMapping (map (\<lambda>(k, v). (PStr k, v)) fs)))
     (canonical_identity_json (PMapping (map (\<lambda>(k, v). (PStr k, v)) gs)))"

text \<open>
  A class whose identity is computed from a fixed list of public field names: equal identities
  mean equal canonical fields, or that the two materials are a collision.
\<close>

locale content_addressed =
  fixes material :: "'a \<Rightarrow> (string \<times> pyval) list" and field_names :: "string list"
  assumes names: "map fst (material x) = field_names"
    and distinct_names: "distinct field_names"
    and public_names: "list_all (\<lambda>k. \<not> is_sensitive_attribute k) field_names"
begin

lemma public_material: "\<forall>k \<in> fst ` set (material x). \<not> is_sensitive_attribute k"
proof -
  have "fst ` set (material x) = set field_names" using names [of x] by (metis set_map)
  then show ?thesis using public_names by (simp add: list_all_iff)
qed

lemma same_id_same_fields:
  assumes "fields_id (material x) = fields_id (material y)"
  shows "map (canon \<circ> snd) (material x) = map (canon \<circ> snd) (material y)
    \<or> collision_of (material x) (material y)"
  using assms fields_same_canon [of "material x" "material y"] names distinct_names
  unfolding content_id64_inject identity_fields [OF public_material] collision_of_def by (simp only:) blast

lemma sealed_same_fields:
  assumes "stored x = fields_id (material x)" and "stored y = fields_id (material y)"
    and "stored x = stored y"
  shows "map (canon \<circ> snd) (material x) = map (canon \<circ> snd) (material y)
    \<or> collision_of (material x) (material y)"
  using assms by (intro same_id_same_fields) simp

end

section \<open>Equality of dataclasses\<close>

fun py_eq :: "pyval \<Rightarrow> pyval \<Rightarrow> bool" where
  \<comment> \<open>\<open>==\<close>: structural, decimals by value\<close>
  "py_eq (PDecimal a) w = (case w of PDecimal b \<Rightarrow> deq a b | _ \<Rightarrow> False)"
| "py_eq (PTuple vs) w = (case w of PTuple ws \<Rightarrow> list_all2 py_eq vs ws | _ \<Rightarrow> False)"
| "py_eq (PDataclass t fs) w = (case w of PDataclass u gs \<Rightarrow>
     t = u \<and> list_all2 (\<lambda>(k, v) (k', v'). k = k' \<and> py_eq v v') fs gs | _ \<Rightarrow> False)"
| "py_eq v w = (v = w)"

lemma py_eq_refl [simp]: "py_eq v v"
  by (induction v) (auto simp: list_all2_same)

end
