(* ===== verification/Ticks.thy ===== *)
theory Ticks
  imports PyDecimal
begin

text \<open>
  Exact arithmetic on a decimal grid, and prices rounded to a tick.

  \<open>on_grid e n d\<close> says that \<open>d\<close> is at most \<open>n\<close> units of \<open>10 powi e\<close> in magnitude.  Sums,
  differences and products of such numbers are exact while the unit counts stay below 28 digits.
  \<open>tick_floor\<close> and \<open>tick_ceiling\<close> round a price to a whole number of ticks, the last step of every
  level and every simulated price; on a grid they compute integer division (\<open>tick_floor_grid\<close>,
  \<open>tick_ceiling_grid\<close>), and they never cross a price that is itself a whole number of ticks.
\<close>

section \<open>Exact sums, differences and products\<close>

definition on_grid :: "int \<Rightarrow> nat \<Rightarrow> decimal \<Rightarrow> bool" where
  "on_grid e n d = (\<exists>k :: int. \<bar>k\<bar> \<le> int n \<and> dval d = of_int k * 10 powi e)"

lemma on_gridE:
  assumes "on_grid e n d"
  obtains k :: int where "\<bar>k\<bar> \<le> int n" "dval d = of_int k * 10 powi e"
  using assms by (auto simp: on_grid_def)

definition grid_point :: "int \<Rightarrow> int \<Rightarrow> decimal" where
  "grid_point e k = Dec (k < 0) (nat \<bar>k\<bar>) e"

lemma dval_grid_point [simp]: "dval (grid_point e k) = of_int k * 10 powi e"
  by (simp add: grid_point_def dval_def dint_def)

lemma repr_grid_point: "\<bar>k\<bar> \<le> int n \<Longrightarrow> n < 10 ^ 28 \<Longrightarrow> repr (grid_point e k)"
  by (simp add: repr_def grid_point_def prec_def nat_less_iff)

lemma on_grid_Dec: "c \<le> n \<Longrightarrow> on_grid e n (Dec s c e)"
  by (auto simp: on_grid_def dval_Dec intro: exI [of _ "int c"] exI [of _ "- int c"])

lemma on_grid_mono: "on_grid e m d \<Longrightarrow> m \<le> n \<Longrightarrow> on_grid e n d"
  by (force simp: on_grid_def)

lemma on_grid_shift:
  assumes "on_grid e n d" and "f \<le> e"
  shows "on_grid f (n * 10 ^ nat (e - f)) d"
proof -
  from assms obtain k where k: "\<bar>k\<bar> \<le> int n" "dval d = of_int k * 10 powi e" by (auto elim: on_gridE)
  have "dval d = of_int (k * 10 ^ nat (e - f)) * 10 powi f" using k powi10_split [OF assms(2)] by simp
  moreover have "\<bar>k * 10 ^ nat (e - f)\<bar> \<le> int (n * 10 ^ nat (e - f))"
    using k by (simp add: abs_mult mult_right_mono)
  ultimately show ?thesis unfolding on_grid_def by blast
qed

lemma on_grid_bound: "on_grid e n d \<Longrightarrow> \<bar>dval d\<bar> \<le> of_nat n * 10 powi e"
proof (elim on_gridE)
  fix k assume "\<bar>k\<bar> \<le> int n" "dval d = of_int k * 10 powi e"
  moreover from this have "(of_int \<bar>k\<bar> :: rat) \<le> of_int (int n)" by (simp only: of_int_le_iff)
  ultimately show ?thesis by (simp add: abs_mult)
qed

text \<open>A value within a smaller bound keeps its grid under that bound.\<close>

lemma on_grid_restrict:
  assumes d: "on_grid e m d" and b: "\<bar>dval d\<bar> \<le> of_nat n * 10 powi e"
  shows "on_grid e n d"
proof -
  from d obtain k where k: "dval d = of_int k * 10 powi e" by (auto elim: on_gridE)
  with b have "of_int \<bar>k\<bar> \<le> (of_int (int n) :: rat)" by (simp add: abs_mult)
  then have "\<bar>k\<bar> \<le> int n" by (simp only: of_int_le_iff)
  then show ?thesis using k by (auto simp: on_grid_def)
qed

lemma on_grid_plus:
  assumes "on_grid e m a" and "on_grid e n b" and "m + n < 10 ^ 28"
  shows "dval (a + b) = dval a + dval b" and "on_grid e (m + n) (a + b)"
proof -
  from assms obtain i j where i: "\<bar>i\<bar> \<le> int m" "dval a = of_int i * 10 powi e"
    and j: "\<bar>j\<bar> \<le> int n" "dval b = of_int j * 10 powi e"
    by (auto elim!: on_gridE)
  have k: "\<bar>i + j\<bar> \<le> int (m + n)" using i j by simp
  have v: "dval (grid_point e (i + j)) = dval a + dval b" using i j by (simp add: algebra_simps)
  show *: "dval (a + b) = dval a + dval b"
    using plus_exact [OF repr_grid_point [OF k assms(3)] v] v by simp
  show "on_grid e (m + n) (a + b)" unfolding on_grid_def * using k v by auto
qed

lemma on_grid_minus:
  assumes "on_grid e m a" and "on_grid e n b" and "m + n < 10 ^ 28"
  shows "dval (a - b) = dval a - dval b" and "on_grid e (m + n) (a - b)"
proof -
  from assms obtain i j where i: "\<bar>i\<bar> \<le> int m" "dval a = of_int i * 10 powi e"
    and j: "\<bar>j\<bar> \<le> int n" "dval b = of_int j * 10 powi e"
    by (auto elim!: on_gridE)
  have k: "\<bar>i - j\<bar> \<le> int (m + n)" using i j by simp
  have v: "dval (grid_point e (i - j)) = dval a - dval b" using i j by (simp add: algebra_simps)
  show *: "dval (a - b) = dval a - dval b"
    using minus_exact [OF repr_grid_point [OF k assms(3)] v] v by simp
  show "on_grid e (m + n) (a - b)" unfolding on_grid_def * using k v by auto
qed

lemma on_grid_times:
  assumes "on_grid e m a" and "on_grid f n b" and "m * n < 10 ^ 28"
  shows "dval (a * b) = dval a * dval b" and "on_grid (e + f) (m * n) (a * b)"
proof -
  from assms obtain i j where i: "\<bar>i\<bar> \<le> int m" "dval a = of_int i * 10 powi e"
    and j: "\<bar>j\<bar> \<le> int n" "dval b = of_int j * 10 powi f"
    by (auto elim!: on_gridE)
  have k: "\<bar>i * j\<bar> \<le> int (m * n)" using i j by (simp add: abs_mult mult_mono)
  have v: "dval (grid_point (e + f) (i * j)) = dval a * dval b" using i j by (simp add: power_int_add)
  show *: "dval (a * b) = dval a * dval b"
    using times_exact [OF repr_grid_point [OF k assms(3)] v] v by simp
  show "on_grid (e + f) (m * n) (a * b)" unfolding on_grid_def * using k v by auto
qed

text \<open>Dividing by ten thousand moves the point.\<close>

lemma dquot_ten_thousand:
  assumes "repr a"
  shows "dval (dquot a (Dec False 10000 0)) = dval a / 10000"
proof -
  let ?m = "Dec (dneg a) (dcoeff a) (dexp a - 4)"
  have "repr ?m" using assms by (simp add: repr_def)
  moreover have "dval ?m = dval a / dval (Dec False 10000 0)"
    by (simp add: dval_def dint_def power_int_diff)
  ultimately show ?thesis
    using dquot_exact [of "Dec False 10000 0" ?m a] by (simp add: dzero_def dval_Dec)
qed

lemma on_grid_ten_thousandth:
  "on_grid e n a \<Longrightarrow> repr a \<Longrightarrow> on_grid (e - 4) n (dquot a (Dec False 10000 0))"
  by (auto simp: on_grid_def dquot_ten_thousand power_int_diff)

section \<open>Quotients of grid numbers\<close>

lemma ten27: "10 * 10 ^ 27 = (10 :: nat) ^ 28" "(10 :: nat) ^ 27 < 10 ^ 28"
  by simp_all

lemma dquot_above_floor:
  assumes a: "dval a = of_nat N * g" and b: "dval b = of_nat D * g"
    and g: "0 < g" and D: "0 < D" and room: "N + D \<le> 10 ^ 27" and r: "N mod D \<noteq> 0"
  shows "of_nat (N div D) < dval (dquot a b)"
proof -
  have b0: "\<not> dzero b" using b g D by (simp flip: dval_zero_iff)
  have q: "dval a / dval b = of_nat N / of_nat D" using a b g by simp
  define K j where "K = N div D" and "j = ndigits D"
  have j: "D < 10 ^ j" by (simp add: j_def ndigits_upper)
  have "10 ^ (j - 1) \<le> D" using ndigits_lower [OF D] by (simp add: j_def)
  moreover have "(10::nat) ^ j = 10 * 10 ^ (j - 1)" by (simp add: j_def flip: power_Suc)
  ultimately have j10: "10 ^ j \<le> 10 * D" by simp
  have N: "K * D + 1 \<le> N"
  proof -
    have "N = K * D + N mod D" by (simp add: K_def)
    then show ?thesis using r by linarith
  qed
  define m where "m = Dec False (K * 10 ^ j + 1) (- int j)"
  have "K * 10 ^ j \<le> K * (10 * D)" using j10 by (rule mult_left_mono) simp
  also have "\<dots> = 10 * (K * D)" by simp
  finally have "K * 10 ^ j \<le> 10 * (K * D)" .
  then have "K * 10 ^ j + 1 < 10 ^ 28" using N room D ten27(1) by linarith
  then have rm: "repr m" by (simp add: repr_def m_def prec_def)
  have mval: "dval m = of_nat K + 1 / 10 ^ j"
    by (simp add: m_def dval_Dec power_int_minus field_simps)
  have "(of_nat (K * D + 1) :: rat) \<le> of_nat N" using N by (simp only: of_nat_le_iff)
  then have "(of_nat (K * D + 1) :: rat) / of_nat D \<le> of_nat N / of_nat D" by (rule divide_right_mono) simp
  moreover have "(of_nat (K * D + 1) :: rat) / of_nat D = of_nat K + 1 / of_nat D"
    using D by (simp add: add_divide_distrib)
  ultimately have "of_nat K + 1 / of_nat D \<le> (of_nat N :: rat) / of_nat D" by simp
  moreover have "(of_nat D :: rat) \<le> of_nat (10 ^ j)" using j by (simp only: of_nat_le_iff less_imp_le)
  then have "1 / (10 ^ j :: rat) \<le> 1 / of_nat D" using D by (intro divide_left_mono) simp_all
  ultimately have "dval m \<le> dval a / dval b" by (simp add: q mval)
  then have "dval m \<le> dval (dquot a b)" by (rule dquot_ge [OF b0 rm])
  moreover have "of_nat K < dval m" by (simp add: mval)
  ultimately show ?thesis by (simp add: K_def)
qed

lemma dquot_below:
  assumes v: "dval v \<le> of_nat N * g" and b: "dval b = of_nat D * g"
    and g: "0 < g" and D: "0 < D" and room: "N + D \<le> 10 ^ 27"
  shows "dval (dquot v b) < of_nat (N div D) + 1"
proof -
  have b0: "\<not> dzero b" using b g D by (simp flip: dval_zero_iff)
  have "dval v / dval b \<le> of_nat N * g / (of_nat D * g)" unfolding b using v g D by (intro divide_right_mono) simp_all
  then have q: "dval v / dval b \<le> of_nat N / of_nat D" using g by simp
  define K j where "K = N div D" and "j = ndigits D"
  have j: "D < 10 ^ j" by (simp add: j_def ndigits_upper)
  have "10 ^ (j - 1) \<le> D" using ndigits_lower [OF D] by (simp add: j_def)
  moreover have "(10::nat) ^ j = 10 * 10 ^ (j - 1)" by (simp add: j_def flip: power_Suc)
  ultimately have j10: "10 ^ j \<le> 10 * D" by simp
  define m where "m = Dec False ((K + 1) * 10 ^ j - 1) (- int j)"
  have KD: "K * D \<le> N" by (simp add: K_def)
  have "(K + 1) * 10 ^ j \<le> (K + 1) * (10 * D)" using j10 by (rule mult_left_mono) simp
  also have "\<dots> = 10 * (K * D + D)" by (simp add: algebra_simps)
  also have "\<dots> \<le> 10 * 10 ^ 27" using KD room by (intro mult_left_mono) linarith+
  finally have "(K + 1) * 10 ^ j \<le> 10 ^ 28" by simp
  moreover have pos: "1 \<le> (K + 1) * 10 ^ j" by (simp add: Suc_le_eq)
  ultimately have rm: "repr m" unfolding repr_def m_def prec_def by simp
  have mval: "dval m = of_nat K + 1 - 1 / 10 ^ j"
    using pos by (simp add: m_def dval_Dec of_nat_diff power_int_minus field_simps)
  have "N + 1 \<le> (K + 1) * D" using dividend_less_div_times [OF D, of N] by (simp add: K_def)
  then have "(of_nat (N + 1) :: rat) \<le> of_nat ((K + 1) * D)" by (simp only: of_nat_le_iff)
  then have "(of_nat N :: rat) / of_nat D \<le> of_nat K + 1 - 1 / of_nat D" using D by (simp add: field_simps)
  moreover have "(of_nat D :: rat) \<le> of_nat (10 ^ j)" using j by (simp only: of_nat_le_iff less_imp_le)
  then have "1 / (10 ^ j :: rat) \<le> 1 / of_nat D" using D by (intro divide_left_mono) simp_all
  ultimately have "dval v / dval b \<le> dval m" using q by (simp add: mval)
  then have "dval (dquot v b) \<le> dval m" by (rule dquot_le [OF b0 rm])
  moreover have "0 < 1 / (10 ^ j :: rat)" by simp
  ultimately show ?thesis unfolding mval K_def by linarith
qed

lemma integral_floor_grid:
  assumes a: "dval a = of_nat N * g" and b: "dval b = of_nat D * g"
    and g: "0 < g" and D: "0 < D" and room: "N + D \<le> 10 ^ 27"
  shows "dval (to_integral Floor (dquot a b)) = of_nat (N div D)"
proof -
  let ?q = "dquot a b"
  have q: "of_nat (N div D) \<le> dval ?q" "dval ?q < of_nat (N div D) + 1"
    using dquot_floor [OF a b g D] room by (simp_all add: prec_def)
  obtain z :: int where z: "dval (to_integral Floor ?q) = of_int z" using to_integral_int by blast
  have "(of_int z :: rat) < of_int (int (N div D) + 1)" "(of_int (int (N div D)) :: rat) < of_int (z + 1)"
    using to_integral_floor [of ?q] q z by simp_all
  then have "z = int (N div D)" by (simp only: of_int_less_iff)
  then show ?thesis using z by simp
qed

lemma integral_ceiling_grid:
  assumes a: "dval a = of_nat N * g" and b: "dval b = of_nat D * g"
    and g: "0 < g" and D: "0 < D" and room: "N + D \<le> 10 ^ 27"
  shows "dval (to_integral Ceiling (dquot a b)) = of_nat (ceil_div N D)"
proof -
  let ?q = "dquot a b"
  have q: "of_nat (N div D) \<le> dval ?q" "dval ?q < of_nat (N div D) + 1"
    using dquot_floor [OF a b g D] room by (simp_all add: prec_def)
  obtain z :: int where z: "dval (to_integral Ceiling ?q) = of_int z" using to_integral_int by blast
  show ?thesis
  proof (cases "N mod D = 0")
    case True
    then have "N = N div D * D" by auto
    moreover have "(of_nat (N div D * D) :: rat) = of_nat (N div D) * of_nat D" by simp
    ultimately have "dval a / dval b = of_nat (N div D)" using a b g D by (metis mult_divide_mult_cancel_right
          nonzero_mult_div_cancel_right of_nat_0_less_iff order_less_irrefl)
    moreover have "N div D < 10 ^ 28" using room div_le_dividend [of N D] ten27(2) by linarith
    then have "repr (dec_of_int (int (N div D)))" by (simp add: repr_def dec_of_int_def prec_def)
    moreover have "\<not> dzero b" using b g D by (simp flip: dval_zero_iff)
    ultimately have "dval ?q = of_nat (N div D)" using dquot_exact [of b "dec_of_int (int (N div D))" a] by simp
    then have "(of_int (int (N div D)) :: rat) \<le> of_int z" "(of_int z :: rat) < of_int (int (N div D) + 1)"
      using to_integral_ceiling [of ?q] z by simp_all
    then have "z = int (N div D)" by (simp only: of_int_less_iff of_int_le_iff)
    then show ?thesis using z True by (simp add: ceil_div_def)
  next
    case False
    have "of_nat (N div D) < dval ?q" using dquot_above_floor [OF assms False] .
    then have "(of_int (int (N div D)) :: rat) < of_int z" "(of_int z :: rat) < of_int (int (N div D) + 2)"
      using to_integral_ceiling [of ?q] z q by simp_all
    then have "z = int (Suc (N div D))" by (simp only: of_int_less_iff)
    then show ?thesis using z False by (simp add: ceil_div_def)
  qed
qed

section \<open>Whole numbers of ticks\<close>

definition tick_floor :: "decimal \<Rightarrow> decimal \<Rightarrow> decimal" where
  \<comment> \<open>the callers have checked that the tick is positive\<close>
  "tick_floor v tick = to_integral Floor (dquot v tick) * tick"

definition tick_ceiling :: "decimal \<Rightarrow> decimal \<Rightarrow> decimal" where
  "tick_ceiling v tick = to_integral Ceiling (dquot v tick) * tick"

definition ticks :: "decimal \<Rightarrow> decimal \<Rightarrow> bool" where
  \<comment> \<open>a positive whole number of ticks, with at most 28 digits\<close>
  "ticks v tick = (repr v \<and> (\<exists>k. 0 < k \<and> k < 10 ^ 28 \<and> dval v = of_nat k * dval tick))"

lemma repr_of_nat: "n < 10 ^ 28 \<Longrightarrow> repr (dec_of_int (int n))"
  by (simp add: repr_def dec_of_int_def prec_def)

lemma tick_pos: "0 < tick \<Longrightarrow> 0 < dval tick" "0 < tick \<Longrightarrow> \<not> dzero tick"
  using dval_zero_iff [of tick] by (auto simp: less_iff_dval)

lemma ticks_pos: "ticks p tick \<Longrightarrow> 0 < tick \<Longrightarrow> 0 < dval p"
  by (auto simp: ticks_def tick_pos)

lemma tick_ceiling_ge:
  assumes p: "ticks p tick" and tick: "0 < tick" and v: "dval p \<le> dval v"
  shows "dval p \<le> dval (tick_ceiling v tick)"
proof -
  from p obtain k where k: "0 < k" "k < 10 ^ 28" "dval p = of_nat k * dval tick" and r: "repr p"
    by (auto simp: ticks_def)
  have t: "0 < dval tick" "\<not> dzero tick" using tick by (simp_all add: tick_pos)
  from v have "of_nat k \<le> dval v / dval tick" using k t by (simp add: le_divide_eq)
  then have "of_nat k \<le> dval (dquot v tick)"
    using dquot_ge [OF t(2) repr_of_nat [OF k(2)], of v] by simp
  then have "of_nat k \<le> dval (to_integral Ceiling (dquot v tick))"
    using to_integral_ceiling(1) [of "dquot v tick"] by linarith
  then have "dval p \<le> dval (to_integral Ceiling (dquot v tick)) * dval tick" using k t by simp
  then show ?thesis unfolding tick_ceiling_def by (rule times_ge [OF r])
qed

lemma tick_floor_le:
  assumes p: "ticks p tick" and tick: "0 < tick" and v: "dval v \<le> dval p"
  shows "dval (tick_floor v tick) \<le> dval p"
proof -
  from p obtain k where k: "0 < k" "k < 10 ^ 28" "dval p = of_nat k * dval tick" and r: "repr p"
    by (auto simp: ticks_def)
  have t: "0 < dval tick" "\<not> dzero tick" using tick by (simp_all add: tick_pos)
  from v have "dval v / dval tick \<le> of_nat k" using k t by (simp add: divide_le_eq)
  then have "dval (dquot v tick) \<le> of_nat k"
    using dquot_le [OF t(2) repr_of_nat [OF k(2)], of v] by simp
  then have "dval (to_integral Floor (dquot v tick)) \<le> of_nat k"
    using to_integral_floor(1) [of "dquot v tick"] by linarith
  then have "dval (to_integral Floor (dquot v tick)) * dval tick \<le> dval p" using k t by simp
  then show ?thesis unfolding tick_floor_def by (rule times_le [OF r])
qed

text \<open>A whole number of ticks is its own rounding.\<close>

lemma tick_floor_exact:
  assumes p: "ticks p tick" and tick: "0 < tick" and v: "dval v = dval p"
  shows "dval (tick_floor v tick) = dval p"
proof -
  from p obtain k where k: "0 < k" "k < 10 ^ 28" "dval p = of_nat k * dval tick" and r: "repr p"
    by (auto simp: ticks_def)
  have t: "0 < dval tick" "\<not> dzero tick" using tick by (simp_all add: tick_pos)
  have q: "dval (dquot v tick) = of_nat k"
    using dquot_exact [OF t(2) repr_of_nat [OF k(2)], of v] k t v by simp
  obtain z :: int where z: "dval (to_integral Floor (dquot v tick)) = of_int z" using to_integral_int by blast
  have "(of_int z :: rat) \<le> of_int (int k)" "(of_int (int k) :: rat) < of_int (z + 1)"
    using to_integral_floor [of "dquot v tick"] q z by simp_all
  then have "z = int k" by (simp only: of_int_le_iff of_int_less_iff)
  then have "dval p = dval (to_integral Floor (dquot v tick)) * dval tick" using k z by simp
  then show ?thesis unfolding tick_floor_def by (rule times_exact [OF r])
qed

lemma ticks_value: "ticks p tick \<Longrightarrow> dval q = dval p \<Longrightarrow> repr q \<Longrightarrow> ticks q tick"
  by (simp add: ticks_def)

text \<open>On a grid the roundings are integer division, and the results are exact.\<close>

lemma tick_product:
  assumes i: "dval i = of_nat n" and tick: "dval tick = of_nat D * 10 powi e" and small: "n * D < 10 ^ 28"
  shows "dval (i * tick) = of_nat n * dval tick"
  using times_exact [OF repr_grid_point [of "int (n * D)" "n * D" e], of i tick] assms by simp

lemma tick_floor_grid:
  assumes v: "dval v = of_nat N * 10 powi e" and t: "dval tick = of_nat D * 10 powi e"
    and D: "0 < D" and room: "N + D \<le> 10 ^ 27"
  shows "dval (tick_floor v tick) = of_nat (N div D) * dval tick"
proof -
  have "N div D * D \<le> N" by simp
  then have "N div D * D < 10 ^ 28" using room ten27(2) by linarith
  then show ?thesis unfolding tick_floor_def
    by (intro tick_product [OF integral_floor_grid [OF v t _ D room] t]) simp_all
qed

lemma tick_floor_below:
  assumes v: "dval v \<le> of_nat N * 10 powi e" and t: "dval tick = of_nat D * 10 powi e"
    and D: "0 < D" and room: "N + D \<le> 10 ^ 27"
  shows "dval (tick_floor v tick) \<le> of_nat N * 10 powi e"
proof -
  define K where "K = N div D"
  obtain z :: int where z: "dval (to_integral Floor (dquot v tick)) = of_int z" using to_integral_int by blast
  have "dval (dquot v tick) < of_nat K + 1" unfolding K_def by (rule dquot_below [OF v t _ D room]) simp
  then have "(of_int z :: rat) < of_int (int K + 1)" using to_integral_floor(1) [of "dquot v tick"] z by simp
  then have zK: "z \<le> int K" by (simp only: of_int_less_iff)
  have KD: "K * D \<le> N" by (simp add: K_def)
  then have small: "K * D < 10 ^ 28" using room ten27(2) by linarith
  have "(of_int z :: rat) \<le> of_int (int K)" using zK by (simp only: of_int_le_iff)
  then have "of_int z * dval tick \<le> of_nat K * dval tick" unfolding t by (intro mult_right_mono) simp_all
  then have "dval (to_integral Floor (dquot v tick)) * dval tick \<le> dval (grid_point e (int (K * D)))"
    using z t by simp
  then have "dval (tick_floor v tick) \<le> of_nat (K * D) * 10 powi e"
    unfolding tick_floor_def
    using times_le [OF repr_grid_point [of "int (K * D)" "K * D" e]] small by fastforce
  also have "(of_nat (K * D) :: rat) \<le> of_nat N" using KD by (simp only: of_nat_le_iff)
  then have "of_nat (K * D) * 10 powi e \<le> (of_nat N * 10 powi e :: rat)" by (intro mult_right_mono) simp_all
  finally show ?thesis .
qed

lemma tick_ceiling_grid:
  assumes v: "dval v = of_nat N * 10 powi e" and t: "dval tick = of_nat D * 10 powi e"
    and D: "0 < D" and room: "N + D \<le> 10 ^ 27"
  shows "dval (tick_ceiling v tick) = of_nat (ceil_div N D) * dval tick"
proof -
  have "ceil_div N D * D < N + D" using ceil_div_bounds [OF D] by simp
  then have "ceil_div N D * D < 10 ^ 28" using room ten27(2) by linarith
  then show ?thesis unfolding tick_ceiling_def
    by (intro tick_product [OF integral_ceiling_grid [OF v t _ D room] t]) simp_all
qed

lemma tick_ceiling_grid_bounds:
  assumes v: "dval v = of_nat N * 10 powi e" and t: "dval tick = of_nat D * 10 powi e"
    and D: "0 < D" and room: "N + D \<le> 10 ^ 27"
  shows "dval v \<le> dval (tick_ceiling v tick)" and "dval (tick_ceiling v tick) < dval v + dval tick"
proof -
  have b: "N \<le> ceil_div N D * D" "ceil_div N D * D < N + D" using ceil_div_bounds [OF D] by simp_all
  have eq: "dval (tick_ceiling v tick) = of_nat (ceil_div N D * D) * 10 powi e"
    unfolding tick_ceiling_grid [OF assms] t by simp
  have "(of_nat N :: rat) \<le> of_nat (ceil_div N D * D)" "(of_nat (ceil_div N D * D) :: rat) < of_nat (N + D)"
    using b by (simp_all only: of_nat_le_iff of_nat_less_iff)
  then have "of_nat N * 10 powi e \<le> (of_nat (ceil_div N D * D) * 10 powi e :: rat)"
    "(of_nat (ceil_div N D * D) * 10 powi e :: rat) < of_nat (N + D) * 10 powi e"
    by (simp_all only: mult_le_cancel_right_pos mult_less_cancel_right_pos powi10_pos)
  then show "dval v \<le> dval (tick_ceiling v tick)" "dval (tick_ceiling v tick) < dval v + dval tick"
    unfolding eq v t by (simp_all add: algebra_simps)
qed

section \<open>Sums of bounded terms\<close>

lemma foldl_plus_le:
  assumes "list_all2 (\<lambda>c w. 0 \<le> dval c \<and> dval c \<le> dval w) cs ws" and "\<forall>w \<in> set ws. on_grid e n w"
    and "0 \<le> dval a" "dval a \<le> dval b" "on_grid e m b" and "m + length ws * n < 10 ^ 28"
  shows "0 \<le> dval (foldl (+) a cs) \<and> dval (foldl (+) a cs) \<le> dval (foldl (+) b ws)"
  using assms
proof (induction arbitrary: a b m rule: list_all2_induct)
  case (Cons c cs w ws)
  have g: "on_grid e (m + n) (b + w)" "dval (b + w) = dval b + dval w"
    using Cons.prems by (auto intro!: on_grid_plus)
  have "0 \<le> dval (a + c)" using Cons.hyps Cons.prems by (intro plus_nonneg) simp_all
  moreover have "dval (a + c) \<le> dval (b + w)"
    using Cons.hyps Cons.prems g(2) by (intro plus_le) simp_all
  ultimately show ?case using Cons.IH [OF _ _ _ g(1)] Cons.prems by simp
qed simp

lemma dsum_le:
  assumes "list_all2 (\<lambda>c w. 0 \<le> dval c \<and> dval c \<le> dval w) cs ws" and "\<forall>w \<in> set ws. on_grid e n w"
    and "length ws * n < 10 ^ 28"
  shows "0 \<le> dval (dsum cs)" "dval (dsum cs) \<le> dval (dsum ws)"
proof -
  have "on_grid e 0 0" by (simp add: on_grid_def)
  then show "0 \<le> dval (dsum cs)" "dval (dsum cs) \<le> dval (dsum ws)"
    using foldl_plus_le [OF assms(1,2), of 0 0 0] assms(3) by (simp_all add: dsum_def)
qed

end
