(* ===== verification/Costs.thy ===== *)
theory Costs
  imports Identity Ticks
begin

text \<open>
  Cash-equity charges (\<open>execution/costs.py\<close>): fills, the effective-dated tariff, the charges of
  one trading day (a leg) and the two pricing routines.

  \<open>calculate_delivery_charges\<close> prices deliveries and refuses a day on which one scrip was both
  bought and sold; \<open>calculate_equity_cash_charges\<close> nets such a pair as intraday when the
  quantities agree.  Charges are decimals of exponent -2 (paise) or 0 (rupees); quantizing more
  than 28 digits raises, so every routine returns a result.
\<close>

section \<open>Helpers\<close>

datatype fill_side = BUY | SELL

datatype zerodha_dp_tariff = RESIDENT_RETAIL_STANDARD | RESIDENT_RETAIL_FEMALE_FIRST_HOLDER

definition TEN_THOUSAND :: decimal where
  "TEN_THOUSAND = Dec False 10000 0"

definition nonneg_guard :: "decimal \<Rightarrow> string \<Rightarrow> bool \<times> py_exc" where
  \<comment> \<open>\<open>_decimal(value, name)\<close>\<close>
  "nonneg_guard v name = (v < 0, ValueError (name @ '' cannot be negative''))"

definition positive_guard :: "decimal \<Rightarrow> string \<Rightarrow> bool \<times> py_exc" where
  \<comment> \<open>\<open>_decimal(value, name, positive=True)\<close>\<close>
  "positive_guard v name = (v \<le> 0, ValueError (name @ '' must be positive''))"

definition paise :: "decimal \<Rightarrow> decimal res" where
  "paise v = quantize HalfUp (-2) v"

definition rupee :: "decimal \<Rightarrow> decimal res" where
  "rupee v = quantize HalfUp 0 v"

definition bps :: "decimal \<Rightarrow> decimal \<Rightarrow> decimal" where
  "bps turnover rate = dquot (turnover * rate) TEN_THOUSAND"

section \<open>Fills\<close>

record delivery_fill =
  trade_date :: date
  symbol :: string
  isin :: string
  side :: fill_side
  quantity :: int
  price :: decimal
  order_id :: string
  fill_id :: string

fun side_val :: "fill_side \<Rightarrow> pyval" where
  "side_val BUY = PEnum ''india_swing.execution.costs.FillSide'' (PStr ''BUY'')"
| "side_val SELL = PEnum ''india_swing.execution.costs.FillSide'' (PStr ''SELL'')"

definition fill_material :: "delivery_fill \<Rightarrow> (string \<times> pyval) list" where
  "fill_material f =
     [(''schema'', PStr ''nse-equity-cash-fill/v2''),
      (''trade_date'', PDate (trade_date f)),
      (''symbol'', PStr (symbol f)),
      (''isin'', PStr (isin f)),
      (''side'', side_val (side f)),
      (''quantity'', PInt (quantity f)),
      (''price'', PDecimal (price f)),
      (''order_id'', PStr (order_id f))]"

definition mk_delivery_fill ::
  "date \<Rightarrow> string \<Rightarrow> string \<Rightarrow> fill_side \<Rightarrow> int \<Rightarrow> decimal \<Rightarrow> string \<Rightarrow> delivery_fill res" where
  "mk_delivery_fill d s i sd q p oid =
     (let f = \<lparr>trade_date = d, symbol = s, isin = i, side = sd, quantity = q, price = p,
        order_id = oid, fill_id = []\<rparr>
      in guards
        [(\<not> normalized_upper s, ValueError ''symbol must be normalized uppercase text''),
         (\<not> normalized_upper i, ValueError ''isin must be normalized uppercase text''),
         (length i \<noteq> 12, ValueError ''isin must contain 12 characters''),
         (q \<le> 0, ValueError ''quantity must be a positive integer''),
         positive_guard p ''price'',
         (blank oid, ValueError ''order_id is required'')]
        (Inr (f\<lparr>fill_id := fields_id (fill_material f)\<rparr>)))"

definition turnover :: "delivery_fill \<Rightarrow> decimal" where
  "turnover f = price f * dec_of_int (quantity f)"

section \<open>The tariff\<close>

record nse_delivery_cost_schedule =
  effective_from :: date
  effective_to :: "date option"
  dp_tariff :: zerodha_dp_tariff
  brokerage_bps :: decimal
  stt_buy_bps :: decimal
  stt_sell_bps :: decimal
  exchange_and_ipft_bps :: decimal
  sebi_bps :: decimal
  stamp_buy_bps :: decimal
  gst_rate :: decimal
  dp_base_per_scrip :: decimal
  intraday_brokerage_bps :: decimal
  intraday_brokerage_cap_per_order :: decimal
  intraday_stt_sell_bps :: decimal
  intraday_stamp_buy_bps :: decimal
  source_urls :: "string list"
  policy_version :: string
  schedule_id :: string

fun tariff_val :: "zerodha_dp_tariff \<Rightarrow> pyval" where
  "tariff_val RESIDENT_RETAIL_STANDARD =
     PEnum ''india_swing.execution.costs.ZerodhaDpTariff'' (PStr ''RESIDENT_RETAIL_STANDARD'')"
| "tariff_val RESIDENT_RETAIL_FEMALE_FIRST_HOLDER =
     PEnum ''india_swing.execution.costs.ZerodhaDpTariff'' (PStr ''RESIDENT_RETAIL_FEMALE_FIRST_HOLDER'')"

definition schedule_material :: "nse_delivery_cost_schedule \<Rightarrow> (string \<times> pyval) list" where
  "schedule_material s =
     [(''schema'', PStr ''nse-equity-cash-cost-schedule/v2''),
      (''effective_from'', PDate (effective_from s)),
      (''effective_to'', popt PDate (effective_to s)),
      (''dp_tariff'', tariff_val (dp_tariff s)),
      (''brokerage_bps'', PDecimal (brokerage_bps s)),
      (''stt_buy_bps'', PDecimal (stt_buy_bps s)),
      (''stt_sell_bps'', PDecimal (stt_sell_bps s)),
      (''exchange_and_ipft_bps'', PDecimal (exchange_and_ipft_bps s)),
      (''sebi_bps'', PDecimal (sebi_bps s)),
      (''stamp_buy_bps'', PDecimal (stamp_buy_bps s)),
      (''gst_rate'', PDecimal (gst_rate s)),
      (''dp_base_per_scrip'', PDecimal (dp_base_per_scrip s)),
      (''intraday_brokerage_bps'', PDecimal (intraday_brokerage_bps s)),
      (''intraday_brokerage_cap_per_order'', PDecimal (intraday_brokerage_cap_per_order s)),
      (''intraday_stt_sell_bps'', PDecimal (intraday_stt_sell_bps s)),
      (''intraday_stamp_buy_bps'', PDecimal (intraday_stamp_buy_bps s)),
      (''source_urls'', PTuple (map PStr (source_urls s))),
      (''policy_version'', PStr (policy_version s))]"

definition schedule_calculated_id :: "nse_delivery_cost_schedule \<Rightarrow> string" where
  "schedule_calculated_id s = fields_id (schedule_material s)"

definition schedule_guards :: "nse_delivery_cost_schedule \<Rightarrow> (bool \<times> py_exc) list" where
  "schedule_guards s =
     [(case effective_to s of None \<Rightarrow> False | Some t \<Rightarrow> t < effective_from s,
         ValueError ''effective_to cannot precede effective_from''),
      nonneg_guard (brokerage_bps s) ''brokerage_bps'',
      nonneg_guard (stt_buy_bps s) ''stt_buy_bps'',
      nonneg_guard (stt_sell_bps s) ''stt_sell_bps'',
      nonneg_guard (exchange_and_ipft_bps s) ''exchange_and_ipft_bps'',
      nonneg_guard (sebi_bps s) ''sebi_bps'',
      nonneg_guard (stamp_buy_bps s) ''stamp_buy_bps'',
      nonneg_guard (gst_rate s) ''gst_rate'',
      nonneg_guard (dp_base_per_scrip s) ''dp_base_per_scrip'',
      nonneg_guard (intraday_brokerage_bps s) ''intraday_brokerage_bps'',
      nonneg_guard (intraday_brokerage_cap_per_order s) ''intraday_brokerage_cap_per_order'',
      nonneg_guard (intraday_stt_sell_bps s) ''intraday_stt_sell_bps'',
      nonneg_guard (intraday_stamp_buy_bps s) ''intraday_stamp_buy_bps'',
      (1 < gst_rate s, ValueError ''gst_rate must be expressed as a fraction''),
      (source_urls s = [] \<or> \<not> list_all (starts_with ''https://'') (source_urls s)
         \<or> \<not> distinct (source_urls s), ValueError ''source_urls must be unique HTTPS URLs''),
      (policy_version s = [], ValueError ''policy_version is required'')]"

definition mk_schedule :: "nse_delivery_cost_schedule \<Rightarrow> nse_delivery_cost_schedule res" where
  \<comment> \<open>the constructor, on a record whose \<open>schedule_id\<close> is still to be computed\<close>
  "mk_schedule s = guards (schedule_guards s) (Inr (s\<lparr>schedule_id := schedule_calculated_id s\<rparr>))"

definition verify_schedule :: "nse_delivery_cost_schedule \<Rightarrow> unit res" where
  "verify_schedule s = guards
     [(schedule_id s \<noteq> schedule_calculated_id s,
       CostScheduleError ''cost schedule content identity failed'')] (Inr ())"

definition applies_on :: "nse_delivery_cost_schedule \<Rightarrow> date \<Rightarrow> bool" where
  "applies_on s d = (effective_from s \<le> d
     \<and> (case effective_to s of None \<Rightarrow> True | Some t \<Rightarrow> d \<le> t))"

section \<open>Charge legs\<close>

record delivery_leg_charges =
  leg_date :: date
  leg_turnover :: decimal
  brokerage :: decimal
  stt :: decimal
  exchange_and_ipft :: decimal
  sebi :: decimal
  stamp :: decimal
  gst :: decimal
  dp_base :: decimal
  dp_gst :: decimal

definition dp_total :: "delivery_leg_charges \<Rightarrow> decimal" where
  "dp_total l = dp_base l + dp_gst l"

definition leg_total :: "delivery_leg_charges \<Rightarrow> decimal" where
  "leg_total l = brokerage l + stt l + exchange_and_ipft l + sebi l + stamp l + gst l + dp_total l"

definition leg_val :: "delivery_leg_charges \<Rightarrow> pyval" where
  "leg_val l = PDataclass ''india_swing.execution.costs.DeliveryLegCharges''
     [(''trade_date'', PDate (leg_date l)), (''turnover'', PDecimal (leg_turnover l)),
      (''brokerage'', PDecimal (brokerage l)), (''stt'', PDecimal (stt l)),
      (''exchange_and_ipft'', PDecimal (exchange_and_ipft l)), (''sebi'', PDecimal (sebi l)),
      (''stamp'', PDecimal (stamp l)), (''gst'', PDecimal (gst l)),
      (''dp_base'', PDecimal (dp_base l)), (''dp_gst'', PDecimal (dp_gst l))]"

record delivery_charge_breakdown =
  breakdown_schedule_id :: string
  legs :: "delivery_leg_charges list"
  calculation_id :: string

definition mk_breakdown :: "string \<Rightarrow> delivery_leg_charges list \<Rightarrow> delivery_charge_breakdown res" where
  "mk_breakdown sid ls = guards
     [(length sid \<noteq> 64, ValueError ''schedule_id must be a full content ID''),
      (ls = [], ValueError ''at least one charge leg is required''),
      (sort_key leg_date ls \<noteq> ls, ValueError ''charge legs must be ordered by trade date''),
      (card (set (map leg_date ls)) \<noteq> length ls, ValueError ''charge legs must have unique trade dates'')]
     (Inr \<lparr>breakdown_schedule_id = sid, legs = ls,
        calculation_id = fields_id
          [(''schema'', PStr ''nse-equity-cash-charge-breakdown/v2''), (''schedule_id'', PStr sid),
           (''legs'', PTuple (map leg_val ls))]\<rparr>)"

definition breakdown_total :: "delivery_charge_breakdown \<Rightarrow> decimal" where
  "breakdown_total b = dsum (map leg_total (legs b))"

section \<open>The published rate card\<close>

definition rate_card_2026 :: "zerodha_dp_tariff \<Rightarrow> nse_delivery_cost_schedule" where
  "rate_card_2026 tariff =
     \<lparr>effective_from = Date 2026 3 1,
      effective_to = None,
      dp_tariff = tariff,
      brokerage_bps = Dec False 0 0,
      stt_buy_bps = Dec False 10 0,
      stt_sell_bps = Dec False 10 0,
      exchange_and_ipft_bps = Dec False 307 (-3),
      sebi_bps = Dec False 1 (-2),
      stamp_buy_bps = Dec False 15 (-1),
      gst_rate = Dec False 18 (-2),
      dp_base_per_scrip = (if tariff = RESIDENT_RETAIL_FEMALE_FIRST_HOLDER
        then Dec False 1275 (-2) else Dec False 1300 (-2)),
      intraday_brokerage_bps = Dec False 3 0,
      intraday_brokerage_cap_per_order = Dec False 20 0,
      intraday_stt_sell_bps = Dec False 25 (-1),
      intraday_stamp_buy_bps = Dec False 3 (-1),
      source_urls =
        [''https://zerodha.com/charges'',
         ''https://nsearchives.nseindia.com/content/circulars/FA73061.pdf'',
         ''https://www.incometaxindia.gov.in/w/section-98-55'',
         ''https://support.zerodha.com/category/account-opening/resident-individual/ri-charges/articles/how-is-the-securities-transaction-tax-stt-calculated'',
         ''https://support.zerodha.com/category/account-opening/resident-individual/ri-charges/articles/brokerage-charged-for-partial-delivery'',
         ''https://www.sebi.gov.in/sebi_data/attachdocs/aug-2021/1628678904669.pdf'',
         ''https://www.indiacode.nic.in/show-data?abv=CEN&actid=AC_CEN_2_2_00036_189902_1523339055436&orderno=18&orgactid=AC_CEN_2_2_00036_189902_1523339055436&sectionId=49724&sectionno=9A&statehandle=123456789%2F1362'',
         ''https://www.cdslindia.com/dp/dpdetails.aspx?dp_id=81600''],
      policy_version = ''zerodha-nse-equity-cash-cost/v2'',
      schedule_id = []\<rparr>"

definition zerodha_nse_delivery_schedule_2026 ::
  "zerodha_dp_tariff \<Rightarrow> nse_delivery_cost_schedule res" where
  "zerodha_nse_delivery_schedule_2026 tariff = mk_schedule (rate_card_2026 tariff)"

section \<open>Pricing a set of fills\<close>

type_synonym scrip = "string \<times> string"

definition scrip_of :: "delivery_fill \<Rightarrow> scrip" where
  "scrip_of f = (symbol f, isin f)"

definition security_key :: "delivery_fill \<Rightarrow> string \<times> string \<times> fill_side" where
  "security_key f = (symbol f, isin f, side f)"

definition order_key :: "delivery_fill \<Rightarrow> string \<times> string \<times> fill_side \<times> string" where
  "order_key f = (symbol f, isin f, side f, order_id f)"

definition on_side :: "fill_side \<Rightarrow> delivery_fill list \<Rightarrow> delivery_fill list" where
  "on_side sd fs = filter (\<lambda>f. side f = sd) fs"

definition two_sided :: "delivery_fill list \<Rightarrow> scrip \<Rightarrow> bool" where
  \<comment> \<open>\<open>len(sides_by_scrip[key]) > 1\<close>\<close>
  "two_sided fs k = (let sides = map side (filter (\<lambda>f. scrip_of f = k) fs)
     in BUY \<in> set sides \<and> SELL \<in> set sides)"

definition total_turnover :: "delivery_fill list \<Rightarrow> decimal" where
  "total_turnover fs = dsum (map turnover fs)"

definition turnover_by :: "(delivery_fill \<Rightarrow> 'k) \<Rightarrow> delivery_fill list \<Rightarrow> 'k \<Rightarrow> decimal" where
  \<comment> \<open>the dictionary \<open>d[key(fill)] += fill.turnover\<close> with default \<open>ZERO\<close>\<close>
  "turnover_by key fs k = total_turnover (filter (\<lambda>f. key f = k) fs)"

definition stt_by_security :: "(string \<times> string \<times> fill_side \<Rightarrow> decimal) \<Rightarrow> delivery_fill list \<Rightarrow> decimal res" where
  "stt_by_security rate fs = foldE (\<lambda>acc k.
     bindE (paise (bps (turnover_by security_key fs k) (rate k))) (\<lambda>p. Inr (acc + p)))
     0 (uniq (map security_key fs))"

definition delivery_rate :: "nse_delivery_cost_schedule \<Rightarrow> string \<times> string \<times> fill_side \<Rightarrow> decimal" where
  "delivery_rate s = (\<lambda>(_, _, sd). if sd = BUY then stt_buy_bps s else stt_sell_bps s)"

definition mixed_rate ::
  "scrip set \<Rightarrow> nse_delivery_cost_schedule \<Rightarrow> string \<times> string \<times> fill_side \<Rightarrow> decimal" where
  \<comment> \<open>the STT rate of a security that may be in the intraday set\<close>
  "mixed_rate intraday s = (\<lambda>(sym, i, sd).
     if (sym, i) \<in> intraday then (if sd = SELL then intraday_stt_sell_bps s else 0)
     else if sd = BUY then stt_buy_bps s else stt_sell_bps s)"

definition close_leg ::
  "nse_delivery_cost_schedule \<Rightarrow> date \<Rightarrow> decimal \<Rightarrow> decimal \<Rightarrow> decimal \<Rightarrow> decimal \<Rightarrow> decimal \<Rightarrow> decimal
    \<Rightarrow> nat \<Rightarrow> delivery_leg_charges res" where
  \<comment> \<open>the end both routines share: GST, the depository charge on sold scrips, the leg\<close>
  "close_leg s d tot b x e st t sold =
     bindE (paise ((b + x + e) * gst_rate s)) (\<lambda>g.
     bindE (paise (dp_base_per_scrip s * dec_of_int (int sold))) (\<lambda>dp.
     bindE (paise (dp * gst_rate s)) (\<lambda>dpg.
     bindE (paise tot) (\<lambda>tt.
       Inr \<lparr>leg_date = d, leg_turnover = tt, brokerage = b, stt = t, exchange_and_ipft = x,
            sebi = e, stamp = st, gst = g, dp_base = dp, dp_gst = dpg\<rparr>))))"

definition delivery_leg ::
  "nse_delivery_cost_schedule \<Rightarrow> date \<Rightarrow> delivery_fill list \<Rightarrow> delivery_leg_charges res" where
  \<comment> \<open>one pass of the loop over trading days\<close>
  "delivery_leg s d fs = guards
     [(list_ex (two_sided fs) (map scrip_of fs), CostScheduleError
        ''same-day buys and sells of one scrip are ambiguous under a delivery tariff'')]
     (let buy = total_turnover (on_side BUY fs); sell = total_turnover (on_side SELL fs);
          tot = buy + sell in
      bindE (paise (bps tot (brokerage_bps s))) (\<lambda>b.
      bindE (paise (bps tot (exchange_and_ipft_bps s))) (\<lambda>x.
      bindE (paise (bps tot (sebi_bps s))) (\<lambda>e.
      bindE (rupee (bps buy (stamp_buy_bps s))) (\<lambda>st.
      bindE (stt_by_security (delivery_rate s) fs) (\<lambda>raw.
      bindE (rupee raw) (\<lambda>t.
        close_leg s d tot b x e st t (card (set (map scrip_of (on_side SELL fs)))))))))))"

definition intraday_scrips :: "delivery_fill list \<Rightarrow> scrip list" where
  "intraday_scrips fs = filter (two_sided fs) (uniq (map scrip_of fs))"

definition side_quantity :: "delivery_fill list \<Rightarrow> scrip \<Rightarrow> fill_side \<Rightarrow> int" where
  "side_quantity fs k sd = sum_list (map quantity (filter (\<lambda>f. scrip_of f = k \<and> side f = sd) fs))"

definition order_brokerage ::
  "nse_delivery_cost_schedule \<Rightarrow> delivery_fill list \<Rightarrow> decimal res" where
  \<comment> \<open>the capped brokerage of each intraday order\<close>
  "order_brokerage s intra = foldE (\<lambda>acc k.
     bindE (paise (bps (turnover_by order_key intra k) (intraday_brokerage_bps s)))
       (\<lambda>p. Inr (acc + py_min (intraday_brokerage_cap_per_order s) p)))
     0 (uniq (map order_key intra))"

definition intraday_fills :: "delivery_fill list \<Rightarrow> delivery_fill list" where
  "intraday_fills fs = filter (\<lambda>f. scrip_of f \<in> set (intraday_scrips fs)) fs"

definition delivery_base :: "delivery_fill list \<Rightarrow> decimal" where
  \<comment> \<open>\<open>turnover - sum(order_turnover.values(), ZERO)\<close>\<close>
  "delivery_base fs = total_turnover (on_side BUY fs) + total_turnover (on_side SELL fs)
     - dsum (map (turnover_by order_key (intraday_fills fs)) (uniq (map order_key (intraday_fills fs))))"

definition equity_leg ::
  "nse_delivery_cost_schedule \<Rightarrow> date \<Rightarrow> delivery_fill list \<Rightarrow> delivery_leg_charges res" where
  "equity_leg s d fs = guards
     [(list_ex (\<lambda>k. side_quantity fs k BUY \<noteq> side_quantity fs k SELL) (intraday_scrips fs), CostScheduleError
        ''partially netted same-day positions require explicit allocation evidence'')]
     (let intra = intraday_fills fs;
          buy = total_turnover (on_side BUY fs); sell = total_turnover (on_side SELL fs);
          tot = buy + sell;
          intra_buy = total_turnover (on_side BUY intra);
          delivery_buy = buy - intra_buy in
      bindE (order_brokerage s intra) (\<lambda>ob.
      bindE (paise (ob + bps (delivery_base fs) (brokerage_bps s))) (\<lambda>b.
      bindE (paise (bps tot (exchange_and_ipft_bps s))) (\<lambda>x.
      bindE (paise (bps tot (sebi_bps s))) (\<lambda>e.
      bindE (rupee (bps delivery_buy (stamp_buy_bps s) + bps intra_buy (intraday_stamp_buy_bps s))) (\<lambda>st.
      bindE (stt_by_security (mixed_rate (set (intraday_scrips fs)) s) fs) (\<lambda>raw.
      bindE (rupee raw) (\<lambda>t.
        close_leg s d tot b x e st t (card (set (map scrip_of
          (filter (\<lambda>f. scrip_of f \<notin> set (intraday_scrips fs)) (on_side SELL fs)))))))))))))"

definition fill_dates :: "delivery_fill list \<Rightarrow> date list" where
  "fill_dates fs = sort (remdups (map trade_date fs))"

definition fills_on :: "date \<Rightarrow> delivery_fill list \<Rightarrow> delivery_fill list" where
  "fills_on d fs = filter (\<lambda>f. trade_date f = d) fs"

definition charges_with ::
  "(nse_delivery_cost_schedule \<Rightarrow> date \<Rightarrow> delivery_fill list \<Rightarrow> delivery_leg_charges res)
    \<Rightarrow> delivery_fill list \<Rightarrow> nse_delivery_cost_schedule \<Rightarrow> delivery_charge_breakdown res" where
  \<comment> \<open>the checks and the loop both routines share, over the body of one day\<close>
  "charges_with leg fs s = guards
     [(fs = [], ValueError ''fills must be a non-empty tuple'')]
     (bindE (verify_schedule s) (\<lambda>_. guards
       [(card (set (map fill_id fs)) \<noteq> length fs, CostScheduleError ''duplicate fills are not allowed''),
        (\<not> list_all (\<lambda>f. applies_on s (trade_date f)) fs, CostScheduleError ''schedule does not apply'')]
       (bindE (mapE (\<lambda>d. leg s d (fills_on d fs)) (fill_dates fs)) (\<lambda>ls.
          mk_breakdown (schedule_id s) ls))))"

definition calculate_delivery_charges ::
  "delivery_fill list \<Rightarrow> nse_delivery_cost_schedule \<Rightarrow> delivery_charge_breakdown res" where
  "calculate_delivery_charges = charges_with delivery_leg"

definition calculate_equity_cash_charges ::
  "delivery_fill list \<Rightarrow> nse_delivery_cost_schedule \<Rightarrow> delivery_charge_breakdown res" where
  "calculate_equity_cash_charges = charges_with equity_leg"

section \<open>Signs and amounts\<close>

lemma TEN_THOUSAND_val [simp]: "dval TEN_THOUSAND = 10000" "\<not> dzero TEN_THOUSAND" "\<not> dneg TEN_THOUSAND"
  by (simp_all add: TEN_THOUSAND_def dval_def dint_def dzero_def)

lemma dval_bps: "dval (bps t r) = dval (t * r) / 10000"
proof -
  let ?x = "t * r"
  let ?m = "Dec (dneg ?x) (dcoeff ?x) (dexp ?x - 4)"
  have "repr ?m" using repr_times [of t r] by (simp add: repr_def)
  moreover have m: "dval ?m = dval ?x / 10000"
    by (simp add: dval_def dint_def power_int_diff)
  ultimately show ?thesis
    using dquot_exact [of TEN_THOUSAND ?m ?x] by (simp add: bps_def)
qed


lemma bps_nonneg: "0 \<le> dval t \<Longrightarrow> 0 \<le> dval r \<Longrightarrow> 0 \<le> dval (bps t r)"
  by (simp add: dval_bps times_nonneg)

lemma dneg_plus: "\<not> dneg a \<Longrightarrow> \<not> dneg b \<Longrightarrow> \<not> dneg (a + b)"
proof -
  assume "\<not> dneg a" "\<not> dneg b"
  then have "0 \<le> daligned e a + daligned e b" for e by (simp add: daligned_def dint_def)
  then show ?thesis using \<open>\<not> dneg a\<close> by (simp add: plus_decimal_def dplus_exact_def Let_def not_less)
qed

lemma dneg_foldl_plus: "\<not> dneg a \<Longrightarrow> \<forall>v \<in> set vs. \<not> dneg v \<Longrightarrow> \<not> dneg (foldl (+) a vs)"
  by (induction vs arbitrary: a) (simp_all add: dneg_plus)

lemma dneg_zero [simp]: "\<not> dneg (0 :: decimal)"
  by (simp add: zero_decimal_def)

lemma dneg_dsum: "\<forall>v \<in> set vs. \<not> dneg v \<Longrightarrow> \<not> dneg (dsum vs)"
  by (simp add: dsum_def dneg_foldl_plus)

lemmas paise_props = quantize_props [of "-2", folded paise_def]
  and rupee_props = quantize_props [of 0, folded rupee_def]

definition fill_ok :: "delivery_fill \<Rightarrow> bool" where
  \<comment> \<open>what the constructor has checked of the amounts\<close>
  "fill_ok f = (0 < quantity f \<and> 0 < price f)"

definition schedule_ok :: "nse_delivery_cost_schedule \<Rightarrow> bool" where
  "schedule_ok s = list_all (\<lambda>g. \<not> fst g) (schedule_guards s)"

lemma mk_delivery_fill_ok: "mk_delivery_fill d s i sd q p oid = Inr f \<Longrightarrow> fill_ok f"
  by (auto simp: mk_delivery_fill_def Let_def fill_ok_def positive_guard_def le_iff_dval less_iff_dval)

lemma schedule_id_update [simp]:
  "schedule_guards (s\<lparr>schedule_id := x\<rparr>) = schedule_guards s"
  "schedule_calculated_id (s\<lparr>schedule_id := x\<rparr>) = schedule_calculated_id s"
  by (simp_all add: schedule_guards_def schedule_calculated_id_def schedule_material_def
      split: option.split)

lemma mk_schedule_ok: "mk_schedule s = Inr s' \<Longrightarrow> schedule_ok s' \<and> verify_schedule s' = Inr ()"
  by (auto simp: mk_schedule_def guards_Inr_iff schedule_ok_def list_all_iff verify_schedule_def)

lemma fill_ok_turnover: "fill_ok f \<Longrightarrow> 0 \<le> dval (turnover f) \<and> \<not> dneg (turnover f)"
proof -
  assume f: "fill_ok f"
  then have "0 < dval (price f)" "0 < quantity f" by (simp_all add: fill_ok_def less_iff_dval)
  moreover then have "\<not> dneg (price f)" using dval_sign(1) [of "price f"] by auto
  ultimately show ?thesis
    by (simp add: turnover_def times_nonneg) (simp add: times_decimal_def dtimes_exact_def dec_of_int_def)
qed

lemma total_turnover_nonneg:
  "\<forall>f \<in> set fs. fill_ok f \<Longrightarrow> 0 \<le> dval (total_turnover fs) \<and> \<not> dneg (total_turnover fs)"
  by (simp add: total_turnover_def dsum_nonneg dneg_dsum fill_ok_turnover)

lemma schedule_rates:
  assumes "schedule_ok s"
  shows "0 \<le> dval (brokerage_bps s)" "0 \<le> dval (stt_buy_bps s)" "0 \<le> dval (stt_sell_bps s)"
    "0 \<le> dval (exchange_and_ipft_bps s)" "0 \<le> dval (sebi_bps s)" "0 \<le> dval (stamp_buy_bps s)"
    "0 \<le> dval (gst_rate s)" "0 \<le> dval (dp_base_per_scrip s)" "0 \<le> dval (intraday_brokerage_bps s)"
    "0 \<le> dval (intraday_brokerage_cap_per_order s)" "0 \<le> dval (intraday_stt_sell_bps s)"
    "0 \<le> dval (intraday_stamp_buy_bps s)" "dval (gst_rate s) \<le> 1"
  using assms by (simp_all add: schedule_ok_def schedule_guards_def nonneg_guard_def less_iff_dval not_less)

section \<open>What a returned leg looks like\<close>

definition leg_ok :: "delivery_leg_charges \<Rightarrow> bool" where
  \<comment> \<open>no charge is negative; STT and stamp duty are whole rupees, the others whole paise\<close>
  "leg_ok l = (list_all (\<lambda>v. 0 \<le> v \<and> dexp v = -2)
       [leg_turnover l, brokerage l, exchange_and_ipft l, sebi l, gst l, dp_base l, dp_gst l]
     \<and> list_all (\<lambda>v. 0 \<le> v \<and> dexp v = 0) [stt l, stamp l])"

lemma stt_fold_nonneg:
  assumes "foldE (\<lambda>acc k. bindE (paise (bps (val k) (rate k))) (\<lambda>p. Inr (acc + p))) a ks = Inr r"
    and "0 \<le> dval a" and "\<And>k. 0 \<le> dval (val k)" and "\<And>k. 0 \<le> dval (rate k)"
  shows "0 \<le> dval r"
  using assms(1,2)
proof (induction ks arbitrary: a)
  case (Cons k ks)
  from Cons.prems obtain p where p: "paise (bps (val k) (rate k)) = Inr p"
    and r: "foldE (\<lambda>acc k. bindE (paise (bps (val k) (rate k))) (\<lambda>p. Inr (acc + p))) (a + p) ks = Inr r"
    by (auto simp: res_simps)
  have "0 \<le> dval p" using paise_props(3) [OF p] assms(3,4) by (simp add: bps_nonneg)
  then show ?case using Cons.IH [OF r] Cons.prems(2) by (simp add: plus_nonneg)
qed simp

lemma turnover_by_nonneg: "\<forall>f \<in> set fs. fill_ok f \<Longrightarrow> 0 \<le> dval (turnover_by key fs k)"
  by (simp add: turnover_by_def total_turnover_nonneg)

lemma stt_nonneg:
  assumes "stt_by_security rate fs = Inr r" and "\<forall>f \<in> set fs. fill_ok f" and "\<And>k. 0 \<le> dval (rate k)"
  shows "0 \<le> dval r"
  using assms by (auto simp: stt_by_security_def turnover_by_nonneg intro: stt_fold_nonneg)

lemma close_leg_ok:
  assumes "close_leg s d tot b x e st t n = Inr l" and "schedule_ok s"
    and "0 \<le> dval b" "0 \<le> dval x" "0 \<le> dval e" "0 \<le> dval st" "0 \<le> dval t" "0 \<le> dval tot"
    and "dexp b = -2" "dexp x = -2" "dexp e = -2" "dexp st = 0" "dexp t = 0"
  shows "leg_ok l \<and> leg_date l = d"
proof -
  from assms(1) obtain g dp dpg tt where
    g: "paise ((b + x + e) * gst_rate s) = Inr g" and dp: "paise (dp_base_per_scrip s * dec_of_int (int n)) = Inr dp"
    and dpg: "paise (dp * gst_rate s) = Inr dpg" and tt: "paise tot = Inr tt"
    and l: "l = \<lparr>leg_date = d, leg_turnover = tt, brokerage = b, stt = t, exchange_and_ipft = x,
       sebi = e, stamp = st, gst = g, dp_base = dp, dp_gst = dpg\<rparr>"
    by (auto simp: close_leg_def res_simps)
  note r = schedule_rates [OF assms(2)]
  have "0 \<le> dval g" using paise_props(3) [OF g] r assms by (simp add: times_nonneg plus_nonneg)
  moreover have dp0: "0 \<le> dval dp" using paise_props(3) [OF dp] r by (simp add: times_nonneg)
  moreover have "0 \<le> dval dpg" using paise_props(3) [OF dpg] r dp0 by (simp add: times_nonneg)
  moreover have "0 \<le> dval tt" using paise_props(3) [OF tt] assms by simp
  ultimately show ?thesis
    using assms paise_props(1) [OF g] paise_props(1) [OF dp] paise_props(1) [OF dpg] paise_props(1) [OF tt]
    by (simp add: leg_ok_def le_iff_dval l)
qed

lemma delivery_leg_ok:
  assumes "delivery_leg s d fs = Inr l" and "schedule_ok s" and fs: "\<forall>f \<in> set fs. fill_ok f"
  shows "leg_ok l \<and> leg_date l = d"
proof -
  let ?buy = "total_turnover (on_side BUY fs)" and ?tot = "total_turnover (on_side BUY fs) + total_turnover (on_side SELL fs)"
  from assms(1) obtain b x e st raw t where
    b: "paise (bps ?tot (brokerage_bps s)) = Inr b" and x: "paise (bps ?tot (exchange_and_ipft_bps s)) = Inr x"
    and e: "paise (bps ?tot (sebi_bps s)) = Inr e" and st: "rupee (bps ?buy (stamp_buy_bps s)) = Inr st"
    and raw: "stt_by_security (delivery_rate s) fs = Inr raw"
    and t: "rupee raw = Inr t"
    and l: "close_leg s d ?tot b x e st t (card (set (map scrip_of (on_side SELL fs)))) = Inr l"
    by (auto simp: delivery_leg_def Let_def res_simps)
  note r = schedule_rates [OF assms(2)]
  have sides: "\<forall>f \<in> set (on_side sd fs). fill_ok f" for sd using fs by (simp add: on_side_def)
  have buy: "0 \<le> dval ?buy" and tot: "0 \<le> dval ?tot"
    using total_turnover_nonneg [OF sides] by (simp_all add: plus_nonneg)
  have "0 \<le> dval raw" using raw fs r by (intro stt_nonneg [OF raw]) (auto simp: delivery_rate_def split: prod.split)
  then show ?thesis
    using close_leg_ok [OF l assms(2)] r buy tot
      paise_props [OF b] paise_props [OF x] paise_props [OF e] rupee_props [OF st] rupee_props [OF t]
    by (simp add: bps_nonneg)
qed

section \<open>Amounts stay within the context\<close>

text \<open>\<open>upto n d\<close>: a non-negative amount of at most \<open>n\<close> rupees.\<close>

definition upto :: "nat \<Rightarrow> decimal \<Rightarrow> bool" where
  "upto n d = (0 \<le> dval d \<and> dval d \<le> of_nat n)"

lemma upto_nonneg: "upto n d \<Longrightarrow> 0 \<le> dval d"
  by (simp add: upto_def)

lemma upto_mono: "upto m d \<Longrightarrow> m \<le> n \<Longrightarrow> upto n d"
  by (auto simp: upto_def intro: order_trans)

lemma upto_zero [simp]: "upto n 0"
  by (simp add: upto_def)

lemma upto_plus: "upto m a \<Longrightarrow> upto n b \<Longrightarrow> m + n < 10 ^ 28 \<Longrightarrow> upto (m + n) (a + b)"
  using plus_le [OF repr_of_nat, of "m + n" a b] by (simp add: upto_def plus_nonneg)

lemma upto_times: "upto m a \<Longrightarrow> upto n b \<Longrightarrow> m * n < 10 ^ 28 \<Longrightarrow> upto (m * n) (a * b)"
  using times_le [OF repr_of_nat, of "m * n" a b] mult_mono [of "dval a" "of_nat m" "dval b" "of_nat n"]
  by (simp add: upto_def times_nonneg)

lemma upto_fold_plus:
  "upto k a \<Longrightarrow> \<forall>v \<in> set vs. upto n v \<Longrightarrow> k + length vs * n < 10 ^ 28
    \<Longrightarrow> upto (k + length vs * n) (foldl (+) a vs)"
proof (induction vs arbitrary: k a)
  case (Cons v vs)
  have "upto (k + n) (a + v)" using Cons.prems by (intro upto_plus) simp_all
  then show ?case using Cons.IH [of "k + n" "a + v"] Cons.prems by (simp add: algebra_simps)
qed simp

lemma upto_dsum: "\<forall>v \<in> set vs. upto n v \<Longrightarrow> length vs \<le> k \<Longrightarrow> k * n < 10 ^ 28 \<Longrightarrow> upto (k * n) (dsum vs)"
proof -
  assume a: "\<forall>v \<in> set vs. upto n v" "length vs \<le> k" "k * n < 10 ^ 28"
  then have "length vs * n \<le> k * n" by simp
  then show ?thesis
    using upto_fold_plus [of 0 0 vs n] a upto_mono [of "length vs * n" "dsum vs" "k * n"]
    by (simp add: dsum_def)
qed

lemma upto_bps: "upto n t \<Longrightarrow> upto 10000 r \<Longrightarrow> n < 10 ^ 24 \<Longrightarrow> upto n (bps t r)"
  using upto_times [of n t 10000 r] by (simp add: upto_def dval_bps)

lemma quantize_total:
  assumes v: "upto n v" and n: "n < 10 ^ 25" and e: "e = 0 \<or> e = -2"
  shows "\<exists>p. quantize HalfUp e v = Inr p \<and> dexp p = e \<and> upto (Suc n) p"
proof -
  let ?q = "rescale HalfUp e v"
  have e1: "10 powi e \<le> (1 :: rat)" "10 powi e * 100 \<ge> (1 :: rat)" using e by (auto simp: power_int_def power2_eq_square)
  have q0: "0 \<le> dval ?q" using v by (simp add: upto_def rescale_val_nonneg)
  have "2 * \<bar>dval ?q - dval v\<bar> \<le> 1" using rescale_half_up [of e v] e1(1) by (rule order_trans)
  then have "\<bar>dval ?q - dval v\<bar> \<le> 1" by simp
  then have "dval ?q - dval v \<le> 1" by (rule abs_le_D1)
  then have q: "dval ?q \<le> of_nat (Suc n)" using v unfolding upto_def by simp
  have "of_nat (dcoeff ?q) * 10 powi e = dval ?q" using dval_abs [of ?q] q0 by simp
  then have "of_nat (dcoeff ?q) \<le> of_nat (Suc n) * (100 :: rat)"
    using q e1(2) mult_left_mono [OF e1(2), of "of_nat (dcoeff ?q)"] by (simp add: algebra_simps)
  then have "dcoeff ?q \<le> Suc n * 100" by (metis of_nat_le_iff of_nat_mult of_nat_numeral)
  also have "\<dots> < 10 ^ 28" using n by simp
  finally have "repr ?q" by (simp add: repr_def prec_def)
  then show ?thesis using q q0 by (simp add: quantize_def upto_def)
qed

lemma paise_total: "upto n v \<Longrightarrow> n < 10 ^ 25 \<Longrightarrow> \<exists>p. paise v = Inr p \<and> upto (Suc n) p"
  using quantize_total [of n v "-2"] by (auto simp: paise_def)

lemma paise_bps_total:
  "upto n t \<Longrightarrow> upto 10000 r \<Longrightarrow> n < 10 ^ 24 \<Longrightarrow> \<exists>p. paise (bps t r) = Inr p \<and> upto (Suc n) p"
  by (intro paise_total upto_bps) simp_all

lemma rupee_total: "upto n v \<Longrightarrow> n < 10 ^ 25 \<Longrightarrow> \<exists>p. rupee v = Inr p \<and> upto (Suc n) p"
  using quantize_total [of n v 0] by (auto simp: rupee_def)

text \<open>Fills and rates within the bounds the totality statements assume.\<close>

definition small_fill :: "delivery_fill \<Rightarrow> bool" where
  \<comment> \<open>at most four decimals, a hundred million rupees and shares\<close>
  "small_fill f = (fill_ok f \<and> -4 \<le> dexp (price f) \<and> price f \<le> dec_of_int (10 ^ 8) \<and> quantity f \<le> 10 ^ 8)"

definition small_schedule :: "nse_delivery_cost_schedule \<Rightarrow> bool" where
  \<comment> \<open>no rate above 100 per cent, no fixed charge above a million rupees\<close>
  "small_schedule s = (schedule_ok s
     \<and> list_all (\<lambda>r. r \<le> dec_of_int 10000)
         [brokerage_bps s, stt_buy_bps s, stt_sell_bps s, exchange_and_ipft_bps s, sebi_bps s, stamp_buy_bps s,
          intraday_brokerage_bps s, intraday_stt_sell_bps s, intraday_stamp_buy_bps s]
     \<and> dp_base_per_scrip s \<le> dec_of_int (10 ^ 6) \<and> intraday_brokerage_cap_per_order s \<le> dec_of_int (10 ^ 6))"

lemma small_fill_turnover: "small_fill f \<Longrightarrow> upto (10 ^ 16) (turnover f)"
proof -
  assume f: "small_fill f"
  then have "upto (10 ^ 8) (price f)"
    by (simp add: small_fill_def fill_ok_def upto_def le_iff_dval less_iff_dval)
  moreover have "upto (10 ^ 8) (dec_of_int (quantity f))"
  proof -
    have "(of_int (quantity f) :: rat) \<le> of_int (10 ^ 8)" using f by (simp add: small_fill_def del: of_int_power)
    then show ?thesis using f by (simp add: small_fill_def fill_ok_def upto_def)
  qed
  ultimately show ?thesis using upto_times [of "10 ^ 8" "price f" "10 ^ 8"] by (simp add: turnover_def)
qed

lemma small_rates:
  assumes "small_schedule s"
  shows "upto 10000 (brokerage_bps s)" "upto 10000 (stt_buy_bps s)" "upto 10000 (stt_sell_bps s)"
    "upto 10000 (exchange_and_ipft_bps s)" "upto 10000 (sebi_bps s)" "upto 10000 (stamp_buy_bps s)"
    "upto 10000 (intraday_brokerage_bps s)" "upto 10000 (intraday_stt_sell_bps s)"
    "upto 10000 (intraday_stamp_buy_bps s)" "upto 1 (gst_rate s)" "upto (10 ^ 6) (dp_base_per_scrip s)"
    "upto (10 ^ 6) (intraday_brokerage_cap_per_order s)"
  using assms schedule_rates [of s] by (simp_all add: small_schedule_def upto_def le_iff_dval)

lemma total_turnover_upto:
  "\<forall>f \<in> set fs. small_fill f \<Longrightarrow> length fs \<le> 10 ^ 4 \<Longrightarrow> upto (10 ^ 20) (total_turnover fs)"
  using upto_dsum [of "map turnover fs" "10 ^ 16" "10 ^ 4"] small_fill_turnover
  by (simp add: total_turnover_def)

lemma turnover_by_upto:
  "\<forall>f \<in> set fs. small_fill f \<Longrightarrow> length fs \<le> 10 ^ 4 \<Longrightarrow> upto (10 ^ 20) (turnover_by key fs k)"
  unfolding turnover_by_def by (intro total_turnover_upto) (auto intro: le_trans [OF length_filter_le])

lemma sum_fold_total:
  assumes "\<forall>k \<in> set ks. \<exists>p. f k = Inr p \<and> upto n p" and "upto m a" and "m + length ks * n < 10 ^ 28"
  shows "\<exists>r. foldE (\<lambda>acc k. bindE (f k) (\<lambda>p. Inr (acc + p))) a ks = Inr r \<and> upto (m + length ks * n) r"
  using assms
proof (induction ks arbitrary: m a)
  case (Cons k ks)
  then obtain p where p: "f k = Inr p" "upto n p" by auto
  have "upto (m + n) (a + p)" using Cons.prems p by (intro upto_plus) simp_all
  then show ?case using Cons.IH [of "m + n" "a + p"] Cons.prems p by (simp add: algebra_simps)
qed simp

lemma card_set_map_le: "card (set (map f xs)) \<le> length xs"
  by (metis card_length length_map)

lemma stt_total:
  assumes fs: "\<forall>f \<in> set fs. small_fill f" "length fs \<le> 10 ^ 4" and rate: "\<forall>k. upto 10000 (rate k)"
  shows "\<exists>r. stt_by_security rate fs = Inr r \<and> upto (10 ^ 24 + 10 ^ 4) r"
proof -
  have len: "length (uniq (map security_key fs)) * Suc (10 ^ 20) \<le> 10 ^ 4 * Suc (10 ^ 20)"
    using card_set_map_le [of security_key fs] fs by (intro mult_le_mono) simp_all
  have "\<forall>k \<in> set (uniq (map security_key fs)). \<exists>p. paise (bps (turnover_by security_key fs k) (rate k)) = Inr p
      \<and> upto (Suc (10 ^ 20)) p"
    by (intro ballI paise_bps_total turnover_by_upto fs rate [rule_format]) simp
  from sum_fold_total [OF this upto_zero [of 0]] obtain r where
    r: "stt_by_security rate fs = Inr r" and b: "upto (length (uniq (map security_key fs)) * Suc (10 ^ 20)) r"
    using len by (auto simp: stt_by_security_def)
  have "upto (10 ^ 24 + 10 ^ 4) r" using upto_mono [OF b] len by simp
  with r show ?thesis by blast
qed

lemma close_leg_total:
  assumes s: "small_schedule s" and n: "n \<le> 10 ^ 4"
    and u: "upto (10 ^ 24 + 10 ^ 21) b" "upto (10 ^ 21) x" "upto (10 ^ 21) e" "upto (10 ^ 21) tot"
  shows "\<exists>l. close_leg s d tot b x e st t n = Inr l"
proof -
  have "upto (10 ^ 24 + 3 * 10 ^ 21) (b + x + e)"
    using upto_plus [OF upto_plus [OF u(1,2)] u(3)] by simp
  then obtain g where g: "paise ((b + x + e) * gst_rate s) = Inr g"
    using paise_total [OF upto_times [OF _ small_rates(10) [OF s]]] by fastforce
  have "(of_nat n :: rat) \<le> of_nat (10 ^ 4)" using n by (simp only: of_nat_le_iff)
  then have "upto (10 ^ 4) (dec_of_int (int n))" by (simp add: upto_def)
  then obtain dp where dp: "paise (dp_base_per_scrip s * dec_of_int (int n)) = Inr dp" "upto (10 ^ 10 + 1) dp"
    using paise_total [OF upto_times [OF small_rates(11) [OF s]]] by fastforce
  obtain dpg where dpg: "paise (dp * gst_rate s) = Inr dpg"
    using paise_total [OF upto_times [OF dp(2) small_rates(10) [OF s]]] by fastforce
  obtain tt where "paise tot = Inr tt" using paise_total [OF u(4)] by fastforce
  then show ?thesis using g dp dpg by (simp add: close_leg_def)
qed

lemma on_side_small: "\<forall>f \<in> set fs. P f \<Longrightarrow> \<forall>f \<in> set (on_side sd fs). P f"
  by (simp add: on_side_def)

lemma length_on_side: "length fs \<le> n \<Longrightarrow> length (on_side sd fs) \<le> n"
  unfolding on_side_def by (rule le_trans [OF length_filter_le])

lemma side_turnovers:
  assumes "\<forall>f \<in> set fs. small_fill f" and "length fs \<le> 10 ^ 4"
  shows "upto (10 ^ 20) (total_turnover (on_side sd fs))"
    and "upto (2 * 10 ^ 20) (total_turnover (on_side BUY fs) + total_turnover (on_side SELL fs))"
proof -
  show 1: "upto (10 ^ 20) (total_turnover (on_side sd fs))" for sd
    by (intro total_turnover_upto on_side_small length_on_side assms)
  show "upto (2 * 10 ^ 20) (total_turnover (on_side BUY fs) + total_turnover (on_side SELL fs))"
    using upto_plus [OF 1 1] by simp
qed

lemma card_sold_le: "length fs \<le> n \<Longrightarrow> card (set (map scrip_of (on_side sd fs))) \<le> n"
  by (rule le_trans [OF card_set_map_le length_on_side])

lemma delivery_rate_upto:
  "small_schedule s \<Longrightarrow> upto 10000 (delivery_rate s k)" "small_schedule s \<Longrightarrow> upto 10000 (mixed_rate I s k)"
  by (simp_all add: delivery_rate_def mixed_rate_def small_rates split: prod.split)

lemma delivery_leg_total:
  assumes s: "small_schedule s" and fs: "\<forall>f \<in> set fs. small_fill f" "length fs \<le> 10 ^ 4"
    and one: "\<not> list_ex (two_sided fs) (map scrip_of fs)"
  shows "\<exists>l. delivery_leg s d fs = Inr l"
proof -
  note up = upto_mono [where n = "10 ^ 21"] and up' = upto_mono [where n = "10 ^ 24 + 10 ^ 21"]
  let ?tot = "total_turnover (on_side BUY fs) + total_turnover (on_side SELL fs)"
  note t = side_turnovers [OF fs] and r = small_rates [OF s]
  obtain b where b: "paise (bps ?tot (brokerage_bps s)) = Inr b" "upto (Suc (2 * 10 ^ 20)) b"
    using paise_bps_total [OF t(2) r(1)] by auto
  obtain x where x: "paise (bps ?tot (exchange_and_ipft_bps s)) = Inr x" "upto (Suc (2 * 10 ^ 20)) x"
    using paise_bps_total [OF t(2) r(4)] by auto
  obtain e where e: "paise (bps ?tot (sebi_bps s)) = Inr e" "upto (Suc (2 * 10 ^ 20)) e"
    using paise_bps_total [OF t(2) r(5)] by auto
  obtain st where st: "rupee (bps (total_turnover (on_side BUY fs)) (stamp_buy_bps s)) = Inr st"
    using rupee_total [OF upto_bps [OF t(1) r(6)]] by fastforce
  obtain raw where raw: "stt_by_security (delivery_rate s) fs
      = Inr raw" "upto (10 ^ 24 + 10 ^ 4) raw"
    using stt_total [OF fs, of "delivery_rate s"] delivery_rate_upto [OF s] by blast
  obtain t' where "rupee raw = Inr t'" using rupee_total [OF raw(2)] by fastforce
  moreover have "\<exists>l. close_leg s d ?tot b x e st t' (card (set (map scrip_of (on_side SELL fs)))) = Inr l"
    by (intro close_leg_total s card_sold_le fs up' [OF b(2)] up [OF x(2)] up [OF e(2)] up [OF t(2)]) simp_all
  ultimately show ?thesis using one b x e st raw
    by (auto simp: delivery_leg_def guards.simps Let_def)
qed

section \<open>Sums on the price grid are exact\<close>

text \<open>\<open>grid n d\<close>: a non-negative multiple of a hundredth of a paisa, at most \<open>n\<close> of them.\<close>

definition grid :: "nat \<Rightarrow> decimal \<Rightarrow> bool" where
  "grid n d = (\<exists>k \<le> n. dval d = of_nat k * 10 powi (-4))"

lemma grid_repr: "k < 10 ^ 28 \<Longrightarrow> repr (Dec False k (-4)) \<and> dval (Dec False k (-4)) = of_nat k * 10 powi (-4)"
  by (simp add: repr_def prec_def dval_def dint_def)

lemma grid_plus:
  assumes "grid m a" and "grid n b" and "m + n < 10 ^ 28"
  shows "dval (a + b) = dval a + dval b" and "grid (m + n) (a + b)"
proof -
  from assms obtain i j where i: "i \<le> m" "dval a = of_nat i * 10 powi (-4)" and j: "j \<le> n" "dval b = of_nat j * 10 powi (-4)"
    by (auto simp: grid_def)
  have r: "repr (Dec False (i + j) (-4)) \<and> dval (Dec False (i + j) (-4)) = dval a + dval b"
    using grid_repr [of "i + j"] i j assms by (simp add: algebra_simps)
  show "dval (a + b) = dval a + dval b" using plus_exact [of "Dec False (i + j) (-4)" a b] r by simp
  then show "grid (m + n) (a + b)" using i j by (auto simp: grid_def algebra_simps intro!: exI [of _ "i + j"])
qed

lemma grid_minus:
  assumes "grid m a" and "grid n b" and "m < 10 ^ 28" and "dval b \<le> dval a"
  shows "dval (a - b) = dval a - dval b"
proof -
  from assms obtain i j where i: "i \<le> m" "dval a = of_nat i * 10 powi (-4)" and j: "dval b = of_nat j * 10 powi (-4)"
    by (auto simp: grid_def)
  have le: "j \<le> i" using assms(4) i j by simp
  have "repr (Dec False (i - j) (-4)) \<and> dval (Dec False (i - j) (-4)) = dval a - dval b"
    unfolding i(2) j using grid_repr [of "i - j"] i assms(3)
    by (simp only: of_nat_diff [OF le] left_diff_distrib)
  then show ?thesis using minus_exact [of "Dec False (i - j) (-4)" a b] by simp
qed

lemma grid_zero [simp]: "grid n 0"
  by (auto simp: grid_def intro: exI [of _ 0])

lemma grid_fold:
  "grid k a \<Longrightarrow> \<forall>v \<in> set vs. grid n v \<Longrightarrow> k + length vs * n < 10 ^ 28
    \<Longrightarrow> dval (foldl (+) a vs) = dval a + (\<Sum>v\<leftarrow>vs. dval v) \<and> grid (k + length vs * n) (foldl (+) a vs)"
proof (induction vs arbitrary: k a)
  case (Cons v vs)
  have "grid (k + n) (a + v)" "dval (a + v) = dval a + dval v" using Cons.prems grid_plus [of k a n v] by simp_all
  then show ?case using Cons.IH [of "k + n" "a + v"] Cons.prems by (simp add: algebra_simps)
qed simp

lemma grid_dsum:
  assumes "\<forall>v \<in> set vs. grid n v" and "length vs * n < 10 ^ 28"
  shows "dval (dsum vs) = (\<Sum>v\<leftarrow>vs. dval v)" and "grid (length vs * n) (dsum vs)"
  using grid_fold [of 0 0 vs n] assms by (simp_all add: dsum_def)

definition fill_value :: "delivery_fill \<Rightarrow> rat" where
  \<comment> \<open>the exact consideration\<close>
  "fill_value f = dval (price f) * of_int (quantity f)"

lemma small_fill_grid:
  assumes f: "small_fill f"
  shows "dval (turnover f) = fill_value f" and "grid (10 ^ 20) (turnover f)" and "0 < fill_value f"
proof -
  define k where "k = nat (daligned (-4) (price f))"
  have pos: "0 < dval (price f)" and q: "0 < quantity f" "quantity f \<le> 10 ^ 8"
    using f by (simp_all add: small_fill_def fill_ok_def less_iff_dval)
  have v: "dval (price f) = of_int (daligned (-4) (price f)) * 10 powi (-4)"
    using f by (intro dval_aligned) (simp add: small_fill_def)
  then have d0: "0 < daligned (-4) (price f)" using pos by (simp add: zero_less_mult_iff)
  then have k: "dval (price f) = of_nat k * 10 powi (-4)" using v by (simp add: k_def)
  have "dval (price f) \<le> 10 ^ 8" using f by (simp add: small_fill_def le_iff_dval)
  then have "of_nat k \<le> (of_nat (10 ^ 12) :: rat)" using k by (simp add: power_int_def field_simps)
  then have k12: "k \<le> 10 ^ 12" by (simp only: of_nat_le_iff)
  define m where "m = k * nat (quantity f)"
  have m: "m \<le> 10 ^ 20" using mult_le_mono [OF k12, of "nat (quantity f)" "10 ^ 8"] q by (simp add: m_def)
  have e: "fill_value f = of_nat m * 10 powi (-4)" using k q by (simp add: fill_value_def m_def)
  then show t: "dval (turnover f) = fill_value f"
    using times_exact [of "Dec False m (-4)" "price f" "dec_of_int (quantity f)"] grid_repr [of m] m
    by (simp add: turnover_def fill_value_def)
  then show "grid (10 ^ 20) (turnover f)" using e m by (auto simp: grid_def)
  show "0 < fill_value f" using pos q by (simp add: fill_value_def)
qed

lemma total_turnover_exact:
  assumes "\<forall>f \<in> set fs. small_fill f" and "length fs \<le> n" and n: "n < 10 ^ 8"
  shows "dval (total_turnover fs) = (\<Sum>f\<leftarrow>fs. fill_value f)" and "grid (n * 10 ^ 20) (total_turnover fs)"
proof -
  have len: "length fs * 10 ^ 20 \<le> n * 10 ^ 20" using assms(2) by simp
  note g = grid_dsum [of "map turnover fs" "10 ^ 20"]
  have m: "map (\<lambda>f. dval (turnover f)) fs = map fill_value fs" using assms small_fill_grid by auto
  then show "dval (total_turnover fs) = (\<Sum>f\<leftarrow>fs. fill_value f)"
    using g(1) small_fill_grid(2) assms(1) len n by (simp add: total_turnover_def comp_def m)
  have "grid (length fs * 10 ^ 20) (total_turnover fs)"
    using g(2) small_fill_grid assms(1) len n by (simp add: total_turnover_def)
  then show "grid (n * 10 ^ 20) (total_turnover fs)" using len unfolding grid_def by (meson le_trans)
qed

lemma sum_filter_set:
  "finite K \<Longrightarrow> key ` set xs \<subseteq> K \<Longrightarrow> (\<Sum>k\<in>K. \<Sum>x\<leftarrow>filter (\<lambda>x. key x = k) xs. g x) = (\<Sum>x\<leftarrow>xs. (g x :: rat))"
proof (induction xs)
  case (Cons x xs)
  have "(\<Sum>k\<in>K. \<Sum>x\<leftarrow>filter (\<lambda>x. key x = k) (x # xs). g x)
      = (\<Sum>k\<in>K. (if k = key x then g x else 0) + (\<Sum>x\<leftarrow>filter (\<lambda>x. key x = k) xs. g x))"
    by (intro sum.cong) auto
  also have "\<dots> = g x + (\<Sum>x\<leftarrow>xs. g x)" using Cons by (simp add: sum.distrib)
  finally show ?case by simp
qed simp

lemma sum_by_key: "(\<Sum>k\<leftarrow>uniq (map key xs). \<Sum>x\<leftarrow>filter (\<lambda>x. key x = k) xs. g x) = (\<Sum>x\<leftarrow>xs. (g x :: rat))"
  using sum_filter_set [of "key ` set xs" key xs g] by (simp add: sum_list_distinct_conv_sum_set)

lemma sum_split: "(\<Sum>x\<leftarrow>filter P xs. g x) + (\<Sum>x\<leftarrow>filter (\<lambda>x. \<not> P x) xs. g x) = (\<Sum>x\<leftarrow>xs. (g x :: rat))"
  by (induction xs) auto

lemma sum_nonneg_list: "\<forall>x \<in> set xs. 0 \<le> g x \<Longrightarrow> 0 \<le> (\<Sum>x\<leftarrow>xs. (g x :: rat))"
  by (induction xs) auto

lemma sides_sum: "(\<Sum>f\<leftarrow>on_side BUY fs. g f) + (\<Sum>f\<leftarrow>on_side SELL fs. g f) = (\<Sum>f\<leftarrow>fs. (g f :: rat))"
proof -
  have "(sd = SELL) = (\<not> sd = BUY)" for sd by (cases sd) simp_all
  then have "on_side SELL fs = filter (\<lambda>f. \<not> side f = BUY) fs" by (simp add: on_side_def)
  then show ?thesis using sum_split [of g "\<lambda>f. side f = BUY"] by (simp add: on_side_def)
qed

text \<open>The brokerage base of the mixed routine is exactly the value of the delivery fills.\<close>

lemma delivery_base_value:
  assumes fs: "\<forall>f \<in> set fs. small_fill f" "length fs \<le> 10 ^ 3"
  shows "dval (delivery_base fs) = (\<Sum>f\<leftarrow>filter (\<lambda>f. scrip_of f \<notin> set (intraday_scrips fs)) fs. fill_value f)"
    and "0 \<le> dval (delivery_base fs)"
proof -
  let ?I = "intraday_fills fs" and ?ks = "uniq (map order_key (intraday_fills fs))"
  let ?rest = "filter (\<lambda>f. scrip_of f \<notin> set (intraday_scrips fs)) fs"
  have I: "\<forall>f \<in> set ?I. small_fill f" "length ?I \<le> 10 ^ 3"
    using fs by (auto simp: intraday_fills_def intro: le_trans [OF length_filter_le])
  have t: "dval (turnover_by order_key ?I k) = (\<Sum>f\<leftarrow>filter (\<lambda>f. order_key f = k) ?I. fill_value f)
      \<and> grid (10 ^ 3 * 10 ^ 20) (turnover_by order_key ?I k)" for k
    unfolding turnover_by_def using I
    by (intro conjI total_turnover_exact [where n = "10 ^ 3"]) (auto intro: le_trans [OF length_filter_le])
  have "length ?ks \<le> 10 ^ 3" using card_set_map_le [of order_key ?I] I by simp
  then have len: "length ?ks * (10 ^ 3 * 10 ^ 20) < 10 ^ 28" by simp
  have g: "\<forall>v \<in> set (map (turnover_by order_key ?I) ?ks). grid (10 ^ 3 * 10 ^ 20) v"
    using t by auto
  note o = grid_dsum [OF g, unfolded length_map, OF len]
  have "dval (dsum (map (turnover_by order_key ?I) ?ks)) = (\<Sum>f\<leftarrow>?I. fill_value f)"
    unfolding o(1) using t by (simp add: comp_def sum_by_key)
  moreover have sides: "\<forall>f \<in> set (on_side sd fs). small_fill f" "length (on_side sd fs) \<le> 10 ^ 3" for sd
    by (rule on_side_small [OF fs(1)]) (rule length_on_side [OF fs(2)])
  note s = total_turnover_exact [OF sides, simplified]
  have tot: "dval (total_turnover (on_side BUY fs) + total_turnover (on_side SELL fs)) = (\<Sum>f\<leftarrow>fs. fill_value f)"
    "grid (2 * (1000 * 10 ^ 20)) (total_turnover (on_side BUY fs) + total_turnover (on_side SELL fs))"
    using grid_plus [OF s(2) [of BUY] s(2) [of SELL]] by (simp_all add: s(1) sides_sum)
  have split: "(\<Sum>f\<leftarrow>?I. fill_value f) + (\<Sum>f\<leftarrow>?rest. fill_value f) = (\<Sum>f\<leftarrow>fs. fill_value f)"
    using sum_split [of fill_value "\<lambda>f. scrip_of f \<in> set (intraday_scrips fs)" fs] by (simp add: intraday_fills_def)
  have rest: "0 \<le> (\<Sum>f\<leftarrow>?rest. fill_value f)" using fs small_fill_grid(3) by (intro sum_nonneg_list) (auto intro: less_imp_le)
  show 1: "dval (delivery_base fs) = (\<Sum>f\<leftarrow>?rest. fill_value f)"
    unfolding delivery_base_def
    using grid_minus [OF tot(2) o(2)] tot(1) calculation split rest by simp
  show "0 \<le> dval (delivery_base fs)" using 1 rest by simp
qed

lemma delivery_buy_value:
  assumes fs: "\<forall>f \<in> set fs. small_fill f" "length fs \<le> 10 ^ 3"
  shows "upto (10 ^ 20) (total_turnover (on_side BUY fs) - total_turnover (on_side BUY (intraday_fills fs)))"
proof -
  let ?b = "on_side BUY fs" and ?i = "on_side BUY (intraday_fills fs)"
  have b: "\<forall>f \<in> set ?b. small_fill f" "length ?b \<le> 10 ^ 3"
    by (rule on_side_small [OF fs(1)]) (rule length_on_side [OF fs(2)])
  have i: "?i = filter (\<lambda>f. scrip_of f \<in> set (intraday_scrips fs)) ?b"
    by (simp add: on_side_def intraday_fills_def conj_commute)
  then have I: "\<forall>f \<in> set ?i. small_fill f" "length ?i \<le> 10 ^ 3"
    using b by (auto intro: le_trans [OF length_filter_le])
  note vb = total_turnover_exact [OF b] and vi = total_turnover_exact [OF I]
  have le: "0 \<le> (\<Sum>f\<leftarrow>filter (\<lambda>f. scrip_of f \<notin> set (intraday_scrips fs)) ?b. fill_value f)"
    using b small_fill_grid(3) by (intro sum_nonneg_list) (auto intro: less_imp_le)
  have sp: "(\<Sum>f\<leftarrow>?i. fill_value f) \<le> (\<Sum>f\<leftarrow>?b. fill_value f)"
    using sum_split [of fill_value "\<lambda>f. scrip_of f \<in> set (intraday_scrips fs)" ?b] le unfolding i by linarith
  have "dval (total_turnover ?b - total_turnover ?i) = (\<Sum>f\<leftarrow>?b. fill_value f) - (\<Sum>f\<leftarrow>?i. fill_value f)"
    using grid_minus [OF vb(2) vi(2)] vb(1) vi(1) sp by simp
  moreover have "0 \<le> (\<Sum>f\<leftarrow>?i. fill_value f)"
    using I small_fill_grid(3) by (intro sum_nonneg_list) (auto intro: less_imp_le)
  moreover have "(\<Sum>f\<leftarrow>?b. fill_value f) \<le> of_nat (10 ^ 20)"
    using total_turnover_upto [OF b(1)] b(2) vb(1) by (simp add: upto_def)
  ultimately show ?thesis using sp unfolding upto_def by linarith
qed

lemma order_brokerage_total:
  assumes s: "small_schedule s" and fs: "\<forall>f \<in> set fs. small_fill f" "length fs \<le> 10 ^ 3"
  shows "\<exists>ob. order_brokerage s fs = Inr ob \<and> upto (10 ^ 9) ob"
proof -
  let ?f = "\<lambda>k. bindE (paise (bps (turnover_by order_key fs k) (intraday_brokerage_bps s)))
       (\<lambda>p. Inr (py_min (intraday_brokerage_cap_per_order s) p))"
  let ?ks = "uniq (map order_key fs)"
  have eq: "order_brokerage s fs = foldE (\<lambda>acc k. bindE (?f k) (\<lambda>p. Inr (acc + p))) 0 ?ks"
    unfolding order_brokerage_def by (simp add: bindE_def sum.case_distrib [of "case_sum _ _"] cong: sum.case_cong)
  have "\<forall>k \<in> set ?ks. \<exists>p. ?f k = Inr p \<and> upto (10 ^ 6) p"
  proof
    fix k
    have "upto (10 ^ 20) (turnover_by order_key fs k)" using fs by (intro turnover_by_upto) simp_all
    then obtain p where "paise (bps (turnover_by order_key fs k) (intraday_brokerage_bps s)) = Inr p" "0 \<le> dval p"
      using paise_bps_total small_rates(7) [OF s] by (fastforce simp: upto_def)
    then show "\<exists>p. ?f k = Inr p \<and> upto (10 ^ 6) p"
      using small_rates(12) [OF s] by (auto simp: upto_def dval_py_min)
  qed
  moreover have len: "length ?ks * 10 ^ 6 \<le> 10 ^ 3 * 10 ^ 6" using card_set_map_le [of order_key fs] fs by simp
  ultimately obtain ob where "order_brokerage s fs = Inr ob" "upto (length ?ks * 10 ^ 6) ob"
    using sum_fold_total [of ?ks ?f "10 ^ 6" 0 0] unfolding eq by fastforce
  then show ?thesis using upto_mono [of _ ob "10 ^ 9"] len by (intro exI [of _ ob]) simp
qed

lemma equity_leg_total:
  assumes s: "small_schedule s" and fs: "\<forall>f \<in> set fs. small_fill f" "length fs \<le> 10 ^ 3"
    and bal: "\<forall>k \<in> set (intraday_scrips fs). side_quantity fs k BUY = side_quantity fs k SELL"
  shows "\<exists>l. equity_leg s d fs = Inr l \<and> leg_ok l \<and> leg_date l = d"
proof -
  let ?I = "intraday_fills fs"
  let ?tot = "total_turnover (on_side BUY fs) + total_turnover (on_side SELL fs)"
  let ?db = "total_turnover (on_side BUY fs) - total_turnover (on_side BUY ?I)"
  let ?ib = "total_turnover (on_side BUY ?I)"
  let ?sold = "card (set (map scrip_of (filter (\<lambda>f. scrip_of f \<notin> set (intraday_scrips fs)) (on_side SELL fs))))"
  have fs4: "length fs \<le> 10 ^ 4" using fs(2) by simp
  have I: "\<forall>f \<in> set ?I. small_fill f" "length ?I \<le> 10 ^ 3"
    using fs by (auto simp: intraday_fills_def intro: le_trans [OF length_filter_le])
  note t = side_turnovers [OF fs(1) fs4] and r = small_rates [OF s]
  have ib: "upto (10 ^ 20) ?ib"
    by (rule total_turnover_upto) (use on_side_small [OF I(1)] length_on_side [OF I(2), of BUY] in simp_all)
  obtain ob where ob: "order_brokerage s ?I = Inr ob" "upto (10 ^ 9) ob"
    using order_brokerage_total [OF s I] by blast
  have "dval (delivery_base fs) \<le> of_nat (2 * 10 ^ 20)"
  proof -
    let ?R = "filter (\<lambda>f. scrip_of f \<notin> set (intraday_scrips fs)) fs"
    have R: "\<forall>f \<in> set ?R. small_fill f" "length ?R \<le> 10 ^ 3"
      using fs by (auto intro: le_trans [OF length_filter_le])
    have "upto (10 ^ 20) (total_turnover ?R)" by (rule total_turnover_upto) (use R in simp_all)
    then show ?thesis using total_turnover_exact(1) [OF R] delivery_base_value(1) [OF fs] by (simp add: upto_def)
  qed
  then have base: "upto (2 * 10 ^ 20) (delivery_base fs)" using delivery_base_value(2) [OF fs] by (simp add: upto_def)
  have "upto (10 ^ 9 + 2 * 10 ^ 20) (ob + bps (delivery_base fs) (brokerage_bps s))"
    by (intro upto_plus ob upto_bps base r) simp_all
  then obtain b where b: "paise (ob + bps (delivery_base fs) (brokerage_bps s)) = Inr b" "upto (Suc (10 ^ 9 + 2 * 10 ^ 20)) b"
    using paise_total by fastforce
  obtain x where x: "paise (bps ?tot (exchange_and_ipft_bps s)) = Inr x" "upto (Suc (2 * 10 ^ 20)) x"
    using paise_bps_total [OF t(2) r(4)] by auto
  obtain e where e: "paise (bps ?tot (sebi_bps s)) = Inr e" "upto (Suc (2 * 10 ^ 20)) e"
    using paise_bps_total [OF t(2) r(5)] by auto
  have "upto (10 ^ 20 + 10 ^ 20) (bps ?db (stamp_buy_bps s) + bps ?ib (intraday_stamp_buy_bps s))"
    by (intro upto_plus upto_bps delivery_buy_value [OF fs] ib r) simp_all
  then obtain st where st: "rupee (bps ?db (stamp_buy_bps s) + bps ?ib (intraday_stamp_buy_bps s)) = Inr st" "0 \<le> dval st"
    using rupee_total [of "10 ^ 20 + 10 ^ 20"] by (fastforce simp: upto_def)
  obtain raw where raw: "stt_by_security (mixed_rate (set (intraday_scrips fs)) s) fs = Inr raw" "upto (10 ^ 24 + 10 ^ 4) raw"
    using stt_total [OF fs(1) fs4, of "mixed_rate (set (intraday_scrips fs)) s"] delivery_rate_upto(2) [OF s] by blast
  obtain t' where t': "rupee raw = Inr t'" "0 \<le> dval t'" using rupee_total [OF raw(2)] by (fastforce simp: upto_def)
  have sold: "?sold \<le> 10 ^ 4"
    by (rule le_trans [OF card_set_map_le le_trans [OF length_filter_le length_on_side [OF fs4]]])
  obtain l where l: "close_leg s d ?tot b x e st t' ?sold = Inr l"
    using close_leg_total [OF s sold upto_mono [OF b(2)] upto_mono [OF x(2)] upto_mono [OF e(2)] upto_mono [OF t(2)]]
    by fastforce
  have "leg_ok l \<and> leg_date l = d"
    by (rule close_leg_ok [OF l]) (use s b(2) x(2) e(2) t(2) st t' paise_props(1) [OF b(1)] paise_props(1) [OF x(1)]
      paise_props(1) [OF e(1)] rupee_props(1) [OF st(1)] rupee_props(1) [OF t'(1)] in \<open>simp_all add: upto_def small_schedule_def\<close>)
  moreover have "equity_leg s d fs = Inr l"
    using bal l ob b x e st raw t' by (auto simp: equity_leg_def Let_def list_ex_iff guards.simps)
  ultimately show ?thesis by blast
qed

section \<open>The two routines\<close>

definition priced_ok :: "delivery_fill list \<Rightarrow> delivery_charge_breakdown \<Rightarrow> bool" where
  \<comment> \<open>one leg per trading day in order, amounts well formed, a non-negative total\<close>
  "priced_ok fs b = (map leg_date (legs b) = fill_dates fs \<and> list_all leg_ok (legs b) \<and> 0 \<le> breakdown_total b)"

definition priceable :: "delivery_fill list \<Rightarrow> nse_delivery_cost_schedule \<Rightarrow> bool" where
  \<comment> \<open>the checks before the loop pass, and the amounts are within the bounds\<close>
  "priceable fs s = (fs \<noteq> [] \<and> verify_schedule s = Inr () \<and> distinct (map fill_id fs)
     \<and> list_all (\<lambda>f. applies_on s (trade_date f) \<and> small_fill f) fs \<and> length fs \<le> 10 ^ 3 \<and> small_schedule s)"

lemma fill_dates_props: "strictly_sorted (fill_dates fs)" "set (fill_dates fs) = trade_date ` set fs"
  by (simp_all add: fill_dates_def)

lemma fill_dates_Nil: "fill_dates fs = [] \<longleftrightarrow> fs = []"
  using fill_dates_props(2) [of fs] by (metis image_is_empty set_empty)

lemma leg_total_nonneg: "leg_ok l \<Longrightarrow> 0 \<le> dval (leg_total l)"
  by (simp add: leg_ok_def leg_total_def dp_total_def le_iff_dval plus_nonneg)

lemma card_map: "distinct (map f xs) \<Longrightarrow> card (f ` set xs) = length xs"
  by (metis distinct_card length_map set_map)

lemma mk_breakdown_legs:
  assumes "length sid = 64" and "map leg_date ls = fill_dates fs" and "fs \<noteq> []" and "list_all leg_ok ls"
  shows "\<exists>b. mk_breakdown sid ls = Inr b \<and> priced_ok fs b"
proof -
  have "sorted (map leg_date ls)" "distinct (map leg_date ls)"
    using fill_dates_props(1) [of fs] assms(2) by (simp_all add: strict_sorted_iff)
  then have "sort_key leg_date ls = ls" "card (set (map leg_date ls)) = length ls"
    by (simp_all add: sort_key_id_if_sorted card_map)
  moreover have "ls \<noteq> []" using assms fill_dates_Nil by force
  moreover have "0 \<le> dval (dsum (map leg_total ls))"
    using assms(4) by (intro dsum_nonneg) (auto simp: list_all_iff leg_total_nonneg)
  ultimately show ?thesis
    using assms by (simp add: mk_breakdown_def priced_ok_def breakdown_total_def le_iff_dval)
qed

lemma charges_with_outcome:
  assumes p: "priceable fs s"
    and leg: "\<And>d. d \<in> set (fill_dates fs) \<Longrightarrow> leg s d (fills_on d fs) =
      (if bad (fills_on d fs) then Inl e else leg s d (fills_on d fs))"
    and good: "\<And>d. d \<in> set (fill_dates fs) \<Longrightarrow> \<not> bad (fills_on d fs) \<Longrightarrow>
      \<exists>l. leg s d (fills_on d fs) = Inr l \<and> leg_ok l \<and> leg_date l = d"
  shows "if \<exists>d \<in> set (fill_dates fs). bad (fills_on d fs) then charges_with leg fs s = Inl e
    else \<exists>b. charges_with leg fs s = Inr b \<and> priced_ok fs b"
proof -
  have id: "length (schedule_id s) = 64"
    using p by (auto simp: priceable_def verify_schedule_def schedule_calculated_id_def)
  have pre: "charges_with leg fs s = bindE (mapE (\<lambda>d. leg s d (fills_on d fs)) (fill_dates fs)) (\<lambda>ls. mk_breakdown (schedule_id s) ls)"
    using p by (auto simp: charges_with_def priceable_def guards.simps card_map list_all_iff)
  show ?thesis
  proof (cases "\<exists>d \<in> set (fill_dates fs). bad (fills_on d fs)")
    case True
    then have "mapE (\<lambda>d. leg s d (fills_on d fs)) (fill_dates fs) = Inl e"
      by (intro mapE_raises) (use leg good in \<open>metis (full_types)\<close>)+
    then show ?thesis using True pre by simp
  next
    case False
    then obtain ls where ls: "mapE (\<lambda>d. leg s d (fills_on d fs)) (fill_dates fs) = Inr ls"
      "list_all2 (\<lambda>d l. leg_ok l \<and> leg_date l = d) (fill_dates fs) ls"
      using mapE_returns [of "fill_dates fs" "\<lambda>d. leg s d (fills_on d fs)" "\<lambda>d l. leg_ok l \<and> leg_date l = d"] good
      by blast
    have "map leg_date ls = fill_dates fs" "list_all leg_ok ls"
      using ls(2) by (induction rule: list_all2_induct) simp_all
    then show ?thesis using False pre ls mk_breakdown_legs [OF id] p by (auto simp: priceable_def)
  qed
qed

lemma fills_on_small:
  "priceable fs s \<Longrightarrow> (\<forall>f \<in> set (fills_on d fs). small_fill f) \<and> length (fills_on d fs) \<le> 10 ^ 3"
  by (auto simp: priceable_def fills_on_def list_all_iff intro: le_trans [OF length_filter_le])







lemma repr_bps [simp]: "repr (bps t r)"
  by (simp add: bps_def)




section \<open>Properties\<close>

definition ambiguous_day :: "delivery_fill list \<Rightarrow> bool" where
  "ambiguous_day fs = list_ex (two_sided fs) (map scrip_of fs)"

definition unbalanced_day :: "delivery_fill list \<Rightarrow> bool" where
  "unbalanced_day fs = list_ex (\<lambda>k. side_quantity fs k BUY \<noteq> side_quantity fs k SELL) (intraday_scrips fs)"

text \<open>On fills within the bounds that pass the checks before the loop (\<open>priceable\<close>), the delivery tariff prices
  them all, one well-formed leg per trading day with a non-negative total, unless some day has buys and sells of one scrip:
  then, and only then, it raises the ambiguity error.\<close>

theorem delivery_charges_outcome:
  assumes "priceable fs s"
  shows "if \<exists>d \<in> set (fill_dates fs). ambiguous_day (fills_on d fs)
    then calculate_delivery_charges fs s = Inl (CostScheduleError
      ''same-day buys and sells of one scrip are ambiguous under a delivery tariff'')
    else \<exists>b. calculate_delivery_charges fs s = Inr b \<and> priced_ok fs b"
  unfolding calculate_delivery_charges_def
proof (rule charges_with_outcome [OF assms])
  fix d assume good: "\<not> ambiguous_day (fills_on d fs)"
  have s: "small_schedule s" using assms by (simp add: priceable_def)
  note f = fills_on_small [OF assms, of d]
  have "length (fills_on d fs) \<le> 10 ^ 4" using f by simp
  then obtain l where l: "delivery_leg s d (fills_on d fs) = Inr l"
    using delivery_leg_total [OF s] f good unfolding ambiguous_day_def by blast
  moreover have "\<forall>f \<in> set (fills_on d fs). fill_ok f" using f by (simp add: small_fill_def)
  ultimately show "\<exists>l. delivery_leg s d (fills_on d fs) = Inr l \<and> leg_ok l \<and> leg_date l = d"
    using delivery_leg_ok [OF l] s by (simp add: small_schedule_def)
qed (simp add: delivery_leg_def ambiguous_day_def)

lemma equity_leg_good:
  assumes "small_schedule s" and "(\<forall>f \<in> set (fills_on d fs). small_fill f) \<and> length (fills_on d fs) \<le> 10 ^ 3"
    and "\<not> unbalanced_day (fills_on d fs)"
  shows "\<exists>l. equity_leg s d (fills_on d fs) = Inr l \<and> leg_ok l \<and> leg_date l = d"
  using equity_leg_total [OF assms(1)] assms(2,3) by (simp add: unbalanced_day_def list_ex_iff)

lemma not_in_force: "\<not> applies_on s d \<longleftrightarrow> d < effective_from s \<or> (\<exists>e. effective_to s = Some e \<and> e < d)"
  by (auto simp: applies_on_def not_le split: option.splits)

lemma charges_with_checks:
  "fs = [] \<Longrightarrow> charges_with leg fs s = Inl (ValueError ''fills must be a non-empty tuple'')"
  "fs \<noteq> [] \<Longrightarrow> schedule_id s \<noteq> schedule_calculated_id s
     \<Longrightarrow> charges_with leg fs s = Inl (CostScheduleError ''cost schedule content identity failed'')"
  "fs \<noteq> [] \<Longrightarrow> schedule_id s = schedule_calculated_id s \<Longrightarrow> \<not> distinct (map fill_id fs)
     \<Longrightarrow> charges_with leg fs s = Inl (CostScheduleError ''duplicate fills are not allowed'')"
  "fs \<noteq> [] \<Longrightarrow> schedule_id s = schedule_calculated_id s \<Longrightarrow> distinct (map fill_id fs)
     \<Longrightarrow> \<exists>f \<in> set fs. \<not> applies_on s (trade_date f)
     \<Longrightarrow> charges_with leg fs s = Inl (CostScheduleError ''schedule does not apply'')"
  using card_distinct [of "map fill_id fs"]
  by (auto simp: charges_with_def verify_schedule_def guards.simps list_all_iff card_map)

text \<open>C18: On fills and a tariff as their constructors make them, of prices, quantities, rates and number within the
  size bounds, the mixed tariff ends in one of six ways, decided in the code's order.  No fills at all are a
  \<open>ValueError\<close>; a tariff whose identity does not verify, two fills of one identity, and a fill dated outside the
  tariff's effective dates each raise their own \<open>CostScheduleError\<close>; else, if on some day a scrip was both bought and
  sold, in different quantities, the allocation error; and in every other case all fills are priced, one well-formed
  leg per trading day in order with a non-negative total.\<close>

theorem equity_charges_outcome:
  assumes "\<forall>f \<in> set fs. small_fill f" and "length fs \<le> 10 ^ 3" and "small_schedule s"
  shows "if fs = [] then calculate_equity_cash_charges fs s = Inl (ValueError ''fills must be a non-empty tuple'')
    else if schedule_id s \<noteq> schedule_calculated_id s
    then calculate_equity_cash_charges fs s = Inl (CostScheduleError ''cost schedule content identity failed'')
    else if \<not> distinct (map fill_id fs)
    then calculate_equity_cash_charges fs s = Inl (CostScheduleError ''duplicate fills are not allowed'')
    else if \<exists>f \<in> set fs. trade_date f < effective_from s \<or> (\<exists>d. effective_to s = Some d \<and> d < trade_date f)
    then calculate_equity_cash_charges fs s = Inl (CostScheduleError ''schedule does not apply'')
    else if \<exists>d \<in> set (fill_dates fs). unbalanced_day (fills_on d fs)
    then calculate_equity_cash_charges fs s = Inl (CostScheduleError
      ''partially netted same-day positions require explicit allocation evidence'')
    else \<exists>b. calculate_equity_cash_charges fs s = Inr b \<and> priced_ok fs b"
proof -
  note out = not_in_force [symmetric]
  show ?thesis
  proof (cases "fs \<noteq> [] \<and> schedule_id s = schedule_calculated_id s \<and> distinct (map fill_id fs)
      \<and> (\<forall>f \<in> set fs. applies_on s (trade_date f))")
    case True
    then have p: "priceable fs s" using assms by (simp add: priceable_def list_all_iff verify_schedule_def)
    have "if \<exists>d \<in> set (fill_dates fs). unbalanced_day (fills_on d fs)
      then calculate_equity_cash_charges fs s = Inl (CostScheduleError
        ''partially netted same-day positions require explicit allocation evidence'')
      else \<exists>b. calculate_equity_cash_charges fs s = Inr b \<and> priced_ok fs b"
      unfolding calculate_equity_cash_charges_def
    proof (rule charges_with_outcome [OF p])
      fix d assume "\<not> unbalanced_day (fills_on d fs)"
      then show "\<exists>l. equity_leg s d (fills_on d fs) = Inr l \<and> leg_ok l \<and> leg_date l = d"
        by (rule equity_leg_good [OF assms(3) fills_on_small [OF p]])
    qed (simp add: equity_leg_def unbalanced_day_def)
    then show ?thesis using True by (simp add: out)
  next
    case False
    then show ?thesis
      using charges_with_checks [where fs = fs and leg = equity_leg and s = s] by (auto simp: out calculate_equity_cash_charges_def)
  qed
qed


lemma order_brokerage_cap:
  assumes "foldE (\<lambda>acc k. bindE (paise (bps (val k) r)) (\<lambda>p. Inr (acc + py_min cap p))) a ks = Inr ob"
    and "dval cap \<le> of_nat n" and "dval a \<le> of_nat m" and "m + length ks * n < 10 ^ 28"
  shows "dval ob \<le> of_nat (m + length ks * n)"
  using assms
proof (induction ks arbitrary: a m)
  case (Cons k ks)
  then obtain p where p: "foldE (\<lambda>acc k. bindE (paise (bps (val k) r)) (\<lambda>p. Inr (acc + py_min cap p)))
      (a + py_min cap p) ks = Inr ob"
    by (auto simp: res_simps)
  have "dval (a + py_min cap p) \<le> of_nat (m + n)"
    using plus_le [OF repr_of_nat, of "m + n" a "py_min cap p"] Cons.prems by (simp add: dval_py_min)
  then show ?case using Cons.IH [OF p, of "m + n"] Cons.prems by (simp add: algebra_simps)
qed simp

lemma foldE_repr:
  "foldE (\<lambda>acc k. bindE (f k) (\<lambda>p. Inr (acc + g p))) a ks = Inr r \<Longrightarrow> repr a \<Longrightarrow> repr r"
  by (induction ks arbitrary: a) (auto simp: res_simps)

lemma times_zero_value: "dval a = 0 \<Longrightarrow> dval (a * b) = 0" "dval b = 0 \<Longrightarrow> dval (a * b) = 0"
  using times_exact [of 0 a b] by simp_all

lemma paise_zero: "paise v = Inr p \<Longrightarrow> dval v = 0 \<Longrightarrow> dval p = 0"
proof -
  assume p: "paise v = Inr p" "dval v = 0"
  then have "paise v = quantize HalfUp (-2) v" "dcoeff v = 0"
    by (simp_all add: paise_def dval_zero_iff dzero_def)
  then show "dval p = 0" using p by (auto simp: quantize_def Let_def rescale_def dval_def dint_def split: if_splits)
qed

lemma zero_charge:
  assumes "paise (a * dec_of_int 0) = Inr dp" and "paise (dp * r) = Inr dpg"
  shows "dval (dp + dpg) = 0"
proof -
  have "dval dp = 0" using paise_zero [OF assms(1)] by (simp add: times_zero_value)
  moreover then have "dval dpg = 0" using paise_zero [OF assms(2)] by (simp add: times_zero_value)
  ultimately show ?thesis using plus_exact [of 0 dp dpg] by simp
qed

text \<open>C27: A day on which every fill nets intraday pays no depository charge, and its brokerage
  is at most the per-order cap for each order (plus half a paisa of rounding).\<close>

theorem intraday_day_charges:
  assumes leg: "equity_leg s d fs = Inr l" and all: "\<forall>f \<in> set fs. two_sided fs (scrip_of f)"
    and small: "\<forall>f \<in> set fs. small_fill f" "length fs \<le> 10 ^ 3" "small_schedule s"
    and cap: "dval (intraday_brokerage_cap_per_order s) \<le> of_nat n" "n \<le> 10 ^ 6"
  shows "dval (dp_total l) = 0 \<and>
    2 * dval (brokerage l) \<le> of_nat (2 * card (order_key ` set fs) * n) + 10 powi (-2)"
proof -
  have scrips: "set (intraday_scrips fs) = scrip_of ` set fs" using all by (auto simp: intraday_scrips_def)
  then have I: "intraday_fills fs = fs" by (auto simp: intraday_fills_def intro: filter_True)
  have sold: "filter (\<lambda>f. scrip_of f \<notin> set (intraday_scrips fs)) (on_side SELL fs) = []"
    by (auto simp: scrips filter_empty_conv on_side_def)
  have "dval (delivery_base fs) = 0" using delivery_base_value(1) [OF small(1,2)] by (simp add: scrips)
  then have base: "dval (bps (delivery_base fs) r) = 0" for r
    using times_exact [of 0 "delivery_base fs" r] by (simp add: dval_bps)
  obtain ob b x e st raw t where ob: "order_brokerage s fs = Inr ob"
    and b: "paise (ob + bps (delivery_base fs) (brokerage_bps s)) = Inr b"
    and l: "close_leg s d (total_turnover (on_side BUY fs) + total_turnover (on_side SELL fs)) b x e st t 0 = Inr l"
    using leg by (auto simp: equity_leg_def Let_def res_simps I sold)
  have card: "length (uniq (map order_key fs)) = card (order_key ` set fs)" by simp
  have "card (order_key ` set fs) * n \<le> 10 ^ 3 * 10 ^ 6"
    using card_set_map_le [of order_key fs] small(2) cap(2) by (intro mult_le_mono) simp_all
  then have "dval ob \<le> of_nat (card (order_key ` set fs) * n)"
    using order_brokerage_cap [OF ob [unfolded order_brokerage_def] cap(1), of 0] by (simp add: card)
  moreover have "dval (ob + bps (delivery_base fs) (brokerage_bps s)) = dval ob"
  proof (rule plus_exact)
    show "repr ob" using ob unfolding order_brokerage_def
      by (rule foldE_repr) simp
  qed (simp add: base)
  ultimately have "2 * dval b \<le> of_nat (2 * card (order_key ` set fs) * n) + 10 powi (-2)"
    using paise_props(2) [OF b] abs_ge_self [of "dval b - dval ob"] by (simp add: algebra_simps)
  moreover have "brokerage l = b \<and> dval (dp_total l) = 0" using l
    by (auto simp: close_leg_def res_simps dp_total_def zero_charge)
  ultimately show ?thesis by simp
qed

section \<open>Identity of the tariff and of fills\<close>

interpretation schedule_identity: content_addressed schedule_material
  "[''schema'', ''effective_from'', ''effective_to'', ''dp_tariff'', ''brokerage_bps'', ''stt_buy_bps'',
    ''stt_sell_bps'', ''exchange_and_ipft_bps'', ''sebi_bps'', ''stamp_buy_bps'', ''gst_rate'',
    ''dp_base_per_scrip'', ''intraday_brokerage_bps'', ''intraday_brokerage_cap_per_order'',
    ''intraday_stt_sell_bps'', ''intraday_stamp_buy_bps'', ''source_urls'', ''policy_version'']"
proof
  show "list_all (\<lambda>k. \<not> is_sensitive_attribute k) [''schema'', ''effective_from'', ''effective_to'', ''dp_tariff'',
    ''brokerage_bps'', ''stt_buy_bps'', ''stt_sell_bps'', ''exchange_and_ipft_bps'', ''sebi_bps'', ''stamp_buy_bps'',
    ''gst_rate'', ''dp_base_per_scrip'', ''intraday_brokerage_bps'', ''intraday_brokerage_cap_per_order'',
    ''intraday_stt_sell_bps'', ''intraday_stamp_buy_bps'', ''source_urls'', ''policy_version'']"
    by code_simp
qed (simp_all add: schedule_material_def)

interpretation fill_identity: content_addressed fill_material
  "[''schema'', ''trade_date'', ''symbol'', ''isin'', ''side'', ''quantity'', ''price'', ''order_id'']"
proof
  show "list_all (\<lambda>k. \<not> is_sensitive_attribute k)
    [''schema'', ''trade_date'', ''symbol'', ''isin'', ''side'', ''quantity'', ''price'', ''order_id'']"
    by code_simp
qed (simp_all add: fill_material_def)

lemma verify_schedule_iff: "verify_schedule s = Inr () \<longleftrightarrow> schedule_id s = schedule_calculated_id s"
  by (simp add: verify_schedule_def)

text \<open>Two tariffs that both pass \<open>verify_content_identity\<close> under one \<open>schedule_id\<close> agree on
  every canonical field, unless their two identity texts are themselves a SHA-256 collision.\<close>

theorem schedule_identity_binds:
  assumes "verify_schedule s = Inr ()" and "verify_schedule s' = Inr ()" and "schedule_id s = schedule_id s'"
  shows "map (canon \<circ> snd) (schedule_material s) = map (canon \<circ> snd) (schedule_material s')
    \<or> collision_of (schedule_material s) (schedule_material s')"
  using assms schedule_identity.sealed_same_fields [of schedule_id s s']
  by (simp add: verify_schedule_iff schedule_calculated_id_def)

section \<open>Witnesses\<close>

lemma rate_card_valid: "schedule_ok (rate_card_2026 t)"
  unfolding schedule_ok_def rate_card_2026_def schedule_guards_def
  by (cases t) (simp_all add: nonneg_guard_def less_iff_dval dval_Dec starts_with_def)

lemma rate_card_small: "small_schedule (rate_card_2026 t)"
  using rate_card_valid [of t] unfolding small_schedule_def
  by (cases t) (simp_all add: rate_card_2026_def le_iff_dval dval_Dec)

definition demo_schedule :: nse_delivery_cost_schedule where
  "demo_schedule = (let s = rate_card_2026 RESIDENT_RETAIL_STANDARD in
     s\<lparr>schedule_id := schedule_calculated_id s\<rparr>)"

definition demo_fill :: "date \<Rightarrow> fill_side \<Rightarrow> int \<Rightarrow> string \<Rightarrow> delivery_fill" where
  "demo_fill d sd q i = \<lparr>trade_date = d, symbol = ''TCS'', isin = ''INE467B01029'', side = sd, quantity = q,
     price = Dec False 350050 (-2), order_id = i, fill_id = i\<rparr>"

lemma demo_schedule_made: "zerodha_nse_delivery_schedule_2026 RESIDENT_RETAIL_STANDARD = Inr demo_schedule"
  using rate_card_valid
  by (simp add: zerodha_nse_delivery_schedule_2026_def mk_schedule_def guards_Inr_iff schedule_ok_def
      list_all_iff demo_schedule_def Let_def)

lemma demo_schedule_ok: "small_schedule demo_schedule" "verify_schedule demo_schedule = Inr ()"
  using rate_card_small [of RESIDENT_RETAIL_STANDARD]
  by (simp_all add: demo_schedule_def Let_def small_schedule_def schedule_ok_def verify_schedule_def)

lemma demo_schedule_fields:
    "effective_from demo_schedule = Date 2026 3 1" "effective_to demo_schedule = None"
    "\<not> dneg (brokerage_bps demo_schedule)" "\<not> dneg (stamp_buy_bps demo_schedule)"
    "\<not> dneg (intraday_stamp_buy_bps demo_schedule)" "dval (intraday_brokerage_cap_per_order demo_schedule) = 20"
  by (simp_all add: demo_schedule_def Let_def rate_card_2026_def dval_Dec)

lemma demo_fill_small: "0 < q \<Longrightarrow> q \<le> 10 ^ 8 \<Longrightarrow> small_fill (demo_fill d sd q i)"
  by (simp add: demo_fill_def small_fill_def fill_ok_def le_iff_dval less_iff_dval dval_Dec)

lemma demo_fill_fields [simp]: "trade_date (demo_fill d sd q i) = d" "side (demo_fill d sd q i) = sd"
    "quantity (demo_fill d sd q i) = q" "fill_id (demo_fill d sd q i) = i"
    "scrip_of (demo_fill d sd q i) = (''TCS'', ''INE467B01029'')"
  by (simp_all add: demo_fill_def scrip_of_def)

definition swing_fills :: "delivery_fill list" where
  "swing_fills = [demo_fill (Date 2026 3 2) BUY 100 ''buy'', demo_fill (Date 2026 3 9) SELL 100 ''sell'']"

definition day_fills :: "delivery_fill list" where
  "day_fills = [demo_fill (Date 2026 3 2) BUY 100 ''buy'', demo_fill (Date 2026 3 2) SELL 100 ''sell'']"

lemma demo_priceable: "priceable swing_fills demo_schedule" "priceable day_fills demo_schedule"
  by (simp_all add: priceable_def swing_fills_def day_fills_def demo_schedule_ok demo_schedule_fields demo_fill_small applies_on_def)

lemma demo_days:
  "fill_dates swing_fills = [Date 2026 3 2, Date 2026 3 9]" "fill_dates day_fills = [Date 2026 3 2]"
  "fills_on (Date 2026 3 2) swing_fills = [demo_fill (Date 2026 3 2) BUY 100 ''buy'']"
  "fills_on (Date 2026 3 9) swing_fills = [demo_fill (Date 2026 3 9) SELL 100 ''sell'']"
  "fills_on (Date 2026 3 2) day_fills = day_fills"
  by (simp_all add: fill_dates_def swing_fills_def day_fills_def fills_on_def insort_insert_key_def)

lemma demo_two_sided: "ambiguous_day day_fills" "intraday_scrips day_fills = [(''TCS'', ''INE467B01029'')]"
  "\<not> unbalanced_day day_fills"
  by (simp_all add: ambiguous_day_def two_sided_def day_fills_def intraday_scrips_def unbalanced_day_def
      side_quantity_def)

theorem delivery_charges_outcome_witness:
  "(\<exists>b. calculate_delivery_charges swing_fills demo_schedule = Inr b \<and> priced_ok swing_fills b)
   \<and> calculate_delivery_charges day_fills demo_schedule = Inl (CostScheduleError
      ''same-day buys and sells of one scrip are ambiguous under a delivery tariff'')"
  using delivery_charges_outcome [OF demo_priceable(1)] delivery_charges_outcome [OF demo_priceable(2)]
  by (simp add: demo_days demo_two_sided) (simp add: ambiguous_day_def two_sided_def)

theorem equity_charges_outcome_witness:
  "(\<exists>b. calculate_equity_cash_charges day_fills demo_schedule = Inr b \<and> priced_ok day_fills b)
   \<and> calculate_equity_cash_charges (day_fills @ day_fills) demo_schedule
      = Inl (CostScheduleError ''duplicate fills are not allowed'')
   \<and> calculate_equity_cash_charges [demo_fill (Date 2026 2 27) BUY 100 ''early''] demo_schedule
      = Inl (CostScheduleError ''schedule does not apply'')"
proof -
  have small: "\<forall>f \<in> set day_fills. small_fill f" "small_fill (demo_fill (Date 2026 2 27) BUY 100 ''early'')"
    by (simp_all add: day_fills_def demo_fill_small)
  have len: "length day_fills = 2" "day_fills \<noteq> []" by (simp_all add: day_fills_def)
  have id: "schedule_id demo_schedule = schedule_calculated_id demo_schedule"
    using demo_schedule_ok(2) by (simp add: verify_schedule_iff)
  have dates: "distinct (map fill_id day_fills)" "\<forall>f \<in> set day_fills. trade_date f = Date 2026 3 2"
    by (simp_all add: day_fills_def)
  have "\<exists>b. calculate_equity_cash_charges day_fills demo_schedule = Inr b \<and> priced_ok day_fills b"
    using equity_charges_outcome [OF small(1) _ demo_schedule_ok(1)] len id dates
    by (simp add: demo_schedule_fields demo_days demo_two_sided)
  moreover have "calculate_equity_cash_charges (day_fills @ day_fills) demo_schedule
      = Inl (CostScheduleError ''duplicate fills are not allowed'')"
    using equity_charges_outcome [OF _ _ demo_schedule_ok(1), of "day_fills @ day_fills"] small(1) len id by (simp add: ball_Un)
  moreover have "calculate_equity_cash_charges [demo_fill (Date 2026 2 27) BUY 100 ''early''] demo_schedule
      = Inl (CostScheduleError ''schedule does not apply'')"
    using equity_charges_outcome [OF _ _ demo_schedule_ok(1), of "[demo_fill (Date 2026 2 27) BUY 100 ''early'']"] small(2) id
    by (simp add: demo_schedule_fields)
  ultimately show ?thesis by blast
qed


theorem intraday_day_charges_witness:
  "\<exists>l. equity_leg demo_schedule (Date 2026 3 2) day_fills = Inr l \<and> dval (dp_total l) = 0
    \<and> 2 * dval (brokerage l) \<le> 80 + 10 powi (-2)"
proof -
  have small: "\<forall>f \<in> set day_fills. small_fill f" "length day_fills \<le> 10 ^ 3"
    by (simp_all add: day_fills_def demo_fill_small)
  obtain l where l: "equity_leg demo_schedule (Date 2026 3 2) day_fills = Inr l"
    using equity_leg_total [OF demo_schedule_ok(1) small] demo_two_sided(3)
    by (auto simp: unbalanced_day_def list_ex_iff)
  have "card (order_key ` set day_fills) = 2"
    by (simp add: day_fills_def order_key_def demo_fill_def)
  then show ?thesis
    using intraday_day_charges [OF l _ small demo_schedule_ok(1), of 20] l demo_schedule_fields(6) demo_two_sided(1)
    by (auto simp: ambiguous_day_def list_ex_iff day_fills_def)
qed

theorem schedule_identity_binds_witness:
  "map (canon \<circ> snd) (schedule_material demo_schedule) = map (canon \<circ> snd) (schedule_material demo_schedule)
    \<or> collision_of (schedule_material demo_schedule) (schedule_material demo_schedule)"
  using schedule_identity_binds [OF demo_schedule_ok(2) demo_schedule_ok(2)] by simp

end
