(* ===== verification/Simulator.thy ===== *)
theory Simulator
  imports Costs Ticks
begin

text \<open>
  The daily execution simulator (\<open>execution/simulator.py\<close>).

  A bar is one session of daily prices.  \<open>simulate_limit_entry\<close> fills a buy limit on a later
  session than the signal, \<open>simulate_protective_exit\<close> resolves stop and target on a bar whose
  intraday order is unknown, \<open>simulate_time_exit\<close> liquidates at the close.  Each returns a fill,
  no fill, or raises.  Slippage always moves the price against the order and is rounded to the
  tick in the adverse direction.

  The lemmas relate the rounded decimal prices to the exact ones: a price that is a whole
  number of ticks is never improved by slippage.
\<close>

section \<open>Ticks and slippage\<close>

definition on_tick :: "decimal \<Rightarrow> decimal \<Rightarrow> bool res" where
  "on_tick v tick = bindE (dmod v tick) (\<lambda>r. Inr (deq r 0))"

fun all_on_tick :: "decimal list \<Rightarrow> decimal \<Rightarrow> bool res" where
  \<comment> \<open>\<open>not any(not _on_tick(v, tick) for v in values)\<close>, left to right\<close>
  "all_on_tick [] tick = Inr True"
| "all_on_tick (v # vs) tick = bindE (on_tick v tick) (\<lambda>ok. if ok then all_on_tick vs tick else Inr False)"

definition adverse_buy :: "decimal \<Rightarrow> decimal \<Rightarrow> decimal \<Rightarrow> decimal" where
  \<comment> \<open>the callers have checked that the tick is positive\<close>
  "adverse_buy v slip tick =
     (let raw = v * (1 + dquot slip TEN_THOUSAND)
      in tick_ceiling raw tick)"

definition adverse_sell :: "decimal \<Rightarrow> decimal \<Rightarrow> decimal \<Rightarrow> decimal" where
  "adverse_sell v slip tick =
     (let raw = v * (1 - dquot slip TEN_THOUSAND)
      in tick_floor raw tick)"

definition price_guard :: "decimal \<Rightarrow> string \<Rightarrow> bool \<times> py_exc" where
  "price_guard v name = (v \<le> 0, ValueError (name @ '' must be finite and positive''))"

definition symbol_guard :: "string \<Rightarrow> bool \<times> py_exc" where
  "symbol_guard s = (\<not> normalized_upper s, ValueError ''symbol must be normalized uppercase text'')"

definition participation_guard :: "decimal \<Rightarrow> bool \<times> py_exc" where
  "participation_guard p = (\<not> (0 < p \<and> p \<le> 1), ValueError ''maximum_participation must be in (0, 1]'')"

section \<open>Bars and orders\<close>

record simulation_bar =
  bar_session :: date
  bar_symbol :: string
  bar_open :: decimal
  bar_high :: decimal
  bar_low :: decimal
  bar_close :: decimal
  bar_volume :: int
  tradable :: bool
  lower_circuit_sell_locked :: bool
  bar_id :: string

definition bar_material :: "simulation_bar \<Rightarrow> (string \<times> pyval) list" where
  "bar_material b =
     [(''schema'', PStr ''daily-execution-simulation-bar/v1''),
      (''session'', PDate (bar_session b)),
      (''symbol'', PStr (bar_symbol b)),
      (''open'', PDecimal (bar_open b)),
      (''high'', PDecimal (bar_high b)),
      (''low'', PDecimal (bar_low b)),
      (''close'', PDecimal (bar_close b)),
      (''volume'', PInt (bar_volume b)),
      (''tradable'', PBool (tradable b)),
      (''lower_circuit_sell_locked'', PBool (lower_circuit_sell_locked b))]"

definition bar_guards :: "simulation_bar \<Rightarrow> (bool \<times> py_exc) list" where
  "bar_guards b =
     [symbol_guard (bar_symbol b),
      price_guard (bar_open b) ''open'',
      price_guard (bar_high b) ''high'',
      price_guard (bar_low b) ''low'',
      price_guard (bar_close b) ''close'',
      (bar_high b < py_max (py_max (bar_open b) (bar_low b)) (bar_close b),
         ValueError ''high is inconsistent with OHLC prices''),
      (py_min (py_min (bar_open b) (bar_high b)) (bar_close b) < bar_low b,
         ValueError ''low is inconsistent with OHLC prices''),
      (bar_volume b < 0, ValueError ''volume must be a non-negative integer''),
      (tradable b \<and> bar_volume b = 0, ValueError ''a tradable bar must have positive volume''),
      (lower_circuit_sell_locked b \<and> \<not> tradable b,
         ValueError ''a circuit-locked bar still needs an exchange trading session'')]"

definition mk_simulation_bar :: "simulation_bar \<Rightarrow> simulation_bar res" where
  "mk_simulation_bar b = guards (bar_guards b) (Inr (b\<lparr>bar_id := fields_id (bar_material b)\<rparr>))"

record limit_entry_order =
  entry_symbol :: string
  signal_session :: date
  first_eligible_session :: date
  expiry_session :: date
  entry_quantity :: int
  limit_price :: decimal
  entry_tick :: decimal
  entry_participation :: decimal
  entry_order_id :: string

definition entry_material :: "limit_entry_order \<Rightarrow> (string \<times> pyval) list" where
  "entry_material e =
     [(''schema'', PStr ''daily-limit-entry-order/v1''),
      (''symbol'', PStr (entry_symbol e)),
      (''signal_session'', PDate (signal_session e)),
      (''first_eligible_session'', PDate (first_eligible_session e)),
      (''expiry_session'', PDate (expiry_session e)),
      (''quantity'', PInt (entry_quantity e)),
      (''limit_price'', PDecimal (limit_price e)),
      (''tick_size'', PDecimal (entry_tick e)),
      (''maximum_participation'', PDecimal (entry_participation e))]"

definition entry_guards :: "limit_entry_order \<Rightarrow> (bool \<times> py_exc) list" where
  "entry_guards e =
     [symbol_guard (entry_symbol e),
      (first_eligible_session e \<le> signal_session e,
         ValueError ''entry must start strictly after the signal session''),
      (expiry_session e < first_eligible_session e,
         ValueError ''expiry cannot precede the first eligible session''),
      (entry_quantity e \<le> 0, ValueError ''quantity must be positive''),
      price_guard (limit_price e) ''limit_price'',
      price_guard (entry_tick e) ''tick_size'']"

definition mk_limit_entry_order :: "limit_entry_order \<Rightarrow> limit_entry_order res" where
  "mk_limit_entry_order e = guards (entry_guards e)
     (bindE (on_tick (limit_price e) (entry_tick e)) (\<lambda>ok. guards
       [(\<not> ok, ValueError ''limit_price must be an exact tick multiple''),
        participation_guard (entry_participation e)]
       (Inr (e\<lparr>entry_order_id := fields_id (entry_material e)\<rparr>))))"

record protective_exit_order =
  exit_symbol :: string
  exit_quantity :: int
  entry_session :: date
  entry_price :: decimal
  stop_price :: decimal
  target_price :: decimal
  exit_tick :: decimal
  exit_participation :: decimal

definition exit_guards :: "protective_exit_order \<Rightarrow> (bool \<times> py_exc) list" where
  "exit_guards p =
     [symbol_guard (exit_symbol p),
      (exit_quantity p \<le> 0, ValueError ''quantity must be positive''),
      price_guard (entry_price p) ''entry_price'',
      price_guard (stop_price p) ''stop_price'',
      price_guard (target_price p) ''target_price'',
      price_guard (exit_tick p) ''tick_size'',
      (\<not> (stop_price p < entry_price p \<and> entry_price p < target_price p),
         ValueError ''protective prices must satisfy stop < entry < target'')]"

definition mk_protective_exit_order :: "protective_exit_order \<Rightarrow> protective_exit_order res" where
  "mk_protective_exit_order p = guards (exit_guards p)
     (bindE (all_on_tick [entry_price p, stop_price p, target_price p] (exit_tick p)) (\<lambda>ok. guards
       [(\<not> ok, ValueError ''entry, stop, and target must be exact tick multiples''),
        participation_guard (exit_participation p)]
       (Inr p)))"

section \<open>Fills\<close>

datatype exit_reason = STOP | TARGET | TIME

fun exit_reason_val :: "exit_reason \<Rightarrow> pyval" where
  "exit_reason_val STOP = PEnum ''india_swing.execution.simulator.ExitReason'' (PStr ''STOP'')"
| "exit_reason_val TARGET = PEnum ''india_swing.execution.simulator.ExitReason'' (PStr ''TARGET'')"
| "exit_reason_val TIME = PEnum ''india_swing.execution.simulator.ExitReason'' (PStr ''TIME'')"

record simulated_fill =
  fill_order_id :: string
  fill_bar_id :: string
  fill_session :: date
  fill_symbol :: string
  fill_side_of :: fill_side
  fill_quantity :: int
  trigger_price :: decimal
  fill_price :: decimal
  slippage_bps :: decimal
  fill_exit_reason :: "exit_reason option"
  simulated_fill_id :: string

definition simulated_fill_material :: "simulated_fill \<Rightarrow> (string \<times> pyval) list" where
  "simulated_fill_material f =
     [(''schema'', PStr ''daily-simulated-fill/v1''),
      (''order_id'', PStr (fill_order_id f)),
      (''bar_id'', PStr (fill_bar_id f)),
      (''session'', PDate (fill_session f)),
      (''symbol'', PStr (fill_symbol f)),
      (''side'', side_val (fill_side_of f)),
      (''quantity'', PInt (fill_quantity f)),
      (''trigger_price'', PDecimal (trigger_price f)),
      (''fill_price'', PDecimal (fill_price f)),
      (''slippage_bps'', PDecimal (slippage_bps f)),
      (''exit_reason'', popt exit_reason_val (fill_exit_reason f))]"

definition mk_simulated_fill :: "simulated_fill \<Rightarrow> simulated_fill res" where
  "mk_simulated_fill f = guards
     [(length (fill_order_id f) \<noteq> 64, ValueError ''order_id must be a full content ID''),
      (length (fill_bar_id f) \<noteq> 64, ValueError ''bar_id must be a full content ID''),
      price_guard (trigger_price f) ''trigger_price'',
      price_guard (fill_price f) ''fill_price'',
      (slippage_bps f < 0, ValueError ''slippage_bps must be a non-negative Decimal'')]
     (Inr (f\<lparr>simulated_fill_id := fields_id (simulated_fill_material f)\<rparr>))"

section \<open>The three simulations\<close>

definition within_participation :: "int \<Rightarrow> simulation_bar \<Rightarrow> decimal \<Rightarrow> bool" where
  "within_participation q b share = (q \<le> dec_int (dec_of_int (bar_volume b) * share))"

definition simulate_limit_entry ::
  "limit_entry_order \<Rightarrow> simulation_bar \<Rightarrow> decimal \<Rightarrow> simulated_fill option res" where
  "simulate_limit_entry e b slip = guards
     [(slip < 0, ValueError ''slippage_bps must be a finite non-negative Decimal''),
      (entry_symbol e \<noteq> bar_symbol b, ValueError ''order and bar symbols differ'')]
     (if \<not> (first_eligible_session e \<le> bar_session b \<and> bar_session b \<le> expiry_session e) then Inr None
      else if \<not> tradable b \<or> \<not> within_participation (entry_quantity e) b (entry_participation e) then Inr None
      else
        let trigger = (if bar_open b \<le> limit_price e then Some (bar_open b)
          else if bar_low b \<le> limit_price e then Some (limit_price e) else None) in
        case trigger of None \<Rightarrow> Inr None
        | Some t \<Rightarrow> bindE (mk_simulated_fill
            \<lparr>fill_order_id = entry_order_id e, fill_bar_id = bar_id b, fill_session = bar_session b,
             fill_symbol = bar_symbol b, fill_side_of = BUY, fill_quantity = entry_quantity e,
             trigger_price = t, fill_price = py_min (limit_price e) (adverse_buy t slip (entry_tick e)),
             slippage_bps = slip, fill_exit_reason = None, simulated_fill_id = []\<rparr>) (\<lambda>f. Inr (Some f)))"

definition exit_material :: "string \<Rightarrow> protective_exit_order \<Rightarrow> (string \<times> pyval) list" where
  "exit_material schema p =
     [(''schema'', PStr schema),
      (''symbol'', PStr (exit_symbol p)),
      (''quantity'', PInt (exit_quantity p)),
      (''entry_session'', PDate (entry_session p)),
      (''entry_price'', PDecimal (entry_price p)),
      (''stop_price'', PDecimal (stop_price p)),
      (''target_price'', PDecimal (target_price p)),
      (''tick_size'', PDecimal (exit_tick p)),
      (''maximum_participation'', PDecimal (exit_participation p))]"

definition exit_fill ::
  "string \<Rightarrow> protective_exit_order \<Rightarrow> simulation_bar \<Rightarrow> decimal \<Rightarrow> decimal \<Rightarrow> decimal \<Rightarrow> exit_reason
    \<Rightarrow> simulated_fill option res" where
  \<comment> \<open>the \<open>SimulatedFill\<close> both exits return\<close>
  "exit_fill oid p b t v slip reason = bindE (mk_simulated_fill
     \<lparr>fill_order_id = oid, fill_bar_id = bar_id b, fill_session = bar_session b,
      fill_symbol = bar_symbol b, fill_side_of = SELL, fill_quantity = exit_quantity p,
      trigger_price = t, fill_price = v, slippage_bps = slip,
      fill_exit_reason = Some reason, simulated_fill_id = []\<rparr>) (\<lambda>f. Inr (Some f))"

definition stop_trigger :: "protective_exit_order \<Rightarrow> simulation_bar \<Rightarrow> decimal" where
  "stop_trigger p b = (if bar_session b = entry_session p then stop_price p
     else if bar_open b \<le> stop_price p then bar_open b else stop_price p)"

definition target_trigger :: "protective_exit_order \<Rightarrow> simulation_bar \<Rightarrow> decimal" where
  "target_trigger p b = (if target_price p \<le> bar_open b then bar_open b else target_price p)"

definition simulate_protective_exit ::
  "protective_exit_order \<Rightarrow> simulation_bar \<Rightarrow> decimal \<Rightarrow> simulated_fill option res" where
  "simulate_protective_exit p b slip = guards
     [(slip < 0, ValueError ''slippage_bps must be a finite non-negative Decimal''),
      (exit_symbol p \<noteq> bar_symbol b, ValueError ''order and bar symbols differ'')]
     (let oid = fields_id (exit_material ''daily-protective-exit-order/v1'' p) in
      if bar_session b < entry_session p then Inr None
      else if \<not> tradable b \<or> \<not> within_participation (exit_quantity p) b (exit_participation p) then Inr None
      else if bar_low b \<le> stop_price p then
        (if lower_circuit_sell_locked b then Inr None
         else exit_fill oid p b (stop_trigger p b) (adverse_sell (stop_trigger p b) slip (exit_tick p)) slip STOP)
      else if target_price p \<le> bar_high b then
        (if bar_session b = entry_session p then Inr None
         else exit_fill oid p b (target_trigger p b)
           (py_max (target_price p) (adverse_sell (target_trigger p b) slip (exit_tick p))) slip TARGET)
      else Inr None)"

definition simulate_time_exit ::
  "protective_exit_order \<Rightarrow> simulation_bar \<Rightarrow> decimal \<Rightarrow> simulated_fill option res" where
  "simulate_time_exit p b slip = guards
     [(slip < 0, ValueError ''slippage_bps must be a finite non-negative Decimal''),
      (exit_symbol p \<noteq> bar_symbol b, ValueError ''order and bar symbols differ'')]
     (if bar_session b < entry_session p then Inr None
      else if \<not> tradable b \<or> lower_circuit_sell_locked b
        \<or> \<not> within_participation (exit_quantity p) b (exit_participation p) then Inr None
      else exit_fill (fields_id (exit_material ''daily-time-exit-order/v1'' p
          @ [(''exit_session'', PDate (bar_session b))])) p b (bar_close b)
        (adverse_sell (bar_close b) slip (exit_tick p)) slip TIME)"

section \<open>Slippage against whole ticks\<close>

lemma dec_fix_zero: "dval (dec_fix d) = 0 \<Longrightarrow> dval d = 0"
  using dec_fix_err [of d] by (simp add: prec_def)

lemma on_tick_ticks:
  assumes "on_tick v tick = Inr True" and "0 < v" and "0 < tick" and "repr v"
  shows "ticks v tick"
proof -
  define e where "e = min (dexp v) (dexp tick)"
  define x y where "x = nat \<bar>daligned e v\<bar>" and "y = nat \<bar>daligned e tick\<bar>"
  have pos: "0 < dval v" "0 < dval tick" using assms by (simp_all add: less_iff_dval)
  have v: "dval v = of_int (daligned e v) * 10 powi e" "dval tick = of_int (daligned e tick) * 10 powi e"
    by (intro dval_aligned, simp add: e_def)+
  have d: "0 < daligned e v" "0 < daligned e tick"
    using zero_less_mult_pos2 [OF pos(1) [unfolded v(1)] powi10_pos]
      zero_less_mult_pos2 [OF pos(2) [unfolded v(2)] powi10_pos] by simp_all
  have m: "x div y < 10 ^ prec" "deq (dec_fix (Dec (dneg v) (x mod y) e)) 0"
    using assms(1) unfolding x_def y_def e_def
    by (simp_all add: on_tick_def dmod_def Let_def split: if_splits)
  then have "x mod y = 0"
    using dec_fix_zero [of "Dec (dneg v) (x mod y) e"] by (auto simp: deq_iff_dval dval_Dec split: if_splits)
  then have x: "x = x div y * y" by auto
  have "0 < x" using d by (simp add: x_def)
  then have "0 < x div y" using x by (metis bot_nat_0.not_eq_extremum mult_is_0)
  moreover have "dval v = of_nat x * 10 powi e" "dval tick = of_nat y * 10 powi e"
    using v d by (simp_all add: x_def y_def)
  then have "dval v = of_nat (x div y) * dval tick" using x by (metis (no_types) mult.assoc of_nat_mult)
  ultimately show ?thesis using assms(4) m(1) by (auto simp: ticks_def prec_def)
qed

lemma slip_factor:
  assumes "0 \<le> slip"
  shows "1 \<le> dval (1 + dquot slip TEN_THOUSAND)" and "dval (1 - dquot slip TEN_THOUSAND) \<le> 1"
proof -
  have "0 \<le> dval (dquot slip TEN_THOUSAND)" using assms by (intro dquot_nonneg) (simp_all add: le_iff_dval)
  then show "1 \<le> dval (1 + dquot slip TEN_THOUSAND)" "dval (1 - dquot slip TEN_THOUSAND) \<le> 1"
    using plus_ge [of 1 1 "dquot slip TEN_THOUSAND"] minus_le [of 1 1 "dquot slip TEN_THOUSAND"] by simp_all
qed

lemma adverse_buy_ge:
  assumes p: "ticks p tick" and tick: "0 < tick" and slip: "0 \<le> slip"
  shows "dval p \<le> dval (adverse_buy p slip tick)"
proof -
  have "dval p \<le> dval (p * (1 + dquot slip TEN_THOUSAND))"
    by (rule times_ge) (use p mult_left_mono [OF slip_factor(1) [OF slip]] ticks_pos [OF p tick]
      in \<open>simp_all add: ticks_def\<close>)
  then show ?thesis unfolding adverse_buy_def Let_def by (rule tick_ceiling_ge [OF p tick])
qed

lemma adverse_sell_le:
  assumes p: "ticks p tick" and tick: "0 < tick" and slip: "0 \<le> slip"
  shows "dval (adverse_sell p slip tick) \<le> dval p"
proof -
  have "dval (p * (1 - dquot slip TEN_THOUSAND)) \<le> dval p"
    by (rule times_le) (use p mult_left_mono [OF slip_factor(2) [OF slip]] ticks_pos [OF p tick]
      in \<open>simp_all add: ticks_def\<close>)
  then show ?thesis unfolding adverse_sell_def Let_def by (rule tick_floor_le [OF p tick])
qed

text \<open>The same for a price off the tick, when price and tick are whole numbers of a common decimal unit.\<close>

definition priced_in :: "decimal \<Rightarrow> decimal \<Rightarrow> bool" where
  \<comment> \<open>a whole number of ticks, or a number of units of which the tick is a whole number too, of up to 27 digits\<close>
  "priced_in v tick = (ticks v tick \<or> (repr v \<and> (\<exists>e N D. dval v = of_nat N * 10 powi e
     \<and> dval tick = of_nat D * 10 powi e \<and> N + D \<le> 10 ^ 27)))"

lemma adverse_sell_below:
  assumes p: "priced_in v tick" and tick: "0 < tick" and slip: "0 \<le> slip" and v: "0 < v"
  shows "dval (adverse_sell v slip tick) \<le> dval v"
proof (cases "ticks v tick")
  case False
  then obtain e N D where u: "repr v" "dval v = of_nat N * 10 powi e" "dval tick = of_nat D * 10 powi e" "N + D \<le> 10 ^ 27"
    using p by (auto simp: priced_in_def)
  have "0 < D" using u(3) tick by (cases D) (simp_all add: less_iff_dval)
  have "dval (v * (1 - dquot slip TEN_THOUSAND)) \<le> dval v"
    by (rule times_le [OF u(1)]) (use mult_left_mono [OF slip_factor(2) [OF slip], of "dval v"] v in \<open>simp add: less_iff_dval\<close>)
  then have "dval (v * (1 - dquot slip TEN_THOUSAND)) \<le> of_nat N * 10 powi e" using u(2) by simp
  from tick_floor_below [OF this u(3) \<open>0 < D\<close> u(4)] show ?thesis by (simp add: adverse_sell_def Let_def u(2))
qed (rule adverse_sell_le [OF _ tick slip])

text \<open>Without slippage a whole number of ticks is its own adverse price.\<close>

lemma adverse_sell_no_slip:
  assumes p: "ticks p tick" and tick: "0 < tick" and slip: "dval slip = 0"
  shows "dval (adverse_sell p slip tick) = dval p"
proof -
  have "dval (dquot slip TEN_THOUSAND) = 0" using dquot_exact [of TEN_THOUSAND 0 slip] slip by simp
  then have "dval (1 - dquot slip TEN_THOUSAND) = 1" using minus_exact [of 1 1] by simp
  then have "dval (p * (1 - dquot slip TEN_THOUSAND)) = dval p"
    using p by (intro times_exact) (simp_all add: ticks_def)
  then show ?thesis unfolding adverse_sell_def Let_def by (rule tick_floor_exact [OF p tick])
qed

text \<open>A buy never computes to a price of zero, so an entry that touches its limit is booked.\<close>

lemma adverse_buy_pos:
  assumes p: "0 < v" "repr v" and tick: "0 < tick" "repr tick" and slip: "0 \<le> slip"
  shows "0 < dval (adverse_buy v slip tick)"
proof -
  let ?raw = "v * (1 + dquot slip TEN_THOUSAND)"
  have t: "0 < dval tick" "\<not> dzero tick" using tick dval_zero_iff [of tick] by (auto simp: less_iff_dval)
  have v0: "0 < dval v" using p by (simp add: less_iff_dval)
  then have "dval v \<le> dval ?raw"
    by (intro times_ge [OF p(2)]) (use mult_left_mono [OF slip_factor(1) [OF slip], of "dval v"] in simp)
  then have raw: "0 < dval ?raw" using v0 by linarith
  have "0 < dval (dquot ?raw tick)" using dquot_pos [OF t(2) t(1) raw] .
  then have "1 \<le> dval (to_integral Ceiling (dquot ?raw tick))"
    by (rule ceiling_pos)
  then have "dval tick \<le> dval (to_integral Ceiling (dquot ?raw tick)) * dval tick" using t by simp
  then have "dval tick \<le> dval (adverse_buy v slip tick)"
    unfolding adverse_buy_def tick_ceiling_def Let_def by (rule times_ge [OF tick(2)])
  then show ?thesis using t by linarith
qed

section \<open>Validated arguments\<close>

lemma validated_entry:
  assumes "mk_limit_entry_order e0 = Inr e"
  shows "signal_session e < first_eligible_session e" "first_eligible_session e \<le> expiry_session e"
    "0 < entry_quantity e" "0 < limit_price e" "0 < entry_tick e"
    "on_tick (limit_price e) (entry_tick e) = Inr True"
    "0 < entry_participation e" "entry_participation e \<le> 1" "length (entry_order_id e) = 64"
  using assms
  by (auto simp: mk_limit_entry_order_def guards_Inr_iff entry_guards_def price_guard_def res_simps
      participation_guard_def on_tick_def le_iff_dval less_iff_dval)

lemma validated_bar:
  assumes "mk_simulation_bar b0 = Inr b"
  shows "0 < bar_open b" "0 < bar_low b" "0 < bar_close b" "bar_low b \<le> bar_open b" "bar_open b \<le> bar_high b"
    "bar_low b \<le> bar_close b" "bar_close b \<le> bar_high b" "0 \<le> bar_volume b" "length (bar_id b) = 64"
  using assms
  by (auto simp: mk_simulation_bar_def guards_Inr_iff bar_guards_def price_guard_def le_iff_dval
      less_iff_dval dval_py_max dval_py_min)

lemma validated_exit:
  assumes "mk_protective_exit_order p0 = Inr p"
  shows "0 < exit_quantity p" "0 < stop_price p" "stop_price p < entry_price p" "entry_price p < target_price p"
    "0 < exit_tick p" "on_tick (stop_price p) (exit_tick p) = Inr True"
    "on_tick (target_price p) (exit_tick p) = Inr True" "0 < exit_participation p" "exit_participation p \<le> 1"
  using assms
  by (auto simp: mk_protective_exit_order_def guards_Inr_iff exit_guards_def price_guard_def res_simps
      participation_guard_def le_iff_dval less_iff_dval split: if_splits)

lemma within_participation_volume:
  assumes "within_participation q b share" and "0 \<le> bar_volume b" and "0 < share"
  shows "of_int q \<le> dval (dec_of_int (bar_volume b) * share)"
proof -
  have "0 \<le> dval (dec_of_int (bar_volume b) * share)"
    using assms by (intro times_nonneg) (simp_all add: less_iff_dval)
  then have "of_int (dec_int (dec_of_int (bar_volume b) * share)) \<le> dval (dec_of_int (bar_volume b) * share)"
    using dec_int_value by blast
  moreover have "(of_int q :: rat) \<le> of_int (dec_int (dec_of_int (bar_volume b) * share))"
    using assms(1) by (simp add: within_participation_def)
  ultimately show ?thesis by (rule order_trans [rotated])
qed

lemma stop_target_ticks:
  assumes "mk_protective_exit_order p0 = Inr p" and "repr (stop_price p)" and "repr (target_price p)"
  shows "ticks (stop_price p) (exit_tick p)" and "ticks (target_price p) (exit_tick p)"
proof -
  note v = validated_exit [OF assms(1)]
  have t: "0 < target_price p" using v(2,3,4) by (simp add: less_iff_dval)
  show "ticks (stop_price p) (exit_tick p)" by (rule on_tick_ticks [OF v(6) v(2) v(5) assms(2)])
  show "ticks (target_price p) (exit_tick p)" by (rule on_tick_ticks [OF v(7) t v(5) assms(3)])
qed

lemma exit_fill_fields:
  assumes "exit_fill oid p b t v slip reason = Inr (Some f)"
  shows "fill_session f = bar_session b" "fill_side_of f = SELL" "fill_quantity f = exit_quantity p"
    "trigger_price f = t" "fill_price f = v" "fill_exit_reason f = Some reason" "0 < v"
  using assms
  by (auto simp: exit_fill_def res_simps mk_simulated_fill_def guards_Inr_iff price_guard_def
      le_iff_dval less_iff_dval)

section \<open>Properties\<close>

text \<open>A limit entry on validated arguments never raises, and fills exactly when the session is
  in the order's window (strictly after the signal), the bar is tradable with enough volume and
  its low touched the limit.\<close>

theorem limit_entry_fills_iff:
  assumes e: "mk_limit_entry_order e0 = Inr e" and b: "mk_simulation_bar b0 = Inr b"
    and r: "repr (limit_price e)" "repr (bar_open b)" "repr (entry_tick e)"
    and a: "0 \<le> slip" "entry_symbol e = bar_symbol b"
  shows "if first_eligible_session e \<le> bar_session b \<and> bar_session b \<le> expiry_session e \<and> tradable b
      \<and> within_participation (entry_quantity e) b (entry_participation e) \<and> bar_low b \<le> limit_price e
    then \<exists>f. simulate_limit_entry e b slip = Inr (Some f)
    else simulate_limit_entry e b slip = Inr None"
proof -
  note ve = validated_entry [OF e] and vb = validated_bar [OF b]
  have pos: "0 < py_min (limit_price e) (adverse_buy t slip (entry_tick e))"
    if "t = bar_open b \<or> t = limit_price e" for t
    using adverse_buy_pos [of t "entry_tick e" slip] that ve vb r a by (auto simp: less_iff_dval dval_py_min)
  have mk: "\<exists>f. mk_simulated_fill \<lparr>fill_order_id = entry_order_id e, fill_bar_id = bar_id b,
      fill_session = bar_session b, fill_symbol = bar_symbol b, fill_side_of = BUY,
      fill_quantity = entry_quantity e, trigger_price = t,
      fill_price = py_min (limit_price e) (adverse_buy t slip (entry_tick e)), slippage_bps = slip,
      fill_exit_reason = None, simulated_fill_id = []\<rparr> = Inr f"
    if "t = bar_open b \<or> t = limit_price e" for t
    using pos [OF that] that ve vb a
    by (auto simp: mk_simulated_fill_def price_guard_def le_iff_dval less_iff_dval)
  have low: "bar_open b \<le> limit_price e \<Longrightarrow> bar_low b \<le> limit_price e"
    using vb(4) by (simp add: le_iff_dval)
  show ?thesis
    using mk [of "bar_open b"] mk [of "limit_price e"] low a
    by (auto simp: simulate_limit_entry_def Let_def less_iff_dval le_iff_dval)
qed

text \<open>A filled entry looks only ahead: it is a buy of the ordered quantity on a session after
  the signal and not after the expiry, at a positive price no higher than the limit, on a bar
  that traded at or below the limit, within the participation share of its volume; and when the
  trigger is a whole number of ticks, slippage never improves it.\<close>

theorem limit_entry_sound:
  assumes e: "mk_limit_entry_order e0 = Inr e" and b: "mk_simulation_bar b0 = Inr b"
    and f: "simulate_limit_entry e b slip = Inr (Some f)"
  shows "signal_session e < fill_session f \<and> fill_session f \<le> expiry_session e
    \<and> fill_session f = bar_session b \<and> fill_side_of f = BUY \<and> fill_quantity f = entry_quantity e
    \<and> of_int (fill_quantity f) \<le> dval (dec_of_int (bar_volume b) * entry_participation e)
    \<and> 0 < fill_price f \<and> fill_price f \<le> limit_price e \<and> bar_low b \<le> limit_price e
    \<and> trigger_price f \<le> limit_price e
    \<and> (ticks (trigger_price f) (entry_tick e) \<longrightarrow> trigger_price f \<le> fill_price f)"
proof -
  note ve = validated_entry [OF e] and vb = validated_bar [OF b]
  from f obtain t where t: "0 \<le> slip" "first_eligible_session e \<le> bar_session b" "bar_session b \<le> expiry_session e"
      "within_participation (entry_quantity e) b (entry_participation e)"
      "t = bar_open b \<and> bar_open b \<le> limit_price e \<or> t = limit_price e \<and> bar_low b \<le> limit_price e"
    and f': "fill_session f = bar_session b" "fill_side_of f = BUY" "fill_quantity f = entry_quantity e"
      "trigger_price f = t" "fill_price f = py_min (limit_price e) (adverse_buy t slip (entry_tick e))" "0 < fill_price f"
    by (auto simp: simulate_limit_entry_def guards_Inr_iff mk_simulated_fill_def res_simps Let_def
        price_guard_def le_iff_dval less_iff_dval split: if_splits option.splits)
  have lim: "t \<le> limit_price e" using t(5) by (auto simp: le_iff_dval)
  have adverse: "t \<le> fill_price f" if "ticks t (entry_tick e)"
    using adverse_buy_ge [OF that ve(5) t(1)] lim by (simp add: f' le_iff_dval dval_py_min)
  show ?thesis
    using f' t ve vb lim adverse within_participation_volume [OF t(4) vb(8) ve(7)]
    by (auto simp: le_iff_dval dval_py_min)
qed

text \<open>C19: A protective exit is pessimistic.  A bar that touches the stop is a stop whatever its high, and never on a
  lower-circuit-locked bar.  When the bar already opens at or below the stop after the entry session, the stop is
  triggered by the open and booked at the open or worse; otherwise it is triggered by the stop price and booked there
  or worse, on the entry session below the entry price.  Only a bar that does not touch the stop can reach the target,
  on a later session than the entry: when it opens at or above the target it is triggered by the open and booked at
  no more than the open and no less than the target, otherwise at the target exactly.  The bounds by the open are for
  opens that are whole ticks, or whole numbers of a decimal unit the tick is a whole number of.\<close>

theorem protective_exit_sound:
  assumes p: "mk_protective_exit_order p0 = Inr p" and b: "mk_simulation_bar b0 = Inr b"
    and r: "repr (stop_price p)" "repr (target_price p)"
    and f: "simulate_protective_exit p b slip = Inr (Some f)"
  shows "entry_session p \<le> fill_session f \<and> fill_session f = bar_session b \<and> fill_side_of f = SELL
    \<and> fill_quantity f = exit_quantity p
    \<and> of_int (fill_quantity f) \<le> dval (dec_of_int (bar_volume b) * exit_participation p)
    \<and> (if bar_low b \<le> stop_price p
       then fill_exit_reason f = Some STOP \<and> \<not> lower_circuit_sell_locked b
         \<and> (if entry_session p < bar_session b \<and> bar_open b \<le> stop_price p
            then trigger_price f = bar_open b \<and> (priced_in (bar_open b) (exit_tick p) \<longrightarrow> fill_price f \<le> bar_open b)
            else trigger_price f = stop_price p \<and> fill_price f \<le> stop_price p)
         \<and> (bar_session b = entry_session p \<longrightarrow> fill_price f < entry_price p)
       else fill_exit_reason f = Some TARGET \<and> target_price p \<le> bar_high b \<and> entry_session p < fill_session f
         \<and> (if target_price p \<le> bar_open b
            then trigger_price f = bar_open b \<and> target_price p \<le> fill_price f
              \<and> (priced_in (bar_open b) (exit_tick p) \<longrightarrow> fill_price f \<le> bar_open b)
            else trigger_price f = target_price p \<and> deq (fill_price f) (target_price p)))"
proof -
  note vp = validated_exit [OF p] and vb = validated_bar [OF b] and tk = stop_target_ticks [OF p r]
  have s: "0 \<le> slip" "\<not> bar_session b < entry_session p"
    and w: "within_participation (exit_quantity p) b (exit_participation p)"
    using f by (auto simp: simulate_protective_exit_def guards_Inr_iff Let_def le_iff_dval less_iff_dval split: if_splits)
  note wp = within_participation_volume [OF w vb(8) vp(8)]
  note sell = adverse_sell_le [OF _ vp(5) s(1)] and fine = adverse_sell_below [OF _ vp(5) s(1) vb(1)]
  show ?thesis
  proof (cases "bar_low b \<le> stop_price p")
    case True
    with f have l: "\<not> lower_circuit_sell_locked b"
      and x: "exit_fill (fields_id (exit_material ''daily-protective-exit-order/v1'' p)) p b (stop_trigger p b)
        (adverse_sell (stop_trigger p b) slip (exit_tick p)) slip STOP = Inr (Some f)"
      by (auto simp: simulate_protective_exit_def guards_Inr_iff Let_def split: if_splits)
    note ff = exit_fill_fields [OF x]
    have "fill_price f < entry_price p" if "bar_session b = entry_session p"
      using sell [OF tk(1)] vp(3) ff that by (simp add: stop_trigger_def less_iff_dval)
    then show ?thesis
      using True l ff s wp sell [OF tk(1)] fine by (auto simp: stop_trigger_def le_iff_dval)
  next
    case False
    with f have h: "target_price p \<le> bar_high b" "bar_session b \<noteq> entry_session p"
      and x: "exit_fill (fields_id (exit_material ''daily-protective-exit-order/v1'' p)) p b (target_trigger p b)
        (py_max (target_price p) (adverse_sell (target_trigger p b) slip (exit_tick p))) slip TARGET = Inr (Some f)"
      by (auto simp: simulate_protective_exit_def guards_Inr_iff Let_def split: if_splits)
    note ff = exit_fill_fields [OF x]
    show ?thesis
      using False h ff s wp sell [OF tk(2)] fine
      by (auto simp: target_trigger_def le_iff_dval deq_iff_dval dval_py_max)
  qed
qed

text \<open>A time exit liquidates the position on any session from the entry on whose bar is tradable,
  not circuit-locked and deep enough, never above the close when the close is a whole number of
  ticks; on any other bar the position is carried.\<close>

theorem time_exit_sound:
  assumes p: "mk_protective_exit_order p0 = Inr p" and b: "mk_simulation_bar b0 = Inr b"
    and s: "0 \<le> slip" "exit_symbol p = bar_symbol b"
  shows "if entry_session p \<le> bar_session b \<and> tradable b \<and> \<not> lower_circuit_sell_locked b
      \<and> within_participation (exit_quantity p) b (exit_participation p)
    then case simulate_time_exit p b slip of
        Inr (Some f) \<Rightarrow> fill_exit_reason f = Some TIME \<and> trigger_price f = bar_close b
          \<and> fill_quantity f = exit_quantity p \<and> 0 < fill_price f
          \<and> (ticks (bar_close b) (exit_tick p) \<longrightarrow> fill_price f \<le> bar_close b)
      | Inr None \<Rightarrow> False
      | Inl e \<Rightarrow> adverse_sell (bar_close b) slip (exit_tick p) \<le> 0
          \<and> e = ValueError ''fill_price must be finite and positive''
    else simulate_time_exit p b slip = Inr None"
proof -
  note vp = validated_exit [OF p] and vb = validated_bar [OF b]
  let ?oid = "fields_id (exit_material ''daily-time-exit-order/v1'' p @ [(''exit_session'', PDate (bar_session b))])"
  let ?v = "adverse_sell (bar_close b) slip (exit_tick p)"
  note sell = adverse_sell_le [OF _ vp(5) s(1)]
  have r: "if ?v \<le> 0 then exit_fill ?oid p b (bar_close b) ?v slip TIME = Inl (ValueError ''fill_price must be finite and positive'')
    else \<exists>f. exit_fill ?oid p b (bar_close b) ?v slip TIME = Inr (Some f)"
    using vb(3,9) s(1) by (auto simp: exit_fill_def mk_simulated_fill_def price_guard_def le_iff_dval less_iff_dval)
  show ?thesis
  proof (cases "entry_session p \<le> bar_session b \<and> tradable b \<and> \<not> lower_circuit_sell_locked b
      \<and> within_participation (exit_quantity p) b (exit_participation p)")
    case True
    then have "\<not> bar_session b < entry_session p" by auto
    then have eq: "simulate_time_exit p b slip = exit_fill ?oid p b (bar_close b) ?v slip TIME"
      using s True by (simp add: simulate_time_exit_def le_iff_dval less_iff_dval)
    show ?thesis
    proof (cases "?v \<le> 0")
      case False
      with r obtain f where f: "exit_fill ?oid p b (bar_close b) ?v slip TIME = Inr (Some f)" by auto
      show ?thesis using True eq f exit_fill_fields [OF f] sell by (simp add: le_iff_dval less_iff_dval)
    qed (use True r eq in simp)
  next
    case False
    then show ?thesis using s by (auto simp: simulate_time_exit_def le_iff_dval less_iff_dval)
  qed
qed

section \<open>The identity of a bar\<close>

interpretation bar_identity: content_addressed bar_material
  "[''schema'', ''session'', ''symbol'', ''open'', ''high'', ''low'', ''close'', ''volume'', ''tradable'',
     ''lower_circuit_sell_locked'']"
proof
  show "list_all (\<lambda>k. \<not> is_sensitive_attribute k)
    [''schema'', ''session'', ''symbol'', ''open'', ''high'', ''low'', ''close'', ''volume'', ''tradable'',
     ''lower_circuit_sell_locked'']"
    by code_simp
qed (simp_all add: bar_material_def)

section \<open>Witnesses\<close>

definition demo_bar :: simulation_bar where
  "demo_bar = \<lparr>bar_session = Date 2026 3 3, bar_symbol = ''TCS'', bar_open = Dec False 9950 (-2),
     bar_high = Dec False 11100 (-2), bar_low = Dec False 9400 (-2), bar_close = Dec False 10000 (-2),
     bar_volume = 1000000, tradable = True, lower_circuit_sell_locked = False, bar_id = []\<rparr>"

definition demo_entry :: limit_entry_order where
  "demo_entry = \<lparr>entry_symbol = ''TCS'', signal_session = Date 2026 3 2, first_eligible_session = Date 2026 3 3,
     expiry_session = Date 2026 3 5, entry_quantity = 100, limit_price = Dec False 10000 (-2),
     entry_tick = Dec False 5 (-2), entry_participation = Dec False 25 (-4), entry_order_id = []\<rparr>"

definition demo_exit :: protective_exit_order where
  "demo_exit = \<lparr>exit_symbol = ''TCS'', exit_quantity = 100, entry_session = Date 2026 3 2,
     entry_price = Dec False 10000 (-2), stop_price = Dec False 9500 (-2), target_price = Dec False 11000 (-2),
     exit_tick = Dec False 5 (-2), exit_participation = Dec False 25 (-4)\<rparr>"

lemma demo_symbol: "normalized_upper ''TCS''"
  by code_simp

lemma demo_bar_made: "mk_simulation_bar demo_bar = Inr (demo_bar\<lparr>bar_id := fields_id (bar_material demo_bar)\<rparr>)"
  by (simp add: mk_simulation_bar_def bar_guards_def guards_Inr_iff symbol_guard_def demo_symbol price_guard_def
      demo_bar_def le_iff_dval less_iff_dval dval_py_max dval_py_min dval_Dec)

lemma demo_on_tick: "on_tick (Dec False 10000 (-2)) (Dec False 5 (-2)) = Inr True"
    "on_tick (Dec False 9500 (-2)) (Dec False 5 (-2)) = Inr True"
    "on_tick (Dec False 11000 (-2)) (Dec False 5 (-2)) = Inr True"
  by (simp_all add: on_tick_def dmod_def dzero_def Let_def daligned_def dint_def prec_def dec_fix_exact repr_def
      deq_iff_dval dval_Dec)

lemma demo_entry_made:
  "mk_limit_entry_order demo_entry = Inr (demo_entry\<lparr>entry_order_id := fields_id (entry_material demo_entry)\<rparr>)"
  by (simp add: mk_limit_entry_order_def entry_guards_def symbol_guard_def price_guard_def participation_guard_def
      demo_entry_def demo_symbol demo_on_tick le_iff_dval less_iff_dval dval_Dec)

lemma demo_exit_made: "mk_protective_exit_order demo_exit = Inr demo_exit"
  by (simp add: mk_protective_exit_order_def exit_guards_def symbol_guard_def price_guard_def
      participation_guard_def demo_exit_def demo_symbol demo_on_tick le_iff_dval less_iff_dval dval_Dec)

lemma demo_volume: "within_participation 100 (demo_bar\<lparr>bar_id := i\<rparr>) (Dec False 25 (-4))"
  by (simp add: within_participation_def demo_bar_def times_decimal_def dtimes_exact_def dec_of_int_def
      dec_fix_exact repr_def prec_def dec_int_def)

theorem limit_entry_fills_iff_witness:
  "\<exists>e b f. mk_limit_entry_order demo_entry = Inr e \<and> mk_simulation_bar demo_bar = Inr b
     \<and> simulate_limit_entry e b (Dec False 10 0) = Inr (Some f)"
proof -
  let ?e = "demo_entry\<lparr>entry_order_id := fields_id (entry_material demo_entry)\<rparr>"
  let ?b = "demo_bar\<lparr>bar_id := fields_id (bar_material demo_bar)\<rparr>"
  have "\<exists>f. simulate_limit_entry ?e ?b (Dec False 10 0) = Inr (Some f)"
    using limit_entry_fills_iff [OF demo_entry_made demo_bar_made, of "Dec False 10 0"] demo_volume
    by (simp add: demo_entry_def demo_bar_def repr_def prec_def le_iff_dval dval_Dec)
  then show ?thesis using demo_entry_made demo_bar_made by blast
qed

theorem limit_entry_sound_witness:
  "\<exists>e b f. simulate_limit_entry e b (Dec False 10 0) = Inr (Some f) \<and> entry_quantity e = 100
     \<and> fill_session f = Date 2026 3 3 \<and> fill_quantity f = 100 \<and> fill_price f \<le> Dec False 10000 (-2)"
proof -
  let ?e = "demo_entry\<lparr>entry_order_id := fields_id (entry_material demo_entry)\<rparr>"
  let ?b = "demo_bar\<lparr>bar_id := fields_id (bar_material demo_bar)\<rparr>"
  have f: "simulate_limit_entry ?e ?b (Dec False 10 0) =
      bindE (mk_simulated_fill
        \<lparr>fill_order_id = entry_order_id ?e, fill_bar_id = bar_id ?b, fill_session = Date 2026 3 3,
         fill_symbol = ''TCS'', fill_side_of = BUY, fill_quantity = 100, trigger_price = Dec False 9950 (-2),
         fill_price = py_min (Dec False 10000 (-2)) (adverse_buy (Dec False 9950 (-2)) (Dec False 10 0) (Dec False 5 (-2))),
         slippage_bps = Dec False 10 0, fill_exit_reason = None, simulated_fill_id = []\<rparr>) (\<lambda>f. Inr (Some f))"
    using demo_volume by (simp add: simulate_limit_entry_def demo_entry_def demo_bar_def le_iff_dval less_iff_dval dval_Dec)
  have "0 < dval (py_min (Dec False 10000 (-2)) (adverse_buy (Dec False 9950 (-2)) (Dec False 10 0) (Dec False 5 (-2))))"
    using adverse_buy_pos [of "Dec False 9950 (-2)" "Dec False 5 (-2)" "Dec False 10 0"]
    by (simp add: dval_py_min less_iff_dval le_iff_dval dval_Dec repr_def prec_def)
  then obtain g where g: "simulate_limit_entry ?e ?b (Dec False 10 0) = Inr (Some g)"
    unfolding f by (simp add: mk_simulated_fill_def price_guard_def le_iff_dval less_iff_dval dval_Dec)
  show ?thesis using limit_entry_sound [OF demo_entry_made demo_bar_made g] g
    by (intro exI [of _ ?e] exI [of _ ?b] exI [of _ g]) (simp add: demo_entry_def demo_bar_def)
qed

lemma demo_fields [simp]:
  "bar_session (demo_bar\<lparr>bar_id := i\<rparr>) = Date 2026 3 3" "bar_symbol (demo_bar\<lparr>bar_id := i\<rparr>) = ''TCS''"
  "bar_low (demo_bar\<lparr>bar_id := i\<rparr>) = Dec False 9400 (-2)" "bar_open (demo_bar\<lparr>bar_id := i\<rparr>) = Dec False 9950 (-2)"
  "bar_high (demo_bar\<lparr>bar_id := i\<rparr>) = Dec False 11100 (-2)" "bar_close (demo_bar\<lparr>bar_id := i\<rparr>) = Dec False 10000 (-2)"
  "tradable (demo_bar\<lparr>bar_id := i\<rparr>)" "\<not> lower_circuit_sell_locked (demo_bar\<lparr>bar_id := i\<rparr>)"
  "exit_symbol demo_exit = ''TCS''" "exit_quantity demo_exit = 100" "entry_session demo_exit = Date 2026 3 2"
  "stop_price demo_exit = Dec False 9500 (-2)" "target_price demo_exit = Dec False 11000 (-2)"
  "exit_tick demo_exit = Dec False 5 (-2)" "exit_participation demo_exit = Dec False 25 (-4)"
  by (simp_all add: demo_bar_def demo_exit_def)

lemma demo_ticks: "ticks (stop_price demo_exit) (exit_tick demo_exit)" "ticks (Dec False 10000 (-2)) (exit_tick demo_exit)"
  using stop_target_ticks(1) [OF demo_exit_made] on_tick_ticks [OF demo_on_tick(1)]
  by (simp_all add: demo_exit_def repr_def prec_def less_iff_dval dval_Dec)

definition demo_gap_bar :: simulation_bar where
  \<comment> \<open>opens below the stop\<close>
  "demo_gap_bar = (let b = demo_bar\<lparr>bar_open := Dec False 9450 (-2)\<rparr> in b\<lparr>bar_id := fields_id (bar_material b)\<rparr>)"

lemma demo_gap_made: "mk_simulation_bar (demo_bar\<lparr>bar_open := Dec False 9450 (-2)\<rparr>) = Inr demo_gap_bar"
  by (simp add: demo_gap_bar_def Let_def mk_simulation_bar_def bar_guards_def guards_Inr_iff symbol_guard_def price_guard_def)
    (simp add: demo_bar_def demo_symbol le_iff_dval less_iff_dval dval_py_max dval_py_min dval_Dec)

lemma demo_gap_fields [simp]:
  "bar_session demo_gap_bar = Date 2026 3 3" "bar_symbol demo_gap_bar = ''TCS''" "bar_open demo_gap_bar = Dec False 9450 (-2)"
  "bar_low demo_gap_bar = Dec False 9400 (-2)" "tradable demo_gap_bar" "\<not> lower_circuit_sell_locked demo_gap_bar"
  "length (bar_id demo_gap_bar) = 64" "bar_volume demo_gap_bar = 1000000"
  by (simp_all add: demo_gap_bar_def Let_def demo_bar_def)

lemma demo_gap_tick: "ticks (Dec False 9450 (-2)) (exit_tick demo_exit)"
  by (rule on_tick_ticks)
    (simp_all add: on_tick_def dmod_def dzero_def Let_def daligned_def dint_def prec_def dec_fix_exact repr_def
      deq_iff_dval less_iff_dval dval_Dec)

theorem protective_exit_sound_witness:
  "(\<exists>b f. simulate_protective_exit demo_exit b 0 = Inr (Some f) \<and> bar_high b = Dec False 11100 (-2)
     \<and> fill_exit_reason f = Some STOP \<and> fill_session f = Date 2026 3 3 \<and> fill_quantity f = 100)
   \<and> (\<exists>f. simulate_protective_exit demo_exit demo_gap_bar 0 = Inr (Some f)
     \<and> trigger_price f = Dec False 9450 (-2) \<and> fill_price f \<le> Dec False 9450 (-2))"
proof
  let ?b = "demo_bar\<lparr>bar_id := fields_id (bar_material demo_bar)\<rparr>"
  have len: "length (bar_id ?b) = 64" by simp
  have t: "stop_trigger demo_exit ?b = stop_price demo_exit"
    by (simp add: stop_trigger_def le_iff_dval dval_Dec)
  have "dval (adverse_sell (stop_price demo_exit) 0 (exit_tick demo_exit)) = 95"
    using adverse_sell_no_slip [OF demo_ticks(1), of 0] by (simp add: less_iff_dval dval_Dec)
  then have "\<exists>f. exit_fill (fields_id (exit_material ''daily-protective-exit-order/v1'' demo_exit)) demo_exit ?b
      (stop_price demo_exit) (adverse_sell (stop_price demo_exit) 0 (exit_tick demo_exit)) 0 STOP = Inr (Some f)"
    using len by (simp add: exit_fill_def mk_simulated_fill_def price_guard_def le_iff_dval less_iff_dval dval_Dec)
  then obtain f where f: "simulate_protective_exit demo_exit ?b 0 = Inr (Some f)"
    using demo_volume by (auto simp: simulate_protective_exit_def t le_iff_dval less_iff_dval dval_Dec)
  show "\<exists>b f. simulate_protective_exit demo_exit b 0 = Inr (Some f) \<and> bar_high b = Dec False 11100 (-2)
     \<and> fill_exit_reason f = Some STOP \<and> fill_session f = Date 2026 3 3 \<and> fill_quantity f = 100"
    using protective_exit_sound [OF demo_exit_made demo_bar_made _ _ f] f
    by (intro exI [of _ ?b] exI [of _ f]) (simp add: repr_def prec_def le_iff_dval dval_Dec)
next
  have t: "stop_trigger demo_exit demo_gap_bar = Dec False 9450 (-2)"
    by (simp add: stop_trigger_def le_iff_dval dval_Dec)
  have v: "within_participation 100 demo_gap_bar (Dec False 25 (-4))"
    using demo_volume by (simp add: within_participation_def) (simp add: demo_bar_def)
  have "dval (adverse_sell (Dec False 9450 (-2)) 0 (exit_tick demo_exit)) = 9450 / 100"
    using adverse_sell_no_slip [OF demo_gap_tick, of 0] by (simp add: less_iff_dval dval_Dec)
  then have "\<exists>f. exit_fill (fields_id (exit_material ''daily-protective-exit-order/v1'' demo_exit)) demo_exit demo_gap_bar
      (Dec False 9450 (-2)) (adverse_sell (Dec False 9450 (-2)) 0 (exit_tick demo_exit)) 0 STOP = Inr (Some f)"
    by (simp add: exit_fill_def mk_simulated_fill_def price_guard_def le_iff_dval less_iff_dval dval_Dec)
  then obtain f where f: "simulate_protective_exit demo_exit demo_gap_bar 0 = Inr (Some f)"
    using v by (auto simp: simulate_protective_exit_def t le_iff_dval less_iff_dval dval_Dec)
  then show "\<exists>f. simulate_protective_exit demo_exit demo_gap_bar 0 = Inr (Some f)
     \<and> trigger_price f = Dec False 9450 (-2) \<and> fill_price f \<le> Dec False 9450 (-2)"
    using protective_exit_sound [OF demo_exit_made demo_gap_made _ _ f] demo_gap_tick
    by (intro exI [of _ f]) (simp add: priced_in_def repr_def prec_def le_iff_dval dval_Dec)
qed

theorem time_exit_sound_witness:
  "\<exists>b f. simulate_time_exit demo_exit b 0 = Inr (Some f) \<and> fill_exit_reason f = Some TIME
     \<and> fill_quantity f = 100 \<and> fill_price f \<le> Dec False 10000 (-2)"
proof -
  let ?b = "demo_bar\<lparr>bar_id := fields_id (bar_material demo_bar)\<rparr>"
  have "dval (adverse_sell (bar_close ?b) 0 (exit_tick demo_exit)) = 100"
    using adverse_sell_no_slip [OF demo_ticks(2), of 0]
    by (simp add: less_iff_dval dval_Dec)
  then have "\<not> adverse_sell (bar_close ?b) 0 (exit_tick demo_exit) \<le> 0" by (simp add: le_iff_dval)
  then obtain f where "simulate_time_exit demo_exit ?b 0 = Inr (Some f)" "fill_exit_reason f = Some TIME"
      "fill_quantity f = 100" "fill_price f \<le> Dec False 10000 (-2)"
    using time_exit_sound [OF demo_exit_made demo_bar_made, of 0] demo_ticks(2) demo_volume
    by (auto simp: le_iff_dval split: sum.splits option.splits)
  then show ?thesis by blast
qed

end
