(* ===== verification/Signals.thy ===== *)
theory Signals
  imports Identity Ticks
begin

text \<open>
  The deterministic signal engine (\<open>signals/deterministic_swing.py\<close>): end-of-day bars bound to
  evidence, the history of one instrument, the signal configuration, the technical metrics
  computed from the most recent bars, and the tick-aligned entry, stop and target levels.

  The lemmas show that the metrics depend on the most recent bars only and are scores between
  zero and one, and that the levels are ordered and keep the configured reward for the risk.
\<close>

section \<open>Decimal helpers\<close>

definition sig_positive :: "decimal \<Rightarrow> string \<Rightarrow> bool \<times> py_exc" where
  \<comment> \<open>\<open>_decimal(value, name, positive=True)\<close>\<close>
  "sig_positive v name = (v \<le> 0, DeterministicSwingSignalError (name @ '' must be positive''))"

definition clamp_unit :: "decimal \<Rightarrow> decimal" where
  "clamp_unit v = py_max 0 (py_min v 1)"

definition dmean :: "decimal list \<Rightarrow> decimal res" where
  "dmean vs = (if vs = [] then Inl (DeterministicSwingSignalError ''mean requires at least one value'')
     else Inr (dquot (foldl (+) 0 vs) (dec_of_int (int (length vs)))))"

definition dmedian :: "decimal list \<Rightarrow> decimal res" where
  "dmedian vs = (if vs = [] then Inl (DeterministicSwingSignalError ''median requires at least one value'')
     else let ordered = sort_key dval vs; middle = length ordered div 2 in
       if odd (length ordered) then Inr (ordered ! middle)
       else Inr (dquot (ordered ! (middle - 1) + ordered ! middle) (dec_of_int 2)))"

definition dmax_list :: "decimal list \<Rightarrow> decimal" where
  \<comment> \<open>\<open>max\<close> of a non-empty sequence: the first of the largest values\<close>
  "dmax_list vs = foldl py_max (hd vs) (tl vs)"

section \<open>Bars and histories\<close>

record swing_bar =
  market_session :: date
  open_price :: decimal
  high_price :: decimal
  low_price :: decimal
  close_price :: decimal
  volume :: decimal
  traded_value :: decimal
  available_at :: instant
  evidence_id :: string
  content_hash :: string
  swing_bar_id :: string

definition swing_bar_material :: "swing_bar \<Rightarrow> (string \<times> pyval) list" where
  "swing_bar_material b =
     [(''market_session'', PDate (market_session b)),
      (''open'', PDecimal (open_price b)),
      (''high'', PDecimal (high_price b)),
      (''low'', PDecimal (low_price b)),
      (''close'', PDecimal (close_price b)),
      (''volume'', PDecimal (volume b)),
      (''traded_value'', PDecimal (traded_value b)),
      (''available_at'', PDatetime (available_at b)),
      (''evidence_id'', PStr (evidence_id b)),
      (''content_hash'', PStr (content_hash b))]"

definition swing_bar_guards :: "swing_bar \<Rightarrow> (bool \<times> py_exc) list" where
  "swing_bar_guards b =
     [sig_positive (open_price b) ''bar open'',
      sig_positive (high_price b) ''bar high'',
      sig_positive (low_price b) ''bar low'',
      sig_positive (close_price b) ''bar close'',
      sig_positive (traded_value b) ''bar traded_value'',
      (high_price b < py_max (py_max (open_price b) (low_price b)) (close_price b),
         DeterministicSwingSignalError ''bar high is inconsistent''),
      (py_min (py_min (open_price b) (high_price b)) (close_price b) < low_price b,
         DeterministicSwingSignalError ''bar low is inconsistent''),
      sig_positive (volume b) ''bar volume'',
      (let vwap = dquot (traded_value b) (volume b) in \<not> (low_price b \<le> vwap \<and> vwap \<le> high_price b),
         DeterministicSwingSignalError ''bar traded value implies an invalid price'')]"

definition mk_swing_bar :: "swing_bar \<Rightarrow> pydatetime \<Rightarrow> swing_bar res" where
  \<comment> \<open>the constructor; the datetime argument replaces the field\<close>
  "mk_swing_bar b0 avail = guards (swing_bar_guards b0)
     (case to_utc avail of None \<Rightarrow> Inl (DeterministicSwingSignalError ''bar available_at must be timezone-aware'')
      | Some t \<Rightarrow> let b = b0\<lparr>available_at := t\<rparr> in guards
          [(blank (evidence_id b), DeterministicSwingSignalError ''bar evidence_id is required''),
           (blank (content_hash b), DeterministicSwingSignalError ''bar content_hash is required'')]
          (Inr (b\<lparr>swing_bar_id := fields_id (swing_bar_material b)\<rparr>)))"

definition verify_swing_bar :: "swing_bar \<Rightarrow> unit res" where
  "verify_swing_bar b = guards [(swing_bar_id b \<noteq> fields_id (swing_bar_material b),
     DeterministicSwingSignalError ''bar content identity failed'')] (Inr ())"

definition swing_bar_val :: "swing_bar \<Rightarrow> pyval" where
  "swing_bar_val b = PDataclass ''india_swing.signals.deterministic_swing.AsOfSwingBar''
     (swing_bar_material b @ [(''bar_id'', PStr (swing_bar_id b))])"

record swing_history =
  instrument_id :: string
  listing_id :: string
  tick_size :: decimal
  tick_available_at :: instant
  tick_evidence_id :: string
  tick_content_hash :: string
  adjustment_available_at :: instant
  adjustment_evidence_id :: string
  adjustment_content_hash :: string
  price_basis :: string
  bars :: "swing_bar list"
  history_id :: string

definition history_material :: "swing_history \<Rightarrow> (string \<times> pyval) list" where
  "history_material h =
     [(''instrument_id'', PStr (instrument_id h)),
      (''listing_id'', PStr (listing_id h)),
      (''tick_size'', PDecimal (tick_size h)),
      (''tick_available_at'', PDatetime (tick_available_at h)),
      (''tick_evidence_id'', PStr (tick_evidence_id h)),
      (''tick_content_hash'', PStr (tick_content_hash h)),
      (''adjustment_available_at'', PDatetime (adjustment_available_at h)),
      (''adjustment_evidence_id'', PStr (adjustment_evidence_id h)),
      (''adjustment_content_hash'', PStr (adjustment_content_hash h)),
      (''price_basis'', PStr (price_basis h)),
      (''bars'', PTuple (map swing_bar_val (bars h)))]"

definition verify_bars :: "swing_bar list \<Rightarrow> unit res" where
  "verify_bars bs = bindE (mapE verify_swing_bar bs) (\<lambda>_. Inr ())"

definition history_text_guards :: "swing_history \<Rightarrow> (bool \<times> py_exc) list" where
  "history_text_guards h =
     [(blank (tick_evidence_id h), DeterministicSwingSignalError ''history tick_evidence_id is required''),
      (blank (tick_content_hash h), DeterministicSwingSignalError ''history tick_content_hash is required''),
      (blank (adjustment_evidence_id h),
         DeterministicSwingSignalError ''history adjustment_evidence_id is required''),
      (blank (adjustment_content_hash h),
         DeterministicSwingSignalError ''history adjustment_content_hash is required'')]"

definition history_bar_guards :: "swing_history \<Rightarrow> (bool \<times> py_exc) list" where
  "history_bar_guards h = (let ids = map evidence_id (bars h) in
     [(bars h = [], DeterministicSwingSignalError ''history bars must be a non-empty exact tuple''),
      (\<not> sorted_unique (map market_session (bars h)),
         DeterministicSwingSignalError ''history sessions must be ordered and unique''),
      (card (set ids) \<noteq> length ids, DeterministicSwingSignalError ''history evidence IDs must be unique''),
      (tick_evidence_id h \<in> set ids, DeterministicSwingSignalError ''tick and bar evidence IDs must differ''),
      (adjustment_evidence_id h \<in> set ids \<or> adjustment_evidence_id h = tick_evidence_id h,
         DeterministicSwingSignalError ''adjustment, tick, and bar evidence IDs must differ''),
      (price_basis h \<noteq> ''CORPORATE_ACTION_ADJUSTED_AS_OF_CUTOFF'',
         DeterministicSwingSignalError ''history must use cutoff-bound corporate-action-adjusted prices'')])"

definition mk_swing_history :: "swing_history \<Rightarrow> pydatetime \<Rightarrow> pydatetime \<Rightarrow> swing_history res" where
  "mk_swing_history h0 tick_at adjusted_at = guards
     [(blank (instrument_id h0), DeterministicSwingSignalError ''history instrument_id is required''),
      (blank (listing_id h0), DeterministicSwingSignalError ''history listing_id is required''),
      sig_positive (tick_size h0) ''history tick_size'']
     (case to_utc tick_at of
        None \<Rightarrow> Inl (DeterministicSwingSignalError ''history tick_available_at must be timezone-aware'')
      | Some t \<Rightarrow> (case to_utc adjusted_at of
          None \<Rightarrow> Inl (DeterministicSwingSignalError ''history adjustment_available_at must be timezone-aware'')
        | Some u \<Rightarrow> let h = h0\<lparr>tick_available_at := t, adjustment_available_at := u\<rparr> in
            guards (history_text_guards h @ history_bar_guards h)
              (bindE (verify_bars (bars h)) (\<lambda>_. Inr (h\<lparr>history_id := fields_id (history_material h)\<rparr>)))))"

definition verify_history :: "swing_history \<Rightarrow> unit res" where
  "verify_history h = bindE (verify_bars (bars h)) (\<lambda>_. guards
     [(history_id h \<noteq> fields_id (history_material h),
       DeterministicSwingSignalError ''history content identity failed'')] (Inr ()))"

section \<open>Configuration\<close>

record swing_config =
  minimum_history_sessions :: int
  momentum_lookback_sessions :: int
  trend_lookback_sessions :: int
  atr_lookback_sessions :: int
  volume_lookback_sessions :: int
  breakout_lookback_sessions :: int
  full_momentum_score :: decimal
  minimum_daily_traded_value :: decimal
  entry_atr_buffer :: decimal
  stop_atr_multiple :: decimal
  target_net_reward_risk :: decimal
  base_round_trip_cost_bps :: decimal
  maximum_holding_sessions :: int
  entry_delay_minutes :: int
  entry_expiry_buffer_minutes :: int
  signal_policy_version :: string
  config_id :: string

definition config_material :: "swing_config \<Rightarrow> (string \<times> pyval) list" where
  "config_material c =
     [(''minimum_history_sessions'', PInt (minimum_history_sessions c)),
      (''momentum_lookback_sessions'', PInt (momentum_lookback_sessions c)),
      (''trend_lookback_sessions'', PInt (trend_lookback_sessions c)),
      (''atr_lookback_sessions'', PInt (atr_lookback_sessions c)),
      (''volume_lookback_sessions'', PInt (volume_lookback_sessions c)),
      (''breakout_lookback_sessions'', PInt (breakout_lookback_sessions c)),
      (''full_momentum_score'', PDecimal (full_momentum_score c)),
      (''minimum_daily_traded_value'', PDecimal (minimum_daily_traded_value c)),
      (''entry_atr_buffer'', PDecimal (entry_atr_buffer c)),
      (''stop_atr_multiple'', PDecimal (stop_atr_multiple c)),
      (''target_net_reward_risk'', PDecimal (target_net_reward_risk c)),
      (''base_round_trip_cost_bps'', PDecimal (base_round_trip_cost_bps c)),
      (''maximum_holding_sessions'', PInt (maximum_holding_sessions c)),
      (''entry_delay_minutes'', PInt (entry_delay_minutes c)),
      (''entry_expiry_buffer_minutes'', PInt (entry_expiry_buffer_minutes c)),
      (''policy_version'', PStr (signal_policy_version c))]"

definition positive_int :: "int \<Rightarrow> string \<Rightarrow> bool \<times> py_exc" where
  "positive_int v name = (v \<le> 0, DeterministicSwingSignalError (name @ '' must be a positive integer''))"

definition required_sessions :: "swing_config \<Rightarrow> int" where
  "required_sessions c = max (momentum_lookback_sessions c + 1) (max (trend_lookback_sessions c)
     (max (atr_lookback_sessions c + 1) (max (volume_lookback_sessions c + 1)
       (breakout_lookback_sessions c + 1))))"

definition config_guards :: "swing_config \<Rightarrow> (bool \<times> py_exc) list" where
  "config_guards c =
     [positive_int (minimum_history_sessions c) ''minimum_history_sessions'',
      positive_int (momentum_lookback_sessions c) ''momentum_lookback_sessions'',
      positive_int (trend_lookback_sessions c) ''trend_lookback_sessions'',
      positive_int (atr_lookback_sessions c) ''atr_lookback_sessions'',
      positive_int (volume_lookback_sessions c) ''volume_lookback_sessions'',
      positive_int (breakout_lookback_sessions c) ''breakout_lookback_sessions'',
      positive_int (maximum_holding_sessions c) ''maximum_holding_sessions'',
      positive_int (entry_delay_minutes c) ''entry_delay_minutes'',
      positive_int (entry_expiry_buffer_minutes c) ''entry_expiry_buffer_minutes'',
      (minimum_history_sessions c < required_sessions c,
         DeterministicSwingSignalError ''minimum history cannot be shorter than a feature lookback''),
      sig_positive (full_momentum_score c) ''full_momentum_score'',
      sig_positive (minimum_daily_traded_value c) ''minimum_daily_traded_value'',
      sig_positive (entry_atr_buffer c) ''entry_atr_buffer'',
      sig_positive (stop_atr_multiple c) ''stop_atr_multiple'',
      sig_positive (target_net_reward_risk c) ''target_net_reward_risk'',
      sig_positive (base_round_trip_cost_bps c) ''base_round_trip_cost_bps'',
      (signal_policy_version c \<noteq> ''deterministic-swing-signals/v1'',
         DeterministicSwingSignalError ''unsupported signal policy'')]"

definition mk_swing_config :: "swing_config \<Rightarrow> swing_config res" where
  "mk_swing_config c = guards (config_guards c) (Inr (c\<lparr>config_id := fields_id (config_material c)\<rparr>))"

definition verify_config :: "swing_config \<Rightarrow> unit res" where
  "verify_config c = guards [(config_id c \<noteq> fields_id (config_material c),
     DeterministicSwingSignalError ''signal config content identity failed'')] (Inr ())"

definition default_swing_config :: swing_config where
  "default_swing_config =
     \<lparr>minimum_history_sessions = 60, momentum_lookback_sessions = 20, trend_lookback_sessions = 50,
      atr_lookback_sessions = 14, volume_lookback_sessions = 20, breakout_lookback_sessions = 20,
      full_momentum_score = Dec False 10 (-2), minimum_daily_traded_value = Dec False 10000000 0,
      entry_atr_buffer = Dec False 10 (-2), stop_atr_multiple = Dec False 150 (-2),
      target_net_reward_risk = Dec False 250 (-2), base_round_trip_cost_bps = Dec False 30 0,
      maximum_holding_sessions = 10, entry_delay_minutes = 5, entry_expiry_buffer_minutes = 15,
      signal_policy_version = ''deterministic-swing-signals/v1'', config_id = []\<rparr>"

section \<open>Technical metrics\<close>

record swing_metrics =
  momentum_return :: decimal
  trend_quality :: decimal
  volume_confirmation :: decimal
  median_traded_value :: decimal
  atr :: decimal
  relative_strength :: decimal
  liquidity_quality :: decimal
  metric_evidence_ids :: "string list"
  metrics_id :: string

definition metrics_material :: "swing_metrics \<Rightarrow> (string \<times> pyval) list" where
  "metrics_material m =
     [(''momentum_return'', PDecimal (momentum_return m)),
      (''trend_quality'', PDecimal (trend_quality m)),
      (''volume_confirmation'', PDecimal (volume_confirmation m)),
      (''median_traded_value'', PDecimal (median_traded_value m)),
      (''atr'', PDecimal (atr m)),
      (''relative_strength'', PDecimal (relative_strength m)),
      (''liquidity_quality'', PDecimal (liquidity_quality m)),
      (''evidence_ids'', PTuple (map PStr (metric_evidence_ids m)))]"

definition mk_swing_metrics :: "swing_metrics \<Rightarrow> swing_metrics res" where
  "mk_swing_metrics m = guards
     [(atr m \<le> 0, DeterministicSwingSignalError ''ATR must be positive''),
      (median_traded_value m < 0, DeterministicSwingSignalError ''median_traded_value cannot be negative''),
      (metric_evidence_ids m = [] \<or> list_ex blank (metric_evidence_ids m),
         DeterministicSwingSignalError ''metrics evidence_ids must be a non-empty exact text tuple''),
      (\<not> distinct (metric_evidence_ids m), DeterministicSwingSignalError ''metrics evidence IDs must be unique'')]
     (Inr (m\<lparr>metrics_id := fields_id (metrics_material m)\<rparr>))"

definition last_n :: "int \<Rightarrow> 'a list \<Rightarrow> 'a list" where
  \<comment> \<open>\<open>xs[-n:]\<close> for a positive \<open>n\<close>\<close>
  "last_n n xs = drop (length xs - nat n) xs"

fun rises :: "swing_bar list \<Rightarrow> int" where
  \<comment> \<open>how often a close exceeds the previous close\<close>
  "rises (a # b # bs) = (if close_price a < close_price b then 1 else 0) + rises (b # bs)"
| "rises _ = 0"

fun true_ranges :: "swing_bar list \<Rightarrow> decimal list" where
  "true_ranges (a # b # bs) =
     py_max (py_max (high_price b - low_price b) \<bar>high_price b - close_price a\<bar>) \<bar>low_price b - close_price a\<bar>
     # true_ranges (b # bs)"
| "true_ranges _ = []"

definition trend_score :: "swing_config \<Rightarrow> swing_bar list \<Rightarrow> decimal res" where
  \<comment> \<open>the mean of rising closes, price over its average and proximity to the breakout level\<close>
  "trend_score c bs = (let current = close_price (last bs); trend = last_n (trend_lookback_sessions c) bs in
     bindE (ddiv (dec_of_int (rises trend)) (dec_of_int (int (length trend) - 1))) (\<lambda>positive_fraction.
     bindE (dmean (map close_price trend)) (\<lambda>average.
     bindE (ddiv current average) (\<lambda>over_average.
     bindE (ddiv current (dmax_list (map high_price
         (butlast (last_n (breakout_lookback_sessions c + 1) bs))))) (\<lambda>over_high.
     let above_average = clamp_unit (dquot (over_average - Dec False 95 (-2)) (Dec False 10 (-2)));
         proximity = clamp_unit (dquot (over_high - Dec False 90 (-2)) (Dec False 10 (-2))) in
     Inr (dquot (positive_fraction + above_average + proximity) (dec_of_int 3)))))))"

definition calculate_swing_technical_metrics :: "swing_history \<Rightarrow> swing_config \<Rightarrow> swing_metrics res" where
  "calculate_swing_technical_metrics h c =
     bindE (verify_history h) (\<lambda>_. bindE (verify_config c) (\<lambda>_. guards
       [(int (length (bars h)) < minimum_history_sessions c,
         DeterministicSwingSignalError ''history is shorter than the configured minimum'')]
       (let bs = bars h; current = last bs in
        bindE (ddiv (close_price current)
          (close_price (hd (last_n (momentum_lookback_sessions c + 1) bs)))) (\<lambda>ratio.
        let momentum = ratio - 1 in
        bindE (trend_score c bs) (\<lambda>trend.
        bindE (dmedian (map volume (butlast (last_n (volume_lookback_sessions c + 1) bs)))) (\<lambda>usual_volume.
        bindE (ddiv (volume current) usual_volume) (\<lambda>volume_ratio.
        bindE (dmedian (map traded_value (last_n (volume_lookback_sessions c) bs))) (\<lambda>median_value.
        bindE (dmean (true_ranges (last_n (atr_lookback_sessions c + 1) bs))) (\<lambda>average_range. guards
          [(average_range \<le> 0, DeterministicSwingSignalError ''ATR must be positive'')]
          (bindE (ddiv momentum (full_momentum_score c)) (\<lambda>strength.
           bindE (ddiv median_value (minimum_daily_traded_value c)) (\<lambda>liquidity.
             mk_swing_metrics
               \<lparr>momentum_return = momentum, trend_quality = trend,
                volume_confirmation = clamp_unit (dquot volume_ratio (dec_of_int 2)),
                median_traded_value = median_value, atr = average_range,
                relative_strength = clamp_unit strength,
                liquidity_quality = clamp_unit (dquot liquidity (dec_of_int 2)),
                metric_evidence_ids = map evidence_id (last_n (required_sessions c) bs),
                metrics_id = []\<rparr>))))))))))))"

section \<open>Trade levels\<close>

record trade_levels =
  entry_low :: decimal
  entry_high :: decimal
  stop :: decimal
  target :: decimal
  estimated_cost_bps :: decimal
  levels_id :: string

definition levels_material :: "trade_levels \<Rightarrow> (string \<times> pyval) list" where
  "levels_material l =
     [(''entry_low'', PDecimal (entry_low l)),
      (''entry_high'', PDecimal (entry_high l)),
      (''stop'', PDecimal (stop l)),
      (''target'', PDecimal (target l)),
      (''estimated_cost_bps'', PDecimal (estimated_cost_bps l))]"

definition mk_trade_levels :: "trade_levels \<Rightarrow> trade_levels res" where
  "mk_trade_levels l = guards
     [sig_positive (entry_low l) ''levels.entry_low'',
      sig_positive (entry_high l) ''levels.entry_high'',
      sig_positive (target l) ''levels.target'',
      (stop l \<le> 0, DeterministicSwingSignalError ''ATR stop is non-positive''),
      (estimated_cost_bps l < 0,
         DeterministicSwingSignalError ''levels.estimated_cost_bps cannot be negative'')]
     (Inr (l\<lparr>levels_id := fields_id (levels_material l)\<rparr>))"

definition verify_levels :: "trade_levels \<Rightarrow> unit res" where
  "verify_levels l = guards [(levels_id l \<noteq> fields_id (levels_material l),
     DeterministicSwingSignalError ''trade levels content identity failed'')] (Inr ())"

definition per_ten_thousand :: decimal where
  "per_ten_thousand = Dec False 10000 0"

definition cost_per_share :: "trade_levels \<Rightarrow> decimal" where
  "cost_per_share l = dquot (entry_high l * estimated_cost_bps l) per_ten_thousand"

definition net_reward_risk :: "trade_levels \<Rightarrow> decimal res" where
  "net_reward_risk l = (let cost = cost_per_share l; loss = entry_high l - stop l + cost in
     ddiv (target l - entry_high l - cost) loss)"

definition calculate_swing_trade_levels ::
  "decimal \<Rightarrow> decimal \<Rightarrow> decimal \<Rightarrow> decimal \<Rightarrow> swing_config \<Rightarrow> trade_levels res" where
  "calculate_swing_trade_levels close tick atr_value cost_bps c = bindE (verify_config c) (\<lambda>_. guards
     [sig_positive close ''current_close'',
      sig_positive tick ''tick'',
      sig_positive atr_value ''atr'',
      (cost_bps < 0, DeterministicSwingSignalError ''estimated_cost_bps cannot be negative''),
      (\<not> deq close (tick_floor close tick), DeterministicSwingSignalError ''signal close is not tick-aligned'')]
     (let low = tick_floor close tick;
          high = tick_ceiling (close + entry_atr_buffer c * atr_value) tick;
          stop_level = tick_floor (low - stop_atr_multiple c * atr_value) tick;
          cost = dquot (high * cost_bps) per_ten_thousand;
          loss = high - stop_level + cost;
          target_level = tick_ceiling (high + cost + target_net_reward_risk c * loss) tick in
      mk_trade_levels \<lparr>entry_low = low, entry_high = high, stop = stop_level, target = target_level,
        estimated_cost_bps = cost_bps, levels_id = []\<rparr>))"

section \<open>Windows\<close>



lemma last_n_Nil: "0 < n \<Longrightarrow> last_n n xs = [] \<longleftrightarrow> xs = []"
  by (cases xs) (auto simp: last_n_def)

lemma length_last_n: "int (length xs) \<ge> n \<Longrightarrow> 0 \<le> n \<Longrightarrow> int (length (last_n n xs)) = n"
  by (simp add: last_n_def)

lemma set_last_n: "set (last_n n xs) \<subseteq> set xs"
  by (auto simp: last_n_def dest: in_set_dropD)

lemma config_ok:
  assumes "mk_swing_config c0 = Inr c"
  shows "0 < momentum_lookback_sessions c" "0 < trend_lookback_sessions c" "0 < atr_lookback_sessions c"
    "0 < volume_lookback_sessions c" "0 < breakout_lookback_sessions c"
    "momentum_lookback_sessions c + 1 \<le> required_sessions c" "trend_lookback_sessions c \<le> required_sessions c"
    "atr_lookback_sessions c + 1 \<le> required_sessions c" "volume_lookback_sessions c + 1 \<le> required_sessions c"
    "breakout_lookback_sessions c + 1 \<le> required_sessions c" "required_sessions c \<le> minimum_history_sessions c"
    "0 < entry_atr_buffer c" "0 < stop_atr_multiple c" "0 < target_net_reward_risk c"
    "0 < base_round_trip_cost_bps c" "verify_config c = Inr ()"
proof -
  have g: "\<forall>g \<in> set (config_guards c0). \<not> fst g" and c: "c = c0\<lparr>config_id := fields_id (config_material c0)\<rparr>"
    using assms by (auto simp: mk_swing_config_def guards_Inr_iff)
  have r: "required_sessions c = required_sessions c0" by (simp add: c required_sessions_def)
  have same: "momentum_lookback_sessions c = momentum_lookback_sessions c0" "trend_lookback_sessions c = trend_lookback_sessions c0"
    "atr_lookback_sessions c = atr_lookback_sessions c0" "volume_lookback_sessions c = volume_lookback_sessions c0"
    "breakout_lookback_sessions c = breakout_lookback_sessions c0" "minimum_history_sessions c = minimum_history_sessions c0"
    "entry_atr_buffer c = entry_atr_buffer c0" "stop_atr_multiple c = stop_atr_multiple c0"
    "target_net_reward_risk c = target_net_reward_risk c0" "base_round_trip_cost_bps c = base_round_trip_cost_bps c0"
    by (simp_all add: c)
  have all: "0 < momentum_lookback_sessions c \<and> 0 < trend_lookback_sessions c \<and> 0 < atr_lookback_sessions c
    \<and> 0 < volume_lookback_sessions c \<and> 0 < breakout_lookback_sessions c \<and> required_sessions c \<le> minimum_history_sessions c
    \<and> 0 < entry_atr_buffer c \<and> 0 < stop_atr_multiple c \<and> 0 < target_net_reward_risk c \<and> 0 < base_round_trip_cost_bps c"
    using g unfolding r same
    by (simp add: config_guards_def positive_int_def sig_positive_def le_iff_dval less_iff_dval not_le not_less)
  show "0 < momentum_lookback_sessions c" "0 < trend_lookback_sessions c" "0 < atr_lookback_sessions c"
    "0 < volume_lookback_sessions c" "0 < breakout_lookback_sessions c" "required_sessions c \<le> minimum_history_sessions c"
    "0 < entry_atr_buffer c" "0 < stop_atr_multiple c" "0 < target_net_reward_risk c" "0 < base_round_trip_cost_bps c"
    using all by blast+
  show "momentum_lookback_sessions c + 1 \<le> required_sessions c" "trend_lookback_sessions c \<le> required_sessions c"
    "atr_lookback_sessions c + 1 \<le> required_sessions c" "volume_lookback_sessions c + 1 \<le> required_sessions c"
    "breakout_lookback_sessions c + 1 \<le> required_sessions c"
    by (simp_all add: required_sessions_def)
  show "verify_config c = Inr ()" by (simp add: c verify_config_def config_material_def)
qed

section \<open>Scores lie between zero and one\<close>

definition unit_value :: "decimal \<Rightarrow> bool" where
  "unit_value v = (0 \<le> v \<and> v \<le> 1)"

lemma clamp_unit_unit [simp]: "unit_value (clamp_unit v)"
  by (simp add: unit_value_def clamp_unit_def le_iff_dval dval_py_max dval_py_min)

lemma rises_bounds: "0 \<le> rises bs \<and> rises bs \<le> int (length bs) - 1 \<or> bs = []"
  by (induction bs rule: rises.induct) auto

lemma dquot_unit:
  assumes "\<not> dzero b" and "0 \<le> dval a" and "dval a \<le> dval b"
  shows "unit_value (dquot a b)"
proof -
  have b: "0 < dval b" using assms dval_zero_iff [of b] by auto
  have "dval (dquot a b) \<le> dval 1" using assms b by (intro dquot_le) simp_all
  moreover have "0 \<le> dval (dquot a b)" using assms b by (intro dquot_nonneg) simp_all
  ultimately show ?thesis by (simp add: unit_value_def le_iff_dval)
qed

lemma unit_third:
  assumes "unit_value a" "unit_value b" "unit_value c"
  shows "unit_value (dquot (a + b + c) (dec_of_int 3))"
proof -
  have ab: "0 \<le> dval (a + b)" "dval (a + b) \<le> 2"
    using assms plus_le [OF repr_of_nat, of 2 a b] by (simp_all add: unit_value_def le_iff_dval plus_nonneg)
  have "0 \<le> dval (a + b + c)" "dval (a + b + c) \<le> dval (dec_of_int 3)"
    using assms ab plus_le [OF repr_of_nat, of 3 "a + b" c] by (simp_all add: unit_value_def le_iff_dval plus_nonneg)
  then show ?thesis by (intro dquot_unit) (simp_all add: dzero_def dec_of_int_def)
qed

lemma trend_score_unit:
  assumes t: "trend_score c bs = Inr t" and bs: "bs \<noteq> []" and n: "0 < trend_lookback_sessions c"
  shows "unit_value t"
proof -
  let ?w = "last_n (trend_lookback_sessions c) bs"
  have w: "?w \<noteq> []" using bs n by (simp add: last_n_Nil)
  from t obtain p o1 o2 where p: "ddiv (dec_of_int (rises ?w)) (dec_of_int (int (length ?w) - 1)) = Inr p"
    and t': "t = dquot (p + clamp_unit o1 + clamp_unit o2) (dec_of_int 3)"
    by (auto simp: trend_score_def Let_def res_simps)
  have nz: "\<not> dzero (dec_of_int (int (length ?w) - 1))" and pq: "p = dquot (dec_of_int (rises ?w)) (dec_of_int (int (length ?w) - 1))"
    using p by (auto simp: ddiv_def split: if_splits)
  have r: "0 \<le> rises ?w" "rises ?w \<le> int (length ?w) - 1" using rises_bounds [of ?w] w by simp_all
  then have "(of_int (rises ?w) :: rat) \<le> of_int (int (length ?w) - 1)" by (simp only: of_int_le_iff)
  then have "unit_value p" unfolding pq using r(1) nz by (intro dquot_unit) simp_all
  then show ?thesis unfolding t' by (intro unit_third) simp_all
qed

section \<open>Properties of the metrics\<close>


text \<open>The metrics that are returned are scores in the unit interval with a positive average
  true range, and they cite exactly the \<open>required_sessions\<close> most recent bars, all different.\<close>

theorem metrics_well_formed:
  assumes c: "mk_swing_config c0 = Inr c" and m: "calculate_swing_technical_metrics h c = Inr m"
  shows "list_all unit_value [trend_quality m, volume_confirmation m, relative_strength m, liquidity_quality m]
    \<and> 0 < atr m \<and> 0 \<le> median_traded_value m
    \<and> metric_evidence_ids m = map evidence_id (last_n (required_sessions c) (bars h))
    \<and> int (length (metric_evidence_ids m)) = required_sessions c \<and> distinct (metric_evidence_ids m)
    \<and> metrics_id m = fields_id (metrics_material m)"
proof -
  note k = config_ok [OF c]
  from m obtain t x y z m0 where len: "\<not> int (length (bars h)) < minimum_history_sessions c"
    and t: "trend_score c (bars h) = Inr t" and mk: "mk_swing_metrics m0 = Inr m"
    and m0: "trend_quality m0 = t" "volume_confirmation m0 = clamp_unit x" "relative_strength m0 = clamp_unit y"
      "liquidity_quality m0 = clamp_unit z"
      "metric_evidence_ids m0 = map evidence_id (last_n (required_sessions c) (bars h))"
    by (auto simp: calculate_swing_technical_metrics_def Let_def res_simps)
  have "bars h \<noteq> []" using len k by auto
  then have "unit_value t" by (rule trend_score_unit [OF t _ k(2)])
  moreover have "int (length (last_n (required_sessions c) (bars h))) = required_sessions c"
    using len k by (intro length_last_n) simp_all
  ultimately show ?thesis using mk m0
    by (auto simp: mk_swing_metrics_def guards_Inr_iff le_iff_dval less_iff_dval metrics_material_def)
qed

section \<open>Levels of bounded prices\<close>

definition fine_tick :: "decimal \<Rightarrow> nat \<Rightarrow> bool" where
  \<comment> \<open>a tick of \<open>D\<close> hundredths of a paisa, at most a hundred rupees\<close>
  "fine_tick tick D = (0 < D \<and> D \<le> 10 ^ 6 \<and> dval tick = of_nat D * 10 powi (-4))"

lemma fine_tick_pos: "fine_tick tick D \<Longrightarrow> 0 < tick"
  by (simp add: fine_tick_def less_iff_dval)

lemma ceiling_bounded:
  assumes t: "fine_tick tick D" and v: "0 \<le> dval v" "dval v \<le> 10 ^ 6"
  shows "\<exists>n. dval (tick_ceiling v tick) = of_nat n * dval tick \<and> n * D \<le> 10 ^ 10 + 10 ^ 6"
proof -
  let ?M = "10 ^ 10 div D + 1"
  have D: "0 < D" "D \<le> 10 ^ 6" and td: "dval tick = of_nat D * 10 powi (-4)" using t by (simp_all add: fine_tick_def)
  have tick: "0 < dval tick" "\<not> dzero tick" using fine_tick_pos [OF t] by (simp_all add: tick_pos)
  have "10 ^ 10 \<le> ?M * D" using dividend_less_div_times [OF D(1), of "10 ^ 10"] by simp
  then have "(of_nat (10 ^ 10) :: rat) \<le> of_nat ?M * of_nat D" by (simp only: of_nat_le_iff of_nat_mult [symmetric])
  then have "dval v \<le> of_nat ?M * (of_nat D * 10 powi (-4))" using v by simp
  then have "dval v \<le> of_nat ?M * dval tick" by (simp only: td)
  then have "dval v / dval tick \<le> of_nat ?M" using tick(1) by (simp add: divide_le_eq)
  moreover have "10 ^ 10 div D \<le> (10 ^ 10 :: nat)" by (rule div_le_dividend)
  then have "?M < 10 ^ 28" by (rule le_less_trans [OF add_le_mono1]) simp
  ultimately have q: "dval (dquot v tick) \<le> of_nat ?M"
    using dquot_le [OF tick(2) repr_of_nat [of ?M], of v] by simp
  have q0: "0 \<le> dval (dquot v tick)" using v tick by (intro dquot_nonneg) simp_all
  obtain z :: int where z: "dval (to_integral Ceiling (dquot v tick)) = of_int z" using to_integral_int by blast
  have "(0 :: rat) \<le> of_int z" "(of_int z :: rat) < of_int (int ?M + 1)"
    using to_integral_ceiling [of "dquot v tick"] q q0 z by simp_all
  then have zb: "0 \<le> z" "z < int ?M + 1" by (simp_all only: of_int_0_le_iff of_int_less_iff)
  have "nat z \<le> ?M" using zb by linarith
  then have "nat z * D \<le> ?M * D" by (rule mult_le_mono1)
  also have "\<dots> \<le> 10 ^ 10 + D" by (simp add: add_mult_distrib)
  finally have n: "nat z * D \<le> 10 ^ 10 + 10 ^ 6" using D(2) by linarith
  have "dval (to_integral Ceiling (dquot v tick)) = of_nat (nat z)" using z zb by simp
  moreover have "nat z * D < 10 ^ 28" using n by simp
  ultimately have "dval (tick_ceiling v tick) = of_nat (nat z) * dval tick"
    unfolding tick_ceiling_def by (rule tick_product [OF _ td])
  then show ?thesis using n by blast
qed

lemma floor_below:
  assumes t: "fine_tick tick D" and v: "dval v \<le> of_nat k * dval tick" and k: "k * D < 10 ^ 28"
    and pos: "0 < dval (tick_floor v tick)"
  shows "\<exists>n \<le> k. dval (tick_floor v tick) = of_nat n * dval tick"
proof -
  have D: "0 < D" and td: "dval tick = of_nat D * 10 powi (-4)" using t by (simp_all add: fine_tick_def)
  have tick: "0 < dval tick" "\<not> dzero tick" using fine_tick_pos [OF t] by (simp_all add: tick_pos)
  have "k \<le> k * D" using D by simp
  then have k28: "k < 10 ^ 28" using k by linarith
  have "dval v / dval tick \<le> of_nat k" using v tick(1) by (simp add: divide_le_eq)
  then have q: "dval (dquot v tick) \<le> of_nat k" using dquot_le [OF tick(2) repr_of_nat [OF k28], of v] by simp
  obtain z :: int where z: "dval (to_integral Floor (dquot v tick)) = of_int z" using to_integral_int by blast
  have "(of_int z :: rat) \<le> of_int (int k)" using to_integral_floor(1) [of "dquot v tick"] q z by simp
  then have zk: "z \<le> int k" by (simp only: of_int_le_iff)
  have "0 < z"
  proof (rule ccontr)
    assume "\<not> 0 < z"
    then have "dval (to_integral Floor (dquot v tick)) * dval tick \<le> dval 0"
      using z tick(1) by (simp add: mult_nonpos_nonneg)
    then have "dval (tick_floor v tick) \<le> dval 0" unfolding tick_floor_def by (rule times_le [OF repr_zero])
    then show False using pos by simp
  qed
  then have n: "dval (to_integral Floor (dquot v tick)) = of_nat (nat z)" "nat z \<le> k" using z zk by simp_all
  have "nat z * D \<le> k * D" using n(2) by simp
  then have "nat z * D < 10 ^ 28" using k by linarith
  then have "dval (tick_floor v tick) = of_nat (nat z) * dval tick"
    unfolding tick_floor_def by (rule tick_product [OF n(1) td])
  then show ?thesis using n(2) by blast
qed

definition bounded_level_inputs :: "decimal \<Rightarrow> decimal \<Rightarrow> decimal \<Rightarrow> decimal \<Rightarrow> swing_config \<Rightarrow> bool" where
  \<comment> \<open>the signal close is a whole number of ticks of at most four decimals, prices stay below a
    million rupees, the cost below ten thousand basis points and the reward multiple below a
    hundred, both with at most four decimals\<close>
  "bounded_level_inputs close tick atr_value cost_bps c =
     ((\<exists>D. fine_tick tick D) \<and> ticks close tick \<and> dval (close + entry_atr_buffer c * atr_value) \<le> 10 ^ 6
      \<and> on_grid (-4) (10 ^ 8) cost_bps \<and> on_grid (-4) (10 ^ 6) (target_net_reward_risk c))"

lemma target_argument:
  assumes gh: "on_grid (-4) (2 * 10 ^ 10) high" and gs: "on_grid (-4) (2 * 10 ^ 10) st"
    and cb: "on_grid (-4) (10 ^ 8) bps" and rr: "on_grid (-4) (10 ^ 6) R"
  defines "cost \<equiv> dquot (high * bps) per_ten_thousand"
  shows "dval cost = dval high * dval bps / 10000"
    and "dval (high - st + cost) = dval high - dval st + dval cost"
    and "dval (high + cost + R * (high - st + cost))
      = dval high + dval cost + dval R * (dval high - dval st + dval cost)"
    and "on_grid (-16) (7 * 10 ^ 24) (high + cost + R * (high - st + cost))"
proof -
  have "on_grid (-8) (2 * 10 ^ 18) (high * bps)" and "dval (high * bps) = dval high * dval bps"
    using on_grid_times [OF gh cb] by simp_all
  then have gc: "on_grid (-12) (2 * 10 ^ 18) cost" and vc: "dval cost = dval high * dval bps / 10000"
    using on_grid_ten_thousandth [of "-8" "2 * 10 ^ 18" "high * bps"] dquot_ten_thousand [of "high * bps"]
    by (simp_all add: per_ten_thousand_def cost_def)
  have d: "dval (high - st) = dval high - dval st" "on_grid (-4) (4 * 10 ^ 10) (high - st)"
    using on_grid_minus [OF gh gs] by simp_all
  have "on_grid (-12) (4 * 10 ^ 18) (high - st)" using on_grid_shift [OF d(2), of "-12"] by simp
  then have gl: "on_grid (-12) (6 * 10 ^ 18) (high - st + cost)"
    and vl: "dval (high - st + cost) = dval high - dval st + dval cost"
    using on_grid_plus [OF _ gc, of "4 * 10 ^ 18" "high - st"] d(1) by simp_all
  have gr: "on_grid (-16) (6 * 10 ^ 24) (R * (high - st + cost))"
    and vr: "dval (R * (high - st + cost)) = dval R * dval (high - st + cost)"
    using on_grid_times [OF rr gl] by simp_all
  have "on_grid (-12) (2 * 10 ^ 18) high" using on_grid_shift [OF gh, of "-12"] by simp
  then have s1: "on_grid (-12) (4 * 10 ^ 18) (high + cost)" "dval (high + cost) = dval high + dval cost"
    using on_grid_plus [OF _ gc, of "2 * 10 ^ 18" high] by simp_all
  have "on_grid (-16) (4 * 10 ^ 22) (high + cost)" using on_grid_shift [OF s1(1), of "-16"] by simp
  then have "on_grid (-16) (4 * 10 ^ 22 + 6 * 10 ^ 24) (high + cost + R * (high - st + cost))"
    and "dval (high + cost + R * (high - st + cost)) = dval high + dval cost + dval R * dval (high - st + cost)"
    using on_grid_plus [OF _ gr, of "4 * 10 ^ 22" "high + cost"] s1(2) vr by simp_all
  then show "dval (high + cost + R * (high - st + cost))
      = dval high + dval cost + dval R * (dval high - dval st + dval cost)"
    and "on_grid (-16) (7 * 10 ^ 24) (high + cost + R * (high - st + cost))"
    using vl by (simp_all add: on_grid_mono)
  show "dval cost = dval high * dval bps / 10000" "dval (high - st + cost) = dval high - dval st + dval cost"
    by (rule vc, rule vl)
qed

lemma repr_tick: "repr (tick_floor v tick)" "repr (tick_ceiling v tick)"
  by (simp_all add: tick_floor_def tick_ceiling_def)

lemma ticksI:
  assumes "dval v = of_nat n * dval tick" and "repr v" and "0 < dval v" and "n < 10 ^ 28"
  shows "ticks v tick"
proof -
  have "0 < n" using assms(1,3) by (cases n) simp_all
  then show ?thesis using assms by (auto simp: ticks_def)
qed

lemma ceiling_of_argument:
  assumes t: "fine_tick tick D" and g: "on_grid (-16) (7 * 10 ^ 24) v" and pos: "0 < dval v"
  shows "dval v \<le> dval (tick_ceiling v tick)" and "dval (tick_ceiling v tick) < dval v + dval tick"
    and "ticks (tick_ceiling v tick) tick"
proof -
  have D: "0 < D * 10 ^ 12" "D * 10 ^ 12 \<le> 10 ^ 18" and td: "dval tick = of_nat D * 10 powi (-4)"
    using t by (simp_all add: fine_tick_def)
  obtain z :: int where z: "\<bar>z\<bar> \<le> int (7 * 10 ^ 24)" "dval v = of_int z * 10 powi (-16)"
    using g by (auto elim: on_gridE)
  have "0 < z" using z(2) pos zero_less_mult_pos2 [OF pos [unfolded z(2)] powi10_pos] by simp
  then have v: "dval v = of_nat (nat z) * 10 powi (-16)" and n: "nat z \<le> 7 * 10 ^ 24" using z by simp_all
  have room: "nat z + D * 10 ^ 12 \<le> 10 ^ 27"
    by (rule order_trans [OF add_mono [OF n D(2)]]) simp
  have td16: "dval tick = of_nat (D * 10 ^ 12) * 10 powi (-16)" using td powi10_split [of "-16" "-4"] by simp
  show "dval v \<le> dval (tick_ceiling v tick)" "dval (tick_ceiling v tick) < dval v + dval tick"
    by (rule tick_ceiling_grid_bounds [OF v td16 D(1) room])+
  then have "0 < dval (tick_ceiling v tick)" using pos by linarith
  moreover have "ceil_div (nat z) (D * 10 ^ 12) < 10 ^ 28"
  proof -
    have "ceil_div (nat z) (D * 10 ^ 12) \<le> ceil_div (nat z) (D * 10 ^ 12) * (D * 10 ^ 12)" using D(1) by simp
    also have "\<dots> < nat z + D * 10 ^ 12" by (rule ceil_div_bounds [OF D(1)])
    also have "\<dots> \<le> 10 ^ 28" by (rule le_trans [OF room]) simp
    finally show ?thesis .
  qed
  ultimately show "ticks (tick_ceiling v tick) tick"
    by (intro ticksI [OF tick_ceiling_grid [OF v td16 D(1) room]]) (simp_all add: repr_tick)
qed

lemma entry_and_stop:
  assumes t: "fine_tick tick D" and close: "ticks close tick" and lim: "dval (close + buffer) \<le> 10 ^ 6"
    and buffer: "0 \<le> dval buffer" and d: "0 \<le> dval distance"
  defines "low \<equiv> tick_floor close tick" and "high \<equiv> tick_ceiling (close + buffer) tick"
  defines "st \<equiv> tick_floor (low - distance) tick"
  assumes pos: "0 < dval st"
  shows "dval low = dval close" and "dval close \<le> dval high" and "dval st \<le> dval close"
    and "dval tick \<le> dval distance \<Longrightarrow> dval st < dval close"
    and "on_grid (-4) (2 * 10 ^ 10) high" and "on_grid (-4) (2 * 10 ^ 10) st"
    and "ticks low tick" and "ticks high tick" and "ticks st tick"
proof -
  have D: "0 < D" "D \<le> 10 ^ 6" and td: "dval tick = of_nat D * 10 powi (-4)" using t by (simp_all add: fine_tick_def)
  have tick: "0 < tick" "0 < dval tick" using fine_tick_pos [OF t] by (simp_all add: tick_pos)
  show low: "dval low = dval close" unfolding low_def by (rule tick_floor_exact [OF close tick(1)]) simp
  obtain kc where kc: "0 < kc" "dval close = of_nat kc * dval tick" using close by (auto simp: ticks_def)
  have sum: "dval close \<le> dval (close + buffer)" using close buffer by (intro plus_ge) (simp_all add: ticks_def)
  show high: "dval close \<le> dval high" unfolding high_def by (rule tick_ceiling_ge [OF close tick(1) sum])
  have "0 \<le> dval (close + buffer)" using ticks_pos [OF close tick(1)] sum by linarith
  then obtain nh where nh: "dval high = of_nat nh * dval tick" "nh * D \<le> 10 ^ 10 + 10 ^ 6"
    using ceiling_bounded [OF t _ lim] unfolding high_def by blast
  have "of_nat kc * dval tick \<le> of_nat nh * dval tick" using high kc nh by simp
  then have "kc \<le> nh" using tick(2) by simp
  then have kcD: "kc * D \<le> 10 ^ 10 + 10 ^ 6" using nh(2) by (meson le_trans mult_le_mono1)
  then have kb: "kc * D < 10 ^ 28" by (rule le_less_trans) simp
  have below: "\<exists>n \<le> k. dval st = of_nat n * dval tick"
    if k: "k \<le> kc" and v: "dval low - dval distance \<le> of_nat k * dval tick" for k
  proof -
    have "k * D \<le> kc * D" using k by simp
    then have kd: "k * D < 10 ^ 28" using kb by linarith
    have g: "dval (grid_point (-4) (int (k * D))) = of_nat k * dval tick" using td by simp
    have "repr (grid_point (-4) (int (k * D)))" using repr_grid_point [OF _ kd] by simp
    from minus_le [OF this] v have "dval (low - distance) \<le> of_nat k * dval tick" unfolding g .
    then show ?thesis using floor_below [OF t _ kd] pos unfolding st_def by blast
  qed
  have "dval low - dval distance \<le> of_nat kc * dval tick" using low kc d by simp
  from below [OF _ this] obtain ns where ns: "ns \<le> kc" "dval st = of_nat ns * dval tick" by blast
  then show "dval st \<le> dval close" using kc tick(2) by simp
  show "dval st < dval close" if s: "dval tick \<le> dval distance"
  proof -
    have "of_nat (kc - 1) = (of_nat kc - 1 :: rat)" using kc(1) by (simp add: of_nat_diff)
    then have "dval low - dval distance \<le> of_nat (kc - 1) * dval tick"
      using low kc(2) s by (simp add: left_diff_distrib)
    from below [OF _ this] obtain m where "m \<le> kc - 1" "dval st = of_nat m * dval tick" by auto
    then show ?thesis using kc tick(2) by simp
  qed
  have gridI: "on_grid (-4) (2 * 10 ^ 10) v" if "dval v = of_nat n * dval tick" "n * D \<le> 10 ^ 10 + 10 ^ 6" for v n
  proof -
    have "on_grid (-4) (n * D) v" using that(1) td unfolding on_grid_def by (intro exI [of _ "int (n * D)"]) simp
    then show ?thesis by (rule on_grid_mono) (rule le_trans [OF that(2)], simp)
  qed
  show "on_grid (-4) (2 * 10 ^ 10) high" by (rule gridI [OF nh])
  have nsD: "ns * D \<le> kc * D" using ns(1) by simp
  then show "on_grid (-4) (2 * 10 ^ 10) st" by (rule gridI [OF ns(2) le_trans [OF _ kcD]])
  have few: "n < 10 ^ 28" if "n * D \<le> 10 ^ 10 + 10 ^ 6" for n
  proof -
    have "n \<le> n * D" using D(1) by simp
    also have "\<dots> < 10 ^ 28" by (rule le_less_trans [OF that]) simp
    finally show ?thesis .
  qed
  show "ticks low tick" by (rule ticks_value [OF close low]) (simp add: low_def repr_tick)
  show "ticks high tick"
    by (rule ticksI [OF nh(1) _ _ few [OF nh(2)]]) (use high ticks_pos [OF close tick(1)] in \<open>simp_all add: high_def repr_tick\<close>)
  show "ticks st tick"
    by (rule ticksI [OF ns(2) _ pos few [OF le_trans [OF nsD kcD]]]) (simp add: st_def repr_tick)
qed

text \<open>C29: The level kernel builds ordered levels, each a positive whole number of ticks, that preserve the
  promised net reward for the risk: exactly, cost included, the reward to the target is at least the configured multiple
  of the loss at the stop, and the target is the lowest tick with that property.  A stop
  distance of a tick or more puts the stop strictly below the entry zone.\<close>

theorem levels_keep_reward_risk:
  assumes c: "mk_swing_config c0 = Inr c"
    and b: "bounded_level_inputs close tick atr_value cost_bps c"
    and l: "calculate_swing_trade_levels close tick atr_value cost_bps c = Inr l"
  defines "cost \<equiv> dval (entry_high l) * dval cost_bps / 10000"
  shows "dval (entry_low l) = dval close \<and> 0 < stop l \<and> stop l \<le> entry_low l
    \<and> entry_low l \<le> entry_high l \<and> entry_high l \<le> target l
    \<and> ticks (entry_low l) tick \<and> ticks (entry_high l) tick \<and> ticks (stop l) tick \<and> ticks (target l) tick
    \<and> (dval tick \<le> dval (stop_atr_multiple c * atr_value) \<longrightarrow> stop l < entry_low l)
    \<and> dval (target_net_reward_risk c) * (dval (entry_high l) - dval (stop l) + cost)
        \<le> dval (target l) - dval (entry_high l) - cost
    \<and> dval (target l) - dval tick - dval (entry_high l) - cost
        < dval (target_net_reward_risk c) * (dval (entry_high l) - dval (stop l) + cost)"
proof -
  note k = config_ok [OF c]
  from b obtain D where t: "fine_tick tick D" and close: "ticks close tick"
    and lim: "dval (close + entry_atr_buffer c * atr_value) \<le> 10 ^ 6"
    and cb: "on_grid (-4) (10 ^ 8) cost_bps" and rr: "on_grid (-4) (10 ^ 6) (target_net_reward_risk c)"
    by (auto simp: bounded_level_inputs_def)
  let ?low = "tick_floor close tick"
  let ?high = "tick_ceiling (close + entry_atr_buffer c * atr_value) tick"
  let ?stop = "tick_floor (?low - stop_atr_multiple c * atr_value) tick"
  let ?cost = "dquot (?high * cost_bps) per_ten_thousand"
  let ?arg = "?high + ?cost + target_net_reward_risk c * (?high - ?stop + ?cost)"
  have lv: "entry_low l = ?low" "entry_high l = ?high" "stop l = ?stop" "target l = tick_ceiling ?arg tick"
    and pos: "0 < atr_value" "0 \<le> cost_bps" "0 < ?stop"
    using l k(16) by (auto simp: calculate_swing_trade_levels_def mk_trade_levels_def Let_def guards_Inr_iff
        sig_positive_def le_iff_dval less_iff_dval)
  have nn: "0 \<le> dval (entry_atr_buffer c * atr_value)" "0 \<le> dval (stop_atr_multiple c * atr_value)"
    using k(12,13) pos(1) by (simp_all add: times_nonneg less_iff_dval)
  have sp: "0 < dval ?stop" using pos(3) by (simp add: less_iff_dval)
  note e = entry_and_stop [OF t close lim nn sp]
  note a = target_argument [OF e(5,6) cb rr]
  have c0: "0 \<le> dval ?cost"
    unfolding a(1) using pos(2) ticks_pos [OF close fine_tick_pos [OF t]] e(2) by (simp add: le_iff_dval)
  have "0 \<le> dval (target_net_reward_risk c) * (dval ?high - dval ?stop + dval ?cost)"
    using e(2,3) c0 k(14) by (intro mult_nonneg_nonneg) (simp_all add: less_iff_dval)
  then have high: "dval ?high \<le> dval ?arg" using a(3) c0 by linarith
  then have "0 < dval ?arg" using e(2) ticks_pos [OF close fine_tick_pos [OF t]] by linarith
  note T = ceiling_of_argument [OF t a(4) this]
  have cost_eq: "cost = dval ?cost" by (simp add: cost_def lv a(1))
  show ?thesis
    using e(1,2,3,4) sp T(1,2) high a(3)
    unfolding lv cost_eq le_iff_dval less_iff_dval dval_zero by (intro conjI impI e(7,8,9) T(3)) linarith+
qed

section \<open>Witnesses\<close>

definition tiny_config :: swing_config where
  "tiny_config = default_swing_config\<lparr>minimum_history_sessions := 2, momentum_lookback_sessions := 1,
     trend_lookback_sessions := 2, atr_lookback_sessions := 1, volume_lookback_sessions := 1,
     breakout_lookback_sessions := 1\<rparr>"

definition sealed_config :: "swing_config \<Rightarrow> swing_config" where
  "sealed_config c = c\<lparr>config_id := fields_id (config_material c)\<rparr>"

lemma tiny_config_made: "mk_swing_config tiny_config = Inr (sealed_config tiny_config)"
  by (simp add: mk_swing_config_def config_guards_def tiny_config_def default_swing_config_def sealed_config_def
      positive_int_def sig_positive_def le_iff_dval dval_Dec required_sessions_def)

lemma default_config_made: "mk_swing_config default_swing_config = Inr (sealed_config default_swing_config)"
  by (simp add: mk_swing_config_def config_guards_def default_swing_config_def sealed_config_def
      positive_int_def sig_positive_def le_iff_dval dval_Dec required_sessions_def)

definition demo_swing_bar :: "nat \<Rightarrow> nat \<Rightarrow> swing_bar" where
  "demo_swing_bar d close = (let b = \<lparr>market_session = Date 2026 3 d, open_price = Dec False 100 0,
     high_price = Dec False 120 0, low_price = Dec False 90 0, close_price = Dec False close 0,
     volume = Dec False 10 0, traded_value = Dec False 1000 0, available_at = int d,
     evidence_id = ''bar'' @ [char_of (48 + d)], content_hash = ''x'', swing_bar_id = []\<rparr>
     in b\<lparr>swing_bar_id := fields_id (swing_bar_material b)\<rparr>)"

definition demo_swing_history :: "swing_bar list \<Rightarrow> swing_history" where
  "demo_swing_history bs = (let h = \<lparr>instrument_id = ''I'', listing_id = ''L'', tick_size = Dec False 5 (-2),
     tick_available_at = 0, tick_evidence_id = ''tick'', tick_content_hash = ''t'', adjustment_available_at = 0,
     adjustment_evidence_id = ''adj'', adjustment_content_hash = ''a'',
     price_basis = ''CORPORATE_ACTION_ADJUSTED_AS_OF_CUTOFF'', bars = bs, history_id = []\<rparr>
     in h\<lparr>history_id := fields_id (history_material h)\<rparr>)"

lemma demo_bar_verifies: "verify_swing_bar (demo_swing_bar d x) = Inr ()"
  by (simp add: verify_swing_bar_def demo_swing_bar_def Let_def swing_bar_material_def)

lemma demo_bars [simp]: "bars (demo_swing_history bs) = bs"
  by (simp add: demo_swing_history_def Let_def)

lemma demo_history_verifies:
  "\<forall>b \<in> set bs. verify_swing_bar b = Inr () \<Longrightarrow> verify_history (demo_swing_history bs) = Inr ()"
proof -
  assume "\<forall>b \<in> set bs. verify_swing_bar b = Inr ()"
  then have "verify_bars bs = Inr ()"
    unfolding verify_bars_def by (induction bs) (auto simp: bindE_def split: sum.splits)
  then show ?thesis
    by (simp add: verify_history_def) (simp add: demo_swing_history_def Let_def history_material_def)
qed

lemma tiny_required: "required_sessions (sealed_config tiny_config) = 2"
    "minimum_history_sessions (sealed_config tiny_config) = 2"
  by (simp_all add: required_sessions_def sealed_config_def tiny_config_def default_swing_config_def)


lemma demo_bar_fields [simp]:
  "close_price (demo_swing_bar d x) = Dec False x 0" "high_price (demo_swing_bar d x) = Dec False 120 0"
  "low_price (demo_swing_bar d x) = Dec False 90 0" "volume (demo_swing_bar d x) = Dec False 10 0"
  "traded_value (demo_swing_bar d x) = Dec False 1000 0" "evidence_id (demo_swing_bar d x) = ''bar'' @ [char_of (48 + d)]"
  by (simp_all add: demo_swing_bar_def Let_def)

lemma tiny_fields [simp]:
  "momentum_lookback_sessions (sealed_config tiny_config) = 1" "trend_lookback_sessions (sealed_config tiny_config) = 2"
  "atr_lookback_sessions (sealed_config tiny_config) = 1" "volume_lookback_sessions (sealed_config tiny_config) = 1"
  "breakout_lookback_sessions (sealed_config tiny_config) = 1"
  "full_momentum_score (sealed_config tiny_config) = Dec False 10 (-2)"
  "minimum_daily_traded_value (sealed_config tiny_config) = Dec False 10000000 0"
  by (simp_all add: sealed_config_def tiny_config_def default_swing_config_def)

lemma demo_true_range:
  "true_ranges [demo_swing_bar 2 100, demo_swing_bar 3 110] = [Dec False 30 0]"
  by (simp add: minus_decimal_def dplus_exact_def copy_negate_def daligned_def dint_def Let_def dec_fix_exact
      repr_def prec_def abs_decimal_def py_max_def less_iff_dval dval_Dec)

theorem metrics_well_formed_witness:
  "\<exists>m. calculate_swing_technical_metrics (demo_swing_history [demo_swing_bar 2 100, demo_swing_bar 3 110])
      (sealed_config tiny_config) = Inr m \<and> 0 < atr m \<and> metric_evidence_ids m = [''bar2'', ''bar3'']"
proof -
  let ?bs = "[demo_swing_bar 2 100, demo_swing_bar 3 110]" and ?c = "sealed_config tiny_config"
  have v: "verify_history (demo_swing_history ?bs) = Inr ()"
    by (rule demo_history_verifies) (simp add: demo_bar_verifies)
  have k: "verify_config ?c = Inr ()" by (rule config_ok(16) [OF tiny_config_made])
  have w: "last_n 2 ?bs = ?bs" "last_n 1 ?bs = [demo_swing_bar 3 110]" by (simp_all add: last_n_def)
  have mean: "0 < dval (dquot (0 + Dec False 30 0) (dec_of_int 1))"
    using plus_pos [of 0 "Dec False 30 0"] by (intro dquot_pos) (simp_all add: dzero_def dec_of_int_def dval_Dec)
  have avg: "dmean [Dec False 100 0, Dec False 110 0] = Inr (dquot (Dec False 210 0) (dec_of_int 2))"
    by (simp add: dmean_def plus_decimal_def zero_decimal_def dplus_exact_def daligned_def dint_def Let_def dec_fix_exact
        repr_def prec_def)
  have "0 < dval (dquot (Dec False 210 0) (dec_of_int 2))"
    by (rule dquot_pos) (simp_all add: dzero_def dec_of_int_def dval_Dec)
  then have nz: "\<not> dzero (dquot (Dec False 210 0) (dec_of_int 2))" by (auto simp flip: dval_zero_iff)
  have "\<exists>t. trend_score ?c ?bs = Inr t"
    using nz by (simp add: trend_score_def w ddiv_def avg dmax_list_def dzero_def dec_of_int_def Let_def)
  then obtain t where t: "trend_score ?c ?bs = Inr t" by blast
  have ids: "\<not> blank [CHR ''b'', CHR ''a'', CHR ''r'', char_of (50 :: nat)]
    \<and> \<not> blank [CHR ''b'', CHR ''a'', CHR ''r'', char_of (51 :: nat)]" by code_simp
  have "\<exists>m. calculate_swing_technical_metrics (demo_swing_history ?bs) ?c = Inr m"
    using mean t ids
    by (simp add: calculate_swing_technical_metrics_def v k tiny_required w ddiv_def dmedian_def demo_true_range
        dmean_def mk_swing_metrics_def dzero_def le_iff_dval less_iff_dval dval_Dec Let_def del: true_ranges.simps)
  then obtain m where m: "calculate_swing_technical_metrics (demo_swing_history ?bs) ?c = Inr m" by blast
  have "char_of (50 :: nat) = CHR ''2''" "char_of (51 :: nat) = CHR ''3''" by code_simp+
  then show ?thesis
    using metrics_well_formed [OF tiny_config_made m] m by (simp add: tiny_required w)
qed

lemma demo_level_inputs:
  "bounded_level_inputs (Dec False 100 0) (Dec False 5 (-2)) (Dec False 2 0) (Dec False 30 0)
     (sealed_config default_swing_config)"
proof -
  have "fine_tick (Dec False 5 (-2)) 500" by (simp add: fine_tick_def dval_Dec)
  moreover have "ticks (Dec False 100 0) (Dec False 5 (-2))"
    by (auto simp: ticks_def repr_def prec_def dval_Dec intro!: exI [of _ 2000])
  moreover have "dval (Dec False 100 0 + Dec False 10 (-2) * Dec False 2 0) \<le> 10 ^ 6"
    by (simp add: times_decimal_def dtimes_exact_def plus_decimal_def dplus_exact_def daligned_def dint_def Let_def
        dec_fix_exact repr_def prec_def dval_Dec)
  moreover have "on_grid (-4) (10 ^ 8) (Dec False 30 0)" "on_grid (-4) (10 ^ 6) (Dec False 250 (-2))"
    by (rule on_grid_mono [OF on_grid_shift [OF on_grid_Dec [OF order_refl]]]; simp)+
  ultimately show ?thesis
    unfolding bounded_level_inputs_def
    by (auto simp: sealed_config_def default_swing_config_def)
qed

lemma demo_levels:
  "\<exists>l. calculate_swing_trade_levels (Dec False 100 0) (Dec False 5 (-2)) (Dec False 2 0) (Dec False 30 0)
      (sealed_config default_swing_config) = Inr l"
proof -
  let ?c = "sealed_config default_swing_config" and ?t = "Dec False 5 (-2)"
  let ?low = "tick_floor (Dec False 100 0) ?t" and ?v = "Dec False 100 0"
  have c: "stop_atr_multiple ?c = Dec False 150 (-2)" "entry_atr_buffer ?c = Dec False 10 (-2)"
    "target_net_reward_risk ?c = Dec False 250 (-2)"
    by (simp_all add: sealed_config_def default_swing_config_def)
  have tk: "ticks ?v ?t" and ft: "fine_tick ?t 500"
    by (auto simp: ticks_def repr_def prec_def dval_Dec fine_tick_def intro!: exI [of _ 2000])
  have pos: "0 < ?t" by (rule fine_tick_pos [OF ft])
  have low: "dval ?low = 100" using tick_floor_exact [OF tk pos] by (simp add: dval_Dec)
  have m: "dval (Dec False 150 (-2) * Dec False 2 0) = 3"
    by (simp add: times_decimal_def dtimes_exact_def dec_fix_exact repr_def prec_def dval_Dec)
  have "dval (?low - Dec False 150 (-2) * Dec False 2 0) = 97"
    using minus_exact [of "Dec False 97 0" ?low] low m by (simp add: repr_def prec_def dval_Dec)
  then have stop: "dval (tick_floor (?low - Dec False 150 (-2) * Dec False 2 0) ?t) = 97"
    using tick_floor_exact [of "Dec False 97 0" ?t "?low - Dec False 150 (-2) * Dec False 2 0"] pos
    by (auto simp: ticks_def repr_def prec_def dval_Dec intro!: exI [of _ 1940])
  have nn: "0 \<le> dval (Dec False 10 (-2) * Dec False 2 0)" "0 \<le> dval (Dec False 150 (-2) * Dec False 2 0)"
    by (rule times_nonneg; simp add: dval_Dec)+
  have lim: "dval (?v + Dec False 10 (-2) * Dec False 2 0) \<le> 10 ^ 6"
    using demo_level_inputs c by (simp add: bounded_level_inputs_def)
  have sp: "0 < dval (tick_floor (?low - Dec False 150 (-2) * Dec False 2 0) ?t)" using stop by simp
  note e = entry_and_stop [OF ft tk lim nn sp]
  have cb: "on_grid (-4) (10 ^ 8) (Dec False 30 0)" "on_grid (-4) (10 ^ 6) (Dec False 250 (-2))"
    using demo_level_inputs c by (simp_all add: bounded_level_inputs_def)
  note a = target_argument [OF e(5,6) cb]
  let ?high = "tick_ceiling (?v + Dec False 10 (-2) * Dec False 2 0) ?t"
  have pos': "0 < H + H * 30 / 10000 + 250 / 100 * (H - 97 + H * 30 / 10000)" if "100 \<le> H" for H :: rat
    using that by (simp add: field_simps)
  have h: "100 \<le> dval ?high" using e(2) by (simp add: dval_Dec)
  have "0 < dval (?high + dquot (?high * Dec False 30 0) per_ten_thousand + Dec False 250 (-2) *
      (?high - tick_floor (?low - Dec False 150 (-2) * Dec False 2 0) ?t + dquot (?high * Dec False 30 0) per_ten_thousand))"
    unfolding a(3) a(1) stop using pos' [OF h] by (simp add: dval_Dec)
  then have target: "0 < dval (tick_ceiling (?high + dquot (?high * Dec False 30 0) per_ten_thousand + Dec False 250 (-2) *
      (?high - tick_floor (?low - Dec False 150 (-2) * Dec False 2 0) ?t + dquot (?high * Dec False 30 0) per_ten_thousand)) ?t)"
    using ceiling_of_argument(1) [OF ft a(4)] by linarith
  show "\<exists>l. calculate_swing_trade_levels ?v ?t (Dec False 2 0) (Dec False 30 0) ?c = Inr l"
    using low stop h target config_ok(16) [OF default_config_made]
    by (simp add: calculate_swing_trade_levels_def c Let_def mk_trade_levels_def sig_positive_def le_iff_dval
        less_iff_dval deq_iff_dval) (simp add: dval_Dec)
qed

theorem levels_keep_reward_risk_witness:
  "\<exists>l. calculate_swing_trade_levels (Dec False 100 0) (Dec False 5 (-2)) (Dec False 2 0) (Dec False 30 0)
      (sealed_config default_swing_config) = Inr l \<and> dval (entry_low l) = 100 \<and> stop l < entry_low l
    \<and> ticks (target l) (Dec False 5 (-2)) \<and> ticks (stop l) (Dec False 5 (-2))
    \<and> entry_low l \<le> entry_high l \<and> entry_high l \<le> target l"
proof -
  obtain l where l: "calculate_swing_trade_levels (Dec False 100 0) (Dec False 5 (-2)) (Dec False 2 0)
      (Dec False 30 0) (sealed_config default_swing_config) = Inr l"
    using demo_levels by blast
  have "dval (Dec False 150 (-2) * Dec False 2 0) = 3"
    by (simp add: times_decimal_def dtimes_exact_def dec_fix_exact repr_def prec_def dval_Dec)
  moreover have "stop_atr_multiple (sealed_config default_swing_config) = Dec False 150 (-2)"
    by (simp add: sealed_config_def default_swing_config_def)
  ultimately show ?thesis
    using levels_keep_reward_risk [OF default_config_made demo_level_inputs l] l by (auto simp: dval_Dec)
qed

end
