(* ===== verification/QuoteGate.thy ===== *)
theory QuoteGate
  imports Signals
begin

text \<open>
  Quotes and the pre-entry quote gate (\<open>market_data/models.py\<close>, \<open>signals/quote_quality.py\<close>,
  \<open>signals/quote_gate.py\<close>).

  A full quote is a market depth with its timestamps and circuit limits.
  \<open>evaluate_quote_quality\<close> classifies it for one decision window; \<open>evaluate_quote_gate\<close> adds the
  entry range of a proposal and either vetoes with sorted reason codes or passes with levels
  recomputed at the observed cost.  \<open>assemble_quote_gate_batch\<close> gives every proposal of a batch
  one outcome, and \<open>verify_gate_outcome\<close> replays an outcome from its inputs.

  Timestamps are UTC microseconds, and an age is compared in microseconds; Python's
  \<open>total_seconds()\<close> computes the same comparison for ages below 2^33 seconds.  A proposal is the
  part of \<open>SwingTechnicalProposal\<close> that the gate, the ranking and the sizing read; its identity
  value and the result of its own \<open>verify_content_identity\<close> are data of the record.
\<close>

section \<open>Depth and quotes\<close>

record depth_level =
  level_price :: decimal
  level_quantity :: int
  level_orders :: int

definition validate_level :: "depth_level \<Rightarrow> unit res" where
  "validate_level l = guards
     [(level_price l < 0, ValueError ''depth price cannot be negative''),
      (level_quantity l < 0, ValueError ''depth quantity must be a non-negative integer''),
      (level_orders l < 0, ValueError ''depth orders must be a non-negative integer''),
      (deq (level_price l) 0 \<and> (level_quantity l \<noteq> 0 \<or> level_orders l \<noteq> 0),
         ValueError ''a zero-priced depth level must have zero quantity and orders'')] (Inr ())"

record full_quote =
  listing_key :: string
  instrument_token :: int
  exchange_timestamp :: instant
  last_trade_time :: "instant option"
  last_price :: decimal
  lower_circuit_limit :: decimal
  upper_circuit_limit :: decimal
  depth_buy :: "depth_level list"
  depth_sell :: "depth_level list"

definition key_char :: "char \<Rightarrow> bool" where
  \<comment> \<open>\<open>[A-Z0-9]\<close>\<close>
  "key_char c = (let n = of_char c :: nat in (65 \<le> n \<and> n \<le> 90) \<or> (48 \<le> n \<and> n \<le> 57))"

definition canonical_key :: "string \<Rightarrow> bool" where
  \<comment> \<open>\<open>NSE:[A-Z0-9][A-Z0-9&\-]{0,31}\<close>, matched in full\<close>
  "canonical_key k = (take 4 k = ''NSE:'' \<and> (case drop 4 k of [] \<Rightarrow> False
     | c # cs \<Rightarrow> key_char c \<and> length cs \<le> 31 \<and> list_all (\<lambda>d. key_char d \<or> d = CHR ''&'' \<or> d = CHR ''-'') cs))"

definition best_price :: "depth_level list \<Rightarrow> decimal option" where
  \<comment> \<open>the price of the first level with a positive price\<close>
  "best_price ls = map_option level_price (List.find (\<lambda>l. 0 < level_price l) ls)"

definition best_bid :: "full_quote \<Rightarrow> decimal option" where
  "best_bid q = best_price (depth_buy q)"

definition best_ask :: "full_quote \<Rightarrow> decimal option" where
  "best_ask q = best_price (depth_sell q)"

definition has_two_sided_depth :: "full_quote \<Rightarrow> bool" where
  "has_two_sided_depth q = (best_bid q \<noteq> None \<and> best_ask q \<noteq> None)"

definition mid_price :: "full_quote \<Rightarrow> decimal option" where
  "mid_price q = (case (best_bid q, best_ask q) of
     (Some bid, Some ask) \<Rightarrow> Some (dquot (bid + ask) (dec_of_int 2)) | _ \<Rightarrow> None)"

definition spread_bps :: "full_quote \<Rightarrow> decimal option" where
  \<comment> \<open>both prices are positive, so the divisor is\<close>
  "spread_bps q = (case (best_bid q, best_ask q, mid_price q) of
     (Some bid, Some ask, Some mid) \<Rightarrow> Some (dquot (ask - bid) mid * dec_of_int 10000) | _ \<Rightarrow> None)"

definition at_lower_circuit :: "full_quote \<Rightarrow> bool" where
  "at_lower_circuit q = deq (last_price q) (lower_circuit_limit q)"

definition at_upper_circuit :: "full_quote \<Rightarrow> bool" where
  "at_upper_circuit q = deq (last_price q) (upper_circuit_limit q)"

fun ordered_prices :: "bool \<Rightarrow> decimal list \<Rightarrow> bool" where
  \<comment> \<open>\<open>_require_ordered_positive_depth\<close> on the positive prices of a side\<close>
  "ordered_prices descending (a # b # vs) =
     ((if descending then b \<le> a else a \<le> b) \<and> ordered_prices descending (b # vs))"
| "ordered_prices descending _ = True"

definition positive_prices :: "depth_level list \<Rightarrow> decimal list" where
  "positive_prices ls = filter (\<lambda>v. 0 < v) (map level_price ls)"

definition quote_positive :: "decimal \<Rightarrow> string \<Rightarrow> bool \<times> py_exc" where
  "quote_positive v name = (v \<le> 0, ValueError (name @ '' must be positive''))"

definition validate_quote :: "full_quote \<Rightarrow> unit res" where
  "validate_quote q = guards
     [(\<not> canonical_key (listing_key q), ValueError ''quote listing_key must be canonical NSE:TRADINGSYMBOL text''),
      (instrument_token q \<le> 0, ValueError ''quote instrument_token must be a positive integer''),
      (case last_trade_time q of None \<Rightarrow> False | Some t \<Rightarrow> exchange_timestamp q < t,
         ValueError ''last_trade_time cannot be after the exchange timestamp''),
      quote_positive (last_price q) ''quote.last_price'',
      quote_positive (lower_circuit_limit q) ''quote.lower_circuit_limit'',
      quote_positive (upper_circuit_limit q) ''quote.upper_circuit_limit'',
      (\<not> (lower_circuit_limit q \<le> last_price q \<and> last_price q \<le> upper_circuit_limit q),
         ValueError ''last_price must be within its circuit limits'')]
     (bindE (mapE validate_level (depth_buy q @ depth_sell q)) (\<lambda>_. guards
       [(\<not> ordered_prices True (positive_prices (depth_buy q)),
           ValueError ''depth_buy positive prices must be non-increasing''),
        (\<not> ordered_prices False (positive_prices (depth_sell q)),
           ValueError ''depth_sell positive prices must be non-decreasing''),
        (case (best_bid q, best_ask q) of (Some bid, Some ask) \<Rightarrow> ask < bid | _ \<Rightarrow> False,
           ValueError ''crossed depth: best ask is below best bid'')] (Inr ())))"

definition level_val :: "depth_level \<Rightarrow> pyval" where
  "level_val l = PDataclass ''india_swing.market_data.models.KiteDepthLevel''
     [(''price'', PDecimal (level_price l)), (''quantity'', PInt (level_quantity l)),
      (''orders'', PInt (level_orders l))]"

definition quote_val :: "full_quote \<Rightarrow> pyval" where
  "quote_val q = PDataclass ''india_swing.market_data.models.KiteFullQuote''
     [(''listing_key'', PStr (listing_key q)), (''instrument_token'', PInt (instrument_token q)),
      (''exchange_timestamp'', PDatetime (exchange_timestamp q)),
      (''last_trade_time'', popt PDatetime (last_trade_time q)),
      (''last_price'', PDecimal (last_price q)),
      (''lower_circuit_limit'', PDecimal (lower_circuit_limit q)),
      (''upper_circuit_limit'', PDecimal (upper_circuit_limit q)),
      (''depth_buy'', PTuple (map level_val (depth_buy q))),
      (''depth_sell'', PTuple (map level_val (depth_sell q)))]"

record full_quote_batch =
  requested_keys :: "string list"
  requested_at :: instant
  observed_at :: instant
  provider_version :: string
  quotes :: "full_quote list"
  quote_batch_id :: string

definition quote_batch_material :: "full_quote_batch \<Rightarrow> (string \<times> pyval) list" where
  "quote_batch_material b =
     [(''requested_keys'', PTuple (map PStr (requested_keys b))),
      (''requested_at'', PDatetime (requested_at b)),
      (''observed_at'', PDatetime (observed_at b)),
      (''provider_version'', PStr (provider_version b)),
      (''quotes'', PTuple (map quote_val (quotes b)))]"

definition require_canonical_listing_keys :: "string list \<Rightarrow> nat \<Rightarrow> (bool \<times> py_exc) list" where
  "require_canonical_listing_keys keys maximum =
     [(keys = [], ValueError ''listing_keys must be a non-empty exact tuple''),
      (maximum < length keys, ValueError ''listing_keys cannot exceed the maximum''),
      (\<not> list_all canonical_key keys,
         ValueError ''listing_keys must be canonical uppercase NSE:TRADINGSYMBOL text''),
      (\<not> distinct keys, ValueError ''listing_keys must be unique''),
      (sort keys \<noteq> keys, ValueError ''listing_keys must already be in sorted canonical order'')]"

definition mk_full_quote_batch :: "full_quote_batch \<Rightarrow> pydatetime \<Rightarrow> pydatetime \<Rightarrow> full_quote_batch res" where
  "mk_full_quote_batch b0 req obs = guards (require_canonical_listing_keys (requested_keys b0) 10000)
     (case to_utc req of None \<Rightarrow> Inl (ValueError ''quote_batch.requested_at must be timezone-aware'')
      | Some r \<Rightarrow> (case to_utc obs of None \<Rightarrow> Inl (ValueError ''quote_batch.observed_at must be timezone-aware'')
      | Some t \<Rightarrow> let b = b0\<lparr>requested_at := r, observed_at := t\<rparr> in guards
          [(t < r, ValueError ''requested_at cannot be after observed_at''),
           (blank (provider_version b), ValueError ''provider_version is required'')]
          (bindE (mapE validate_quote (quotes b)) (\<lambda>_. guards
            [(map listing_key (quotes b) \<noteq> requested_keys b,
                ValueError ''quotes must exactly cover requested_keys in request order''),
             (\<not> distinct (map instrument_token (quotes b)),
                ValueError ''quote batch contains duplicate instrument tokens''),
             (list_ex (\<lambda>q. observed_at b < exchange_timestamp q) (quotes b),
                ValueError ''quote batch contains a future-known exchange timestamp'')]
            (Inr (b\<lparr>quote_batch_id := fields_id (quote_batch_material b)\<rparr>))))))"

definition verify_quote_batch :: "full_quote_batch \<Rightarrow> unit res" where
  "verify_quote_batch b = bindE (mapE validate_quote (quotes b)) (\<lambda>_. guards
     [(quote_batch_id b \<noteq> fields_id (quote_batch_material b),
       ValueError ''quote batch content identity verification failed'')] (Inr ()))"

section \<open>Quote quality\<close>

record quality_result =
  quality_reasons :: "string list"
  quality_spread :: "decimal option"

definition seconds :: "int \<Rightarrow> int" where
  "seconds n = n * 1000000"

definition flags :: "(bool \<times> string) list \<Rightarrow> string list" where
  \<comment> \<open>\<open>tuple(sorted(reasons))\<close> of the set of the codes whose condition holds\<close>
  "flags cs = sort (remdups (map snd (filter fst cs)))"

definition quality_flags ::
  "full_quote \<Rightarrow> instant \<Rightarrow> instant \<Rightarrow> instant \<Rightarrow> int \<Rightarrow> int \<Rightarrow> decimal \<Rightarrow> (bool \<times> string) list" where
  "quality_flags q not_before deadline evaluated max_age max_trade_age max_spread =
     [(evaluated < not_before, ''ENTRY_WINDOW_NOT_OPEN''),
      (deadline < evaluated, ''ENTRY_WINDOW_EXPIRED''),
      (exchange_timestamp q < not_before \<or> deadline < exchange_timestamp q, ''QUOTE_OUTSIDE_ENTRY_WINDOW''),
      (let age = evaluated - exchange_timestamp q in age < 0 \<or> seconds max_age < age, ''QUOTE_STALE''),
      (last_trade_time q = None, ''LAST_TRADE_TIME_MISSING''),
      (case last_trade_time q of None \<Rightarrow> False | Some t \<Rightarrow> t < not_before \<or> deadline < t,
         ''LAST_TRADE_OUTSIDE_ENTRY_WINDOW''),
      (case last_trade_time q of None \<Rightarrow> False
         | Some t \<Rightarrow> evaluated - t < 0 \<or> seconds max_trade_age < evaluated - t, ''LAST_TRADE_STALE''),
      (\<not> has_two_sided_depth q, ''TWO_SIDED_DEPTH_MISSING''),
      (spread_bps q = None, ''SPREAD_UNAVAILABLE''),
      (case spread_bps q of None \<Rightarrow> False | Some s \<Rightarrow> max_spread < s, ''SPREAD_ABOVE_POLICY_MAX''),
      (at_lower_circuit q \<or> at_upper_circuit q, ''CIRCUIT_LOCKED'')]"

definition evaluate_quote_quality ::
  "full_quote \<Rightarrow> string \<Rightarrow> instant \<Rightarrow> instant \<Rightarrow> instant \<Rightarrow> int \<Rightarrow> int \<Rightarrow> decimal \<Rightarrow> quality_result res" where
  "evaluate_quote_quality q key not_before deadline evaluated max_age max_trade_age max_spread = guards
     [(key = [], QuoteQualityError ''expected_listing_key must be non-empty text''),
      (listing_key q \<noteq> key, QuoteQualityError ''quote listing key does not match the expected subject''),
      (deadline \<le> not_before, QuoteQualityError ''decision_not_before must be strictly before decision_deadline''),
      (max_age \<le> 0, QuoteQualityError ''maximum_quote_age_seconds must be a positive exact integer''),
      (max_trade_age \<le> 0, QuoteQualityError ''maximum_last_trade_age_seconds must be a positive exact integer''),
      (max_spread \<le> 0, QuoteQualityError ''maximum_spread_bps must be a positive finite Decimal'')]
     (Inr \<lparr>quality_reasons = flags (quality_flags q not_before deadline evaluated max_age max_trade_age max_spread),
           quality_spread = spread_bps q\<rparr>)"

section \<open>Proposals, policy and the gate\<close>

record entry_window =
  entry_day :: date
  earliest_entry_at :: instant
  entry_expires_at :: instant
  holding_boundary_day :: date
  window_id :: string

definition window_material :: "entry_window \<Rightarrow> (string \<times> pyval) list" where
  "window_material w =
     [(''entry_day'', PDate (entry_day w)), (''earliest_entry_at'', PDatetime (earliest_entry_at w)),
      (''entry_expires_at'', PDatetime (entry_expires_at w)),
      (''holding_boundary_day'', PDate (holding_boundary_day w))]"

definition mk_entry_window :: "date \<Rightarrow> pydatetime \<Rightarrow> pydatetime \<Rightarrow> date \<Rightarrow> entry_window res" where
  "mk_entry_window d opens closes hold = (case to_utc opens of
     None \<Rightarrow> Inl (DeterministicSwingSignalError ''entry window earliest_entry_at must be timezone-aware'')
   | Some a \<Rightarrow> (case to_utc closes of
       None \<Rightarrow> Inl (DeterministicSwingSignalError ''entry window entry_expires_at must be timezone-aware'')
     | Some b \<Rightarrow> let w = \<lparr>entry_day = d, earliest_entry_at = a, entry_expires_at = b,
           holding_boundary_day = hold, window_id = []\<rparr> in guards
         [(b \<le> a, DeterministicSwingSignalError ''entry window must open before it expires''),
          (hold < d, DeterministicSwingSignalError ''holding boundary cannot precede the entry day'')]
         (Inr (w\<lparr>window_id := fields_id (window_material w)\<rparr>))))"

record swing_proposal =
  proposal_symbol :: string
  proposal_window :: entry_window
  proposal_levels :: trade_levels
  proposal_config :: swing_config
  proposal_metrics :: swing_metrics
  proposal_history :: swing_history
  stable_instrument_id :: string
  stable_listing_id :: string
  proposal_id :: string
  proposal_value :: pyval
  proposal_check :: "unit res"

definition proposal_key :: "swing_proposal \<Rightarrow> string" where
  "proposal_key p = ''NSE:'' @ proposal_symbol p"

record quote_gate_policy =
  maximum_batch_collection_seconds :: int
  maximum_quote_age_seconds :: int
  maximum_last_trade_age_seconds :: int
  maximum_spread_bps :: decimal
  gate_policy_version :: string
  gate_policy_id :: string

definition gate_policy_material :: "quote_gate_policy \<Rightarrow> (string \<times> pyval) list" where
  "gate_policy_material p =
     [(''maximum_batch_collection_seconds'', PInt (maximum_batch_collection_seconds p)),
      (''maximum_quote_age_seconds'', PInt (maximum_quote_age_seconds p)),
      (''maximum_last_trade_age_seconds'', PInt (maximum_last_trade_age_seconds p)),
      (''maximum_spread_bps'', PDecimal (maximum_spread_bps p)),
      (''policy_version'', PStr (gate_policy_version p))]"

definition gate_policy_guards :: "quote_gate_policy \<Rightarrow> (bool \<times> py_exc) list" where
  "gate_policy_guards p =
     [(maximum_batch_collection_seconds p \<le> 0,
         SwingQuoteGateError ''maximum_batch_collection_seconds must be a positive integer''),
      (maximum_quote_age_seconds p \<le> 0,
         SwingQuoteGateError ''maximum_quote_age_seconds must be a positive integer''),
      (maximum_last_trade_age_seconds p \<le> 0,
         SwingQuoteGateError ''maximum_last_trade_age_seconds must be a positive integer''),
      (maximum_spread_bps p \<le> 0, SwingQuoteGateError ''maximum_spread_bps must be positive''),
      (gate_policy_version p \<noteq> ''swing-quote-gate-policy/v1'',
         SwingQuoteGateError ''unsupported quote gate policy version'')]"

definition mk_gate_policy :: "quote_gate_policy \<Rightarrow> quote_gate_policy res" where
  "mk_gate_policy p = guards (gate_policy_guards p)
     (Inr (p\<lparr>gate_policy_id := fields_id (gate_policy_material p)\<rparr>))"

definition verify_gate_policy :: "quote_gate_policy \<Rightarrow> unit res" where
  "verify_gate_policy p = guards [(gate_policy_id p \<noteq> fields_id (gate_policy_material p),
     SwingQuoteGateError ''quote gate policy content identity failed'')] (Inr ())"

datatype gate_disposition = PASS | GATE_VETO

record gate_verdict =
  verdict :: gate_disposition
  verdict_reasons :: "string list"
  verdict_spread :: "decimal option"
  verdict_cost :: "decimal option"
  verdict_levels :: "trade_levels option"

definition wrap_gate_error :: "string \<Rightarrow> 'a res \<Rightarrow> 'a res" where
  \<comment> \<open>\<open>except SwingQuoteGateError: raise; except Exception: raise SwingQuoteGateError(...)\<close>\<close>
  "wrap_gate_error msg r = (case r of Inr x \<Rightarrow> Inr x
     | Inl (SwingQuoteGateError m) \<Rightarrow> Inl (SwingQuoteGateError m)
     | Inl _ \<Rightarrow> Inl (SwingQuoteGateError msg))"

definition quality_as_gate_error :: "'a res \<Rightarrow> 'a res" where
  "quality_as_gate_error r = (case r of Inl (QuoteQualityError m) \<Rightarrow> Inl (SwingQuoteGateError m) | _ \<Rightarrow> r)"

definition entry_flags :: "swing_proposal \<Rightarrow> full_quote \<Rightarrow> (bool \<times> string) list" where
  "entry_flags p q = (let l = proposal_levels p in
     [(\<not> (entry_low l \<le> last_price q \<and> last_price q \<le> entry_high l), ''LAST_PRICE_OUTSIDE_ENTRY_RANGE''),
      (case best_ask q of None \<Rightarrow> False | Some a \<Rightarrow> \<not> (entry_low l \<le> a \<and> a \<le> entry_high l),
         ''BEST_ASK_OUTSIDE_ENTRY_RANGE'')])"

definition quality_of ::
  "swing_proposal \<Rightarrow> full_quote \<Rightarrow> instant \<Rightarrow> quote_gate_policy \<Rightarrow> quality_result res" where
  "quality_of p q evaluated policy = quality_as_gate_error (evaluate_quote_quality q (proposal_key p)
     (earliest_entry_at (proposal_window p)) (entry_expires_at (proposal_window p)) evaluated
     (maximum_quote_age_seconds policy) (maximum_last_trade_age_seconds policy) (maximum_spread_bps policy))"

definition evaluate_quote_gate ::
  "swing_proposal \<Rightarrow> full_quote \<Rightarrow> instant \<Rightarrow> quote_gate_policy \<Rightarrow> gate_verdict res" where
  "evaluate_quote_gate p q evaluated policy = bindE (quality_of p q evaluated policy) (\<lambda>quality.
     let reasons = sort (remdups (quality_reasons quality @ map snd (filter fst (entry_flags p q)))) in
     if reasons \<noteq> [] then Inr \<lparr>verdict = GATE_VETO, verdict_reasons = reasons,
       verdict_spread = quality_spread quality, verdict_cost = None, verdict_levels = None\<rparr>
     else case quality_spread quality of
       None \<Rightarrow> Inl (TypeError ''spread is None'')
     | Some s \<Rightarrow> let cost = py_max (base_round_trip_cost_bps (proposal_config p)) s;
           h = proposal_history p in
         bindE (calculate_swing_trade_levels (close_price (last (bars h))) (tick_size h)
             (atr (proposal_metrics p)) cost (proposal_config p)) (\<lambda>l.
         Inr \<lparr>verdict = PASS, verdict_reasons = [], verdict_spread = Some s, verdict_cost = Some cost,
              verdict_levels = Some l\<rparr>))"

section \<open>Outcomes\<close>

record gate_outcome =
  outcome_proposal :: swing_proposal
  outcome_quote :: full_quote
  evaluated_at :: instant
  outcome_policy :: quote_gate_policy
  outcome_verdict :: gate_verdict
  outcome_id :: string

fun gate_disposition_val :: "gate_disposition \<Rightarrow> pyval" where
  "gate_disposition_val PASS = PEnum ''india_swing.signals.quote_gate.SwingQuoteGateDisposition'' (PStr ''PASS'')"
| "gate_disposition_val GATE_VETO = PEnum ''india_swing.signals.quote_gate.SwingQuoteGateDisposition'' (PStr ''VETO'')"

definition gate_policy_val :: "quote_gate_policy \<Rightarrow> pyval" where
  "gate_policy_val p = PDataclass ''india_swing.signals.quote_gate.SwingQuoteGatePolicy''
     (gate_policy_material p @ [(''policy_id'', PStr (gate_policy_id p))])"

definition trade_levels_val :: "trade_levels \<Rightarrow> pyval" where
  "trade_levels_val l = PDataclass ''india_swing.signals.deterministic_swing.SwingTradeLevels''
     (levels_material l @ [(''levels_id'', PStr (levels_id l))])"

definition gate_outcome_material :: "gate_outcome \<Rightarrow> (string \<times> pyval) list" where
  "gate_outcome_material r = (let v = outcome_verdict r in
     [(''proposal'', proposal_value (outcome_proposal r)),
      (''quote'', quote_val (outcome_quote r)),
      (''evaluated_at'', PDatetime (evaluated_at r)),
      (''policy'', gate_policy_val (outcome_policy r)),
      (''disposition'', gate_disposition_val (verdict v)),
      (''reason_codes'', PTuple (map PStr (verdict_reasons v))),
      (''observed_spread_bps'', popt PDecimal (verdict_spread v)),
      (''effective_cost_bps'', popt PDecimal (verdict_cost v)),
      (''quote_adjusted_levels'', popt trade_levels_val (verdict_levels v)),
      (''schema_version'', PStr ''swing-quote-gate-outcome/v1'')])"

definition verify_pass_verdict :: "gate_verdict \<Rightarrow> gate_verdict \<Rightarrow> unit res" where
  \<comment> \<open>the branch \<open>disposition is PASS\<close>, against the replayed verdict\<close>
  "verify_pass_verdict v replayed = guards
     [(verdict_reasons v \<noteq> [], SwingQuoteGateError ''a PASS outcome cannot carry reason codes''),
      (verdict_cost v = None \<or> verdict_levels v = None, SwingQuoteGateError
         ''a PASS outcome requires effective cost and quote-adjusted levels'')]
     (case verdict_levels v of None \<Rightarrow> Inl (SwingQuoteGateError ''quote_adjusted_levels must be exact'')
      | Some l \<Rightarrow> bindE (verify_levels l) (\<lambda>_. guards
          [(map_option levels_id (verdict_levels replayed) \<noteq> Some (levels_id l),
             SwingQuoteGateError ''quote-adjusted levels do not replay from bound inputs''),
           (\<not> opt_deq (verdict_cost v) (verdict_cost replayed),
             SwingQuoteGateError ''effective cost does not replay from bound inputs'')] (Inr ())))"

definition verify_veto_verdict :: "gate_verdict \<Rightarrow> unit res" where
  "verify_veto_verdict v = guards
     [(verdict_reasons v = [], SwingQuoteGateError ''a VETO outcome requires at least one reason code''),
      (verdict_cost v \<noteq> None \<or> verdict_levels v \<noteq> None, SwingQuoteGateError
         ''a VETO outcome cannot carry effective cost or quote-adjusted levels'')] (Inr ())"

definition verify_gate_fields :: "gate_outcome \<Rightarrow> unit res" where
  \<comment> \<open>\<open>_verify\<close>\<close>
  "verify_gate_fields r = (let p = outcome_proposal r; q = outcome_quote r; v = outcome_verdict r in
     bindE (proposal_check p) (\<lambda>_. bindE (validate_quote q) (\<lambda>_. guards
       [(listing_key q \<noteq> proposal_key p,
         SwingQuoteGateError ''quote listing key does not match the proposal subject'')]
       (bindE (verify_gate_policy (outcome_policy r)) (\<lambda>_.
        bindE (wrap_gate_error ''quote gate replay failed''
            (evaluate_quote_gate p q (evaluated_at r) (outcome_policy r))) (\<lambda>replayed. guards
          [(verdict replayed \<noteq> verdict v,
             SwingQuoteGateError ''outcome disposition does not replay from bound inputs''),
           (verdict_reasons v \<noteq> verdict_reasons replayed,
             SwingQuoteGateError ''outcome reasons do not replay from bound inputs''),
           (\<not> sorted_unique (verdict_reasons v), SwingQuoteGateError ''reason codes must be sorted and unique''),
           (\<not> opt_deq (verdict_spread v) (verdict_spread replayed),
             SwingQuoteGateError ''observed spread does not replay from bound inputs'')]
          (if verdict v = PASS then verify_pass_verdict v replayed else verify_veto_verdict v)))))))"

definition mk_gate_outcome :: "gate_outcome \<Rightarrow> gate_outcome res" where
  "mk_gate_outcome r = bindE (verify_gate_fields r) (\<lambda>_.
     Inr (r\<lparr>outcome_id := fields_id (gate_outcome_material r)\<rparr>))"

definition verify_gate_outcome :: "gate_outcome \<Rightarrow> unit res" where
  "verify_gate_outcome r = bindE (verify_gate_fields r) (\<lambda>_. guards
     [(outcome_id r \<noteq> fields_id (gate_outcome_material r),
       SwingQuoteGateError ''quote gate outcome content identity failed'')] (Inr ()))"

section \<open>Batches\<close>

record proposal_batch =
  proposals :: "swing_proposal list"
  proposal_batch_value :: pyval
  proposal_batch_check :: "unit res"

record gate_batch =
  gate_proposals :: proposal_batch
  gate_quotes :: full_quote_batch
  gate_policy :: quote_gate_policy
  gate_evaluated_at :: instant
  gate_outcomes :: "gate_outcome list"
  pass_count :: int
  veto_count :: int
  gate_batch_id :: string

definition gate_outcome_val :: "gate_outcome \<Rightarrow> pyval" where
  "gate_outcome_val r = PDataclass ''india_swing.signals.quote_gate.SwingQuoteGateOutcome''
     (gate_outcome_material r @ [(''outcome_id'', PStr (outcome_id r))])"

definition quote_batch_val :: "full_quote_batch \<Rightarrow> pyval" where
  "quote_batch_val b = PDataclass ''india_swing.market_data.models.FullQuoteBatch''
     (quote_batch_material b @ [(''batch_id'', PStr (quote_batch_id b))])"

definition gate_batch_material :: "gate_batch \<Rightarrow> (string \<times> pyval) list" where
  "gate_batch_material g =
     [(''proposal_batch'', proposal_batch_value (gate_proposals g)),
      (''quote_batch'', quote_batch_val (gate_quotes g)),
      (''policy'', gate_policy_val (gate_policy g)),
      (''evaluated_at'', PDatetime (gate_evaluated_at g)),
      (''outcomes'', PTuple (map gate_outcome_val (gate_outcomes g))),
      (''pass_count'', PInt (pass_count g)),
      (''veto_count'', PInt (veto_count g)),
      (''schema_version'', PStr ''swing-quote-gate-batch/v1'')]"

definition gate_input_guards ::
  "proposal_batch \<Rightarrow> full_quote_batch \<Rightarrow> instant \<Rightarrow> quote_gate_policy \<Rightarrow> (bool \<times> py_exc) list" where
  "gate_input_guards pb qb t policy =
     [(requested_keys qb \<noteq> sort (map proposal_key (proposals pb)),
         SwingQuoteGateError ''quote batch keys do not exactly match the proposal batch''),
      (t < observed_at qb, SwingQuoteGateError ''quote batch was observed after the evaluation time''),
      (seconds (maximum_batch_collection_seconds policy) < observed_at qb - requested_at qb,
         SwingQuoteGateError ''quote batch collection duration exceeded the policy maximum'')]"

definition quote_for :: "full_quote_batch \<Rightarrow> swing_proposal \<Rightarrow> full_quote res" where
  \<comment> \<open>\<open>quote_by_key[...]\<close>: the last quote of that key\<close>
  "quote_for qb p = (case List.find (\<lambda>q. listing_key q = proposal_key p) (rev (quotes qb)) of
     None \<Rightarrow> Inl (KeyError (proposal_key p)) | Some q \<Rightarrow> Inr q)"

definition is_pass :: "gate_outcome \<Rightarrow> bool" where
  "is_pass r = (verdict (outcome_verdict r) = PASS)"

definition level_eq :: "depth_level \<Rightarrow> depth_level \<Rightarrow> bool" where
  \<comment> \<open>dataclass equality: decimals by value\<close>
  "level_eq a b = (deq (level_price a) (level_price b) \<and> level_quantity a = level_quantity b
     \<and> level_orders a = level_orders b)"

definition quote_eq :: "full_quote \<Rightarrow> full_quote \<Rightarrow> bool" where
  "quote_eq a b = (listing_key a = listing_key b \<and> instrument_token a = instrument_token b
     \<and> exchange_timestamp a = exchange_timestamp b \<and> last_trade_time a = last_trade_time b
     \<and> deq (last_price a) (last_price b) \<and> deq (lower_circuit_limit a) (lower_circuit_limit b)
     \<and> deq (upper_circuit_limit a) (upper_circuit_limit b)
     \<and> list_all2 level_eq (depth_buy a) (depth_buy b) \<and> list_all2 level_eq (depth_sell a) (depth_sell b))"

definition verify_binding :: "gate_batch \<Rightarrow> swing_proposal \<times> gate_outcome \<Rightarrow> unit res" where
  "verify_binding g = (\<lambda>(p, r). bindE (quote_for (gate_quotes g) p) (\<lambda>q. guards
     [(proposal_id (outcome_proposal r) \<noteq> proposal_id p,
         SwingQuoteGateError ''outcome is not bound to its proposal batch proposal''),
      (\<not> quote_eq (outcome_quote r) q, SwingQuoteGateError ''outcome is not bound to its quote batch quote''),
      (evaluated_at r \<noteq> gate_evaluated_at g,
         SwingQuoteGateError ''outcome evaluated_at differs from the gate batch''),
      (gate_policy_id (outcome_policy r) \<noteq> gate_policy_id (gate_policy g),
         SwingQuoteGateError ''outcome policy differs from the gate batch'')] (Inr ())))"

definition verify_gate_coverage :: "gate_batch \<Rightarrow> unit res" where
  "verify_gate_coverage g = (let pb = gate_proposals g; qb = gate_quotes g; rs = gate_outcomes g in
     bindE (proposal_batch_check pb) (\<lambda>_. bindE (verify_quote_batch qb) (\<lambda>_.
     bindE (verify_gate_policy (gate_policy g)) (\<lambda>_.
     guards (gate_input_guards pb qb (gate_evaluated_at g) (gate_policy g)
       @ [(length rs \<noteq> length (proposals pb),
           SwingQuoteGateError ''outcome coverage does not match the proposal batch'')])
     (bindE (mapE verify_gate_outcome rs) (\<lambda>_.
      bindE (mapE (verify_binding g) (zip (proposals pb) rs)) (\<lambda>_. guards
        [(pass_count g \<noteq> int (length (filter is_pass rs))
            \<or> veto_count g \<noteq> int (length rs) - int (length (filter is_pass rs)),
          SwingQuoteGateError ''pass/veto counts are inconsistent'')] (Inr ()))))))))"

definition mk_gate_batch :: "gate_batch \<Rightarrow> gate_batch res" where
  "mk_gate_batch g = guards
     [(pass_count g < 0, SwingQuoteGateError ''pass_count must be a non-negative integer''),
      (veto_count g < 0, SwingQuoteGateError ''veto_count must be a non-negative integer'')]
     (bindE (verify_gate_coverage g) (\<lambda>_. Inr (g\<lparr>gate_batch_id := fields_id (gate_batch_material g)\<rparr>)))"

definition verify_gate_batch :: "gate_batch \<Rightarrow> unit res" where
  "verify_gate_batch g = bindE (verify_gate_coverage g) (\<lambda>_. guards
     [(gate_batch_id g \<noteq> fields_id (gate_batch_material g),
       SwingQuoteGateError ''quote gate batch content identity failed'')] (Inr ()))"

definition gate_one ::
  "full_quote_batch \<Rightarrow> instant \<Rightarrow> quote_gate_policy \<Rightarrow> swing_proposal \<Rightarrow> gate_outcome res" where
  \<comment> \<open>one pass of the loop over the proposals\<close>
  "gate_one qb t policy p = bindE (quote_for qb p) (\<lambda>q.
     bindE (wrap_gate_error ''quote gate evaluation failed'' (evaluate_quote_gate p q t policy)) (\<lambda>v.
     mk_gate_outcome \<lparr>outcome_proposal = p, outcome_quote = q, evaluated_at = t, outcome_policy = policy,
       outcome_verdict = v, outcome_id = []\<rparr>))"

definition assemble_quote_gate_batch ::
  "proposal_batch \<Rightarrow> full_quote_batch \<Rightarrow> pydatetime \<Rightarrow> quote_gate_policy \<Rightarrow> gate_batch res" where
  "assemble_quote_gate_batch pb qb at_time policy =
     bindE (proposal_batch_check pb) (\<lambda>_. bindE (verify_quote_batch qb) (\<lambda>_.
     case to_utc at_time of None \<Rightarrow> Inl (SwingQuoteGateError ''evaluated_at must be timezone-aware'')
     | Some t \<Rightarrow> bindE (verify_gate_policy policy) (\<lambda>_. guards (gate_input_guards pb qb t policy)
       (bindE (mapE (gate_one qb t policy) (proposals pb)) (\<lambda>rs.
        let passes = int (length (filter is_pass rs)) in
        mk_gate_batch \<lparr>gate_proposals = pb, gate_quotes = qb, gate_policy = policy, gate_evaluated_at = t,
          gate_outcomes = rs, pass_count = passes, veto_count = int (length rs) - passes,
          gate_batch_id = []\<rparr>)))))"

section \<open>Verdicts\<close>

lemma set_flags [simp]: "set (flags cs) = {code. (True, code) \<in> set cs}"
  by (force simp: flags_def)

lemma quality_of_Inr:
  assumes "quality_of p q t policy = Inr r"
  shows "quality_reasons r = flags (quality_flags q (earliest_entry_at (proposal_window p))
      (entry_expires_at (proposal_window p)) t (maximum_quote_age_seconds policy)
      (maximum_last_trade_age_seconds policy) (maximum_spread_bps policy))"
    and "quality_spread r = spread_bps q" and "listing_key q = proposal_key p"
  using assms
  by (auto simp: quality_of_def quality_as_gate_error_def evaluate_quote_quality_def guards.simps
      split: sum.splits py_exc.splits if_splits)

definition gate_flags :: "swing_proposal \<Rightarrow> full_quote \<Rightarrow> instant \<Rightarrow> quote_gate_policy \<Rightarrow> (bool \<times> string) list" where
  \<comment> \<open>every condition the gate examines, with its reason code\<close>
  "gate_flags p q t policy = quality_flags q (earliest_entry_at (proposal_window p))
      (entry_expires_at (proposal_window p)) t (maximum_quote_age_seconds policy)
      (maximum_last_trade_age_seconds policy) (maximum_spread_bps policy) @ entry_flags p q"

lemma evaluate_reasons:
  assumes "evaluate_quote_gate p q t policy = Inr v"
  shows "verdict_reasons v = flags (gate_flags p q t policy)"
    and "verdict v = PASS \<longleftrightarrow> verdict_reasons v = []" and "verdict_spread v = spread_bps q"
    and "listing_key q = proposal_key p"
proof -
  from assms obtain r where r: "quality_of p q t policy = Inr r"
    by (auto simp: evaluate_quote_gate_def res_simps)
  define cs where "cs = sort (remdups (quality_reasons r @ map snd (filter fst (entry_flags p q))))"
  have "cs = flags (gate_flags p q t policy)"
  proof (rule sorted_distinct_set_unique)
    show "set cs = set (flags (gate_flags p q t policy))"
      by (force simp: cs_def quality_of_Inr(1) [OF r] gate_flags_def)
  qed (simp_all add: cs_def flags_def)
  moreover have "verdict_reasons v = cs" "verdict v = PASS \<longleftrightarrow> cs = []" "verdict_spread v = spread_bps q"
    using assms quality_of_Inr(2) [OF r] unfolding evaluate_quote_gate_def r bindE_Inr Let_def cs_def [symmetric]
    by (auto simp: res_simps Let_def split: if_splits option.splits)
  ultimately show "verdict_reasons v = flags (gate_flags p q t policy)" "verdict v = PASS \<longleftrightarrow> verdict_reasons v = []"
    "verdict_spread v = spread_bps q" by simp_all
  show "listing_key q = proposal_key p" by (rule quality_of_Inr(3) [OF r])
qed

lemma evaluate_pass:
  assumes "evaluate_quote_gate p q t policy = Inr v" and "verdict v = PASS"
  obtains s l where "spread_bps q = Some s" "verdict_spread v = Some s"
    "verdict_cost v = Some (py_max (base_round_trip_cost_bps (proposal_config p)) s)" "verdict_levels v = Some l"
    "calculate_swing_trade_levels (close_price (last (bars (proposal_history p)))) (tick_size (proposal_history p))
       (atr (proposal_metrics p)) (py_max (base_round_trip_cost_bps (proposal_config p)) s) (proposal_config p) = Inr l"
proof -
  from assms(1) obtain r where r: "quality_of p q t policy = Inr r"
    by (auto simp: evaluate_quote_gate_def res_simps)
  show ?thesis
    using assms that quality_of_Inr(2) [OF r]
    by (auto simp: evaluate_quote_gate_def r Let_def res_simps split: if_splits option.splits)
qed

lemma evaluate_veto:
  assumes "evaluate_quote_gate p q t policy = Inr v" and "verdict v = GATE_VETO"
  shows "verdict_cost v = None" "verdict_levels v = None" "verdict_reasons v \<noteq> []"
  using assms by (auto simp: evaluate_quote_gate_def Let_def res_simps split: if_splits option.splits)

lemma pass_no_flag:
  assumes "evaluate_quote_gate p q t policy = Inr v"
  shows "verdict v = PASS \<longleftrightarrow> list_all (\<lambda>c. \<not> fst c) (gate_flags p q t policy)"
proof -
  note r = evaluate_reasons [OF assms]
  have "verdict_reasons v = [] \<longleftrightarrow> set (verdict_reasons v) = {}" by simp
  also have "\<dots> \<longleftrightarrow> list_all (\<lambda>c. \<not> fst c) (gate_flags p q t policy)"
    unfolding r(1) set_flags list_all_iff by force
  finally show ?thesis using r(2) by simp
qed

section \<open>The touch of a valid book\<close>

definition best_offer :: "full_quote \<Rightarrow> decimal \<Rightarrow> bool" where
  \<comment> \<open>a positive ask that no other positive ask undercuts\<close>
  "best_offer q a = (0 < a \<and> a \<in> level_price ` set (depth_sell q)
     \<and> list_all (\<lambda>l. level_price l \<le> 0 \<or> a \<le> level_price l) (depth_sell q))"

lemma best_price_hd: "best_price ls = (case positive_prices ls of [] \<Rightarrow> None | a # _ \<Rightarrow> Some a)"
  by (induction ls) (simp_all add: best_price_def positive_prices_def)

lemma set_positive_prices: "set (positive_prices ls) = {v \<in> level_price ` set ls. 0 < v}"
  by (auto simp: positive_prices_def)

lemma ordered_least: "ordered_prices False (a # vs) \<Longrightarrow> v \<in> set vs \<Longrightarrow> dval a \<le> dval v"
  by (induction vs arbitrary: a) (auto simp: le_iff_dval intro: order_trans)

lemma best_bid_exists: "best_bid q \<noteq> None \<longleftrightarrow> (\<exists>l \<in> set (depth_buy q). 0 < level_price l)"
proof -
  have "best_bid q \<noteq> None \<longleftrightarrow> positive_prices (depth_buy q) \<noteq> []"
    by (cases "positive_prices (depth_buy q)") (simp_all add: best_bid_def best_price_hd)
  then show ?thesis by (simp add: positive_prices_def filter_empty_conv)
qed

lemma best_ask_least:
  assumes "validate_quote q = Inr ()"
  shows "best_ask q = Some a \<Longrightarrow> best_offer q a"
    and "best_offer q b \<Longrightarrow> \<exists>a. best_ask q = Some a \<and> dval a = dval b"
proof -
  have o: "ordered_prices False (positive_prices (depth_sell q))"
    using assms by (auto simp: validate_quote_def guards_Inr_iff res_simps)
  show *: "best_offer q a" if "best_ask q = Some a" for a
  proof -
    note best = that
    obtain vs where ps: "positive_prices (depth_sell q) = a # vs"
      using best by (cases "positive_prices (depth_sell q)") (simp_all add: best_ask_def best_price_hd)
    then have m: "0 < a" "a \<in> level_price ` set (depth_sell q)" using set_positive_prices [of "depth_sell q"] by auto
    have "level_price l \<le> 0 \<or> a \<le> level_price l" if l: "l \<in> set (depth_sell q)" for l
    proof (cases "0 < level_price l")
      case True
      then have "level_price l \<in> set (a # vs)" using l set_positive_prices [of "depth_sell q"] unfolding ps by auto
      then show ?thesis using ordered_least [OF o [unfolded ps]] by (auto simp: le_iff_dval)
    qed (simp add: le_iff_dval less_iff_dval)
    then show ?thesis using m by (simp add: best_offer_def list_all_iff)
  qed
  assume b: "best_offer q b"
  then have "b \<in> set (positive_prices (depth_sell q))" by (simp add: best_offer_def set_positive_prices)
  then obtain a where a: "best_ask q = Some a"
    by (cases "positive_prices (depth_sell q)") (simp_all add: best_ask_def best_price_hd)
  have least: "dval x \<le> dval y" if "best_offer q x" "best_offer q y" for x y
    using that by (auto simp: best_offer_def list_all_iff le_iff_dval less_iff_dval)
  show "\<exists>a. best_ask q = Some a \<and> dval a = dval b"
    using a least [OF * [OF a] b] least [OF b * [OF a]] by auto
qed

lemma off_circuit:
  assumes "validate_quote q = Inr ()"
  shows "\<not> at_lower_circuit q \<and> \<not> at_upper_circuit q \<longleftrightarrow> lower_circuit_limit q < last_price q \<and> last_price q < upper_circuit_limit q"
  using assms by (auto simp: validate_quote_def guards_Inr_iff at_lower_circuit_def at_upper_circuit_def deq_iff_dval
      le_iff_dval less_iff_dval)

section \<open>Properties\<close>

definition executable_quote :: "swing_proposal \<Rightarrow> full_quote \<Rightarrow> instant \<Rightarrow> quote_gate_policy \<Rightarrow> bool" where
  \<comment> \<open>taken and last traded inside the open window, recent, two-sided, tight, off its limits, inside the entry range\<close>
  "executable_quote p q t policy = (let w = proposal_window p; l = proposal_levels p in
     earliest_entry_at w \<le> exchange_timestamp q \<and> exchange_timestamp q \<le> t \<and> t \<le> entry_expires_at w
     \<and> t \<le> exchange_timestamp q + seconds (maximum_quote_age_seconds policy)
     \<and> (\<exists>u. last_trade_time q = Some u \<and> earliest_entry_at w \<le> u \<and> u \<le> t
         \<and> t \<le> u + seconds (maximum_last_trade_age_seconds policy))
     \<and> lower_circuit_limit q < last_price q \<and> last_price q < upper_circuit_limit q
     \<and> entry_low l \<le> last_price q \<and> last_price q \<le> entry_high l
     \<and> (\<exists>b \<in> set (depth_buy q). 0 < level_price b)
     \<and> (\<exists>a. best_offer q a \<and> entry_low l \<le> a \<and> a \<le> entry_high l)
     \<and> (\<exists>s. spread_bps q = Some s \<and> s \<le> maximum_spread_bps policy))"

lemma executable_no_flag:
  assumes ok: "validate_quote q = Inr ()"
  shows "list_all (\<lambda>c. \<not> fst c) (gate_flags p q t policy) \<longleftrightarrow> executable_quote p q t policy"
proof
  assume none: "list_all (\<lambda>c. \<not> fst c) (gate_flags p q t policy)"
  then obtain u a s where u: "last_trade_time q = Some u" and a: "best_ask q = Some a" and s: "spread_bps q = Some s"
    by (auto simp: gate_flags_def quality_flags_def has_two_sided_depth_def)
  have "best_bid q \<noteq> None" using none by (auto simp: gate_flags_def quality_flags_def has_two_sided_depth_def)
  then obtain b where "b \<in> set (depth_buy q)" "0 < level_price b" using best_bid_exists by blast
  moreover have "entry_low (proposal_levels p) \<le> a \<and> a \<le> entry_high (proposal_levels p)"
    using none a by (auto simp: gate_flags_def entry_flags_def Let_def)
  ultimately show "executable_quote p q t policy"
    using none u s off_circuit [OF ok] best_ask_least(1) [OF ok a]
    by (auto simp: executable_quote_def gate_flags_def quality_flags_def entry_flags_def Let_def
        le_iff_dval less_iff_dval)
next
  assume e: "executable_quote p q t policy"
  let ?l = "proposal_levels p"
  obtain b s u where b: "best_offer q b" "entry_low ?l \<le> b" "b \<le> entry_high ?l" and s: "spread_bps q = Some s"
      "s \<le> maximum_spread_bps policy" and u: "last_trade_time q = Some u"
      "earliest_entry_at (proposal_window p) \<le> u" "u \<le> t" "t \<le> u + seconds (maximum_last_trade_age_seconds policy)"
    using e by (auto simp: executable_quote_def Let_def)
  obtain a where a: "best_ask q = Some a" "dval a = dval b" using best_ask_least(2) [OF ok b(1)] by blast
  have "\<exists>b \<in> set (depth_buy q). 0 < level_price b" using e by (simp add: executable_quote_def Let_def)
  then have "best_bid q \<noteq> None" by (simp only: best_bid_exists)
  then show "list_all (\<lambda>c. \<not> fst c) (gate_flags p q t policy)"
    using e a b s u off_circuit [OF ok]
    by (simp add: executable_quote_def gate_flags_def quality_flags_def entry_flags_def has_two_sided_depth_def Let_def
        le_iff_dval less_iff_dval not_less)
qed

text \<open>C21: On a valid quote the gate passes exactly the executable ones: taken and last traded inside the entry window,
  which is still open, no older than the policy allows and not from the future, with a buyer and a seller on the
  book, strictly between the circuit limits, with a spread within the policy, and with the last price and the lowest
  ask inside the proposal's entry range.  A PASS names no reason and carries the levels of the kernel at a cost no
  lower than the configured cost and than the observed spread; a VETO names its reasons, sorted and without
  repetition, and carries neither cost nor levels.\<close>

theorem gate_passes_executable:
  assumes v: "evaluate_quote_gate p q t policy = Inr v" and ok: "validate_quote q = Inr ()"
  shows "(verdict v = PASS \<longleftrightarrow> executable_quote p q t policy)
    \<and> (case verdict v of
        PASS \<Rightarrow> verdict_reasons v = [] \<and> (\<exists>s l cost. spread_bps q = Some s \<and> verdict_cost v = Some cost
          \<and> base_round_trip_cost_bps (proposal_config p) \<le> cost \<and> s \<le> cost \<and> verdict_levels v = Some l
          \<and> calculate_swing_trade_levels (close_price (last (bars (proposal_history p))))
               (tick_size (proposal_history p)) (atr (proposal_metrics p)) cost (proposal_config p) = Inr l)
      | GATE_VETO \<Rightarrow> verdict_reasons v \<noteq> [] \<and> strictly_sorted (verdict_reasons v)
          \<and> verdict_cost v = None \<and> verdict_levels v = None)"
proof -
  have iff: "verdict v = PASS \<longleftrightarrow> executable_quote p q t policy"
    using pass_no_flag [OF v] executable_no_flag [OF ok] by simp
  show ?thesis
  proof (cases "verdict v")
    case PASS
    obtain s l where s: "spread_bps q = Some s" "verdict_levels v = Some l"
      "verdict_cost v = Some (py_max (base_round_trip_cost_bps (proposal_config p)) s)"
      "calculate_swing_trade_levels (close_price (last (bars (proposal_history p)))) (tick_size (proposal_history p))
       (atr (proposal_metrics p)) (py_max (base_round_trip_cost_bps (proposal_config p)) s) (proposal_config p) = Inr l"
      using evaluate_pass [OF v PASS] by blast
    have "base_round_trip_cost_bps (proposal_config p) \<le> py_max (base_round_trip_cost_bps (proposal_config p)) s"
      "s \<le> py_max (base_round_trip_cost_bps (proposal_config p)) s"
      by (simp_all add: le_iff_dval dval_py_max)
    then show ?thesis using iff PASS s evaluate_reasons(2) [OF v] by auto
  next
    case GATE_VETO
    have "strictly_sorted (verdict_reasons v)" unfolding evaluate_reasons(1) [OF v] by (simp add: flags_def strict_sorted_iff)
    then show ?thesis using iff GATE_VETO evaluate_veto [OF v GATE_VETO] by simp
  qed
qed

section \<open>Assembling a batch\<close>

lemma levels_verify: "calculate_swing_trade_levels close tick r cost c = Inr l \<Longrightarrow> verify_levels l = Inr ()"
  by (auto simp: calculate_swing_trade_levels_def mk_trade_levels_def Let_def guards_Inr_iff res_simps
      verify_levels_def levels_material_def)

lemma gate_fields_id [simp]:
  "verify_gate_fields (r\<lparr>outcome_id := x\<rparr>) = verify_gate_fields r"
  "gate_outcome_material (r\<lparr>outcome_id := x\<rparr>) = gate_outcome_material r"
  by (simp_all add: verify_gate_fields_def gate_outcome_material_def Let_def)

lemma quote_eq_refl [simp]: "quote_eq q q"
  by (simp add: quote_eq_def level_eq_def list_all2_same)

text \<open>A verdict always replays.\<close>

lemma replay_verifies:
  assumes v: "evaluate_quote_gate p q t policy = Inr v"
    and ok: "proposal_check p = Inr ()" "validate_quote q = Inr ()" "verify_gate_policy policy = Inr ()"
  shows "verify_gate_fields \<lparr>outcome_proposal = p, outcome_quote = q, evaluated_at = t, outcome_policy = policy,
    outcome_verdict = v, outcome_id = i\<rparr> = Inr ()"
proof -
  have "verify_pass_verdict v v = Inr ()" if pass: "verdict v = PASS"
  proof -
    obtain s l where "verdict_cost v = Some (py_max (base_round_trip_cost_bps (proposal_config p)) s)"
        "verdict_levels v = Some l" "verify_levels l = Inr ()"
      by (rule evaluate_pass [OF v pass]) (auto dest: levels_verify)
    then show ?thesis using evaluate_reasons(2) [OF v] pass by (simp add: verify_pass_verdict_def)
  qed
  moreover have "verify_veto_verdict v = Inr ()" if "verdict v = GATE_VETO"
    using evaluate_veto [OF v that] by (simp add: verify_veto_verdict_def)
  moreover have "verdict v = PASS \<or> verdict v = GATE_VETO" by (cases "verdict v") simp_all
  moreover have "strictly_sorted (verdict_reasons v)"
    unfolding evaluate_reasons(1) [OF v] by (simp add: flags_def)
  ultimately show ?thesis
    using v ok evaluate_reasons(4) [OF v] by (auto simp: verify_gate_fields_def wrap_gate_error_def)
qed

lemma quote_for_valid: "verify_quote_batch qb = Inr () \<Longrightarrow> quote_for qb p = Inr q \<Longrightarrow> validate_quote q = Inr ()"
proof -
  assume b: "verify_quote_batch qb = Inr ()" and q: "quote_for qb p = Inr q"
  then have "q \<in> set (rev (quotes qb))" unfolding quote_for_def
    by (auto simp: find_Some_iff split: option.splits intro!: nth_mem simp del: set_rev)
  then have "q \<in> set (quotes qb)" by simp
  moreover have "\<exists>us. mapE validate_quote (quotes qb) = Inr us"
    using b by (auto simp: verify_quote_batch_def res_simps)
  ultimately show ?thesis by (auto simp: mapE_unit)
qed

definition faithful_outcome ::
  "full_quote_batch \<Rightarrow> instant \<Rightarrow> quote_gate_policy \<Rightarrow> swing_proposal \<Rightarrow> gate_outcome \<Rightarrow> bool" where
  \<comment> \<open>the outcome is the gate's verdict on this proposal and the quote of its key\<close>
  "faithful_outcome qb t policy p r = (outcome_proposal r = p \<and> quote_for qb p = Inr (outcome_quote r)
     \<and> evaluated_at r = t \<and> outcome_policy r = policy
     \<and> evaluate_quote_gate p (outcome_quote r) t policy = Inr (outcome_verdict r) \<and> verify_gate_outcome r = Inr ())"

lemma gate_one_returns:
  assumes q: "quote_for qb p = Inr q" and v: "evaluate_quote_gate p q t policy = Inr v"
    and ok: "proposal_check p = Inr ()" "verify_quote_batch qb = Inr ()" "verify_gate_policy policy = Inr ()"
  shows "\<exists>r. gate_one qb t policy p = Inr r \<and> faithful_outcome qb t policy p r"
  using q v
  by (simp add: gate_one_def wrap_gate_error_def mk_gate_outcome_def faithful_outcome_def verify_gate_outcome_def
      gate_outcome_material_def Let_def replay_verifies [OF v ok(1) quote_for_valid [OF ok(2) q] ok(3)])

lemma mk_gate_batch_returns:
  assumes ok: "proposal_batch_check (gate_proposals g) = Inr ()" "verify_quote_batch (gate_quotes g) = Inr ()"
      "verify_gate_policy (gate_policy g) = Inr ()"
    and guard: "\<forall>c \<in> set (gate_input_guards (gate_proposals g) (gate_quotes g) (gate_evaluated_at g) (gate_policy g)). \<not> fst c"
    and rs: "list_all2 (faithful_outcome (gate_quotes g) (gate_evaluated_at g) (gate_policy g))
      (proposals (gate_proposals g)) (gate_outcomes g)"
    and count: "pass_count g = int (length (filter is_pass (gate_outcomes g)))"
      "veto_count g = int (length (gate_outcomes g)) - pass_count g"
  shows "mk_gate_batch g = Inr (g\<lparr>gate_batch_id := fields_id (gate_batch_material g)\<rparr>)"
    and "verify_gate_batch (g\<lparr>gate_batch_id := fields_id (gate_batch_material g)\<rparr>) = Inr ()"
proof -
  have "\<forall>r \<in> set (gate_outcomes g). \<exists>u. verify_gate_outcome r = Inr u"
    using rs by (auto simp: faithful_outcome_def list_all2_conv_all_nth in_set_conv_nth)
  then obtain us where us: "mapE verify_gate_outcome (gate_outcomes g) = Inr us" using mapE_unit by metis
  have "\<forall>x \<in> set (zip (proposals (gate_proposals g)) (gate_outcomes g)). \<exists>u. verify_binding g x = Inr u"
  proof
    fix x assume "x \<in> set (zip (proposals (gate_proposals g)) (gate_outcomes g))"
    then have "faithful_outcome (gate_quotes g) (gate_evaluated_at g) (gate_policy g) (fst x) (snd x)"
      using rs by (auto simp: list_all2_iff)
    then show "\<exists>u. verify_binding g x = Inr u"
      by (cases x) (auto simp: verify_binding_def faithful_outcome_def)
  qed
  then obtain ws where ws: "mapE (verify_binding g) (zip (proposals (gate_proposals g)) (gate_outcomes g)) = Inr ws"
    using mapE_unit by metis
  have len: "length (gate_outcomes g) = length (proposals (gate_proposals g))"
    using list_all2_lengthD [OF rs] by simp
  have cov: "verify_gate_coverage g = Inr ()"
    unfolding verify_gate_coverage_def Let_def
    using ok us ws guard len count by (auto simp: guards_Inr_iff)
  moreover have "length (filter is_pass (gate_outcomes g)) \<le> length (gate_outcomes g)" by simp
  ultimately show "mk_gate_batch g = Inr (g\<lparr>gate_batch_id := fields_id (gate_batch_material g)\<rparr>)"
    using count by (simp add: mk_gate_batch_def not_less)
  have "verify_gate_coverage (g\<lparr>gate_batch_id := i\<rparr>) = verify_gate_coverage g" for i
    by (simp add: verify_gate_coverage_def Let_def verify_binding_def)
  then show "verify_gate_batch (g\<lparr>gate_batch_id := fields_id (gate_batch_material g)\<rparr>) = Inr ()"
    using cov by (simp add: verify_gate_batch_def gate_batch_material_def)
qed

lemma gate_assembly_returns:
  assumes ok: "proposal_batch_check pb = Inr ()" "verify_quote_batch qb = Inr ()" "verify_gate_policy policy = Inr ()"
      "to_utc at_time = Some t"
    and guard: "\<forall>c \<in> set (gate_input_guards pb qb t policy). \<not> fst c"
    and each: "\<forall>p \<in> set (proposals pb). proposal_check p = Inr ()
      \<and> (\<exists>q v. quote_for qb p = Inr q \<and> evaluate_quote_gate p q t policy = Inr v)"
  shows "\<exists>g. assemble_quote_gate_batch pb qb at_time policy = Inr g \<and> verify_gate_batch g = Inr ()
    \<and> list_all2 (faithful_outcome qb t policy) (proposals pb) (gate_outcomes g)
    \<and> pass_count g = int (length (filter is_pass (gate_outcomes g)))
    \<and> pass_count g + veto_count g = int (length (proposals pb))"
proof -
  have "\<forall>p \<in> set (proposals pb). \<exists>r. gate_one qb t policy p = Inr r \<and> faithful_outcome qb t policy p r"
    using each gate_one_returns [OF _ _ _ ok(2,3)] by blast
  then obtain rs where rs: "mapE (gate_one qb t policy) (proposals pb) = Inr rs"
      "list_all2 (faithful_outcome qb t policy) (proposals pb) rs"
    using mapE_returns by blast
  let ?passes = "int (length (filter is_pass rs))"
  let ?g = "\<lparr>gate_proposals = pb, gate_quotes = qb, gate_policy = policy, gate_evaluated_at = t,
    gate_outcomes = rs, pass_count = ?passes, veto_count = int (length rs) - ?passes, gate_batch_id = []\<rparr>"
  let ?h = "?g\<lparr>gate_batch_id := fields_id (gate_batch_material ?g)\<rparr>"
  have m: "mk_gate_batch ?g = Inr ?h" "verify_gate_batch ?h = Inr ()"
    by (rule mk_gate_batch_returns; simp add: ok guard rs)+
  have a: "assemble_quote_gate_batch pb qb at_time policy = Inr ?h"
    unfolding assemble_quote_gate_batch_def ok bindE_Inr option.case rs(1) Let_def m(1) [symmetric]
    using guard by (auto simp: guards_Inr_iff m)
  moreover have "length rs = length (proposals pb)" using list_all2_lengthD [OF rs(2)] by simp
  ultimately show ?thesis using m(2) rs(2) by (intro exI [of _ ?h]) simp
qed

text \<open>When its inputs verify and the gate has a verdict for every proposal, the assembly
  returns a batch with exactly one outcome per proposal, in the order of the proposals, each the
  gate's verdict on the quote of its key; the counts are right, and the batch passes its own
  replay verification.\<close>

theorem gate_batch_complete:
  assumes ok: "proposal_batch_check pb = Inr ()" "verify_quote_batch qb = Inr ()" "verify_gate_policy policy = Inr ()"
      "to_utc at_time = Some t"
    and guard: "\<forall>c \<in> set (gate_input_guards pb qb t policy). \<not> fst c"
    and each: "\<forall>p \<in> set (proposals pb). proposal_check p = Inr ()
      \<and> (\<exists>q v. quote_for qb p = Inr q \<and> evaluate_quote_gate p q t policy = Inr v)"
  shows "\<exists>g. assemble_quote_gate_batch pb qb at_time policy = Inr g \<and> verify_gate_batch g = Inr ()
    \<and> list_all2 (faithful_outcome qb t policy) (proposals pb) (gate_outcomes g)
    \<and> pass_count g = int (length (filter is_pass (gate_outcomes g)))
    \<and> pass_count g + veto_count g = int (length (proposals pb))"
  by (rule gate_assembly_returns [OF ok guard each])

section \<open>Witnesses\<close>

definition demo_window :: entry_window where
  "demo_window = \<lparr>entry_day = Date 2026 3 3, earliest_entry_at = 0, entry_expires_at = seconds 600,
     holding_boundary_day = Date 2026 3 17, window_id = []\<rparr>"

definition demo_metrics :: swing_metrics where
  "demo_metrics = \<lparr>momentum_return = 0, trend_quality = 1, volume_confirmation = 1,
     median_traded_value = Dec False 100000000 0, atr = Dec False 2 0, relative_strength = 1, liquidity_quality = 1,
     metric_evidence_ids = [''bar2''], metrics_id = []\<rparr>"

definition demo_proposal :: swing_proposal where
  "demo_proposal = \<lparr>proposal_symbol = ''TCS'', proposal_window = demo_window,
     proposal_levels = \<lparr>entry_low = Dec False 100 0, entry_high = Dec False 101 0, stop = Dec False 97 0,
       target = Dec False 112 0, estimated_cost_bps = Dec False 30 0, levels_id = []\<rparr>,
     proposal_config = sealed_config default_swing_config, proposal_metrics = demo_metrics,
     proposal_history = demo_swing_history [demo_swing_bar 2 100], stable_instrument_id = ''I'',
     stable_listing_id = ''L'', proposal_id = ''P'', proposal_value = PNone, proposal_check = Inr ()\<rparr>"

definition demo_quote :: "decimal \<Rightarrow> full_quote" where
  "demo_quote x = \<lparr>listing_key = ''NSE:TCS'', instrument_token = 1, exchange_timestamp = seconds 60,
     last_trade_time = Some (seconds 60), last_price = x, lower_circuit_limit = Dec False 90 0,
     upper_circuit_limit = Dec False 120 0,
     depth_buy = [\<lparr>level_price = Dec False 100 0, level_quantity = 50, level_orders = 2\<rparr>],
     depth_sell = [\<lparr>level_price = Dec False 100 0, level_quantity = 5000, level_orders = 3\<rparr>]\<rparr>"

definition demo_gate_policy :: quote_gate_policy where
  "demo_gate_policy = (let p = \<lparr>maximum_batch_collection_seconds = 15, maximum_quote_age_seconds = 15,
     maximum_last_trade_age_seconds = 300, maximum_spread_bps = Dec False 50 0,
     gate_policy_version = ''swing-quote-gate-policy/v1'', gate_policy_id = []\<rparr>
     in p\<lparr>gate_policy_id := fields_id (gate_policy_material p)\<rparr>)"

lemma demo_gate_policy_fields [simp]:
  "maximum_batch_collection_seconds demo_gate_policy = 15" "maximum_quote_age_seconds demo_gate_policy = 15"
  "maximum_last_trade_age_seconds demo_gate_policy = 300" "maximum_spread_bps demo_gate_policy = Dec False 50 0"
  "verify_gate_policy demo_gate_policy = Inr ()"
  by (simp_all add: demo_gate_policy_def Let_def verify_gate_policy_def gate_policy_material_def)

lemma demo_prices: "best_bid (demo_quote x) = Some (Dec False 100 0)" "best_ask (demo_quote x) = Some (Dec False 100 0)"
  by (simp_all add: best_bid_def best_ask_def best_price_def demo_quote_def less_iff_dval dval_Dec)

lemma demo_spread: "\<exists>s. spread_bps (demo_quote x) = Some s \<and> dval s = 0"
proof -
  have sum: "dval (Dec False 100 0 + Dec False 100 0) = 200"
    using plus_exact [of "Dec False 200 0" "Dec False 100 0" "Dec False 100 0"] by (simp add: repr_def prec_def dval_Dec)
  have "0 < dval (dquot (Dec False 100 0 + Dec False 100 0) (dec_of_int 2))"
    using sum by (intro dquot_pos) (simp_all add: dzero_def dec_of_int_def dval_Dec)
  then have nz: "\<not> dzero (dquot (Dec False 100 0 + Dec False 100 0) (dec_of_int 2))"
    by (auto simp flip: dval_zero_iff)
  have "dval (Dec False 100 0 - Dec False 100 0) = 0" using minus_exact [of 0 "Dec False 100 0" "Dec False 100 0"] by simp
  then have "dval (dquot (Dec False 100 0 - Dec False 100 0) (dquot (Dec False 100 0 + Dec False 100 0) (dec_of_int 2))) = 0"
    using dquot_exact [OF nz, of 0] by simp
  then show ?thesis
    using times_exact [of 0] by (simp add: spread_bps_def mid_price_def demo_prices)
qed

lemma demo_key: "listing_key (demo_quote x) = proposal_key demo_proposal"
  by (simp add: demo_quote_def proposal_key_def demo_proposal_def)

lemma demo_quality:
  "quality_of demo_proposal (demo_quote x) (seconds 65) demo_gate_policy = Inr
     \<lparr>quality_reasons = flags (quality_flags (demo_quote x) 0 (seconds 600) (seconds 65) 15 300 (Dec False 50 0)),
      quality_spread = spread_bps (demo_quote x)\<rparr>"
proof -
  have "earliest_entry_at (proposal_window demo_proposal) = 0" "entry_expires_at (proposal_window demo_proposal) = seconds 600"
    by (simp_all add: demo_proposal_def demo_window_def)
  then show ?thesis
    by (simp add: quality_of_def quality_as_gate_error_def evaluate_quote_quality_def demo_key)
      (simp add: proposal_key_def seconds_def le_iff_dval dval_Dec)
qed

lemma demo_veto: "\<exists>v. evaluate_quote_gate demo_proposal (demo_quote (Dec False 99 0)) (seconds 65) demo_gate_policy = Inr v"
proof -
  let ?q = "demo_quote (Dec False 99 0)"
  have f: "(True, ''LAST_PRICE_OUTSIDE_ENTRY_RANGE'') \<in> set (entry_flags demo_proposal ?q)"
    by (simp add: entry_flags_def Let_def demo_prices) (simp add: demo_proposal_def demo_quote_def le_iff_dval dval_Dec)
  then have "''LAST_PRICE_OUTSIDE_ENTRY_RANGE'' \<in> set (map snd (filter fst (entry_flags demo_proposal ?q)))" by force
  then have "set (sort (remdups (xs @ map snd (filter fst (entry_flags demo_proposal ?q))))) \<noteq> {}" for xs by auto
  then have "sort (remdups (xs @ map snd (filter fst (entry_flags demo_proposal ?q)))) \<noteq> []" for xs
    by (metis list.set(1))
  then show ?thesis by (simp add: evaluate_quote_gate_def demo_quality Let_def)
qed

lemma demo_pass: "\<exists>v. evaluate_quote_gate demo_proposal (demo_quote (Dec False 100 0)) (seconds 65) demo_gate_policy = Inr v
    \<and> verdict v = PASS"
proof -
  let ?q = "demo_quote (Dec False 100 0)"
  obtain s where s: "spread_bps ?q = Some s" "dval s = 0" using demo_spread by blast
  have "py_max (Dec False 30 0) s = Dec False 30 0" using s by (simp add: py_max_def less_iff_dval dval_Dec)
  then have cost: "py_max (base_round_trip_cost_bps (proposal_config demo_proposal)) s = Dec False 30 0"
    by (simp add: demo_proposal_def sealed_config_def default_swing_config_def)
  have h: "close_price (last (bars (proposal_history demo_proposal))) = Dec False 100 0"
      "tick_size (proposal_history demo_proposal) = Dec False 5 (-2)" "atr (proposal_metrics demo_proposal) = Dec False 2 0"
      "proposal_config demo_proposal = sealed_config default_swing_config"
    by (simp_all add: demo_proposal_def demo_metrics_def) (simp add: demo_swing_history_def Let_def)
  have q: "exchange_timestamp ?q = seconds 60" "last_trade_time ?q = Some (seconds 60)"
      "has_two_sided_depth ?q" "\<not> at_lower_circuit ?q" "\<not> at_upper_circuit ?q"
    by (simp_all add: has_two_sided_depth_def demo_prices)
      (simp_all add: demo_quote_def at_lower_circuit_def at_upper_circuit_def deq_iff_dval dval_Dec)
  have "flags (quality_flags ?q 0 (seconds 600) (seconds 65) 15 300 (Dec False 50 0)) = []"
    by (simp add: flags_def quality_flags_def q s seconds_def less_iff_dval dval_Dec)
  moreover have "filter fst (entry_flags demo_proposal ?q) = []"
    by (simp add: entry_flags_def Let_def demo_prices) (simp add: demo_proposal_def demo_quote_def le_iff_dval dval_Dec)
  moreover obtain l where "calculate_swing_trade_levels (Dec False 100 0) (Dec False 5 (-2)) (Dec False 2 0)
      (Dec False 30 0) (sealed_config default_swing_config) = Inr l" using demo_levels by blast
  ultimately show ?thesis by (simp add: evaluate_quote_gate_def demo_quality s cost [unfolded h(4)] h)
qed

definition demo_quote_batch :: full_quote_batch where
  "demo_quote_batch = (let b = \<lparr>requested_keys = [''NSE:TCS''], requested_at = seconds 59, observed_at = seconds 61,
     provider_version = ''kite'', quotes = [demo_quote (Dec False 100 0)], quote_batch_id = []\<rparr>
     in b\<lparr>quote_batch_id := fields_id (quote_batch_material b)\<rparr>)"

lemma demo_quote_valid:
  assumes "x \<in> {Dec False 99 0, Dec False 100 0}"
  shows "validate_quote (demo_quote x) = Inr ()"
proof -
  have k: "canonical_key ''NSE:TCS''" by code_simp
  have "90 \<le> dval x" "dval x \<le> 120" "0 < dval x" using assms by (auto simp: dval_Dec)
  then show ?thesis
    by (simp add: validate_quote_def demo_prices) (simp add: demo_quote_def k quote_positive_def validate_level_def
      positive_prices_def le_iff_dval less_iff_dval deq_iff_dval dval_Dec)
qed

theorem gate_passes_executable_witness:
  "executable_quote demo_proposal (demo_quote (Dec False 100 0)) (seconds 65) demo_gate_policy
   \<and> (\<exists>v. evaluate_quote_gate demo_proposal (demo_quote (Dec False 99 0)) (seconds 65) demo_gate_policy = Inr v
     \<and> verdict v = GATE_VETO \<and> verdict_reasons v \<noteq> [])"
proof
  obtain v where v: "evaluate_quote_gate demo_proposal (demo_quote (Dec False 100 0)) (seconds 65) demo_gate_policy = Inr v"
      "verdict v = PASS" using demo_pass by blast
  then show "executable_quote demo_proposal (demo_quote (Dec False 100 0)) (seconds 65) demo_gate_policy"
    using gate_passes_executable [OF v(1) demo_quote_valid] by blast
  obtain v where v: "evaluate_quote_gate demo_proposal (demo_quote (Dec False 99 0)) (seconds 65) demo_gate_policy = Inr v"
    using demo_veto by blast
  have "\<not> executable_quote demo_proposal (demo_quote (Dec False 99 0)) (seconds 65) demo_gate_policy"
    by (simp add: executable_quote_def Let_def) (simp add: demo_proposal_def demo_quote_def le_iff_dval dval_Dec)
  then show "\<exists>v. evaluate_quote_gate demo_proposal (demo_quote (Dec False 99 0)) (seconds 65) demo_gate_policy = Inr v
     \<and> verdict v = GATE_VETO \<and> verdict_reasons v \<noteq> []"
    using gate_passes_executable [OF v demo_quote_valid] v by (cases "verdict v") auto
qed

definition demo_proposal_batch :: proposal_batch where
  "demo_proposal_batch = \<lparr>proposals = [demo_proposal], proposal_batch_value = PNone, proposal_batch_check = Inr ()\<rparr>"

lemma demo_batch_inputs:
  "proposal_batch_check demo_proposal_batch = Inr ()" "verify_quote_batch demo_quote_batch = Inr ()"
  "proposals demo_proposal_batch = [demo_proposal]"
  "\<forall>c \<in> set (gate_input_guards demo_proposal_batch demo_quote_batch (seconds 65) demo_gate_policy). \<not> fst c"
  "\<forall>p \<in> set (proposals demo_proposal_batch). proposal_check p = Inr ()
     \<and> (\<exists>q v. quote_for demo_quote_batch p = Inr q \<and> evaluate_quote_gate p q (seconds 65) demo_gate_policy = Inr v)"
proof -
  show "proposal_batch_check demo_proposal_batch = Inr ()" "proposals demo_proposal_batch = [demo_proposal]"
    by (simp_all add: demo_proposal_batch_def)
  show "verify_quote_batch demo_quote_batch = Inr ()"
    by (simp add: verify_quote_batch_def demo_quote_batch_def Let_def demo_quote_valid quote_batch_material_def)
  have "proposal_key demo_proposal = ''NSE:TCS''" by (simp add: proposal_key_def demo_proposal_def)
  then show "\<forall>c \<in> set (gate_input_guards demo_proposal_batch demo_quote_batch (seconds 65) demo_gate_policy). \<not> fst c"
    by (simp add: gate_input_guards_def demo_proposal_batch_def) (simp add: demo_quote_batch_def Let_def seconds_def)
  have "quote_for demo_quote_batch demo_proposal = Inr (demo_quote (Dec False 100 0))"
    by (simp add: quote_for_def demo_quote_batch_def Let_def demo_key)
  moreover have "proposal_check demo_proposal = Inr ()" by (simp add: demo_proposal_def)
  ultimately show "\<forall>p \<in> set (proposals demo_proposal_batch). proposal_check p = Inr ()
     \<and> (\<exists>q v. quote_for demo_quote_batch p = Inr q \<and> evaluate_quote_gate p q (seconds 65) demo_gate_policy = Inr v)"
    using demo_pass by (auto simp: demo_proposal_batch_def)
qed

lemma demo_time: "to_utc (PyDatetime (seconds 65) (Some 0)) = Some (seconds 65)"
  by (simp add: to_utc_def)

lemma demo_gate_batch:
  obtains g r where "verify_gate_batch g = Inr ()" "gate_outcomes g = [r]" "is_pass r"
    "outcome_proposal r = demo_proposal" "outcome_policy r = demo_gate_policy"
    "outcome_quote r = demo_quote (Dec False 100 0)" "gate_evaluated_at g = seconds 65"
    "evaluate_quote_gate demo_proposal (demo_quote (Dec False 100 0)) (seconds 65) demo_gate_policy = Inr (outcome_verdict r)"
proof -
  obtain g where g: "assemble_quote_gate_batch demo_proposal_batch demo_quote_batch (PyDatetime (seconds 65) (Some 0))
      demo_gate_policy = Inr g" "verify_gate_batch g = Inr ()"
      "list_all2 (faithful_outcome demo_quote_batch (seconds 65) demo_gate_policy) (proposals demo_proposal_batch) (gate_outcomes g)"
    using gate_assembly_returns [OF demo_batch_inputs(1,2) demo_gate_policy_fields(5) demo_time demo_batch_inputs(4,5)] by blast
  then obtain r where r: "gate_outcomes g = [r]" "faithful_outcome demo_quote_batch (seconds 65) demo_gate_policy demo_proposal r"
    by (auto simp: demo_batch_inputs(3) list_all2_Cons1)
  have q: "outcome_quote r = demo_quote (Dec False 100 0)"
    using r(2) by (simp add: faithful_outcome_def) (simp add: quote_for_def demo_quote_batch_def Let_def demo_key)
  then have "is_pass r" using r(2) demo_pass by (auto simp: faithful_outcome_def is_pass_def)
  moreover have "gate_evaluated_at g = seconds 65"
    using g(1) by (auto simp: assemble_quote_gate_batch_def res_simps demo_time Let_def mk_gate_batch_def guards_Inr_iff)
  ultimately show ?thesis using that [OF g(2) r(1)] r(2) q by (simp add: faithful_outcome_def)
qed

theorem gate_batch_complete_witness:
  "\<exists>g. assemble_quote_gate_batch demo_proposal_batch demo_quote_batch (PyDatetime (seconds 65) (Some 0))
       demo_gate_policy = Inr g
     \<and> verify_gate_batch g = Inr () \<and> length (gate_outcomes g) = 1"
  using gate_batch_complete [OF demo_batch_inputs(1,2) demo_gate_policy_fields(5) demo_time demo_batch_inputs(4,5)]
  by (fastforce simp: demo_batch_inputs(3) dest: list_all2_lengthD)

end
