(* ===== verification/Ranking.thy ===== *)
theory Ranking
  imports QuoteGate "HOL-Library.Multiset"
begin

text \<open>
  The opportunity ranking (\<open>signals/opportunity_ranking.py\<close>).

  Every outcome that passed the quote gate gets six components, each a raw value between zero and
  one times its weight; the ranking score is their sum.  \<open>assemble_ranking_batch\<close> sorts
  the passing outcomes by descending score, then by spread and identifiers, keeps the vetoed ones
  as they are and seals the batch, and \<open>verify_ranking_batch\<close> replays it.

  Python's \<open>==\<close> on frozen dataclasses is \<open>py_eq\<close> on their identity values.
\<close>

section \<open>Factors and policy\<close>

datatype ranking_factor = RELATIVE_STRENGTH | TREND_QUALITY | VOLUME_CONFIRMATION | LIQUIDITY_QUALITY
  | SPREAD_QUALITY | ENTRY_QUALITY

fun factor_name :: "ranking_factor \<Rightarrow> string" where
  "factor_name RELATIVE_STRENGTH = ''RELATIVE_STRENGTH''"
| "factor_name TREND_QUALITY = ''TREND_QUALITY''"
| "factor_name VOLUME_CONFIRMATION = ''VOLUME_CONFIRMATION''"
| "factor_name LIQUIDITY_QUALITY = ''LIQUIDITY_QUALITY''"
| "factor_name SPREAD_QUALITY = ''SPREAD_QUALITY''"
| "factor_name ENTRY_QUALITY = ''ENTRY_QUALITY''"

definition unit_decimal :: "decimal \<Rightarrow> string \<Rightarrow> bool \<times> py_exc" where
  "unit_decimal v msg = (v < 0 \<or> 1 < v, SwingOpportunityRankingError msg)"

record ranking_policy =
  relative_strength_weight :: decimal
  trend_quality_weight :: decimal
  volume_confirmation_weight :: decimal
  liquidity_quality_weight :: decimal
  spread_quality_weight :: decimal
  entry_quality_weight :: decimal
  ranking_policy_version :: string
  ranking_policy_id :: string

definition weights :: "ranking_policy \<Rightarrow> (ranking_factor \<times> decimal) list" where
  "weights p =
     [(RELATIVE_STRENGTH, relative_strength_weight p),
      (TREND_QUALITY, trend_quality_weight p),
      (VOLUME_CONFIRMATION, volume_confirmation_weight p),
      (LIQUIDITY_QUALITY, liquidity_quality_weight p),
      (SPREAD_QUALITY, spread_quality_weight p),
      (ENTRY_QUALITY, entry_quality_weight p)]"

definition ranking_policy_material :: "ranking_policy \<Rightarrow> (string \<times> pyval) list" where
  "ranking_policy_material p =
     [(''relative_strength_weight'', PDecimal (relative_strength_weight p)),
      (''trend_quality_weight'', PDecimal (trend_quality_weight p)),
      (''volume_confirmation_weight'', PDecimal (volume_confirmation_weight p)),
      (''liquidity_quality_weight'', PDecimal (liquidity_quality_weight p)),
      (''spread_quality_weight'', PDecimal (spread_quality_weight p)),
      (''entry_quality_weight'', PDecimal (entry_quality_weight p)),
      (''policy_version'', PStr (ranking_policy_version p))]"

definition ranking_policy_guards :: "ranking_policy \<Rightarrow> (bool \<times> py_exc) list" where
  "ranking_policy_guards p =
     map (\<lambda>(_, w). unit_decimal w ''ranking weights must be finite Decimals in [0, 1]'') (weights p)
     @ [(\<not> deq (dsum (map snd (weights p))) 1,
           SwingOpportunityRankingError ''ranking weights must sum exactly to one''),
        (ranking_policy_version p \<noteq> ''swing-opportunity-ranking-policy/v1'',
           SwingOpportunityRankingError ''unsupported opportunity ranking policy'')]"

definition mk_ranking_policy :: "ranking_policy \<Rightarrow> ranking_policy res" where
  "mk_ranking_policy p = guards (ranking_policy_guards p)
     (Inr (p\<lparr>ranking_policy_id := fields_id (ranking_policy_material p)\<rparr>))"

definition verify_ranking_policy :: "ranking_policy \<Rightarrow> unit res" where
  "verify_ranking_policy p = guards [(ranking_policy_id p \<noteq> fields_id (ranking_policy_material p),
     SwingOpportunityRankingError ''ranking policy content identity failed'')] (Inr ())"

definition default_ranking_policy :: ranking_policy where
  "default_ranking_policy = \<lparr>relative_strength_weight = Dec False 25 (-2), trend_quality_weight = Dec False 25 (-2),
     volume_confirmation_weight = Dec False 15 (-2), liquidity_quality_weight = Dec False 15 (-2),
     spread_quality_weight = Dec False 10 (-2), entry_quality_weight = Dec False 10 (-2),
     ranking_policy_version = ''swing-opportunity-ranking-policy/v1'', ranking_policy_id = []\<rparr>"

section \<open>Components\<close>

record ranking_component =
  factor :: ranking_factor
  raw_value :: decimal
  weight :: decimal
  contribution :: decimal
  component_id :: string

definition factor_val :: "ranking_factor \<Rightarrow> pyval" where
  "factor_val f = PEnum ''india_swing.signals.opportunity_ranking.SwingRankingFactor'' (PStr (factor_name f))"

definition component_material :: "ranking_component \<Rightarrow> (string \<times> pyval) list" where
  "component_material c =
     [(''factor'', factor_val (factor c)),
      (''raw_value'', PDecimal (raw_value c)),
      (''weight'', PDecimal (weight c)),
      (''contribution'', PDecimal (contribution c)),
      (''schema_version'', PStr ''swing-ranking-component/v1'')]"

definition mk_ranking_component :: "ranking_component \<Rightarrow> ranking_component res" where
  "mk_ranking_component c = guards
     [unit_decimal (raw_value c) ''ranking raw value must be in [0, 1]'',
      unit_decimal (weight c) ''ranking component weight must be in [0, 1]'',
      (\<not> deq (contribution c) (raw_value c * weight c),
         SwingOpportunityRankingError ''ranking contribution does not replay'')]
     (Inr (c\<lparr>component_id := fields_id (component_material c)\<rparr>))"

definition verify_component :: "ranking_component \<Rightarrow> unit res" where
  "verify_component c = guards [(component_id c \<noteq> fields_id (component_material c),
     SwingOpportunityRankingError ''ranking component content identity failed'')] (Inr ())"

fun raw_value_of :: "swing_metrics \<Rightarrow> decimal \<Rightarrow> decimal \<Rightarrow> ranking_factor \<Rightarrow> decimal" where
  "raw_value_of m spread_quality entry_quality RELATIVE_STRENGTH = relative_strength m"
| "raw_value_of m spread_quality entry_quality TREND_QUALITY = trend_quality m"
| "raw_value_of m spread_quality entry_quality VOLUME_CONFIRMATION = volume_confirmation m"
| "raw_value_of m spread_quality entry_quality LIQUIDITY_QUALITY = liquidity_quality m"
| "raw_value_of m spread_quality entry_quality SPREAD_QUALITY = spread_quality"
| "raw_value_of m spread_quality entry_quality ENTRY_QUALITY = entry_quality"

definition weigh :: "(ranking_factor \<Rightarrow> decimal) \<Rightarrow> ranking_factor \<times> decimal \<Rightarrow> ranking_component res" where
  "weigh raw fw = mk_ranking_component \<lparr>factor = fst fw, raw_value = raw (fst fw), weight = snd fw,
     contribution = raw (fst fw) * snd fw, component_id = []\<rparr>"

definition calculate_components :: "gate_outcome \<Rightarrow> ranking_policy \<Rightarrow> ranking_component list res" where
  "calculate_components r policy = bindE (verify_gate_outcome r) (\<lambda>_. guards
     [(\<not> is_pass r, SwingOpportunityRankingError ''only quote-gate PASS outcomes can be ranked'')]
     (bindE (verify_ranking_policy policy) (\<lambda>_.
      case (verdict_spread (outcome_verdict r), best_ask (outcome_quote r)) of
        (Some s, Some ask) \<Rightarrow> bindE (ddiv s (maximum_spread_bps (outcome_policy r))) (\<lambda>ratio.
          let l = proposal_levels (outcome_proposal r); width = entry_high l - entry_low l in guards
          [(width \<le> 0, SwingOpportunityRankingError ''proposal entry range is not rankable'')]
          (bindE (ddiv (entry_high l - ask) width) (\<lambda>position.
           mapE (weigh (raw_value_of (proposal_metrics (outcome_proposal r)) (clamp_unit (1 - ratio))
             (clamp_unit position))) (weights policy))))
      | _ \<Rightarrow> Inl (SwingOpportunityRankingError ''passing quote outcome lacks ranking inputs''))))"

section \<open>Ranked opportunities\<close>

record ranked_opportunity =
  ranked_outcome :: gate_outcome
  opportunity_policy :: ranking_policy
  rank :: int
  components :: "ranking_component list"
  ranking_score :: decimal
  opportunity_id :: string

definition ranking_policy_val :: "ranking_policy \<Rightarrow> pyval" where
  "ranking_policy_val p = PDataclass ''india_swing.signals.opportunity_ranking.SwingOpportunityRankingPolicy''
     (ranking_policy_material p @ [(''policy_id'', PStr (ranking_policy_id p))])"

definition component_val :: "ranking_component \<Rightarrow> pyval" where
  "component_val c = PDataclass ''india_swing.signals.opportunity_ranking.SwingRankingComponent''
     (component_material c @ [(''component_id'', PStr (component_id c))])"

definition opportunity_material :: "ranked_opportunity \<Rightarrow> (string \<times> pyval) list" where
  "opportunity_material x =
     [(''quote_gate_outcome'', gate_outcome_val (ranked_outcome x)),
      (''policy'', ranking_policy_val (opportunity_policy x)),
      (''rank'', PInt (rank x)),
      (''components'', PTuple (map component_val (components x))),
      (''ranking_score'', PDecimal (ranking_score x)),
      (''schema_version'', PStr ''swing-ranked-opportunity/v1'')]"

definition verify_score :: "ranked_opportunity \<Rightarrow> unit res" where
  "verify_score x = bindE (verify_gate_outcome (ranked_outcome x)) (\<lambda>_. guards
     [(\<not> is_pass (ranked_outcome x), SwingOpportunityRankingError ''ranked opportunity must bind a PASS outcome'')]
     (bindE (verify_ranking_policy (opportunity_policy x)) (\<lambda>_.
      bindE (mapE verify_component (components x)) (\<lambda>_.
      bindE (calculate_components (ranked_outcome x) (opportunity_policy x)) (\<lambda>replayed. guards
        [(map component_id (components x) \<noteq> map component_id replayed,
            SwingOpportunityRankingError ''ranking components do not replay''),
         unit_decimal (ranking_score x) ''ranking score must be in [0, 1]'',
         (\<not> deq (ranking_score x) (dsum (map contribution (components x))),
            SwingOpportunityRankingError ''ranking score does not replay'')] (Inr ()))))))"

definition mk_ranked_opportunity :: "ranked_opportunity \<Rightarrow> ranked_opportunity res" where
  "mk_ranked_opportunity x = guards
     [(rank x \<le> 0, SwingOpportunityRankingError ''opportunity rank must be a positive integer'')]
     (bindE (verify_score x) (\<lambda>_. Inr (x\<lparr>opportunity_id := fields_id (opportunity_material x)\<rparr>)))"

definition verify_opportunity :: "ranked_opportunity \<Rightarrow> unit res" where
  "verify_opportunity x = bindE (verify_score x) (\<lambda>_. guards
     [(opportunity_id x \<noteq> fields_id (opportunity_material x),
       SwingOpportunityRankingError ''ranked opportunity content identity failed'')] (Inr ()))"

type_synonym rank_key = "rat \<times> rat \<times> string \<times> string"

definition rank_key :: "decimal \<Rightarrow> gate_outcome \<Rightarrow> rank_key res" where
  \<comment> \<open>\<open>_sort_key\<close>\<close>
  "rank_key score r = (case verdict_spread (outcome_verdict r) of
     None \<Rightarrow> Inl (SwingOpportunityRankingError ''passing outcome lacks observed spread'')
   | Some s \<Rightarrow> Inr (dval (- score), dval s, stable_instrument_id (outcome_proposal r),
       stable_listing_id (outcome_proposal r)))"

definition sort_by_key :: "('a \<Rightarrow> rank_key res) \<Rightarrow> 'a list \<Rightarrow> 'a list res" where
  \<comment> \<open>\<open>sorted(xs, key=f)\<close>: the keys first, then a stable sort\<close>
  "sort_by_key f xs = bindE (mapE f xs) (\<lambda>ks. Inr (map snd (sort_key fst (zip ks xs))))"

section \<open>Batches\<close>

record ranking_batch =
  ranking_gate_batch :: gate_batch
  ranking_policy_of :: ranking_policy
  ranked_opportunities :: "ranked_opportunity list"
  vetoed_outcomes :: "gate_outcome list"
  ranked_subject_count :: int
  vetoed_subject_count :: int
  ranking_batch_id :: string

definition opportunity_val :: "ranked_opportunity \<Rightarrow> pyval" where
  "opportunity_val x = PDataclass ''india_swing.signals.opportunity_ranking.SwingRankedOpportunity''
     (opportunity_material x @ [(''opportunity_id'', PStr (opportunity_id x))])"

definition gate_batch_val :: "gate_batch \<Rightarrow> pyval" where
  "gate_batch_val g = PDataclass ''india_swing.signals.quote_gate.SwingQuoteGateBatch''
     (gate_batch_material g @ [(''gate_batch_id'', PStr (gate_batch_id g))])"

definition ranking_batch_material :: "ranking_batch \<Rightarrow> (string \<times> pyval) list" where
  "ranking_batch_material b =
     [(''quote_gate_batch'', gate_batch_val (ranking_gate_batch b)),
      (''policy'', ranking_policy_val (ranking_policy_of b)),
      (''ranked_opportunities'', PTuple (map opportunity_val (ranked_opportunities b))),
      (''vetoed_outcomes'', PTuple (map gate_outcome_val (vetoed_outcomes b))),
      (''ranked_subject_count'', PInt (ranked_subject_count b)),
      (''vetoed_subject_count'', PInt (vetoed_subject_count b)),
      (''schema_version'', PStr ''swing-opportunity-ranking-batch/v1'')]"

definition verify_ranked :: "ranking_policy \<Rightarrow> ranked_opportunity \<Rightarrow> unit res" where
  "verify_ranked policy x = bindE (verify_opportunity x) (\<lambda>_. guards
     [(ranking_policy_id (opportunity_policy x) \<noteq> ranking_policy_id policy,
       SwingOpportunityRankingError ''ranked opportunity policy differs from the batch'')] (Inr ()))"

definition verify_ranking_coverage :: "ranking_batch \<Rightarrow> unit res" where
  "verify_ranking_coverage b = (let outs = gate_outcomes (ranking_gate_batch b); xs = ranked_opportunities b;
       passed = filter is_pass outs; vetoed = filter (\<lambda>r. \<not> is_pass r) outs;
       ranked_ids = map (\<lambda>x. outcome_id (ranked_outcome x)) xs in
     bindE (verify_gate_batch (ranking_gate_batch b)) (\<lambda>_.
     bindE (verify_ranking_policy (ranking_policy_of b)) (\<lambda>_.
     bindE (mapE (verify_ranked (ranking_policy_of b)) xs) (\<lambda>_.
     bindE (mapE verify_gate_outcome (vetoed_outcomes b)) (\<lambda>_. guards
       [(\<not> list_all2 (\<lambda>r s. py_eq (gate_outcome_val r) (gate_outcome_val s)) (vetoed_outcomes b) vetoed,
           SwingOpportunityRankingError ''quote-gate vetoes were not preserved exactly''),
        (\<not> distinct ranked_ids \<or> set ranked_ids \<noteq> set (map outcome_id passed),
           SwingOpportunityRankingError ''ranked opportunities do not exactly cover passing outcomes''),
        (map rank xs \<noteq> map int [1..<Suc (length xs)],
           SwingOpportunityRankingError ''opportunity ranks are not contiguous'')]
       (bindE (sort_by_key (\<lambda>x. rank_key (ranking_score x) (ranked_outcome x)) xs) (\<lambda>expected. guards
         [(xs \<noteq> expected, SwingOpportunityRankingError ''ranked opportunities are out of order''),
          (ranked_subject_count b \<noteq> int (length xs) \<or> vetoed_subject_count b \<noteq> int (length (vetoed_outcomes b))
             \<or> ranked_subject_count b + vetoed_subject_count b \<noteq> int (length outs),
             SwingOpportunityRankingError ''ranking subject counts are inconsistent'')] (Inr ()))))))))"

definition mk_ranking_batch :: "ranking_batch \<Rightarrow> ranking_batch res" where
  "mk_ranking_batch b = guards
     [(ranked_subject_count b < 0, SwingOpportunityRankingError ''ranking subject counts must be non-negative integers''),
      (vetoed_subject_count b < 0, SwingOpportunityRankingError ''ranking subject counts must be non-negative integers'')]
     (bindE (verify_ranking_coverage b) (\<lambda>_.
        Inr (b\<lparr>ranking_batch_id := fields_id (ranking_batch_material b)\<rparr>)))"

definition verify_ranking_batch :: "ranking_batch \<Rightarrow> unit res" where
  "verify_ranking_batch b = bindE (verify_ranking_coverage b) (\<lambda>_. guards
     [(ranking_batch_id b \<noteq> fields_id (ranking_batch_material b),
       SwingOpportunityRankingError ''ranking batch content identity failed'')] (Inr ()))"

section \<open>Assembly\<close>

type_synonym scored = "decimal \<times> gate_outcome \<times> ranking_component list"

definition score_one :: "ranking_policy \<Rightarrow> gate_outcome \<Rightarrow> scored res" where
  "score_one policy r = bindE (calculate_components r policy) (\<lambda>cs. Inr (dsum (map contribution cs), r, cs))"

definition rank_one :: "ranking_policy \<Rightarrow> nat \<times> scored \<Rightarrow> ranked_opportunity res" where
  "rank_one policy = (\<lambda>(index, score, r, cs). mk_ranked_opportunity
     \<lparr>ranked_outcome = r, opportunity_policy = policy, rank = int index, components = cs, ranking_score = score,
      opportunity_id = []\<rparr>)"

definition assemble_ranking_batch :: "gate_batch \<Rightarrow> ranking_policy option \<Rightarrow> ranking_batch res" where
  "assemble_ranking_batch gb chosen = bindE (verify_gate_batch gb) (\<lambda>_.
     bindE (case chosen of None \<Rightarrow> mk_ranking_policy default_ranking_policy | Some p \<Rightarrow> Inr p) (\<lambda>policy.
     bindE (verify_ranking_policy policy) (\<lambda>_.
     bindE (mapE (score_one policy) (filter is_pass (gate_outcomes gb))) (\<lambda>scored.
     bindE (sort_by_key (\<lambda>(score, r, _). rank_key score r) scored) (\<lambda>ordered.
     bindE (mapE (rank_one policy) (zip [1..<Suc (length ordered)] ordered)) (\<lambda>ranked.
     let vetoed = filter (\<lambda>r. \<not> is_pass r) (gate_outcomes gb) in
     mk_ranking_batch \<lparr>ranking_gate_batch = gb, ranking_policy_of = policy, ranked_opportunities = ranked,
       vetoed_outcomes = vetoed, ranked_subject_count = int (length ranked),
       vetoed_subject_count = int (length vetoed), ranking_batch_id = []\<rparr>))))))"

section \<open>Scores\<close>

lemma clamp_unit_bounds [simp]: "0 \<le> dval (clamp_unit v)" "dval (clamp_unit v) \<le> 1"
  by (simp_all add: clamp_unit_def dval_simps)

definition weights_ok :: "ranking_policy \<Rightarrow> bool" where
  \<comment> \<open>the constructor's checks, for weights of at most 27 decimals\<close>
  "weights_ok p = (list_all (\<lambda>(_, w). 0 \<le> dval w \<and> dval w \<le> 1 \<and> on_grid (-27) (10 ^ 27) w) (weights p)
     \<and> dval (dsum (map snd (weights p))) = 1)"

lemma components_Inr:
  assumes "calculate_components r policy = Inr cs"
  shows "verify_gate_outcome r = Inr ()" "is_pass r" "verify_ranking_policy policy = Inr ()"
    and "map factor cs = map fst (weights policy)" "map weight cs = map snd (weights policy)"
    and "\<forall>c \<in> set cs. 0 \<le> dval (raw_value c) \<and> dval (raw_value c) \<le> 1 \<and> 0 \<le> dval (weight c)
      \<and> deq (contribution c) (raw_value c * weight c) \<and> verify_component c = Inr ()"
    and "\<exists>s. verdict_spread (outcome_verdict r) = Some s"
proof -
  obtain raw where raw: "mapE (weigh raw) (weights policy) = Inr cs" and
      r: "verify_gate_outcome r = Inr ()" "is_pass r" "verify_ranking_policy policy = Inr ()"
      "\<exists>s. verdict_spread (outcome_verdict r) = Some s"
    using assms by (auto simp: calculate_components_def res_simps Let_def guards_Inr_iff split: option.splits)
  show "verify_gate_outcome r = Inr ()" "is_pass r" "verify_ranking_policy policy = Inr ()"
    "\<exists>s. verdict_spread (outcome_verdict r) = Some s" by (rule r)+
  have one: "factor c = fst fw" "weight c = snd fw" "0 \<le> dval (raw_value c) \<and> dval (raw_value c) \<le> 1 \<and> 0 \<le> dval (weight c)
      \<and> deq (contribution c) (raw_value c * weight c) \<and> verify_component c = Inr ()"
    if "weigh raw fw = Inr c" for fw c
    using that by (auto simp: weigh_def mk_ranking_component_def unit_decimal_def less_iff_dval not_less
        verify_component_def component_material_def)
  show "map factor cs = map fst (weights policy)" "map weight cs = map snd (weights policy)"
    using mapE_map_eq [OF raw, of factor fst] mapE_map_eq [OF raw, of weight snd] one by blast+
  show "\<forall>c \<in> set cs. 0 \<le> dval (raw_value c) \<and> dval (raw_value c) \<le> 1 \<and> 0 \<le> dval (weight c)
      \<and> deq (contribution c) (raw_value c * weight c) \<and> verify_component c = Inr ()"
    using one by (auto elim!: mapE_set [OF raw])
qed

lemma contribution_le:
  assumes "0 \<le> dval v" "dval v \<le> 1" "0 \<le> dval w" "repr m" "dval m = dval w" "dval c = dval (v * w)"
  shows "0 \<le> dval c \<and> dval c \<le> dval w"
proof -
  have "dval v * dval w \<le> dval m" using assms mult_right_mono [of "dval v" 1 "dval w"] by simp
  then show ?thesis using assms times_nonneg [of v w] times_le [of m v w] by simp
qed

lemma on_grid_same:
  assumes "on_grid e n w" and "n < 10 ^ 28"
  obtains m where "repr m" "dval m = dval w"
  using assms by (elim on_gridE) (metis dval_grid_point repr_grid_point)

lemma score_bounds:
  assumes cs: "calculate_components r policy = Inr cs" and ok: "weights_ok policy"
  shows "0 \<le> dval (dsum (map contribution cs)) \<and> dval (dsum (map contribution cs)) \<le> 1"
proof -
  note c = components_Inr [OF cs]
  have grid: "\<forall>w \<in> set (map snd (weights policy)). on_grid (-27) (10 ^ 27) w"
    using ok by (auto simp: weights_ok_def list_all_iff)
  have "list_all2 (\<lambda>c w. 0 \<le> dval c \<and> dval c \<le> dval w) (map contribution cs) (map weight cs)"
    unfolding list_all2_map1 list_all2_map2
  proof (rule list_all2_same [THEN iffD2], rule ballI)
    fix x assume x: "x \<in> set cs"
    then have "weight x \<in> set (map snd (weights policy))" using c(5) by (metis image_eqI list.set_map)
    then have "on_grid (-27) (10 ^ 27) (weight x)" using grid by blast
    then obtain m where "repr m" "dval m = dval (weight x)"
      by (rule on_grid_same) (rule ten27)
    then show "0 \<le> dval (contribution x) \<and> dval (contribution x) \<le> dval (weight x)"
      using c(6) x by (intro contribution_le [of "raw_value x" _ m]) (auto simp: deq_iff_dval)
  qed
  then have *: "list_all2 (\<lambda>c w. 0 \<le> dval c \<and> dval c \<le> dval w) (map contribution cs) (map snd (weights policy))"
    using c(5) by simp
  have len: "length (map snd (weights policy)) * 10 ^ 27 < 10 ^ 28"
    by (simp add: weights_def)
  show ?thesis using dsum_le [OF * grid len] ok by (simp add: weights_ok_def)
qed

section \<open>Sorting by key\<close>

lemma sort_key_zip: "map snd (sort_key fst (map (\<lambda>x. (key x, x)) xs)) = sort_key key xs"
proof -
  have ins: "insort_key fst (key x, x) (map (\<lambda>x. (key x, x)) ys) = map (\<lambda>x. (key x, x)) (insort_key key x ys)" for x ys
    by (induction ys) simp_all
  have "sort_key fst (map (\<lambda>x. (key x, x)) xs) = map (\<lambda>x. (key x, x)) (sort_key key xs)"
    by (induction xs) (simp_all add: ins)
  then show ?thesis by (simp add: comp_def)
qed

lemma sort_by_key_total: "\<forall>x \<in> set xs. f x = Inr (key x) \<Longrightarrow> sort_by_key f xs = Inr (sort_key key xs)"
proof -
  assume *: "\<forall>x \<in> set xs. f x = Inr (key x)"
  then have "mapE f xs = Inr (map key xs)" by (simp add: mapE_eq_Inr list_all2_conv_all_nth)
  moreover have "zip (map key xs) xs = map (\<lambda>x. (key x, x)) xs" by (induction xs) simp_all
  ultimately show ?thesis by (simp add: sort_by_key_def sort_key_zip)
qed

lemma sort_by_key_Inr:
  assumes "sort_by_key f xs = Inr ys"
  obtains key where "\<forall>x \<in> set xs. f x = Inr (key x)" "ys = sort_key key xs"
proof -
  from assms obtain ks where "mapE f xs = Inr ks" by (auto simp: sort_by_key_def res_simps)
  then have "\<forall>x \<in> set xs. f x = Inr (projr (f x))"
    by (fastforce simp: mapE_eq_Inr list_all2_conv_all_nth in_set_conv_nth)
  moreover from sort_by_key_total [OF this] assms have "ys = sort_key (\<lambda>x. projr (f x)) xs" by simp
  ultimately show ?thesis by (rule that)
qed

lemma sort_key_sorted: "sorted (map key xs) \<Longrightarrow> sort_key key xs = xs"
proof (induction xs)
  case (Cons x xs)
  then show ?case by (simp add: insort_is_Cons)
qed simp

lemma repr_dsum [simp]: "repr (dsum vs)"
  by (cases vs rule: rev_cases) (simp_all add: dsum_def)

section \<open>Building the ranked opportunities\<close>

definition position :: "decimal \<Rightarrow> gate_outcome \<Rightarrow> rank_key" where
  \<comment> \<open>descending score, then the observed spread and the stable identifiers\<close>
  "position score r = (- dval score, dval (the (verdict_spread (outcome_verdict r))),
     stable_instrument_id (outcome_proposal r), stable_listing_id (outcome_proposal r))"

lemma rank_key_position: "repr score \<Longrightarrow> rank_key score r = Inr k \<Longrightarrow> k = position score r"
  by (auto simp: rank_key_def position_def dval_uminus split: option.splits)

lemma rank_key_total:
  "repr score \<Longrightarrow> verdict_spread (outcome_verdict r) = Some s \<Longrightarrow> rank_key score r = Inr (position score r)"
  by (simp add: rank_key_def position_def dval_uminus)

lemma score_one_Inr:
  "score_one policy r = Inr x \<Longrightarrow> fst (snd x) = r \<and> calculate_components r policy = Inr (snd (snd x))
     \<and> fst x = dsum (map contribution (snd (snd x)))"
  by (auto simp: score_one_def res_simps)

lemma rank_one_Inr:
  "rank_one policy x = Inr o1 \<Longrightarrow> rank o1 = int (fst x) \<and> ranking_score o1 = fst (snd x)
     \<and> ranked_outcome o1 = fst (snd (snd x)) \<and> components o1 = snd (snd (snd x)) \<and> opportunity_policy o1 = policy
     \<and> 0 \<le> dval (ranking_score o1) \<and> dval (ranking_score o1) \<le> 1"
  by (auto simp: rank_one_def mk_ranked_opportunity_def verify_score_def res_simps guards_Inr_iff unit_decimal_def
      less_iff_dval not_less split: prod.splits)

lemma ranked_fields:
  assumes "mapE (rank_one policy) (zip [1..<Suc (length xs)] xs) = Inr os"
  shows "map rank os = map int [1..<Suc (length xs)]" "map ranking_score os = map fst xs"
    "map ranked_outcome os = map (fst \<circ> snd) xs" "map components os = map (snd \<circ> snd) xs"
    "length os = length xs"
proof -
  have *: "map h (zip [1..<Suc (length xs)] xs) = map (h \<circ> id) (zip [1..<Suc (length xs)] xs)" for h by simp
  have z: "map fst (zip [1..<Suc (length xs)] xs) = [1..<Suc (length xs)]"
    "map snd (zip [1..<Suc (length xs)] xs) = xs"
    by (simp_all del: upt_Suc)
  show "map rank os = map int [1..<Suc (length xs)]"
    using mapE_map_eq [OF assms, of rank "int \<circ> fst"] rank_one_Inr z by (metis (no_types, lifting) comp_apply map_map)
  show "map ranking_score os = map fst xs"
    using mapE_map_eq [OF assms, of ranking_score "fst \<circ> snd"] rank_one_Inr z by (metis (no_types, lifting) comp_apply map_map)
  show "map ranked_outcome os = map (fst \<circ> snd) xs"
    using mapE_map_eq [OF assms, of ranked_outcome "(fst \<circ> snd) \<circ> snd"] rank_one_Inr z
    by (metis (no_types, lifting) comp_apply map_map)
  show "map components os = map (snd \<circ> snd) xs"
    using mapE_map_eq [OF assms, of components "(snd \<circ> snd) \<circ> snd"] rank_one_Inr z
    by (metis (no_types, lifting) comp_apply map_map)
  show "length os = length xs" using mapE_length [OF assms] by (simp del: upt_Suc)
qed

lemma sealed_batch:
  "mk_ranking_batch b0 = Inr b \<Longrightarrow> verify_ranking_batch b = Inr () \<and> b = b0\<lparr>ranking_batch_id := ranking_batch_id b\<rparr>"
proof -
  assume m: "mk_ranking_batch b0 = Inr b"
  have "verify_ranking_coverage (b0\<lparr>ranking_batch_id := i\<rparr>) = verify_ranking_coverage b0"
      "ranking_batch_material (b0\<lparr>ranking_batch_id := i\<rparr>) = ranking_batch_material b0" for i
    by (simp_all add: verify_ranking_coverage_def ranking_batch_material_def Let_def)
  then show ?thesis using m by (auto simp: mk_ranking_batch_def verify_ranking_batch_def res_simps)
qed

section \<open>What an assembled batch is\<close>

definition scored_as :: "ranking_policy \<Rightarrow> ranked_opportunity \<Rightarrow> bool" where
  \<comment> \<open>the opportunity carries the components of its outcome, and their sum in the unit interval as score\<close>
  "scored_as policy x = (calculate_components (ranked_outcome x) policy = Inr (components x)
     \<and> ranking_score x = dsum (map contribution (components x)) \<and> opportunity_policy x = policy
     \<and> 0 \<le> dval (ranking_score x) \<and> dval (ranking_score x) \<le> 1)"

lemma ranked_sound:
  assumes scored: "mapE (score_one policy) passes = Inr scored"
    and ordered: "sort_by_key (\<lambda>(score, r, _). rank_key score r) scored = Inr ordered"
    and ranked: "mapE (rank_one policy) (zip [1..<Suc (length ordered)] ordered) = Inr os"
  shows "mset (map ranked_outcome os) = mset passes" "\<forall>x \<in> set os. scored_as policy x"
    "sorted (map (\<lambda>x. position (ranking_score x) (ranked_outcome x)) os)"
proof -
  obtain key where k: "\<forall>x \<in> set scored. (\<lambda>(score, r, _). rank_key score r) x = Inr (key x)"
      "ordered = sort_key key scored"
    using ordered by (rule sort_by_key_Inr)
  then have key: "\<forall>x \<in> set scored. rank_key (fst x) (fst (snd x)) = Inr (key x)" "ordered = sort_key key scored"
    by (simp_all add: case_prod_beta)
  note f = ranked_fields [OF ranked]
  have sc: "\<forall>x \<in> set scored. calculate_components (fst (snd x)) policy = Inr (snd (snd x))
      \<and> fst x = dsum (map contribution (snd (snd x)))"
    by (rule ballI, erule mapE_set [OF scored], drule score_one_Inr) simp
  have "map (fst \<circ> snd) scored = map id passes"
    using mapE_map_eq [OF scored, of "fst \<circ> snd" id] score_one_Inr by (metis comp_apply id_apply)
  then show "mset (map ranked_outcome os) = mset passes"
    unfolding f(3) key(2) by (metis list.map_id mset_map mset_sort)
  show "\<forall>x \<in> set os. scored_as policy x"
  proof
    fix x assume "x \<in> set os"
    then obtain i e where "(i, e) \<in> set (zip [1..<Suc (length ordered)] ordered)" and x: "rank_one policy (i, e) = Inr x"
      by (auto elim!: mapE_set [OF ranked])
    then have "e \<in> set scored" unfolding key(2) by (auto dest: set_zip_rightD)
    then show "scored_as policy x" using sc rank_one_Inr [OF x] by (auto simp: scored_as_def)
  qed
  have "position (fst x) (fst (snd x)) = key x" if "x \<in> set scored" for x
    using that sc key(1) rank_key_position [of "fst x" "fst (snd x)" "key x"] repr_dsum by (auto split: prod.splits)
  then have "map (\<lambda>x. position (fst x) (fst (snd x))) ordered = map key ordered"
    by (simp add: key(2))
  moreover have "map (\<lambda>x. position (ranking_score x) (ranked_outcome x)) os
      = map (\<lambda>(s, r). position s r) (zip (map ranking_score os) (map ranked_outcome os))"
    by (simp add: zip_map_map zip_same_conv_map)
  moreover have "\<dots> = map (\<lambda>x. position (fst x) (fst (snd x))) ordered"
    by (simp add: f(2,3) zip_map_map zip_same_conv_map)
  ultimately have "map (\<lambda>x. position (ranking_score x) (ranked_outcome x)) os = map key ordered" by argo
  then show "sorted (map (\<lambda>x. position (ranking_score x) (ranked_outcome x)) os)"
    unfolding key(2) by (metis sorted_sort_key)
qed

lemma assembled_ranking:
  assumes "assemble_ranking_batch gb chosen = Inr b"
  shows "mset (map ranked_outcome (ranked_opportunities b)) = mset (filter is_pass (gate_outcomes gb))
    \<and> vetoed_outcomes b = filter (\<lambda>r. \<not> is_pass r) (gate_outcomes gb)
    \<and> map rank (ranked_opportunities b) = map int [1..<Suc (length (ranked_opportunities b))]
    \<and> sorted (map (\<lambda>x. position (ranking_score x) (ranked_outcome x)) (ranked_opportunities b))
    \<and> (\<forall>x \<in> set (ranked_opportunities b). scored_as (ranking_policy_of b) x)
    \<and> verify_ranking_batch b = Inr () \<and> ranking_gate_batch b = gb"
proof -
  obtain policy scored ordered os where
      scored: "mapE (score_one policy) (filter is_pass (gate_outcomes gb)) = Inr scored" and
      ordered: "sort_by_key (\<lambda>(score, r, _). rank_key score r) scored = Inr ordered" and
      os: "mapE (rank_one policy) (zip [1..<Suc (length ordered)] ordered) = Inr os" and
      b: "mk_ranking_batch \<lparr>ranking_gate_batch = gb, ranking_policy_of = policy, ranked_opportunities = os,
       vetoed_outcomes = filter (\<lambda>r. \<not> is_pass r) (gate_outcomes gb), ranked_subject_count = int (length os),
       vetoed_subject_count = int (length (filter (\<lambda>r. \<not> is_pass r) (gate_outcomes gb))), ranking_batch_id = []\<rparr> = Inr b"
    using assms unfolding assemble_ranking_batch_def bindE_eq_Inr Let_def by blast
  note s = sealed_batch [OF b]
  from s have "ranked_opportunities b = os" "ranking_policy_of b = policy" "ranking_gate_batch b = gb"
      "vetoed_outcomes b = filter (\<lambda>r. \<not> is_pass r) (gate_outcomes gb)" by (metis ranking_batch.select_convs ranking_batch.update_convs(7))+
  then show ?thesis using ranked_sound [OF scored ordered os] ranked_fields [OF os] s by simp
qed

text \<open>C30: A ranking that the assembly returns ranks exactly the outcomes that passed the gate, each
  with the components and the score of the policy, a score between zero and one, in descending order
  of score with ties broken by spread and identifiers, under the ranks one to their number; it keeps
  the vetoed outcomes unchanged and in order, and it passes its own replay.\<close>

theorem ranking_sound:
  assumes "assemble_ranking_batch gb chosen = Inr b"
  shows "mset (map ranked_outcome (ranked_opportunities b)) = mset (filter is_pass (gate_outcomes gb))
    \<and> vetoed_outcomes b = filter (\<lambda>r. \<not> is_pass r) (gate_outcomes gb)
    \<and> map rank (ranked_opportunities b) = map int [1..<Suc (length (ranked_opportunities b))]
    \<and> sorted (map (\<lambda>x. position (ranking_score x) (ranked_outcome x)) (ranked_opportunities b))
    \<and> (\<forall>x \<in> set (ranked_opportunities b). scored_as (ranking_policy_of b) x)
    \<and> verify_ranking_batch b = Inr ()"
  using assembled_ranking [OF assms] by simp

section \<open>The assembly returns\<close>

definition rankable :: "gate_outcome \<Rightarrow> bool" where
  \<comment> \<open>what the technical metrics, the levels and the gate policy of a proposal give\<close>
  "rankable r = (let m = proposal_metrics (outcome_proposal r); l = proposal_levels (outcome_proposal r) in
     list_all (\<lambda>v. 0 \<le> dval v \<and> dval v \<le> 1)
       [relative_strength m, trend_quality m, volume_confirmation m, liquidity_quality m]
     \<and> 0 < maximum_spread_bps (outcome_policy r) \<and> 0 < entry_high l - entry_low l)"

lemma verified_pass_inputs:
  assumes "verify_gate_outcome r = Inr ()" and "is_pass r"
  shows "\<exists>s ask. verdict_spread (outcome_verdict r) = Some s \<and> best_ask (outcome_quote r) = Some ask"
proof -
  obtain v where v: "evaluate_quote_gate (outcome_proposal r) (outcome_quote r) (evaluated_at r) (outcome_policy r) = Inr v"
      "verdict v = verdict (outcome_verdict r)" "opt_deq (verdict_spread (outcome_verdict r)) (verdict_spread v)"
    using assms(1) by (auto simp: verify_gate_outcome_def verify_gate_fields_def Let_def res_simps wrap_gate_error_def
        guards_Inr_iff split: sum.splits py_exc.splits)
  then have "verdict v = PASS" using assms(2) by (simp add: is_pass_def)
  then obtain s where "spread_bps (outcome_quote r) = Some s" "verdict_spread v = Some s"
    using evaluate_pass [OF v(1)] by blast
  then show ?thesis using v(3)
    by (cases "verdict_spread (outcome_verdict r)") (auto simp: spread_bps_def split: option.splits)
qed

lemma ddiv_returns: "0 < b \<Longrightarrow> \<exists>q. ddiv a b = Inr q"
  by (auto simp: ddiv_def less_iff_dval simp flip: dval_zero_iff)

lemma components_return:
  assumes r: "verify_gate_outcome r = Inr ()" "is_pass r" "rankable r"
    and policy: "verify_ranking_policy policy = Inr ()" "weights_ok policy"
  shows "\<exists>cs. calculate_components r policy = Inr cs"
proof -
  obtain s ask where in1: "verdict_spread (outcome_verdict r) = Some s" "best_ask (outcome_quote r) = Some ask"
    using verified_pass_inputs [OF r(1,2)] by blast
  let ?l = "proposal_levels (outcome_proposal r)"
  let ?w = "entry_high ?l - entry_low ?l"
  have pos: "0 < maximum_spread_bps (outcome_policy r)" "0 < ?w"
    using r(3) by (simp_all add: rankable_def Let_def)
  obtain ratio where ratio: "ddiv s (maximum_spread_bps (outcome_policy r)) = Inr ratio" using ddiv_returns [OF pos(1)] by blast
  obtain pp where pp: "ddiv (entry_high ?l - ask) ?w = Inr pp" using ddiv_returns [OF pos(2)] by blast
  have unit: "0 \<le> dval (raw_value_of (proposal_metrics (outcome_proposal r)) (clamp_unit u) (clamp_unit v) f)
      \<and> dval (raw_value_of (proposal_metrics (outcome_proposal r)) (clamp_unit u) (clamp_unit v) f) \<le> 1" for u v f
    using r(3) by (cases f) (simp_all add: rankable_def Let_def)
  have "\<exists>c. weigh (raw_value_of (proposal_metrics (outcome_proposal r)) (clamp_unit u) (clamp_unit v)) fw = Inr c"
    if "fw \<in> set (weights policy)" for fw u v
    using unit [of u v "fst fw"] that policy(2)
    by (auto simp: weigh_def mk_ranking_component_def unit_decimal_def weights_ok_def list_all_iff less_iff_dval not_less)
  then have "\<exists>cs. mapE (weigh (raw_value_of (proposal_metrics (outcome_proposal r)) (clamp_unit u) (clamp_unit v)))
      (weights policy) = Inr cs" for u v by (simp add: mapE_unit)
  moreover have "\<not> ?w \<le> 0" using pos(2) by (simp add: le_iff_dval less_iff_dval)
  ultimately show ?thesis using r policy by (simp add: calculate_components_def in1 ratio pp Let_def)
qed

lemma mk_ranked_returns:
  assumes "verify_score x = Inr ()" and "0 < rank x"
  shows "\<exists>y. mk_ranked_opportunity x = Inr y \<and> verify_opportunity y = Inr () \<and> opportunity_policy y = opportunity_policy x"
proof -
  have "verify_score (x\<lparr>opportunity_id := j\<rparr>) = verify_score x"
      "opportunity_material (x\<lparr>opportunity_id := j\<rparr>) = opportunity_material x" for j
    by (simp_all add: verify_score_def opportunity_material_def)
  then show ?thesis using assms by (simp add: mk_ranked_opportunity_def verify_opportunity_def)
qed

lemma rank_one_returns:
  assumes cs: "calculate_components r policy = Inr cs" and ok: "weights_ok policy" and i: "0 < i"
  shows "\<exists>x. rank_one policy (i, dsum (map contribution cs), r, cs) = Inr x \<and> verify_opportunity x = Inr ()
    \<and> opportunity_policy x = policy"
proof -
  note c = components_Inr [OF cs]
  have "\<forall>x \<in> set cs. \<exists>u. verify_component x = Inr u" using c(6) by blast
  then obtain us where us: "mapE verify_component cs = Inr us" using mapE_unit by metis
  let ?x = "\<lparr>ranked_outcome = r, opportunity_policy = policy, rank = int i, components = cs,
    ranking_score = dsum (map contribution cs), opportunity_id = []\<rparr>"
  have v: "verify_score ?x = Inr ()"
    using score_bounds [OF cs ok]
    by (simp add: verify_score_def c(1-3) us cs unit_decimal_def less_iff_dval not_less)
  then show ?thesis using mk_ranked_returns [of ?x] i by (simp add: rank_one_def)
qed

lemma ranked_returns:
  assumes policy: "weights_ok policy"
    and entries: "\<forall>x \<in> set xs. calculate_components (fst (snd x)) policy = Inr (snd (snd x))
      \<and> fst x = dsum (map contribution (snd (snd x)))"
  shows "\<exists>os. mapE (rank_one policy) (zip [1..<Suc (length xs)] xs) = Inr os
    \<and> (\<forall>x \<in> set os. verify_ranked policy x = Inr ())"
proof -
  have "\<exists>y. rank_one policy z = Inr y \<and> verify_ranked policy y = Inr ()"
    if "z \<in> set (zip [1..<Suc (length xs)] xs)" for z
  proof -
    obtain i s r cs where z: "z = (i, s, r, cs)" by (cases z) auto
    have "(s, r, cs) \<in> set xs" using that z by (auto dest: set_zip_rightD)
    moreover have "0 < i" using that z by (auto dest: set_zip_leftD simp del: upt_Suc)
    ultimately show ?thesis using entries rank_one_returns [OF _ policy, of r cs i] z
      by (fastforce simp: verify_ranked_def)
  qed
  then obtain os where "mapE (rank_one policy) (zip [1..<Suc (length xs)] xs) = Inr os"
      "list_all2 (\<lambda>z y. verify_ranked policy y = Inr ()) (zip [1..<Suc (length xs)] xs) os"
    using mapE_returns [of "zip [1..<Suc (length xs)] xs" "rank_one policy" "\<lambda>z y. verify_ranked policy y = Inr ()"] by blast
  then show ?thesis by (auto simp: list_all2_conv_all_nth in_set_conv_nth simp del: upt_Suc)
qed

lemma batch_outcomes_verified:
  "verify_gate_batch gb = Inr () \<Longrightarrow> \<forall>r \<in> set (gate_outcomes gb). verify_gate_outcome r = Inr ()"
proof -
  assume "verify_gate_batch gb = Inr ()"
  then have "\<exists>us. mapE verify_gate_outcome (gate_outcomes gb) = Inr us"
    by (auto simp: verify_gate_batch_def verify_gate_coverage_def Let_def res_simps guards_Inr_iff)
  then show ?thesis by (auto simp: mapE_unit)
qed

lemma coverage_returns:
  assumes ok: "verify_gate_batch gb = Inr ()" "verify_ranking_policy policy = Inr ()"
    and ids: "distinct (map outcome_id (gate_outcomes gb))"
    and os: "\<forall>x \<in> set os. verify_ranked policy x = Inr ()" "\<forall>x \<in> set os. scored_as policy x"
      "mset (map ranked_outcome os) = mset (filter is_pass (gate_outcomes gb))"
      "map rank os = map int [1..<Suc (length os)]"
      "sorted (map (\<lambda>x. position (ranking_score x) (ranked_outcome x)) os)"
  shows "verify_ranking_coverage \<lparr>ranking_gate_batch = gb, ranking_policy_of = policy, ranked_opportunities = os,
       vetoed_outcomes = filter (\<lambda>r. \<not> is_pass r) (gate_outcomes gb), ranked_subject_count = int (length os),
       vetoed_subject_count = int (length (filter (\<lambda>r. \<not> is_pass r) (gate_outcomes gb))), ranking_batch_id = []\<rparr> = Inr ()"
proof -
  let ?outs = "gate_outcomes gb" and ?f = "\<lambda>x. rank_key (ranking_score x) (ranked_outcome x)"
  obtain us where us: "mapE (verify_ranked policy) os = Inr us" using os(1) mapE_unit by metis
  obtain ws where ws: "mapE verify_gate_outcome (filter (\<lambda>r. \<not> is_pass r) ?outs) = Inr ws"
    using batch_outcomes_verified [OF ok(1)] mapE_unit [of verify_gate_outcome "filter (\<lambda>r. \<not> is_pass r) ?outs"] by auto
  have "\<forall>x \<in> set os. ?f x = Inr (position (ranking_score x) (ranked_outcome x))"
  proof
    fix x assume "x \<in> set os"
    then have "calculate_components (ranked_outcome x) policy = Inr (components x)" "repr (ranking_score x)"
      using os(2) repr_dsum by (auto simp: scored_as_def)
    then show "?f x = Inr (position (ranking_score x) (ranked_outcome x))"
      using components_Inr(7) rank_key_total by blast
  qed
  from sort_by_key_total [OF this] have sorted: "sort_by_key ?f os = Inr os" using sort_key_sorted [OF os(5)] by simp
  have m: "mset (map outcome_id (map ranked_outcome os)) = mset (map outcome_id (filter is_pass ?outs))"
    using os(3) by (metis mset_map)
  have "distinct (map outcome_id (filter is_pass ?outs))" using ids by (simp add: distinct_map_filter)
  then have d: "distinct (map (\<lambda>x. outcome_id (ranked_outcome x)) os)"
    using m mset_eq_imp_distinct_iff by (fastforce simp: comp_def)
  have st: "set (map (\<lambda>x. outcome_id (ranked_outcome x)) os) = set (map outcome_id (filter is_pass ?outs))"
    using mset_eq_setD [OF m] by (simp add: comp_def image_image)
  have "length os = length (filter is_pass ?outs)" using os(3) by (metis length_map size_mset)
  then have count: "int (length os) + int (length (filter (\<lambda>r. \<not> is_pass r) ?outs)) = int (length ?outs)"
    using sum_length_filter_compl [of is_pass ?outs] by simp
  show ?thesis
    using os(4) by (simp add: verify_ranking_coverage_def ok us ws Let_def sorted d st [simplified] count list_all2_same
        del: upt_Suc)
qed

lemma ranking_returns:
  assumes gb: "verify_gate_batch gb = Inr ()" and policy: "verify_ranking_policy policy = Inr ()" "weights_ok policy"
    and ids: "distinct (map outcome_id (gate_outcomes gb))"
    and each: "\<forall>r \<in> set (gate_outcomes gb). is_pass r \<longrightarrow> rankable r"
  shows "\<exists>b. assemble_ranking_batch gb (Some policy) = Inr b
    \<and> ranked_subject_count b + vetoed_subject_count b = int (length (gate_outcomes gb))"
proof -
  let ?ps = "filter is_pass (gate_outcomes gb)"
  have "\<forall>r \<in> set ?ps. \<exists>x. score_one policy r = Inr x"
    using components_return [OF _ _ _ policy] batch_outcomes_verified [OF gb] each
    by (fastforce simp: score_one_def)
  then obtain scored where scored: "mapE (score_one policy) ?ps = Inr scored" using mapE_unit by metis
  have sc: "\<forall>x \<in> set scored. calculate_components (fst (snd x)) policy = Inr (snd (snd x))
      \<and> fst x = dsum (map contribution (snd (snd x)))"
    by (rule ballI, erule mapE_set [OF scored], drule score_one_Inr) simp
  have "(\<lambda>(score, r, _). rank_key score r) x = Inr (position (fst x) (fst (snd x)))" if "x \<in> set scored" for x
    using that sc components_Inr(7) rank_key_total repr_dsum by (metis (no_types, lifting) case_prod_beta)
  then obtain ordered where ordered: "sort_by_key (\<lambda>(score, r, _). rank_key score r) scored = Inr ordered"
      "ordered = sort_key (\<lambda>x. position (fst x) (fst (snd x))) scored"
    using sort_by_key_total [of scored _ "\<lambda>x. position (fst x) (fst (snd x))"] by blast
  obtain os where os: "mapE (rank_one policy) (zip [1..<Suc (length ordered)] ordered) = Inr os"
      "\<forall>x \<in> set os. verify_ranked policy x = Inr ()"
    using ranked_returns [OF policy(2), of ordered] sc ordered(2) by auto
  note s = ranked_sound [OF scored ordered(1) os(1)]
  note f = ranked_fields [OF os(1)]
  note cov = coverage_returns [OF gb policy(1) ids os(2) s(2,1) f(1) [folded f(5)] s(3)]
  have "length os = length ?ps" using s(1) by (metis length_map size_mset)
  then have "int (length os) + int (length (filter (\<lambda>r. \<not> is_pass r) (gate_outcomes gb))) = int (length (gate_outcomes gb))"
    using sum_length_filter_compl [of is_pass "gate_outcomes gb"] by simp
  then show ?thesis
    unfolding assemble_ranking_batch_def gb bindE_Inr option.case policy(1) scored ordered(1) os(1) Let_def mk_ranking_batch_def
    using cov by simp
qed

text \<open>When the gate batch and the policy verify, the weights add up, the outcome identifiers differ
  and every passing outcome has unit metrics, a positive spread limit and a non-empty entry range, the
  assembly raises no error, and the batch it returns accounts for every outcome.\<close>

theorem ranking_complete:
  assumes gb: "verify_gate_batch gb = Inr ()" and policy: "verify_ranking_policy policy = Inr ()" "weights_ok policy"
    and ids: "distinct (map outcome_id (gate_outcomes gb))"
    and each: "\<forall>r \<in> set (gate_outcomes gb). is_pass r \<longrightarrow> rankable r"
  shows "\<exists>b. assemble_ranking_batch gb (Some policy) = Inr b
    \<and> ranked_subject_count b + vetoed_subject_count b = int (length (gate_outcomes gb))"
  by (rule ranking_returns [OF gb policy ids each])

section \<open>Witnesses\<close>

definition demo_ranking_policy :: ranking_policy where
  "demo_ranking_policy = default_ranking_policy
     \<lparr>ranking_policy_id := fields_id (ranking_policy_material default_ranking_policy)\<rparr>"

lemma demo_ranking_policy_ok:
  "verify_ranking_policy demo_ranking_policy = Inr ()" "weights_ok demo_ranking_policy"
proof -
  have "weights demo_ranking_policy = weights default_ranking_policy"
      "ranking_policy_material demo_ranking_policy = ranking_policy_material default_ranking_policy"
    by (simp_all add: weights_def ranking_policy_material_def demo_ranking_policy_def)
  note w = this(1) and m = this(2)
  show "verify_ranking_policy demo_ranking_policy = Inr ()"
    by (simp add: verify_ranking_policy_def m) (simp add: demo_ranking_policy_def)
  have grid: "on_grid (-27) (10 ^ 27) (Dec False c (-2))" if "c \<le> 25" for c
    by (rule on_grid_mono [OF on_grid_shift [OF on_grid_Dec [OF that]]]) simp_all
  then have "on_grid (-27) (10 ^ 27) (Dec False 25 (-2))" "on_grid (-27) (10 ^ 27) (Dec False 15 (-2))"
      "on_grid (-27) (10 ^ 27) (Dec False 10 (-2))" by (simp_all del: power_numeral)
  note grid = this [simplified]
  have "dval (dsum (map snd (weights default_ranking_policy))) = 1"
    by (simp add: weights_def default_ranking_policy_def dsum_def plus_decimal_def dplus_exact_def zero_decimal_def
        daligned_def dint_def dec_fix_exact repr_def prec_def dval_Dec)
  then show "weights_ok demo_ranking_policy"
    by (simp add: weights_ok_def w) (simp add: weights_def default_ranking_policy_def grid dval_Dec)
qed

lemma demo_rankable: "outcome_proposal r = demo_proposal \<Longrightarrow> outcome_policy r = demo_gate_policy \<Longrightarrow> rankable r"
proof -
  assume r: "outcome_proposal r = demo_proposal" "outcome_policy r = demo_gate_policy"
  have m: "relative_strength demo_metrics = 1" "trend_quality demo_metrics = 1" "volume_confirmation demo_metrics = 1"
      "liquidity_quality demo_metrics = 1" by (simp_all add: demo_metrics_def)
  have p: "proposal_metrics demo_proposal = demo_metrics" "entry_high (proposal_levels demo_proposal) = Dec False 101 0"
      "entry_low (proposal_levels demo_proposal) = Dec False 100 0" by (simp_all add: demo_proposal_def)
  have "dval (Dec False 101 0 - Dec False 100 0) = 1" using minus_exact [of 1 "Dec False 101 0" "Dec False 100 0"] by (simp add: dval_Dec)
  then show "rankable r" by (simp add: rankable_def r Let_def p m less_iff_dval dval_Dec)
qed

theorem ranking_complete_witness:
  "\<exists>gb b. assemble_ranking_batch gb (Some demo_ranking_policy) = Inr b
    \<and> ranked_subject_count b + vetoed_subject_count b = 1"
proof -
  obtain g r where g: "verify_gate_batch g = Inr ()" "gate_outcomes g = [r]" "is_pass r"
      "outcome_proposal r = demo_proposal" "outcome_policy r = demo_gate_policy" by (rule demo_gate_batch)
  then show ?thesis
    using ranking_complete [OF g(1) demo_ranking_policy_ok] demo_rankable by auto
qed

lemma demo_ranking:
  obtains gb b x where "assemble_ranking_batch gb (Some demo_ranking_policy) = Inr b" "verify_ranking_batch b = Inr ()"
    "gate_outcomes gb = [ranked_outcome x]" "is_pass (ranked_outcome x)" "ranked_opportunities b = [x]"
    "vetoed_outcomes b = []" "gate_evaluated_at (ranking_gate_batch b) = seconds 65"
    "outcome_proposal (ranked_outcome x) = demo_proposal" "outcome_quote (ranked_outcome x) = demo_quote (Dec False 100 0)"
    "evaluate_quote_gate demo_proposal (demo_quote (Dec False 100 0)) (seconds 65) demo_gate_policy
       = Inr (outcome_verdict (ranked_outcome x))"
    "verify_opportunity x = Inr ()"
proof -
  obtain g r where g: "verify_gate_batch g = Inr ()" "gate_outcomes g = [r]" "is_pass r"
      "outcome_proposal r = demo_proposal" "outcome_policy r = demo_gate_policy"
      "outcome_quote r = demo_quote (Dec False 100 0)" "gate_evaluated_at g = seconds 65"
      "evaluate_quote_gate demo_proposal (demo_quote (Dec False 100 0)) (seconds 65) demo_gate_policy = Inr (outcome_verdict r)"
    by (rule demo_gate_batch)
  obtain b where b: "assemble_ranking_batch g (Some demo_ranking_policy) = Inr b"
    using ranking_returns [OF g(1) demo_ranking_policy_ok] demo_rankable [OF g(4,5)] g(2) by auto
  note s = assembled_ranking [OF b]
  have "mset (map ranked_outcome (ranked_opportunities b)) = mset [r]" using s g(2,3) by simp
  then have "map ranked_outcome (ranked_opportunities b) = [r]" by (metis mset_single_iff mset.simps)
  then obtain x where x: "ranked_opportunities b = [x]" "ranked_outcome x = r" by auto
  have "verify_ranking_coverage b = Inr ()" using s by (auto simp: verify_ranking_batch_def res_simps)
  then have "verify_opportunity x = Inr ()"
    by (auto simp: verify_ranking_coverage_def Let_def res_simps x(1) verify_ranked_def)
  then show ?thesis using that [OF b _ _ _ x(1)] s g x(2) by simp
qed

theorem ranking_sound_witness:
  "\<exists>gb b r. assemble_ranking_batch gb (Some demo_ranking_policy) = Inr b
    \<and> gate_outcomes gb = [r] \<and> mset (map ranked_outcome (ranked_opportunities b)) = {#r#} \<and> verify_ranking_batch b = Inr ()"
proof -
  obtain g b and x :: ranked_opportunity where b: "assemble_ranking_batch g (Some demo_ranking_policy) = Inr b"
      "gate_outcomes g = [ranked_outcome x]" "is_pass (ranked_outcome x)" by (rule demo_ranking)
  show ?thesis using ranking_sound [OF b(1)] b by (intro exI [of _ g] exI [of _ b] exI [of _ "ranked_outcome x"]) simp
qed

end
