(* ===== verification/Sizing.thy ===== *)
theory Sizing
  imports Ranking
begin

text \<open>
  The portfolio sizing (\<open>risk/swing_portfolio.py\<close>).

  A portfolio snapshot and a sizing policy give the limits.  \<open>evaluate_sizing\<close> bounds the
  quantity of one ranked opportunity by risk, position, exposure, cash, liquidity and ask depth, or
  vetoes it with the reasons; a sized opportunity moves the capital allocation state.
  \<open>assemble_sizing_batch\<close> folds it over the ranking, and \<open>verify_sizing_batch\<close> replays the
  chain of states.
\<close>

section \<open>Snapshot, policy and state\<close>

definition size_err :: "string \<Rightarrow> py_exc" where
  "size_err msg = SwingPortfolioSizingError msg"

definition nonnegative_decimal :: "decimal \<Rightarrow> string \<Rightarrow> bool \<times> py_exc" where
  "nonnegative_decimal v msg = (v < 0, size_err msg)"

definition positive_decimal :: "decimal \<Rightarrow> string \<Rightarrow> bool \<times> py_exc" where
  "positive_decimal v msg = (v \<le> 0, size_err msg)"

definition fraction_guard :: "decimal \<Rightarrow> bool \<times> py_exc" where
  "fraction_guard v = (v \<le> 0 \<or> 1 < v, size_err ''sizing fractions must be finite Decimals in (0, 1]'')"

record portfolio_snapshot =
  capital :: decimal
  portfolio_cash :: decimal
  portfolio_exposure :: decimal
  portfolio_risk :: decimal
  portfolio_positions :: int
  daily_realized_pnl :: decimal
  pilot_realized_pnl :: decimal
  as_of :: instant
  currency :: string
  portfolio_snapshot_id :: string

definition portfolio_material :: "portfolio_snapshot \<Rightarrow> (string \<times> pyval) list" where
  "portfolio_material p =
     [(''capital'', PDecimal (capital p)),
      (''cash_available'', PDecimal (portfolio_cash p)),
      (''gross_exposure'', PDecimal (portfolio_exposure p)),
      (''open_risk'', PDecimal (portfolio_risk p)),
      (''open_positions'', PInt (portfolio_positions p)),
      (''daily_realized_pnl'', PDecimal (daily_realized_pnl p)),
      (''pilot_realized_pnl'', PDecimal (pilot_realized_pnl p)),
      (''as_of'', PDatetime (as_of p)),
      (''currency'', PStr (currency p)),
      (''schema_version'', PStr ''swing-portfolio-snapshot/v1'')]"

definition mk_portfolio :: "portfolio_snapshot \<Rightarrow> pydatetime \<Rightarrow> portfolio_snapshot res" where
  "mk_portfolio p0 moment = guards
     [positive_decimal (capital p0) ''portfolio capital must be positive'',
      nonnegative_decimal (portfolio_cash p0) ''portfolio cash, exposure, and open risk must be non-negative'',
      nonnegative_decimal (portfolio_exposure p0) ''portfolio cash, exposure, and open risk must be non-negative'',
      nonnegative_decimal (portfolio_risk p0) ''portfolio cash, exposure, and open risk must be non-negative'',
      (portfolio_positions p0 < 0, size_err ''portfolio open_positions must be a non-negative integer''),
      (capital p0 < portfolio_cash p0 + portfolio_exposure p0,
         size_err ''portfolio cash and gross exposure exceed capital''),
      (capital p0 < portfolio_risk p0, size_err ''portfolio open risk exceeds capital'')]
     (case to_utc moment of None \<Rightarrow> Inl (size_err ''portfolio as_of must be timezone-aware'')
      | Some t \<Rightarrow> let p = p0\<lparr>as_of := t\<rparr> in guards
          [(currency p \<noteq> ''INR'', size_err ''portfolio currency must be INR'')]
          (Inr (p\<lparr>portfolio_snapshot_id := fields_id (portfolio_material p)\<rparr>)))"

definition verify_portfolio :: "portfolio_snapshot \<Rightarrow> unit res" where
  "verify_portfolio p = guards [(portfolio_snapshot_id p \<noteq> fields_id (portfolio_material p),
     size_err ''portfolio snapshot content identity failed'')] (Inr ())"

record sizing_policy =
  per_trade_risk_fraction :: decimal
  maximum_total_open_risk_fraction :: decimal
  maximum_position_notional_fraction :: decimal
  maximum_gross_exposure_fraction :: decimal
  maximum_daily_turnover_participation :: decimal
  maximum_top_ask_participation :: decimal
  maximum_daily_loss_fraction :: decimal
  maximum_pilot_drawdown_fraction :: decimal
  minimum_net_reward_risk :: decimal
  maximum_open_positions :: int
  maximum_new_positions_per_run :: int
  sizing_policy_version :: string
  sizing_policy_id :: string

definition sizing_policy_material :: "sizing_policy \<Rightarrow> (string \<times> pyval) list" where
  "sizing_policy_material p =
     [(''per_trade_risk_fraction'', PDecimal (per_trade_risk_fraction p)),
      (''maximum_total_open_risk_fraction'', PDecimal (maximum_total_open_risk_fraction p)),
      (''maximum_position_notional_fraction'', PDecimal (maximum_position_notional_fraction p)),
      (''maximum_gross_exposure_fraction'', PDecimal (maximum_gross_exposure_fraction p)),
      (''maximum_daily_turnover_participation'', PDecimal (maximum_daily_turnover_participation p)),
      (''maximum_top_ask_participation'', PDecimal (maximum_top_ask_participation p)),
      (''maximum_daily_loss_fraction'', PDecimal (maximum_daily_loss_fraction p)),
      (''maximum_pilot_drawdown_fraction'', PDecimal (maximum_pilot_drawdown_fraction p)),
      (''minimum_net_reward_risk'', PDecimal (minimum_net_reward_risk p)),
      (''maximum_open_positions'', PInt (maximum_open_positions p)),
      (''maximum_new_positions_per_run'', PInt (maximum_new_positions_per_run p)),
      (''policy_version'', PStr (sizing_policy_version p))]"

definition sizing_policy_guards :: "sizing_policy \<Rightarrow> (bool \<times> py_exc) list" where
  "sizing_policy_guards p =
     [fraction_guard (per_trade_risk_fraction p),
      fraction_guard (maximum_total_open_risk_fraction p),
      fraction_guard (maximum_position_notional_fraction p),
      fraction_guard (maximum_gross_exposure_fraction p),
      fraction_guard (maximum_daily_turnover_participation p),
      fraction_guard (maximum_top_ask_participation p),
      fraction_guard (maximum_daily_loss_fraction p),
      fraction_guard (maximum_pilot_drawdown_fraction p),
      positive_decimal (minimum_net_reward_risk p) ''minimum net reward/risk must be positive'',
      (maximum_open_positions p \<le> 0, size_err ''maximum_open_positions must be a positive integer''),
      (maximum_new_positions_per_run p \<le> 0,
         size_err ''maximum_new_positions_per_run must be a positive integer''),
      (maximum_open_positions p < maximum_new_positions_per_run p,
         size_err ''new positions per run cannot exceed maximum open positions''),
      (maximum_total_open_risk_fraction p < per_trade_risk_fraction p,
         size_err ''per-trade risk cannot exceed total open-risk limit''),
      (maximum_gross_exposure_fraction p < maximum_position_notional_fraction p,
         size_err ''position notional cannot exceed gross-exposure limit''),
      (maximum_pilot_drawdown_fraction p < maximum_daily_loss_fraction p,
         size_err ''daily loss limit cannot exceed pilot drawdown limit''),
      (sizing_policy_version p \<noteq> ''swing-portfolio-sizing-policy/v1'',
         size_err ''unsupported portfolio sizing policy'')]"

definition mk_sizing_policy :: "sizing_policy \<Rightarrow> sizing_policy res" where
  "mk_sizing_policy p = guards (sizing_policy_guards p)
     (Inr (p\<lparr>sizing_policy_id := fields_id (sizing_policy_material p)\<rparr>))"

definition verify_sizing_policy :: "sizing_policy \<Rightarrow> unit res" where
  "verify_sizing_policy p = guards [(sizing_policy_id p \<noteq> fields_id (sizing_policy_material p),
     size_err ''sizing policy content identity failed'')] (Inr ())"

definition default_sizing_policy :: sizing_policy where
  "default_sizing_policy = \<lparr>per_trade_risk_fraction = Dec False 5 (-3),
     maximum_total_open_risk_fraction = Dec False 2 (-2), maximum_position_notional_fraction = Dec False 25 (-2),
     maximum_gross_exposure_fraction = Dec False 80 (-2), maximum_daily_turnover_participation = Dec False 25 (-4),
     maximum_top_ask_participation = Dec False 20 (-2), maximum_daily_loss_fraction = Dec False 1 (-2),
     maximum_pilot_drawdown_fraction = Dec False 2 (-2), minimum_net_reward_risk = Dec False 250 (-2),
     maximum_open_positions = 4, maximum_new_positions_per_run = 1,
     sizing_policy_version = ''swing-portfolio-sizing-policy/v1'', sizing_policy_id = []\<rparr>"

record allocation_state =
  cash_available :: decimal
  gross_exposure :: decimal
  open_risk :: decimal
  open_positions :: int
  state_id :: string

definition state_material :: "allocation_state \<Rightarrow> (string \<times> pyval) list" where
  "state_material s =
     [(''cash_available'', PDecimal (cash_available s)),
      (''gross_exposure'', PDecimal (gross_exposure s)),
      (''open_risk'', PDecimal (open_risk s)),
      (''open_positions'', PInt (open_positions s)),
      (''schema_version'', PStr ''swing-capital-allocation-state/v1'')]"

definition mk_state :: "allocation_state \<Rightarrow> allocation_state res" where
  "mk_state s = guards
     [nonnegative_decimal (cash_available s) ''allocation state values must be non-negative'',
      nonnegative_decimal (gross_exposure s) ''allocation state values must be non-negative'',
      nonnegative_decimal (open_risk s) ''allocation state values must be non-negative'',
      (open_positions s < 0, size_err ''allocation state open_positions must be non-negative'')]
     (Inr (s\<lparr>state_id := fields_id (state_material s)\<rparr>))"

definition verify_state :: "allocation_state \<Rightarrow> unit res" where
  "verify_state s = guards [(state_id s \<noteq> fields_id (state_material s),
     size_err ''allocation state content identity failed'')] (Inr ())"

definition initial_state :: "portfolio_snapshot \<Rightarrow> allocation_state res" where
  "initial_state p = mk_state \<lparr>cash_available = portfolio_cash p, gross_exposure = portfolio_exposure p,
     open_risk = portfolio_risk p, open_positions = portfolio_positions p, state_id = []\<rparr>"

section \<open>One opportunity\<close>

definition top_ask_quantity :: "full_quote \<Rightarrow> int res" where
  "top_ask_quantity q = (case best_ask q of None \<Rightarrow> Inl (size_err ''passing outcome has no best ask'')
     | Some a \<Rightarrow> (case List.find (\<lambda>l. deq (level_price l) a) (depth_sell q) of
         None \<Rightarrow> Inl (size_err ''passing outcome has no bound best-ask depth'')
       | Some l \<Rightarrow> Inr (level_quantity l)))"

record sizing_caps =
  share_entry :: decimal
  share_cost :: decimal
  share_loss :: decimal
  reward_risk :: decimal
  trade_risk_quantity :: int
  open_risk_quantity :: int
  risk_quantity :: int
  position_quantity :: int
  gross_quantity :: int
  cash_quantity :: int
  liquidity_quantity :: int
  ask_quantity :: int

definition remaining :: "decimal \<Rightarrow> decimal \<Rightarrow> decimal" where
  \<comment> \<open>\<open>max(ZERO, limit - used)\<close>\<close>
  "remaining limit used = py_max 0 (limit - used)"

definition size_caps ::
  "ranked_opportunity \<Rightarrow> portfolio_snapshot \<Rightarrow> sizing_policy \<Rightarrow> allocation_state \<Rightarrow> sizing_caps res" where
  "size_caps x p policy s = (let r = ranked_outcome x in
     case verdict_levels (outcome_verdict r) of
       None \<Rightarrow> Inl (size_err ''ranked opportunity lacks quote-adjusted levels'')
     | Some l \<Rightarrow> let cost = cost_per_share l; loss = entry_high l - stop l + cost;
         reward = target l - entry_high l - cost in guards
       [(loss \<le> 0 \<or> reward \<le> 0, size_err ''ranked opportunity has invalid risk/reward'')]
       (bindE (ddiv reward loss) (\<lambda>ratio.
        let budget = capital p * per_trade_risk_fraction policy;
            risk_left = remaining (capital p * maximum_total_open_risk_fraction policy) (open_risk s);
            gross_left = remaining (capital p * maximum_gross_exposure_fraction policy) (gross_exposure s);
            liquidity = median_traded_value (proposal_metrics (outcome_proposal r))
              * maximum_daily_turnover_participation policy in
        bindE (top_ask_quantity (outcome_quote r)) (\<lambda>ask.
        bindE (ddiv (py_min budget risk_left) loss) (\<lambda>by_risk.
        bindE (ddiv (capital p * maximum_position_notional_fraction policy) (entry_high l)) (\<lambda>by_position.
        bindE (ddiv gross_left (entry_high l)) (\<lambda>by_gross.
        bindE (ddiv (cash_available s) (entry_high l + cost)) (\<lambda>by_cash.
        bindE (ddiv liquidity (entry_high l)) (\<lambda>by_liquidity.
        bindE (ddiv budget loss) (\<lambda>by_trade.
        bindE (ddiv risk_left loss) (\<lambda>by_open_risk.
        Inr \<lparr>share_entry = entry_high l, share_cost = cost, share_loss = loss, reward_risk = ratio,
          trade_risk_quantity = floor_units by_trade, open_risk_quantity = floor_units by_open_risk,
          risk_quantity = floor_units by_risk, position_quantity = floor_units by_position,
          gross_quantity = floor_units by_gross, cash_quantity = floor_units by_cash,
          liquidity_quantity = floor_units by_liquidity,
          ask_quantity = floor_units (dec_of_int ask * maximum_top_ask_participation policy)\<rparr>)))))))))))"

definition cap_quantity :: "sizing_caps \<Rightarrow> int" where
  "cap_quantity c = min (risk_quantity c) (min (position_quantity c) (min (gross_quantity c)
     (min (cash_quantity c) (min (liquidity_quantity c) (ask_quantity c)))))"

definition sizing_flags ::
  "portfolio_snapshot \<Rightarrow> sizing_policy \<Rightarrow> allocation_state \<Rightarrow> sizing_caps \<Rightarrow> (bool \<times> string) list" where
  "sizing_flags p policy s c =
     [(daily_realized_pnl p \<le> - (capital p * maximum_daily_loss_fraction policy), ''DAILY_LOSS_HALT''),
      (pilot_realized_pnl p \<le> - (capital p * maximum_pilot_drawdown_fraction policy), ''PILOT_DRAWDOWN_HALT''),
      (maximum_open_positions policy \<le> open_positions s, ''MAX_OPEN_POSITIONS_REACHED''),
      (maximum_new_positions_per_run policy \<le> open_positions s - portfolio_positions p,
         ''MAX_NEW_POSITIONS_PER_RUN_REACHED''),
      (reward_risk c < minimum_net_reward_risk policy, ''NET_REWARD_RISK_BELOW_MINIMUM''),
      (trade_risk_quantity c < 1, ''PER_TRADE_RISK_TOO_SMALL''),
      (open_risk_quantity c < 1, ''TOTAL_OPEN_RISK_EXHAUSTED''),
      (position_quantity c < 1, ''POSITION_NOTIONAL_CAP_TOO_SMALL''),
      (gross_quantity c < 1, ''GROSS_EXPOSURE_EXHAUSTED''),
      (cash_quantity c < 1, ''CASH_EXHAUSTED''),
      (liquidity_quantity c < 1, ''LIQUIDITY_CAP_TOO_SMALL''),
      (ask_quantity c < 1, ''ASK_DEPTH_CAP_TOO_SMALL'')]"

datatype sizing_disposition = SIZED | SIZING_VETO

record sizing_result =
  sizing_verdict :: sizing_disposition
  sizing_reasons :: "string list"
  quantity :: int
  entry_notional :: decimal
  round_trip_cost :: decimal
  planned_max_loss :: decimal
  state_after :: allocation_state

definition size_position :: "sizing_caps \<Rightarrow> allocation_state \<Rightarrow> sizing_result res" where
  \<comment> \<open>the sized branch: the amounts and the state after\<close>
  "size_position c s = (let n = dec_of_int (cap_quantity c); notional = share_entry c * n;
       cost = share_cost c * n; loss = share_loss c * n in
     bindE (mk_state \<lparr>cash_available = cash_available s - notional - cost,
         gross_exposure = gross_exposure s + notional, open_risk = open_risk s + loss,
         open_positions = open_positions s + 1, state_id = []\<rparr>) (\<lambda>s'.
     Inr \<lparr>sizing_verdict = SIZED, sizing_reasons = [], quantity = cap_quantity c, entry_notional = notional,
       round_trip_cost = cost, planned_max_loss = loss, state_after = s'\<rparr>))"

definition evaluate_sizing ::
  "ranked_opportunity \<Rightarrow> portfolio_snapshot \<Rightarrow> sizing_policy \<Rightarrow> allocation_state \<Rightarrow> sizing_result res" where
  "evaluate_sizing x p policy s = bindE (size_caps x p policy s) (\<lambda>c.
     let reasons = flags (sizing_flags p policy s c) in
     if reasons \<noteq> [] \<or> cap_quantity c < 1 then
       (if cap_quantity c < 1 \<and> reasons = [] then Inl (size_err ''sizing produced an unexplained zero quantity'')
        else Inr \<lparr>sizing_verdict = SIZING_VETO, sizing_reasons = reasons, quantity = 0, entry_notional = 0,
          round_trip_cost = 0, planned_max_loss = 0, state_after = s\<rparr>)
     else size_position c s)"

section \<open>Outcomes\<close>

record sizing_outcome =
  sized_opportunity :: ranked_opportunity
  sized_portfolio :: portfolio_snapshot
  sized_policy :: sizing_policy
  state_before :: allocation_state
  sized_result :: sizing_result
  sizing_outcome_id :: string

fun sizing_disposition_val :: "sizing_disposition \<Rightarrow> pyval" where
  "sizing_disposition_val SIZED = PEnum ''india_swing.risk.swing_portfolio.SwingSizingDisposition'' (PStr ''SIZED'')"
| "sizing_disposition_val SIZING_VETO = PEnum ''india_swing.risk.swing_portfolio.SwingSizingDisposition'' (PStr ''VETO'')"

definition portfolio_val :: "portfolio_snapshot \<Rightarrow> pyval" where
  "portfolio_val p = PDataclass ''india_swing.risk.swing_portfolio.SwingPortfolioSnapshot''
     (portfolio_material p @ [(''portfolio_snapshot_id'', PStr (portfolio_snapshot_id p))])"

definition sizing_policy_val :: "sizing_policy \<Rightarrow> pyval" where
  "sizing_policy_val p = PDataclass ''india_swing.risk.swing_portfolio.SwingPortfolioSizingPolicy''
     (sizing_policy_material p @ [(''policy_id'', PStr (sizing_policy_id p))])"

definition state_val :: "allocation_state \<Rightarrow> pyval" where
  "state_val s = PDataclass ''india_swing.risk.swing_portfolio.SwingCapitalAllocationState''
     (state_material s @ [(''state_id'', PStr (state_id s))])"

definition sizing_outcome_material :: "sizing_outcome \<Rightarrow> (string \<times> pyval) list" where
  "sizing_outcome_material x = (let r = sized_result x in
     [(''opportunity'', opportunity_val (sized_opportunity x)),
      (''portfolio'', portfolio_val (sized_portfolio x)),
      (''policy'', sizing_policy_val (sized_policy x)),
      (''state_before'', state_val (state_before x)),
      (''disposition'', sizing_disposition_val (sizing_verdict r)),
      (''reason_codes'', PTuple (map PStr (sizing_reasons r))),
      (''quantity'', PInt (quantity r)),
      (''entry_notional'', PDecimal (entry_notional r)),
      (''estimated_round_trip_cost'', PDecimal (round_trip_cost r)),
      (''planned_max_loss'', PDecimal (planned_max_loss r)),
      (''state_after'', state_val (state_after r)),
      (''schema_version'', PStr ''swing-portfolio-sizing-outcome/v1'')])"

definition is_sized :: "sizing_outcome \<Rightarrow> bool" where
  "is_sized x = (sizing_verdict (sized_result x) = SIZED)"

definition replay_guards :: "sizing_result \<Rightarrow> sizing_result \<Rightarrow> (bool \<times> py_exc) list" where
  \<comment> \<open>the recorded result against the replayed one\<close>
  "replay_guards r replayed =
     [(sizing_verdict replayed \<noteq> sizing_verdict r, size_err ''sizing disposition does not replay''),
      (sizing_reasons r \<noteq> sizing_reasons replayed, size_err ''sizing reasons do not replay''),
      (\<not> sorted_unique (sizing_reasons r), size_err ''sizing reasons must be sorted and unique''),
      (quantity r \<noteq> quantity replayed, size_err ''sizing quantity does not replay''),
      (\<not> deq (entry_notional r) (entry_notional replayed) \<or> \<not> deq (round_trip_cost r) (round_trip_cost replayed)
         \<or> \<not> deq (planned_max_loss r) (planned_max_loss replayed), size_err ''sizing amounts do not replay''),
      (state_id (state_after r) \<noteq> state_id (state_after replayed), size_err ''allocation state does not replay''),
      (sizing_verdict r = SIZED \<and> (sizing_reasons r \<noteq> [] \<or> quantity r \<le> 0),
         size_err ''sized outcome is inconsistent''),
      (sizing_verdict r \<noteq> SIZED \<and> (sizing_reasons r = [] \<or> quantity r \<noteq> 0),
         size_err ''vetoed sizing outcome is inconsistent'')]"

definition verify_sizing_fields :: "sizing_outcome \<Rightarrow> unit res" where
  \<comment> \<open>\<open>_verify\<close>\<close>
  "verify_sizing_fields x = (let r = sized_result x in
     bindE (verify_opportunity (sized_opportunity x)) (\<lambda>_.
     bindE (verify_portfolio (sized_portfolio x)) (\<lambda>_.
     bindE (verify_sizing_policy (sized_policy x)) (\<lambda>_.
     bindE (verify_state (state_before x)) (\<lambda>_.
     bindE (verify_state (state_after r)) (\<lambda>_. guards
       [nonnegative_decimal (entry_notional r) ''sizing amounts must be non-negative Decimals'',
        nonnegative_decimal (round_trip_cost r) ''sizing amounts must be non-negative Decimals'',
        nonnegative_decimal (planned_max_loss r) ''sizing amounts must be non-negative Decimals'']
       (bindE (evaluate_sizing (sized_opportunity x) (sized_portfolio x) (sized_policy x) (state_before x))
         (\<lambda>replayed. guards (replay_guards r replayed) (Inr ())))))))))"

definition mk_sizing_outcome :: "sizing_outcome \<Rightarrow> sizing_outcome res" where
  "mk_sizing_outcome x = bindE (verify_sizing_fields x) (\<lambda>_.
     Inr (x\<lparr>sizing_outcome_id := fields_id (sizing_outcome_material x)\<rparr>))"

definition verify_sizing_outcome :: "sizing_outcome \<Rightarrow> unit res" where
  "verify_sizing_outcome x = bindE (verify_sizing_fields x) (\<lambda>_. guards
     [(sizing_outcome_id x \<noteq> fields_id (sizing_outcome_material x),
       size_err ''sizing outcome content identity failed'')] (Inr ()))"

section \<open>Batches\<close>

record sizing_batch =
  sizing_ranking :: ranking_batch
  sizing_portfolio :: portfolio_snapshot
  sizing_policy_of :: sizing_policy
  sizing_outcomes :: "sizing_outcome list"
  upstream_vetoes :: "gate_outcome list"
  sized_subject_count :: int
  sizing_vetoed_count :: int
  final_state :: allocation_state
  sizing_batch_id :: string

definition sizing_outcome_val :: "sizing_outcome \<Rightarrow> pyval" where
  "sizing_outcome_val x = PDataclass ''india_swing.risk.swing_portfolio.SwingPortfolioSizingOutcome''
     (sizing_outcome_material x @ [(''sizing_outcome_id'', PStr (sizing_outcome_id x))])"

definition ranking_batch_val :: "ranking_batch \<Rightarrow> pyval" where
  "ranking_batch_val b = PDataclass ''india_swing.signals.opportunity_ranking.SwingOpportunityRankingBatch''
     (ranking_batch_material b @ [(''ranking_batch_id'', PStr (ranking_batch_id b))])"

definition sizing_batch_material :: "sizing_batch \<Rightarrow> (string \<times> pyval) list" where
  "sizing_batch_material b =
     [(''ranking_batch'', ranking_batch_val (sizing_ranking b)),
      (''portfolio'', portfolio_val (sizing_portfolio b)),
      (''policy'', sizing_policy_val (sizing_policy_of b)),
      (''outcomes'', PTuple (map sizing_outcome_val (sizing_outcomes b))),
      (''upstream_vetoes'', PTuple (map gate_outcome_val (upstream_vetoes b))),
      (''sized_subject_count'', PInt (sized_subject_count b)),
      (''vetoed_subject_count'', PInt (sizing_vetoed_count b)),
      (''final_state'', state_val (final_state b)),
      (''schema_version'', PStr ''swing-portfolio-sizing-batch/v1'')]"

definition verify_link ::
  "portfolio_snapshot \<Rightarrow> sizing_policy \<Rightarrow> allocation_state \<Rightarrow> sizing_outcome \<times> ranked_opportunity \<Rightarrow> allocation_state res" where
  \<comment> \<open>one outcome of the batch against its opportunity and the expected state\<close>
  "verify_link p policy expected = (\<lambda>(x, o1). bindE (verify_sizing_outcome x) (\<lambda>_. guards
     [(opportunity_id (sized_opportunity x) \<noteq> opportunity_id o1,
         size_err ''sizing outcome is not bound to its ranked opportunity''),
      (portfolio_snapshot_id (sized_portfolio x) \<noteq> portfolio_snapshot_id p,
         size_err ''sizing outcome portfolio differs''),
      (sizing_policy_id (sized_policy x) \<noteq> sizing_policy_id policy, size_err ''sizing outcome policy differs''),
      (state_id (state_before x) \<noteq> state_id expected, size_err ''allocation state chain is broken'')]
     (Inr (state_after (sized_result x)))))"

definition limit_guards :: "sizing_batch \<Rightarrow> (bool \<times> py_exc) list" where
  "limit_guards b = (let xs = sizing_outcomes b; p = sizing_portfolio b; policy = sizing_policy_of b;
       sized = int (length (filter is_sized xs)) in
     [(sized_subject_count b \<noteq> sized \<or> sizing_vetoed_count b \<noteq> int (length xs) - sized,
         size_err ''sizing subject counts are inconsistent''),
      (py_max (portfolio_risk p) (capital p * maximum_total_open_risk_fraction policy) < open_risk (final_state b),
         size_err ''final open risk exceeds the policy limit''),
      (py_max (portfolio_exposure p) (capital p * maximum_gross_exposure_fraction policy)
           < gross_exposure (final_state b), size_err ''final gross exposure exceeds the policy limit'')])"

definition verify_sizing_coverage :: "sizing_batch \<Rightarrow> unit res" where
  "verify_sizing_coverage b = (let xs = sizing_outcomes b; os = ranked_opportunities (sizing_ranking b) in
     bindE (verify_ranking_batch (sizing_ranking b)) (\<lambda>_.
     bindE (verify_portfolio (sizing_portfolio b)) (\<lambda>_.
     bindE (verify_sizing_policy (sizing_policy_of b)) (\<lambda>_. guards
       [(\<not> list_all2 (\<lambda>r v. py_eq (gate_outcome_val r) (gate_outcome_val v)) (upstream_vetoes b)
            (vetoed_outcomes (sizing_ranking b)), size_err ''upstream vetoes were not preserved exactly''),
        (length xs \<noteq> length os, size_err ''sizing outcomes do not exactly cover ranked opportunities'')]
       (bindE (initial_state (sizing_portfolio b)) (\<lambda>s0.
        bindE (foldE (verify_link (sizing_portfolio b) (sizing_policy_of b)) s0 (zip xs os)) (\<lambda>expected.
        bindE (verify_state (final_state b)) (\<lambda>_. guards
          ((state_id (final_state b) \<noteq> state_id expected, size_err ''final allocation state does not replay'')
             # limit_guards b) (Inr ())))))))))"

definition mk_sizing_batch :: "sizing_batch \<Rightarrow> sizing_batch res" where
  "mk_sizing_batch b = guards
     [(sized_subject_count b < 0, size_err ''sizing subject counts must be non-negative integers''),
      (sizing_vetoed_count b < 0, size_err ''sizing subject counts must be non-negative integers'')]
     (bindE (verify_sizing_coverage b) (\<lambda>_. Inr (b\<lparr>sizing_batch_id := fields_id (sizing_batch_material b)\<rparr>)))"

definition verify_sizing_batch :: "sizing_batch \<Rightarrow> unit res" where
  "verify_sizing_batch b = bindE (verify_sizing_coverage b) (\<lambda>_. guards
     [(sizing_batch_id b \<noteq> fields_id (sizing_batch_material b),
       size_err ''sizing batch content identity failed'')] (Inr ()))"

type_synonym allocation = "allocation_state \<times> sizing_outcome list"

definition allocate ::
  "portfolio_snapshot \<Rightarrow> sizing_policy \<Rightarrow> allocation \<Rightarrow> ranked_opportunity \<Rightarrow> allocation res" where
  \<comment> \<open>one pass of the loop over the ranked opportunities\<close>
  "allocate p policy = (\<lambda>(s, xs) o1. bindE (evaluate_sizing o1 p policy s) (\<lambda>r.
     bindE (mk_sizing_outcome \<lparr>sized_opportunity = o1, sized_portfolio = p, sized_policy = policy, state_before = s,
       sized_result = r, sizing_outcome_id = []\<rparr>) (\<lambda>x. Inr (state_after r, xs @ [x]))))"

definition assemble_sizing_batch ::
  "ranking_batch \<Rightarrow> portfolio_snapshot \<Rightarrow> sizing_policy option \<Rightarrow> sizing_batch res" where
  "assemble_sizing_batch rb p chosen = bindE (verify_ranking_batch rb) (\<lambda>_.
     bindE (verify_portfolio p) (\<lambda>_. guards
     [(gate_evaluated_at (ranking_gate_batch rb) < as_of p, size_err ''portfolio snapshot is future-known'')]
     (bindE (case chosen of None \<Rightarrow> mk_sizing_policy default_sizing_policy | Some policy \<Rightarrow> Inr policy) (\<lambda>policy.
      bindE (verify_sizing_policy policy) (\<lambda>_.
      bindE (initial_state p) (\<lambda>s0.
      bindE (foldE (allocate p policy) (s0, []) (ranked_opportunities rb)) (\<lambda>(s, xs).
      let sized = int (length (filter is_sized xs)) in
      mk_sizing_batch \<lparr>sizing_ranking = rb, sizing_portfolio = p, sizing_policy_of = policy, sizing_outcomes = xs,
        upstream_vetoes = vetoed_outcomes rb, sized_subject_count = sized,
        sizing_vetoed_count = int (length xs) - sized, final_state = s, sizing_batch_id = []\<rparr>)))))))"

section \<open>Quantities and budgets\<close>

lemma floor_units_pos: "1 \<le> floor_units v \<Longrightarrow> 0 < dval v"
  by (simp add: floor_units_def le_iff_dval split: if_splits)

lemma quotient_divisor_pos:
  assumes "1 \<le> floor_units (dquot a b)" and "\<not> dzero b" and "0 \<le> dval a"
  shows "0 < dval b"
proof (rule ccontr)
  assume "\<not> 0 < dval b"
  then have "dval a / dval b \<le> dval 0" using assms(3) by (simp add: divide_nonneg_nonpos)
  then have "dval (dquot a b) \<le> 0" using dquot_le [OF assms(2), of 0 a] by simp
  then show False using floor_units_pos [OF assms(1)] by simp
qed

text \<open>A quantity read off a rounded quotient keeps the budget up to 10^-18 of one unit.\<close>

lemma floor_quot_budget:
  assumes n: "1 \<le> n" "n \<le> floor_units (dquot a b)" "n \<le> 10 ^ 9" and b: "0 < dval b"
  shows "of_int n * dval b \<le> dval a + dval b / 10 ^ 18"
proof (rule ccontr)
  assume c: "\<not> ?thesis"
  have b0: "\<not> dzero b" using b by (simp flip: dval_zero_iff)
  define m where "m = Dec False (nat n * 10 ^ 18 - 1) (-18)"
  have pos: "1 \<le> nat n * 10 ^ 18" using n(1) by simp
  have "nat n * 10 ^ 18 \<le> 10 ^ 9 * 10 ^ 18" using n(3) by (intro mult_right_mono) simp_all
  then have "nat n * 10 ^ 18 - 1 < 10 ^ 28" by (rule le_less_trans [OF diff_le_self le_less_trans]) simp
  then have r: "repr m" by (simp add: repr_def m_def prec_def)
  have v: "dval m = of_int n - 1 / 10 ^ 18"
    using pos n(1) by (simp add: m_def dval_Dec of_nat_diff power_int_minus field_simps)
  have "dval a / dval b \<le> dval m" using c b by (simp add: v field_simps)
  then have "dval (dquot a b) \<le> dval m" by (rule dquot_le [OF b0 r])
  then have "dval (dquot a b) < of_int n" unfolding v by (rule le_less_trans) simp
  moreover have "1 \<le> floor_units (dquot a b)" using n by linarith
  then have "of_int (floor_units (dquot a b)) \<le> dval (dquot a b)" by (rule floor_units_le [OF less_imp_le [OF floor_units_pos]])
  ultimately have "(of_int (floor_units (dquot a b)) :: rat) < of_int n" by linarith
  then show False using n(2) by simp
qed

lemma floor_product_cap:
  assumes "1 \<le> n" "n \<le> floor_units v"
  shows "of_int n \<le> dval v"
proof -
  have "of_int (floor_units v) \<le> dval v" using assms by (intro floor_units_le [OF less_imp_le [OF floor_units_pos]]) linarith
  moreover have "(of_int n :: rat) \<le> of_int (floor_units v)" using assms(2) by simp
  ultimately show ?thesis by linarith
qed

lemma ddiv_Inr: "ddiv a b = Inr q \<longleftrightarrow> \<not> dzero b \<and> q = dquot a b"
  by (auto simp: ddiv_def)

lemma dval_remaining: "dval (remaining limit used) = max 0 (dval (limit - used))"
  by (simp add: remaining_def dval_py_max)

section \<open>What the capacities are\<close>

lemma size_caps_Inr:
  assumes "size_caps x p policy s = Inr c"
  obtains l ask where "verdict_levels (outcome_verdict (ranked_outcome x)) = Some l"
    "top_ask_quantity (outcome_quote (ranked_outcome x)) = Inr ask"
    "share_entry c = entry_high l" "share_cost c = cost_per_share l"
    "share_loss c = entry_high l - stop l + cost_per_share l" "0 < dval (share_loss c)"
    "reward_risk c = dquot (target l - entry_high l - cost_per_share l) (share_loss c)"
    "trade_risk_quantity c = floor_units (dquot (capital p * per_trade_risk_fraction policy) (share_loss c))"
    "open_risk_quantity c = floor_units (dquot (remaining (capital p * maximum_total_open_risk_fraction policy)
       (open_risk s)) (share_loss c))"
    "risk_quantity c = floor_units (dquot (py_min (capital p * per_trade_risk_fraction policy)
       (remaining (capital p * maximum_total_open_risk_fraction policy) (open_risk s))) (share_loss c))"
    "position_quantity c = floor_units (dquot (capital p * maximum_position_notional_fraction policy) (share_entry c))"
    "gross_quantity c = floor_units (dquot (remaining (capital p * maximum_gross_exposure_fraction policy)
       (gross_exposure s)) (share_entry c))"
    "cash_quantity c = floor_units (dquot (cash_available s) (share_entry c + share_cost c))"
    "liquidity_quantity c = floor_units (dquot (median_traded_value (proposal_metrics (outcome_proposal (ranked_outcome x)))
       * maximum_daily_turnover_participation policy) (share_entry c))"
    "ask_quantity c = floor_units (dec_of_int ask * maximum_top_ask_participation policy)"
    "\<not> dzero (share_entry c)" "\<not> dzero (share_entry c + share_cost c)"
proof -
  obtain l where l: "verdict_levels (outcome_verdict (ranked_outcome x)) = Some l"
    using assms by (auto simp: size_caps_def Let_def split: option.splits)
  show ?thesis
    using assms that [OF l] by (auto simp: size_caps_def l Let_def res_simps guards_Inr_iff ddiv_Inr le_iff_dval not_le)
qed

lemma sized_risk_cap:
  assumes c: "size_caps x p policy s = Inr c" and "1 \<le> trade_risk_quantity c" "1 \<le> open_risk_quantity c"
  shows "1 \<le> risk_quantity c"
  using assms(2,3) by (rule_tac size_caps_Inr [OF c]) (simp add: py_min_def split: if_splits)

lemma no_flags_quantity:
  assumes c: "size_caps x p policy s = Inr c" and none: "list_all (\<lambda>g. \<not> fst g) (sizing_flags p policy s c)"
  shows "1 \<le> cap_quantity c"
  using none sized_risk_cap [OF c] by (simp add: sizing_flags_def cap_quantity_def)

lemma flags_empty_iff: "flags gs = [] \<longleftrightarrow> list_all (\<lambda>g. \<not> fst g) gs"
proof -
  have "flags gs = [] \<longleftrightarrow> set (flags gs) = {}" by (simp only: set_empty)
  also have "\<dots> \<longleftrightarrow> list_all (\<lambda>g. \<not> fst g) gs" unfolding set_flags list_all_iff by force
  finally show ?thesis .
qed

definition veto_result :: "string list \<Rightarrow> allocation_state \<Rightarrow> sizing_result" where
  "veto_result reasons s = \<lparr>sizing_verdict = SIZING_VETO, sizing_reasons = reasons, quantity = 0, entry_notional = 0,
     round_trip_cost = 0, planned_max_loss = 0, state_after = s\<rparr>"

lemma evaluate_sizing_cases:
  assumes c: "size_caps x p policy s = Inr c"
  shows "evaluate_sizing x p policy s = (if list_all (\<lambda>g. \<not> fst g) (sizing_flags p policy s c) then size_position c s
    else Inr (veto_result (flags (sizing_flags p policy s c)) s))"
  using no_flags_quantity [OF c] by (auto simp: evaluate_sizing_def c Let_def flags_empty_iff veto_result_def)


lemma evaluate_sized:
  assumes "evaluate_sizing x p policy s = Inr r" and "sizing_verdict r = SIZED"
  obtains c where "size_caps x p policy s = Inr c" "list_all (\<lambda>g. \<not> fst g) (sizing_flags p policy s c)"
    "1 \<le> cap_quantity c" "size_position c s = Inr r"
proof -
  obtain c where c: "size_caps x p policy s = Inr c" using assms(1) by (auto simp: evaluate_sizing_def res_simps)
  have "list_all (\<lambda>g. \<not> fst g) (sizing_flags p policy s c) \<and> size_position c s = Inr r"
    using assms evaluate_sizing_cases [OF c] by (auto simp: veto_result_def split: if_splits)
  then show ?thesis using that [OF c] no_flags_quantity [OF c] by blast
qed

lemma evaluate_vetoed:
  assumes "evaluate_sizing x p policy s = Inr r" and "sizing_verdict r \<noteq> SIZED"
  shows "state_after r = s" "sizing_reasons r \<noteq> []" "quantity r = 0" "strictly_sorted (sizing_reasons r)"
proof -
  obtain c where c: "size_caps x p policy s = Inr c" using assms(1) by (auto simp: evaluate_sizing_def res_simps)
  have "r = veto_result (flags (sizing_flags p policy s c)) s \<and> flags (sizing_flags p policy s c) \<noteq> []"
    using assms evaluate_sizing_cases [OF c] unfolding flags_empty_iff
    by (auto simp: size_position_def Let_def res_simps split: if_splits)
  then show "state_after r = s" "sizing_reasons r \<noteq> []" "quantity r = 0" "strictly_sorted (sizing_reasons r)"
    by (auto simp: veto_result_def flags_def)
qed

lemma size_position_Inr:
  assumes "size_position c s = Inr r"
  shows "quantity r = cap_quantity c" "sizing_verdict r = SIZED" "sizing_reasons r = []"
    "entry_notional r = share_entry c * dec_of_int (quantity r)"
    "planned_max_loss r = share_loss c * dec_of_int (quantity r)"
    "round_trip_cost r = share_cost c * dec_of_int (quantity r)"
    "cash_available (state_after r) = cash_available s - entry_notional r - round_trip_cost r"
    "gross_exposure (state_after r) = gross_exposure s + entry_notional r"
    "open_risk (state_after r) = open_risk s + planned_max_loss r"
    "open_positions (state_after r) = open_positions s + 1"
    "0 \<le> dval (cash_available (state_after r))" "verify_state (state_after r) = Inr ()"
  using assms by (auto simp: size_position_def Let_def res_simps mk_state_def guards_Inr_iff nonnegative_decimal_def
      less_iff_dval not_less verify_state_def state_material_def)

lemma cap_quantity_le:
  "cap_quantity c \<le> risk_quantity c" "cap_quantity c \<le> position_quantity c" "cap_quantity c \<le> gross_quantity c"
  "cap_quantity c \<le> cash_quantity c" "cap_quantity c \<le> liquidity_quantity c" "cap_quantity c \<le> ask_quantity c"
  by (simp_all add: cap_quantity_def)

lemma risk_quantity_le:
  assumes "size_caps x p policy s = Inr c" and "1 \<le> trade_risk_quantity c" "1 \<le> open_risk_quantity c"
    and "n \<le> risk_quantity c" "1 \<le> n" "n \<le> 10 ^ 9"
  shows "of_int n * dval (share_loss c) \<le> dval (capital p * per_trade_risk_fraction policy) + dval (share_loss c) / 10 ^ 18"
    and "of_int n * dval (share_loss c)
      \<le> dval (remaining (capital p * maximum_total_open_risk_fraction policy) (open_risk s)) + dval (share_loss c) / 10 ^ 18"
proof -
  let ?a = "capital p * per_trade_risk_fraction policy"
  let ?b = "remaining (capital p * maximum_total_open_risk_fraction policy) (open_risk s)"
  obtain pos: "0 < dval (share_loss c)" and q: "risk_quantity c = floor_units (dquot (py_min ?a ?b) (share_loss c))"
    by (rule size_caps_Inr [OF assms(1)])
  have "of_int n * dval (share_loss c) \<le> dval (py_min ?a ?b) + dval (share_loss c) / 10 ^ 18"
    using assms(4-6) q by (intro floor_quot_budget pos) simp_all
  then show "of_int n * dval (share_loss c) \<le> dval ?a + dval (share_loss c) / 10 ^ 18"
    "of_int n * dval (share_loss c) \<le> dval ?b + dval (share_loss c) / 10 ^ 18"
    by (simp_all add: dval_py_min min_def split: if_splits)
qed

text \<open>A sized opportunity respects every limit: no halt is in force, a position is free, the net
  reward for the risk is at least the minimum, and, up to 10^-18 of one share, the planned loss stays
  within the budget per trade and the open risk that remains, the notional within the position limit,
  the exposure that remains and the liquidity, the outlay within the cash, the quantity within the
  share of the best ask.\<close>

theorem sized_within_limits:
  assumes r: "evaluate_sizing x p policy s = Inr r" "sizing_verdict r = SIZED"
    and n: "quantity r \<le> 10 ^ 9" and cash: "0 \<le> dval (cash_available s)"
  shows "\<exists>l ask. verdict_levels (outcome_verdict (ranked_outcome x)) = Some l
    \<and> top_ask_quantity (outcome_quote (ranked_outcome x)) = Inr ask
    \<and> (let e = dval (entry_high l); loss = dval (entry_high l - stop l + cost_per_share l);
           outlay = dval (entry_high l + cost_per_share l); n = of_int (quantity r) in
         1 \<le> quantity r \<and> 0 < e \<and> 0 < loss
         \<and> n * loss \<le> dval (capital p * per_trade_risk_fraction policy) + loss / 10 ^ 18
         \<and> n * loss \<le> dval (remaining (capital p * maximum_total_open_risk_fraction policy) (open_risk s)) + loss / 10 ^ 18
         \<and> n * e \<le> dval (capital p * maximum_position_notional_fraction policy) + e / 10 ^ 18
         \<and> n * e \<le> dval (remaining (capital p * maximum_gross_exposure_fraction policy) (gross_exposure s)) + e / 10 ^ 18
         \<and> n * outlay \<le> dval (cash_available s) + outlay / 10 ^ 18
         \<and> n * e \<le> dval (median_traded_value (proposal_metrics (outcome_proposal (ranked_outcome x)))
              * maximum_daily_turnover_participation policy) + e / 10 ^ 18
         \<and> n \<le> dval (dec_of_int ask * maximum_top_ask_participation policy))
    \<and> minimum_net_reward_risk policy \<le> dquot (target l - entry_high l - cost_per_share l)
         (entry_high l - stop l + cost_per_share l)
    \<and> \<not> daily_realized_pnl p \<le> - (capital p * maximum_daily_loss_fraction policy)
    \<and> \<not> pilot_realized_pnl p \<le> - (capital p * maximum_pilot_drawdown_fraction policy)
    \<and> open_positions s < maximum_open_positions policy
    \<and> open_positions s - portfolio_positions p < maximum_new_positions_per_run policy"
proof -
  obtain c where c: "size_caps x p policy s = Inr c" "list_all (\<lambda>g. \<not> fst g) (sizing_flags p policy s c)"
    "1 \<le> cap_quantity c" "size_position c s = Inr r" by (rule evaluate_sized [OF r])
  note q = size_position_Inr(1) [OF c(4)] and f = c(2) [unfolded sizing_flags_def list.pred_inject fst_conv]
  obtain l ask where l: "verdict_levels (outcome_verdict (ranked_outcome x)) = Some l"
      "top_ask_quantity (outcome_quote (ranked_outcome x)) = Inr ask"
      "share_entry c = entry_high l" "share_cost c = cost_per_share l"
      "share_loss c = entry_high l - stop l + cost_per_share l" "0 < dval (share_loss c)"
      "reward_risk c = dquot (target l - entry_high l - cost_per_share l) (share_loss c)"
    and caps: "position_quantity c = floor_units (dquot (capital p * maximum_position_notional_fraction policy) (share_entry c))"
      "gross_quantity c = floor_units (dquot (remaining (capital p * maximum_gross_exposure_fraction policy)
         (gross_exposure s)) (share_entry c))"
      "cash_quantity c = floor_units (dquot (cash_available s) (share_entry c + share_cost c))"
      "liquidity_quantity c = floor_units (dquot (median_traded_value (proposal_metrics (outcome_proposal (ranked_outcome x)))
         * maximum_daily_turnover_participation policy) (share_entry c))"
      "ask_quantity c = floor_units (dec_of_int ask * maximum_top_ask_participation policy)"
    and nz: "\<not> dzero (share_entry c)" "\<not> dzero (share_entry c + share_cost c)"
    by (rule size_caps_Inr [OF c(1)])
  have e: "0 < dval (share_entry c)"
    using f by (intro quotient_divisor_pos [of "remaining (capital p * maximum_gross_exposure_fraction policy)
        (gross_exposure s)"] nz) (simp_all add: caps(2) dval_remaining)
  have o: "0 < dval (share_entry c + share_cost c)"
    using f by (intro quotient_divisor_pos [of "cash_available s"] nz cash) (simp add: caps(3))
  have n1: "1 \<le> quantity r" using c(3) q by simp
  note budget = floor_quot_budget [OF n1 _ n]
  have "of_int (quantity r) * dval (share_entry c) \<le> dval (capital p * maximum_position_notional_fraction policy)
      + dval (share_entry c) / 10 ^ 18"
    "of_int (quantity r) * dval (share_entry c) \<le> dval (remaining (capital p * maximum_gross_exposure_fraction policy)
      (gross_exposure s)) + dval (share_entry c) / 10 ^ 18"
    "of_int (quantity r) * dval (share_entry c + share_cost c) \<le> dval (cash_available s)
      + dval (share_entry c + share_cost c) / 10 ^ 18"
    "of_int (quantity r) * dval (share_entry c) \<le> dval (median_traded_value (proposal_metrics (outcome_proposal
      (ranked_outcome x))) * maximum_daily_turnover_participation policy) + dval (share_entry c) / 10 ^ 18"
    using budget [OF _ e] budget [OF _ o] cap_quantity_le [of c] unfolding q caps by blast+
  moreover have "of_int (quantity r) \<le> dval (dec_of_int ask * maximum_top_ask_participation policy)"
    using floor_product_cap [OF n1] cap_quantity_le(6) [of c] unfolding q caps(5) by blast
  moreover have "quantity r \<le> risk_quantity c" using cap_quantity_le(1) [of c] q by simp
  then have "of_int (quantity r) * dval (share_loss c)
      \<le> dval (capital p * per_trade_risk_fraction policy) + dval (share_loss c) / 10 ^ 18"
    "of_int (quantity r) * dval (share_loss c)
      \<le> dval (remaining (capital p * maximum_total_open_risk_fraction policy) (open_risk s)) + dval (share_loss c) / 10 ^ 18"
    using f by (intro risk_quantity_le [OF c(1) _ _ _ n1 n]; simp)+
  moreover have "minimum_net_reward_risk policy \<le> reward_risk c" using f by (simp add: le_iff_dval less_iff_dval)
  ultimately show ?thesis
    using l(1,2) n1 e l(6) f unfolding l(3,4,5,7) Let_def by (intro exI [of _ l] exI [of _ ask]) auto
qed

section \<open>The allocation loop\<close>

fun linked :: "allocation_state \<Rightarrow> sizing_outcome list \<Rightarrow> allocation_state \<Rightarrow> bool" where
  \<comment> \<open>the outcomes lead from the first state to the last one\<close>
  "linked a [] b = (a = b)"
| "linked a (x # xs) b = (state_before x = a \<and> linked (state_after (sized_result x)) xs b)"

lemma linked_snoc: "linked a (xs @ [x]) b \<longleftrightarrow> linked a xs (state_before x) \<and> state_after (sized_result x) = b"
  by (induction xs arbitrary: a) auto

definition faithful_sizing :: "portfolio_snapshot \<Rightarrow> sizing_policy \<Rightarrow> sizing_outcome \<Rightarrow> bool" where
  "faithful_sizing p policy x = (sized_portfolio x = p \<and> sized_policy x = policy
     \<and> evaluate_sizing (sized_opportunity x) p policy (state_before x) = Inr (sized_result x)
     \<and> verify_sizing_outcome x = Inr ())"

definition sized_count :: "sizing_outcome list \<Rightarrow> int" where
  "sized_count xs = int (length (filter is_sized xs))"

definition state_ok :: "allocation_state \<Rightarrow> bool" where
  "state_ok s = (0 \<le> dval (cash_available s) \<and> 0 \<le> dval (gross_exposure s) \<and> 0 \<le> dval (open_risk s)
     \<and> 0 \<le> open_positions s)"

definition allocated :: "portfolio_snapshot \<Rightarrow> sizing_policy \<Rightarrow> allocation \<Rightarrow> bool" where
  \<comment> \<open>the invariant of the loop: a chain of replayable outcomes, with the positions they opened\<close>
  "allocated p policy = (\<lambda>(s, xs). (\<exists>s0. initial_state p = Inr s0 \<and> linked s0 xs s)
     \<and> list_all (faithful_sizing p policy) xs \<and> state_ok s
     \<and> open_positions s = portfolio_positions p + sized_count xs
     \<and> sized_count xs \<le> max 0 (maximum_new_positions_per_run policy)
     \<and> (0 < sized_count xs \<longrightarrow> open_positions s \<le> maximum_open_positions policy))"

lemma sized_count_snoc: "sized_count (xs @ [x]) = sized_count xs + (if is_sized x then 1 else 0)"
  by (simp add: sized_count_def)

lemma sized_count_Nil [simp]: "sized_count [] = 0" and sized_count_nonneg [simp]: "0 \<le> sized_count xs"
  by (simp_all add: sized_count_def)

lemma mk_state_ok: "mk_state s0 = Inr s \<Longrightarrow> state_ok s \<and> s = s0\<lparr>state_id := state_id s\<rparr> \<and> verify_state s = Inr ()"
  by (auto simp: mk_state_def guards_Inr_iff nonnegative_decimal_def state_ok_def less_iff_dval not_less
      verify_state_def state_material_def)

lemma initial_state_Inr:
  "initial_state p = Inr s \<Longrightarrow> state_ok s \<and> verify_state s = Inr () \<and> open_positions s = portfolio_positions p
     \<and> open_risk s = portfolio_risk p \<and> gross_exposure s = portfolio_exposure p \<and> cash_available s = portfolio_cash p"
  by (auto simp: initial_state_def mk_state_def guards_Inr_iff nonnegative_decimal_def state_ok_def less_iff_dval not_less
      verify_state_def state_material_def)

lemma mk_sizing_outcome_Inr:
  assumes "mk_sizing_outcome x0 = Inr x"
  shows "verify_sizing_outcome x = Inr ()" "sized_opportunity x = sized_opportunity x0" "sized_portfolio x = sized_portfolio x0"
    "sized_policy x = sized_policy x0" "state_before x = state_before x0" "sized_result x = sized_result x0"
proof -
  have "verify_sizing_fields (x0\<lparr>sizing_outcome_id := i\<rparr>) = verify_sizing_fields x0"
      "sizing_outcome_material (x0\<lparr>sizing_outcome_id := i\<rparr>) = sizing_outcome_material x0" for i
    by (simp_all add: verify_sizing_fields_def sizing_outcome_material_def Let_def)
  then show "verify_sizing_outcome x = Inr ()" "sized_opportunity x = sized_opportunity x0" "sized_portfolio x = sized_portfolio x0"
    "sized_policy x = sized_policy x0" "state_before x = state_before x0" "sized_result x = sized_result x0"
    using assms by (auto simp: mk_sizing_outcome_def verify_sizing_outcome_def res_simps)
qed

lemma evaluated_state:
  assumes r: "evaluate_sizing x p policy s = Inr r" and s: "state_ok s"
  shows "state_ok (state_after r)"
    and "open_positions (state_after r) = open_positions s + (if sizing_verdict r = SIZED then 1 else 0)"
proof -
  have "state_ok (state_after r) \<and> open_positions (state_after r) = open_positions s + 1" if v: "sizing_verdict r = SIZED"
  proof -
    obtain c where c: "size_position c s = Inr r" by (rule evaluate_sized [OF r v])
    then have "state_ok (state_after r)" using mk_state_ok by (auto simp: size_position_def Let_def res_simps)
    then show ?thesis using size_position_Inr(10) [OF c] by simp
  qed
  then show "state_ok (state_after r)"
    "open_positions (state_after r) = open_positions s + (if sizing_verdict r = SIZED then 1 else 0)"
    using evaluate_vetoed(1) [OF r] s by auto
qed

lemma sized_positions:
  assumes "evaluate_sizing x p policy s = Inr r" "sizing_verdict r = SIZED"
  shows "open_positions s < maximum_open_positions policy"
    "open_positions s - portfolio_positions p < maximum_new_positions_per_run policy"
proof -
  obtain c where "list_all (\<lambda>g. \<not> fst g) (sizing_flags p policy s c)" by (rule evaluate_sized [OF assms])
  then show "open_positions s < maximum_open_positions policy"
    "open_positions s - portfolio_positions p < maximum_new_positions_per_run policy"
    by (simp_all add: sizing_flags_def)
qed

lemma allocate_step:
  assumes inv: "allocated p policy a" and step: "allocate p policy a o1 = Inr a'"
  shows "allocated p policy a'"
proof -
  obtain s xs where a: "a = (s, xs)" by (cases a)
  obtain r x where r: "evaluate_sizing o1 p policy s = Inr r" and a': "a' = (state_after r, xs @ [x])" and
      x: "mk_sizing_outcome \<lparr>sized_opportunity = o1, sized_portfolio = p, sized_policy = policy, state_before = s,
       sized_result = r, sizing_outcome_id = []\<rparr> = Inr x"
    using step by (auto simp: allocate_def a res_simps)
  note x = mk_sizing_outcome_Inr [OF x, simplified]
  have s: "state_ok s" using inv by (simp add: allocated_def a)
  have "faithful_sizing p policy x" using x r by (simp add: faithful_sizing_def)
  moreover have "is_sized x \<longleftrightarrow> sizing_verdict r = SIZED" by (simp add: is_sized_def x)
  ultimately show ?thesis
    using inv evaluated_state [OF r s] sized_positions [OF r] x
    by (auto simp: allocated_def a a' linked_snoc sized_count_snoc)
qed

interpretation allocation: guarded_machine "allocate p policy" "allocated p policy" for p policy
  by unfold_locales (rule allocate_step)

lemma allocate_covers:
  "foldE (allocate p policy) a os = Inr a' \<Longrightarrow> map sized_opportunity (snd a') = map sized_opportunity (snd a) @ os"
proof (induction os arbitrary: a)
  case (Cons o1 os)
  then obtain a1 where a1: "allocate p policy a o1 = Inr a1" "foldE (allocate p policy) a1 os = Inr a'"
    by (auto simp: res_simps)
  then have "map sized_opportunity (snd a1) = map sized_opportunity (snd a) @ [o1]"
    by (cases a) (auto simp: allocate_def res_simps dest!: mk_sizing_outcome_Inr(2))
  then show ?case using Cons.IH [OF a1(2)] by simp
qed simp

lemma sealed_sizing_batch:
  assumes "mk_sizing_batch b0 = Inr b"
  shows "verify_sizing_batch b = Inr ()" "b = b0\<lparr>sizing_batch_id := sizing_batch_id b\<rparr>"
    "\<forall>g \<in> set (limit_guards b0). \<not> fst g"
proof -
  have lg: "limit_guards (b0\<lparr>sizing_batch_id := i\<rparr>) = limit_guards b0" for i by (simp add: limit_guards_def Let_def)
  have "verify_sizing_coverage (b0\<lparr>sizing_batch_id := i\<rparr>) = verify_sizing_coverage b0"
      "sizing_batch_material (b0\<lparr>sizing_batch_id := i\<rparr>) = sizing_batch_material b0" for i
    by (simp_all add: verify_sizing_coverage_def sizing_batch_material_def lg Let_def)
  moreover have "verify_sizing_coverage b0 = Inr () \<Longrightarrow> \<forall>g \<in> set (limit_guards b0). \<not> fst g"
    by (auto simp: verify_sizing_coverage_def Let_def res_simps guards_Inr_iff)
  ultimately show "verify_sizing_batch b = Inr ()" "b = b0\<lparr>sizing_batch_id := sizing_batch_id b\<rparr>"
    "\<forall>g \<in> set (limit_guards b0). \<not> fst g"
    using assms by (auto simp: mk_sizing_batch_def verify_sizing_batch_def res_simps)
qed

lemma assembled_sizing:
  assumes "assemble_sizing_batch rb p chosen = Inr b"
  obtains policy s0 where "initial_state p = Inr s0" "linked s0 (sizing_outcomes b) (final_state b)"
    "allocated p policy (final_state b, sizing_outcomes b)"
    "map sized_opportunity (sizing_outcomes b) = ranked_opportunities rb" "upstream_vetoes b = vetoed_outcomes rb"
    "sizing_policy_of b = policy" "sizing_portfolio b = p" "verify_sizing_batch b = Inr ()"
    "\<forall>g \<in> set (limit_guards b). \<not> fst g" "sized_subject_count b = sized_count (sizing_outcomes b)"
    "verify_sizing_policy policy = Inr ()" "as_of p \<le> gate_evaluated_at (ranking_gate_batch rb)"
proof -
  obtain policy s0 s xs where s0: "initial_state p = Inr s0" and
      fold: "foldE (allocate p policy) (s0, []) (ranked_opportunities rb) = Inr (s, xs)" and
      b: "mk_sizing_batch \<lparr>sizing_ranking = rb, sizing_portfolio = p, sizing_policy_of = policy, sizing_outcomes = xs,
        upstream_vetoes = vetoed_outcomes rb, sized_subject_count = int (length (filter is_sized xs)),
        sizing_vetoed_count = int (length xs) - int (length (filter is_sized xs)), final_state = s, sizing_batch_id = []\<rparr> = Inr b"
      and pol: "verify_sizing_policy policy = Inr ()" "as_of p \<le> gate_evaluated_at (ranking_gate_batch rb)"
    using assms by (auto simp: assemble_sizing_batch_def res_simps guards_Inr_iff Let_def)
  have "allocated p policy (s0, [])" using s0 initial_state_Inr [OF s0] by (simp add: allocated_def)
  then have inv: "allocated p policy (s, xs)" by (rule allocation.run_inv [OF _ fold])
  note sealed = sealed_sizing_batch [OF b]
  define i where "i = sizing_batch_id b"
  have be: "b = \<lparr>sizing_ranking = rb, sizing_portfolio = p, sizing_policy_of = policy, sizing_outcomes = xs,
        upstream_vetoes = vetoed_outcomes rb, sized_subject_count = int (length (filter is_sized xs)),
        sizing_vetoed_count = int (length xs) - int (length (filter is_sized xs)), final_state = s, sizing_batch_id = i\<rparr>"
    using sealed(2) by (simp add: i_def)
  have "linked s0 xs s" using inv s0 by (auto simp: allocated_def)
  then show ?thesis
    using that [OF s0] inv allocate_covers [OF fold] sealed(1,3) pol by (simp add: be limit_guards_def sized_count_def)
qed

text \<open>C31: A sizing that the assembly returns decides every ranked opportunity in order, threading the
  capital state from the snapshot to the final state through replayable outcomes, carries the
  upstream vetoes unchanged, counts the sized ones, and passes its own verification.\<close>

theorem sizing_batch_sound:
  assumes "assemble_sizing_batch rb p chosen = Inr b"
  shows "\<exists>s0. initial_state p = Inr s0 \<and> linked s0 (sizing_outcomes b) (final_state b)
    \<and> list_all (faithful_sizing p (sizing_policy_of b)) (sizing_outcomes b)
    \<and> map sized_opportunity (sizing_outcomes b) = ranked_opportunities rb
    \<and> upstream_vetoes b = vetoed_outcomes rb
    \<and> sized_subject_count b = sized_count (sizing_outcomes b)
    \<and> open_positions (final_state b) = portfolio_positions p + sized_subject_count b
    \<and> verify_sizing_batch b = Inr ()"
  by (rule assembled_sizing [OF assms]) (auto simp: allocated_def)

section \<open>Limits along the chain\<close>

lemma sized_grows:
  assumes r: "evaluate_sizing x p policy s = Inr r" and s: "repr (open_risk s)" "repr (gross_exposure s)"
  shows "dval (open_risk s) \<le> dval (open_risk (state_after r))" "dval (gross_exposure s) \<le> dval (gross_exposure (state_after r))"
    "repr (open_risk (state_after r))" "repr (gross_exposure (state_after r))"
proof -
  have sized: "dval (open_risk s) \<le> dval (open_risk (state_after r)) \<and> dval (gross_exposure s) \<le> dval (gross_exposure (state_after r))
    \<and> repr (open_risk (state_after r)) \<and> repr (gross_exposure (state_after r))" if v: "sizing_verdict r = SIZED"
  proof -
    obtain c where c: "size_caps x p policy s = Inr c" "list_all (\<lambda>g. \<not> fst g) (sizing_flags p policy s c)"
      "1 \<le> cap_quantity c" "size_position c s = Inr r" by (rule evaluate_sized [OF r v])
    note z = size_position_Inr [OF c(4)]
    obtain "gross_quantity c = floor_units (dquot (remaining (capital p * maximum_gross_exposure_fraction policy)
         (gross_exposure s)) (share_entry c))" "\<not> dzero (share_entry c)" "0 < dval (share_loss c)"
      by (rule size_caps_Inr [OF c(1)])
    moreover have "1 \<le> gross_quantity c" using c(2) by (simp add: sizing_flags_def)
    ultimately have pos: "0 < dval (share_entry c)" "0 < dval (share_loss c)"
      using quotient_divisor_pos [of "remaining (capital p * maximum_gross_exposure_fraction policy) (gross_exposure s)"]
      by (simp_all add: dval_remaining)
    have "0 \<le> dval (entry_notional r)" "0 \<le> dval (planned_max_loss r)"
      using pos c(3) z(1) by (simp_all add: z(4,5) times_nonneg)
    then show ?thesis unfolding z(8,9) using s by (simp add: plus_ge)
  qed
  show "dval (open_risk s) \<le> dval (open_risk (state_after r))" "dval (gross_exposure s) \<le> dval (gross_exposure (state_after r))"
    "repr (open_risk (state_after r))" "repr (gross_exposure (state_after r))"
    using sized evaluate_vetoed(1) [OF r] s by (cases "sizing_verdict r"; auto)+
qed

lemma linked_bounded:
  assumes "linked a xs b" and "list_all (faithful_sizing p policy) xs" and "repr (open_risk a)" "repr (gross_exposure a)"
  shows "dval (open_risk a) \<le> dval (open_risk b) \<and> dval (gross_exposure a) \<le> dval (gross_exposure b)
    \<and> (\<forall>x \<in> set xs. dval (open_risk (state_after (sized_result x))) \<le> dval (open_risk b)
         \<and> dval (gross_exposure (state_after (sized_result x))) \<le> dval (gross_exposure b))"
  using assms
proof (induction xs arbitrary: a)
  case (Cons x xs)
  then have r: "evaluate_sizing (sized_opportunity x) p policy a = Inr (sized_result x)"
    by (auto simp: faithful_sizing_def)
  note g = sized_grows [OF r Cons.prems(3,4)]
  show ?case using Cons.IH [of "state_after (sized_result x)"] Cons.prems g by auto
qed simp

lemma linked_states_ok:
  assumes "linked a xs b" and "list_all (faithful_sizing p policy) xs" and "state_ok a"
  shows "\<forall>x \<in> set xs. state_ok (state_after (sized_result x))
    \<and> (is_sized x \<longrightarrow> open_positions (state_after (sized_result x)) \<le> maximum_open_positions policy
         \<and> open_positions (state_after (sized_result x)) - portfolio_positions p \<le> maximum_new_positions_per_run policy)"
  using assms
proof (induction xs arbitrary: a)
  case (Cons x xs)
  then have r: "evaluate_sizing (sized_opportunity x) p policy a = Inr (sized_result x)"
    by (auto simp: faithful_sizing_def)
  then show ?case
    using Cons.IH [of "state_after (sized_result x)"] Cons.prems evaluated_state [OF r] sized_positions [OF r]
    by (auto simp: is_sized_def)
qed simp

text \<open>C3: The limits hold at every state of a sizing that the assembly returns, not only at the last:
  for a snapshot whose amounts have at most 28 digits, no state has negative cash, an open risk above
  the snapshot's own and the policy's, or an exposure above the snapshot's own and the policy's; no
  more positions are opened than the policy allows per run, and none beyond the allowed number.\<close>

theorem sizing_limits_invariant:
  assumes b: "assemble_sizing_batch rb p chosen = Inr b"
    and digits: "repr (portfolio_risk p)" "repr (portfolio_exposure p)"
  shows "sized_count (sizing_outcomes b) \<le> max 0 (maximum_new_positions_per_run (sizing_policy_of b))
    \<and> (\<forall>x \<in> set (sizing_outcomes b). let s = state_after (sized_result x); policy = sizing_policy_of b in
         0 \<le> dval (cash_available s)
         \<and> dval (open_risk s) \<le> max (dval (portfolio_risk p)) (dval (capital p * maximum_total_open_risk_fraction policy))
         \<and> dval (gross_exposure s)
              \<le> max (dval (portfolio_exposure p)) (dval (capital p * maximum_gross_exposure_fraction policy))
         \<and> (is_sized x \<longrightarrow> open_positions s \<le> maximum_open_positions policy))"
proof -
  obtain policy s0 where a: "initial_state p = Inr s0" "linked s0 (sizing_outcomes b) (final_state b)"
    "allocated p policy (final_state b, sizing_outcomes b)" "sizing_policy_of b = policy" "sizing_portfolio b = p"
    "\<forall>g \<in> set (limit_guards b). \<not> fst g" by (rule assembled_sizing [OF b])
  note s0 = initial_state_Inr [OF a(1)]
  have f: "list_all (faithful_sizing p policy) (sizing_outcomes b)" using a(3) by (simp add: allocated_def)
  have lim: "dval (open_risk (final_state b))
        \<le> max (dval (portfolio_risk p)) (dval (capital p * maximum_total_open_risk_fraction policy))"
      "dval (gross_exposure (final_state b))
        \<le> max (dval (portfolio_exposure p)) (dval (capital p * maximum_gross_exposure_fraction policy))"
    using a(6) by (simp_all add: limit_guards_def Let_def a(4,5) less_iff_dval dval_py_max not_less le_max_iff_disj)
  have "repr (open_risk s0)" "repr (gross_exposure s0)" using digits s0 by simp_all
  note bounded = linked_bounded [OF a(2) f this]
  show ?thesis
    using a(3,4) bounded lim linked_states_ok [OF a(2) f] s0
    by (auto simp: allocated_def Let_def state_ok_def intro: order_trans)
qed

section \<open>Witnesses\<close>

definition demo_portfolio :: portfolio_snapshot where
  "demo_portfolio = (let p = \<lparr>capital = Dec False 100000 0, portfolio_cash = Dec False 100000 0, portfolio_exposure = 0,
     portfolio_risk = 0, portfolio_positions = 0, daily_realized_pnl = 0, pilot_realized_pnl = 0, as_of = 0,
     currency = ''INR'', portfolio_snapshot_id = []\<rparr> in p\<lparr>portfolio_snapshot_id := fields_id (portfolio_material p)\<rparr>)"

definition demo_sizing_policy :: sizing_policy where
  "demo_sizing_policy = default_sizing_policy
     \<lparr>sizing_policy_id := fields_id (sizing_policy_material default_sizing_policy)\<rparr>"

lemma demo_portfolio_fields [simp]:
  "capital demo_portfolio = Dec False 100000 0" "portfolio_cash demo_portfolio = Dec False 100000 0"
  "portfolio_exposure demo_portfolio = 0" "portfolio_risk demo_portfolio = 0" "portfolio_positions demo_portfolio = 0"
  "daily_realized_pnl demo_portfolio = 0" "pilot_realized_pnl demo_portfolio = 0" "as_of demo_portfolio = 0"
  "verify_portfolio demo_portfolio = Inr ()"
  by (simp_all add: demo_portfolio_def Let_def verify_portfolio_def portfolio_material_def)

lemma demo_sizing_policy_fields [simp]:
  "per_trade_risk_fraction demo_sizing_policy = Dec False 5 (-3)"
  "maximum_total_open_risk_fraction demo_sizing_policy = Dec False 2 (-2)"
  "maximum_position_notional_fraction demo_sizing_policy = Dec False 25 (-2)"
  "maximum_gross_exposure_fraction demo_sizing_policy = Dec False 80 (-2)"
  "maximum_daily_turnover_participation demo_sizing_policy = Dec False 25 (-4)"
  "maximum_top_ask_participation demo_sizing_policy = Dec False 20 (-2)"
  "maximum_daily_loss_fraction demo_sizing_policy = Dec False 1 (-2)"
  "maximum_pilot_drawdown_fraction demo_sizing_policy = Dec False 2 (-2)"
  "minimum_net_reward_risk demo_sizing_policy = Dec False 250 (-2)"
  "maximum_open_positions demo_sizing_policy = 4" "maximum_new_positions_per_run demo_sizing_policy = 1"
  "verify_sizing_policy demo_sizing_policy = Inr ()"
  by (simp_all add: demo_sizing_policy_def default_sizing_policy_def verify_sizing_policy_def sizing_policy_material_def)

lemma dval_literal_times: "c * d < 10 ^ 28 \<Longrightarrow> dval (Dec False c e * Dec False d f) = of_nat (c * d) * 10 powi (e + f)"
  by (simp add: times_decimal_def dtimes_exact_def dec_fix_exact repr_def prec_def dval_Dec)

lemma demo_level_values:
  assumes "calculate_swing_trade_levels (Dec False 100 0) (Dec False 5 (-2)) (Dec False 2 0) (Dec False 30 0)
      (sealed_config default_swing_config) = Inr l"
  shows "dval (entry_high l) = 1002 / 10" "dval (cost_per_share l) = 3006 / 10000"
    "dval (entry_high l - stop l + cost_per_share l) = 35006 / 10000"
    "dval (target l - entry_high l - cost_per_share l) = 87994 / 10000"
    "dval (entry_high l + cost_per_share l) = 1005006 / 10000"
proof -
  let ?c = "sealed_config default_swing_config" and ?t = "Dec False 5 (-2)" and ?v = "Dec False 100 0"
  have c: "stop_atr_multiple ?c = Dec False 150 (-2)" "entry_atr_buffer ?c = Dec False 10 (-2)"
    "target_net_reward_risk ?c = Dec False 250 (-2)"
    by (simp_all add: sealed_config_def default_swing_config_def)
  note exact = plus_exact minus_exact times_exact
  have t: "dval ?t = of_nat 500 * 10 powi (-4)" by (simp add: dval_Dec power_int_minus)
  define low high st cost loss arg where "low = tick_floor ?v ?t" and "high = tick_ceiling (?v + Dec False 10 (-2) * Dec False 2 0) ?t"
    and "st = tick_floor (low - Dec False 150 (-2) * Dec False 2 0) ?t" and "cost = dquot (high * Dec False 30 0) per_ten_thousand"
    and "loss = high - st + cost" and "arg = high + cost + Dec False 250 (-2) * loss"
  have l: "entry_high l = high" "stop l = st" "target l = tick_ceiling arg ?t" "estimated_cost_bps l = Dec False 30 0"
    using assms by (auto simp: calculate_swing_trade_levels_def c Let_def res_simps guards_Inr_iff mk_trade_levels_def
        low_def high_def st_def cost_def loss_def arg_def)
  have cl: "cost_per_share l = cost" by (simp add: cost_per_share_def l cost_def)
  have "dval (?v + Dec False 10 (-2) * Dec False 2 0) = of_nat 1002000 * 10 powi (-4)"
    using plus_exact [of "Dec False 1002000 (-4)" ?v "Dec False 10 (-2) * Dec False 2 0"] dval_literal_times [of 10 2 "-2" 0]
    by (simp add: repr_def prec_def dval_Dec power_int_minus)
  from tick_ceiling_grid [OF this t] have high: "dval high = 1002 / 10"
    by (simp add: high_def ceil_div_def dval_Dec power_int_minus)
  have "dval low = 100" using tick_floor_grid [of ?v 1000000 "-4" ?t 500] t
    by (simp add: low_def dval_Dec power_int_minus)
  then have "dval (low - Dec False 150 (-2) * Dec False 2 0) = of_nat 970000 * 10 powi (-4)"
    using minus_exact [of "Dec False 97 0" low "Dec False 150 (-2) * Dec False 2 0"] dval_literal_times [of 150 2 "-2" 0]
    by (simp add: repr_def prec_def dval_Dec power_int_minus)
  from tick_floor_grid [OF this t] have st: "dval st = 97" by (simp add: st_def dval_Dec power_int_minus)
  have "dval (high * Dec False 30 0) = 3006" using times_exact [of "Dec False 3006 0" high] high
    by (simp add: repr_def prec_def dval_Dec)
  then have cost: "dval cost = 3006 / 10000" using dquot_exact [of per_ten_thousand "Dec False 3006 (-4)" "high * Dec False 30 0"]
    by (simp add: cost_def per_ten_thousand_def dzero_def repr_def prec_def dval_Dec power_int_minus)
  have hs: "dval (high - st) = 32 / 10" using minus_exact [of "Dec False 32 (-1)" high st] high st
    by (simp add: repr_def prec_def dval_Dec power_int_minus)
  have loss: "dval loss = 35006 / 10000" using plus_exact [of "Dec False 35006 (-4)" "high - st" cost] hs cost
    by (simp add: loss_def repr_def prec_def dval_Dec power_int_minus)
  have hc: "dval (high + cost) = 1005006 / 10000" using plus_exact [of "Dec False 1005006 (-4)" high cost] high cost
    by (simp add: repr_def prec_def dval_Dec power_int_minus)
  have "dval (Dec False 250 (-2) * loss) = 87515 / 10000" using times_exact [of "Dec False 87515 (-4)" "Dec False 250 (-2)" loss] loss
    by (simp add: repr_def prec_def dval_Dec power_int_minus)
  then have "dval arg = of_nat 1092521 * 10 powi (-4)" using plus_exact [of "Dec False 1092521 (-4)" "high + cost"] hc
    by (simp add: arg_def repr_def prec_def dval_Dec power_int_minus)
  from tick_ceiling_grid [OF this t] have tg: "dval (tick_ceiling arg ?t) = 1093 / 10"
    by (simp add: ceil_div_def dval_Dec power_int_minus)
  have th: "dval (tick_ceiling arg ?t - high) = 91 / 10" using minus_exact [of "Dec False 91 (-1)" "tick_ceiling arg ?t" high] tg high
    by (simp add: repr_def prec_def dval_Dec power_int_minus)
  have "dval (tick_ceiling arg ?t - high - cost) = 87994 / 10000"
    using minus_exact [of "Dec False 87994 (-4)" "tick_ceiling arg ?t - high" cost] th cost
    by (simp add: repr_def prec_def dval_Dec power_int_minus)
  then show "dval (entry_high l) = 1002 / 10" "dval (cost_per_share l) = 3006 / 10000"
    "dval (entry_high l - stop l + cost_per_share l) = 35006 / 10000"
    "dval (target l - entry_high l - cost_per_share l) = 87994 / 10000"
    "dval (entry_high l + cost_per_share l) = 1005006 / 10000"
    using high cost loss hc unfolding l cl loss_def by simp_all
qed

lemma floor_units_ge1: "1 \<le> dval v \<Longrightarrow> 1 \<le> floor_units v"
proof -
  assume v: "1 \<le> dval v"
  obtain z :: int where z: "dval (to_integral Floor v) = of_int z" using to_integral_int by blast
  have "(of_int 0 :: rat) < of_int z" using to_integral_floor(2) [of v] z v by (simp del: of_int_0_less_iff)
  then have "1 \<le> z" by simp
  then have "0 \<le> dval (to_integral Floor v)" "(of_int 1 :: rat) \<le> of_int z" using z by simp_all
  then have "(of_int 0 :: rat) < of_int (dec_int (to_integral Floor v))"
    using dec_int_value [of "to_integral Floor v"] z by simp
  then have "0 < dec_int (to_integral Floor v)" by (simp only: of_int_less_iff)
  then show ?thesis using v by (simp add: floor_units_def le_iff_dval)
qed

lemma quotient_ge1:
  assumes "0 < dval b" "dval b \<le> dval a"
  shows "1 \<le> floor_units (dquot a b)"
proof -
  have "\<not> dzero b" using assms(1) by (simp flip: dval_zero_iff)
  then have "dval 1 \<le> dval (dquot a b)" using assms by (intro dquot_ge) simp_all
  then show ?thesis by (intro floor_units_ge1) simp
qed

lemma demo_verdict_levels:
  assumes v: "evaluate_quote_gate demo_proposal (demo_quote (Dec False 100 0)) (seconds 65) demo_gate_policy = Inr v"
  shows "\<exists>l. verdict_levels v = Some l \<and> calculate_swing_trade_levels (Dec False 100 0) (Dec False 5 (-2)) (Dec False 2 0)
    (Dec False 30 0) (sealed_config default_swing_config) = Inr l"
proof -
  obtain s where s: "spread_bps (demo_quote (Dec False 100 0)) = Some s" "dval s = 0" using demo_spread by blast
  have "verdict v = PASS" using demo_pass v by auto
  then obtain s' l where l: "spread_bps (demo_quote (Dec False 100 0)) = Some s'" "verdict_levels v = Some l"
    "calculate_swing_trade_levels (close_price (last (bars (proposal_history demo_proposal)))) (tick_size (proposal_history demo_proposal))
       (atr (proposal_metrics demo_proposal)) (py_max (base_round_trip_cost_bps (proposal_config demo_proposal)) s')
       (proposal_config demo_proposal) = Inr l" using evaluate_pass [OF v] by metis
  have h: "close_price (last (bars (proposal_history demo_proposal))) = Dec False 100 0"
      "tick_size (proposal_history demo_proposal) = Dec False 5 (-2)" "atr (proposal_metrics demo_proposal) = Dec False 2 0"
      "proposal_config demo_proposal = sealed_config default_swing_config"
    by (simp_all add: demo_proposal_def demo_metrics_def) (simp add: demo_swing_history_def Let_def)
  have "base_round_trip_cost_bps (proposal_config demo_proposal) = Dec False 30 0"
    by (simp add: demo_proposal_def sealed_config_def default_swing_config_def)
  moreover have "py_max (Dec False 30 0) s = Dec False 30 0" using s by (simp add: py_max_def less_iff_dval dval_Dec)
  ultimately show ?thesis using l s(1) h by simp
qed

lemma demo_caps:
  assumes x: "outcome_proposal (ranked_outcome x) = demo_proposal" "outcome_quote (ranked_outcome x) = demo_quote (Dec False 100 0)"
      "evaluate_quote_gate demo_proposal (demo_quote (Dec False 100 0)) (seconds 65) demo_gate_policy
       = Inr (outcome_verdict (ranked_outcome x))"
    and s: "cash_available s = Dec False 100000 0" "gross_exposure s = 0" "open_risk s = 0" "open_positions s = 0"
  shows "\<exists>c. size_caps x demo_portfolio demo_sizing_policy s = Inr c
    \<and> list_all (\<lambda>g. \<not> fst g) (sizing_flags demo_portfolio demo_sizing_policy s c) \<and> cap_quantity c \<le> 142
    \<and> dval (share_entry c) = 1002 / 10 \<and> dval (share_cost c) = 3006 / 10000 \<and> dval (share_loss c) = 35006 / 10000"
proof -
  obtain l where l: "verdict_levels (outcome_verdict (ranked_outcome x)) = Some l"
      "calculate_swing_trade_levels (Dec False 100 0) (Dec False 5 (-2)) (Dec False 2 0) (Dec False 30 0)
        (sealed_config default_swing_config) = Inr l" using demo_verdict_levels [OF x(3)] by blast
  note v = demo_level_values [OF l(2)]
  let ?loss = "entry_high l - stop l + cost_per_share l" and ?reward = "target l - entry_high l - cost_per_share l"
  have ask: "top_ask_quantity (demo_quote (Dec False 100 0)) = Inr 5000"
    by (simp add: top_ask_quantity_def demo_prices) (simp add: demo_quote_def)
  have med: "median_traded_value (proposal_metrics demo_proposal) = Dec False 100000000 0"
    by (simp add: demo_proposal_def demo_metrics_def)
  have nz: "\<not> dzero ?loss" "\<not> dzero (entry_high l)" "\<not> dzero (entry_high l + cost_per_share l)"
    using v by (simp_all flip: dval_zero_iff)
  have m: "dval (Dec False 100000 0 * Dec False 5 (-3)) = 500" "dval (Dec False 100000 0 * Dec False 2 (-2)) = 2000"
    "dval (Dec False 100000 0 * Dec False 25 (-2)) = 25000" "dval (Dec False 100000 0 * Dec False 80 (-2)) = 80000"
    "dval (Dec False 100000000 0 * Dec False 25 (-4)) = 250000" "dval (Dec False 100000 0 * Dec False 1 (-2)) = 1000"
    "dval (dec_of_int 5000 * Dec False 20 (-2)) = 1000"
    by (simp_all add: dval_literal_times dec_of_int_def power_int_minus)
  have left: "dval (remaining (Dec False 100000 0 * Dec False 2 (-2)) 0) = 2000"
    "dval (remaining (Dec False 100000 0 * Dec False 80 (-2)) 0) = 80000"
    using minus_exact [of "Dec False 2000 0" "Dec False 100000 0 * Dec False 2 (-2)" 0]
      minus_exact [of "Dec False 80000 0" "Dec False 100000 0 * Dec False 80 (-2)" 0] m
    by (simp_all add: dval_remaining repr_def prec_def dval_Dec)
  have neg: "dval (- (Dec False 100000 0 * Dec False 1 (-2))) = - 1000" "dval (- (Dec False 100000 0 * Dec False 2 (-2))) = - 2000"
    using m repr_dec_fix by (simp_all add: dval_uminus times_decimal_def)
  have rr: "dval (Dec False 250 (-2)) \<le> dval (dquot ?reward ?loss)"
    by (rule dquot_ge [OF nz(1)]) (simp_all add: v repr_def prec_def dval_Dec power_int_minus)
  have mn: "dval (py_min (Dec False 100000 0 * Dec False 5 (-3)) (remaining (Dec False 100000 0 * Dec False 2 (-2)) 0)) = 500"
    using m left by (simp add: dval_py_min)
  have "dval (dquot (py_min (Dec False 100000 0 * Dec False 5 (-3)) (remaining (Dec False 100000 0 * Dec False 2 (-2)) 0)) ?loss)
      \<le> dval (Dec False 1429 (-1))"
    by (rule dquot_le [OF nz(1)]) (simp_all add: mn v repr_def prec_def dval_Dec power_int_minus)
  then have top: "floor_units (dquot (py_min (Dec False 100000 0 * Dec False 5 (-3)) (remaining (Dec False 100000 0 * Dec False 2 (-2)) 0)) ?loss) \<le> 142"
    using dquot_nonneg [OF nz(1), of "py_min (Dec False 100000 0 * Dec False 5 (-3)) (remaining (Dec False 100000 0 * Dec False 2 (-2)) 0)"] mn v
    by (intro floor_units_less [of _ 142, simplified]) (simp_all add: dval_Dec power_int_minus)
  obtain c where c: "size_caps x demo_portfolio demo_sizing_policy s = Inr c"
    using v by (auto simp: size_caps_def x l(1) Let_def ddiv_def nz ask le_iff_dval)
  have "list_all (\<lambda>g. \<not> fst g) (sizing_flags demo_portfolio demo_sizing_policy s c) \<and> cap_quantity c \<le> 142
    \<and> dval (share_entry c) = 1002 / 10 \<and> dval (share_cost c) = 3006 / 10000 \<and> dval (share_loss c) = 35006 / 10000"
  proof (rule size_caps_Inr [OF c], goal_cases)
    case (1 l' k)
    have eq: "l' = l" "k = 5000" using 1(1,2) l(1) ask x(2) by simp_all
    note e = 1(3-5) [unfolded eq]
    have sv: "dval (share_entry c) = 1002 / 10" "dval (share_cost c) = 3006 / 10000" "dval (share_loss c) = 35006 / 10000"
      "dval (share_entry c + share_cost c) = 1005006 / 10000" unfolding e by (rule v)+
    have "1 \<le> trade_risk_quantity c" "1 \<le> open_risk_quantity c" "1 \<le> position_quantity c" "1 \<le> gross_quantity c"
      "1 \<le> cash_quantity c" "1 \<le> liquidity_quantity c"
      unfolding 1(8,9,11-14) by (rule quotient_ge1; simp add: sv m left s x med; simp add: dval_Dec)+
    moreover have "1 \<le> ask_quantity c" unfolding 1(15) eq by (rule floor_units_ge1) (simp add: m)
    moreover have "risk_quantity c \<le> 142" using top unfolding 1(10) e by (simp add: s)
    moreover have "\<not> reward_risk c < minimum_net_reward_risk demo_sizing_policy"
      using rr unfolding 1(7) e eq by (simp add: less_iff_dval not_less)
    ultimately show ?case using sv neg by (simp add: sizing_flags_def cap_quantity_def s le_iff_dval)
  qed
  then show ?thesis using c by blast
qed

lemma times_count_bounds:
  assumes "0 \<le> dval a" "1 \<le> n" "n \<le> k" "repr m" "dval m = dval a * of_int k"
  shows "0 \<le> dval (a * dec_of_int n)" "dval (a * dec_of_int n) \<le> dval m"
proof -
  have "dval a * of_int n \<le> dval m" unfolding assms(5) using assms(1-3) by (intro mult_left_mono) simp_all
  then show "dval (a * dec_of_int n) \<le> dval m" using assms(4) by (intro times_le) simp_all
  show "0 \<le> dval (a * dec_of_int n)" using assms(1,2) by (intro times_nonneg) simp_all
qed

lemma demo_sized:
  assumes x: "outcome_proposal (ranked_outcome x) = demo_proposal" "outcome_quote (ranked_outcome x) = demo_quote (Dec False 100 0)"
      "evaluate_quote_gate demo_proposal (demo_quote (Dec False 100 0)) (seconds 65) demo_gate_policy
       = Inr (outcome_verdict (ranked_outcome x))"
    and s: "cash_available s = Dec False 100000 0" "gross_exposure s = 0" "open_risk s = 0" "open_positions s = 0"
  shows "\<exists>r. evaluate_sizing x demo_portfolio demo_sizing_policy s = Inr r \<and> sizing_verdict r = SIZED \<and> quantity r \<le> 142
    \<and> 1 \<le> quantity r \<and> 0 \<le> dval (entry_notional r) \<and> 0 \<le> dval (round_trip_cost r) \<and> 0 \<le> dval (planned_max_loss r)
    \<and> dval (open_risk (state_after r)) \<le> 2000 \<and> dval (gross_exposure (state_after r)) \<le> 80000"
proof -
  obtain c where c: "size_caps x demo_portfolio demo_sizing_policy s = Inr c"
    "list_all (\<lambda>g. \<not> fst g) (sizing_flags demo_portfolio demo_sizing_policy s c)" "cap_quantity c \<le> 142"
    "dval (share_entry c) = 1002 / 10" "dval (share_cost c) = 3006 / 10000" "dval (share_loss c) = 35006 / 10000"
    using demo_caps [OF x s] by blast
  have n: "1 \<le> cap_quantity c" by (rule no_flags_quantity [OF c(1,2)])
  define e k z where "e = share_entry c * dec_of_int (cap_quantity c)" and "k = share_cost c * dec_of_int (cap_quantity c)"
    and "z = share_loss c * dec_of_int (cap_quantity c)"
  have e: "0 \<le> dval e" "dval e \<le> 142284 / 10"
    using times_count_bounds [OF _ n c(3), of "share_entry c" "Dec False 142284 (-1)"]
    by (simp_all add: e_def c repr_def prec_def dval_Dec power_int_minus)
  have k: "0 \<le> dval k" "dval k \<le> 426852 / 10000"
    using times_count_bounds [OF _ n c(3), of "share_cost c" "Dec False 426852 (-4)"]
    by (simp_all add: k_def c repr_def prec_def dval_Dec power_int_minus)
  have z: "0 \<le> dval z" "dval z \<le> 4970852 / 10000"
    using times_count_bounds [OF _ n c(3), of "share_loss c" "Dec False 4970852 (-4)"]
    by (simp_all add: z_def c repr_def prec_def dval_Dec power_int_minus)
  have "dval (Dec False 80000 0) \<le> dval (cash_available s - e)" using e by (intro minus_ge) (simp_all add: s repr_def prec_def dval_Dec)
  then have cash: "0 \<le> dval (cash_available s - e - k)" using k minus_ge [of 0 "cash_available s - e" k] by (simp add: dval_Dec)
  have "0 \<le> dval (0 + e)" "0 \<le> dval (0 + z)" using e z by (simp_all add: plus_nonneg)
  moreover have "dval (0 + e) \<le> dval (Dec False 80000 0)" "dval (0 + z) \<le> dval (Dec False 2000 0)"
    using e z by (intro plus_le; simp add: repr_def prec_def dval_Dec)+
  ultimately show ?thesis
    using c(2,3) n cash e z k
    by (simp add: evaluate_sizing_cases [OF c(1)] size_position_def Let_def mk_state_def nonnegative_decimal_def
        less_iff_dval not_less s dval_Dec flip: e_def k_def z_def)
qed

lemma mk_sizing_outcome_returns:
  assumes r: "evaluate_sizing x p policy s = Inr r"
    and ok: "verify_opportunity x = Inr ()" "verify_portfolio p = Inr ()" "verify_sizing_policy policy = Inr ()"
      "verify_state s = Inr ()" "sizing_verdict r = SIZED" "1 \<le> quantity r"
      "0 \<le> dval (entry_notional r)" "0 \<le> dval (round_trip_cost r)" "0 \<le> dval (planned_max_loss r)"
  shows "\<exists>y. mk_sizing_outcome \<lparr>sized_opportunity = x, sized_portfolio = p, sized_policy = policy, state_before = s,
       sized_result = r, sizing_outcome_id = i\<rparr> = Inr y"
proof -
  obtain c where c: "size_position c s = Inr r" by (rule evaluate_sized [OF r ok(5)])
  show ?thesis using ok r size_position_Inr [OF c]
    by (simp add: mk_sizing_outcome_def verify_sizing_fields_def nonnegative_decimal_def less_iff_dval not_less replay_guards_def)
qed


theorem sized_within_limits_witness:
  "\<exists>x s r. evaluate_sizing x demo_portfolio demo_sizing_policy s = Inr r \<and> sizing_verdict r = SIZED \<and> 1 \<le> quantity r"
proof -
  obtain gb b and x :: ranked_opportunity where x: "outcome_proposal (ranked_outcome x) = demo_proposal"
      "outcome_quote (ranked_outcome x) = demo_quote (Dec False 100 0)"
      "evaluate_quote_gate demo_proposal (demo_quote (Dec False 100 0)) (seconds 65) demo_gate_policy
       = Inr (outcome_verdict (ranked_outcome x))" by (rule demo_ranking)
  let ?s = "\<lparr>cash_available = Dec False 100000 0, gross_exposure = 0, open_risk = 0, open_positions = 0, state_id = []\<rparr>"
  obtain r where r: "evaluate_sizing x demo_portfolio demo_sizing_policy ?s = Inr r" "sizing_verdict r = SIZED" "quantity r \<le> 142"
    using demo_sized [OF x, of ?s] by auto
  have "quantity r \<le> 10 ^ 9" "0 \<le> dval (cash_available ?s)" using r(3) by (simp_all add: dval_Dec)
  from sized_within_limits [OF r(1,2) this] r(1,2) show ?thesis by (auto simp: Let_def)
qed

lemma demo_sizing_batch:
  obtains rb and b and x :: ranked_opportunity where "ranked_opportunities rb = [x]"
    "assemble_sizing_batch rb demo_portfolio (Some demo_sizing_policy) = Inr b"
proof -
  obtain gb rb and x :: ranked_opportunity where rb: "verify_ranking_batch rb = Inr ()" "ranked_opportunities rb = [x]"
      "vetoed_outcomes rb = []" "gate_evaluated_at (ranking_gate_batch rb) = seconds 65"
    and x: "outcome_proposal (ranked_outcome x) = demo_proposal"
      "outcome_quote (ranked_outcome x) = demo_quote (Dec False 100 0)"
      "evaluate_quote_gate demo_proposal (demo_quote (Dec False 100 0)) (seconds 65) demo_gate_policy
       = Inr (outcome_verdict (ranked_outcome x))" "verify_opportunity x = Inr ()" by (rule demo_ranking)
  obtain s0 where s0: "initial_state demo_portfolio = Inr s0"
    by (simp add: initial_state_def mk_state_def nonnegative_decimal_def less_iff_dval dval_Dec)
  note i = initial_state_Inr [OF s0, simplified]
  obtain r where r: "evaluate_sizing x demo_portfolio demo_sizing_policy s0 = Inr r" "sizing_verdict r = SIZED" "1 \<le> quantity r"
      "0 \<le> dval (entry_notional r)" "0 \<le> dval (round_trip_cost r)" "0 \<le> dval (planned_max_loss r)"
      "dval (open_risk (state_after r)) \<le> 2000" "dval (gross_exposure (state_after r)) \<le> 80000"
    using demo_sized [OF x(1-3), of s0] i by auto
  obtain y where y: "mk_sizing_outcome \<lparr>sized_opportunity = x, sized_portfolio = demo_portfolio, sized_policy = demo_sizing_policy,
      state_before = s0, sized_result = r, sizing_outcome_id = []\<rparr> = Inr y"
    using mk_sizing_outcome_returns [OF r(1) x(4) _ _ _ r(2-6)] i by auto
  note yf = mk_sizing_outcome_Inr [OF y, simplified]
  have m: "dval (Dec False 100000 0 * Dec False 2 (-2)) = 2000" "dval (Dec False 100000 0 * Dec False 80 (-2)) = 80000"
    by (simp_all add: dval_literal_times power_int_minus)
  have sized: "is_sized y" by (simp add: is_sized_def yf r)
  obtain c where "size_position c s0 = Inr r" by (rule evaluate_sized [OF r(1,2)])
  then have after: "verify_state (state_after r) = Inr ()" by (rule size_position_Inr)
  let ?b = "\<lparr>sizing_ranking = rb, sizing_portfolio = demo_portfolio, sizing_policy_of = demo_sizing_policy, sizing_outcomes = [y],
        upstream_vetoes = vetoed_outcomes rb, sized_subject_count = 1, sizing_vetoed_count = 0,
        final_state = state_after r, sizing_batch_id = []\<rparr>"
  have "verify_link demo_portfolio demo_sizing_policy s0 (y, x) = Inr (state_after r)"
    by (simp add: verify_link_def yf)
  then have "verify_sizing_coverage ?b = Inr ()"
    using r(7,8) by (simp add: verify_sizing_coverage_def Let_def rb s0 after limit_guards_def sized m less_iff_dval not_less
        dval_py_max le_max_iff_disj)
  then obtain b where "mk_sizing_batch ?b = Inr b" by (simp add: mk_sizing_batch_def)
  then have "assemble_sizing_batch rb demo_portfolio (Some demo_sizing_policy) = Inr b"
    by (simp add: assemble_sizing_batch_def rb s0 allocate_def r(1) y sized seconds_def)
  then show ?thesis by (rule that [OF rb(2)])
qed

theorem sizing_batch_sound_witness:
  "\<exists>rb b. assemble_sizing_batch rb demo_portfolio (Some demo_sizing_policy) = Inr b
    \<and> length (sizing_outcomes b) = 1 \<and> verify_sizing_batch b = Inr ()"
proof -
  obtain rb b and x :: ranked_opportunity where b: "ranked_opportunities rb = [x]"
    "assemble_sizing_batch rb demo_portfolio (Some demo_sizing_policy) = Inr b" by (rule demo_sizing_batch)
  from sizing_batch_sound [OF b(2)] have m: "map sized_opportunity (sizing_outcomes b) = [x] \<and> verify_sizing_batch b = Inr ()"
    unfolding b(1) by (elim exE conjE) (intro conjI)
  then have "length (sizing_outcomes b) = 1" by auto
  then show ?thesis using m b(2) by (intro exI [of _ rb] exI [of _ b]) simp
qed

theorem sizing_limits_invariant_witness:
  "\<exists>rb b. assemble_sizing_batch rb demo_portfolio (Some demo_sizing_policy) = Inr b
    \<and> sized_count (sizing_outcomes b) \<le> max 0 (maximum_new_positions_per_run (sizing_policy_of b))"
proof -
  obtain rb b and x :: ranked_opportunity where b: "ranked_opportunities rb = [x]"
    "assemble_sizing_batch rb demo_portfolio (Some demo_sizing_policy) = Inr b" by (rule demo_sizing_batch)
  then show ?thesis using sizing_limits_invariant [OF b(2)] by auto
qed

end
