(* ===== verification/WalkForward.thy ===== *)
theory WalkForward
  imports Identity
begin

text \<open>
  Purged walk-forward evaluation plans (\<open>evaluation/models.py\<close>, \<open>evaluation/splits.py\<close>).

  A fold is a training, a validation and a test window of trading sessions; a plan is a list of folds
  over one calendar, whose constructor runs through the folds with an accumulator
  (\<open>walk\<close>, folded over the plan) and rejects the first that leaks labels, repeats test sessions or does
  not expand.  \<open>build_plan\<close> lays the folds out by session positions; its \<open>while True\<close> loop is
  \<open>fold_loop\<close>, a partial function whose value \<open>None\<close> is non-termination.

  The locale \<open>guarded_machine\<close> is interpreted on the constructor's loop with the invariant
  \<open>walked\<close>; the theorems are that a plan leaks no label, what the builder returns fold by fold, and
  that it returns.
\<close>

section \<open>Folds\<close>

definition plan_err :: "string \<Rightarrow> py_exc" where
  "plan_err msg = EvaluationPlanError msg"

definition session_tuple :: "date list \<Rightarrow> bool \<times> py_exc" where
  "session_tuple xs = (xs = [] \<or> \<not> sorted_unique xs, plan_err ''must be sorted, unique trading sessions'')"

record fold =
  training :: "date list"
  validation :: "date list"
  test :: "date list"
  fold_id :: string

definition sessions_val :: "date list \<Rightarrow> pyval" where
  "sessions_val xs = PTuple (map PDate xs)"

definition fold_material :: "fold \<Rightarrow> (string \<times> pyval) list" where
  "fold_material f =
     [(''schema_version'', PStr ''purged-walk-forward-plan/v1''),
      (''training_sessions'', sessions_val (training f)),
      (''validation_sessions'', sessions_val (validation f)),
      (''test_sessions'', sessions_val (test f))]"

definition fold_guards :: "fold \<Rightarrow> (bool \<times> py_exc) list" where
  "fold_guards f =
     [session_tuple (training f),
      session_tuple (validation f),
      session_tuple (test f),
      (\<not> (last (training f) < hd (validation f) \<and> last (validation f) < hd (test f)),
         plan_err ''walk-forward partitions must be strictly chronological''),
      (set (training f) \<inter> set (validation f) \<noteq> {} \<or> set (training f) \<inter> set (test f) \<noteq> {}
         \<or> set (validation f) \<inter> set (test f) \<noteq> {}, plan_err ''walk-forward partitions cannot overlap'')]"

definition mk_fold :: "fold \<Rightarrow> fold res" where
  "mk_fold f = guards (fold_guards f) (Inr (f\<lparr>fold_id := fields_id (fold_material f)\<rparr>))"

definition fold_broken :: "fold \<Rightarrow> bool \<times> py_exc" where
  \<comment> \<open>\<open>WalkForwardFold.verify_content_identity\<close> as a guard\<close>
  "fold_broken f = (fold_id f \<noteq> fields_id (fold_material f),
     EvaluationPlanIntegrityError ''walk-forward fold identity failed'')"

section \<open>Plans\<close>

datatype split_method = PURGED_WALK_FORWARD

record plan =
  calendar_version :: string
  ordered_sessions :: "date list"
  label_horizon :: int
  embargo :: int
  folds :: "fold list"
  split_by :: split_method
  plan_schema :: string
  plan_id :: string

definition fold_val :: "fold \<Rightarrow> pyval" where
  "fold_val f = PDataclass ''india_swing.evaluation.models.WalkForwardFold''
     [(''training_sessions'', sessions_val (training f)),
      (''validation_sessions'', sessions_val (validation f)),
      (''test_sessions'', sessions_val (test f)),
      (''fold_id'', PStr (fold_id f))]"

fun method_val :: "split_method \<Rightarrow> pyval" where
  "method_val PURGED_WALK_FORWARD = PEnum ''india_swing.evaluation.models.SplitMethod'' (PStr ''PURGED_WALK_FORWARD'')"

definition plan_material :: "plan \<Rightarrow> (string \<times> pyval) list" where
  "plan_material p =
     [(''schema_version'', PStr (plan_schema p)),
      (''calendar_version'', PStr (calendar_version p)),
      (''ordered_sessions'', sessions_val (ordered_sessions p)),
      (''label_horizon_sessions'', PInt (label_horizon p)),
      (''embargo_sessions'', PInt (embargo p)),
      (''folds'', PTuple (map fold_val (folds p))),
      (''split_method'', method_val (split_by p))]"

primrec index_of :: "'a list \<Rightarrow> 'a \<Rightarrow> nat" where
  \<comment> \<open>\<open>session_index[x]\<close>, the position in the calendar, whose sessions are distinct\<close>
  "index_of [] x = 0"
| "index_of (y # ys) x = (if x = y then 0 else Suc (index_of ys x))"

definition contiguous :: "date list \<Rightarrow> date list \<Rightarrow> bool" where
  \<comment> \<open>the positions are \<open>range(positions[0], positions[-1] + 1)\<close>\<close>
  "contiguous cal xs = (let ps = map (index_of cal) xs in ps = [hd ps..<last ps + 1])"

record walk_state =
  seen_ids :: "string list"
  seen_tests :: "date list"
  previous :: "fold option"

definition walk_guards :: "plan \<Rightarrow> walk_state \<Rightarrow> fold \<Rightarrow> (bool \<times> py_exc) list" where
  "walk_guards p s f = (let cal = ordered_sessions p; pos = (\<lambda>d. int (index_of cal d)) in
     [fold_broken f,
      (fold_id f \<in> set (seen_ids s), plan_err ''walk-forward folds must be unique''),
      (\<not> set (training f @ validation f @ test f) \<subseteq> set cal,
         plan_err ''fold contains a session outside its calendar''),
      (\<not> contiguous cal (training f), plan_err ''partition must be contiguous in trading-session time''),
      (\<not> contiguous cal (validation f), plan_err ''partition must be contiguous in trading-session time''),
      (\<not> contiguous cal (test f), plan_err ''partition must be contiguous in trading-session time''),
      (pos (hd (validation f)) - pos (last (training f)) - 1 < embargo p,
         plan_err ''training labels overlap validation or its required embargo''),
      (pos (hd (test f)) - pos (last (validation f)) - 1 < embargo p,
         plan_err ''validation labels overlap test or its required embargo''),
      (set (seen_tests s) \<inter> set (test f) \<noteq> {}, plan_err ''test sessions cannot repeat across folds''),
      (case previous s of None \<Rightarrow> False
         | Some q \<Rightarrow> \<not> set (training q) \<subseteq> set (training f) \<or> hd (test f) \<le> last (test q),
         plan_err ''folds must use expanding training data and advancing tests'')])"

definition walk :: "plan \<Rightarrow> walk_state \<Rightarrow> fold \<Rightarrow> walk_state res" where
  "walk p s f = guards (walk_guards p s f)
     (Inr \<lparr>seen_ids = seen_ids s @ [fold_id f], seen_tests = seen_tests s @ test f, previous = Some f\<rparr>)"

definition walk_start :: walk_state where
  "walk_start = \<lparr>seen_ids = [], seen_tests = [], previous = None\<rparr>"

definition plan_guards :: "plan \<Rightarrow> (bool \<times> py_exc) list" where
  "plan_guards p =
     [(blank (calendar_version p), plan_err ''calendar_version is required''),
      session_tuple (ordered_sessions p),
      (label_horizon p < 10, plan_err ''swing label horizon must be at least ten trading sessions''),
      (embargo p < label_horizon p, plan_err ''embargo must be at least the maximum forward-label horizon''),
      (split_by p \<noteq> PURGED_WALK_FORWARD, plan_err ''time-series trials require purged walk-forward splits''),
      (plan_schema p \<noteq> ''purged-walk-forward-plan/v1'', plan_err ''unsupported evaluation split schema''),
      (folds p = [], plan_err ''folds must be a non-empty immutable exact tuple'')]"

definition mk_plan :: "plan \<Rightarrow> plan res" where
  "mk_plan p = guards (plan_guards p) (bindE (foldE (walk p) walk_start (folds p))
     (\<lambda>_. Inr (p\<lparr>plan_id := fields_id (plan_material p)\<rparr>)))"

definition verify_plan :: "plan \<Rightarrow> unit res" where
  "verify_plan p = guards (map fold_broken (folds p)) (guards [(plan_id p \<noteq> fields_id (plan_material p),
     EvaluationPlanIntegrityError ''walk-forward plan identity failed'')] (Inr ()))"

section \<open>The builder\<close>

record layout =
  initial_sessions :: int
  validation_width :: int
  test_width :: int
  step_width :: int

definition slice_bound :: "int \<Rightarrow> int \<Rightarrow> nat" where
  \<comment> \<open>a slice bound of a sequence of length \<open>n\<close>: negative ones count from the end\<close>
  "slice_bound n i = nat (if i < 0 then i + n else min i n)"

definition py_slice :: "'a list \<Rightarrow> int \<Rightarrow> int \<Rightarrow> 'a list" where
  "py_slice xs i j = (let n = int (length xs); a = slice_bound n i; b = slice_bound n j in take (b - a) (drop a xs))"

definition test_end :: "layout \<Rightarrow> int \<Rightarrow> int \<Rightarrow> int" where
  \<comment> \<open>the end of the test window at this offset\<close>
  "test_end l emb off = initial_sessions l + off + emb + validation_width l + emb + test_width l"

definition fold_at :: "date list \<Rightarrow> layout \<Rightarrow> int \<Rightarrow> int \<Rightarrow> fold" where
  "fold_at cal l emb off = (let training_end = initial_sessions l + off;
       validation_start = training_end + emb; validation_end = validation_start + validation_width l;
       test_start = validation_end + emb in
     \<lparr>training = py_slice cal 0 training_end, validation = py_slice cal validation_start validation_end,
      test = py_slice cal test_start (test_start + test_width l), fold_id = []\<rparr>)"

partial_function (option) fold_loop ::
  "date list \<Rightarrow> layout \<Rightarrow> int \<Rightarrow> fold list \<Rightarrow> int \<Rightarrow> fold list res option" where
  \<comment> \<open>the \<open>while True\<close> loop\<close>
  "fold_loop cal l emb fs off = (if int (length cal) < test_end l emb off then Some (Inr fs)
     else case mk_fold (fold_at cal l emb off) of Inl e \<Rightarrow> Some (Inl e)
        | Inr f \<Rightarrow> fold_loop cal l emb (fs @ [f]) (off + step_width l))"

definition layout_guards :: "layout \<Rightarrow> (bool \<times> py_exc) list" where
  "layout_guards l =
     [(initial_sessions l \<le> 0, plan_err ''must be a positive integer''),
      (validation_width l \<le> 0, plan_err ''must be a positive integer''),
      (test_width l \<le> 0, plan_err ''must be a positive integer''),
      (step_width l \<le> 0, plan_err ''must be a positive integer''),
      (step_width l < test_width l,
         plan_err ''step_sessions must cover the test window so holdout sessions do not repeat'')]"

definition build_plan :: "string \<Rightarrow> date list \<Rightarrow> layout \<Rightarrow> int \<Rightarrow> int \<Rightarrow> plan res option" where
  \<comment> \<open>\<open>build_expanding_purged_walk_forward_plan\<close>; \<open>None\<close>: it does not return\<close>
  "build_plan version cal l horizon emb = (case guards (layout_guards l) (Inr ()) of
     Inl e \<Rightarrow> Some (Inl e)
   | Inr _ \<Rightarrow> (case fold_loop cal l emb [] 0 of None \<Rightarrow> None | Some (Inl e) \<Rightarrow> Some (Inl e)
       | Some (Inr fs) \<Rightarrow> Some (if fs = []
           then Inl (plan_err ''calendar coverage is insufficient for one fully purged fold'')
           else mk_plan \<lparr>calendar_version = version, ordered_sessions = cal, label_horizon = horizon,
             embargo = emb, folds = fs, split_by = PURGED_WALK_FORWARD,
             plan_schema = ''purged-walk-forward-plan/v1'', plan_id = []\<rparr>)))"

section \<open>Positions in the calendar\<close>

lemma index_of_nth [simp]: "distinct cal \<Longrightarrow> i < length cal \<Longrightarrow> index_of cal (cal ! i) = i"
proof (induction cal arbitrary: i)
  case (Cons d ds)
  then show ?case by (cases i) auto
qed simp

lemma nth_index_of: "d \<in> set cal \<Longrightarrow> index_of cal d < length cal \<and> cal ! index_of cal d = d"
  by (induction cal) auto

lemma contiguous_bounds:
  assumes "contiguous cal xs" and "d \<in> set xs"
  shows "index_of cal (hd xs) \<le> index_of cal d" "index_of cal d \<le> index_of cal (last xs)"
proof -
  have "xs \<noteq> []" using assms(2) by auto
  then have "map (index_of cal) xs = [index_of cal (hd xs)..<index_of cal (last xs) + 1]"
    using assms(1) by (simp add: contiguous_def Let_def hd_map last_map del: upt_Suc)
  moreover have "index_of cal d \<in> set (map (index_of cal) xs)" using assms(2) by simp
  ultimately have "index_of cal d \<in> set [index_of cal (hd xs)..<index_of cal (last xs) + 1]" by simp
  then show "index_of cal (hd xs) \<le> index_of cal d" "index_of cal d \<le> index_of cal (last xs)"
    by (auto split: if_splits)
qed

lemma strictly_sorted_last: "strictly_sorted xs \<Longrightarrow> x \<in> set xs \<Longrightarrow> x \<le> last xs"
  by (induction xs) (auto dest: less_imp_le)

lemma strictly_sorted_hd: "strictly_sorted xs \<Longrightarrow> x \<in> set xs \<Longrightarrow> hd xs \<le> x"
  by (cases xs) auto

lemma strictly_sorted_append:
  assumes "strictly_sorted xs" "strictly_sorted ys" and "xs \<noteq> [] \<Longrightarrow> ys \<noteq> [] \<Longrightarrow> last xs < hd ys"
  shows "strictly_sorted (xs @ ys)"
proof -
  have "x < y" if "x \<in> set xs" "y \<in> set ys" for x y
    using strictly_sorted_last [OF assms(1) that(1)] strictly_sorted_hd [OF assms(2) that(2)] assms(3) that by force
  then show ?thesis using assms(1,2) by (auto simp: sorted_wrt_append)
qed

section \<open>The constructor's loop\<close>

definition fold_ok :: "fold \<Rightarrow> bool" where
  "fold_ok f = list_all (\<lambda>g. \<not> fst g) (fold_guards f)"

lemma mk_fold_Inr:
  assumes "mk_fold f0 = Inr f"
  shows "fold_ok f" "f = f0\<lparr>fold_id := fold_id f\<rparr>" "\<not> fst (fold_broken f)"
  using assms by (auto simp: mk_fold_def guards_Inr_iff fold_ok_def fold_guards_def fold_broken_def
      fold_material_def list_all_iff)

lemma fold_okD:
  assumes "fold_ok f"
  shows "training f \<noteq> []" "validation f \<noteq> []" "test f \<noteq> []"
    "strictly_sorted (training f)" "strictly_sorted (validation f)" "strictly_sorted (test f)"
    "last (training f) < hd (validation f)" "last (validation f) < hd (test f)"
  using assms by (auto simp: fold_ok_def fold_guards_def session_tuple_def)

definition construct_walk :: "plan \<Rightarrow> walk_state \<Rightarrow> fold \<Rightarrow> walk_state res" where
  \<comment> \<open>a fold is a constructed value before the plan looks at it\<close>
  "construct_walk p s f0 = bindE (mk_fold f0) (walk p s)"

definition walked :: "walk_state \<Rightarrow> bool" where
  "walked s = (distinct (seen_ids s) \<and> strictly_sorted (seen_tests s)
     \<and> (case previous s of None \<Rightarrow> seen_tests s = []
        | Some q \<Rightarrow> seen_tests s \<noteq> [] \<and> test q \<noteq> [] \<and> last (seen_tests s) = last (test q)))"

lemma walk_Inr:
  "walk p s f = Inr s' \<longleftrightarrow> list_all (\<lambda>g. \<not> fst g) (walk_guards p s f)
     \<and> s' = \<lparr>seen_ids = seen_ids s @ [fold_id f], seen_tests = seen_tests s @ test f, previous = Some f\<rparr>"
  by (auto simp: walk_def guards_Inr_iff list_all_iff)

lemma walked_step:
  assumes s: "walked s" and w: "walk p s f = Inr s'" and f: "fold_ok f"
  shows "walked s'"
proof -
  note fd = fold_okD [OF f]
  have "strictly_sorted (seen_tests s @ test f)"
    using s w fd by (intro strictly_sorted_append)
      (auto simp: walked_def walk_Inr walk_guards_def Let_def split: option.splits)
  then show ?thesis
    using s w fd by (auto simp: walked_def walk_Inr walk_guards_def Let_def split: option.splits)
qed

interpretation walking: guarded_machine "construct_walk p" walked for p
  by unfold_locales (auto simp: construct_walk_def res_simps intro: walked_step dest: mk_fold_Inr)

lemma construct_walk_fold:
  "mapE mk_fold raw = Inr fs \<Longrightarrow> foldE (construct_walk p) s raw = foldE (walk p) s fs"
  by (induction raw arbitrary: s fs) (auto simp: res_simps construct_walk_def)

lemma walked_start: "walked walk_start"
  by (simp add: walked_def walk_start_def)

lemma walk_collects:
  "foldE (walk p) s fs = Inr s' \<Longrightarrow>
     seen_ids s' = seen_ids s @ map fold_id fs \<and> seen_tests s' = seen_tests s @ concat (map test fs)"
  by (induction fs arbitrary: s) (auto simp: res_simps walk_Inr)

text \<open>The checks that do not look at the accumulator hold of every fold of the plan.\<close>

definition placed :: "plan \<Rightarrow> fold \<Rightarrow> bool" where
  "placed p f = (let cal = ordered_sessions p in \<not> fst (fold_broken f)
     \<and> set (training f @ validation f @ test f) \<subseteq> set cal
     \<and> contiguous cal (training f) \<and> contiguous cal (validation f) \<and> contiguous cal (test f)
     \<and> embargo p < int (index_of cal (hd (validation f))) - int (index_of cal (last (training f)))
     \<and> embargo p < int (index_of cal (hd (test f))) - int (index_of cal (last (validation f))))"

lemma walk_placed: "walk p s f = Inr s' \<Longrightarrow> placed p f"
  by (simp add: walk_Inr walk_guards_def placed_def Let_def)

lemma walk_places: "foldE (walk p) s fs = Inr s' \<Longrightarrow> list_all (placed p) fs"
  by (induction fs arbitrary: s) (auto simp: res_simps dest: walk_placed)

definition expands :: "fold \<Rightarrow> fold \<Rightarrow> bool" where
  "expands f g = (set (training f) \<subseteq> set (training g))"

lemma expands_trans: "expands f g \<Longrightarrow> expands g h \<Longrightarrow> expands f h"
  by (auto simp: expands_def)

lemma walk_expands:
  "foldE (walk p) s fs = Inr s' \<Longrightarrow> sorted_wrt expands (case previous s of None \<Rightarrow> fs | Some q \<Rightarrow> q # fs)"
proof (induction fs arbitrary: s)
  case Nil
  then show ?case by (simp split: option.splits)
next
  case (Cons f fs)
  then obtain s1 where s1: "walk p s f = Inr s1" "foldE (walk p) s1 fs = Inr s'" by (auto simp: res_simps)
  then have "sorted_wrt expands (f # fs)" using Cons.IH [OF s1(2)] by (simp add: walk_Inr)
  moreover have "\<forall>q. previous s = Some q \<longrightarrow> expands q f"
    using s1(1) by (auto simp: walk_Inr walk_guards_def expands_def Let_def)
  ultimately show ?case by (auto split: option.splits intro: expands_trans)
qed

section \<open>No label leaks\<close>

definition purged :: "plan \<Rightarrow> fold \<Rightarrow> bool" where
  \<comment> \<open>the label of session \<open>i\<close> spans the \<open>label_horizon\<close> sessions after it; none of them reaches a
    later partition\<close>
  "purged p f = (let cal = ordered_sessions p; n = length cal in
     \<forall>i < n. \<forall>j < n. int j \<le> int i + label_horizon p \<longrightarrow>
       (cal ! i \<in> set (training f) \<longrightarrow> cal ! j \<notin> set (validation f) \<union> set (test f))
       \<and> (cal ! i \<in> set (validation f) \<longrightarrow> cal ! j \<notin> set (test f)))"

lemma placed_purged:
  assumes pl: "placed p f" and ok: "fold_ok f" and cal: "strictly_sorted (ordered_sessions p)"
    and emb: "label_horizon p \<le> embargo p" "0 \<le> label_horizon p"
  shows "purged p f"
proof -
  let ?cal = "ordered_sessions p"
  have d: "distinct ?cal" using cal by (simp add: strict_sorted_iff)
  note pd = pl [unfolded placed_def Let_def]
  have tv: "index_of ?cal x + label_horizon p < int (index_of ?cal y)" if "x \<in> set (training f)" "y \<in> set (validation f)" for x y
    using contiguous_bounds(2) [of ?cal "training f" x] contiguous_bounds(1) [of ?cal "validation f" y] pd that emb(1)
    by auto
  have vt: "index_of ?cal x + label_horizon p < int (index_of ?cal y)" if "x \<in> set (validation f)" "y \<in> set (test f)" for x y
    using contiguous_bounds(2) [of ?cal "validation f" x] contiguous_bounds(1) [of ?cal "test f" y] pd that emb(1)
    by auto
  have tt: "index_of ?cal x + label_horizon p < int (index_of ?cal y)" if "x \<in> set (training f)" "y \<in> set (test f)" for x y
    using tv [OF that(1) hd_in_set] vt [OF hd_in_set that(2)] fold_okD(2) [OF ok] emb(2) by fastforce
  show ?thesis
    unfolding purged_def Let_def
  proof (intro allI impI conjI)
    fix i j assume i: "i < length ?cal" and j: "j < length ?cal" and near: "int j \<le> int i + label_horizon p"
    note ix = index_of_nth [OF d i] index_of_nth [OF d j]
    show "?cal ! j \<notin> set (validation f) \<union> set (test f)" if "?cal ! i \<in> set (training f)"
      using tv [OF that, of "?cal ! j"] tt [OF that, of "?cal ! j"] ix near by auto
    show "?cal ! j \<notin> set (test f)" if "?cal ! i \<in> set (validation f)"
      using vt [OF that, of "?cal ! j"] ix near by auto
  qed
qed

lemma plan_guardsD:
  assumes "\<forall>g \<in> set (plan_guards p). \<not> fst g"
  shows "\<not> blank (calendar_version p)" "strictly_sorted (ordered_sessions p)" "10 \<le> label_horizon p"
    "label_horizon p \<le> embargo p" "folds p \<noteq> []"
  using assms by (auto simp: plan_guards_def session_tuple_def)

lemma mk_plan_Inr:
  assumes "mk_plan p0 = Inr p"
  shows "\<forall>g \<in> set (plan_guards p0). \<not> fst g" "\<exists>s. foldE (walk p0) walk_start (folds p0) = Inr s"
    "p = p0\<lparr>plan_id := plan_id p\<rparr>" "plan_id p = fields_id (plan_material p)"
  using assms by (auto simp: mk_plan_def guards_Inr_iff res_simps plan_material_def)

lemma purged_plan_id [simp]: "purged (p\<lparr>plan_id := i\<rparr>) f = purged p f"
  by (simp add: purged_def)

text \<open>C17: A plan that the constructor accepts leaks no label: in every fold the sessions whose
  forward label, of the plan's horizon, reaches into the validation or test window are not in the
  training window, nor those that reach the test window in the validation window.  The test windows of
  all folds follow one another without repetition, the training windows only grow, no fold is
  listed twice, and the plan passes its own verification.\<close>

theorem plan_leaks_no_label:
  assumes "mapE mk_fold raw = Inr (folds p0)" and "mk_plan p0 = Inr p"
  shows "folds p \<noteq> [] \<and> 10 \<le> label_horizon p \<and> list_all (purged p) (folds p)
    \<and> strictly_sorted (concat (map test (folds p)))
    \<and> sorted_wrt expands (folds p) \<and> distinct (map fold_id (folds p)) \<and> verify_plan p = Inr ()"
proof -
  note m = mk_plan_Inr [OF assms(2)] and g = plan_guardsD [OF mk_plan_Inr(1) [OF assms(2)]]
  have f: "folds p = folds p0" "label_horizon p = label_horizon p0" "\<And>f. purged p f = purged p0 f"
    by (subst m(3); simp)+
  obtain s where s: "foldE (walk p0) walk_start (folds p0) = Inr s" using m(2) by blast
  then have "walked s"
    using walking.run_inv [OF walked_start] construct_walk_fold [OF assms(1), of p0 walk_start] by metis
  moreover have "seen_ids s = map fold_id (folds p0)" "seen_tests s = concat (map test (folds p0))"
    using walk_collects [OF s] by (simp_all add: walk_start_def)
  moreover have "list_all (placed p0) (folds p0)" by (rule walk_places [OF s])
  moreover have "fold_ok f" if "f \<in> set (folds p0)" for f
    using mapE_set [OF assms(1) that] mk_fold_Inr(1) by metis
  moreover have "sorted_wrt expands (folds p0)" using walk_expands [OF s] by (simp add: walk_start_def)
  ultimately show ?thesis
    using g m(4) placed_purged f
    by (auto simp: list_all_iff walked_def verify_plan_def guards_Inr_iff placed_def Let_def)
qed

section \<open>The builder returns\<close>

lemma fold_loop_returns: "0 < step_width l \<Longrightarrow> \<exists>r. fold_loop cal l emb fs off = Some r"
proof (induction "nat (int (length cal) - test_end l emb off + 1)" arbitrary: fs off rule: less_induct)
  case less
  show ?case
  proof (cases "int (length cal) < test_end l emb off")
    case True
    then show ?thesis by (simp add: fold_loop.simps)
  next
    case False
    have "test_end l emb (off + step_width l) = test_end l emb off + step_width l" by (simp add: test_end_def)
    then have "nat (int (length cal) - test_end l emb (off + step_width l) + 1)
        < nat (int (length cal) - test_end l emb off + 1)" using False less.prems by simp
    then have "\<exists>r. fold_loop cal l emb fs' (off + step_width l) = Some r" for fs' using less by blast
    then show ?thesis using False by (subst fold_loop.simps) (auto split: sum.split)
  qed
qed

definition window :: "date list \<Rightarrow> int \<Rightarrow> int \<Rightarrow> date list" where
  \<comment> \<open>\<open>w\<close> sessions from position \<open>i\<close> on\<close>
  "window cal i w = take (nat w) (drop (nat i) cal)"

lemma py_slice_window: "0 \<le> i \<Longrightarrow> 0 \<le> w \<Longrightarrow> i + w \<le> int (length cal) \<Longrightarrow> py_slice cal i (i + w) = window cal i w"
  by (simp add: py_slice_def slice_bound_def window_def Let_def nat_add_distrib)

definition room :: "date list \<Rightarrow> int \<Rightarrow> int \<Rightarrow> bool" where
  "room cal i w = (0 \<le> i \<and> 0 < w \<and> i + w \<le> int (length cal))"

lemma window_ends:
  assumes "room cal i w"
  shows "window cal i w \<noteq> []" "hd (window cal i w) = cal ! nat i" "last (window cal i w) = cal ! nat (i + w - 1)"
    "set (window cal i w) \<subseteq> set cal" "length (window cal i w) = nat w"
proof -
  have r: "0 \<le> i" "0 < w" "i + w \<le> int (length cal)" using assms by (auto simp: room_def)
  then show len: "length (window cal i w) = nat w" by (simp add: window_def)
  then show ne: "window cal i w \<noteq> []" using r by auto
  show "hd (window cal i w) = cal ! nat i" using r by (simp add: window_def hd_drop_conv_nth)
  have "last (window cal i w) = window cal i w ! (nat w - 1)" using ne len by (simp add: last_conv_nth)
  also have "\<dots> = cal ! (nat i + (nat w - 1))" using r by (simp add: window_def)
  also have "nat i + (nat w - 1) = nat (i + w - 1)" using r by arith
  finally show "last (window cal i w) = cal ! nat (i + w - 1)" .
  show "set (window cal i w) \<subseteq> set cal" by (auto simp: window_def dest: in_set_takeD in_set_dropD)
qed

lemma window_sorted: "strictly_sorted cal \<Longrightarrow> strictly_sorted (window cal i w)"
  by (simp add: window_def strictly_sorted_take strictly_sorted_drop)

lemma window_positions:
  assumes "room cal i w" and "distinct cal"
  shows "map (index_of cal) (window cal i w) = [nat i..<nat (i + w)]"
proof (rule nth_equalityI)
  have r: "0 \<le> i" "0 < w" "i + w \<le> int (length cal)" using assms(1) by (auto simp: room_def)
  then show len: "length (map (index_of cal) (window cal i w)) = length [nat i..<nat (i + w)]"
    by (simp add: window_ends(5) [OF assms(1)] nat_add_distrib)
  fix k assume "k < length (map (index_of cal) (window cal i w))"
  then have k: "k < nat w" by (simp add: window_ends(5) [OF assms(1)])
  then have "nat i + k < length cal" using r by arith
  then show "map (index_of cal) (window cal i w) ! k = [nat i..<nat (i + w)] ! k"
    using k r assms(2) by (simp add: window_def nat_add_distrib)
qed

lemma window_before:
  assumes "strictly_sorted cal" and "room cal i w" and "room cal j v" and "i + w \<le> j"
  shows "last (window cal i w) < hd (window cal j v)"
proof -
  have "nat (i + w - 1) < nat j" "nat j < length cal" using assms(2-4) by (auto simp: room_def)
  then have "cal ! nat (i + w - 1) < cal ! nat j" using assms(1) by (simp add: sorted_wrt_nth_less)
  then show ?thesis using assms(2,3) by (simp add: window_ends)
qed

lemma windows_disjoint:
  assumes "strictly_sorted cal" and "room cal i w" and "room cal j v" and "i + w \<le> j"
  shows "set (window cal i w) \<inter> set (window cal j v) = {}"
  using window_before [OF assms] strictly_sorted_last [OF window_sorted [OF assms(1)], of _ i w]
    strictly_sorted_hd [OF window_sorted [OF assms(1)], of _ j v] by fastforce

lemma window_contiguous:
  assumes "room cal i w" and "distinct cal"
  shows "contiguous cal (window cal i w)"
proof -
  have "0 \<le> i" "0 < w" using assms(1) by (auto simp: room_def)
  then have lt: "nat i < nat (i + w)" by simp
  have "[nat i..<nat (i + w)] = [hd [nat i..<nat (i + w)]..<last [nat i..<nat (i + w)] + 1]"
    using lt by (simp add: last_upt)
  then show ?thesis by (simp add: contiguous_def Let_def window_positions [OF assms] del: upt_Suc)
qed

section \<open>The folds that are laid out\<close>

definition well_laid :: "layout \<Rightarrow> int \<Rightarrow> bool" where
  "well_laid l emb = (0 < initial_sessions l \<and> 0 < validation_width l \<and> 0 < test_width l
     \<and> test_width l \<le> step_width l \<and> 0 \<le> emb)"

definition sealed_fold :: "date list \<Rightarrow> layout \<Rightarrow> int \<Rightarrow> int \<Rightarrow> fold" where
  "sealed_fold cal l emb off = (let f = fold_at cal l emb off in f\<lparr>fold_id := fields_id (fold_material f)\<rparr>)"

definition fold_count :: "date list \<Rightarrow> layout \<Rightarrow> int \<Rightarrow> nat" where
  "fold_count cal l emb = nat ((int (length cal) - test_end l emb 0) div step_width l + 1)"

lemma sealed_fold_fields:
  assumes "well_laid l emb" and "0 \<le> off" and "test_end l emb off \<le> int (length cal)"
  shows "training (sealed_fold cal l emb off) = window cal 0 (initial_sessions l + off)"
    "validation (sealed_fold cal l emb off) = window cal (initial_sessions l + off + emb) (validation_width l)"
    "test (sealed_fold cal l emb off) = window cal (initial_sessions l + off + 2 * emb + validation_width l) (test_width l)"
    "\<not> fst (fold_broken (sealed_fold cal l emb off))"
    "fold_id (sealed_fold cal l emb off) = fields_id (fold_material (sealed_fold cal l emb off))"
  using assms
    py_slice_window [of 0 "initial_sessions l + off" cal]
    py_slice_window [of "initial_sessions l + off + emb" "validation_width l" cal]
    py_slice_window [of "initial_sessions l + off + 2 * emb + validation_width l" "test_width l" cal]
  by (simp_all add: sealed_fold_def fold_at_def Let_def well_laid_def test_end_def fold_broken_def fold_material_def
      algebra_simps)

lemma rooms:
  assumes "well_laid l emb" and "0 \<le> off" and "test_end l emb off \<le> int (length cal)"
  shows "room cal 0 (initial_sessions l + off)" "room cal (initial_sessions l + off + emb) (validation_width l)"
    "room cal (initial_sessions l + off + 2 * emb + validation_width l) (test_width l)"
  using assms by (auto simp: room_def well_laid_def test_end_def)

lemma sealed_fold_ok:
  assumes l: "well_laid l emb" "0 \<le> off" "test_end l emb off \<le> int (length cal)" and cal: "strictly_sorted cal"
  shows "fold_ok (sealed_fold cal l emb off)"
proof -
  note f = sealed_fold_fields [OF l] and r = rooms [OF l]
  have emb: "0 \<le> emb" "0 < validation_width l" using l(1) by (auto simp: well_laid_def)
  have "0 + (initial_sessions l + off) \<le> initial_sessions l + off + emb"
    "initial_sessions l + off + emb + validation_width l \<le> initial_sessions l + off + 2 * emb + validation_width l"
    "0 + (initial_sessions l + off) \<le> initial_sessions l + off + 2 * emb + validation_width l" using emb by simp_all
  note gaps = this
  note before = window_before [OF cal r(1,2) gaps(1)] window_before [OF cal r(2,3) gaps(2)]
  note disjoint = windows_disjoint [OF cal r(1,2) gaps(1)] windows_disjoint [OF cal r(2,3) gaps(2)]
    windows_disjoint [OF cal r(1,3) gaps(3)]
  show ?thesis
    unfolding fold_ok_def fold_guards_def session_tuple_def f(1-3)
    using before disjoint window_ends(1) [OF r(1)] window_ends(1) [OF r(2)] window_ends(1) [OF r(3)]
      window_sorted [OF cal] by simp
qed

lemma mk_fold_sealed:
  assumes "well_laid l emb" "0 \<le> off" "test_end l emb off \<le> int (length cal)" "strictly_sorted cal"
  shows "mk_fold (fold_at cal l emb off) = Inr (sealed_fold cal l emb off)"
proof -
  have "fold_guards (sealed_fold cal l emb off) = fold_guards (fold_at cal l emb off)"
    by (simp add: sealed_fold_def fold_guards_def Let_def)
  then show ?thesis using sealed_fold_ok [OF assms]
    by (simp add: mk_fold_def guards_Inr_iff fold_ok_def list_all_iff sealed_fold_def Let_def)
qed

definition folds_from :: "date list \<Rightarrow> layout \<Rightarrow> int \<Rightarrow> int \<Rightarrow> fold list" where
  \<comment> \<open>the folds from this offset on, as many as the calendar has room for\<close>
  "folds_from cal l emb off = map (\<lambda>k. sealed_fold cal l emb (off + int k * step_width l))
     [0..<nat ((int (length cal) - test_end l emb off) div step_width l + 1)]"

lemma folds_from_step:
  assumes "0 < step_width l" and "test_end l emb off \<le> int (length cal)"
  shows "folds_from cal l emb off = sealed_fold cal l emb off # folds_from cal l emb (off + step_width l)"
proof -
  let ?x = "int (length cal) - test_end l emb off" and ?s = "step_width l"
  have te: "test_end l emb (off + ?s) = test_end l emb off + ?s" by (simp add: test_end_def)
  have "(?x - ?s) div ?s + 1 = ?x div ?s" using assms(1)
    by (metis diff_add_cancel div_add_self2 less_irrefl)
  moreover have "0 \<le> ?x div ?s" using assms by (simp add: pos_imp_zdiv_nonneg_iff)
  ultimately have n: "nat (?x div ?s + 1) = Suc (nat ((int (length cal) - test_end l emb (off + ?s)) div ?s + 1))"
    by (simp add: te algebra_simps nat_add_distrib)
  show ?thesis
    unfolding folds_from_def n by (simp add: map_upt_Suc algebra_simps del: upt_Suc)
qed

lemma fold_loop_folds:
  assumes "well_laid l emb" and "strictly_sorted cal"
  shows "0 \<le> off \<Longrightarrow> fold_loop cal l emb fs off = Some (Inr (fs @ folds_from cal l emb off))"
proof (induction "nat (int (length cal) - test_end l emb off + 1)" arbitrary: fs off rule: less_induct)
  case less
  have step: "0 < step_width l" using assms(1) by (simp add: well_laid_def)
  have te: "test_end l emb (off + step_width l) = test_end l emb off + step_width l" by (simp add: test_end_def)
  show ?case
  proof (cases "int (length cal) < test_end l emb off")
    case True
    then have "(int (length cal) - test_end l emb off) div step_width l < 0"
      using step by (simp add: pos_imp_zdiv_neg_iff)
    then show ?thesis using True by (subst fold_loop.simps) (simp add: folds_from_def)
  next
    case False
    then have "nat (int (length cal) - test_end l emb (off + step_width l) + 1)
        < nat (int (length cal) - test_end l emb off + 1)" using step te by simp
    then have "fold_loop cal l emb fs' (off + step_width l)
        = Some (Inr (fs' @ folds_from cal l emb (off + step_width l)))" for fs'
      using less step by simp
    then show ?thesis
      using False mk_fold_sealed [OF assms(1) less.prems _ assms(2)] folds_from_step [OF step, of emb off cal]
      by (subst fold_loop.simps) simp
  qed
qed

section \<open>The plan is accepted\<close>

interpretation fold_identity: content_addressed fold_material
  "[''schema_version'', ''training_sessions'', ''validation_sessions'', ''test_sessions'']"
proof
  show "list_all (\<lambda>k. \<not> is_sensitive_attribute k)
    [''schema_version'', ''training_sessions'', ''validation_sessions'', ''test_sessions'']"
    by code_simp
qed (simp_all add: fold_material_def)

lemma canon_sessions: "canon (sessions_val xs) = canon (sessions_val ys) \<Longrightarrow> length xs = length ys"
  by (auto simp: canon_def sessions_val_def dest: map_eq_imp_length_eq)

lemma fold_count_fits:
  assumes "well_laid l emb" and "k < fold_count cal l emb"
  shows "test_end l emb (int k * step_width l) \<le> int (length cal)" "0 \<le> int k * step_width l"
proof -
  have step: "0 < step_width l" using assms(1) by (simp add: well_laid_def)
  then show "0 \<le> int k * step_width l" by simp
  let ?x = "int (length cal) - test_end l emb 0"
  have "int k \<le> ?x div step_width l" using assms(2) by (simp add: fold_count_def)
  then have "int k * step_width l \<le> ?x div step_width l * step_width l" using step by simp
  also have "\<dots> \<le> ?x" using step by (simp flip: minus_mod_eq_div_mult)
  finally show "test_end l emb (int k * step_width l) \<le> int (length cal)" by (simp add: test_end_def)
qed

definition nth_fold :: "date list \<Rightarrow> layout \<Rightarrow> int \<Rightarrow> nat \<Rightarrow> fold" where
  "nth_fold cal l emb k = sealed_fold cal l emb (int k * step_width l)"

definition nth_material :: "date list \<Rightarrow> layout \<Rightarrow> int \<Rightarrow> nat \<Rightarrow> (string \<times> pyval) list" where
  "nth_material cal l emb k = fold_material (nth_fold cal l emb k)"

lemma nth_fold_fields:
  assumes "well_laid l emb" and "k < fold_count cal l emb"
  shows "training (nth_fold cal l emb k) = window cal 0 (initial_sessions l + int k * step_width l)"
    "validation (nth_fold cal l emb k) = window cal (initial_sessions l + int k * step_width l + emb) (validation_width l)"
    "test (nth_fold cal l emb k)
      = window cal (initial_sessions l + int k * step_width l + 2 * emb + validation_width l) (test_width l)"
    "\<not> fst (fold_broken (nth_fold cal l emb k))"
    "fold_id (nth_fold cal l emb k) = fields_id (nth_material cal l emb k)"
  using sealed_fold_fields [OF assms(1) fold_count_fits(2,1) [OF assms]]
  by (simp_all add: nth_fold_def nth_material_def)

lemma nth_rooms:
  assumes "well_laid l emb" and "k < fold_count cal l emb"
  shows "room cal 0 (initial_sessions l + int k * step_width l)"
    "room cal (initial_sessions l + int k * step_width l + emb) (validation_width l)"
    "room cal (initial_sessions l + int k * step_width l + 2 * emb + validation_width l) (test_width l)"
  using rooms [OF assms(1) fold_count_fits(2,1) [OF assms]] by simp_all

lemma nth_fold_ids:
  assumes l: "well_laid l emb" and k: "k < fold_count cal l emb" and j: "j < k"
    and eq: "fold_id (nth_fold cal l emb j) = fold_id (nth_fold cal l emb k)"
  shows "collision_of (nth_material cal l emb j) (nth_material cal l emb k)"
proof -
  have j': "j < fold_count cal l emb" using j k by simp
  have "0 < step_width l" "0 < initial_sessions l" using l by (auto simp: well_laid_def)
  moreover from this have "int j * step_width l < int k * step_width l" using j by simp
  ultimately have "nat (initial_sessions l + int j * step_width l) \<noteq> nat (initial_sessions l + int k * step_width l)"
    using fold_count_fits(2) [OF l j'] by (subst eq_nat_nat_iff) linarith+
  then have "length (training (nth_fold cal l emb j)) \<noteq> length (training (nth_fold cal l emb k))"
    by (simp only: nth_fold_fields(1) [OF l k] nth_fold_fields(1) [OF l j']
        window_ends(5) [OF nth_rooms(1) [OF l k]] window_ends(5) [OF nth_rooms(1) [OF l j']] not_False_eq_True)
  then have "canon (sessions_val (training (nth_fold cal l emb j))) \<noteq> canon (sessions_val (training (nth_fold cal l emb k)))"
    by (metis canon_sessions)
  then have "map (canon \<circ> snd) (nth_material cal l emb j) \<noteq> map (canon \<circ> snd) (nth_material cal l emb k)"
    by (simp only: nth_material_def fold_material_def list.map comp_def snd_conv list.inject simp_thms)
  moreover have "fields_id (nth_material cal l emb j) = fields_id (nth_material cal l emb k)"
    using eq by (simp only: nth_fold_fields(5) [OF l k] nth_fold_fields(5) [OF l j'])
  ultimately show ?thesis
    using fold_identity.same_id_same_fields unfolding nth_material_def by blast
qed

definition after :: "fold list \<Rightarrow> walk_state" where
  \<comment> \<open>the constructor's accumulator after these folds\<close>
  "after fs = \<lparr>seen_ids = map fold_id fs, seen_tests = concat (map test fs),
     previous = (if fs = [] then None else Some (last fs))\<rparr>"

lemma nth_walk:
  assumes l: "well_laid l emb" and cal: "strictly_sorted cal" and k: "k < fold_count cal l emb"
    and p: "ordered_sessions p = cal" "embargo p = emb"
    and new: "\<forall>j < k. fold_id (nth_fold cal l emb j) \<noteq> fold_id (nth_fold cal l emb k)"
  shows "walk p (after (map (nth_fold cal l emb) [0..<k])) (nth_fold cal l emb k)
    = Inr (after (map (nth_fold cal l emb) [0..<Suc k]))"
proof -
  let ?F = "nth_fold cal l emb" and ?o = "\<lambda>i. int i * step_width l"
  have d: "distinct cal" using cal by (simp add: strict_sorted_iff)
  note f = nth_fold_fields [OF l k] and r = nth_rooms [OF l k]
  have wl: "0 < initial_sessions l" "0 < validation_width l" "0 < test_width l" "test_width l \<le> step_width l" "0 \<le> emb"
    using l by (auto simp: well_laid_def)
  have step: "?o j + test_width l \<le> ?o k" if "j < k" for j
  proof -
    have "step_width l \<le> int (k - j) * step_width l" using that wl by simp
    then show ?thesis using wl that by (simp add: of_nat_diff algebra_simps)
  qed
  have ix: "int (index_of cal (hd (window cal i w))) = i" "int (index_of cal (last (window cal i w))) = i + w - 1"
    if "room cal i w" for i w
    using that d by (auto simp: window_ends [OF that] room_def)
  have gaps: "int (index_of cal (hd (validation (?F k)))) - int (index_of cal (last (training (?F k)))) - 1 = emb"
    "int (index_of cal (hd (test (?F k)))) - int (index_of cal (last (validation (?F k)))) - 1 = emb"
    unfolding f(1-3) ix [OF r(1)] ix [OF r(2)] ix [OF r(3)] by simp_all
  have tests: "set (test (?F j)) \<inter> set (test (?F k)) = {}" "last (test (?F j)) < hd (test (?F k))" if "j < k" for j
  proof -
    have j: "j < fold_count cal l emb" using that k by simp
    show "set (test (?F j)) \<inter> set (test (?F k)) = {}" "last (test (?F j)) < hd (test (?F k))"
      unfolding f(3) nth_fold_fields(3) [OF l j] using step [OF that]
      by (intro windows_disjoint [OF cal nth_rooms(3) [OF l j] r(3)] window_before [OF cal nth_rooms(3) [OF l j] r(3)]; simp)+
  qed
  have grow: "set (training (?F j)) \<subseteq> set (training (?F k))" if "j < k" for j
  proof -
    have j: "j < fold_count cal l emb" using that k by simp
    show ?thesis unfolding f(1) nth_fold_fields(1) [OF l j] using step [OF that] wl
      by (auto simp: window_def intro!: set_take_subset_set_take)
  qed
  have inside: "set (training (?F k) @ validation (?F k) @ test (?F k)) \<subseteq> set cal"
    unfolding f(1-3) using window_ends(4) r by simp
  have cont: "contiguous cal (training (?F k))" "contiguous cal (validation (?F k))" "contiguous cal (test (?F k))"
    unfolding f(1-3) by (rule window_contiguous [OF _ d], rule r)+
  have seen: "fold_id (?F k) \<notin> set (seen_ids (after (map ?F [0..<k])))" using new by (auto simp: after_def)
  have fresh: "set (seen_tests (after (map ?F [0..<k]))) \<inter> set (test (?F k)) = {}"
    using tests(1) by (fastforce simp: after_def)
  have prev: "previous (after (map ?F [0..<k])) = (if k = 0 then None else Some (?F (k - 1)))"
    by (simp add: after_def last_map)
  have "list_all (\<lambda>g. \<not> fst g) (walk_guards p (after (map ?F [0..<k])) (?F k))"
    unfolding walk_guards_def Let_def p
    using f(4) seen fresh gaps inside cont prev tests(2) [of "k - 1"] grow [of "k - 1"] by (simp add: not_le)
  then show ?thesis by (simp add: walk_Inr after_def)
qed

lemma walk_all:
  assumes "well_laid l emb" and "strictly_sorted cal" and "ordered_sessions p = cal" "embargo p = emb"
    and "\<forall>k < fold_count cal l emb. \<forall>j < k. \<not> collision_of (nth_material cal l emb j) (nth_material cal l emb k)"
  shows "k \<le> fold_count cal l emb \<Longrightarrow>
    foldE (walk p) walk_start (map (nth_fold cal l emb) [0..<k]) = Inr (after (map (nth_fold cal l emb) [0..<k]))"
proof (induction k)
  case 0
  then show ?case by (simp add: walk_start_def after_def)
next
  case (Suc k)
  then have "k < fold_count cal l emb" by simp
  then have "\<forall>j < k. fold_id (nth_fold cal l emb j) \<noteq> fold_id (nth_fold cal l emb k)"
    using nth_fold_ids [OF assms(1) \<open>k < fold_count cal l emb\<close>] assms(5) by blast
  then show ?case using Suc nth_walk [OF assms(1,2) _ assms(3,4)] by (simp add: foldE_append)
qed

lemma folds_from_start: "folds_from cal l emb 0 = map (nth_fold cal l emb) [0..<fold_count cal l emb]"
  by (simp add: folds_from_def fold_count_def nth_fold_def [abs_def])

lemma layout_guardsD:
  "guards (layout_guards l) (Inr ()) = Inr u \<longleftrightarrow> 0 < initial_sessions l \<and> 0 < validation_width l \<and> 0 < test_width l
     \<and> 0 < step_width l \<and> test_width l \<le> step_width l"
  by (auto simp: guards_Inr_iff layout_guards_def)

text \<open>C32: The builder always returns: its loop ends whatever the calendar and the embargo.  With
  positive widths and a step of at least the test width it raises the coverage error exactly when
  the calendar is shorter than one training, validation and test window with their two embargoes.\<close>

theorem walk_forward_returns:
  "(\<exists>r. build_plan version cal l horizon emb = Some r)
   \<and> (well_laid l emb \<and> strictly_sorted cal \<longrightarrow>
       (build_plan version cal l horizon emb
          = Some (Inl (plan_err ''calendar coverage is insufficient for one fully purged fold''))
        \<longleftrightarrow> int (length cal) < initial_sessions l + validation_width l + test_width l + 2 * emb))"
proof (intro conjI impI)
  show "\<exists>r. build_plan version cal l horizon emb = Some r"
  proof (cases "guards (layout_guards l) (Inr ())")
    case (Inr u)
    then have "0 < step_width l" by (simp add: layout_guardsD)
    from fold_loop_returns [OF this] obtain r where "fold_loop cal l emb [] 0 = Some r" by blast
    then show ?thesis using Inr by (cases r) (simp_all add: build_plan_def)
  qed (simp add: build_plan_def)
next
  assume a: "well_laid l emb \<and> strictly_sorted cal"
  then have g: "guards (layout_guards l) (Inr ()) = Inr ()"
    by (auto simp: layout_guardsD well_laid_def)
  have step: "0 < step_width l" using a by (auto simp: well_laid_def)
  have "folds_from cal l emb 0 = [] \<longleftrightarrow> (int (length cal) - test_end l emb 0) div step_width l < 0"
    by (auto simp: folds_from_def)
  also have "\<dots> \<longleftrightarrow> int (length cal) < initial_sessions l + validation_width l + test_width l + 2 * emb"
    using step by (auto simp: pos_imp_zdiv_neg_iff test_end_def)
  finally have empty: "folds_from cal l emb 0 = []
    \<longleftrightarrow> int (length cal) < initial_sessions l + validation_width l + test_width l + 2 * emb" .
  have other: "mk_plan p \<noteq> Inl (plan_err ''calendar coverage is insufficient for one fully purged fold'')" for p
  proof -
    have w: "foldE (walk p) s fs \<noteq> Inl (plan_err ''calendar coverage is insufficient for one fully purged fold'')" for s fs
    proof (induction fs arbitrary: s)
      case (Cons f fs)
      then show ?case
        by (auto simp: res_simps walk_def walk_guards_def Let_def plan_err_def fold_broken_def dest!: guards_Inl_cases)
    qed simp
    then show ?thesis
      by (auto simp: mk_plan_def res_simps plan_guards_def session_tuple_def plan_err_def dest!: guards_Inl_cases)
  qed
  show "(build_plan version cal l horizon emb
          = Some (Inl (plan_err ''calendar coverage is insufficient for one fully purged fold'')))
        = (int (length cal) < initial_sessions l + validation_width l + test_width l + 2 * emb)"
    using fold_loop_folds [of l emb cal 0 "[]"] a g other empty by (simp add: build_plan_def)
qed

definition laid_plan :: "string \<Rightarrow> date list \<Rightarrow> layout \<Rightarrow> int \<Rightarrow> int \<Rightarrow> plan" where
  "laid_plan version cal l horizon emb = \<lparr>calendar_version = version, ordered_sessions = cal,
     label_horizon = horizon, embargo = emb, folds = map (nth_fold cal l emb) [0..<fold_count cal l emb],
     split_by = PURGED_WALK_FORWARD, plan_schema = ''purged-walk-forward-plan/v1'', plan_id = []\<rparr>"

lemma fold_count_int:
  assumes "well_laid l emb" and "test_end l emb 0 \<le> int (length cal)"
  shows "int (fold_count cal l emb) = (int (length cal) - test_end l emb 0) div step_width l + 1" "0 < fold_count cal l emb"
proof -
  have "0 < step_width l" using assms(1) by (simp add: well_laid_def)
  then have "0 \<le> (int (length cal) - test_end l emb 0) div step_width l"
    using assms(2) by (simp add: pos_imp_zdiv_nonneg_iff)
  then show "int (fold_count cal l emb) = (int (length cal) - test_end l emb 0) div step_width l + 1" "0 < fold_count cal l emb"
    by (simp_all add: fold_count_def)
qed

lemma laid_plan_accepted:
  fixes p :: plan
  assumes l: "well_laid l emb" and "strictly_sorted cal" and "\<not> blank version" and "10 \<le> horizon" "horizon \<le> emb"
    and "test_end l emb 0 \<le> int (length cal)"
    and "\<not> (\<exists>j k. j < k \<and> k < fold_count cal l emb \<and> collision_of (nth_material cal l emb j) (nth_material cal l emb k))"
    and p: "p = laid_plan version cal l horizon emb"
  shows "mk_plan p = Inr (p\<lparr>plan_id := fields_id (plan_material p)\<rparr>)"
    "build_plan version cal l horizon emb = Some (mk_plan p)" "folds p \<noteq> []"
proof -
  have f: "ordered_sessions p = cal" "embargo p = emb" "folds p = map (nth_fold cal l emb) [0..<fold_count cal l emb]"
    by (simp_all add: p laid_plan_def)
  have w: "0 < initial_sessions l" "0 < validation_width l" "0 < test_width l" "test_width l \<le> step_width l" "0 \<le> emb"
    using l by (auto simp: well_laid_def)
  have n0: "0 < fold_count cal l emb" by (rule fold_count_int [OF l assms(6)])
  then show "folds p \<noteq> []" by (simp add: f)
  have cal0: "cal \<noteq> []" using assms(6) w by (auto simp: test_end_def)
  have "foldE (walk p) walk_start (folds p) = Inr (after (folds p))"
    unfolding f(3) by (rule walk_all [OF l assms(2) f(1,2)]) (use assms(7) in auto)
  moreover have "\<forall>g \<in> set (plan_guards p). \<not> fst g"
    using assms(2-5) n0 cal0 by (simp add: plan_guards_def session_tuple_def p laid_plan_def)
  ultimately show "mk_plan p = Inr (p\<lparr>plan_id := fields_id (plan_material p)\<rparr>)"
    by (simp add: mk_plan_def guards_Inr_iff)
  have "guards (layout_guards l) (Inr ()) = Inr ()" using w by (simp add: layout_guardsD)
  then show "build_plan version cal l horizon emb = Some (mk_plan p)"
    using fold_loop_folds [OF l assms(2), of 0 "[]"] n0
    by (simp add: build_plan_def folds_from_start p laid_plan_def)
qed

text \<open>C33: On a sorted calendar long enough for one fold the builder returns the plan that the
  parameters describe: fold \<open>k\<close> trains on everything up to its training end, \<open>k\<close> steps
  further than the first, validates and tests behind one embargo each, and there are as many folds as fit.
  The only way out is a SHA-256 collision between the identities of two folds.\<close>

theorem walk_forward_plan_exact:
  assumes l: "well_laid l emb" and "strictly_sorted cal" and "\<not> blank version" and "10 \<le> horizon" "horizon \<le> emb"
    and fit: "initial_sessions l + validation_width l + test_width l + 2 * emb \<le> int (length cal)"
  shows "(\<exists>p. build_plan version cal l horizon emb = Some (Inr p)
      \<and> int (length (folds p)) = (int (length cal)
          - (initial_sessions l + validation_width l + test_width l + 2 * emb)) div step_width l + 1
      \<and> (\<forall>k < length (folds p). let t = initial_sessions l + int k * step_width l in
          training (folds p ! k) = window cal 0 t
          \<and> validation (folds p ! k) = window cal (t + emb) (validation_width l)
          \<and> test (folds p ! k) = window cal (t + 2 * emb + validation_width l) (test_width l))
      \<and> verify_plan p = Inr ())
    \<or> (\<exists>j k. j < k \<and> k < fold_count cal l emb
        \<and> collision_of (nth_material cal l emb j) (nth_material cal l emb k))"
proof (rule disjCI)
  assume no: "\<not> (\<exists>j k. j < k \<and> k < fold_count cal l emb
    \<and> collision_of (nth_material cal l emb j) (nth_material cal l emb k))"
  have te: "test_end l emb 0 = initial_sessions l + validation_width l + test_width l + 2 * emb"
    by (simp add: test_end_def)
  define p where "p = laid_plan version cal l horizon emb"
  define q where "q = p\<lparr>plan_id := fields_id (plan_material p)\<rparr>"
  note ok = laid_plan_accepted [OF assms(1-5) _ no p_def, unfolded te, OF fit]
  have f: "folds q = map (nth_fold cal l emb) [0..<fold_count cal l emb]" by (simp add: q_def p_def laid_plan_def)
  have "verify_plan q = Inr ()"
    using nth_fold_fields(4) [OF l] by (auto simp: verify_plan_def guards_Inr_iff f) (simp add: q_def plan_material_def)
  then show "\<exists>p. build_plan version cal l horizon emb = Some (Inr p)
      \<and> int (length (folds p)) = (int (length cal)
          - (initial_sessions l + validation_width l + test_width l + 2 * emb)) div step_width l + 1
      \<and> (\<forall>k < length (folds p). let t = initial_sessions l + int k * step_width l in
          training (folds p ! k) = window cal 0 t
          \<and> validation (folds p ! k) = window cal (t + emb) (validation_width l)
          \<and> test (folds p ! k) = window cal (t + 2 * emb + validation_width l) (test_width l))
      \<and> verify_plan p = Inr ()"
    using ok(1,2) fold_count_int(1) [OF l, of cal, unfolded te, OF fit] nth_fold_fields(1-3) [OF l]
    by (intro exI [of _ q] conjI) (simp_all add: f Let_def flip: q_def)
qed

section \<open>Witnesses\<close>

definition demo_cal :: "nat \<Rightarrow> date list" where
  "demo_cal n = map (\<lambda>d. Date 2026 3 (d + 1)) [0..<n]"

definition demo_layout :: layout where
  "demo_layout = \<lparr>initial_sessions = 2, validation_width = 1, test_width = 1, step_width = 1\<rparr>"

lemma demo_cal_sorted: "strictly_sorted (demo_cal n)" "length (demo_cal n) = n"
  by (simp_all add: demo_cal_def sorted_wrt_map)

lemma demo_layout_fields [simp]:
  "initial_sessions demo_layout = 2" "validation_width demo_layout = 1" "test_width demo_layout = 1"
  "step_width demo_layout = 1"
  by (simp_all add: demo_layout_def)

lemma demo_laid: "well_laid demo_layout 10" "\<not> blank ''NSE''"
  by (simp_all add: well_laid_def blank_def strip_def is_ws_def)

lemma demo_fold_count: "fold_count (demo_cal 24) demo_layout 10 = 1"
  by (simp add: fold_count_def demo_cal_sorted test_end_def)

theorem plan_leaks_no_label_witness:
  "\<exists>p. build_plan ''NSE'' (demo_cal 24) demo_layout 10 10 = Some (Inr p) \<and> list_all (purged p) (folds p)
     \<and> folds p \<noteq> []"
proof -
  define p where "p = laid_plan ''NSE'' (demo_cal 24) demo_layout 10 10"
  have te: "test_end demo_layout 10 0 \<le> int (length (demo_cal 24))"
    by (simp add: demo_cal_sorted test_end_def)
  note ok = laid_plan_accepted [where horizon = 10, OF demo_laid(1) demo_cal_sorted(1) demo_laid(2) _ _ te _ p_def]
  have made: "mk_plan p = Inr (p\<lparr>plan_id := fields_id (plan_material p)\<rparr>)"
    and b: "build_plan ''NSE'' (demo_cal 24) demo_layout 10 10 = Some (mk_plan p)"
    using ok by (simp_all add: demo_fold_count)
  have "nth_fold (demo_cal 24) demo_layout 10 0 = sealed_fold (demo_cal 24) demo_layout 10 0" by (simp add: nth_fold_def)
  then have "folds p = [sealed_fold (demo_cal 24) demo_layout 10 0]" by (simp add: p_def laid_plan_def demo_fold_count)
  then have "mapE mk_fold [fold_at (demo_cal 24) demo_layout 10 0] = Inr (folds p)"
    using mk_fold_sealed [OF demo_laid(1) _ te demo_cal_sorted(1)] by simp
  from plan_leaks_no_label [OF this made] made b show ?thesis by auto
qed

theorem walk_forward_returns_witness:
  "build_plan ''NSE'' (demo_cal 23) demo_layout 10 10
     = Some (Inl (plan_err ''calendar coverage is insufficient for one fully purged fold''))"
  using walk_forward_returns [of "''NSE''" "demo_cal 23" demo_layout 10 10] demo_laid(1) demo_cal_sorted(1) [of 23]
  by (simp add: demo_cal_sorted)

theorem walk_forward_plan_exact_witness:
  "\<exists>p. build_plan ''NSE'' (demo_cal 24) demo_layout 10 10 = Some (Inr p) \<and> length (folds p) = 1
     \<and> training (folds p ! 0) = [Date 2026 3 1, Date 2026 3 2] \<and> test (folds p ! 0) = [Date 2026 3 24]"
proof -
  have w: "window (demo_cal 24) 0 2 = [Date 2026 3 1, Date 2026 3 2]" "window (demo_cal 24) 23 1 = [Date 2026 3 24]"
    by (simp_all add: window_def demo_cal_def drop_map take_map take_upt del: upt_Suc)
      (simp_all add: upt_rec)
  show ?thesis
    using walk_forward_plan_exact [OF demo_laid(1) demo_cal_sorted(1) [of 24] demo_laid(2), of 10]
    by (auto simp: demo_fold_count demo_cal_sorted w Let_def)
qed

end
