(* ===== verification/Trials.thy ===== *)
theory Trials
  imports Identity
begin

text \<open>
  Research trial registrations and their registry (\<open>evaluation/trials.py\<close>,
  \<open>evaluation/trial_store.py\<close>).

  A registration fixes hypothesis, data, splits, costs, thresholds and holdout of a trial before it
  runs.  The registry stores one file per trial, named by its identity; here it is the list of the stored
  registrations, as the decoder returns them, oldest first.  \<open>register\<close> accepts a family's first trial without a
  parent and every later one with an earlier registered parent of the same family.

  \<open>registry_ok\<close> is the invariant of the registry, proved through \<open>guarded_machine\<close>; the theorems
  are the well-formedness of a registration, the shape of a family, and that registering is append-only and
  idempotent.
\<close>

section \<open>Registrations\<close>

datatype trial_stage = EXPLORATORY | CONFIRMATORY

record trial_registration =
  registered_at :: instant
  stage :: trial_stage
  hypothesis :: string
  strategy_family_id :: string
  parent_trial_id :: "string option"
  evaluation_start :: date
  evaluation_end :: date
  universe_snapshot_ids :: "string list"
  data_snapshot_ids :: "string list"
  split_plan_id :: string
  label_horizon_sessions :: int
  benchmark_id :: string
  primary_metric :: string
  secondary_metrics :: "string list"
  model_bundle_id :: string
  source_commit :: string
  dependency_hash :: string
  configuration_hash :: string
  exclusions_hash :: string
  risk_policy_hash :: string
  execution_policy_version :: string
  execution_policy_hash :: string
  cost_schedule_version :: string
  cost_schedule_hash :: string
  base_slippage_bps :: decimal
  stressed_slippage_bps :: "decimal option"
  pass_thresholds :: "(string \<times> decimal) list"
  multiple_testing_policy :: string
  random_seed :: int
  repetition_count :: int
  holdout_id :: "string option"
  holdout_sealed :: bool
  synthetic :: bool
  registration_schema :: string
  trial_id :: string

definition reg_err :: "string \<Rightarrow> py_exc" where
  "reg_err msg = TrialRegistrationError msg"

definition canonical_text :: "string \<Rightarrow> bool" where
  \<comment> \<open>non-empty, stripped, no control characters\<close>
  "canonical_text s = (s \<noteq> [] \<and> s = strip s \<and> list_all (\<lambda>c. 32 \<le> (of_char c :: nat)) s)"

definition text_guard :: "string \<Rightarrow> bool \<times> py_exc" where
  "text_guard s = (\<not> canonical_text s, reg_err ''must be canonical non-empty text'')"

definition sha_guard :: "string \<Rightarrow> bool \<times> py_exc" where
  "sha_guard s = (\<not> sha_text s, reg_err ''must be a full lowercase SHA-256'')"

definition id_tuple :: "string list \<Rightarrow> (bool \<times> py_exc) list" where
  "id_tuple xs = (xs = [] \<or> \<not> sorted_unique xs, reg_err ''must be a sorted unique tuple'') # map sha_guard xs"

definition commit_text :: "string \<Rightarrow> bool" where
  \<comment> \<open>the regular expression \<open>[0-9a-f]{7,64}\<close>, matched in full\<close>
  "commit_text s = (7 \<le> length s \<and> length s \<le> 64 \<and> list_all (\<lambda>c. c \<in> set ''0123456789abcdef'') s)"

definition opt_guard :: "('a \<Rightarrow> bool \<times> py_exc) \<Rightarrow> 'a option \<Rightarrow> (bool \<times> py_exc) list" where
  \<comment> \<open>a check made when the field is not \<open>None\<close>\<close>
  "opt_guard g x = (case x of None \<Rightarrow> [] | Some v \<Rightarrow> [g v])"

definition slippage_guards :: "trial_registration \<Rightarrow> (bool \<times> py_exc) list" where
  "slippage_guards r =
     [(\<not> synthetic r \<and> base_slippage_bps r \<le> 0, reg_err ''reportable trials cannot assume zero base slippage''),
      (stage r = CONFIRMATORY \<and> \<not> holdout_sealed r, reg_err ''confirmatory trial requires a sealed holdout''),
      (stage r = CONFIRMATORY \<and> (case stressed_slippage_bps r of None \<Rightarrow> True | Some s \<Rightarrow> s \<le> base_slippage_bps r),
         reg_err ''confirmatory trial requires stressed slippage above base'')]"

definition registration_guards :: "trial_registration \<Rightarrow> (bool \<times> py_exc) list" where
  "registration_guards r =
     map text_guard [hypothesis r, strategy_family_id r, benchmark_id r, primary_metric r, model_bundle_id r,
       execution_policy_version r, cost_schedule_version r, multiple_testing_policy r]
     @ opt_guard sha_guard (parent_trial_id r)
     @ [(evaluation_end r < evaluation_start r, reg_err ''evaluation dates are invalid'')]
     @ id_tuple (universe_snapshot_ids r) @ id_tuple (data_snapshot_ids r)
     @ map sha_guard [split_plan_id r, dependency_hash r, configuration_hash r, exclusions_hash r,
         risk_policy_hash r, execution_policy_hash r, cost_schedule_hash r]
     @ [(\<not> commit_text (source_commit r), reg_err ''source_commit must be a lowercase git hash''),
        (label_horizon_sessions r < 10, reg_err ''label horizon must be at least ten trading sessions''),
        (\<not> sorted_unique (secondary_metrics r) \<or> primary_metric r \<in> set (secondary_metrics r),
           reg_err ''secondary metrics must be sorted, unique, and exclude the primary metric'')]
     @ map text_guard (secondary_metrics r)
     @ opt_guard (\<lambda>s. (s \<le> 0, reg_err ''must be positive'')) (stressed_slippage_bps r)
     @ [(pass_thresholds r = [] \<or> \<not> sorted_unique (map fst (pass_thresholds r)),
           reg_err ''pass thresholds must be a non-empty sorted unique tuple'')]
     @ map (\<lambda>t. text_guard (fst t)) (pass_thresholds r)
     @ [(primary_metric r \<notin> set (map fst (pass_thresholds r)), reg_err ''primary metric requires a pass threshold''),
        (random_seed r < 0, reg_err ''random_seed must be a non-negative integer''),
        (repetition_count r \<le> 0, reg_err ''repetition_count must be positive'')]
     @ opt_guard sha_guard (holdout_id r)
     @ [(holdout_sealed r \<noteq> (holdout_id r \<noteq> None), reg_err ''holdout ID and sealed state must be declared together'')]
     @ slippage_guards r
     @ [(registration_schema r \<noteq> ''research-trial-registration/v1'', reg_err ''unsupported trial-registration schema'')]"

fun stage_val :: "trial_stage \<Rightarrow> pyval" where
  "stage_val EXPLORATORY = PEnum ''india_swing.evaluation.trials.TrialStage'' (PStr ''EXPLORATORY'')"
| "stage_val CONFIRMATORY = PEnum ''india_swing.evaluation.trials.TrialStage'' (PStr ''CONFIRMATORY'')"

definition texts :: "string list \<Rightarrow> pyval" where
  "texts xs = PTuple (map PStr xs)"

definition named_decimals :: "(string \<times> decimal) list \<Rightarrow> pyval" where
  "named_decimals ts = PTuple (map (\<lambda>(n, d). PTuple [PStr n, PDecimal d]) ts)"

definition registration_material :: "trial_registration \<Rightarrow> (string \<times> pyval) list" where
  "registration_material r =
     [(''schema_version'', PStr (registration_schema r)),
      (''registered_at'', PDatetime (registered_at r)),
      (''stage'', stage_val (stage r)),
      (''hypothesis'', PStr (hypothesis r)),
      (''strategy_family_id'', PStr (strategy_family_id r)),
      (''parent_trial_id'', popt PStr (parent_trial_id r)),
      (''evaluation_start'', PDate (evaluation_start r)),
      (''evaluation_end'', PDate (evaluation_end r)),
      (''universe_snapshot_ids'', texts (universe_snapshot_ids r)),
      (''data_snapshot_ids'', texts (data_snapshot_ids r)),
      (''split_plan_id'', PStr (split_plan_id r)),
      (''label_horizon_sessions'', PInt (label_horizon_sessions r)),
      (''benchmark_id'', PStr (benchmark_id r)),
      (''primary_metric'', PStr (primary_metric r)),
      (''secondary_metrics'', texts (secondary_metrics r)),
      (''model_bundle_id'', PStr (model_bundle_id r)),
      (''source_commit'', PStr (source_commit r)),
      (''dependency_hash'', PStr (dependency_hash r)),
      (''configuration_hash'', PStr (configuration_hash r)),
      (''exclusions_hash'', PStr (exclusions_hash r)),
      (''risk_policy_hash'', PStr (risk_policy_hash r)),
      (''execution_policy_version'', PStr (execution_policy_version r)),
      (''execution_policy_hash'', PStr (execution_policy_hash r)),
      (''cost_schedule_version'', PStr (cost_schedule_version r)),
      (''cost_schedule_hash'', PStr (cost_schedule_hash r)),
      (''base_slippage_bps'', PDecimal (base_slippage_bps r)),
      (''stressed_slippage_bps'', popt PDecimal (stressed_slippage_bps r)),
      (''pass_thresholds'', named_decimals (pass_thresholds r)),
      (''multiple_testing_policy'', PStr (multiple_testing_policy r)),
      (''random_seed'', PInt (random_seed r)),
      (''repetition_count'', PInt (repetition_count r)),
      (''holdout_id'', popt PStr (holdout_id r)),
      (''holdout_sealed'', PBool (holdout_sealed r)),
      (''synthetic'', PBool (synthetic r))]"

definition mk_registration :: "trial_registration \<Rightarrow> pydatetime \<Rightarrow> trial_registration res" where
  "mk_registration r0 moment = (case to_utc moment of
       None \<Rightarrow> Inl (reg_err ''registered_at must be timezone-aware'')
     | Some t \<Rightarrow> let r = r0\<lparr>registered_at := t\<rparr> in
         guards (registration_guards r) (Inr (r\<lparr>trial_id := fields_id (registration_material r)\<rparr>)))"

definition verify_registration :: "trial_registration \<Rightarrow> unit res" where
  "verify_registration r = guards [(trial_id r \<noteq> fields_id (registration_material r),
     TrialRegistrationIntegrityError ''trial registration content identity failed'')] (Inr ())"

section \<open>The registry\<close>

type_synonym registry = "trial_registration list"

definition path_guard :: "string \<Rightarrow> bool \<times> py_exc" where
  \<comment> \<open>\<open>_path\<close>: only identities name files\<close>
  "path_guard tid = (\<not> sha_text tid, reg_err ''trial_id must be a full lowercase SHA-256'')"

definition registry_get :: "registry \<Rightarrow> string \<Rightarrow> trial_registration res" where
  "registry_get rs tid = guards [path_guard tid]
     (case List.find (\<lambda>r. trial_id r = tid) rs of
        None \<Rightarrow> Inl (TrialNotRegistered ''trial is not registered: '') | Some r \<Rightarrow> Inr r)"

definition registrations_for_family :: "registry \<Rightarrow> string \<Rightarrow> trial_registration list res" where
  "registrations_for_family rs fid = guards [(blank fid, reg_err ''strategy_family_id is required'')]
     (Inr (sort_key (\<lambda>r. (registered_at r, trial_id r)) (filter (\<lambda>r. strategy_family_id r = fid) rs)))"

definition lineage_guards :: "trial_registration list \<Rightarrow> trial_registration \<Rightarrow> (bool \<times> py_exc) list" where
  "lineage_guards fam r = (if fam \<noteq> [] then
       (case List.find (\<lambda>q. Some (trial_id q) = parent_trial_id r) fam of
          None \<Rightarrow> [(True, TrialRegistryConflict ''a successor trial must reference a registered parent in its family'')]
        | Some q \<Rightarrow> [(registered_at r \<le> registered_at q,
            TrialRegistryConflict ''successor registration must follow its registered parent'')])
     else [(parent_trial_id r \<noteq> None,
       TrialRegistryConflict ''initial family trial cannot reference an unregistered parent'')])"

definition same_registration :: "trial_registration \<Rightarrow> trial_registration \<Rightarrow> bool" where
  \<comment> \<open>\<open>==\<close> of the dataclasses, field by field\<close>
  "same_registration q r = (trial_id q = trial_id r
     \<and> py_eq (PDataclass ''TrialRegistration'' (registration_material q))
         (PDataclass ''TrialRegistration'' (registration_material r)))"

definition register :: "registry \<Rightarrow> trial_registration \<Rightarrow> (registry \<times> trial_registration) res" where
  "register rs r = bindE (verify_registration r) (\<lambda>_.
     bindE (guards [path_guard (trial_id r)] (Inr ())) (\<lambda>_.
     case List.find (\<lambda>q. trial_id q = trial_id r) rs of
       Some q \<Rightarrow> guards [(\<not> same_registration q r,
           TrialRegistryConflict ''trial ID already stores different registration content'')] (Inr (rs, q))
     | None \<Rightarrow> bindE (registrations_for_family rs (strategy_family_id r)) (\<lambda>fam.
         guards (lineage_guards fam r) (Inr (rs @ [r], r)))))"

section \<open>The shape of a registration\<close>

lemma mk_registration_Inr:
  assumes "mk_registration r0 moment = Inr r"
  shows "\<forall>g \<in> set (registration_guards r). \<not> fst g" "verify_registration r = Inr ()" "sha_text (trial_id r)"
    "to_utc moment = Some (registered_at r)"
proof -
  obtain t where t: "to_utc moment = Some t" using assms by (cases "to_utc moment") (auto simp: mk_registration_def)
  define r1 where "r1 = r0\<lparr>registered_at := t\<rparr>"
  have r: "\<forall>g \<in> set (registration_guards r1). \<not> fst g" "r = r1\<lparr>trial_id := fields_id (registration_material r1)\<rparr>"
    using assms t by (simp_all add: mk_registration_def guards_Inr_iff Let_def r1_def)
  have same: "registration_guards (q\<lparr>trial_id := i\<rparr>) = registration_guards q"
    "registration_material (q\<lparr>trial_id := i\<rparr>) = registration_material q" for q :: trial_registration and i
    by (simp_all add: registration_guards_def registration_material_def slippage_guards_def cong: option.case_cong)
  show "\<forall>g \<in> set (registration_guards r). \<not> fst g" using r by (simp add: same)
  show "verify_registration r = Inr ()" "sha_text (trial_id r)"
    using r(2) by (simp_all add: verify_registration_def same)
  show "to_utc moment = Some (registered_at r)" using t r(2) by (simp add: r1_def)
qed

text \<open>C34: A constructed registration is well formed: a holdout identity exactly when it is sealed,
  the primary metric thresholded and not repeated, the evaluation window ordered and a horizon of at least
  ten sessions; a reportable trial slips, and a confirmatory one has a sealed holdout and a
  stressed slippage above the base.\<close>

theorem registration_well_formed:
  assumes "mk_registration r0 moment = Inr r"
  shows "(holdout_sealed r \<longleftrightarrow> holdout_id r \<noteq> None) \<and> (\<exists>d. (primary_metric r, d) \<in> set (pass_thresholds r))
    \<and> distinct (primary_metric r # secondary_metrics r) \<and> evaluation_start r \<le> evaluation_end r
    \<and> 10 \<le> label_horizon_sessions r \<and> (\<not> synthetic r \<longrightarrow> 0 < base_slippage_bps r)
    \<and> (stage r = CONFIRMATORY \<longrightarrow> holdout_sealed r
        \<and> (\<exists>s. stressed_slippage_bps r = Some s \<and> 0 < s \<and> base_slippage_bps r < s))
    \<and> verify_registration r = Inr ()"
proof -
  note g = mk_registration_Inr(1) [OF assms]
  have "list_all (\<lambda>g. \<not> fst g) (slippage_guards r)"
    "\<forall>g \<in> set (opt_guard (\<lambda>s. (s \<le> 0, reg_err ''must be positive'')) (stressed_slippage_bps r)). \<not> fst g"
    "sorted_unique (secondary_metrics r)" "primary_metric r \<notin> set (secondary_metrics r)"
    "primary_metric r \<in> set (map fst (pass_thresholds r))" "\<not> evaluation_end r < evaluation_start r"
    "\<not> label_horizon_sessions r < 10" "holdout_sealed r = (holdout_id r \<noteq> None)"
    using g by (auto simp: registration_guards_def list_all_iff)
  then show ?thesis
    using mk_registration_Inr(2) [OF assms]
    by (auto simp: slippage_guards_def opt_guard_def strict_sorted_iff le_iff_dval less_iff_dval split: option.splits)
qed

section \<open>Families\<close>

definition rooted :: "registry \<Rightarrow> trial_registration \<Rightarrow> bool" where
  "rooted rs r = (case parent_trial_id r of
       None \<Rightarrow> (\<forall>q \<in> set rs. strategy_family_id q = strategy_family_id r \<and> parent_trial_id q = None \<longrightarrow> q = r)
     | Some p \<Rightarrow> (\<exists>q \<in> set rs. trial_id q = p \<and> strategy_family_id q = strategy_family_id r
         \<and> registered_at q < registered_at r))"

definition registry_ok :: "registry \<Rightarrow> bool" where
  "registry_ok rs = (distinct (map trial_id rs) \<and> (\<forall>r \<in> set rs. verify_registration r = Inr () \<and> rooted rs r))"

definition enroll :: "registry \<Rightarrow> trial_registration \<Rightarrow> registry res" where
  "enroll rs r = bindE (register rs r) (\<lambda>(rs', q). Inr rs')"

lemma lineage_ok:
  assumes "list_all (\<lambda>g. \<not> fst g) (lineage_guards fam r)"
  shows "if fam = [] then parent_trial_id r = None
    else \<exists>q \<in> set fam. parent_trial_id r = Some (trial_id q) \<and> registered_at q < registered_at r"
proof (cases "fam = []")
  case False
  with assms obtain q where "List.find (\<lambda>q. Some (trial_id q) = parent_trial_id r) fam = Some q"
      "registered_at q < registered_at r"
    by (auto simp: lineage_guards_def split: option.splits)
  moreover from this(1) have "q \<in> set fam \<and> parent_trial_id r = Some (trial_id q)"
    by (auto simp: find_Some_iff)
  ultimately show ?thesis using False by auto
qed (use assms in \<open>simp add: lineage_guards_def\<close>)

lemma register_cases:
  assumes "register rs r = Inr (rs', q)"
  obtains (stored) "q \<in> set rs" "trial_id q = trial_id r" "same_registration q r" "rs' = rs"
      "List.find (\<lambda>q. trial_id q = trial_id r) rs = Some q" "sha_text (trial_id r)"
    | (added) "q = r" "rs' = rs @ [r]" "verify_registration r = Inr ()" "\<forall>x \<in> set rs. trial_id x \<noteq> trial_id r"
      "sha_text (trial_id r)"
      "if \<exists>x \<in> set rs. strategy_family_id x = strategy_family_id r
       then \<exists>p \<in> set rs. strategy_family_id p = strategy_family_id r \<and> parent_trial_id r = Some (trial_id p)
         \<and> registered_at p < registered_at r
       else parent_trial_id r = None"
proof (cases "List.find (\<lambda>q. trial_id q = trial_id r) rs")
  case (Some x)
  then have "x \<in> set rs" "trial_id x = trial_id r" by (auto simp: find_Some_iff)
  note x = this
  have "\<not> fst (path_guard (trial_id r))" "same_registration x r" "rs' = rs" "q = x"
    using assms Some by (auto simp add: register_def res_simps guards_Inr_iff)
  then show ?thesis using x Some by (intro stored) (simp_all add: path_guard_def)
next
  case None
  then have new: "\<forall>x \<in> set rs. trial_id x \<noteq> trial_id r" by (auto simp: find_None_iff)
  let ?fam = "sort_key (\<lambda>r. (registered_at r, trial_id r)) (filter (\<lambda>x. strategy_family_id x = strategy_family_id r) rs)"
  have g: "list_all (\<lambda>g. \<not> fst g) (lineage_guards ?fam r)" "q = r" "rs' = rs @ [r]" "verify_registration r = Inr ()"
    "sha_text (trial_id r)"
    using assms None by (auto simp: register_def res_simps guards_Inr_iff path_guard_def registrations_for_family_def
      list_all_iff)
  have mem: "x \<in> set ?fam \<longleftrightarrow> x \<in> set rs \<and> strategy_family_id x = strategy_family_id r" for x by auto
  have empty: "?fam = [] \<longleftrightarrow> \<not> (\<exists>x \<in> set rs. strategy_family_id x = strategy_family_id r)"
    by (auto simp: filter_empty_conv simp flip: set_empty)
  have "if \<exists>x \<in> set rs. strategy_family_id x = strategy_family_id r
       then \<exists>p \<in> set rs. strategy_family_id p = strategy_family_id r \<and> parent_trial_id r = Some (trial_id p)
         \<and> registered_at p < registered_at r
       else parent_trial_id r = None"
    using lineage_ok [OF g(1)] mem empty by (auto split: if_splits)
  then show ?thesis by (rule added [OF g(2,3,4) new g(5)])
qed

lemma rooted_mono:
  assumes "rooted rs r" and "parent_trial_id x \<noteq> None \<or> strategy_family_id x \<noteq> strategy_family_id r"
  shows "rooted (rs @ [x]) r"
  using assms by (auto simp: rooted_def split: option.splits)

lemma enroll_ok:
  assumes ok: "registry_ok rs" and "enroll rs r = Inr rs'"
  shows "registry_ok rs'"
proof -
  obtain q where "register rs r = Inr (rs', q)" using assms(2) by (auto simp: enroll_def res_simps)
  then show ?thesis
  proof (cases rule: register_cases)
    case stored
    then show ?thesis using ok by simp
  next
    case added
    have "rooted (rs @ [r]) r" using added(6) by (auto simp: rooted_def split: if_splits option.splits)
    moreover have "rooted (rs @ [r]) x" if "x \<in> set rs" for x
      using rooted_mono [of rs x r] that ok added(6) by (auto simp: registry_ok_def split: if_splits)
    ultimately show ?thesis using added ok by (auto simp: registry_ok_def)
  qed
qed

interpretation enrolling: guarded_machine enroll registry_ok
  by unfold_locales (rule enroll_ok)

definition parent_of :: "registry \<Rightarrow> (trial_registration \<times> trial_registration) set" where
  "parent_of rs = {(r, q). r \<in> set rs \<and> q \<in> set rs \<and> parent_trial_id r = Some (trial_id q)
     \<and> strategy_family_id q = strategy_family_id r \<and> registered_at q < registered_at r}"

lemma parent_earlier: "(r, q) \<in> (parent_of rs)\<^sup>+ \<Longrightarrow> registered_at q < registered_at r"
  by (induction rule: trancl_induct) (auto simp: parent_of_def)

lemma ancestor_root:
  assumes ok: "registry_ok rs"
  shows "r \<in> set rs \<Longrightarrow> \<exists>q \<in> set rs. parent_trial_id q = None \<and> strategy_family_id q = strategy_family_id r
    \<and> (r, q) \<in> (parent_of rs)\<^sup>*"
proof (induction "card {q \<in> set rs. registered_at q < registered_at r}" arbitrary: r rule: less_induct)
  case less
  show ?case
  proof (cases "parent_trial_id r")
    case None
    then show ?thesis using less.prems by blast
  next
    case (Some p)
    have "rooted rs r" using ok less.prems by (simp add: registry_ok_def)
    with Some obtain q where q: "q \<in> set rs" "trial_id q = p" "strategy_family_id q = strategy_family_id r"
        "registered_at q < registered_at r"
      by (auto simp: rooted_def)
    then have "{x \<in> set rs. registered_at x < registered_at q} \<subset> {x \<in> set rs. registered_at x < registered_at r}"
      by auto
    then have "card {x \<in> set rs. registered_at x < registered_at q} < card {x \<in> set rs. registered_at x < registered_at r}"
      by (intro psubset_card_mono) auto
    from less.hyps [OF this q(1)] obtain t where t: "t \<in> set rs" "parent_trial_id t = None"
      "strategy_family_id t = strategy_family_id r" "(q, t) \<in> (parent_of rs)\<^sup>*" using q(3) by auto
    have "(r, q) \<in> parent_of rs" using Some q less.prems by (simp add: parent_of_def)
    with t show ?thesis by (meson converse_rtrancl_into_rtrancl)
  qed
qed

text \<open>C35: However trials are registered, every strategy family is one tree: it has exactly one
  initial trial, every trial descends from it through registered, strictly earlier parents of the
  same family, no lineage is circular, and identities are unique.\<close>

theorem registry_family_tree:
  assumes "foldE enroll [] submissions = Inr rs"
  shows "distinct (map trial_id rs) \<and> acyclic (parent_of rs)
    \<and> (\<forall>r \<in> set rs. \<exists>root \<in> set rs. parent_trial_id root = None \<and> strategy_family_id root = strategy_family_id r
        \<and> (r, root) \<in> (parent_of rs)\<^sup>*
        \<and> (\<forall>q \<in> set rs. strategy_family_id q = strategy_family_id r \<and> parent_trial_id q = None \<longrightarrow> q = root))"
proof -
  have ok: "registry_ok rs" using enrolling.run_inv [OF _ assms] by (simp add: registry_ok_def)
  have "acyclic (parent_of rs)" using parent_earlier by (fastforce simp: acyclic_def)
  moreover have "\<exists>root \<in> set rs. parent_trial_id root = None \<and> strategy_family_id root = strategy_family_id r
        \<and> (r, root) \<in> (parent_of rs)\<^sup>*
        \<and> (\<forall>q \<in> set rs. strategy_family_id q = strategy_family_id r \<and> parent_trial_id q = None \<longrightarrow> q = root)"
    if "r \<in> set rs" for r
  proof -
    obtain root where root: "root \<in> set rs" "parent_trial_id root = None"
      "strategy_family_id root = strategy_family_id r" "(r, root) \<in> (parent_of rs)\<^sup>*"
      using ancestor_root [OF ok \<open>r \<in> set rs\<close>] by blast
    have "rooted rs root" using ok root(1) by (simp add: registry_ok_def)
    then have "\<forall>q \<in> set rs. strategy_family_id q = strategy_family_id r \<and> parent_trial_id q = None \<longrightarrow> q = root"
      using root(2,3) by (simp add: rooted_def)
    with root show ?thesis by blast
  qed
  ultimately show ?thesis using ok by (simp add: registry_ok_def)
qed

lemma find_append_Some: "List.find P xs = Some x \<Longrightarrow> List.find P (xs @ ys) = Some x"
  by (induction xs) auto

lemma find_append_None: "\<forall>x \<in> set xs. \<not> P x \<Longrightarrow> List.find P (xs @ ys) = List.find P ys"
  by (induction xs) auto

lemma same_registration_refl [simp]: "same_registration r r"
  unfolding same_registration_def by simp

text \<open>Registering is append-only and idempotent: what was stored stays stored, the returned
  registration is the stored one and equal to the submitted one, and submitting it again
  returns the same without change.\<close>

theorem register_idempotent:
  assumes "register rs r = Inr (rs', q)"
  shows "registry_get rs' (trial_id r) = Inr q \<and> same_registration q r
    \<and> (\<forall>tid x. registry_get rs tid = Inr x \<longrightarrow> registry_get rs' tid = Inr x)
    \<and> register rs' r = Inr (rs', q)"
  using assms
proof (cases rule: register_cases)
  case stored
  then show ?thesis using assms by (auto simp: registry_get_def guards_Inr_iff path_guard_def)
next
  case added
  then have f: "List.find (\<lambda>q. trial_id q = trial_id r) rs' = Some r"
    by (simp add: find_append_None)
  moreover have "registry_get rs' tid = Inr x" if "registry_get rs tid = Inr x" for tid x
    using that added(2) by (auto simp: registry_get_def guards_Inr_iff find_append_Some split: option.splits)
  moreover have "register rs' r = Inr (rs', r)"
    using f added(3,5) by (simp add: register_def path_guard_def)
  ultimately show ?thesis using added(1,5) by (auto simp: registry_get_def guards_Inr_iff path_guard_def)
qed

section \<open>Witnesses\<close>

definition demo_sha :: string where
  "demo_sha = replicate 64 (CHR ''a'')"

definition demo_registration :: trial_registration where
  "demo_registration = \<lparr>registered_at = 0, stage = CONFIRMATORY, hypothesis = ''momentum'',
     strategy_family_id = ''swing'', parent_trial_id = None, evaluation_start = Date 2024 1 1,
     evaluation_end = Date 2025 1 1, universe_snapshot_ids = [demo_sha], data_snapshot_ids = [demo_sha],
     split_plan_id = demo_sha, label_horizon_sessions = 10, benchmark_id = ''nifty'', primary_metric = ''sharpe'',
     secondary_metrics = [''hit''], model_bundle_id = ''m1'', source_commit = ''abcdef0'', dependency_hash = demo_sha,
     configuration_hash = demo_sha, exclusions_hash = demo_sha, risk_policy_hash = demo_sha,
     execution_policy_version = ''v1'', execution_policy_hash = demo_sha, cost_schedule_version = ''v1'',
     cost_schedule_hash = demo_sha, base_slippage_bps = Dec False 5 0, stressed_slippage_bps = Some (Dec False 15 0),
     pass_thresholds = [(''sharpe'', Dec False 1 0)], multiple_testing_policy = ''holm-familywise-primary-fold-sign-v1'', random_seed = 7,
     repetition_count = 1, holdout_id = Some demo_sha, holdout_sealed = True, synthetic = False,
     registration_schema = ''research-trial-registration/v1'', trial_id = []\<rparr>"

lemma demo_sha_text: "sha_text demo_sha" "demo_sha \<noteq> []"
  by (simp_all add: sha_text_def demo_sha_def list_all_iff)

lemma demo_texts:
  "canonical_text ''momentum''" "canonical_text ''swing''" "canonical_text ''nifty''" "canonical_text ''sharpe''"
  "canonical_text ''hit''" "canonical_text ''m1''" "canonical_text ''v1''" "canonical_text ''holm-familywise-primary-fold-sign-v1''"
  by code_simp+

definition demo_trial :: trial_registration where
  "demo_trial = demo_registration\<lparr>trial_id := fields_id (registration_material demo_registration)\<rparr>"

lemma demo_trial_fields [simp]:
  "stage demo_trial = CONFIRMATORY" "parent_trial_id demo_trial = None" "strategy_family_id demo_trial = ''swing''"
  "holdout_id demo_trial = Some demo_sha" "holdout_sealed demo_trial" "registered_at demo_trial = 0"
  "primary_metric demo_trial = ''sharpe''" "secondary_metrics demo_trial = [''hit'']"
  "sha_text (trial_id demo_trial)"
  by (simp_all add: demo_trial_def) (simp_all add: demo_registration_def)

lemma demo_registered: "mk_registration demo_registration (PyDatetime 0 (Some 0)) = Inr demo_trial"
proof -
  have c: "commit_text ''abcdef0''" by code_simp
  have "\<forall>g \<in> set (registration_guards demo_registration). \<not> fst g"
    by (simp add: registration_guards_def slippage_guards_def demo_registration_def text_guard_def sha_guard_def id_tuple_def
        opt_guard_def demo_texts demo_sha_text c le_iff_dval less_iff_dval dval_Dec)
  moreover have "demo_registration\<lparr>registered_at := 0\<rparr> = demo_registration" by (simp add: demo_registration_def)
  ultimately show ?thesis
    by (simp add: mk_registration_def to_utc_def guards_Inr_iff demo_trial_def)
qed

theorem registration_well_formed_witness:
  "(\<exists>s. stressed_slippage_bps demo_trial = Some s \<and> base_slippage_bps demo_trial < s)
    \<and> verify_registration demo_trial = Inr ()"
  using registration_well_formed [OF demo_registered] by auto

lemma demo_enrolled: "register [] demo_trial = Inr ([demo_trial], demo_trial)" "foldE enroll [] [demo_trial] = Inr [demo_trial]"
proof -
  have "\<not> blank ''swing''" by code_simp
  then show "register [] demo_trial = Inr ([demo_trial], demo_trial)"
    using mk_registration_Inr(2,3) [OF demo_registered]
    by (simp add: register_def path_guard_def registrations_for_family_def lineage_guards_def)
  then show "foldE enroll [] [demo_trial] = Inr [demo_trial]" by (simp add: enroll_def)
qed

theorem registry_family_tree_witness:
  "acyclic (parent_of [demo_trial]) \<and> distinct (map trial_id [demo_trial])"
  using registry_family_tree [OF demo_enrolled(2)] by blast

theorem register_idempotent_witness:
  "register [demo_trial] demo_trial = Inr ([demo_trial], demo_trial)"
  using register_idempotent [OF demo_enrolled(1)] by blast

end
