(* ===== verification/Lifecycle.thy ===== *)
theory Lifecycle
  imports Trials
begin

text \<open>
  The life of a research trial (\<open>evaluation/lifecycle.py\<close>, \<open>evaluation/lifecycle_store.py\<close>).

  A trial's history is a chain of events, each sealed and naming its predecessor.
  \<open>validate_history\<close> folds \<open>observe\<close> over it; the abstract machine is \<open>moves\<close> on eight
  phases, and \<open>phase_of\<close> maps the validator's flags to a phase.  The store keeps one list of events per
  trial (a directory of files in the program); \<open>append\<close> extends it under the lock.  Comparisons and
  family aggregates come from other stores: what those stores answer about them is a field of
  their records.

  The theorems are the refinement (a history is accepted exactly when it is chained and its kinds are a
  run of the phases), what every accepted history guarantees about holdout access and outcomes,
  and that the store holds accepted, only growing histories whatever is appended.
\<close>

section \<open>Events\<close>

datatype event_type = TRIAL_STARTED | HOLDOUT_UNSEALED | HOLDOUT_FEATURES_ACCESSED | HOLDOUT_LABELS_ACCESSED
  | HOLDOUT_RESULTS_ACCESSED | TRIAL_COMPLETED | TRIAL_PROMOTED | TRIAL_FAILED | TRIAL_ABORTED | TRIAL_INVALIDATED

definition holdout_access :: "event_type \<Rightarrow> bool" where
  "holdout_access k = (k \<in> {HOLDOUT_FEATURES_ACCESSED, HOLDOUT_LABELS_ACCESSED, HOLDOUT_RESULTS_ACCESSED})"

definition holdout_event :: "event_type \<Rightarrow> bool" where
  "holdout_event k = (k = HOLDOUT_UNSEALED \<or> holdout_access k)"

definition terminal_outcome :: "event_type \<Rightarrow> bool" where
  "terminal_outcome k = (k \<in> {TRIAL_COMPLETED, TRIAL_FAILED, TRIAL_ABORTED})"

record event =
  event_trial :: string
  sequence :: int
  previous_event :: "string option"
  kind :: event_type
  occurred_at :: instant
  actor :: string
  reason :: string
  event_holdout :: "string option"
  metrics :: "(string \<times> decimal) list"
  passed :: "bool option"
  evaluation_result :: "string option"
  family_aggregate :: "string option"
  event_schema :: string
  event_id :: string

definition life_err :: "string \<Rightarrow> py_exc" where
  "life_err msg = TrialLifecycleError msg"

definition life_sha :: "string \<Rightarrow> bool \<times> py_exc" where
  "life_sha s = (\<not> sha_text s, life_err ''must be a full lowercase SHA-256'')"

definition life_text :: "string \<Rightarrow> bool \<times> py_exc" where
  "life_text s = (\<not> canonical_text s, life_err ''must be canonical non-empty text'')"

definition position_guards :: "event \<Rightarrow> (bool \<times> py_exc) list" where
  "position_guards e = [life_sha (event_trial e), (sequence e \<le> 0, life_err ''sequence must be a positive integer'')]
     @ (if sequence e = 1 then [(previous_event e \<noteq> None, life_err ''first event cannot have a predecessor'')]
        else case previous_event e of None \<Rightarrow> [(True, life_err ''later events require a predecessor'')]
          | Some p \<Rightarrow> [life_sha p])"

definition outcome_guards :: "event \<Rightarrow> (bool \<times> py_exc) list" where
  "outcome_guards e = (if kind e = TRIAL_COMPLETED then
       [(metrics e = [] \<or> passed e = None \<or> evaluation_result e = None,
           life_err ''completed trial requires a generated result, metrics, and pass result'')]
       @ opt_guard life_sha (evaluation_result e)
       @ [(family_aggregate e \<noteq> None, life_err ''completed trial cannot carry family promotion'')]
     else if kind e = TRIAL_PROMOTED then
       [(metrics e \<noteq> [] \<or> passed e \<noteq> None \<or> evaluation_result e \<noteq> None \<or> family_aggregate e = None,
           life_err ''promotion requires only a persisted family aggregate'')]
       @ opt_guard life_sha (family_aggregate e)
     else
       [(metrics e \<noteq> [] \<or> passed e \<noteq> None \<or> evaluation_result e \<noteq> None,
           life_err ''only a completed trial can carry a generated evaluation result''),
        (family_aggregate e \<noteq> None, life_err ''only promotion can carry a family aggregate'')])"

definition content_guards :: "event \<Rightarrow> (bool \<times> py_exc) list" where
  "content_guards e = [life_text (actor e), life_text (reason e)]
     @ (if holdout_event (kind e) then
          (case event_holdout e of None \<Rightarrow> [(True, life_err ''holdout event requires holdout_id'')]
           | Some h \<Rightarrow> [life_sha h])
        else [(event_holdout e \<noteq> None, life_err ''non-holdout event cannot carry holdout_id'')])
     @ [(\<not> sorted_unique (map fst (metrics e)), life_err ''metrics must be a sorted unique tuple'')]
     @ map (\<lambda>m. life_text (fst m)) (metrics e)
     @ outcome_guards e
     @ [(event_schema e \<noteq> ''research-trial-lifecycle-event/v3'', life_err ''unsupported trial-lifecycle schema'')]"

fun kind_name :: "event_type \<Rightarrow> string" where
  "kind_name TRIAL_STARTED = ''TRIAL_STARTED''"
| "kind_name HOLDOUT_UNSEALED = ''HOLDOUT_UNSEALED''"
| "kind_name HOLDOUT_FEATURES_ACCESSED = ''HOLDOUT_FEATURES_ACCESSED''"
| "kind_name HOLDOUT_LABELS_ACCESSED = ''HOLDOUT_LABELS_ACCESSED''"
| "kind_name HOLDOUT_RESULTS_ACCESSED = ''HOLDOUT_RESULTS_ACCESSED''"
| "kind_name TRIAL_COMPLETED = ''TRIAL_COMPLETED''"
| "kind_name TRIAL_PROMOTED = ''TRIAL_PROMOTED''"
| "kind_name TRIAL_FAILED = ''TRIAL_FAILED''"
| "kind_name TRIAL_ABORTED = ''TRIAL_ABORTED''"
| "kind_name TRIAL_INVALIDATED = ''TRIAL_INVALIDATED''"

definition event_material :: "event \<Rightarrow> (string \<times> pyval) list" where
  "event_material e =
     [(''schema_version'', PStr (event_schema e)),
      (''trial_id'', PStr (event_trial e)),
      (''sequence'', PInt (sequence e)),
      (''previous_event_id'', popt PStr (previous_event e)),
      (''event_type'', PEnum ''india_swing.evaluation.lifecycle.TrialLifecycleEventType'' (PStr (kind_name (kind e)))),
      (''occurred_at'', PDatetime (occurred_at e)),
      (''actor_id'', PStr (actor e)),
      (''reason'', PStr (reason e)),
      (''holdout_id'', popt PStr (event_holdout e)),
      (''metrics'', named_decimals (metrics e)),
      (''passed'', popt PBool (passed e)),
      (''evaluation_result_id'', popt PStr (evaluation_result e)),
      (''family_aggregate_id'', popt PStr (family_aggregate e))]"

definition mk_event :: "event \<Rightarrow> pydatetime \<Rightarrow> event res" where
  "mk_event e0 moment = guards (position_guards e0) (case to_utc moment of
       None \<Rightarrow> Inl (life_err ''occurred_at must be timezone-aware'')
     | Some t \<Rightarrow> let e = e0\<lparr>occurred_at := t\<rparr> in
         guards (content_guards e) (Inr (e\<lparr>event_id := fields_id (event_material e)\<rparr>)))"

definition event_broken :: "event \<Rightarrow> bool \<times> py_exc" where
  \<comment> \<open>\<open>verify_content_identity\<close> as a guard\<close>
  "event_broken e = (event_id e \<noteq> fields_id (event_material e),
     TrialLifecycleIntegrityError ''trial lifecycle event content identity failed'')"

section \<open>Histories\<close>

record progress =
  expected :: int
  started :: bool
  unsealed :: bool
  results_accessed :: bool
  terminal :: "event_type option"
  promoted :: bool
  invalidated :: bool
  latest :: "event option"

definition no_progress :: progress where
  "no_progress = \<lparr>expected = 1, started = False, unsealed = False, results_accessed = False, terminal = None,
     promoted = False, invalidated = False, latest = None\<rparr>"

definition broken :: "string \<Rightarrow> py_exc" where
  "broken msg = TrialLifecycleIntegrityError msg"

definition conflict :: "string \<Rightarrow> py_exc" where
  "conflict msg = TrialLifecycleConflict msg"

definition chain_guards :: "trial_registration \<Rightarrow> progress \<Rightarrow> event \<Rightarrow> (bool \<times> py_exc) list" where
  "chain_guards r s e =
     [event_broken e,
      (event_trial e \<noteq> trial_id r, broken ''event belongs to another trial''),
      (sequence e \<noteq> expected s, broken ''trial event sequence contains a gap''),
      (previous_event e \<noteq> map_option event_id (latest s), broken ''trial event predecessor chain is broken''),
      (case latest s of None \<Rightarrow> False | Some q \<Rightarrow> occurred_at e < occurred_at q, broken ''trial event time moved backwards''),
      (occurred_at e < registered_at r, broken ''trial event predates its registration'')]"

definition may_follow :: "progress \<Rightarrow> event_type \<Rightarrow> event_type \<Rightarrow> bool" where
  \<comment> \<open>what is allowed after this terminal outcome\<close>
  "may_follow s t k = (k = TRIAL_INVALIDATED \<or> t = TRIAL_COMPLETED \<and> \<not> promoted s \<and> k = TRIAL_PROMOTED)"

definition expected_metrics :: "trial_registration \<Rightarrow> string set" where
  "expected_metrics r = insert (primary_metric r) (set (secondary_metrics r))"

definition order_guards :: "trial_registration \<Rightarrow> progress \<Rightarrow> event \<Rightarrow> (bool \<times> py_exc) list" where
  "order_guards r s e = (let k = kind e in
     [(invalidated s, conflict ''no event may follow invalidation''),
      (promoted s \<and> k \<noteq> TRIAL_INVALIDATED, conflict ''only invalidation may follow promotion''),
      (case terminal s of None \<Rightarrow> False | Some t \<Rightarrow> \<not> may_follow s t k,
         conflict ''only invalidation, or one eligible promotion, may follow a completed trial'')]
     @ (if k = TRIAL_STARTED then
          [(started s \<or> expected s \<noteq> 1, conflict ''trial can start exactly once as its first event'')]
        else
          [(\<not> started s, conflict ''trial must start before other lifecycle events''),
           (k = HOLDOUT_UNSEALED \<and> unsealed s, conflict ''holdout can be unsealed only once''),
           (holdout_access k \<and> \<not> unsealed s, conflict ''holdout access requires a prior unseal event''),
           (holdout_event k \<and> (\<not> holdout_sealed r \<or> event_holdout e \<noteq> holdout_id r),
              conflict ''holdout event does not match the sealed registration''),
           (k = TRIAL_COMPLETED \<and> stage r = CONFIRMATORY \<and> \<not> results_accessed s,
              conflict ''completed confirmatory trial requires audited holdout results access''),
           (k = TRIAL_COMPLETED \<and> \<not> expected_metrics r \<subseteq> set (map fst (metrics e)),
              conflict ''completed outcome omits a registered evaluation metric''),
           (k = TRIAL_PROMOTED \<and> terminal s \<noteq> Some TRIAL_COMPLETED, conflict ''promotion requires a completed trial'')]))"

definition advance :: "progress \<Rightarrow> event \<Rightarrow> progress" where
  "advance s e = (let k = kind e in
     \<lparr>expected = expected s + 1, started = (started s \<or> k = TRIAL_STARTED),
      unsealed = (unsealed s \<or> k = HOLDOUT_UNSEALED),
      results_accessed = (results_accessed s \<or> k = HOLDOUT_RESULTS_ACCESSED),
      terminal = (if terminal_outcome k then Some k else terminal s),
      promoted = (promoted s \<or> k = TRIAL_PROMOTED), invalidated = (invalidated s \<or> k = TRIAL_INVALIDATED),
      latest = Some e\<rparr>)"

definition observe :: "trial_registration \<Rightarrow> progress \<Rightarrow> event \<Rightarrow> progress res" where
  "observe r s e = guards (chain_guards r s e @ order_guards r s e) (Inr (advance s e))"

definition validate_history :: "trial_registration \<Rightarrow> event list \<Rightarrow> unit res" where
  "validate_history r es = bindE (foldE (observe r) no_progress es) (\<lambda>_. Inr ())"

section \<open>The phases of a trial\<close>

datatype phase = Fresh | Running | Unsealed | ResultsRead | Completed | Failed | Promoted | Invalidated

inductive moves :: "bool \<Rightarrow> bool \<Rightarrow> phase \<Rightarrow> event_type \<Rightarrow> phase \<Rightarrow> bool" for confirmatory sealed where
  start: "moves confirmatory sealed Fresh TRIAL_STARTED Running"
| unseal: "sealed \<Longrightarrow> moves confirmatory sealed Running HOLDOUT_UNSEALED Unsealed"
| read_inputs: "sealed \<Longrightarrow> p \<in> {Unsealed, ResultsRead} \<Longrightarrow> k \<in> {HOLDOUT_FEATURES_ACCESSED, HOLDOUT_LABELS_ACCESSED}
    \<Longrightarrow> moves confirmatory sealed p k p"
| read_results: "sealed \<Longrightarrow> p \<in> {Unsealed, ResultsRead} \<Longrightarrow> moves confirmatory sealed p HOLDOUT_RESULTS_ACCESSED ResultsRead"
| complete: "p = ResultsRead \<or> \<not> confirmatory \<and> p \<in> {Running, Unsealed}
    \<Longrightarrow> moves confirmatory sealed p TRIAL_COMPLETED Completed"
| fail: "p \<in> {Running, Unsealed, ResultsRead} \<Longrightarrow> k \<in> {TRIAL_FAILED, TRIAL_ABORTED} \<Longrightarrow> moves confirmatory sealed p k Failed"
| promote: "moves confirmatory sealed Completed TRIAL_PROMOTED Promoted"
| invalidate: "p \<notin> {Fresh, Invalidated} \<Longrightarrow> moves confirmatory sealed p TRIAL_INVALIDATED Invalidated"

inductive_cases moves_kindE [elim]: "moves confirmatory sealed p k q"

inductive_simps moves_Fresh [simp]: "moves confirmatory sealed Fresh k q"
  and moves_Running [simp]: "moves confirmatory sealed Running k q"
  and moves_Unsealed [simp]: "moves confirmatory sealed Unsealed k q"
  and moves_ResultsRead [simp]: "moves confirmatory sealed ResultsRead k q"
  and moves_Completed [simp]: "moves confirmatory sealed Completed k q"
  and moves_Failed [simp]: "moves confirmatory sealed Failed k q"
  and moves_Promoted [simp]: "moves confirmatory sealed Promoted k q"
  and moves_Invalidated [simp]: "moves confirmatory sealed Invalidated k q"

inductive run :: "bool \<Rightarrow> bool \<Rightarrow> phase \<Rightarrow> event_type list \<Rightarrow> phase \<Rightarrow> bool" for confirmatory sealed where
  stay: "run confirmatory sealed p [] p"
| go: "moves confirmatory sealed p k q \<Longrightarrow> run confirmatory sealed q ks q' \<Longrightarrow> run confirmatory sealed p (k # ks) q'"

inductive_simps run_Nil [simp]: "run confirmatory sealed p [] q"
  and run_Cons [simp]: "run confirmatory sealed p (k # ks) q"

definition phase_of :: "progress \<Rightarrow> phase" where
  "phase_of s = (if invalidated s then Invalidated else if promoted s then Promoted
     else case terminal s of Some t \<Rightarrow> if t = TRIAL_COMPLETED then Completed else Failed
     | None \<Rightarrow> if \<not> started s then Fresh else if results_accessed s then ResultsRead
         else if unsealed s then Unsealed else Running)"

definition coherent :: "progress \<Rightarrow> bool" where
  \<comment> \<open>the flags that occur together\<close>
  "coherent s = (1 \<le> expected s \<and> (started s \<longleftrightarrow> expected s \<noteq> 1) \<and> (unsealed s \<longrightarrow> started s)
     \<and> (results_accessed s \<longrightarrow> unsealed s) \<and> (terminal s \<noteq> None \<longrightarrow> started s)
     \<and> (promoted s \<longrightarrow> terminal s = Some TRIAL_COMPLETED) \<and> (invalidated s \<longrightarrow> started s)
     \<and> (\<forall>t. terminal s = Some t \<longrightarrow> terminal_outcome t))"

definition confirmatory_trial :: "trial_registration \<Rightarrow> bool" where
  "confirmatory_trial r = (stage r = CONFIRMATORY)"

definition carries :: "trial_registration \<Rightarrow> event \<Rightarrow> bool" where
  \<comment> \<open>what the registration asks of the event's own content\<close>
  "carries r e = ((holdout_event (kind e) \<longrightarrow> event_holdout e = holdout_id r)
     \<and> (kind e = TRIAL_COMPLETED \<longrightarrow> expected_metrics r \<subseteq> set (map fst (metrics e))))"

lemmas kind_defs = holdout_event_def holdout_access_def terminal_outcome_def

lemma coherent_advance:
  assumes "coherent s" and "list_all (\<lambda>g. \<not> fst g) (order_guards r s e)"
  shows "coherent (advance s e)"
  using assms
  by (cases "kind e") (auto simp: coherent_def order_guards_def advance_def Let_def kind_defs split: option.splits)

lemma order_moves:
  assumes s: "coherent s"
  shows "list_all (\<lambda>g. \<not> fst g) (order_guards r s e)
    \<longleftrightarrow> carries r e \<and> moves (confirmatory_trial r) (holdout_sealed r) (phase_of s) (kind e) (phase_of (advance s e))"
  using s by (cases "kind e"; cases "invalidated s"; cases "promoted s"; cases "terminal s"; cases "started s")
    (auto simp: coherent_def order_guards_def advance_def Let_def kind_defs phase_of_def carries_def may_follow_def
      confirmatory_trial_def)

lemma moves_deterministic: "moves c h p k q \<Longrightarrow> moves c h p k q' \<Longrightarrow> q = q'"
  by (cases p) auto

lemma run_snoc: "run c h p (ks @ [k]) q \<longleftrightarrow> (\<exists>m. run c h p ks m \<and> moves c h m k q)"
  by (induction ks arbitrary: p) auto

section \<open>Chained events\<close>

definition always :: "('a list \<Rightarrow> 'a \<Rightarrow> bool) \<Rightarrow> 'a list \<Rightarrow> bool" where
  \<comment> \<open>every element stands in this relation to what comes before it\<close>
  "always P xs = (\<forall>i < length xs. P (take i xs) (xs ! i))"

lemma always_Nil [simp]: "always P []"
  by (simp add: always_def)

lemma always_snoc [simp]: "always P (xs @ [x]) \<longleftrightarrow> always P xs \<and> P xs x"
  by (auto simp: always_def nth_append less_Suc_eq)

definition linked_event :: "trial_registration \<Rightarrow> event list \<Rightarrow> event \<Rightarrow> bool" where
  "linked_event r pre e = (\<not> fst (event_broken e) \<and> event_trial e = trial_id r
     \<and> sequence e = int (length pre) + 1
     \<and> previous_event e = (if pre = [] then None else Some (event_id (last pre)))
     \<and> (pre \<noteq> [] \<longrightarrow> occurred_at (last pre) \<le> occurred_at e) \<and> registered_at r \<le> occurred_at e
     \<and> carries r e)"

definition progress_after :: "event list \<Rightarrow> progress" where
  "progress_after es = foldl advance no_progress es"

lemma progress_after_simps:
  "progress_after [] = no_progress" "progress_after (es @ [e]) = advance (progress_after es) e"
  "expected (progress_after es) = int (length es) + 1"
  "latest (progress_after es) = (if es = [] then None else Some (last es))"
  by (induction es rule: rev_induct) (simp_all add: progress_after_def advance_def no_progress_def Let_def)

definition lived :: "trial_registration \<Rightarrow> event list \<Rightarrow> phase \<Rightarrow> bool" where
  "lived r es p = run (confirmatory_trial r) (holdout_sealed r) Fresh (map kind es) p"

lemma observe_next:
  assumes "coherent (progress_after es)"
  shows "observe r (progress_after es) e = Inr s \<longleftrightarrow> linked_event r es e \<and> s = progress_after (es @ [e])
    \<and> moves (confirmatory_trial r) (holdout_sealed r) (phase_of (progress_after es)) (kind e)
        (phase_of (progress_after (es @ [e])))"
proof -
  have chain: "list_all (\<lambda>g. \<not> fst g) (chain_guards r (progress_after es) e) \<and> carries r e \<longleftrightarrow> linked_event r es e"
    by (auto simp: chain_guards_def linked_event_def progress_after_simps)
  have "observe r (progress_after es) e = Inr s \<longleftrightarrow> list_all (\<lambda>g. \<not> fst g) (chain_guards r (progress_after es) e)
      \<and> list_all (\<lambda>g. \<not> fst g) (order_guards r (progress_after es) e) \<and> s = progress_after (es @ [e])"
    by (auto simp: observe_def guards_Inr_iff list_all_iff progress_after_simps(2))
  then show ?thesis using chain order_moves [OF assms, of r e] by (auto simp: progress_after_simps(2))
qed

lemma phase_of_start: "phase_of no_progress = Fresh" "coherent no_progress"
  by (simp_all add: phase_of_def no_progress_def coherent_def)

lemma moves_advance:
  assumes "coherent s" and "moves c h (phase_of s) (kind e) q"
  shows "phase_of (advance s e) = q"
  using assms by (cases "kind e"; cases "invalidated s"; cases "promoted s"; cases "terminal s"; cases "started s")
    (auto simp: coherent_def advance_def Let_def kind_defs phase_of_def split: if_splits)

lemma observe_sound:
  "foldE (observe r) no_progress es = Inr s \<Longrightarrow> s = progress_after es \<and> coherent s
     \<and> always (linked_event r) es \<and> lived r es (phase_of s)"
proof (induction es arbitrary: s rule: rev_induct)
  case Nil
  then show ?case by (auto simp: progress_after_simps lived_def phase_of_start)
next
  case (snoc e es)
  then obtain s1 where s1: "foldE (observe r) no_progress es = Inr s1" "observe r s1 e = Inr s"
    by (auto simp: foldE_append res_simps)
  note ih = snoc.IH [OF s1(1)]
  then have "coherent (progress_after es)" by metis
  with s1(2) ih have n: "linked_event r es e" "s = progress_after (es @ [e])"
      "moves (confirmatory_trial r) (holdout_sealed r) (phase_of s1) (kind e) (phase_of s)"
    using observe_next [of es r e s] by auto
  have "list_all (\<lambda>g. \<not> fst g) (order_guards r s1 e)" "s = advance s1 e"
    using s1(2) by (auto simp: observe_def guards_Inr_iff list_all_iff)
  then have "coherent s" using coherent_advance ih by blast
  then show ?case using n ih by (auto simp: lived_def run_snoc)
qed

lemma observe_complete:
  "always (linked_event r) es \<Longrightarrow> lived r es p \<Longrightarrow> \<exists>s. foldE (observe r) no_progress es = Inr s \<and> phase_of s = p"
proof (induction es arbitrary: p rule: rev_induct)
  case Nil
  then show ?case by (auto simp: lived_def phase_of_start)
next
  case (snoc e es)
  from snoc.prems obtain m where m: "lived r es m" "moves (confirmatory_trial r) (holdout_sealed r) m (kind e) p"
    by (auto simp: lived_def run_snoc)
  with snoc obtain s where s: "foldE (observe r) no_progress es = Inr s" "phase_of s = m" by auto
  note so = observe_sound [OF s(1)]
  have "phase_of (advance s e) = p" using moves_advance so m(2) s(2) by blast
  then have "observe r s e = Inr (progress_after (es @ [e]))"
    using observe_next [of es r e] so m(2) s(2) snoc.prems(1) by (auto simp: progress_after_simps(2))
  then show ?case using s(1) so \<open>phase_of (advance s e) = p\<close> by (auto simp: foldE_append progress_after_simps(2))
qed

lemma validate_iff:
  "validate_history r es = Inr () \<longleftrightarrow> always (linked_event r) es \<and> (\<exists>p. lived r es p)"
  using observe_sound [of r es] observe_complete [of r es] by (auto simp: validate_history_def res_simps)

text \<open>C9: The validator refines the phase machine: a history is accepted exactly when every event is
  sealed, belongs to the trial, continues the chain and the clock and carries what the registration
  asks for, and the kinds of the events are a run of the phases from \<open>Fresh\<close>.\<close>

theorem validate_refines_phases:
  "validate_history r es = Inr () \<longleftrightarrow>
     always (linked_event r) es
     \<and> (\<exists>p. run (confirmatory_trial r) (holdout_sealed r) Fresh (map kind es) p)"
  using validate_iff by (simp add: lived_def)

section \<open>What an accepted history guarantees\<close>

definition obeys :: "bool \<Rightarrow> bool \<Rightarrow> event_type list \<Rightarrow> event_type \<Rightarrow> bool" where
  "obeys confirmatory sealed pre k = ((k = TRIAL_STARTED \<longleftrightarrow> pre = [])
     \<and> (holdout_event k \<longrightarrow> sealed)
     \<and> (k = HOLDOUT_UNSEALED \<longrightarrow> HOLDOUT_UNSEALED \<notin> set pre)
     \<and> (holdout_access k \<longrightarrow> HOLDOUT_UNSEALED \<in> set pre)
     \<and> (confirmatory \<and> k = TRIAL_COMPLETED \<longrightarrow> HOLDOUT_RESULTS_ACCESSED \<in> set pre)
     \<and> (k = TRIAL_PROMOTED \<longrightarrow> TRIAL_COMPLETED \<in> set pre \<and> TRIAL_PROMOTED \<notin> set pre)
     \<and> (k \<notin> {TRIAL_PROMOTED, TRIAL_INVALIDATED} \<longrightarrow> list_all (\<lambda>j. \<not> terminal_outcome j) pre)
     \<and> TRIAL_INVALIDATED \<notin> set pre)"

definition marks :: "event_type list \<Rightarrow> phase \<Rightarrow> bool" where
  \<comment> \<open>what the phase says about the events so far\<close>
  "marks ks p = ((p = Fresh \<longleftrightarrow> ks = []) \<and> (p = Invalidated \<longleftrightarrow> TRIAL_INVALIDATED \<in> set ks)
     \<and> (p \<in> {Completed, Promoted} \<longrightarrow> TRIAL_COMPLETED \<in> set ks)
     \<and> (p \<in> {Fresh, Running, Unsealed, ResultsRead} \<longrightarrow> list_all (\<lambda>j. \<not> terminal_outcome j) ks)
     \<and> (p \<notin> {Promoted, Invalidated} \<longrightarrow> TRIAL_PROMOTED \<notin> set ks)
     \<and> (p = Running \<longrightarrow> HOLDOUT_UNSEALED \<notin> set ks)
     \<and> (p \<in> {Unsealed, ResultsRead} \<longrightarrow> HOLDOUT_UNSEALED \<in> set ks)
     \<and> (p = ResultsRead \<longrightarrow> HOLDOUT_RESULTS_ACCESSED \<in> set ks))"

lemma moves_marks:
  "marks ks p \<Longrightarrow> moves c h p k q \<Longrightarrow> obeys c h ks k \<and> marks (ks @ [k]) q"
  by (cases p) (auto simp: marks_def obeys_def kind_defs)

lemma run_obeys: "run c h Fresh ks p \<Longrightarrow> always (obeys c h) ks \<and> marks ks p"
proof (induction ks arbitrary: p rule: rev_induct)
  case Nil
  then show ?case by (auto simp: marks_def)
next
  case (snoc k ks)
  from snoc.prems obtain m where m: "run c h Fresh ks m" "moves c h m k p" by (auto simp: run_snoc)
  with snoc.IH have "always (obeys c h) ks" "marks ks m" by blast+
  with moves_marks [OF _ m(2)] show ?case by simp
qed

lemma accepted_obeys:
  "validate_history r es = Inr () \<Longrightarrow> always (obeys (confirmatory_trial r) (holdout_sealed r)) (map kind es)"
  by (metis validate_iff lived_def run_obeys)

text \<open>In every accepted history the trial starts exactly once, as its first event; the holdout is
  touched only if the registration sealed one, unsealed once and before any access; a confirmatory
  trial completes only after its holdout results were read; after an outcome only a
  promotion, once and of a completed trial, or an invalidation follows, and nothing follows that.
  Every prefix of an accepted history is accepted.\<close>

theorem accepted_history_safe:
  assumes "validate_history r es = Inr ()"
  shows "always (obeys (confirmatory_trial r) (holdout_sealed r)) (map kind es)
    \<and> (\<forall>n. validate_history r (take n es) = Inr ())"
proof -
  have "validate_history r (take n es) = Inr ()" for n
    using assms foldE_append [of "observe r" no_progress "take n es" "drop n es"]
    by (auto simp: validate_history_def res_simps)
  then show ?thesis using accepted_obeys [OF assms] by blast
qed

section \<open>The store\<close>

record comparison =
  comparison_trial :: string
  comparison_split_plan :: string
  comparison_execution_policy :: string
  comparison_cost_schedule :: string
  comparison_thresholds :: "(string \<times> decimal) list"
  base_metrics :: "(string \<times> decimal) list"
  comparison_metrics :: "(string \<times> decimal) list"
  comparison_passed :: bool
  comparison_id :: string
  comparison_identity :: "unit res"
  comparison_persisted :: bool

record aggregate =
  aggregate_family :: string
  aggregate_trials :: "string list"
  eligible_trials :: "string list"
  decisions :: "(string \<times> string) list"
  aggregate_id :: string
  aggregate_persisted :: bool

record request =
  request_trial :: string
  request_kind :: event_type
  request_time :: pydatetime
  request_actor :: string
  request_reason :: string
  request_holdout :: "string option"
  request_metrics :: "(string \<times> decimal) list"
  request_passed :: "bool option"
  request_comparison :: "comparison option"
  request_aggregate :: "aggregate option"

type_synonym store = "string \<Rightarrow> event list"

definition list_events :: "registry \<Rightarrow> store \<Rightarrow> string \<Rightarrow> event list res" where
  "list_events g st tid = bindE (registry_get g tid) (\<lambda>r.
     bindE (validate_history r (st tid)) (\<lambda>_. Inr (st tid)))"

definition same_thresholds :: "(string \<times> decimal) list \<Rightarrow> (string \<times> decimal) list \<Rightarrow> bool" where
  "same_thresholds a b = py_eq (named_decimals a) (named_decimals b)"

definition sorted_metrics :: "(string \<times> decimal) list \<Rightarrow> (string \<times> decimal) list" where
  "sorted_metrics ms = sort_key (\<lambda>(n, d). (n, dval d)) ms"

definition completion :: "trial_registration \<Rightarrow> request \<Rightarrow> request res" where
  \<comment> \<open>the outcome a completion takes from its comparison\<close>
  "completion r q = (if request_kind q = TRIAL_COMPLETED then
       (case request_comparison q of
          None \<Rightarrow> Inl (conflict ''trial completion requires an engine-generated comparison'')
        | Some c \<Rightarrow> guards
            [(request_metrics q \<noteq> [] \<or> request_passed q \<noteq> None, conflict ''caller-provided completion metrics are forbidden'')]
            (bindE (comparison_identity c) (\<lambda>_. guards
              [(\<not> comparison_persisted c, conflict ''trial completion requires a persisted evaluation result''),
               (comparison_trial c \<noteq> trial_id r, conflict ''evaluation comparison belongs to another trial''),
               (comparison_split_plan c \<noteq> split_plan_id r \<or> comparison_execution_policy c \<noteq> execution_policy_hash r
                  \<or> comparison_cost_schedule c \<noteq> cost_schedule_hash r
                  \<or> \<not> same_thresholds (comparison_thresholds c) (pass_thresholds r),
                  conflict ''evaluation result does not match registered policies or thresholds'')]
              (Inr (q\<lparr>request_metrics := sorted_metrics (base_metrics c @ comparison_metrics c),
                request_passed := Some (comparison_passed c)\<rparr>)))))
     else guards [(request_comparison q \<noteq> None, conflict ''only trial completion can carry an evaluation result'')] (Inr q))"

definition family_ids :: "registry \<Rightarrow> trial_registration \<Rightarrow> string list res" where
  "family_ids g r = bindE (registrations_for_family g (strategy_family_id r)) (\<lambda>fam. Inr (sort (map trial_id fam)))"

definition promotion :: "registry \<Rightarrow> bool \<Rightarrow> trial_registration \<Rightarrow> request \<Rightarrow> unit res" where
  "promotion g configured r q = (if request_kind q = TRIAL_PROMOTED then
       (case request_aggregate q of
          None \<Rightarrow> Inl (conflict ''trial promotion requires a family aggregate'')
        | Some a \<Rightarrow> guards
            [(\<not> configured, conflict ''trial promotion requires a configured family-aggregate store''),
             (request_metrics q \<noteq> [] \<or> request_passed q \<noteq> None, conflict ''caller-provided promotion outcome is forbidden''),
             (\<not> aggregate_persisted a, conflict ''trial promotion requires a persisted family aggregate'')]
            (bindE (family_ids g r) (\<lambda>ids. guards
              [(aggregate_family a \<noteq> strategy_family_id r \<or> aggregate_trials a \<noteq> ids
                  \<or> request_trial q \<notin> set (eligible_trials a),
                  conflict ''family aggregate does not make this current family trial eligible'')] (Inr ()))))
     else guards [(request_aggregate q \<noteq> None, conflict ''only trial promotion can carry a family aggregate'')] (Inr ()))"

definition reject_contaminated :: "registry \<Rightarrow> store \<Rightarrow> trial_registration \<Rightarrow> unit res" where
  "reject_contaminated g st r = (case parent_trial_id r of None \<Rightarrow> Inr ()
     | Some p \<Rightarrow> (case registry_get g p of
         Inl (TrialNotRegistered _) \<Rightarrow> Inl (conflict ''successor parent is not registered'')
       | Inl e \<Rightarrow> Inl e
       | Inr parent \<Rightarrow> bindE (list_events g st (trial_id parent)) (\<lambda>es. guards
           [(list_ex (\<lambda>e. kind e = HOLDOUT_UNSEALED) es \<and> stage r = CONFIRMATORY \<and> holdout_id r = holdout_id parent,
             conflict ''confirmatory successor cannot reuse its parent's unsealed holdout'')] (Inr ()))))"

definition promotion_matches :: "registry \<Rightarrow> trial_registration \<Rightarrow> request \<Rightarrow> event list \<Rightarrow> unit res" where
  "promotion_matches g r q es = (case request_aggregate q of None \<Rightarrow> Inr ()
     | Some a \<Rightarrow> bindE (family_ids g r) (\<lambda>ids. guards
         [(aggregate_trials a \<noteq> ids, conflict ''family aggregate no longer covers the current family''),
          (case List.find (\<lambda>e. kind e = TRIAL_COMPLETED) es of None \<Rightarrow> True
             | Some done_event \<Rightarrow> (case List.find (\<lambda>d. fst d = request_trial q) (decisions a) of None \<Rightarrow> True
                 | Some d \<Rightarrow> evaluation_result done_event \<noteq> Some (snd d)),
             conflict ''promotion aggregate differs from the completed comparison'')] (Inr ())))"

definition next_event :: "request \<Rightarrow> event list \<Rightarrow> event" where
  "next_event q es =
     \<lparr>event_trial = request_trial q, sequence = int (length es) + 1,
      previous_event = (if es = [] then None else Some (event_id (last es))), kind = request_kind q, occurred_at = 0,
      actor = request_actor q, reason = request_reason q, event_holdout = request_holdout q,
      metrics = request_metrics q, passed = request_passed q,
      evaluation_result = (if request_kind q = TRIAL_COMPLETED then map_option comparison_id (request_comparison q) else None),
      family_aggregate = (if request_kind q = TRIAL_PROMOTED then map_option aggregate_id (request_aggregate q) else None),
      event_schema = ''research-trial-lifecycle-event/v3'', event_id = []\<rparr>"

definition append_event :: "registry \<Rightarrow> bool \<Rightarrow> store \<Rightarrow> request \<Rightarrow> (store \<times> event) res" where
  \<comment> \<open>\<open>append\<close>\<close>
  "append_event g configured st q0 = (let tid = request_trial q0 in
     bindE (registry_get g tid) (\<lambda>r.
     bindE (completion r q0) (\<lambda>q.
     bindE (promotion g configured r q) (\<lambda>_.
     bindE (list_events g st tid) (\<lambda>es.
     bindE (if es = [] \<and> request_kind q = TRIAL_STARTED then reject_contaminated g st r else Inr ()) (\<lambda>_.
     bindE (if request_kind q = TRIAL_PROMOTED then promotion_matches g r q es else Inr ()) (\<lambda>_.
     bindE (mk_event (next_event q es) (request_time q)) (\<lambda>e.
     bindE (validate_history r (es @ [e])) (\<lambda>_.
     Inr (st(tid := es @ [e]), e))))))))))"

definition outcomes :: "registry \<Rightarrow> store \<Rightarrow> string \<Rightarrow> event list res" where
  "outcomes g st tid = bindE (list_events g st tid) (\<lambda>es. Inr (filter (\<lambda>e.
     terminal_outcome (kind e) \<or> kind e = TRIAL_PROMOTED \<or> kind e = TRIAL_INVALIDATED) es))"

section \<open>The store holds accepted histories\<close>

definition stored :: "registry \<Rightarrow> store \<Rightarrow> bool" where
  "stored g st = (\<forall>tid. st tid = [] \<or> (\<exists>r. registry_get g tid = Inr r \<and> validate_history r (st tid) = Inr ()))"

definition submit :: "registry \<Rightarrow> bool \<Rightarrow> store \<Rightarrow> request \<Rightarrow> store res" where
  "submit g configured st q = bindE (append_event g configured st q) (\<lambda>(st', e). Inr st')"

lemma mk_event_fields:
  assumes "mk_event e0 moment = Inr e"
  shows "kind e = kind e0" "evaluation_result e = evaluation_result e0" "family_aggregate e = family_aggregate e0"
    "event_trial e = event_trial e0"
  using assms by (auto simp: mk_event_def guards_Inr_iff Let_def split: option.splits)

lemma append_event_Inr:
  assumes "append_event g configured st q0 = Inr (st', e)"
  obtains r q where "registry_get g (request_trial q0) = Inr r" "completion r q0 = Inr q" "promotion g configured r q = Inr ()"
    "validate_history r (st (request_trial q0)) = Inr ()"
    "request_kind q = TRIAL_STARTED \<Longrightarrow> st (request_trial q0) = [] \<Longrightarrow> reject_contaminated g st r = Inr ()"
    "request_kind q = TRIAL_PROMOTED \<Longrightarrow> promotion_matches g r q (st (request_trial q0)) = Inr ()"
    "mk_event (next_event q (st (request_trial q0))) (request_time q) = Inr e"
    "validate_history r (st (request_trial q0) @ [e]) = Inr ()"
    "st' = st(request_trial q0 := st (request_trial q0) @ [e])"
proof -
  from assms obtain r q where "registry_get g (request_trial q0) = Inr r" "completion r q0 = Inr q"
    "promotion g configured r q = Inr ()" "validate_history r (st (request_trial q0)) = Inr ()"
    "(if st (request_trial q0) = [] \<and> request_kind q = TRIAL_STARTED then reject_contaminated g st r else Inr ()) = Inr ()"
    "(if request_kind q = TRIAL_PROMOTED then promotion_matches g r q (st (request_trial q0)) else Inr ()) = Inr ()"
    "mk_event (next_event q (st (request_trial q0))) (request_time q) = Inr e"
    "validate_history r (st (request_trial q0) @ [e]) = Inr ()"
    "st' = st(request_trial q0 := st (request_trial q0) @ [e])"
    unfolding append_event_def Let_def list_events_def bindE_eq_Inr by auto
  then show ?thesis by (intro that [of r q]) simp_all
qed

lemma completion_fields:
  assumes "completion r q0 = Inr q"
  shows "request_kind q = request_kind q0" "request_trial q = request_trial q0" "request_aggregate q = request_aggregate q0"
  using assms by (auto simp: completion_def guards_Inr_iff res_simps split: if_splits option.splits)

lemma submit_stored:
  assumes "stored g st" and "submit g configured st q = Inr st'"
  shows "stored g st'"
proof -
  obtain e where "append_event g configured st q = Inr (st', e)" using assms(2) by (auto simp: submit_def res_simps)
  then show ?thesis using assms(1) by (elim append_event_Inr) (auto simp: stored_def)
qed

interpretation submitting: guarded_machine "submit g configured" "stored g" for g configured
  by unfold_locales (rule submit_stored)

lemma submit_grows: "submit g configured st q = Inr st' \<Longrightarrow> \<exists>new. st' tid = st tid @ new"
  by (auto simp: submit_def res_simps elim!: append_event_Inr)

lemma run_grows: "foldE (submit g configured) st qs = Inr st' \<Longrightarrow> \<exists>new. st' tid = st tid @ new"
proof (induction qs arbitrary: st)
  case (Cons q qs)
  then obtain st1 where "submit g configured st q = Inr st1" "foldE (submit g configured) st1 qs = Inr st'"
    by (auto simp: res_simps)
  with Cons.IH submit_grows [of g configured st q st1 tid] show ?case by fastforce
qed simp

text \<open>C36: Whatever is appended to an empty store, every stored history belongs to a registered
  trial, is accepted by the validator and obeys the order of outcomes and holdout access, and appending
  more events only extends the histories: nothing stored is changed or removed.\<close>

theorem store_histories_accepted:
  assumes "foldE (submit g configured) (\<lambda>_. []) (qs @ later) = Inr st'"
  shows "\<exists>st. foldE (submit g configured) (\<lambda>_. []) qs = Inr st \<and> (\<forall>tid. \<exists>new. st' tid = st tid @ new)
    \<and> (\<forall>tid. st' tid \<noteq> [] \<longrightarrow> (\<exists>r. registry_get g tid = Inr r \<and> validate_history r (st' tid) = Inr ()
          \<and> always (obeys (confirmatory_trial r) (holdout_sealed r)) (map kind (st' tid))))"
proof -
  have empty: "stored g (\<lambda>_. [])" by (simp add: stored_def)
  obtain st where st: "foldE (submit g configured) (\<lambda>_. []) qs = Inr st" "foldE (submit g configured) st later = Inr st'"
    using assms by (auto simp: foldE_append res_simps)
  have "stored g st'" by (rule submitting.run_inv [OF empty assms])
  then have "\<forall>tid. st' tid \<noteq> [] \<longrightarrow> (\<exists>r. registry_get g tid = Inr r \<and> validate_history r (st' tid) = Inr ()
          \<and> always (obeys (confirmatory_trial r) (holdout_sealed r)) (map kind (st' tid)))"
    using accepted_obeys by (auto simp: stored_def)
  then show ?thesis using st run_grows [OF st(2)] by blast
qed

lemma find_Some_in: "List.find P xs = Some x \<Longrightarrow> x \<in> set xs \<and> P x"
  by (auto simp: find_Some_iff)

lemma appended_promotion:
  assumes "registry_get g (request_trial q0) = Inr r" and "append_event g configured st q0 = Inr (st', e)"
    and "request_kind q0 = TRIAL_PROMOTED"
  obtains a d c where "request_aggregate q0 = Some a" "aggregate_persisted a" "family_aggregate e = Some (aggregate_id a)"
    "family_ids g r = Inr (aggregate_trials a)" "request_trial q0 \<in> set (eligible_trials a)"
    "c \<in> set (st (request_trial q0))" "kind c = TRIAL_COMPLETED" "(request_trial q0, d) \<in> set (decisions a)"
    "evaluation_result c = Some d" "kind e = TRIAL_PROMOTED" "validate_history r (st (request_trial q0) @ [e]) = Inr ()"
proof (rule append_event_Inr [OF assms(2)])
  let ?es = "st (request_trial q0)"
  fix r' q
  assume q: "registry_get g (request_trial q0) = Inr r'" "completion r' q0 = Inr q" "promotion g configured r' q = Inr ()"
    "request_kind q = TRIAL_PROMOTED \<Longrightarrow> promotion_matches g r' q ?es = Inr ()"
    "mk_event (next_event q ?es) (request_time q) = Inr e" "validate_history r' (?es @ [e]) = Inr ()"
  have r: "r' = r" using q(1) assms(1) by simp
  note f = completion_fields [OF q(2)] and ef = mk_event_fields [OF q(5)]
  have k: "request_kind q = TRIAL_PROMOTED" using assms(3) f(1) by simp
  obtain a where a: "request_aggregate q0 = Some a" using q(3) f k by (auto simp: promotion_def split: option.splits)
  have p: "aggregate_persisted a" "family_ids g r = Inr (aggregate_trials a)" "request_trial q0 \<in> set (eligible_trials a)"
    using q(3) a f k r by (auto simp: promotion_def guards_Inr_iff res_simps)
  have "promotion_matches g r q ?es = Inr ()" using q(4) k r by simp
  then obtain c where c: "List.find (\<lambda>e. kind e = TRIAL_COMPLETED) ?es = Some c"
    and "\<exists>d. List.find (\<lambda>d. fst d = request_trial q0) (decisions a) = Some d \<and> evaluation_result c = Some (snd d)"
    using a f p(2) by (auto simp: promotion_matches_def guards_Inr_iff split: option.splits)
  then obtain d where d: "List.find (\<lambda>d. fst d = request_trial q0) (decisions a) = Some d" "evaluation_result c = Some (snd d)"
    by blast
  have mem: "c \<in> set ?es" "kind c = TRIAL_COMPLETED" "(request_trial q0, snd d) \<in> set (decisions a)"
    using find_Some_in [OF c] find_Some_in [OF d(1)] by (metis prod.collapse)+
  have ke: "kind e = TRIAL_PROMOTED" using ef(1) k by (simp add: next_event_def)
  have fe: "family_aggregate e = Some (aggregate_id a)" using ef(3) k a f by (simp add: next_event_def)
  show thesis by (rule that [OF a p(1) fe p(2,3) mem d(2) ke]) (use q(6) r in simp)
qed

text \<open>A promotion that the store appends is earned: the aggregate is persisted, covers exactly the
  trials now registered for the family and calls this trial eligible, the trial completed with the very
  comparison the aggregate decided on, its holdout results were read first if it is confirmatory, and it
  had not been promoted before.\<close>

theorem promotion_earned:
  assumes "registry_get g (request_trial q0) = Inr r" and "append_event g configured st q0 = Inr (st', e)"
    and "request_kind q0 = TRIAL_PROMOTED"
  shows "\<exists>a d c. request_aggregate q0 = Some a \<and> aggregate_persisted a \<and> family_aggregate e = Some (aggregate_id a)
    \<and> family_ids g r = Inr (aggregate_trials a) \<and> request_trial q0 \<in> set (eligible_trials a)
    \<and> c \<in> set (st (request_trial q0)) \<and> kind c = TRIAL_COMPLETED
    \<and> (request_trial q0, d) \<in> set (decisions a) \<and> evaluation_result c = Some d
    \<and> (stage r = CONFIRMATORY \<longrightarrow> (\<exists>x \<in> set (st (request_trial q0)). kind x = HOLDOUT_RESULTS_ACCESSED))
    \<and> (\<forall>x \<in> set (st (request_trial q0)). kind x \<noteq> TRIAL_PROMOTED)"
proof -
  let ?es = "st (request_trial q0)"
  obtain a d c where a: "request_aggregate q0 = Some a" "aggregate_persisted a" "family_aggregate e = Some (aggregate_id a)"
    "family_ids g r = Inr (aggregate_trials a)" "request_trial q0 \<in> set (eligible_trials a)"
    and c: "c \<in> set ?es" "kind c = TRIAL_COMPLETED" "(request_trial q0, d) \<in> set (decisions a)" "evaluation_result c = Some d"
    and e: "kind e = TRIAL_PROMOTED" "validate_history r (?es @ [e]) = Inr ()"
    by (rule appended_promotion [OF assms])
  have obey: "always (obeys (confirmatory_trial r) (holdout_sealed r)) (map kind (?es @ [e]))"
    using accepted_obeys [OF e(2)] by simp
  then have "TRIAL_PROMOTED \<notin> kind ` set ?es" using e(1) by (simp add: obeys_def)
  then have new: "\<forall>x \<in> set ?es. kind x \<noteq> TRIAL_PROMOTED" by (metis imageI)
  obtain i where i: "i < length ?es" "?es ! i = c" using c(1) by (auto simp: in_set_conv_nth)
  have "always (obeys (confirmatory_trial r) (holdout_sealed r)) (map kind ?es)" using obey by simp
  then have "obeys (confirmatory_trial r) (holdout_sealed r) (take i (map kind ?es)) (map kind ?es ! i)"
    using i(1) by (simp add: always_def)
  then have "obeys (confirmatory_trial r) (holdout_sealed r) (take i (map kind ?es)) TRIAL_COMPLETED" using i c(2) by simp
  then have "stage r = CONFIRMATORY \<Longrightarrow> HOLDOUT_RESULTS_ACCESSED \<in> set (take i (map kind ?es))"
    by (simp add: obeys_def confirmatory_trial_def)
  then have "stage r = CONFIRMATORY \<longrightarrow> (\<exists>x \<in> set ?es. kind x = HOLDOUT_RESULTS_ACCESSED)"
    by (metis (no_types, lifting) imageE in_set_takeD list.set_map)
  then show ?thesis using a c new by blast
qed

section \<open>Witnesses\<close>

definition seal_event :: "event \<Rightarrow> event" where
  "seal_event e = e\<lparr>event_id := fields_id (event_material e)\<rparr>"

definition demo_event_of :: "string \<Rightarrow> string \<Rightarrow> int \<Rightarrow> string option \<Rightarrow> event_type \<Rightarrow> event" where
  \<comment> \<open>completed with the comparison \<open>c\<close>, promoted on the aggregate \<open>a\<close>\<close>
  "demo_event_of c a n prev k = seal_event
     \<lparr>event_trial = trial_id demo_trial, sequence = n, previous_event = prev, kind = k, occurred_at = n,
      actor = ''m1'', reason = ''momentum'', event_holdout = (if holdout_event k then Some demo_sha else None),
      metrics = (if k = TRIAL_COMPLETED then [(''hit'', Dec False 1 0), (''sharpe'', Dec False 2 0)] else []),
      passed = (if k = TRIAL_COMPLETED then Some True else None),
      evaluation_result = (if k = TRIAL_COMPLETED then Some c else None),
      family_aggregate = (if k = TRIAL_PROMOTED then Some a else None),
      event_schema = ''research-trial-lifecycle-event/v3'', event_id = []\<rparr>"

abbreviation demo_event :: "int \<Rightarrow> string option \<Rightarrow> event_type \<Rightarrow> event" where
  "demo_event \<equiv> demo_event_of demo_sha demo_sha"

lemma demo_event_fields [simp]:
  "event_trial (demo_event_of c a n prev k) = trial_id demo_trial" "sequence (demo_event_of c a n prev k) = n"
  "previous_event (demo_event_of c a n prev k) = prev" "kind (demo_event_of c a n prev k) = k"
  "occurred_at (demo_event_of c a n prev k) = n"
  "event_holdout (demo_event_of c a n prev k) = (if holdout_event k then Some demo_sha else None)"
  "map fst (metrics (demo_event_of c a n prev TRIAL_COMPLETED)) = [''hit'', ''sharpe'']"
  "evaluation_result (demo_event_of c a n prev TRIAL_COMPLETED) = Some c"
  "\<not> fst (event_broken (demo_event_of c a n prev k))" "sha_text (event_id (demo_event_of c a n prev k))"
  by (simp_all add: demo_event_of_def seal_event_def event_broken_def event_material_def)

definition demo_history_of :: "string \<Rightarrow> event list" where
  "demo_history_of g = (let
     a = demo_event_of g demo_sha 1 None TRIAL_STARTED;
     b = demo_event_of g demo_sha 2 (Some (event_id a)) HOLDOUT_UNSEALED;
     c = demo_event_of g demo_sha 3 (Some (event_id b)) HOLDOUT_RESULTS_ACCESSED;
     d = demo_event_of g demo_sha 4 (Some (event_id c)) TRIAL_COMPLETED
     in [a, b, c, d])"

abbreviation demo_history :: "event list" where
  "demo_history \<equiv> demo_history_of demo_sha"

lemma demo_history_kinds:
  "map kind (demo_history_of g) = [TRIAL_STARTED, HOLDOUT_UNSEALED, HOLDOUT_RESULTS_ACCESSED, TRIAL_COMPLETED]"
  by (simp add: demo_history_of_def Let_def)

lemma always_Cons: "always P (x # xs) \<longleftrightarrow> P [] x \<and> always (\<lambda>pre. P (x # pre)) xs"
  by (auto simp: always_def nth_Cons less_Suc_eq_0_disj split: nat.splits)

lemma demo_history_accepted: "validate_history demo_trial (demo_history_of g) = Inr ()"
proof -
  have "carries demo_trial (demo_event_of g demo_sha n prev k)" for n prev k
    by (auto simp: carries_def expected_metrics_def)
  then have "always (linked_event demo_trial) (demo_history_of g)"
    by (simp add: demo_history_of_def Let_def always_Cons linked_event_def)
  moreover have "lived demo_trial (demo_history_of g) Completed"
    by (simp add: lived_def demo_history_kinds confirmatory_trial_def)
  ultimately show ?thesis by (auto simp: validate_iff)
qed

theorem accepted_history_safe_witness:
  "always (obeys True True) [TRIAL_STARTED, HOLDOUT_UNSEALED, HOLDOUT_RESULTS_ACCESSED, TRIAL_COMPLETED]
    \<and> validate_history demo_trial (take 2 demo_history) = Inr ()"
  using accepted_history_safe [OF demo_history_accepted]
  unfolding demo_history_kinds by (simp add: confirmatory_trial_def)

definition demo_start :: request where
  "demo_start = \<lparr>request_trial = trial_id demo_trial, request_kind = TRIAL_STARTED, request_time = PyDatetime 1 (Some 0),
     request_actor = ''m1'', request_reason = ''momentum'', request_holdout = None, request_metrics = [],
     request_passed = None, request_comparison = None, request_aggregate = None\<rparr>"

definition demo_aggregate :: aggregate where
  "demo_aggregate = \<lparr>aggregate_family = ''swing'', aggregate_trials = [trial_id demo_trial],
     eligible_trials = [trial_id demo_trial], decisions = [(trial_id demo_trial, demo_sha)], aggregate_id = demo_sha,
     aggregate_persisted = True\<rparr>"

definition demo_promote_on :: "aggregate \<Rightarrow> request" where
  "demo_promote_on a = demo_start\<lparr>request_kind := TRIAL_PROMOTED, request_time := PyDatetime 5 (Some 0),
     request_aggregate := Some a\<rparr>"

abbreviation demo_promote :: request where
  "demo_promote \<equiv> demo_promote_on demo_aggregate"

lemma demo_get: "registry_get [demo_trial] (trial_id demo_trial) = Inr demo_trial"
  by (simp add: registry_get_def path_guard_def)

lemma demo_started:
  "append_event [demo_trial] True (\<lambda>_. []) demo_start
     = Inr ((\<lambda>_. [])(trial_id demo_trial := [demo_event 1 None TRIAL_STARTED]), demo_event 1 None TRIAL_STARTED)"
proof -
  have h: "validate_history demo_trial [demo_event 1 None TRIAL_STARTED] = Inr ()"
    using accepted_history_safe [OF demo_history_accepted [of demo_sha]] by (auto simp: demo_history_of_def Let_def dest: spec [of _ 1])
  have e: "mk_event (next_event demo_start []) (PyDatetime 1 (Some 0)) = Inr (demo_event 1 None TRIAL_STARTED)"
    by (simp add: mk_event_def guards_Inr_iff next_event_def demo_start_def position_guards_def content_guards_def
        outcome_guards_def life_sha_def life_text_def demo_texts kind_defs to_utc_def demo_event_of_def seal_event_def)
  show ?thesis
    using h e by (simp add: append_event_def demo_start_def demo_get completion_def promotion_def list_events_def
        validate_history_def reject_contaminated_def Let_def)
qed

theorem validate_refines_phases_witness:
  "\<exists>p. run True True Fresh [TRIAL_STARTED, HOLDOUT_UNSEALED, HOLDOUT_RESULTS_ACCESSED, TRIAL_COMPLETED] p"
  using validate_refines_phases [of demo_trial demo_history] demo_history_accepted
  unfolding demo_history_kinds by (simp add: confirmatory_trial_def)

theorem store_histories_accepted_witness:
  "\<exists>st. foldE (submit [demo_trial] True) (\<lambda>_. []) [demo_start] = Inr st
     \<and> validate_history demo_trial (st (trial_id demo_trial)) = Inr ()"
proof -
  let ?st = "(\<lambda>_. [])(trial_id demo_trial := [demo_event 1 None TRIAL_STARTED])"
  have "foldE (submit [demo_trial] True) (\<lambda>_. []) ([demo_start] @ []) = Inr ?st"
    using demo_started by (simp add: submit_def)
  from store_histories_accepted [OF this] have "validate_history demo_trial (?st (trial_id demo_trial)) = Inr ()"
    using demo_get by (auto dest: spec [of _ "trial_id demo_trial"])
  then show ?thesis using demo_started by (intro exI [of _ ?st]) (simp add: submit_def)
qed

lemma demo_promoted:
  assumes "sha_text c" "sha_text (aggregate_id a)" "aggregate_persisted a" "aggregate_family a = ''swing''"
    "aggregate_trials a = [trial_id demo_trial]" "trial_id demo_trial \<in> set (eligible_trials a)"
    "List.find (\<lambda>d. fst d = trial_id demo_trial) (decisions a) = Some (trial_id demo_trial, c)"
  shows "\<exists>st' e. append_event [demo_trial] True (\<lambda>_. demo_history_of c) (demo_promote_on a) = Inr (st', e) \<and> kind e = TRIAL_PROMOTED"
proof -
  let ?h = "demo_history_of c"
  let ?e = "demo_event_of c (aggregate_id a) 5 (Some (event_id (last ?h))) TRIAL_PROMOTED"
  have al: "always (linked_event demo_trial) (?h @ [?e])"
    using demo_history_accepted [of c] by (simp add: validate_iff linked_event_def carries_def kind_defs)
      (simp add: demo_history_of_def Let_def)
  have "lived demo_trial (?h @ [?e]) Promoted"
    by (simp add: lived_def demo_history_kinds confirmatory_trial_def)
  with al have h: "validate_history demo_trial (?h @ [?e]) = Inr ()" by (auto simp: validate_iff)
  have sha: "sha_text (event_id (last ?h))" by (simp add: demo_history_of_def Let_def)
  have e: "mk_event (next_event (demo_promote_on a) ?h) (PyDatetime 5 (Some 0)) = Inr ?e"
    using sha assms(2) by (simp add: mk_event_def guards_Inr_iff next_event_def demo_start_def demo_promote_on_def
        position_guards_def content_guards_def outcome_guards_def opt_guard_def life_sha_def life_text_def demo_texts
        demo_sha_text kind_defs to_utc_def demo_event_of_def seal_event_def)
      (simp add: demo_history_of_def Let_def)
  have ids: "family_ids [demo_trial] demo_trial = Inr [trial_id demo_trial]"
  proof -
    have "\<not> blank ''swing''" by code_simp
    then show ?thesis by (simp add: family_ids_def registrations_for_family_def)
  qed
  have find: "List.find (\<lambda>e. kind e = TRIAL_COMPLETED) ?h
      = Some (demo_event_of c demo_sha 4 (Some (event_id (?h ! 2))) TRIAL_COMPLETED)"
    by (simp add: demo_history_of_def Let_def)
  have "append_event [demo_trial] True (\<lambda>_. ?h) (demo_promote_on a) = Inr ((\<lambda>_. ?h)(trial_id demo_trial := ?h @ [?e]), ?e)"
    using h e demo_history_accepted [of c] ids find assms(3-7)
    by (simp add: append_event_def demo_promote_on_def demo_start_def demo_get completion_def promotion_def
        list_events_def promotion_matches_def Let_def)
  then show ?thesis by simp
qed

theorem promotion_earned_witness:
  "\<exists>st' e. append_event [demo_trial] True (\<lambda>_. demo_history) demo_promote = Inr (st', e) \<and> kind e = TRIAL_PROMOTED
     \<and> (\<exists>x \<in> set demo_history. kind x = HOLDOUT_RESULTS_ACCESSED) \<and> family_aggregate e = Some demo_sha"
proof -
  obtain st' e where r: "append_event [demo_trial] True (\<lambda>_. demo_history) demo_promote = Inr (st', e)" "kind e = TRIAL_PROMOTED"
    using demo_promoted [of demo_sha demo_aggregate] by (auto simp: demo_aggregate_def demo_sha_text)
  have q: "request_trial demo_promote = trial_id demo_trial" "request_kind demo_promote = TRIAL_PROMOTED"
    "request_aggregate demo_promote = Some demo_aggregate"
    by (simp_all add: demo_promote_on_def demo_start_def)
  have "\<exists>x \<in> set demo_history. kind x = HOLDOUT_RESULTS_ACCESSED"
    "family_aggregate e = Some (aggregate_id demo_aggregate)"
    using promotion_earned [OF _ r(1) q(2), unfolded q(1,3), OF demo_get] by auto
  then show ?thesis using r by (auto simp: demo_aggregate_def)
qed

end
