(* ===== verification/RawBars.thy ===== *)
theory RawBars
  imports Ticks Identity
begin

text \<open>
  Raw end-of-day bars of the exchange reports (\<open>historical_prices/models.py\<close>) and the ISIN check they
  rest on (\<open>validated_isin_or_none\<close> of \<open>reference_data/models.py\<close>).

  A bar cites the report rows it was read from, and its constructor cross-checks prices, turnover
  and delivery figures.  The theorems: a wrong digit in an ISIN is always rejected, and a constructed
  bar is consistent, its delivery percentage that of its quantities.
\<close>

section \<open>ISINs\<close>

definition upper_letter :: "char \<Rightarrow> bool" where
  "upper_letter c = (65 \<le> (of_char c :: nat) \<and> (of_char c :: nat) \<le> 90)"

definition isin_shape :: "string \<Rightarrow> bool" where
  \<comment> \<open>the regular expression \<open>[A-Z]{2}[A-Z0-9]{9}[0-9]\<close>, matched in full\<close>
  "isin_shape s = (length s = 12 \<and> list_all upper_letter (take 2 s)
     \<and> list_all (\<lambda>c. upper_letter c \<or> is_digit c) (take 9 (drop 2 s)) \<and> list_all is_digit (drop 11 s))"

definition expand :: "char \<Rightarrow> nat list" where
  \<comment> \<open>the decimal digits of \<open>str(int(character, 36))\<close>, or the digit itself\<close>
  "expand c = (let n = of_char c :: nat in
     if upper_letter c then [(n - 55) div 10, (n - 55) mod 10] else [n - 48])"

definition luhn_digit :: "bool \<Rightarrow> nat \<Rightarrow> nat" where
  "luhn_digit twice d = (let v = if twice then d * 2 else d in v div 10 + v mod 10)"

fun luhn :: "bool \<Rightarrow> nat list \<Rightarrow> nat" where
  \<comment> \<open>the loop over \<open>enumerate(reversed(expanded))\<close>; the flag is the parity of the position\<close>
  "luhn odd_position [] = 0"
| "luhn odd_position (d # ds) = luhn_digit odd_position d + luhn (\<not> odd_position) ds"

definition isin_checksum :: "string \<Rightarrow> nat" where
  "isin_checksum s = luhn False (rev (concat (map expand s)))"

definition validated_isin_or_none :: "string \<Rightarrow> string option" where
  "validated_isin_or_none s = (if \<not> isin_shape s then None
     else if isin_checksum s mod 10 = 0 then Some s else None)"

lemma luhn_append: "luhn p (xs @ ys) = luhn p xs + luhn (p \<noteq> odd (length xs)) ys"
proof (induction xs arbitrary: p)
  case (Cons x xs)
  then show ?case by (cases p) simp_all
qed simp

lemma add_mod_cancel:
  assumes "(a + x) mod 10 = (a + y) mod (10 :: nat)"
  shows "x mod 10 = y mod 10"
proof -
  have "(9 * a + (a + x)) mod 10 = (9 * a + (a + y)) mod 10" using assms by (metis mod_add_right_eq)
  moreover have "9 * a + (a + z) = z + a * 10" for z by simp
  ultimately show ?thesis by (metis mod_mult_self1)
qed

lemma luhn_digit_twice: "d < 10 \<Longrightarrow> luhn_digit True d = (if d < 5 then d * 2 else d * 2 - 9)"
proof -
  have "d * 2 div 10 = (if d < 5 then 0 else 1)" if "d < 10" using that by auto
  then show "d < 10 \<Longrightarrow> luhn_digit True d = (if d < 5 then d * 2 else d * 2 - 9)"
    by (simp add: luhn_digit_def modulo_nat_def)
qed

lemma luhn_digit_inject:
  assumes "d < 10" "e < 10" and "luhn_digit p d mod 10 = luhn_digit p e mod 10"
  shows "d = e"
proof (cases p)
  case True
  then have "(if d < 5 then d * 2 else d * 2 - 9) = (if e < 5 then e * 2 else e * 2 - 9)"
    using assms by (simp add: luhn_digit_twice split: if_splits)
  then show ?thesis using assms(1,2) by (simp split: if_splits) presburger+
qed (use assms in \<open>simp add: luhn_digit_def\<close>)

lemma expand_digit: "is_digit c \<Longrightarrow> expand c = [of_char c - 48] \<and> (of_char c - 48 :: nat) < 10"
  by (auto simp: is_digit_def expand_def upper_letter_def Let_def)

text \<open>C37: A structurally valid ISIN whose check digit agrees is returned unchanged, and replacing any one
  digit of it by another digit, the check digit included, is always detected.\<close>

theorem isin_single_digit_error:
  assumes "validated_isin_or_none s = Some t" and "i < length s" and "is_digit (s ! i)" and "is_digit c" and "c \<noteq> s ! i"
  shows "t = s \<and> validated_isin_or_none (s[i := c]) = None"
proof -
  have s: "t = s" "isin_shape s" "isin_checksum s mod 10 = 0"
    using assms(1) by (auto simp: validated_isin_or_none_def split: if_splits)
  define xs where "xs = concat (map expand (take i s))"
  define ys where "ys = concat (map expand (drop (Suc i) s))"
  let ?v = "\<lambda>c. of_char c - 48 :: nat"
  have e: "concat (map expand (take i s @ d # drop (Suc i) s)) = xs @ ?v d # ys" if "is_digit d" for d
    using expand_digit [OF that] by (simp add: xs_def ys_def)
  have sum: "luhn False (rev (xs @ d # ys)) = luhn False (rev ys) + luhn_digit (odd (length ys)) d
      + luhn (odd (Suc (length ys))) (rev xs)" for d
    by (simp add: luhn_append)
  have old: "concat (map expand s) = xs @ ?v (s ! i) # ys"
    using e [OF assms(3)] id_take_nth_drop [OF assms(2)] by metis
  have new: "concat (map expand (s[i := c])) = xs @ ?v c # ys"
    using e [OF assms(4)] by (simp add: upd_conv_take_nth_drop [OF assms(2)])
  have "isin_checksum (s[i := c]) mod 10 \<noteq> 0"
  proof
    assume "isin_checksum (s[i := c]) mod 10 = 0"
    then have "(luhn False (rev ys) + luhn (odd (Suc (length ys))) (rev xs) + luhn_digit (odd (length ys)) (?v c)) mod 10
        = (luhn False (rev ys) + luhn (odd (Suc (length ys))) (rev xs) + luhn_digit (odd (length ys)) (?v (s ! i))) mod 10"
      using s(3) unfolding isin_checksum_def old new sum by (simp add: ac_simps)
    then have "luhn_digit (odd (length ys)) (?v c) mod 10 = luhn_digit (odd (length ys)) (?v (s ! i)) mod 10"
      by (rule add_mod_cancel)
    then have "?v c = ?v (s ! i)" using luhn_digit_inject expand_digit assms(3,4) by blast
    then have "(of_char c :: nat) = of_char (s ! i)" using assms(3,4) unfolding is_digit_def by linarith
    then show False using assms(5) by (metis char_of_char)
  qed
  then show ?thesis using s(1) by (auto simp: validated_isin_or_none_def)
qed

section \<open>Report rows\<close>

datatype report_family = UDIFF_BHAVCOPY | FULL_BHAVCOPY_DELIVERY | SURVEILLANCE_REG1 | COMPLETE_PRICE_BANDS
  | SME_PRICE_BANDS | PRICE_BAND_CHANGES | SERIES_CHANGES | SECURITY_MASTER

fun family_name :: "report_family \<Rightarrow> string" where
  "family_name UDIFF_BHAVCOPY = ''UDIFF_BHAVCOPY''"
| "family_name FULL_BHAVCOPY_DELIVERY = ''FULL_BHAVCOPY_DELIVERY''"
| "family_name SURVEILLANCE_REG1 = ''SURVEILLANCE_REG1''"
| "family_name COMPLETE_PRICE_BANDS = ''COMPLETE_PRICE_BANDS''"
| "family_name SME_PRICE_BANDS = ''SME_PRICE_BANDS''"
| "family_name PRICE_BAND_CHANGES = ''PRICE_BAND_CHANGES''"
| "family_name SERIES_CHANGES = ''SERIES_CHANGES''"
| "family_name SECURITY_MASTER = ''SECURITY_MASTER''"

record row_ref =
  row_report :: string
  row_family :: report_family
  source_row_number :: int
  row_sha :: string
  row_key :: "string \<times> string"

definition sha_value :: "string \<Rightarrow> bool \<times> py_exc" where
  "sha_value s = (\<not> sha_text s, ValueError ''must be a full lowercase SHA-256'')"

definition row_guards :: "row_ref \<Rightarrow> (bool \<times> py_exc) list" where
  "row_guards x =
     [sha_value (row_report x), sha_value (row_sha x),
      (row_family x \<notin> {UDIFF_BHAVCOPY, FULL_BHAVCOPY_DELIVERY}, ValueError ''price row must come from a final price report''),
      (source_row_number x < 2, ValueError ''source row number must include the header offset''),
      (\<not> normalized_upper (fst (row_key x)) \<or> \<not> normalized_upper (snd (row_key x)),
         ValueError ''listing_key must be an uppercase symbol-series pair'')]"

definition mk_row_ref :: "row_ref \<Rightarrow> row_ref res" where
  "mk_row_ref x = guards (row_guards x) (Inr x)"

section \<open>Bars\<close>

record raw_bar =
  raw_session :: date
  financial_instrument_id :: int
  raw_isin :: string
  raw_symbol :: string
  raw_series :: string
  raw_session_id :: string
  instrument_name :: string
  raw_open :: decimal
  raw_high :: decimal
  raw_low :: decimal
  raw_close :: decimal
  raw_last :: decimal
  previous_close :: decimal
  raw_volume :: int
  raw_traded_value :: decimal
  trade_count :: int
  board_lot_quantity :: int
  full_average_price :: "decimal option"
  delivery_quantity :: "int option"
  delivery_percent :: "decimal option"
  raw_knowledge_time :: instant
  udiff_row :: row_ref
  delivery_row :: "row_ref option"
  raw_bar_id :: string

definition raw_positive :: "decimal \<Rightarrow> bool \<times> py_exc" where
  "raw_positive v = (v \<le> 0, ValueError ''must be positive'')"

definition bar_key :: "raw_bar \<Rightarrow> string \<times> string" where
  \<comment> \<open>the property \<open>listing_key\<close>\<close>
  "bar_key b = (raw_symbol b, raw_series b)"

definition max3 :: "decimal \<Rightarrow> decimal \<Rightarrow> decimal \<Rightarrow> decimal \<Rightarrow> decimal" where
  "max3 a b c d = py_max (py_max (py_max a b) c) d"

definition min3 :: "decimal \<Rightarrow> decimal \<Rightarrow> decimal \<Rightarrow> decimal \<Rightarrow> decimal" where
  "min3 a b c d = py_min (py_min (py_min a b) c) d"

definition raw_bar_guards :: "raw_bar \<Rightarrow> (bool \<times> py_exc) list" where
  "raw_bar_guards b =
     [(financial_instrument_id b \<le> 0, ValueError ''financial_instrument_id must be positive''),
      (validated_isin_or_none (raw_isin b) \<noteq> Some (raw_isin b),
         ValueError ''validated_isin must be structurally and checksum valid''),
      (\<not> normalized_upper (raw_symbol b), ValueError ''must be normalized uppercase text''),
      (\<not> normalized_upper (raw_series b), ValueError ''must be normalized uppercase text''),
      (\<not> normalized_upper (raw_session_id b), ValueError ''must be normalized uppercase text''),
      (raw_session_id b \<noteq> ''F1'', ValueError ''only the pinned F1 final session is supported''),
      (instrument_name b = [], ValueError ''instrument_name is required'')]
     @ map raw_positive [raw_open b, raw_high b, raw_low b, raw_close b, raw_last b, previous_close b, raw_traded_value b]
     @ [(raw_high b < max3 (raw_open b) (raw_low b) (raw_close b) (raw_last b),
           ValueError ''bar high is inconsistent with reported prices''),
        (min3 (raw_open b) (raw_high b) (raw_close b) (raw_last b) < raw_low b,
           ValueError ''bar low is inconsistent with reported prices''),
        (raw_volume b \<le> 0, ValueError ''must be a positive integer''),
        (trade_count b \<le> 0, ValueError ''must be a positive integer''),
        (board_lot_quantity b \<le> 0, ValueError ''must be a positive integer''),
        (let average = dquot (raw_traded_value b) (dec_of_int (raw_volume b)) in
           \<not> (raw_low b \<le> average \<and> average \<le> raw_high b),
           ValueError ''traded value implies an average outside the daily range'')]"

definition expected_percent :: "int \<Rightarrow> int \<Rightarrow> decimal res" where
  "expected_percent q v = quantize HalfUp (-2) (dquot (dec_of_int 100 * dec_of_int q) (dec_of_int v))"

definition delivery_check :: "raw_bar \<Rightarrow> unit res" where
  "delivery_check b = (case delivery_row b of
       None \<Rightarrow> guards [(full_average_price b \<noteq> None \<or> delivery_quantity b \<noteq> None \<or> delivery_percent b \<noteq> None,
         ValueError ''full-report values require full-report row lineage'')] (Inr ())
     | Some row \<Rightarrow> guards
         [(row_family row \<noteq> FULL_BHAVCOPY_DELIVERY, ValueError ''full_delivery_row_ref has the wrong report family''),
          (row_key row \<noteq> bar_key b, ValueError ''full-delivery row belongs to another listing'')]
         (case full_average_price b of
            None \<Rightarrow> Inl (ValueError ''full-report lineage requires its reported average price'')
          | Some average \<Rightarrow> guards
              [raw_positive average,
               (\<not> (raw_low b \<le> average \<and> average \<le> raw_high b),
                  ValueError ''full-report average price is outside the daily range''),
               ((delivery_quantity b = None) \<noteq> (delivery_percent b = None),
                  ValueError ''delivery quantity and percent must share missingness'')]
              (case (delivery_quantity b, delivery_percent b) of
                 (Some q, Some percent) \<Rightarrow> guards
                   [(q < 0 \<or> raw_volume b < q, ValueError ''delivery quantity is inconsistent with volume'')]
                   (bindE (expected_percent q (raw_volume b)) (\<lambda>expected. guards
                     [(\<not> deq percent expected, ValueError ''delivery percent is inconsistent with quantity'')] (Inr ())))
               | _ \<Rightarrow> Inr ())))"

definition row_ref_val :: "row_ref \<Rightarrow> pyval" where
  "row_ref_val x = PDataclass ''india_swing.historical_prices.models.PriceRowRef''
     [(''report_ref_id'', PStr (row_report x)),
      (''family'', PEnum ''india_swing.daily_reports.models.DailyReportFamily'' (PStr (family_name (row_family x)))),
      (''source_row_number'', PInt (source_row_number x)),
      (''row_sha256'', PStr (row_sha x)),
      (''listing_key'', PTuple [PStr (fst (row_key x)), PStr (snd (row_key x))])]"

definition raw_bar_material :: "raw_bar \<Rightarrow> (string \<times> pyval) list" where
  "raw_bar_material b =
     [(''schema'', PStr ''raw-nse-eod-bar/v1''),
      (''market_session'', PDate (raw_session b)),
      (''financial_instrument_id'', PInt (financial_instrument_id b)),
      (''validated_isin'', PStr (raw_isin b)),
      (''symbol'', PStr (raw_symbol b)),
      (''series'', PStr (raw_series b)),
      (''session_id'', PStr (raw_session_id b)),
      (''instrument_name'', PStr (instrument_name b)),
      (''open'', PDecimal (raw_open b)),
      (''high'', PDecimal (raw_high b)),
      (''low'', PDecimal (raw_low b)),
      (''close'', PDecimal (raw_close b)),
      (''last'', PDecimal (raw_last b)),
      (''previous_close'', PDecimal (previous_close b)),
      (''volume'', PInt (raw_volume b)),
      (''traded_value'', PDecimal (raw_traded_value b)),
      (''trade_count'', PInt (trade_count b)),
      (''board_lot_quantity'', PInt (board_lot_quantity b)),
      (''full_average_price'', popt PDecimal (full_average_price b)),
      (''delivery_quantity'', popt PInt (delivery_quantity b)),
      (''delivery_percent'', popt PDecimal (delivery_percent b)),
      (''knowledge_time'', PDatetime (raw_knowledge_time b)),
      (''udiff_row_ref'', row_ref_val (udiff_row b)),
      (''full_delivery_row_ref'', popt row_ref_val (delivery_row b))]"

definition mk_raw_bar :: "raw_bar \<Rightarrow> pydatetime \<Rightarrow> raw_bar res" where
  "mk_raw_bar b0 moment = guards (raw_bar_guards b0) (bindE (delivery_check b0) (\<lambda>_.
     case to_utc moment of None \<Rightarrow> Inl (ValueError ''must be timezone-aware'')
     | Some t \<Rightarrow> let b = b0\<lparr>raw_knowledge_time := t\<rparr> in guards
         [(row_family (udiff_row b) \<noteq> UDIFF_BHAVCOPY, ValueError ''udiff_row_ref has the wrong report family''),
          (row_key (udiff_row b) \<noteq> bar_key b, ValueError ''UDiFF row belongs to another listing'')]
         (Inr (b\<lparr>raw_bar_id := fields_id (raw_bar_material b)\<rparr>))))"

definition verify_raw_bar :: "raw_bar \<Rightarrow> unit res" where
  "verify_raw_bar b = guards [(raw_bar_id b \<noteq> fields_id (raw_bar_material b),
     HistoricalPriceIntegrityError ''bar identity verification failed'')] (Inr ())"

lemma mk_raw_bar_Inr:
  assumes "mk_raw_bar b0 moment = Inr b"
  shows "\<forall>g \<in> set (raw_bar_guards b). \<not> fst g" "delivery_check b = Inr ()" "verify_raw_bar b = Inr ()"
    "row_family (udiff_row b) = UDIFF_BHAVCOPY" "row_key (udiff_row b) = bar_key b"
proof -
  have same: "raw_bar_guards (q\<lparr>raw_knowledge_time := t, raw_bar_id := i\<rparr>) = raw_bar_guards q"
    "delivery_check (q\<lparr>raw_knowledge_time := t, raw_bar_id := i\<rparr>) = delivery_check q"
    "raw_bar_material (q\<lparr>raw_bar_id := i\<rparr>) = raw_bar_material q"
    "bar_key (q\<lparr>raw_knowledge_time := t, raw_bar_id := i\<rparr>) = bar_key q" for q :: raw_bar and i t
    by (simp_all add: raw_bar_guards_def delivery_check_def raw_bar_material_def bar_key_def Let_def cong: option.case_cong)
  obtain t where t: "to_utc moment = Some t" and g: "\<forall>g \<in> set (raw_bar_guards b0). \<not> fst g" "delivery_check b0 = Inr ()"
    and b: "b = b0\<lparr>raw_knowledge_time := t, raw_bar_id := fields_id (raw_bar_material (b0\<lparr>raw_knowledge_time := t\<rparr>))\<rparr>"
    and u: "row_family (udiff_row b0) = UDIFF_BHAVCOPY" "row_key (udiff_row b0) = bar_key b0"
    using assms by (auto simp: mk_raw_bar_def guards_Inr_iff res_simps Let_def bar_key_def split: option.splits)
  show "\<forall>g \<in> set (raw_bar_guards b). \<not> fst g" "delivery_check b = Inr ()" "verify_raw_bar b = Inr ()"
    "row_family (udiff_row b) = UDIFF_BHAVCOPY" "row_key (udiff_row b) = bar_key b"
    using g u same unfolding b by (simp_all add: verify_raw_bar_def)
qed

lemma of_int_repr: "\<bar>n\<bar> < 10 ^ 28 \<Longrightarrow> repr (dec_of_int n)"
  by (auto simp: repr_def dec_of_int_def prec_def)

lemma expected_percent_bounds:
  assumes q: "0 \<le> q" "q \<le> v" "0 < v" "v \<le> 10 ^ 20" and p: "expected_percent q v = Inr p"
  shows "0 \<le> dval p" "dval p \<le> 100"
    "2 * \<bar>dval p - dval (dquot (dec_of_int 100 * dec_of_int q) (dec_of_int v))\<bar> \<le> 1 / 100"
proof -
  let ?x = "dquot (dec_of_int 100 * dec_of_int q) (dec_of_int v)"
  note z = quantize_props [OF p [unfolded expected_percent_def]]
  have "\<bar>100 * q\<bar> < 10 ^ 28" using q by simp
  then have prod: "dval (dec_of_int 100 * dec_of_int q) = 100 * of_int q"
    using times_exact [OF of_int_repr, of "100 * q" "dec_of_int 100" "dec_of_int q"] by simp
  have nz: "\<not> dzero (dec_of_int v)" using q(3) by (simp flip: dval_zero_iff)
  have "repr (dec_of_int 100)" by (rule of_int_repr) simp
  then have x100: "dval ?x \<le> 100"
    using dquot_le [OF nz, of "dec_of_int 100"] q prod by (simp add: pos_divide_le_eq)
  have x0: "0 \<le> dval ?x" using q prod by (intro dquot_nonneg [OF nz]) simp_all
  show "2 * \<bar>dval p - dval ?x\<bar> \<le> 1 / 100" using z(2) by (simp add: power_int_minus field_simps)
  moreover define y where "y = dval ?x"
  ultimately have "2 * \<bar>dval p - y\<bar> \<le> 1 / 100" "y \<le> 100" using x100 by simp_all
  moreover from this(1) have "\<bar>dval p - y\<bar> \<le> 1 / 200" by (simp add: field_simps)
  then have "dval p - y \<le> 1 / 200" by (rule abs_le_D1)
  ultimately have close: "dval p \<le> 100 + 1 / 200" by simp
  show p0: "0 \<le> dval p" by (rule z(3) [OF x0])
  have "dval p = of_nat (dcoeff p) / 100"
    using p0 z(1) dval_abs [of p] by (simp add: power_int_minus)
  moreover from this close have "dcoeff p \<le> 10000" by (simp add: field_simps)
  ultimately show "dval p \<le> 100" by simp
qed

text \<open>A constructed raw bar is consistent: prices are positive and inside the day's range, the turnover
  averages inside it, the ISIN passes its check, every cited row is of this listing, and a delivery
  percentage is that of its quantities: between 0 and 100 and half a hundredth from the quotient
  at most (for volumes up to 10^20).\<close>

theorem raw_bar_consistent:
  assumes "mk_raw_bar b0 moment = Inr b"
  shows "0 < raw_low b \<and> raw_low b \<le> raw_open b \<and> raw_open b \<le> raw_high b
    \<and> raw_low b \<le> raw_close b \<and> raw_close b \<le> raw_high b \<and> raw_low b \<le> raw_last b \<and> raw_last b \<le> raw_high b
    \<and> 0 < raw_volume b \<and> raw_low b \<le> dquot (raw_traded_value b) (dec_of_int (raw_volume b))
    \<and> dquot (raw_traded_value b) (dec_of_int (raw_volume b)) \<le> raw_high b
    \<and> validated_isin_or_none (raw_isin b) = Some (raw_isin b)
    \<and> row_key (udiff_row b) = bar_key b \<and> (\<forall>row. delivery_row b = Some row \<longrightarrow> row_key row = bar_key b)
    \<and> (\<forall>q p. delivery_quantity b = Some q \<and> delivery_percent b = Some p \<and> raw_volume b \<le> 10 ^ 20 \<longrightarrow>
        0 \<le> q \<and> q \<le> raw_volume b \<and> 0 \<le> dval p \<and> dval p \<le> 100
        \<and> 2 * \<bar>dval p - dval (dquot (dec_of_int 100 * dec_of_int q) (dec_of_int (raw_volume b)))\<bar> \<le> 1 / 100)
    \<and> (delivery_quantity b \<noteq> None \<longleftrightarrow> delivery_percent b \<noteq> None) \<and> verify_raw_bar b = Inr ()"
proof -
  note m = mk_raw_bar_Inr [OF assms]
  have g: "validated_isin_or_none (raw_isin b) = Some (raw_isin b)" "0 < dval (raw_low b)" "0 < raw_volume b"
    "\<not> raw_high b < max3 (raw_open b) (raw_low b) (raw_close b) (raw_last b)"
    "\<not> min3 (raw_open b) (raw_high b) (raw_close b) (raw_last b) < raw_low b"
    "raw_low b \<le> dquot (raw_traded_value b) (dec_of_int (raw_volume b))"
    "dquot (raw_traded_value b) (dec_of_int (raw_volume b)) \<le> raw_high b"
    using m(1) by (auto simp: raw_bar_guards_def raw_positive_def Let_def le_iff_dval)
  have row: "\<forall>row. delivery_row b = Some row \<longrightarrow> row_key row = bar_key b"
    "delivery_quantity b \<noteq> None \<longleftrightarrow> delivery_percent b \<noteq> None"
    using m(2) by (auto simp: delivery_check_def guards_Inr_iff split: option.splits)
  have percent: "0 \<le> q \<and> q \<le> raw_volume b \<and> (\<exists>x. expected_percent q (raw_volume b) = Inr x \<and> dval p = dval x)"
    if "delivery_quantity b = Some q" "delivery_percent b = Some p" for q p
    using m(2) that by (auto simp: delivery_check_def guards_Inr_iff res_simps deq_iff_dval split: option.splits)
  have "0 \<le> q \<and> q \<le> raw_volume b \<and> 0 \<le> dval p \<and> dval p \<le> 100
        \<and> 2 * \<bar>dval p - dval (dquot (dec_of_int 100 * dec_of_int q) (dec_of_int (raw_volume b)))\<bar> \<le> 1 / 100"
    if "delivery_quantity b = Some q" "delivery_percent b = Some p" "raw_volume b \<le> 10 ^ 20" for q p
  proof -
    note d = percent [OF that(1,2)] and small = that(3)
    obtain x where x: "0 \<le> q" "q \<le> raw_volume b" "expected_percent q (raw_volume b) = Inr x" "dval p = dval x"
      using d by blast
    show ?thesis using expected_percent_bounds [OF x(1,2) g(3) small x(3)] x by simp
  qed
  then show ?thesis
    using g row m(3,5) by (auto simp: max3_def min3_def le_iff_dval less_iff_dval dval_py_max dval_py_min)
qed

section \<open>Witnesses\<close>

theorem isin_single_digit_error_witness:
  "validated_isin_or_none ''INE467B01029'' = Some ''INE467B01029'' \<and> validated_isin_or_none ''INE467B01028'' = None"
proof -
  have v: "validated_isin_or_none ''INE467B01029'' = Some ''INE467B01029''" by code_simp
  have d: "is_digit (''INE467B01029'' ! 11)" "is_digit (CHR ''8'')" by code_simp+
  from isin_single_digit_error [OF v _ d] v show ?thesis by simp
qed

definition demo_row :: "report_family \<Rightarrow> row_ref" where
  "demo_row f = \<lparr>row_report = replicate 64 (CHR ''a''), row_family = f, source_row_number = 2,
     row_sha = replicate 64 (CHR ''b''), row_key = (''TCS'', ''EQ'')\<rparr>"

definition demo_raw :: raw_bar where
  "demo_raw = \<lparr>raw_session = Date 2026 3 2, financial_instrument_id = 11536, raw_isin = ''INE467B01029'',
     raw_symbol = ''TCS'', raw_series = ''EQ'', raw_session_id = ''F1'', instrument_name = ''TCS LTD'',
     raw_open = Dec False 100 0, raw_high = Dec False 110 0, raw_low = Dec False 90 0, raw_close = Dec False 105 0,
     raw_last = Dec False 105 0, previous_close = Dec False 99 0, raw_volume = 1000, raw_traded_value = Dec False 100000 0,
     trade_count = 10, board_lot_quantity = 1, full_average_price = Some (Dec False 100 0), delivery_quantity = Some 500,
     delivery_percent = Some (Dec False 5000 (-2)), raw_knowledge_time = 0, udiff_row = demo_row UDIFF_BHAVCOPY,
     delivery_row = Some (demo_row FULL_BHAVCOPY_DELIVERY), raw_bar_id = []\<rparr>"

lemma demo_average: "dval (dquot (Dec False 100000 0) (dec_of_int 1000)) = 100"
proof -
  have "\<not> dzero (dec_of_int 1000)" by (simp flip: dval_zero_iff)
  then show ?thesis
    using dquot_exact [of "dec_of_int 1000" "dec_of_int 100" "Dec False 100000 0"] of_int_repr [of 100]
    by (simp add: dval_Dec)
qed

lemma demo_percent: "\<exists>p. expected_percent 500 1000 = Inr p \<and> dval p = 50"
proof -
  have nz: "\<not> dzero (dec_of_int 1000)" by (simp flip: dval_zero_iff)
  have prod: "dval (dec_of_int 100 * dec_of_int 500) = 50000"
    using times_exact [OF of_int_repr [of 50000], of "dec_of_int 100" "dec_of_int 500"] by simp
  let ?x = "dquot (dec_of_int 100 * dec_of_int 500) (dec_of_int 1000)"
  have x: "dval ?x = 50"
    using dquot_exact [OF nz of_int_repr, of 50 "dec_of_int 100 * dec_of_int 500"] prod by simp
  have sgn: "\<not> dneg ?x" by (simp add: dquot_def dneg_dquot_raw times_decimal_def dtimes_exact_def dec_of_int_def)
  have "rescale HalfUp (-2) ?x = rescale HalfUp (-2) (Dec False 50 0)"
    using x sgn by (intro rescale_value) (simp_all add: dval_Dec)
  then have "quantize HalfUp (-2) ?x = Inr (Dec False 5000 (-2))"
    by (simp add: quantize_def rescale_def repr_def prec_def Let_def)
  then show ?thesis by (simp add: expected_percent_def dval_Dec power_int_minus)
qed

lemma demo_raw_made: "\<exists>b. mk_raw_bar demo_raw (PyDatetime 0 (Some 0)) = Inr b \<and> delivery_quantity b = Some 500
  \<and> delivery_percent b = Some (Dec False 5000 (-2)) \<and> raw_volume b = 1000"
proof -
  have t: "normalized_upper ''TCS''" "normalized_upper ''EQ''" "normalized_upper ''F1''" by code_simp+
  have v: "validated_isin_or_none ''INE467B01029'' = Some ''INE467B01029''" by code_simp
  have "\<forall>g \<in> set (raw_bar_guards demo_raw). \<not> fst g"
    using demo_average by (simp add: raw_bar_guards_def raw_positive_def demo_raw_def t v max3_def min3_def
        le_iff_dval less_iff_dval dval_py_max dval_py_min dval_Dec Let_def)
  moreover have "delivery_check demo_raw = Inr ()"
    using demo_percent by (auto simp: delivery_check_def demo_raw_def demo_row_def bar_key_def guards_Inr_iff raw_positive_def
        le_iff_dval deq_iff_dval dval_Dec power_int_minus)
  ultimately show ?thesis
    by (simp add: mk_raw_bar_def to_utc_def guards_Inr_iff Let_def bar_key_def) (simp add: demo_raw_def demo_row_def)
qed

theorem raw_bar_consistent_witness:
  "\<exists>b. mk_raw_bar demo_raw (PyDatetime 0 (Some 0)) = Inr b \<and> verify_raw_bar b = Inr () \<and> raw_low b \<le> raw_high b"
proof -
  obtain b :: raw_bar where b: "mk_raw_bar demo_raw (PyDatetime 0 (Some 0)) = Inr b" using demo_raw_made by blast
  from raw_bar_consistent [OF b] b show ?thesis by (auto simp: le_iff_dval)
qed

end
