(* ===== verification/Reference.thy ===== *)
theory Reference
  imports Identity
begin

text \<open>
  References to external records (\<open>reference/models.py\<close>): readiness, \<open>ExternalRecordRef\<close> and its
  \<open>EffectiveExternalRecordRef\<close>, the half-open interval of sessions the record governs.
\<close>

datatype readiness = COLLECTION_ONLY | POINT_IN_TIME_VERIFIED | SYNTHETIC_TEST

fun readiness_name :: "readiness \<Rightarrow> string" where
  "readiness_name COLLECTION_ONLY = ''COLLECTION_ONLY''"
| "readiness_name POINT_IN_TIME_VERIFIED = ''POINT_IN_TIME_VERIFIED''"
| "readiness_name SYNTHETIC_TEST = ''SYNTHETIC_TEST''"

definition require_aware :: "pydatetime \<Rightarrow> bool \<times> py_exc" where
  "require_aware v = (utc_offset v = None, ValueError ''must be timezone-aware'')"

definition require_sha256 :: "string \<Rightarrow> bool \<times> py_exc" where
  "require_sha256 s = (\<not> sha_text s, ValueError ''must be a full lowercase SHA-256 identifier'')"

definition utc_moment :: "pydatetime \<Rightarrow> instant" where
  \<comment> \<open>the instant of a datetime that has been checked to be aware: what comparison looks at\<close>
  "utc_moment v = wall v - (case utc_offset v of None \<Rightarrow> 0 | Some z \<Rightarrow> z)"

record record_ref =
  ref_event_time :: pydatetime
  ref_knowledge_time :: pydatetime
  ref_source :: string
  ref_content_hash :: string
  ref_snapshot :: string

definition record_ref_guards :: "record_ref \<Rightarrow> (bool \<times> py_exc) list" where
  "record_ref_guards r =
     [require_aware (ref_event_time r), require_aware (ref_knowledge_time r),
      (blank (ref_source r), ValueError ''external_record.source is required''),
      require_sha256 (ref_content_hash r), require_sha256 (ref_snapshot r)]"

definition mk_record_ref :: "record_ref \<Rightarrow> record_ref res" where
  "mk_record_ref r = guards (record_ref_guards r) (Inr r)"

definition record_ref_val :: "record_ref \<Rightarrow> pyval" where
  "record_ref_val r = PDataclass ''india_swing.reference.models.ExternalRecordRef''
     [(''event_time'', PDatetime (utc_moment (ref_event_time r))),
      (''knowledge_time'', PDatetime (utc_moment (ref_knowledge_time r))),
      (''source'', PStr (ref_source r)),
      (''content_hash'', PStr (ref_content_hash r)),
      (''source_snapshot_id'', PStr (ref_snapshot r))]"

record effective_ref =
  effective_reference :: record_ref
  effective_from :: date
  effective_to :: "date option"
  effective_schema :: string

definition effective_guards :: "effective_ref \<Rightarrow> (bool \<times> py_exc) list" where
  "effective_guards r =
     [(case effective_to r of None \<Rightarrow> False | Some e \<Rightarrow> e \<le> effective_from r,
         ValueError ''effective record interval must be positive and half-open''),
      (blank (effective_schema r), ValueError ''effective record schema_version is required'')]"

definition mk_effective_ref :: "effective_ref \<Rightarrow> effective_ref res" where
  "mk_effective_ref r = guards (effective_guards r) (Inr r)"

definition is_effective_on :: "effective_ref \<Rightarrow> date \<Rightarrow> bool" where
  "is_effective_on r d = (effective_from r \<le> d \<and> (case effective_to r of None \<Rightarrow> True | Some e \<Rightarrow> d < e))"

lemma effective_start:
  assumes "mk_effective_ref r = Inr r'"
  shows "r' = r" and "is_effective_on r (effective_from r)"
  using assms by (auto simp: mk_effective_ref_def effective_guards_def guards_Inr_iff is_effective_on_def
      split: option.splits)

end
