(* ===== verification/CorporateActions.thy ===== *)
theory CorporateActions
  imports Reference
begin

text \<open>
  Corporate-action events and point-in-time snapshots of them (\<open>corporate_actions/models.py\<close>).

  An event confirms or cancels an action on an instrument; a later event may supersede one earlier event.
  A snapshot is the ledger of the events known at its cutoff, and its constructor runs through them with the set
  of superseded identities (\<open>amend\<close>, folded over the events).  \<open>active_events\<close> are the confirmed events nobody
  superseded.

  The theorems: an accepted snapshot knows nothing after its cutoff and its amendments form chains, and exactly
  the confirmed ends of the chains are active.
\<close>

section \<open>Events\<close>

datatype action_type = SPLIT | BONUS | CASH_DIVIDEND | RIGHTS | MERGER | DEMERGER | SYMBOL_CHANGE | ISIN_CHANGE
  | DELISTING | BUYBACK

datatype action_status = CONFIRMED | CANCELLED

record action_event =
  action_instrument :: string
  action_listing :: "string option"
  action_type_of :: action_type
  status :: action_status
  effective_session :: date
  announcement_time :: instant
  action_knowledge_time :: instant
  source_artifact_id :: string
  source_row_id :: string
  pre_action_shares :: "decimal option"
  post_action_shares :: "decimal option"
  cash_amount_per_share :: "decimal option"
  action_currency :: "string option"
  supersedes :: "string option"
  action_schema :: string
  action_event_id :: string

definition action_err :: "string \<Rightarrow> py_exc" where
  "action_err msg = CorporateActionIntegrityError msg"

definition action_sha :: "string \<Rightarrow> bool \<times> py_exc" where
  "action_sha s = (\<not> sha_text s, action_err ''must be a full lowercase SHA-256'')"

definition opt_sha :: "string option \<Rightarrow> bool \<times> py_exc" where
  \<comment> \<open>checked when it is not \<open>None\<close>\<close>
  "opt_sha x = (case x of None \<Rightarrow> False | Some s \<Rightarrow> \<not> sha_text s, action_err ''must be a full lowercase SHA-256'')"

definition positive_terms :: "decimal option \<Rightarrow> bool \<times> py_exc" where
  \<comment> \<open>\<open>_positive_decimal\<close>\<close>
  "positive_terms x = (case x of None \<Rightarrow> True | Some v \<Rightarrow> v \<le> 0, action_err ''must be a positive Decimal'')"

definition no_terms :: "action_event \<Rightarrow> bool" where
  "no_terms e = (pre_action_shares e = None \<and> post_action_shares e = None \<and> cash_amount_per_share e = None
     \<and> action_currency e = None)"

definition share_action :: "action_type \<Rightarrow> bool" where
  "share_action t = (t \<in> {SPLIT, BONUS})"

definition terms_guards :: "action_event \<Rightarrow> (bool \<times> py_exc) list" where
  "terms_guards e = (if status e = CANCELLED then
       [(supersedes e = None, action_err ''a cancellation must supersede an earlier corporate-action event''),
        (\<not> no_terms e, action_err ''a cancellation must not repeat superseded economic terms'')]
     else if share_action (action_type_of e) then
       [positive_terms (pre_action_shares e), positive_terms (post_action_shares e),
        (case (pre_action_shares e, post_action_shares e) of (Some a, Some b) \<Rightarrow> deq a b | _ \<Rightarrow> False,
           action_err ''share action must change the outstanding share ratio''),
        (cash_amount_per_share e \<noteq> None \<or> action_currency e \<noteq> None,
           action_err ''split and bonus events cannot carry cash terms'')]
     else if action_type_of e = CASH_DIVIDEND then
       [positive_terms (cash_amount_per_share e),
        (action_currency e \<noteq> Some ''INR'', action_err ''cash dividends currently require canonical INR terms''),
        (pre_action_shares e \<noteq> None \<or> post_action_shares e \<noteq> None,
           action_err ''cash dividends cannot carry share-ratio terms'')]
     else
       [(\<not> no_terms e, action_err ''complex actions require a future action-specific terms contract'')])"

definition action_guards :: "action_event \<Rightarrow> (bool \<times> py_exc) list" where
  \<comment> \<open>the checks after the two times are normalised\<close>
  "action_guards e =
     [(action_knowledge_time e < announcement_time e,
         action_err ''corporate action cannot be known before its announcement''),
      action_sha (source_artifact_id e), action_sha (source_row_id e), opt_sha (supersedes e)]
     @ terms_guards e
     @ [(action_schema e \<noteq> ''corporate-action-event/v1'', action_err ''unsupported corporate-action event schema'')]"

fun action_name :: "action_type \<Rightarrow> string" where
  "action_name SPLIT = ''SPLIT''"
| "action_name BONUS = ''BONUS''"
| "action_name CASH_DIVIDEND = ''CASH_DIVIDEND''"
| "action_name RIGHTS = ''RIGHTS''"
| "action_name MERGER = ''MERGER''"
| "action_name DEMERGER = ''DEMERGER''"
| "action_name SYMBOL_CHANGE = ''SYMBOL_CHANGE''"
| "action_name ISIN_CHANGE = ''ISIN_CHANGE''"
| "action_name DELISTING = ''DELISTING''"
| "action_name BUYBACK = ''BUYBACK''"

fun status_name :: "action_status \<Rightarrow> string" where
  "status_name CONFIRMED = ''CONFIRMED''"
| "status_name CANCELLED = ''CANCELLED''"

definition action_enum :: "string \<Rightarrow> string \<Rightarrow> pyval" where
  "action_enum cls name = PEnum (''india_swing.corporate_actions.models.'' @ cls) (PStr name)"

definition action_material :: "action_event \<Rightarrow> (string \<times> pyval) list" where
  "action_material e =
     [(''schema_version'', PStr (action_schema e)),
      (''stable_instrument_id'', PStr (action_instrument e)),
      (''stable_listing_id'', popt PStr (action_listing e)),
      (''action_type'', action_enum ''CorporateActionType'' (action_name (action_type_of e))),
      (''status'', action_enum ''CorporateActionStatus'' (status_name (status e))),
      (''effective_session'', PDate (effective_session e)),
      (''announcement_time'', PDatetime (announcement_time e)),
      (''knowledge_time'', PDatetime (action_knowledge_time e)),
      (''source_artifact_id'', PStr (source_artifact_id e)),
      (''source_row_id'', PStr (source_row_id e)),
      (''pre_action_shares'', popt PDecimal (pre_action_shares e)),
      (''post_action_shares'', popt PDecimal (post_action_shares e)),
      (''cash_amount_per_share'', popt PDecimal (cash_amount_per_share e)),
      (''currency'', popt PStr (action_currency e)),
      (''supersedes_event_id'', popt PStr (supersedes e))]"

definition action_utc :: "pydatetime \<Rightarrow> instant res" where
  "action_utc v = (case to_utc v of None \<Rightarrow> Inl (action_err ''must be timezone-aware'') | Some t \<Rightarrow> Inr t)"

definition mk_action_event :: "action_event \<Rightarrow> pydatetime \<Rightarrow> pydatetime \<Rightarrow> action_event res" where
  "mk_action_event e0 announced known = guards [action_sha (action_instrument e0), opt_sha (action_listing e0)]
     (bindE (action_utc announced) (\<lambda>a. bindE (action_utc known) (\<lambda>k.
        let e = e0\<lparr>announcement_time := a, action_knowledge_time := k\<rparr> in
        guards (action_guards e) (Inr (e\<lparr>action_event_id := fields_id (action_material e)\<rparr>)))))"

definition action_broken :: "action_event \<Rightarrow> bool \<times> py_exc" where
  \<comment> \<open>\<open>verify_content_identity\<close> as a guard\<close>
  "action_broken e = (action_event_id e \<noteq> fields_id (action_material e),
     action_err ''corporate-action event content identity failed'')"

definition automatic_raw_price_factor :: "action_event \<Rightarrow> decimal option" where
  "automatic_raw_price_factor e = (if status e \<noteq> CONFIRMED \<or> \<not> share_action (action_type_of e) then None
     else (case (pre_action_shares e, post_action_shares e) of
        (Some a, Some b) \<Rightarrow> Some (dquot a b) | _ \<Rightarrow> None))"

section \<open>Snapshots\<close>

record action_snapshot =
  snapshot_cutoff :: instant
  coverage_start :: date
  coverage_end :: date
  source_artifact_ids :: "string list"
  snapshot_events :: "action_event list"
  readiness_of :: readiness
  complete :: bool
  actionable :: bool
  reason_codes :: "string list"
  snapshot_policy :: string
  snapshot_schema :: string
  snapshot_id :: string

definition event_key :: "action_event \<Rightarrow> int \<times> date \<times> string" where
  "event_key e = (action_knowledge_time e, effective_session e, action_event_id e)"

definition reason_code :: "string \<Rightarrow> bool" where
  \<comment> \<open>the regular expression \<open>[A-Z][A-Z0-9_]{2,127}\<close>, matched in full\<close>
  "reason_code s = (3 \<le> length s \<and> length s \<le> 128 \<and> hd s \<in> set ''ABCDEFGHIJKLMNOPQRSTUVWXYZ''
     \<and> list_all (\<lambda>c. c \<in> set ''ABCDEFGHIJKLMNOPQRSTUVWXYZ0123456789_'') s)"

definition event_by_id :: "action_event list \<Rightarrow> string \<Rightarrow> action_event option" where
  \<comment> \<open>\<open>by_id.get\<close>; the identities are distinct\<close>
  "event_by_id es i = List.find (\<lambda>e. action_event_id e = i) es"

definition amend_guards :: "action_snapshot \<Rightarrow> string list \<Rightarrow> action_event \<Rightarrow> (bool \<times> py_exc) list" where
  "amend_guards s superseded e =
     [action_broken e,
      (snapshot_cutoff s < action_knowledge_time e,
         action_err ''snapshot contains corporate-action evidence known after its cutoff''),
      (source_artifact_id e \<notin> set (source_artifact_ids s),
         action_err ''corporate-action event source is absent from snapshot lineage''),
      (\<not> (coverage_start s \<le> effective_session e \<and> effective_session e \<le> coverage_end s),
         action_err ''corporate-action event lies outside snapshot coverage'')]
     @ (case supersedes e of None \<Rightarrow> []
        | Some i \<Rightarrow> (case event_by_id (snapshot_events s) i of
            None \<Rightarrow> [(True, action_err ''corporate-action amendment target is absent'')]
          | Some old \<Rightarrow>
             [(action_knowledge_time e \<le> action_knowledge_time old \<or> action_instrument old \<noteq> action_instrument e,
                 action_err ''corporate-action amendment lineage is inconsistent''),
              (action_event_id old \<in> set superseded,
                 action_err ''one corporate-action event cannot have competing amendments'')]))"

definition amend :: "action_snapshot \<Rightarrow> string list \<Rightarrow> action_event \<Rightarrow> string list res" where
  "amend s superseded e = guards (amend_guards s superseded e) (Inr (case supersedes e of None \<Rightarrow> superseded
     | Some i \<Rightarrow> superseded @ [i]))"

definition ledger_guards :: "action_snapshot \<Rightarrow> (bool \<times> py_exc) list" where
  "ledger_guards s =
     [(coverage_end s < coverage_start s, action_err ''corporate-action coverage interval must be positive''),
      (source_artifact_ids s = [] \<or> \<not> sorted_unique (source_artifact_ids s),
         action_err ''source artifact IDs must be non-empty, sorted, and unique'')]
     @ map action_sha (source_artifact_ids s)
     @ [(snapshot_events s \<noteq> sort_key event_key (snapshot_events s),
           action_err ''corporate-action events must be exact and knowledge-time ordered''),
        (\<not> distinct (map action_event_id (snapshot_events s)), action_err ''corporate-action event IDs must be unique'')]"

definition status_guards :: "action_snapshot \<Rightarrow> (bool \<times> py_exc) list" where
  "status_guards s =
     [(\<not> sorted_unique (reason_codes s), action_err ''reason codes must be sorted and unique''),
      (\<not> list_all reason_code (reason_codes s), action_err ''corporate-action reason code is invalid''),
      (actionable s \<and> (\<not> complete s \<or> reason_codes s \<noteq> [] \<or> readiness_of s = COLLECTION_ONLY),
         action_err ''actionable corporate actions must be complete, unblocked, and verified''),
      (\<not> actionable s \<and> reason_codes s = [],
         action_err ''non-actionable corporate-action snapshots require reason codes''),
      (snapshot_policy s \<noteq> ''point-in-time-announcement-ledger/v1'' \<or> snapshot_schema s \<noteq> ''corporate-action-snapshot/v1'',
         action_err ''unsupported corporate-action snapshot contract'')]"

definition action_val :: "action_event \<Rightarrow> pyval" where
  "action_val e = PDataclass ''india_swing.corporate_actions.models.CorporateActionEvent''
     (action_material e @ [(''event_id'', PStr (action_event_id e))])"

definition snapshot_material :: "action_snapshot \<Rightarrow> (string \<times> pyval) list" where
  "snapshot_material s =
     [(''schema_version'', PStr (snapshot_schema s)),
      (''policy_version'', PStr (snapshot_policy s)),
      (''cutoff'', PDatetime (snapshot_cutoff s)),
      (''coverage_start'', PDate (coverage_start s)),
      (''coverage_end'', PDate (coverage_end s)),
      (''source_artifact_ids'', PTuple (map PStr (source_artifact_ids s))),
      (''events'', PTuple (map action_val (snapshot_events s))),
      (''readiness'', PEnum ''india_swing.reference.models.ReferenceReadiness'' (PStr (readiness_name (readiness_of s)))),
      (''complete'', PBool (complete s)),
      (''actionable'', PBool (actionable s)),
      (''reason_codes'', PTuple (map PStr (reason_codes s)))]"

definition mk_action_snapshot :: "action_snapshot \<Rightarrow> pydatetime \<Rightarrow> action_snapshot res" where
  "mk_action_snapshot s0 moment = bindE (action_utc moment) (\<lambda>t. let s = s0\<lparr>snapshot_cutoff := t\<rparr> in
     guards (ledger_guards s) (bindE (foldE (amend s) [] (snapshot_events s)) (\<lambda>_.
     guards (status_guards s) (Inr (s\<lparr>snapshot_id := fields_id (snapshot_material s)\<rparr>)))))"

definition verify_action_snapshot :: "action_snapshot \<Rightarrow> unit res" where
  "verify_action_snapshot s = guards (map action_broken (snapshot_events s)) (guards
     [(snapshot_id s \<noteq> fields_id (snapshot_material s), action_err ''corporate-action snapshot content identity failed'')]
     (Inr ()))"

definition superseded_ids :: "action_event list \<Rightarrow> string list" where
  "superseded_ids es = concat (map (\<lambda>e. case supersedes e of None \<Rightarrow> [] | Some i \<Rightarrow> [i]) es)"

definition active_events :: "action_snapshot \<Rightarrow> action_event list" where
  "active_events s = filter (\<lambda>e. action_event_id e \<notin> set (superseded_ids (snapshot_events s)) \<and> status e = CONFIRMED)
     (snapshot_events s)"

definition effective_events_on :: "action_snapshot \<Rightarrow> date \<Rightarrow> action_event list" where
  "effective_events_on s d = filter (\<lambda>e. effective_session e = d) (active_events s)"

section \<open>The ledger\<close>

lemma set_superseded_ids: "i \<in> set (superseded_ids es) \<longleftrightarrow> (\<exists>e \<in> set es. supersedes e = Some i)"
  by (auto simp: superseded_ids_def split: option.splits intro: sym)

definition sound_event :: "action_snapshot \<Rightarrow> action_event \<Rightarrow> bool" where
  "sound_event s e = (\<not> fst (action_broken e) \<and> action_knowledge_time e \<le> snapshot_cutoff s
     \<and> source_artifact_id e \<in> set (source_artifact_ids s)
     \<and> coverage_start s \<le> effective_session e \<and> effective_session e \<le> coverage_end s
     \<and> (\<forall>i. supersedes e = Some i \<longrightarrow> (\<exists>old \<in> set (snapshot_events s). action_event_id old = i
          \<and> action_knowledge_time old < action_knowledge_time e \<and> action_instrument old = action_instrument e)))"

lemma amend_Inr:
  assumes "amend s gone e = Inr late"
  shows "sound_event s e" "late = gone @ superseded_ids [e]" "set gone \<inter> set (superseded_ids [e]) = {}"
proof -
  have g: "\<forall>g \<in> set (amend_guards s gone e). \<not> fst g" and s': "late = gone @ superseded_ids [e]"
    using assms by (auto simp: amend_def guards_Inr_iff superseded_ids_def split: option.splits)
  show "late = gone @ superseded_ids [e]" by (rule s')
  have basic: "\<not> fst (action_broken e)" "action_knowledge_time e \<le> snapshot_cutoff s"
    "source_artifact_id e \<in> set (source_artifact_ids s)" "coverage_start s \<le> effective_session e"
    "effective_session e \<le> coverage_end s"
    using g by (auto simp: amend_guards_def)
  have target: "(\<exists>old \<in> set (snapshot_events s). action_event_id old = i \<and> action_knowledge_time old < action_knowledge_time e
      \<and> action_instrument old = action_instrument e) \<and> i \<notin> set gone" if i: "supersedes e = Some i" for i
  proof (cases "event_by_id (snapshot_events s) i")
    case (Some old)
    then have "old \<in> set (snapshot_events s)" "action_event_id old = i" by (auto simp: event_by_id_def find_Some_iff)
    moreover have "action_knowledge_time old < action_knowledge_time e" "action_instrument old = action_instrument e"
      "action_event_id old \<notin> set gone"
      using g i Some by (auto simp: amend_guards_def)
    ultimately show ?thesis by blast
  qed (use g i in \<open>auto simp: amend_guards_def\<close>)
  then show "sound_event s e" using basic by (auto simp: sound_event_def)
  show "set gone \<inter> set (superseded_ids [e]) = {}" using target by (auto simp: set_superseded_ids)
qed

lemma amend_distinct: "distinct gone \<Longrightarrow> amend s gone e = Inr late \<Longrightarrow> distinct late"
  using amend_Inr(2,3) [of s gone e late] by (auto simp: superseded_ids_def split: option.splits)

interpretation amending: guarded_machine "amend s" distinct for s
  by unfold_locales (rule amend_distinct)

lemma amend_all:
  "foldE (amend s) gone es = Inr late \<Longrightarrow> list_all (sound_event s) es \<and> late = gone @ superseded_ids es"
proof (induction es arbitrary: gone)
  case (Cons e es)
  then obtain mid where s1: "amend s gone e = Inr mid" "foldE (amend s) mid es = Inr late" by (auto simp: res_simps)
  then show ?case using Cons.IH [OF s1(2)] amend_Inr [OF s1(1)] by (simp add: superseded_ids_def)
qed (simp add: superseded_ids_def)

definition amends :: "action_snapshot \<Rightarrow> (action_event \<times> action_event) set" where
  \<comment> \<open>the newer event supersedes the older one\<close>
  "amends s = {(e, old). e \<in> set (snapshot_events s) \<and> old \<in> set (snapshot_events s)
     \<and> supersedes e = Some (action_event_id old)}"

definition ledger_ok :: "action_snapshot \<Rightarrow> bool" where
  "ledger_ok s = (list_all (sound_event s) (snapshot_events s) \<and> distinct (superseded_ids (snapshot_events s))
     \<and> distinct (map action_event_id (snapshot_events s)))"

lemma mk_action_snapshot_Inr:
  assumes "mk_action_snapshot s0 moment = Inr s"
  shows "ledger_ok s" "verify_action_snapshot s = Inr ()" "\<forall>g \<in> set (status_guards s). \<not> fst g"
    "\<forall>g \<in> set (ledger_guards s). \<not> fst g"
proof -
  have same: "sound_event (q\<lparr>snapshot_id := i\<rparr>) = sound_event q" "amend (q\<lparr>snapshot_id := i\<rparr>) = amend q"
    "ledger_guards (q\<lparr>snapshot_id := i\<rparr>) = ledger_guards q" "status_guards (q\<lparr>snapshot_id := i\<rparr>) = status_guards q"
    "snapshot_material (q\<lparr>snapshot_id := i\<rparr>) = snapshot_material q" for q :: action_snapshot and i
    by (simp_all add: fun_eq_iff sound_event_def amend_def amend_guards_def ledger_guards_def status_guards_def
        snapshot_material_def cong: option.case_cong)
  obtain t where t: "to_utc moment = Some t"
    using assms by (auto simp: mk_action_snapshot_def action_utc_def split: option.splits)
  define s1 where "s1 = s0\<lparr>snapshot_cutoff := t\<rparr>"
  obtain gone where g: "\<forall>g \<in> set (ledger_guards s1). \<not> fst g" "foldE (amend s1) [] (snapshot_events s1) = Inr gone"
    "\<forall>g \<in> set (status_guards s1). \<not> fst g" and s: "s = s1\<lparr>snapshot_id := fields_id (snapshot_material s1)\<rparr>"
    using assms t by (auto simp: mk_action_snapshot_def action_utc_def guards_Inr_iff res_simps Let_def s1_def)
  have ev: "snapshot_events s = snapshot_events s1" by (simp add: s)
  have "distinct gone" using amending.run_inv [OF _ g(2)] by simp
  then show l: "ledger_ok s"
    using amend_all [OF g(2)] g(1) unfolding ledger_ok_def ev by (simp add: s same ledger_guards_def)
  show "\<forall>g \<in> set (status_guards s). \<not> fst g" "\<forall>g \<in> set (ledger_guards s). \<not> fst g" using g by (simp_all add: s same)
  have "\<forall>e \<in> set (snapshot_events s). \<not> fst (action_broken e)"
    using l by (auto simp: ledger_ok_def list_all_iff sound_event_def)
  then show "verify_action_snapshot s = Inr ()"
    by (simp add: verify_action_snapshot_def guards_Inr_iff) (simp add: s same)
qed

lemma amends_sound:
  assumes "ledger_ok s" and "(e, old) \<in> amends s"
  shows "action_knowledge_time old < action_knowledge_time e" "action_instrument old = action_instrument e"
proof -
  have e: "e \<in> set (snapshot_events s)" "old \<in> set (snapshot_events s)" "supersedes e = Some (action_event_id old)"
    using assms(2) by (auto simp: amends_def)
  then obtain x where x: "x \<in> set (snapshot_events s)" "action_event_id x = action_event_id old"
      "action_knowledge_time x < action_knowledge_time e" "action_instrument x = action_instrument e"
    using assms(1) by (auto simp: ledger_ok_def list_all_iff sound_event_def)
  have "x = old" using assms(1) x(1,2) e(2) by (auto simp: ledger_ok_def distinct_map inj_on_def)
  with x show "action_knowledge_time old < action_knowledge_time e" "action_instrument old = action_instrument e" by simp_all
qed

lemma amends_trancl:
  assumes "ledger_ok s" and "(e, old) \<in> (amends s)\<^sup>+"
  shows "action_knowledge_time old < action_knowledge_time e \<and> action_instrument old = action_instrument e"
  using assms(2)
proof (induction rule: trancl_induct)
  case (base y)
  then show ?case using amends_sound [OF assms(1)] by blast
next
  case (step y z)
  then show ?case using amends_sound [OF assms(1) step.hyps(2)] by simp
qed

lemma distinct_concat_once:
  "distinct (concat (map f xs)) \<Longrightarrow> x \<in> set xs \<Longrightarrow> y \<in> set xs \<Longrightarrow> i \<in> set (f x) \<Longrightarrow> i \<in> set (f y) \<Longrightarrow> x = y"
  by (induction xs) auto

lemma amender_unique:
  assumes "ledger_ok s" and "(e, old) \<in> amends s" and "(e', old) \<in> amends s"
  shows "e = e'"
proof -
  have "distinct (superseded_ids (snapshot_events s))" using assms(1) by (simp add: ledger_ok_def)
  moreover have "e \<in> set (snapshot_events s)" "e' \<in> set (snapshot_events s)"
    "supersedes e = Some (action_event_id old)" "supersedes e' = Some (action_event_id old)"
    using assms(2,3) by (auto simp: amends_def)
  ultimately show ?thesis
    unfolding superseded_ids_def by (elim distinct_concat_once [where i = "action_event_id old"]) simp_all
qed

definition latest_amendment :: "action_snapshot \<Rightarrow> action_event \<Rightarrow> action_event \<Rightarrow> bool" where
  \<comment> \<open>the newest event of the chain of amendments over this event\<close>
  "latest_amendment s e h = ((h, e) \<in> (amends s)\<^sup>* \<and> h \<in> set (snapshot_events s) \<and> (\<forall>x. (x, h) \<notin> amends s))"

lemma latest_exists:
  assumes ok: "ledger_ok s"
  shows "e \<in> set (snapshot_events s) \<Longrightarrow> \<exists>h. latest_amendment s e h"
proof (induction "card {x \<in> set (snapshot_events s). action_knowledge_time e < action_knowledge_time x}"
    arbitrary: e rule: less_induct)
  case less
  show ?case
  proof (cases "\<exists>x. (x, e) \<in> amends s")
    case False
    then show ?thesis using less.prems by (auto simp: latest_amendment_def)
  next
    case True
    then obtain x where x: "(x, e) \<in> amends s" by blast
    then have mem: "x \<in> set (snapshot_events s)" by (simp add: amends_def)
    have lt: "action_knowledge_time e < action_knowledge_time x" by (rule amends_sound [OF ok x])
    then have "{y \<in> set (snapshot_events s). action_knowledge_time x < action_knowledge_time y}
        \<subset> {y \<in> set (snapshot_events s). action_knowledge_time e < action_knowledge_time y}"
      using mem by auto
    then have "card {y \<in> set (snapshot_events s). action_knowledge_time x < action_knowledge_time y}
        < card {y \<in> set (snapshot_events s). action_knowledge_time e < action_knowledge_time y}"
      by (intro psubset_card_mono) auto
    from less.hyps [OF this mem] obtain h where "latest_amendment s x h" by blast
    then have "latest_amendment s e h" using x by (auto simp: latest_amendment_def intro: rtrancl_into_rtrancl)
    then show ?thesis by blast
  qed
qed

lemma latest_unique:
  assumes ok: "ledger_ok s" and "latest_amendment s e h" and "latest_amendment s e h'"
  shows "h = h'"
proof -
  have *: "latest_amendment s e h' \<longrightarrow> latest_amendment s x h'" if "(x, e) \<in> (amends s)\<^sup>*" for x
    using that
  proof (induction rule: converse_rtrancl_induct)
    case (step y z)
    show ?case
    proof
      assume "latest_amendment s e h'"
      then have z: "latest_amendment s z h'" using step.IH by blast
      then have "(h', z) \<in> (amends s)\<^sup>*" by (simp add: latest_amendment_def)
      then show "latest_amendment s y h'"
      proof (cases rule: rtranclE)
        case base
        then show ?thesis using z step.hyps(1) by (auto simp: latest_amendment_def)
      next
        case (step w)
        then have "w = y" using amender_unique [OF ok] \<open>(y, z) \<in> amends s\<close> by blast
        then show ?thesis using step(1) z by (simp add: latest_amendment_def)
      qed
    qed
  qed simp
  have "(h, e) \<in> (amends s)\<^sup>*" using assms(2) by (simp add: latest_amendment_def)
  then have "latest_amendment s h h'" using * assms(3) by blast
  then have "(h', h) \<in> (amends s)\<^sup>*" by (simp add: latest_amendment_def)
  then show ?thesis using assms(2) by (cases rule: rtranclE) (auto simp: latest_amendment_def)
qed

lemma active_iff:
  assumes "ledger_ok s"
  shows "h \<in> set (active_events s) \<longleftrightarrow> h \<in> set (snapshot_events s) \<and> (\<forall>x. (x, h) \<notin> amends s) \<and> status h = CONFIRMED"
  by (auto simp: active_events_def set_superseded_ids amends_def)

text \<open>C38: An accepted snapshot is a point-in-time ledger: nothing in it was known after its cutoff
  or lies outside its coverage, an amendment is newer than what it supersedes and on the same
  instrument, no event has two amendments, every event has exactly one latest amendment, and the
  active events are exactly the latest amendments that are confirmed, so one chain never yields two active events.\<close>

theorem snapshot_ledger:
  assumes "mk_action_snapshot s0 moment = Inr s"
  shows "list_all (\<lambda>e. action_knowledge_time e \<le> snapshot_cutoff s \<and> coverage_start s \<le> effective_session e
        \<and> effective_session e \<le> coverage_end s) (snapshot_events s)
    \<and> (\<forall>e old. (e, old) \<in> (amends s)\<^sup>+ \<longrightarrow>
        action_knowledge_time old < action_knowledge_time e \<and> action_instrument old = action_instrument e)
    \<and> (\<forall>e \<in> set (snapshot_events s). \<exists>!h. latest_amendment s e h)
    \<and> set (active_events s) = {h. status h = CONFIRMED \<and> (\<exists>e \<in> set (snapshot_events s). latest_amendment s e h)}
    \<and> verify_action_snapshot s = Inr ()"
proof -
  note ok = mk_action_snapshot_Inr(1,2) [OF assms]
  have "set (active_events s) = {h. status h = CONFIRMED \<and> (\<exists>e \<in> set (snapshot_events s). latest_amendment s e h)}"
    using active_iff [OF ok(1)] by (fastforce simp: latest_amendment_def)
  moreover have "\<forall>e \<in> set (snapshot_events s). \<exists>!h. latest_amendment s e h"
    using latest_exists [OF ok(1)] latest_unique [OF ok(1)] by blast
  moreover have "list_all (\<lambda>e. action_knowledge_time e \<le> snapshot_cutoff s \<and> coverage_start s \<le> effective_session e
        \<and> effective_session e \<le> coverage_end s) (snapshot_events s)"
    using ok(1) by (auto simp: ledger_ok_def list_all_iff sound_event_def)
  ultimately show ?thesis using amends_trancl [OF ok(1)] ok(2) by blast
qed

section \<open>Witnesses\<close>

definition demo_id :: "char \<Rightarrow> string" where
  "demo_id c = replicate 64 c"

definition demo_split :: "decimal \<Rightarrow> decimal \<Rightarrow> action_event" where
  "demo_split a b = (let e = \<lparr>action_instrument = demo_id (CHR ''a''), action_listing = None, action_type_of = SPLIT,
     status = CONFIRMED, effective_session = Date 2026 3 10, announcement_time = 0, action_knowledge_time = 1,
     source_artifact_id = demo_id (CHR ''c''), source_row_id = demo_id (CHR ''d''), pre_action_shares = Some a,
     post_action_shares = Some b, cash_amount_per_share = None, action_currency = None, supersedes = None,
     action_schema = ''corporate-action-event/v1'', action_event_id = []\<rparr>
     in e\<lparr>action_event_id := fields_id (action_material e)\<rparr>)"

definition demo_ledger :: "action_event list \<Rightarrow> action_snapshot" where
  "demo_ledger es = \<lparr>snapshot_cutoff = 5, coverage_start = Date 2026 1 1, coverage_end = Date 2026 12 31,
     source_artifact_ids = [demo_id (CHR ''c'')], snapshot_events = es, readiness_of = POINT_IN_TIME_VERIFIED,
     complete = True, actionable = True, reason_codes = [], snapshot_policy = ''point-in-time-announcement-ledger/v1'',
     snapshot_schema = ''corporate-action-snapshot/v1'', snapshot_id = []\<rparr>"

definition sealed_ledger :: "action_event list \<Rightarrow> action_snapshot" where
  "sealed_ledger es = (demo_ledger es)\<lparr>snapshot_id := fields_id (snapshot_material (demo_ledger es))\<rparr>"

lemma demo_split_fields [simp]:
  "action_instrument (demo_split a b) = demo_id (CHR ''a'')" "action_listing (demo_split a b) = None"
  "action_type_of (demo_split a b) = SPLIT" "status (demo_split a b) = CONFIRMED"
  "effective_session (demo_split a b) = Date 2026 3 10" "action_knowledge_time (demo_split a b) = 1"
  "source_artifact_id (demo_split a b) = demo_id (CHR ''c'')" "supersedes (demo_split a b) = None"
  "pre_action_shares (demo_split a b) = Some a" "post_action_shares (demo_split a b) = Some b"
  "\<not> fst (action_broken (demo_split a b))" "sha_text (action_event_id (demo_split a b))"
  by (simp_all add: demo_split_def action_broken_def action_material_def Let_def)

lemma demo_ledger_fields [simp]:
  "snapshot_events (sealed_ledger es) = es" "snapshot_cutoff (sealed_ledger es) = 5" "complete (sealed_ledger es)"
  "actionable (sealed_ledger es)" "readiness_of (sealed_ledger es) = POINT_IN_TIME_VERIFIED"
  "coverage_start (sealed_ledger es) = Date 2026 1 1" "coverage_end (sealed_ledger es) = Date 2026 12 31"
  by (simp_all add: sealed_ledger_def demo_ledger_def)

lemma demo_snapshot: "mk_action_snapshot (demo_ledger [demo_split a b]) (PyDatetime 5 (Some 0)) = Inr (sealed_ledger [demo_split a b])"
proof -
  have sha: "sha_text (demo_id (CHR ''c''))" by (simp add: sha_text_def demo_id_def)
  have t: "(demo_ledger es)\<lparr>snapshot_cutoff := 5\<rparr> = demo_ledger es" for es by (simp add: demo_ledger_def)
  have "\<forall>g \<in> set (ledger_guards (demo_ledger [demo_split a b])). \<not> fst g"
    "\<forall>g \<in> set (status_guards (demo_ledger [demo_split a b])). \<not> fst g"
    using sha by (simp_all add: ledger_guards_def status_guards_def demo_ledger_def action_sha_def sorted_unique_def)
  moreover have "foldE (amend (demo_ledger [demo_split a b])) [] (snapshot_events (demo_ledger [demo_split a b])) = Inr []"
    by (simp add: amend_def amend_guards_def guards_Inr_iff res_simps demo_ledger_def)
  ultimately show ?thesis
    by (simp add: mk_action_snapshot_def action_utc_def to_utc_def t guards_Inr_iff sealed_ledger_def Let_def)
qed

theorem snapshot_ledger_witness:
  "\<exists>!h. latest_amendment (sealed_ledger [demo_split 1 (dec_of_int 5)]) (demo_split 1 (dec_of_int 5)) h"
  using snapshot_ledger [OF demo_snapshot [of 1 "dec_of_int 5"]] by simp

end
