(* ===== verification/Adjustments.thy ===== *)
theory Adjustments
  imports RawBars CorporateActions
begin

text \<open>
  Corporate-action adjusted price histories (\<open>corporate_actions/adjustments.py\<close>).

  \<open>build_adjusted_history\<close> multiplies the prices of every raw bar by the factor of the splits and bonuses that
  take effect after it, as one snapshot knew them, and its volume by the reciprocal.  The constructor of an
  adjusted bar insists that the product of the two factors is exactly one.

  The theorems: what the factors of a session are, that a built history uses no evidence from after its cutoff
  and leaves the last bar as it was, and that the exact-reciprocal check cannot be met by a one-to-three action,
  whose factor has no finite decimal expansion: such a history is always rejected.
\<close>

section \<open>Bindings\<close>

definition adj_err :: "string \<Rightarrow> py_exc" where
  "adj_err msg = PriceAdjustmentError msg"

definition adj_sha :: "string \<Rightarrow> bool \<times> py_exc" where
  "adj_sha s = (\<not> sha_text s, adj_err ''must be a lowercase SHA-256'')"

definition adj_positive :: "decimal \<Rightarrow> bool \<times> py_exc" where
  "adj_positive v = (v \<le> 0, adj_err ''must be positive'')"

definition adj_utc :: "pydatetime \<Rightarrow> instant res" where
  "adj_utc v = (case to_utc v of None \<Rightarrow> Inl (adj_err ''must be timezone-aware'') | Some t \<Rightarrow> Inr t)"

record bar_binding =
  bound_session :: date
  bound_bar_id :: string
  bound_instrument :: string
  bound_listing :: string
  identity_snapshot_id :: string
  binding_knowledge_time :: instant
  binding_id :: string

definition binding_material :: "bar_binding \<Rightarrow> (string \<times> pyval) list" where
  "binding_material x =
     [(''market_session'', PDate (bound_session x)),
      (''raw_bar_id'', PStr (bound_bar_id x)),
      (''stable_instrument_id'', PStr (bound_instrument x)),
      (''stable_listing_id'', PStr (bound_listing x)),
      (''identity_snapshot_id'', PStr (identity_snapshot_id x)),
      (''knowledge_time'', PDatetime (binding_knowledge_time x))]"

definition mk_binding :: "bar_binding \<Rightarrow> pydatetime \<Rightarrow> bar_binding res" where
  "mk_binding x0 moment = guards
     [adj_sha (bound_bar_id x0), adj_sha (bound_instrument x0), adj_sha (bound_listing x0),
      adj_sha (identity_snapshot_id x0)]
     (bindE (adj_utc moment) (\<lambda>t. let x = x0\<lparr>binding_knowledge_time := t\<rparr> in
       Inr (x\<lparr>binding_id := fields_id (binding_material x)\<rparr>)))"

definition binding_broken :: "bar_binding \<Rightarrow> bool \<times> py_exc" where
  "binding_broken x = (binding_id x \<noteq> fields_id (binding_material x),
     adj_err ''identity binding content identity failed'')"

section \<open>Adjusted bars\<close>

record adjusted_bar =
  adj_session :: date
  adj_symbol :: string
  adj_series :: string
  adj_isin :: string
  adj_open :: decimal
  adj_high :: decimal
  adj_low :: decimal
  adj_close :: decimal
  adj_volume :: decimal
  adj_traded_value :: decimal
  price_factor :: decimal
  volume_factor :: decimal
  applied_event_ids :: "string list"
  adj_raw_bar_id :: string
  identity_binding_id :: string
  adj_identity_snapshot :: string
  adj_raw_knowledge :: instant
  adj_knowledge :: instant
  adjustment_snapshot_id :: string
  adj_policy :: string
  adjusted_bar_id :: string

definition adjusted_material :: "adjusted_bar \<Rightarrow> (string \<times> pyval) list" where
  "adjusted_material b =
     [(''market_session'', PDate (adj_session b)),
      (''symbol'', PStr (adj_symbol b)),
      (''series'', PStr (adj_series b)),
      (''validated_isin'', PStr (adj_isin b)),
      (''open'', PDecimal (adj_open b)),
      (''high'', PDecimal (adj_high b)),
      (''low'', PDecimal (adj_low b)),
      (''close'', PDecimal (adj_close b)),
      (''volume'', PDecimal (adj_volume b)),
      (''traded_value'', PDecimal (adj_traded_value b)),
      (''price_factor'', PDecimal (price_factor b)),
      (''volume_factor'', PDecimal (volume_factor b)),
      (''applied_event_ids'', PTuple (map PStr (applied_event_ids b))),
      (''raw_bar_id'', PStr (adj_raw_bar_id b)),
      (''identity_binding_id'', PStr (identity_binding_id b)),
      (''identity_snapshot_id'', PStr (adj_identity_snapshot b)),
      (''raw_knowledge_time'', PDatetime (adj_raw_knowledge b)),
      (''knowledge_time'', PDatetime (adj_knowledge b)),
      (''adjustment_snapshot_id'', PStr (adjustment_snapshot_id b)),
      (''adjustment_policy_version'', PStr (adj_policy b))]"

definition adjusted_guards :: "adjusted_bar \<Rightarrow> (bool \<times> py_exc) list" where
  "adjusted_guards b =
     [(\<not> normalized_upper (adj_symbol b), adj_err ''is invalid''),
      (\<not> normalized_upper (adj_series b), adj_err ''is invalid''),
      (\<not> normalized_upper (adj_isin b), adj_err ''is invalid'')]
     @ map adj_positive [adj_open b, adj_high b, adj_low b, adj_close b, adj_volume b, adj_traded_value b,
         price_factor b, volume_factor b]
     @ [(adj_high b < py_max (py_max (adj_open b) (adj_low b)) (adj_close b), adj_err ''adjusted bar high is inconsistent''),
        (py_min (py_min (adj_open b) (adj_high b)) (adj_close b) < adj_low b, adj_err ''adjusted bar low is inconsistent''),
        (\<not> deq (price_factor b * volume_factor b) 1, adj_err ''price and volume factors must be reciprocal''),
        (let average = dquot (adj_traded_value b) (adj_volume b) in \<not> (adj_low b \<le> average \<and> average \<le> adj_high b),
           adj_err ''adjusted turnover implies an invalid price''),
        (\<not> sorted_unique (applied_event_ids b), adj_err ''applied event IDs must be sorted and unique''),
        adj_sha (adj_raw_bar_id b), adj_sha (identity_binding_id b), adj_sha (adj_identity_snapshot b),
        adj_sha (adjustment_snapshot_id b)]
     @ map adj_sha (applied_event_ids b)
     @ [(adj_knowledge b < adj_raw_knowledge b, adj_err ''adjusted bar cannot predate its raw input''),
        (adj_policy b \<noteq> ''split-bonus-price-volume-adjustment/v1'', adj_err ''unsupported price-adjustment policy'')]"

definition mk_adjusted_bar :: "adjusted_bar \<Rightarrow> adjusted_bar res" where
  \<comment> \<open>the two times are already checked instants\<close>
  "mk_adjusted_bar b = guards (adjusted_guards b) (Inr (b\<lparr>adjusted_bar_id := fields_id (adjusted_material b)\<rparr>))"

definition adjusted_broken :: "adjusted_bar \<Rightarrow> bool \<times> py_exc" where
  "adjusted_broken b = (adjusted_bar_id b \<noteq> fields_id (adjusted_material b),
     adj_err ''adjusted bar content identity failed'')"

section \<open>Histories\<close>

record adjusted_history =
  history_instrument :: string
  history_listing :: string
  signal_session :: date
  history_cutoff :: instant
  adjustment_knowledge :: instant
  action_snapshot_id :: string
  adjusted_bars :: "adjusted_bar list"
  price_basis :: string
  history_policy :: string
  adjusted_history_id :: string

definition adjusted_val :: "adjusted_bar \<Rightarrow> pyval" where
  "adjusted_val b = PDataclass ''india_swing.corporate_actions.adjustments.AdjustedPriceBar''
     (adjusted_material b @ [(''adjusted_bar_id'', PStr (adjusted_bar_id b))])"

definition adjusted_history_material :: "adjusted_history \<Rightarrow> (string \<times> pyval) list" where
  "adjusted_history_material h =
     [(''stable_instrument_id'', PStr (history_instrument h)),
      (''stable_listing_id'', PStr (history_listing h)),
      (''signal_session'', PDate (signal_session h)),
      (''cutoff'', PDatetime (history_cutoff h)),
      (''adjustment_knowledge_time'', PDatetime (adjustment_knowledge h)),
      (''corporate_action_snapshot_id'', PStr (action_snapshot_id h)),
      (''bars'', PTuple (map adjusted_val (adjusted_bars h))),
      (''price_basis'', PStr (price_basis h)),
      (''adjustment_policy_version'', PStr (history_policy h))]"

definition lineage_broken :: "adjusted_history \<Rightarrow> adjusted_bar \<Rightarrow> (bool \<times> py_exc) list" where
  "lineage_broken h b = [adjusted_broken b,
     (adjustment_snapshot_id b \<noteq> action_snapshot_id h \<or> history_cutoff h < adj_knowledge b,
        adj_err ''adjusted bar lineage differs from history'')]"

definition adjusted_history_guards :: "adjusted_history \<Rightarrow> (bool \<times> py_exc) list" where
  "adjusted_history_guards h = (let sessions = map adj_session (adjusted_bars h) in
     [adj_sha (history_instrument h), adj_sha (history_listing h), adj_sha (action_snapshot_id h),
      (history_cutoff h < adjustment_knowledge h, adj_err ''adjustment knowledge time exceeds history cutoff''),
      (adjusted_bars h = [], adj_err ''adjusted history bars must be a non-empty exact tuple''),
      (\<not> sorted_unique sessions \<or> last sessions \<noteq> signal_session h, adj_err ''adjusted history sessions are invalid'')]
     @ concat (map (lineage_broken h) (adjusted_bars h))
     @ [(price_basis h \<noteq> ''CORPORATE_ACTION_ADJUSTED_AS_OF_CUTOFF'', adj_err ''adjusted history has the wrong price basis''),
        (history_policy h \<noteq> ''split-bonus-price-volume-adjustment/v1'', adj_err ''adjusted history has the wrong policy'')])"

definition mk_adjusted_history :: "adjusted_history \<Rightarrow> adjusted_history res" where
  "mk_adjusted_history h = guards (adjusted_history_guards h)
     (Inr (h\<lparr>adjusted_history_id := fields_id (adjusted_history_material h)\<rparr>))"

definition verify_adjusted_history :: "adjusted_history \<Rightarrow> unit res" where
  "verify_adjusted_history h = guards (map adjusted_broken (adjusted_bars h)) (guards
     [(adjusted_history_id h \<noteq> fields_id (adjusted_history_material h),
       adj_err ''adjusted history content identity failed'')] (Inr ()))"

section \<open>Selection and factors\<close>

definition select_guards :: "string \<Rightarrow> action_event \<Rightarrow> (bool \<times> py_exc) list" where
  "select_guards listing e =
     [(case action_listing e of None \<Rightarrow> False | Some l \<Rightarrow> l \<noteq> listing, adj_err ''corporate action belongs to another listing''),
      (\<not> share_action (action_type_of e), adj_err ''corporate action requires an unsupported adjustment''),
      (automatic_raw_price_factor e = None, adj_err ''corporate action has no safe automatic factor'')]"

definition relevant_events :: "action_snapshot \<Rightarrow> string \<Rightarrow> date \<Rightarrow> date \<Rightarrow> action_event list" where
  "relevant_events s instrument start signal = filter (\<lambda>e. action_instrument e = instrument
     \<and> start < effective_session e \<and> effective_session e \<le> signal) (active_events s)"

definition select_automatic_adjustment_events ::
  "action_snapshot \<Rightarrow> string \<Rightarrow> string \<Rightarrow> date \<Rightarrow> date \<Rightarrow> action_event list res" where
  "select_automatic_adjustment_events s instrument listing start signal = guards
     [adj_sha instrument, adj_sha listing, (signal < start, adj_err ''adjustment session boundaries are invalid'')]
     (let relevant = relevant_events s instrument start signal in
      guards (concat (map (select_guards listing) relevant)) (Inr relevant))"

definition apply_factor :: "decimal \<Rightarrow> action_event \<Rightarrow> decimal res" where
  "apply_factor acc e = (case automatic_raw_price_factor e of
       None \<Rightarrow> Inl (adj_err ''corporate action has no safe automatic factor'') | Some f \<Rightarrow> Inr (acc * f))"

definition applied_events :: "action_event list \<Rightarrow> date \<Rightarrow> action_event list" where
  "applied_events es d = filter (\<lambda>e. d < effective_session e) es"

definition corporate_action_factors_for_session ::
  "action_event list \<Rightarrow> date \<Rightarrow> (decimal \<times> decimal \<times> string list) res" where
  "corporate_action_factors_for_session es d = (let applied = applied_events es d in
     bindE (foldE apply_factor 1 applied) (\<lambda>factor. bindE (ddiv 1 factor) (\<lambda>reciprocal.
     Inr (factor, reciprocal, sort (map action_event_id applied)))))"

section \<open>The builder\<close>

definition binding_guards :: "string \<Rightarrow> string \<Rightarrow> instant \<Rightarrow> raw_bar \<times> bar_binding \<Rightarrow> (bool \<times> py_exc) list" where
  "binding_guards instrument listing cutoff_at = (\<lambda>(raw, x).
     [binding_broken x,
      (bound_session x \<noteq> raw_session raw \<or> bound_bar_id x \<noteq> raw_bar_id raw \<or> bound_instrument x \<noteq> instrument
         \<or> bound_listing x \<noteq> listing, adj_err ''raw bar and stable-identity binding differ''),
      (cutoff_at < binding_knowledge_time x, adj_err ''identity binding is future-known'')])"

definition raw_known :: "instant \<Rightarrow> raw_bar \<Rightarrow> unit res" where
  "raw_known cutoff_at raw = bindE (verify_raw_bar raw) (\<lambda>_. guards
     [(cutoff_at < raw_knowledge_time raw, adj_err ''raw history contains future-known evidence'')] (Inr ()))"

definition adjust_bar :: "action_snapshot \<Rightarrow> action_event list \<Rightarrow> raw_bar \<times> bar_binding \<Rightarrow> adjusted_bar res" where
  "adjust_bar s es = (\<lambda>(raw, x). bindE (corporate_action_factors_for_session es (raw_session raw))
     (\<lambda>(factor, reciprocal, ids). mk_adjusted_bar
       \<lparr>adj_session = raw_session raw, adj_symbol = raw_symbol raw, adj_series = raw_series raw, adj_isin = raw_isin raw,
        adj_open = raw_open raw * factor, adj_high = raw_high raw * factor, adj_low = raw_low raw * factor,
        adj_close = raw_close raw * factor, adj_volume = dec_of_int (raw_volume raw) * reciprocal,
        adj_traded_value = raw_traded_value raw, price_factor = factor, volume_factor = reciprocal,
        applied_event_ids = ids, adj_raw_bar_id = raw_bar_id raw, identity_binding_id = binding_id x,
        adj_identity_snapshot = identity_snapshot_id x, adj_raw_knowledge = raw_knowledge_time raw,
        adj_knowledge = max (max (raw_knowledge_time raw) (binding_knowledge_time x)) (snapshot_cutoff s),
        adjustment_snapshot_id = snapshot_id s, adj_policy = ''split-bonus-price-volume-adjustment/v1'',
        adjusted_bar_id = []\<rparr>))"

definition build_adjusted_history ::
  "raw_bar list \<Rightarrow> bar_binding list \<Rightarrow> string \<Rightarrow> string \<Rightarrow> date \<Rightarrow> pydatetime \<Rightarrow> action_snapshot \<Rightarrow> adjusted_history res" where
  "build_adjusted_history raws xs instrument listing signal moment s = guards
     [(raws = [], adj_err ''raw bars must be a non-empty exact tuple'')]
     (bindE (adj_utc moment) (\<lambda>cutoff_at. bindE (verify_action_snapshot s) (\<lambda>_.
      let sessions = map raw_session raws in guards
       [(\<not> complete s \<or> \<not> actionable s \<or> readiness_of s = COLLECTION_ONLY,
           adj_err ''corporate-action evidence is not actionable''),
        (cutoff_at < snapshot_cutoff s, adj_err ''corporate-action snapshot is future-known''),
        (raw_session (hd raws) < coverage_start s \<or> coverage_end s < signal,
           adj_err ''corporate-action coverage is incomplete''),
        (\<not> sorted_unique sessions \<or> last sessions \<noteq> signal, adj_err ''raw history sessions are invalid''),
        (length xs \<noteq> length raws, adj_err ''one exact identity binding is required per raw bar'')]
       (guards (concat (map (binding_guards instrument listing cutoff_at) (zip raws xs)))
       (bindE (mapE (raw_known cutoff_at) raws) (\<lambda>_.
        bindE (select_automatic_adjustment_events s instrument listing (raw_session (hd raws)) signal) (\<lambda>es.
        bindE (mapE (adjust_bar s es) (zip raws xs)) (\<lambda>bs. mk_adjusted_history
          \<lparr>history_instrument = instrument, history_listing = listing, signal_session = signal, history_cutoff = cutoff_at,
           adjustment_knowledge = snapshot_cutoff s, action_snapshot_id = snapshot_id s, adjusted_bars = bs,
           price_basis = ''CORPORATE_ACTION_ADJUSTED_AS_OF_CUTOFF'',
           history_policy = ''split-bonus-price-volume-adjustment/v1'', adjusted_history_id = []\<rparr>))))))))"

section \<open>Factors\<close>

lemma select_Inr:
  assumes "select_automatic_adjustment_events s instrument listing start signal = Inr es"
  shows "es = relevant_events s instrument start signal" "\<forall>e \<in> set es. automatic_raw_price_factor e \<noteq> None"
  using assms by (auto simp: select_automatic_adjustment_events_def guards_Inr_iff select_guards_def Let_def)

lemma constructed_terms:
  assumes "mk_action_event e0 announced known = Inr e" and "automatic_raw_price_factor e = Some x"
  shows "0 < dval x" "x = dquot (the (pre_action_shares e)) (the (post_action_shares e))"
proof -
  have same: "terms_guards (q\<lparr>action_event_id := i\<rparr>) = terms_guards q" for q :: action_event and i
    by (simp add: terms_guards_def no_terms_def cong: option.case_cong)
  have g: "\<forall>g \<in> set (terms_guards e). \<not> fst g"
    using assms(1) by (auto simp: mk_action_event_def guards_Inr_iff res_simps Let_def action_guards_def same)
  obtain a b where x: "pre_action_shares e = Some a" "post_action_shares e = Some b" "x = dquot a b"
    and c: "status e = CONFIRMED" "share_action (action_type_of e)"
    using assms(2) by (auto simp: automatic_raw_price_factor_def split: if_splits option.splits)
  have pos: "0 < dval a" "0 < dval b" using g x c by (auto simp: terms_guards_def positive_terms_def le_iff_dval)
  then have "\<not> dzero b" by (simp flip: dval_zero_iff)
  then show "0 < dval x" using dquot_pos pos x(3) by blast
  show "x = dquot (the (pre_action_shares e)) (the (post_action_shares e))" using x by simp
qed

lemma apply_factors:
  assumes "\<forall>e \<in> set es. \<exists>x. automatic_raw_price_factor e = Some x \<and> 0 < dval x \<and> x = term e" and "0 < dval acc"
  shows "foldE apply_factor acc es = Inr (foldl (*) acc (map term es)) \<and> 0 < dval (foldl (*) acc (map term es))"
  using assms
proof (induction es arbitrary: acc)
  case (Cons e es)
  then obtain x where "automatic_raw_price_factor e = Some x" "0 < dval x" "x = term e" by auto
  then show ?case using Cons times_pos by (simp add: apply_factor_def)
qed simp

lemma select_until: "e \<in> set (relevant_events s instrument start signal) \<Longrightarrow> effective_session e \<le> signal"
  by (simp add: relevant_events_def)

lemma applied_none: "\<forall>e \<in> set es. effective_session e \<le> d \<Longrightarrow> applied_events es d = []"
  by (auto simp: applied_events_def filter_empty_conv not_less)

text \<open>C39: On the events selected from a snapshot of constructed events the factor of a session always
  exists and is positive: it is the product of the share ratios of exactly the active events of the instrument
  that take effect after the session and by the signal session, so a bar at or after the signal session is
  never scaled.\<close>

theorem session_factors:
  assumes "select_automatic_adjustment_events s instrument listing start signal = Inr es"
    and "\<forall>e \<in> set (snapshot_events s). \<exists>e0 announced known. mk_action_event e0 announced known = Inr e"
  shows "set (applied_events es d) = {e \<in> set (snapshot_events s). status e = CONFIRMED
        \<and> (\<forall>x \<in> set (snapshot_events s). supersedes x \<noteq> Some (action_event_id e)) \<and> action_instrument e = instrument
        \<and> start < effective_session e \<and> d < effective_session e \<and> effective_session e \<le> signal}
    \<and> (\<exists>factor. corporate_action_factors_for_session es d =
          Inr (factor, dquot 1 factor, sort (map action_event_id (applied_events es d))) \<and> 0 < dval factor
        \<and> factor = foldl (*) 1 (map (\<lambda>e. dquot (the (pre_action_shares e)) (the (post_action_shares e))) (applied_events es d))
        \<and> (signal \<le> d \<longrightarrow> factor = 1))"
proof -
  note sel = select_Inr [OF assms(1)]
  have mem: "set (applied_events es d) = {e \<in> set (snapshot_events s). status e = CONFIRMED
        \<and> (\<forall>x \<in> set (snapshot_events s). supersedes x \<noteq> Some (action_event_id e)) \<and> action_instrument e = instrument
        \<and> start < effective_session e \<and> d < effective_session e \<and> effective_session e \<le> signal}"
    unfolding sel(1) by (auto simp: applied_events_def relevant_events_def active_events_def set_superseded_ids)
  have "\<forall>e \<in> set (applied_events es d). \<exists>x. automatic_raw_price_factor e = Some x \<and> 0 < dval x
      \<and> x = dquot (the (pre_action_shares e)) (the (post_action_shares e))"
  proof
    fix e assume e: "e \<in> set (applied_events es d)"
    then have "e \<in> set (snapshot_events s)" and "automatic_raw_price_factor e \<noteq> None"
      using mem sel(2) by (simp, simp add: applied_events_def)
    then obtain e0 announced known x where "mk_action_event e0 announced known = Inr e" "automatic_raw_price_factor e = Some x"
      using assms(2) by blast
    then show "\<exists>x. automatic_raw_price_factor e = Some x \<and> 0 < dval x
        \<and> x = dquot (the (pre_action_shares e)) (the (post_action_shares e))"
      using constructed_terms by blast
  qed
  from apply_factors [OF this, of 1] obtain factor where f: "foldE apply_factor 1 (applied_events es d) = Inr factor"
    "0 < dval factor" "factor = foldl (*) 1 (map (\<lambda>e. dquot (the (pre_action_shares e)) (the (post_action_shares e))) (applied_events es d))"
    by simp
  have "\<not> dzero factor" using f(2) by (simp flip: dval_zero_iff)
  moreover have "signal \<le> d \<longrightarrow> applied_events es d = []"
    using sel(1) by (auto simp: relevant_events_def intro!: applied_none)
  ultimately show ?thesis using mem f by (auto simp: corporate_action_factors_for_session_def ddiv_def Let_def)
qed

section \<open>Histories\<close>

lemma mk_adjusted_bar_Inr:
  assumes "mk_adjusted_bar b0 = Inr b"
  shows "b = b0\<lparr>adjusted_bar_id := adjusted_bar_id b\<rparr>" "\<forall>g \<in> set (adjusted_guards b). \<not> fst g" "\<not> fst (adjusted_broken b)"
proof -
  have same: "adjusted_guards (q\<lparr>adjusted_bar_id := i\<rparr>) = adjusted_guards q"
    "adjusted_material (q\<lparr>adjusted_bar_id := i\<rparr>) = adjusted_material q" for q :: adjusted_bar and i
    by (simp_all add: adjusted_guards_def adjusted_material_def Let_def)
  have b: "b = b0\<lparr>adjusted_bar_id := fields_id (adjusted_material b0)\<rparr>" and g: "\<forall>g \<in> set (adjusted_guards b0). \<not> fst g"
    using assms by (auto simp: mk_adjusted_bar_def guards_Inr_iff)
  show "b = b0\<lparr>adjusted_bar_id := adjusted_bar_id b\<rparr>" "\<forall>g \<in> set (adjusted_guards b). \<not> fst g" "\<not> fst (adjusted_broken b)"
    using g unfolding b by (simp_all add: same adjusted_broken_def)
qed

lemma mk_adjusted_history_Inr:
  assumes "mk_adjusted_history h0 = Inr h"
  shows "h = h0\<lparr>adjusted_history_id := adjusted_history_id h\<rparr>" "\<forall>g \<in> set (adjusted_history_guards h0). \<not> fst g"
    "verify_adjusted_history h = Inr ()"
proof -
  have same: "adjusted_history_material (q\<lparr>adjusted_history_id := i\<rparr>) = adjusted_history_material q" for q :: adjusted_history and i
    by (simp add: adjusted_history_material_def)
  have h: "h = h0\<lparr>adjusted_history_id := fields_id (adjusted_history_material h0)\<rparr>"
    and g: "\<forall>g \<in> set (adjusted_history_guards h0). \<not> fst g"
    using assms by (auto simp: mk_adjusted_history_def guards_Inr_iff)
  show "h = h0\<lparr>adjusted_history_id := adjusted_history_id h\<rparr>" "\<forall>g \<in> set (adjusted_history_guards h0). \<not> fst g"
    using h g by simp_all
  have "\<forall>b \<in> set (adjusted_bars h0). \<not> fst (adjusted_broken b)"
    using g by (auto simp: adjusted_history_guards_def lineage_broken_def Let_def)
  then show "verify_adjusted_history h = Inr ()"
    unfolding h by (simp add: verify_adjusted_history_def guards_Inr_iff same)
qed

definition adjusted_from :: "action_snapshot \<Rightarrow> action_event list \<Rightarrow> raw_bar \<Rightarrow> adjusted_bar \<Rightarrow> bool" where
  "adjusted_from s es raw b = (adj_session b = raw_session raw \<and> adj_raw_bar_id b = raw_bar_id raw
     \<and> adj_raw_knowledge b = raw_knowledge_time raw \<and> adj_traded_value b = raw_traded_value raw
     \<and> adj_open b = raw_open raw * price_factor b \<and> adj_high b = raw_high raw * price_factor b
     \<and> adj_low b = raw_low raw * price_factor b \<and> adj_close b = raw_close raw * price_factor b
     \<and> adj_volume b = dec_of_int (raw_volume raw) * volume_factor b
     \<and> applied_event_ids b = sort (map action_event_id (applied_events es (raw_session raw)))
     \<and> foldE apply_factor 1 (applied_events es (raw_session raw)) = Inr (price_factor b)
     \<and> ddiv 1 (price_factor b) = Inr (volume_factor b)
     \<and> deq (price_factor b * volume_factor b) 1 \<and> 0 < adj_low b \<and> adj_low b \<le> adj_high b)"

lemma adjust_bar_Inr:
  assumes "adjust_bar s es (raw, x) = Inr b"
  shows "adjusted_from s es raw b"
proof -
  obtain factor reciprocal b0 where f: "foldE apply_factor 1 (applied_events es (raw_session raw)) = Inr factor"
      "ddiv 1 factor = Inr reciprocal"
    and made: "mk_adjusted_bar b0 = Inr b" and b0: "adj_session b0 = raw_session raw" "adj_raw_bar_id b0 = raw_bar_id raw"
      "adj_raw_knowledge b0 = raw_knowledge_time raw" "adj_traded_value b0 = raw_traded_value raw"
      "adj_open b0 = raw_open raw * factor" "adj_high b0 = raw_high raw * factor"
      "adj_low b0 = raw_low raw * factor" "adj_close b0 = raw_close raw * factor"
      "adj_volume b0 = dec_of_int (raw_volume raw) * reciprocal" "price_factor b0 = factor" "volume_factor b0 = reciprocal"
      "applied_event_ids b0 = sort (map action_event_id (applied_events es (raw_session raw)))"
    using assms by (auto simp: adjust_bar_def corporate_action_factors_for_session_def res_simps Let_def)
  note m = mk_adjusted_bar_Inr [OF made]
  have "deq (price_factor b * volume_factor b) 1" "0 < dval (adj_low b)"
    "\<not> adj_high b < py_max (py_max (adj_open b) (adj_low b)) (adj_close b)"
    using m(2) by (auto simp: adjusted_guards_def adj_positive_def le_iff_dval)
  moreover have "adj_low b \<le> adj_high b" using calculation(3) by (auto simp: less_iff_dval le_iff_dval dval_py_max)
  moreover obtain i where i: "b = b0\<lparr>adjusted_bar_id := i\<rparr>" using m(1) by blast
  ultimately show ?thesis using f b0 by (simp add: adjusted_from_def less_iff_dval)
qed

lemma build_Inr:
  assumes "build_adjusted_history raws xs instrument listing signal moment s = Inr h"
  obtains cutoff_at es where "to_utc moment = Some cutoff_at" "history_cutoff h = cutoff_at" "snapshot_cutoff s \<le> cutoff_at"
    "raws \<noteq> []" "strictly_sorted (map raw_session raws)" "last (map raw_session raws) = signal" "length xs = length raws"
    "\<forall>raw \<in> set raws. raw_known cutoff_at raw = Inr ()"
    "select_automatic_adjustment_events s instrument listing (raw_session (hd raws)) signal = Inr es"
    "list_all2 (adjusted_from s es) raws (adjusted_bars h)"
    "list_all (\<lambda>b. adj_knowledge b \<le> cutoff_at) (adjusted_bars h)" "verify_adjusted_history h = Inr ()"
proof -
  obtain t es bs us h0 where t: "to_utc moment = Some t" "raws \<noteq> []" "snapshot_cutoff s \<le> t"
    "strictly_sorted (map raw_session raws)" "last (map raw_session raws) = signal" "length xs = length raws"
    "mapE (raw_known t) raws = Inr us"
    "select_automatic_adjustment_events s instrument listing (raw_session (hd raws)) signal = Inr es"
    "mapE (adjust_bar s es) (zip raws xs) = Inr bs" "mk_adjusted_history h0 = Inr h" "adjusted_bars h0 = bs" "history_cutoff h0 = t"
    using assms by (auto simp: build_adjusted_history_def adj_utc_def guards_Inr_iff res_simps Let_def not_less split: option.splits)
  note m = mk_adjusted_history_Inr [OF t(10)]
  obtain i where h: "h = h0\<lparr>adjusted_history_id := i\<rparr>" using m(1) by blast
  have k: "list_all (\<lambda>b. adj_knowledge b \<le> t) bs"
    using m(2) t(11,12) by (auto simp: adjusted_history_guards_def lineage_broken_def list_all_iff Let_def not_less)
  have all: "list_all2 (\<lambda>p b. adjust_bar s es p = Inr b) (zip raws xs) bs" using t(9) by (simp add: mapE_eq_Inr)
  have len: "length bs = length raws" using all t(6) by (auto dest: list_all2_lengthD)
  have "adjusted_from s es (raws ! n) (bs ! n)" if "n < length raws" for n
  proof (rule adjust_bar_Inr)
    show "adjust_bar s es (raws ! n, xs ! n) = Inr (bs ! n)"
      using list_all2_nthD [OF all, of n] that t(6) by simp
  qed
  then have "list_all2 (adjusted_from s es) raws bs" using len by (simp add: list_all2_conv_all_nth)
  moreover have "\<forall>raw \<in> set raws. raw_known t raw = Inr ()"
    using t(7) mapE_unit [of "raw_known t" raws] by simp
  ultimately show thesis using that [of t es] t k m(3) h by simp
qed

text \<open>C20: A history the builder returns is a view as of its cutoff: it has the sessions of the raw bars,
  increasing and up to the signal session; no bar rests on evidence known after the cutoff; its prices are the raw
  prices times its factor, its volume the raw volume times a factor that is exactly reciprocal; the events it
  applies are active events of the instrument, known by the cutoff, effective after the bar and by the signal session;
  the last bar is not scaled; and the history verifies.\<close>

theorem adjusted_history_sound:
  assumes "build_adjusted_history raws xs instrument listing signal moment s = Inr h"
    and "mk_action_snapshot s0 moment0 = Inr s"
  shows "map adj_session (adjusted_bars h) = map raw_session raws \<and> strictly_sorted (map raw_session raws)
    \<and> last (map raw_session raws) = signal \<and> to_utc moment = Some (history_cutoff h)
    \<and> list_all2 (\<lambda>raw b. raw_knowledge_time raw \<le> history_cutoff h \<and> adj_knowledge b \<le> history_cutoff h
        \<and> adj_raw_bar_id b = raw_bar_id raw \<and> adj_open b = raw_open raw * price_factor b
        \<and> adj_high b = raw_high raw * price_factor b \<and> adj_low b = raw_low raw * price_factor b
        \<and> adj_close b = raw_close raw * price_factor b \<and> adj_volume b = dec_of_int (raw_volume raw) * volume_factor b
        \<and> deq (price_factor b * volume_factor b) 1
        \<and> (\<forall>i \<in> set (applied_event_ids b). \<exists>e \<in> set (active_events s). action_event_id e = i
            \<and> action_instrument e = instrument \<and> action_knowledge_time e \<le> history_cutoff h
            \<and> adj_session b < effective_session e \<and> effective_session e \<le> signal)) raws (adjusted_bars h)
    \<and> price_factor (last (adjusted_bars h)) = 1 \<and> applied_event_ids (last (adjusted_bars h)) = []
    \<and> verify_adjusted_history h = Inr ()"
proof -
  obtain t es where b: "to_utc moment = Some t" "history_cutoff h = t" "snapshot_cutoff s \<le> t"
    "raws \<noteq> []" "strictly_sorted (map raw_session raws)" "last (map raw_session raws) = signal"
    "\<forall>raw \<in> set raws. raw_known t raw = Inr ()"
    "select_automatic_adjustment_events s instrument listing (raw_session (hd raws)) signal = Inr es"
    "list_all2 (adjusted_from s es) raws (adjusted_bars h)" "list_all (\<lambda>b. adj_knowledge b \<le> t) (adjusted_bars h)"
    "verify_adjusted_history h = Inr ()"
    by (rule build_Inr [OF assms(1)]) blast
  have es: "es = relevant_events s instrument (raw_session (hd raws)) signal" by (rule select_Inr(1) [OF b(8)])
  have known: "action_knowledge_time e \<le> t" if "e \<in> set (active_events s)" for e
    using mk_action_snapshot_Inr(1) [OF assms(2)] that b(3) by (force simp: ledger_ok_def list_all_iff sound_event_def active_events_def)
  have len: "length (adjusted_bars h) = length raws" using b(9) by (simp add: list_all2_lengthD)
  have sess: "map adj_session (adjusted_bars h) = map raw_session raws"
    using b(9) by (intro nth_equalityI) (auto simp: len adjusted_from_def list_all2_conv_all_nth)
  have bar: "\<exists>e \<in> set (active_events s). action_event_id e = i \<and> action_instrument e = instrument
      \<and> action_knowledge_time e \<le> t \<and> adj_session b < effective_session e \<and> effective_session e \<le> signal"
    if "adjusted_from s es raw b" and "i \<in> set (applied_event_ids b)" for raw b i
  proof -
    note from_raw = that(1) and applied = that(2)
    obtain e where "e \<in> set es" "action_event_id e = i" "raw_session raw < effective_session e"
      using from_raw applied by (auto simp: adjusted_from_def applied_events_def)
    then show ?thesis using from_raw known by (auto simp: es relevant_events_def adjusted_from_def)
  qed
  have raw: "raw_knowledge_time raw \<le> t" if "raw \<in> set raws" for raw
    using b(7) that by (auto simp: raw_known_def res_simps guards_Inr_iff not_less dest!: bspec)
  have "adjusted_from s es (last raws) (last (adjusted_bars h))"
    using b(4,9) len last_conv_nth [of raws] last_conv_nth [of "adjusted_bars h"]
    by (cases "adjusted_bars h = []") (auto simp: list_all2_conv_all_nth)
  moreover have "applied_events es (raw_session (last raws)) = []"
    using b(4,6) select_until by (intro applied_none) (auto simp: es last_map)
  ultimately have "price_factor (last (adjusted_bars h)) = 1" "applied_event_ids (last (adjusted_bars h)) = []"
    by (auto simp: adjusted_from_def)
  moreover have "list_all2 (\<lambda>raw b. raw_knowledge_time raw \<le> t \<and> adj_knowledge b \<le> t \<and> adjusted_from s es raw b) raws (adjusted_bars h)"
    using b(9,10) raw by (auto simp: list_all2_conv_all_nth list_all_length)
  then have "list_all2 (\<lambda>raw b. raw_knowledge_time raw \<le> t \<and> adj_knowledge b \<le> t
        \<and> adj_raw_bar_id b = raw_bar_id raw \<and> adj_open b = raw_open raw * price_factor b
        \<and> adj_high b = raw_high raw * price_factor b \<and> adj_low b = raw_low raw * price_factor b
        \<and> adj_close b = raw_close raw * price_factor b \<and> adj_volume b = dec_of_int (raw_volume raw) * volume_factor b
        \<and> deq (price_factor b * volume_factor b) 1
        \<and> (\<forall>i \<in> set (applied_event_ids b). \<exists>e \<in> set (active_events s). action_event_id e = i
            \<and> action_instrument e = instrument \<and> action_knowledge_time e \<le> t
            \<and> adj_session b < effective_session e \<and> effective_session e \<le> signal)) raws (adjusted_bars h)"
  proof (rule list_all2_mono, elim conjE, intro conjI ballI)
    fix raw b i assume "adjusted_from s es raw b" and "i \<in> set (applied_event_ids b)"
    then show "\<exists>e \<in> set (active_events s). action_event_id e = i \<and> action_instrument e = instrument
      \<and> action_knowledge_time e \<le> t \<and> adj_session b < effective_session e \<and> effective_session e \<le> signal" by (rule bar)
  qed (auto simp: adjusted_from_def)
  ultimately show ?thesis using b sess by simp
qed

section \<open>One for three\<close>

lemma third_digits: "ndigits 3333333333333333333333333333 = 28" "ndigits 33333333333333333333333333333 = 29"
    "ndigits 30000000000000000000000000003 = 29" "ndigits 1 = 1" "ndigits 3 = 1"
    "ndigits 9999999999999999999999999999000000000000000000000000000 = 55"
  by (simp_all add: ndigitsI [where k = 27, simplified] ndigitsI [where k = 28, simplified]
      ndigitsI [where k = 0, simplified] ndigitsI [where k = 54, simplified])

lemma third: "dquot 1 (dec_of_int 3) = Dec False 3333333333333333333333333333 (-28)"
proof -
  have "dquot_raw 1 (dec_of_int 3) = Dec False 33333333333333333333333333333 (-29)"
    by (simp add: dquot_raw_def dquot_shift_def dquot_num_def dquot_den_def prec_def one_decimal_def dec_of_int_def
        third_digits [simplified] Let_def)
  then show ?thesis by (simp add: dquot_def dec_fix_def prec_def third_digits round_half_even_def Let_def)
qed

lemma third_reciprocal: "dquot 1 (Dec False 3333333333333333333333333333 (-28)) = Dec False 3000000000000000000000000000 (-27)"
proof -
  have "dquot_raw 1 (Dec False 3333333333333333333333333333 (-28)) = Dec False 30000000000000000000000000003 (-28)"
    by (simp add: dquot_raw_def dquot_shift_def dquot_num_def dquot_den_def prec_def one_decimal_def
        third_digits [simplified] Let_def)
  then show ?thesis by (simp add: dquot_def dec_fix_def prec_def third_digits round_half_even_def Let_def)
qed

lemma third_product:
  "dval (Dec False 3333333333333333333333333333 (-28) * Dec False 3000000000000000000000000000 (-27)) = 1 - 1 / 10 ^ 28"
  by (simp add: times_decimal_def dtimes_exact_def dec_fix_def prec_def third_digits round_half_even_def Let_def
      dval_Dec power_int_minus)

text \<open>Two such actions on one date: the rounded factor and its rounded reciprocal multiply back to exactly one.\<close>

lemma ninth_product:
  defines "f \<equiv> Dec False 3333333333333333333333333333 (-28) * Dec False 3333333333333333333333333333 (-28)"
  shows "dval (f * dquot 1 f) = 1"
proof -
  have d: "ndigits 11111111111111111111111111108888888888888888888888888889 = 56"
    "ndigits 1111111111111111111111111111 = 28" "ndigits 90000000000000000000000000009 = 29"
    "ndigits 10000000000000000000000000000111111111111111111111111111 = 56"
    by (simp_all add: ndigitsI [where k = 55, simplified] ndigitsI [where k = 27, simplified] ndigitsI [where k = 28, simplified])
  have f: "f = Dec False 1111111111111111111111111111 (-28)"
    by (simp add: f_def times_decimal_def dtimes_exact_def dec_fix_def prec_def d round_half_even_def Let_def)
  have "dquot_raw 1 f = Dec False 90000000000000000000000000009 (-28)"
    by (simp add: f dquot_raw_def dquot_shift_def dquot_num_def dquot_den_def prec_def one_decimal_def
        third_digits [simplified] d [simplified] Let_def)
  then have "dquot 1 f = Dec False 9000000000000000000000000001 (-27)"
    by (simp add: dquot_def dec_fix_def prec_def d round_half_even_def Let_def)
  then show ?thesis
    by (simp add: f times_decimal_def dtimes_exact_def dec_fix_def prec_def d round_half_even_def Let_def dval_Dec power_int_minus)
qed

lemma third_factors:
  assumes "status e = CONFIRMED" "share_action (action_type_of e)" "pre_action_shares e = Some 1"
    "post_action_shares e = Some (dec_of_int 3)" and "applied_events es d = [e]"
  shows "corporate_action_factors_for_session es d = Inr (Dec False 3333333333333333333333333333 (-28),
      Dec False 3000000000000000000000000000 (-27), [action_event_id e])"
proof -
  have "1 * Dec False 3333333333333333333333333333 (-28) = Dec False 3333333333333333333333333333 (-28)"
    unfolding times_decimal_def dtimes_exact_def one_decimal_def
    by (simp add: dec_fix_exact repr_def prec_def)
  then have "foldE apply_factor 1 [e] = Inr (Dec False 3333333333333333333333333333 (-28))"
    using assms(1-4) by (simp add: apply_factor_def automatic_raw_price_factor_def third)
  then show ?thesis
    using assms(5) by (simp add: corporate_action_factors_for_session_def ddiv_def dzero_def third_reciprocal Let_def)
qed

text \<open>C40: One share becoming three is a valid confirmed action with an automatic factor, but the factor has no
  finite expansion: its 28-digit reciprocal multiplies back to less than one, so the exact test of the bar
  constructor never accepts a bar to which this action, and no other, applies.  A history that holds a session after
  which such an action is the only active action of the instrument up to the signal is therefore never returned,
  whatever its bars.  The condition matters: two such actions on one date give
  rounded factors that multiply back to exactly one (\<open>ninth_product\<close>).\<close>

theorem one_for_three_rejected:
  assumes "raw \<in> set raws"
    and "applied_events (relevant_events s instrument (raw_session (hd raws)) signal) (raw_session raw) = [e]"
    and "share_action (action_type_of e)" and "pre_action_shares e = Some 1" and "post_action_shares e = Some (dec_of_int 3)"
  shows "(\<exists>factor reciprocal. corporate_action_factors_for_session
        (relevant_events s instrument (raw_session (hd raws)) signal) (raw_session raw) =
        Inr (factor, reciprocal, [action_event_id e]) \<and> dval (factor * reciprocal) = 1 - 1 / 10 ^ 28)
    \<and> (\<exists>err. build_adjusted_history raws xs instrument listing signal moment s = Inl err)"
proof -
  let ?es = "relevant_events s instrument (raw_session (hd raws)) signal"
  have "e \<in> set (applied_events ?es (raw_session raw))" using assms(2) by simp
  then have "status e = CONFIRMED" by (auto simp: applied_events_def relevant_events_def active_events_def)
  note f = third_factors [OF this assms(3-5,2)]
  have False if built: "build_adjusted_history raws xs instrument listing signal moment s = Inr h" for h
  proof (rule build_Inr [OF built])
    fix t es
    assume sel: "select_automatic_adjustment_events s instrument listing (raw_session (hd raws)) signal = Inr es"
      and bars: "list_all2 (adjusted_from s es) raws (adjusted_bars h)"
    obtain n where "n < length raws" "raw = raws ! n" using assms(1) by (auto simp: in_set_conv_nth)
    then have "adjusted_from s es raw (adjusted_bars h ! n)" using bars by (simp add: list_all2_conv_all_nth)
    then obtain b where "adjusted_from s es raw b" by blast
    then have b: "foldE apply_factor 1 (applied_events ?es (raw_session raw)) = Inr (price_factor b)"
      "ddiv 1 (price_factor b) = Inr (volume_factor b)" "deq (price_factor b * volume_factor b) 1"
      using select_Inr(1) [OF sel] by (simp_all add: adjusted_from_def)
    then have "price_factor b = Dec False 3333333333333333333333333333 (-28)
        \<and> volume_factor b = Dec False 3000000000000000000000000000 (-27)"
      using f by (simp add: corporate_action_factors_for_session_def Let_def)
    then show False using b(3) third_product by (simp add: deq_iff_dval)
  qed
  then have "\<exists>err. build_adjusted_history raws xs instrument listing signal moment s = Inl err"
    by (cases "build_adjusted_history raws xs instrument listing signal moment s") auto
  then show ?thesis using f third_product by blast
qed

section \<open>Witnesses\<close>

definition demo_raw_on :: "date \<Rightarrow> raw_bar" where
  "demo_raw_on d = (let b = demo_raw\<lparr>raw_session := d\<rparr> in b\<lparr>raw_bar_id := fields_id (raw_bar_material b)\<rparr>)"

definition demo_binding :: "date \<Rightarrow> bar_binding" where
  "demo_binding d = (let x = \<lparr>bound_session = d, bound_bar_id = raw_bar_id (demo_raw_on d),
       bound_instrument = demo_id (CHR ''a''), bound_listing = demo_id (CHR ''b''),
       identity_snapshot_id = demo_id (CHR ''c''), binding_knowledge_time = 0, binding_id = []\<rparr>
     in x\<lparr>binding_id := fields_id (binding_material x)\<rparr>)"

definition demo_days :: "date list" where
  "demo_days = [Date 2026 3 2, Date 2026 3 12]"

abbreviation demo_build :: "int \<Rightarrow> adjusted_history res" where
  "demo_build n \<equiv> build_adjusted_history (map demo_raw_on demo_days) (map demo_binding demo_days) (demo_id (CHR ''a''))
     (demo_id (CHR ''b'')) (Date 2026 3 12) (PyDatetime 9 (Some 0)) (sealed_ledger [demo_split 1 (dec_of_int n)])"

lemma demo_relevant:
  "relevant_events (sealed_ledger [demo_split a b]) (demo_id (CHR ''a'')) (Date 2026 3 2) (Date 2026 3 12) = [demo_split a b]"
  by (simp add: relevant_events_def active_events_def superseded_ids_def)

lemma demo_raw_on_session [simp]: "raw_session (demo_raw_on d) = d"
  by (simp add: demo_raw_on_def Let_def)

theorem one_for_three_rejected_witness: "\<exists>err. demo_build 3 = Inl err"
  using one_for_three_rejected [of "demo_raw_on (Date 2026 3 2)" "map demo_raw_on demo_days"
      "sealed_ledger [demo_split 1 (dec_of_int 3)]" "demo_id (CHR ''a'')" "Date 2026 3 12" "demo_split 1 (dec_of_int 3)"
      "map demo_binding demo_days" "demo_id (CHR ''b'')" "PyDatetime 9 (Some 0)"]
    demo_relevant [of 1 "dec_of_int 3"]
  by (simp add: demo_days_def share_action_def applied_events_def)

lemma demo_split_made:
  assumes "0 < dval a" "0 < dval b" "dval a \<noteq> dval b"
  shows "mk_action_event (demo_split a b) (PyDatetime 0 (Some 0)) (PyDatetime 1 (Some 0)) = Inr (demo_split a b)"
proof -
  have sha: "sha_text (demo_id c)" if "c \<in> set ''abcd''" for c using that by (auto simp: sha_text_def demo_id_def)
  have i: "fields_id (action_material (demo_split a b)) = action_event_id (demo_split a b)"
    using demo_split_fields(11) by (simp add: action_broken_def)
  have t: "(demo_split a b)\<lparr>announcement_time := 0, action_knowledge_time := 1\<rparr> = demo_split a b"
    "(demo_split a b)\<lparr>action_event_id := action_event_id (demo_split a b)\<rparr> = demo_split a b"
    by (simp_all add: demo_split_def Let_def)
  have "\<forall>g \<in> set (action_guards (demo_split a b)). \<not> fst g"
    using assms sha unfolding action_guards_def terms_guards_def
    by (simp add: action_sha_def opt_sha_def share_action_def positive_terms_def le_iff_dval deq_iff_dval)
       (simp add: demo_split_def action_sha_def Let_def)
  then show ?thesis
    using sha by (simp add: mk_action_event_def action_sha_def opt_sha_def action_utc_def to_utc_def t i guards_Inr_iff Let_def)
qed

lemma demo_select:
  assumes "es = [demo_split a b]"
  shows "select_automatic_adjustment_events (sealed_ledger es) (demo_id (CHR ''a'')) (demo_id (CHR ''b''))
      (Date 2026 3 2) (Date 2026 3 12) = Inr es"
  unfolding assms
  by (simp add: select_automatic_adjustment_events_def demo_relevant guards_Inr_iff select_guards_def share_action_def
      automatic_raw_price_factor_def adj_sha_def Let_def) (simp add: sha_text_def demo_id_def)

theorem session_factors_witness:
  "\<exists>factor. corporate_action_factors_for_session [demo_split 1 (dec_of_int 5)] (Date 2026 3 2) =
     Inr (factor, dquot 1 factor, [action_event_id (demo_split 1 (dec_of_int 5))]) \<and> 0 < dval factor"
  using session_factors [OF demo_select [OF refl, of 1 "dec_of_int 5"], of "Date 2026 3 2"]
    demo_split_made [of 1 "dec_of_int 5"]
  by (auto simp: applied_events_def)

lemma whole_value:
  assumes "dval x = of_int n" and "\<bar>n\<bar> < 10 ^ 28" and "dval v = of_int m" and "k = n * m" and "\<bar>k\<bar> < 10 ^ 28"
  shows "dval (x * v) = of_int k"
  using times_exact [OF of_int_repr [OF assms(5)], of x v] assms by simp

lemma scaled_value:
  assumes "dval f = 1 / of_int q" "0 < q" and "dval x = of_int (q * k)" and "\<bar>k\<bar> < 10 ^ 28"
  shows "dval (x * f) = of_int k"
  using times_exact [OF of_int_repr [OF assms(4)], of x f] assms by simp

lemma demo_adjusts:
  assumes factors: "corporate_action_factors_for_session es d = Inr (f, r, ids)"
    and f: "dval f = 1 / of_int q" and r: "dval r = of_int q" and q: "q = 1 \<or> q = 5"
    and ids: "sorted_unique ids" "list_all sha_text ids"
  shows "\<exists>b. adjust_bar (sealed_ledger evs) es (demo_raw_on d, demo_binding d) = Inr b \<and> adj_session b = d
    \<and> adjustment_snapshot_id b = snapshot_id (sealed_ledger evs) \<and> adj_knowledge b = 5"
proof -
  have v: "dval (Dec False 100 0 * f) = of_int (100 div q)" "dval (Dec False 110 0 * f) = of_int (110 div q)"
    "dval (Dec False 90 0 * f) = of_int (90 div q)" "dval (Dec False 105 0 * f) = of_int (105 div q)"
    using q by (intro scaled_value [OF f]; auto simp: dval_Dec)+
  have w: "dval (dec_of_int 1000 * r) = of_int (1000 * q)"
    using q r by (intro whole_value [where n = 1000 and m = q]) auto
  have p: "dval (f * r) = 1" using times_exact [of 1 f r] f r q by auto
  have "\<not> dzero (dec_of_int 1000 * r)" using w q by (auto simp flip: dval_zero_iff)
  then have a: "dval (dquot (Dec False 100000 0) (dec_of_int 1000 * r)) = of_int (100 div q)"
    using dquot_exact [of "dec_of_int 1000 * r" "dec_of_int (100 div q)" "Dec False 100000 0"] w q
    by (auto simp: of_int_repr dval_Dec)
  have t: "normalized_upper ''TCS''" "normalized_upper ''EQ''" "normalized_upper ''INE467B01029''" by code_simp+
  have sha: "sha_text (raw_bar_id (demo_raw_on d))" "sha_text (binding_id (demo_binding d))"
    "sha_text (identity_snapshot_id (demo_binding d))" "sha_text (snapshot_id (sealed_ledger evs))"
    by (simp_all add: demo_raw_on_def demo_binding_def sealed_ledger_def Let_def) (simp add: sha_text_def demo_id_def)
  have fields: "raw_open (demo_raw_on d) = Dec False 100 0" "raw_high (demo_raw_on d) = Dec False 110 0"
    "raw_low (demo_raw_on d) = Dec False 90 0" "raw_close (demo_raw_on d) = Dec False 105 0"
    "raw_volume (demo_raw_on d) = 1000" "raw_traded_value (demo_raw_on d) = Dec False 100000 0"
    "raw_symbol (demo_raw_on d) = ''TCS''" "raw_series (demo_raw_on d) = ''EQ''" "raw_isin (demo_raw_on d) = ''INE467B01029''"
    "raw_knowledge_time (demo_raw_on d) = 0" "binding_knowledge_time (demo_binding d) = 0"
    by (simp_all add: demo_raw_on_def demo_raw_def demo_binding_def Let_def)
  show ?thesis
    using q ids sha by (auto simp: adjust_bar_def factors mk_adjusted_bar_def guards_Inr_iff adjusted_guards_def adj_positive_def
        adj_sha_def fields t v w p a f r le_iff_dval less_iff_dval deq_iff_dval dval_py_max dval_py_min dval_Dec list_all_iff Let_def)
qed

lemma demo_factors:
  "\<exists>f r ids. corporate_action_factors_for_session [demo_split 1 (dec_of_int 5)] d = Inr (f, r, ids)
     \<and> (\<exists>q. dval f = 1 / of_int q \<and> dval r = of_int q \<and> (q = 1 \<or> q = 5)) \<and> sorted_unique ids \<and> list_all sha_text ids"
proof -
  let ?f = "1 * dquot 1 (dec_of_int 5)"
  have "\<not> dzero (dec_of_int 5)" by (simp flip: dval_zero_iff)
  then have x: "dval (dquot 1 (dec_of_int 5)) = 1 / 5"
    using dquot_exact [of "dec_of_int 5" "Dec False 2 (-1)" 1] by (simp add: repr_def prec_def dval_Dec power_int_minus)
  then have f: "dval ?f = 1 / 5"
    using times_exact [of "Dec False 2 (-1)" 1 "dquot 1 (dec_of_int 5)"] by (simp add: repr_def prec_def dval_Dec power_int_minus)
  then have nz: "\<not> dzero ?f" by (simp flip: dval_zero_iff)
  then have r: "dval (dquot 1 ?f) = 5" using dquot_exact [OF nz of_int_repr [of 5], of 1] f by simp
  have one: "\<not> dzero 1" by (simp flip: dval_zero_iff)
  then have r1: "dval (dquot 1 1) = 1" using dquot_exact [OF one of_int_repr [of 1], of 1] by simp
  have a: "automatic_raw_price_factor (demo_split 1 (dec_of_int 5)) = Some (dquot 1 (dec_of_int 5))"
    by (simp add: automatic_raw_price_factor_def share_action_def)
  show ?thesis
  proof (cases "d < Date 2026 3 10")
    case True
    then have "corporate_action_factors_for_session [demo_split 1 (dec_of_int 5)] d =
        Inr (?f, dquot 1 ?f, [action_event_id (demo_split 1 (dec_of_int 5))])"
      using nz by (simp add: corporate_action_factors_for_session_def applied_events_def apply_factor_def a ddiv_def Let_def)
    then show ?thesis using f r by (intro exI [where x = 5] exI conjI) auto
  next
    case False
    then have "corporate_action_factors_for_session [demo_split 1 (dec_of_int 5)] d = Inr (1, dquot 1 1, [])"
      using one by (simp add: corporate_action_factors_for_session_def applied_events_def ddiv_def Let_def)
    then show ?thesis using r1 by (intro exI [where x = 1] exI conjI) auto
  qed
qed

lemma demo_bar:
  "\<exists>b. adjust_bar (sealed_ledger evs) [demo_split 1 (dec_of_int 5)] (demo_raw_on d, demo_binding d) = Inr b \<and> adj_session b = d
    \<and> adjustment_snapshot_id b = snapshot_id (sealed_ledger evs) \<and> adj_knowledge b = 5"
  using demo_factors [of d] demo_adjusts by blast

lemma demo_built: "\<exists>h. demo_build 5 = Inr h"
proof -
  let ?s = "sealed_ledger [demo_split 1 (dec_of_int 5)]"
  have sha: "sha_text (demo_id c)" if "c \<in> set ''abcd''" for c using that by (auto simp: sha_text_def demo_id_def)
  have "verify_action_snapshot ?s = Inr ()" by (rule mk_action_snapshot_Inr(2) [OF demo_snapshot])
  moreover have raw: "raw_known 9 (demo_raw_on d) = Inr ()" for d
    by (simp add: raw_known_def verify_raw_bar_def demo_raw_on_def demo_raw_def raw_bar_material_def Let_def)
  moreover have bind: "\<forall>g \<in> set (binding_guards (demo_id (CHR ''a'')) (demo_id (CHR ''b'')) 9 (demo_raw_on d, demo_binding d)). \<not> fst g" for d
    by (simp add: binding_guards_def binding_broken_def demo_binding_def binding_material_def Let_def)
  moreover obtain b1 where b1: "adjust_bar ?s [demo_split 1 (dec_of_int 5)] (demo_raw_on (Date 2026 3 2), demo_binding (Date 2026 3 2)) = Inr b1"
      "adj_session b1 = Date 2026 3 2" "adjustment_snapshot_id b1 = snapshot_id ?s" "adj_knowledge b1 = 5" using demo_bar by blast
  moreover obtain b2 where b2: "adjust_bar ?s [demo_split 1 (dec_of_int 5)] (demo_raw_on (Date 2026 3 12), demo_binding (Date 2026 3 12)) = Inr b2"
      "adj_session b2 = Date 2026 3 12" "adjustment_snapshot_id b2 = snapshot_id ?s" "adj_knowledge b2 = 5" using demo_bar by blast
  moreover have "\<not> fst (adjusted_broken b1)" "\<not> fst (adjusted_broken b2)"
    using b1(1) b2(1) mk_adjusted_bar_Inr(3) by (auto simp: adjust_bar_def res_simps)
  moreover have "sha_text (snapshot_id ?s)" by (simp add: sealed_ledger_def)
  ultimately show ?thesis
    using demo_select [OF refl, of 1 "dec_of_int 5"]
    by (simp add: build_adjusted_history_def adj_utc_def to_utc_def guards_Inr_iff demo_days_def mk_adjusted_history_def
        adjusted_history_guards_def lineage_broken_def adj_sha_def sha ball_Un Let_def)
qed

theorem adjusted_history_sound_witness:
  "\<exists>h. demo_build 5 = Inr h \<and> price_factor (last (adjusted_bars h)) = 1
     \<and> map adj_session (adjusted_bars h) = [Date 2026 3 2, Date 2026 3 12]"
proof -
  obtain h :: adjusted_history where h: "demo_build 5 = Inr h" using demo_built by blast
  from adjusted_history_sound [OF h demo_snapshot] h show ?thesis by (simp add: demo_days_def)
qed

end
