(* ===== verification/PyMath.thy ===== *)
theory PyMath
  imports Complex_Main PyDecimal
begin

text \<open>
  \<open>Decimal.ln\<close> and \<open>Decimal.exp\<close> with the default context: the real result correctly rounded to 28
  digits, half to even, as the \<open>decimal\<close> module documents them; the exact cases \<open>ln(1)\<close> and \<open>exp(0)\<close> are the
  decimals 0 and 1.

  \<open>round_real\<close> is that rounding; its error lemma is what a caller may rely on.
\<close>

definition round_half_real :: "real \<Rightarrow> nat" where
  \<comment> \<open>the nearest natural number to a non-negative real, ties to even\<close>
  "round_half_real y = (let f = nat \<lfloor>y\<rfloor>; r = y - of_nat f in
     if r < 1 / 2 then f else if 1 / 2 < r then Suc f else if even f then f else Suc f)"

definition round_real :: "real \<Rightarrow> decimal" where
  "round_real x = (if x = 0 then 0 else
     let e = \<lfloor>log 10 \<bar>x\<bar>\<rfloor> - int (prec - 1); c = round_half_real (\<bar>x\<bar> / 10 powi e) in
     if c = 10 ^ prec then Dec (x < 0) (10 ^ (prec - 1)) (e + 1) else Dec (x < 0) c e)"

definition dreal :: "decimal \<Rightarrow> real" where
  "dreal d = of_rat (dval d)"

definition dec_ln :: "decimal \<Rightarrow> decimal" where
  \<comment> \<open>of a positive decimal\<close>
  "dec_ln d = (if deq d 1 then 0 else round_real (ln (dreal d)))"

definition dec_exp :: "decimal \<Rightarrow> decimal" where
  "dec_exp d = (if dzero d then 1 else round_real (exp (dreal d)))"

lemma of_rat_powi: "of_rat (a powi n) = (of_rat a powi n :: real)"
  by (simp add: power_int_def of_rat_power of_rat_inverse)

lemma round_half_real_err: "0 \<le> y \<Longrightarrow> \<bar>of_nat (round_half_real y) - y\<bar> \<le> 1 / 2"
proof -
  assume y: "0 \<le> y"
  define f where "f = nat \<lfloor>y\<rfloor>"
  have "real f = of_int \<lfloor>y\<rfloor>" using y by (simp add: f_def)
  then have "real f \<le> y" "y < real f + 1" by linarith+
  then show ?thesis unfolding round_half_real_def f_def [symmetric] Let_def by (auto simp: abs_le_iff)
qed

lemma round_real_err:
  assumes "x \<noteq> 0"
  shows "\<bar>dreal (round_real x) - x\<bar> \<le> 10 powi (\<lfloor>log 10 \<bar>x\<bar>\<rfloor> - 27) / 2"
proof -
  define e where "e = \<lfloor>log 10 \<bar>x\<bar>\<rfloor> - int (prec - 1)"
  define y where "y = \<bar>x\<bar> / 10 powi e"
  have e27: "e = \<lfloor>log 10 \<bar>x\<bar>\<rfloor> - 27" by (simp add: e_def prec_def)
  have p: "(0 :: real) < 10 powi e" by simp
  have xy: "\<bar>x\<bar> = y * 10 powi e" by (simp add: y_def)
  have err: "\<bar>of_nat (round_half_real y) - y\<bar> \<le> 1 / 2" by (rule round_half_real_err) (simp add: y_def)
  have r: "round_real x = (if round_half_real y = 10 ^ prec then Dec (x < 0) (10 ^ (prec - 1)) (e + 1)
      else Dec (x < 0) (round_half_real y) e)"
    unfolding round_real_def Let_def e_def [symmetric] y_def [symmetric] using assms by (simp only: if_False)
  have "(10 :: real) ^ (prec - 1) * 10 powi (e + 1) = 10 ^ prec * 10 powi e" by (simp add: prec_def power_int_add)
  then have v: "dreal (round_real x) = (if x < 0 then - 1 else 1) * of_nat (round_half_real y) * 10 powi e"
    unfolding r by (simp add: dreal_def dval_Dec of_rat_mult of_rat_power of_rat_minus of_rat_powi)
  have "dreal (round_real x) - x = (if x < 0 then - 1 else 1) * (of_nat (round_half_real y) - y) * 10 powi e"
    unfolding v using xy by (auto simp: algebra_simps abs_if split: if_splits)
  then have "\<bar>dreal (round_real x) - x\<bar> = \<bar>of_nat (round_half_real y) - y\<bar> * 10 powi e"
    using p by (simp add: abs_mult)
  also have "\<dots> \<le> 1 / 2 * 10 powi e" using err p by (intro mult_right_mono) simp_all
  finally show ?thesis by (simp add: e27)
qed

end
