(* ===== verification/Evaluation.thy ===== *)
theory Evaluation
  imports Simulator PyMath
begin

text \<open>
  The values of the trial evaluation engine (first half of \<open>evaluation/engine.py\<close>): execution policy, dataset of
  daily bars, trade intents, evaluated trades, equity points, the evaluation result and the comparison of a strategy
  with its benchmark.

  The constructor of a result recomputes everything that can be recomputed: final equity from fills and charges,
  the drawdowns, the metrics and the verdict.  The engine itself is in \<open>Engine\<close>.
\<close>

section \<open>Policy, dataset and intents\<close>

definition eval_err :: "string \<Rightarrow> py_exc" where
  "eval_err msg = TrialEvaluationError msg"

definition eval_sha :: "string \<Rightarrow> bool \<times> py_exc" where
  "eval_sha s = (\<not> sha_text s, eval_err ''must be a full lowercase SHA-256'')"

definition eval_positive :: "decimal \<Rightarrow> bool \<times> py_exc" where
  "eval_positive v = (v \<le> 0, eval_err ''must be positive'')"

definition eval_ids :: "string list \<Rightarrow> (bool \<times> py_exc) list" where
  "eval_ids xs = (xs = [] \<or> \<not> sorted_unique xs, eval_err ''must be a sorted unique tuple'') # map eval_sha xs"

definition supported_metrics :: "string list" where
  \<comment> \<open>\<open>SUPPORTED_METRICS\<close>, sorted\<close>
  "supported_metrics = [''max_drawdown'', ''net_cagr'', ''net_profit'', ''net_return'', ''trade_count'', ''turnover'']"

definition threshold_metrics :: "string list" where
  "threshold_metrics = filter (\<lambda>n. n \<noteq> ''turnover'') supported_metrics"

record execution_policy =
  policy_slippage :: decimal
  policy_participation :: decimal
  policy_stressed :: "decimal option"
  exec_version :: string
  exec_policy_id :: string

definition exec_policy_material :: "execution_policy \<Rightarrow> (string \<times> pyval) list" where
  "exec_policy_material p =
     [(''schema'', PStr ''daily-execution-policy/v1''),
      (''slippage_bps'', PDecimal (policy_slippage p)),
      (''maximum_participation'', PDecimal (policy_participation p)),
      (''stressed_slippage_bps'', popt PDecimal (policy_stressed p)),
      (''version'', PStr (exec_version p)),
      (''entry_timing'', PStr ''STRICTLY_AFTER_SIGNAL_SESSION''),
      (''same_bar'', PStr ''STOP_ASSUMED_TARGET_NOT_ASSUMED''),
      (''dual_touch'', PStr ''STOP_FIRST''),
      (''gap_stop'', PStr ''OPEN_THEN_ADVERSE_SLIPPAGE''),
      (''locked_sell'', PStr ''NO_FILL''),
      (''partial_fills'', PStr ''DISABLED'')]"

definition exec_policy_guards :: "execution_policy \<Rightarrow> (bool \<times> py_exc) list" where
  "exec_policy_guards p =
     [eval_positive (policy_participation p)]
     @ (case policy_stressed p of None \<Rightarrow> []
        | Some s \<Rightarrow> [eval_positive s, (s \<le> policy_slippage p, eval_err ''stressed slippage must exceed base slippage'')])
     @ [(1 < policy_participation p, eval_err ''maximum_participation cannot exceed one''),
        (exec_version p = [], eval_err ''execution policy version is required'')]"

definition mk_exec_policy :: "execution_policy \<Rightarrow> execution_policy res" where
  "mk_exec_policy p = guards (exec_policy_guards p) (Inr (p\<lparr>exec_policy_id := fields_id (exec_policy_material p)\<rparr>))"

definition exec_policy_broken :: "execution_policy \<Rightarrow> bool \<times> py_exc" where
  "exec_policy_broken p = (exec_policy_id p \<noteq> fields_id (exec_policy_material p),
     eval_err ''execution policy content identity failed'')"

datatype data_readiness = SYNTHETIC | COLLECTION_ONLY | POINT_IN_TIME_VERIFIED

fun data_readiness_name :: "data_readiness \<Rightarrow> string" where
  "data_readiness_name SYNTHETIC = ''SYNTHETIC''"
| "data_readiness_name COLLECTION_ONLY = ''COLLECTION_ONLY''"
| "data_readiness_name POINT_IN_TIME_VERIFIED = ''POINT_IN_TIME_VERIFIED''"

record evaluation_dataset =
  ds_sessions :: "date list"
  ds_bars :: "simulation_bar list"
  ds_sources :: "string list"
  ds_universes :: "string list"
  ds_readiness :: data_readiness
  dataset_id :: string

definition simulation_bar_val :: "simulation_bar \<Rightarrow> pyval" where
  "simulation_bar_val b = PDataclass ''india_swing.execution.simulator.SimulationBar''
     (tl (bar_material b) @ [(''bar_id'', PStr (bar_id b))])"

definition dataset_material :: "evaluation_dataset \<Rightarrow> (string \<times> pyval) list" where
  "dataset_material ds =
     [(''schema'', PStr ''trial-evaluation-dataset/v1''),
      (''sessions'', PTuple (map PDate (ds_sessions ds))),
      (''bars'', PTuple (map simulation_bar_val (ds_bars ds))),
      (''source_snapshot_ids'', PTuple (map PStr (ds_sources ds))),
      (''universe_snapshot_ids'', PTuple (map PStr (ds_universes ds))),
      (''readiness'', PEnum ''india_swing.evaluation.engine.EvaluationDataReadiness''
         (PStr (data_readiness_name (ds_readiness ds))))]"

definition bar_place :: "simulation_bar \<Rightarrow> date \<times> string" where
  "bar_place b = (bar_session b, bar_symbol b)"

definition dataset_guards :: "evaluation_dataset \<Rightarrow> (bool \<times> py_exc) list" where
  "dataset_guards ds =
     [(ds_sessions ds = [] \<or> \<not> sorted_unique (ds_sessions ds), eval_err ''sessions must be sorted unique dates''),
      (ds_bars ds \<noteq> sort_key bar_place (ds_bars ds), eval_err ''bars must be an ordered exact tuple''),
      (\<not> distinct (map bar_place (ds_bars ds)), eval_err ''dataset cannot contain duplicate symbol/session bars''),
      (list_ex (\<lambda>b. bar_session b \<notin> set (ds_sessions ds)) (ds_bars ds),
         eval_err ''bar session is outside the dataset calendar'')]
     @ eval_ids (ds_sources ds) @ eval_ids (ds_universes ds)"

definition mk_dataset :: "evaluation_dataset \<Rightarrow> evaluation_dataset res" where
  "mk_dataset ds = guards (dataset_guards ds) (Inr (ds\<lparr>dataset_id := fields_id (dataset_material ds)\<rparr>))"

definition dataset_broken :: "evaluation_dataset \<Rightarrow> bool \<times> py_exc" where
  "dataset_broken ds = (dataset_id ds \<noteq> fields_id (dataset_material ds),
     eval_err ''evaluation dataset content identity failed'')"

record trade_intent =
  intent_signal :: string
  intent_universe :: string
  intent_isin :: string
  intent_order :: limit_entry_order
  intent_stop :: decimal
  intent_target :: decimal
  max_holding :: int
  intent_id :: string

definition entry_order_val :: "limit_entry_order \<Rightarrow> pyval" where
  "entry_order_val e = PDataclass ''india_swing.execution.simulator.LimitEntryOrder''
     (tl (entry_material e) @ [(''order_id'', PStr (entry_order_id e))])"

definition intent_material :: "trade_intent \<Rightarrow> (string \<times> pyval) list" where
  "intent_material i =
     [(''schema'', PStr ''trial-evaluation-trade-intent/v1''),
      (''signal_id'', PStr (intent_signal i)),
      (''universe_snapshot_id'', PStr (intent_universe i)),
      (''isin'', PStr (intent_isin i)),
      (''entry_order'', entry_order_val (intent_order i)),
      (''stop_price'', PDecimal (intent_stop i)),
      (''target_price'', PDecimal (intent_target i)),
      (''max_holding_sessions'', PInt (max_holding i))]"

definition intent_price :: "trade_intent \<Rightarrow> decimal \<Rightarrow> unit res" where
  \<comment> \<open>one pass of the loop over stop and target\<close>
  "intent_price i v = guards [eval_positive v] (bindE (on_tick v (entry_tick (intent_order i))) (\<lambda>ok.
     guards [(\<not> ok, eval_err ''must be an exact tick multiple'')] (Inr ())))"

definition mk_intent :: "trade_intent \<Rightarrow> trade_intent res" where
  "mk_intent i = guards
     [eval_sha (intent_signal i), eval_sha (intent_universe i),
      (length (intent_isin i) \<noteq> 12 \<or> intent_isin i \<noteq> upper (strip (intent_isin i)),
         eval_err ''isin must be normalized 12-character text'')]
     (bindE (mapE (intent_price i) [intent_stop i, intent_target i]) (\<lambda>_. guards
       [(\<not> (intent_stop i < limit_price (intent_order i) \<and> limit_price (intent_order i) < intent_target i),
           eval_err ''intent prices must satisfy stop < limit < target''),
        (max_holding i \<le> 0, eval_err ''max_holding_sessions must be positive'')]
       (Inr (i\<lparr>intent_id := fields_id (intent_material i)\<rparr>))))"

definition intent_broken :: "trade_intent \<Rightarrow> bool \<times> py_exc" where
  "intent_broken i = (intent_id i \<noteq> fields_id (intent_material i), eval_err ''trade intent content identity failed'')"

section \<open>Trades and equity points\<close>

record evaluated_trade =
  trade_intent_id :: string
  trade_isin :: string
  trade_entry :: simulated_fill
  trade_exit :: simulated_fill
  gross_pnl :: decimal
  evaluated_trade_id :: string

definition simulated_fill_val :: "simulated_fill \<Rightarrow> pyval" where
  "simulated_fill_val f = PDataclass ''india_swing.execution.simulator.SimulatedFill''
     (tl (simulated_fill_material f) @ [(''fill_id'', PStr (simulated_fill_id f))])"

definition trade_material :: "evaluated_trade \<Rightarrow> (string \<times> pyval) list" where
  "trade_material t =
     [(''schema'', PStr ''evaluated-swing-trade/v1''),
      (''intent_id'', PStr (trade_intent_id t)),
      (''isin'', PStr (trade_isin t)),
      (''entry_fill'', simulated_fill_val (trade_entry t)),
      (''exit_fill'', simulated_fill_val (trade_exit t)),
      (''gross_pnl'', PDecimal (gross_pnl t))]"

definition trade_guards :: "evaluated_trade \<Rightarrow> (bool \<times> py_exc) list" where
  "trade_guards t =
     [eval_sha (trade_intent_id t),
      (length (trade_isin t) \<noteq> 12, eval_err ''isin must contain 12 characters''),
      (fill_side_of (trade_entry t) \<noteq> BUY \<or> fill_side_of (trade_exit t) \<noteq> SELL,
         eval_err ''evaluated trade requires buy then sell fills''),
      (fill_symbol (trade_entry t) \<noteq> fill_symbol (trade_exit t)
         \<or> fill_quantity (trade_entry t) \<noteq> fill_quantity (trade_exit t)
         \<or> fill_session (trade_exit t) < fill_session (trade_entry t),
         eval_err ''evaluated trade fills are inconsistent'')]"

definition mk_trade :: "evaluated_trade \<Rightarrow> evaluated_trade res" where
  "mk_trade t0 = (let t = t0\<lparr>gross_pnl := (fill_price (trade_exit t0) - fill_price (trade_entry t0))
       * dec_of_int (fill_quantity (trade_entry t0))\<rparr> in
     guards (trade_guards t) (Inr (t\<lparr>evaluated_trade_id := fields_id (trade_material t)\<rparr>)))"

record equity_point =
  point_session :: date
  equity :: decimal
  drawdown :: decimal

definition mk_point :: "equity_point \<Rightarrow> equity_point res" where
  "mk_point p = guards [(0 < drawdown p, eval_err ''drawdown cannot be positive'')] (Inr p)"

section \<open>Metrics\<close>

definition fill_cost :: "simulated_fill \<Rightarrow> decimal" where
  "fill_cost f = fill_price f * dec_of_int (fill_quantity f)"

definition turnover_value :: "evaluated_trade list \<Rightarrow> decimal" where
  "turnover_value ts = dsum (map (\<lambda>t. fill_cost (trade_entry t) + fill_cost (trade_exit t)) ts)"

definition dmin_list :: "decimal list \<Rightarrow> decimal" where
  "dmin_list vs = foldl py_min (hd vs) (tl vs)"

definition net_cagr :: "decimal \<Rightarrow> decimal \<Rightarrow> int \<Rightarrow> decimal" where
  "net_cagr capital final elapsed = (if final \<le> 0 then dec_of_int (- 1)
     else dec_exp (dquot (dec_ln (dquot final capital) * dec_of_int 365) (dec_of_int elapsed)) - 1)"

definition metric_values :: "decimal \<Rightarrow> evaluated_trade list \<Rightarrow> equity_point list \<Rightarrow> (string \<times> decimal) list" where
  \<comment> \<open>the capital is positive and the curve not empty\<close>
  "metric_values capital ts curve = (let final = equity (last curve); profit = final - capital;
       elapsed = max 1 (toordinal (point_session (last curve)) - toordinal (point_session (hd curve))) in
     [(''max_drawdown'', dmin_list (map drawdown curve)),
      (''net_cagr'', net_cagr capital final elapsed),
      (''net_profit'', profit),
      (''net_return'', dquot profit capital),
      (''trade_count'', dec_of_int (int (length ts))),
      (''turnover'', dquot (turnover_value ts) capital)])"

definition meets :: "(string \<times> decimal) list \<Rightarrow> string \<times> decimal \<Rightarrow> bool" where
  \<comment> \<open>\<open>metric_map[name] >= threshold\<close>; the names have been checked\<close>
  "meets metrics = (\<lambda>(name, threshold). case map_of metrics name of None \<Rightarrow> False | Some v \<Rightarrow> threshold \<le> v)"

section \<open>Results\<close>

record evaluation_result =
  res_trial :: string
  res_plan :: string
  res_dataset :: string
  res_policy :: string
  res_schedule :: string
  res_capital :: decimal
  res_trades :: "evaluated_trade list"
  res_charges :: "delivery_charge_breakdown option"
  res_curve :: "equity_point list"
  res_metrics :: "(string \<times> decimal) list"
  res_thresholds :: "(string \<times> decimal) list"
  res_passed :: bool
  result_id :: string

definition trade_key :: "evaluated_trade \<Rightarrow> date \<times> string" where
  "trade_key t = (fill_session (trade_entry t), trade_intent_id t)"

definition charge_total :: "delivery_charge_breakdown option \<Rightarrow> decimal" where
  "charge_total c = (case c of None \<Rightarrow> 0 | Some b \<Rightarrow> breakdown_total b)"

definition expected_final :: "evaluation_result \<Rightarrow> decimal" where
  "expected_final r = res_capital r + dsum (map gross_pnl (res_trades r)) - charge_total (res_charges r)"

definition fall :: "decimal \<Rightarrow> decimal \<Rightarrow> decimal" where
  \<comment> \<open>\<open>equity / peak - ONE if peak > ZERO else Decimal("-1")\<close>\<close>
  "fall e peak = (if 0 < peak then dquot e peak - 1 else dec_of_int (- 1))"

definition check_drawdown :: "decimal \<Rightarrow> equity_point \<Rightarrow> decimal res" where
  "check_drawdown peak0 p = (let peak = py_max peak0 (equity p) in
     guards [(\<not> deq (drawdown p) (fall (equity p) peak), eval_err ''equity drawdown is inconsistent'')] (Inr peak))"

definition shape_guards :: "evaluation_result \<Rightarrow> (bool \<times> py_exc) list" where
  "shape_guards r =
     map eval_sha [res_trial r, res_plan r, res_dataset r, res_policy r, res_schedule r]
     @ [eval_positive (res_capital r),
        (res_trades r \<noteq> sort_key trade_key (res_trades r), eval_err ''trades must be an ordered exact tuple''),
        (res_charges r = None \<and> res_trades r \<noteq> [], eval_err ''executed trades require calculated charges''),
        (res_curve r = [] \<or> \<not> sorted_unique (map point_session (res_curve r)),
           eval_err ''equity curve must be ordered and unique''),
        (map fst (res_metrics r) \<noteq> supported_metrics, eval_err ''result must contain the complete metric set''),
        (res_thresholds r = [] \<or> \<not> sorted_unique (map fst (res_thresholds r)),
           eval_err ''pass thresholds must be sorted and unique'')]
     @ map (\<lambda>t. (fst t \<notin> set threshold_metrics, eval_err ''pass threshold has no supported direction'')) (res_thresholds r)
     @ [(\<not> deq (equity (last (res_curve r))) (expected_final r),
           eval_err ''final equity is inconsistent with fills and charges'')]"

definition metric_guards :: "evaluation_result \<Rightarrow> (bool \<times> py_exc) list" where
  "metric_guards r = (let expected = metric_values (res_capital r) (res_trades r) (res_curve r) in
     [(\<not> list_all2 (\<lambda>(n, a) (m, b). n = m \<and> deq a b) (res_metrics r) expected,
         eval_err ''metrics were not generated from evaluation evidence''),
      (res_passed r \<noteq> list_all (meets expected) (res_thresholds r),
         eval_err ''pass result is inconsistent with registered thresholds'')])"

definition point_val :: "equity_point \<Rightarrow> pyval" where
  "point_val p = PDataclass ''india_swing.evaluation.engine.EquityPoint''
     [(''session'', PDate (point_session p)), (''equity'', PDecimal (equity p)), (''drawdown'', PDecimal (drawdown p))]"

definition trade_val :: "evaluated_trade \<Rightarrow> pyval" where
  "trade_val t = PDataclass ''india_swing.evaluation.engine.EvaluatedTrade''
     (tl (trade_material t) @ [(''trade_id'', PStr (evaluated_trade_id t))])"

definition breakdown_val :: "delivery_charge_breakdown \<Rightarrow> pyval" where
  "breakdown_val b = PDataclass ''india_swing.execution.costs.DeliveryChargeBreakdown''
     [(''schedule_id'', PStr (breakdown_schedule_id b)), (''legs'', PTuple (map leg_val (legs b))),
      (''calculation_id'', PStr (calculation_id b))]"

definition named_values :: "(string \<times> decimal) list \<Rightarrow> pyval" where
  "named_values ts = PTuple (map (\<lambda>(n, d). PTuple [PStr n, PDecimal d]) ts)"

definition result_material :: "evaluation_result \<Rightarrow> (string \<times> pyval) list" where
  "result_material r =
     [(''schema'', PStr ''trial-evaluation-result/v1''),
      (''trial_id'', PStr (res_trial r)),
      (''split_plan_id'', PStr (res_plan r)),
      (''dataset_id'', PStr (res_dataset r)),
      (''execution_policy_id'', PStr (res_policy r)),
      (''cost_schedule_id'', PStr (res_schedule r)),
      (''initial_capital'', PDecimal (res_capital r)),
      (''trades'', PTuple (map trade_val (res_trades r))),
      (''charges'', popt breakdown_val (res_charges r)),
      (''equity_curve'', PTuple (map point_val (res_curve r))),
      (''metrics'', named_values (res_metrics r)),
      (''pass_thresholds'', named_values (res_thresholds r)),
      (''passed'', PBool (res_passed r))]"

definition mk_result :: "evaluation_result \<Rightarrow> evaluation_result res" where
  "mk_result r = guards (shape_guards r) (bindE (foldE check_drawdown (res_capital r) (res_curve r)) (\<lambda>_.
     guards (metric_guards r) (Inr (r\<lparr>result_id := fields_id (result_material r)\<rparr>))))"

definition result_broken :: "evaluation_result \<Rightarrow> bool \<times> py_exc" where
  "result_broken r = (result_id r \<noteq> fields_id (result_material r), eval_err ''evaluation result content identity failed'')"

section \<open>Comparisons\<close>

record trial_comparison =
  cmp_trial :: string
  strategy_id :: string
  cmp_benchmark :: string
  cmp_metric :: string
  cmp_base_slippage :: decimal
  cmp_stressed_slippage :: "decimal option"
  strategy_base :: evaluation_result
  benchmark_base :: evaluation_result
  strategy_stressed :: "evaluation_result option"
  benchmark_stressed :: "evaluation_result option"
  cmp_metrics :: "(string \<times> decimal) list"
  cmp_passed :: bool
  cmp_id :: string

definition cmp_material :: "trial_comparison \<Rightarrow> (string \<times> pyval) list" where
  "cmp_material c =
     [(''schema'', PStr ''trial-evaluation-comparison/v1''),
      (''trial_id'', PStr (cmp_trial c)),
      (''strategy_id'', PStr (strategy_id c)),
      (''benchmark_id'', PStr (cmp_benchmark c)),
      (''primary_metric'', PStr (cmp_metric c)),
      (''base_slippage_bps'', PDecimal (cmp_base_slippage c)),
      (''stressed_slippage_bps'', popt PDecimal (cmp_stressed_slippage c)),
      (''strategy_base'', PStr (result_id (strategy_base c))),
      (''benchmark_base'', PStr (result_id (benchmark_base c))),
      (''strategy_stressed'', popt (\<lambda>r. PStr (result_id r)) (strategy_stressed c)),
      (''benchmark_stressed'', popt (\<lambda>r. PStr (result_id r)) (benchmark_stressed c)),
      (''comparison_metrics'', named_values (cmp_metrics c)),
      (''passed'', PBool (cmp_passed c))]"

definition binding_guards :: "trial_comparison \<Rightarrow> evaluation_result \<Rightarrow> (bool \<times> py_exc) list" where
  "binding_guards c r = (let first = strategy_base c in
     [result_broken r,
      (res_trial r \<noteq> cmp_trial c \<or> res_plan r \<noteq> res_plan first \<or> res_dataset r \<noteq> res_dataset first
         \<or> res_policy r \<noteq> res_policy first \<or> res_schedule r \<noteq> res_schedule first
         \<or> \<not> deq (res_capital r) (res_capital first), eval_err ''comparison result bindings differ'')])"

definition wrong_slippage :: "decimal \<Rightarrow> evaluation_result \<Rightarrow> bool" where
  "wrong_slippage s r = list_ex (\<lambda>t. \<not> deq (slippage_bps (trade_entry t)) s \<or> \<not> deq (slippage_bps (trade_exit t)) s) (res_trades r)"

definition optional :: "'a option \<Rightarrow> 'a list" where
  "optional x = (case x of None \<Rightarrow> [] | Some v \<Rightarrow> [v])"

definition cmp_guards :: "trial_comparison \<Rightarrow> (bool \<times> py_exc) list" where
  "cmp_guards c =
     [eval_sha (cmp_trial c)]
     @ map (\<lambda>s. (blank s, eval_err ''is required'')) [strategy_id c, cmp_benchmark c, cmp_metric c]
     @ [(cmp_metric c \<notin> set threshold_metrics, eval_err ''comparison primary metric is unsupported'')]
     @ (case cmp_stressed_slippage c of
          None \<Rightarrow> [(strategy_stressed c \<noteq> None \<or> benchmark_stressed c \<noteq> None,
            eval_err ''unstressed comparison cannot carry stress results'')]
        | Some s \<Rightarrow> [eval_positive s, (s \<le> cmp_base_slippage c, eval_err ''stressed slippage must exceed base slippage''),
            (strategy_stressed c = None \<or> benchmark_stressed c = None,
               eval_err ''stressed comparison requires both stress results'')])
     @ concat (map (binding_guards c)
         ([strategy_base c, benchmark_base c] @ optional (strategy_stressed c) @ optional (benchmark_stressed c)))
     @ map (\<lambda>r. (wrong_slippage (cmp_base_slippage c) r, eval_err ''base result used the wrong slippage scenario''))
         [strategy_base c, benchmark_base c]
     @ (case cmp_stressed_slippage c of None \<Rightarrow> []
        | Some s \<Rightarrow> map (\<lambda>r. (wrong_slippage s r, eval_err ''stressed result used the wrong slippage scenario''))
            (optional (strategy_stressed c) @ optional (benchmark_stressed c)))"

definition metric_of :: "string \<Rightarrow> evaluation_result \<Rightarrow> decimal" where
  \<comment> \<open>\<open>dict(result.metrics)[name]\<close>; a result has every supported metric\<close>
  "metric_of name r = (case map_of (res_metrics r) name of None \<Rightarrow> 0 | Some v \<Rightarrow> v)"

definition excess :: "string \<Rightarrow> evaluation_result \<Rightarrow> evaluation_result \<Rightarrow> decimal" where
  "excess name strategy benchmark = metric_of name strategy - metric_of name benchmark"

definition decide :: "trial_comparison \<Rightarrow> trial_comparison" where
  "decide c = (let base = excess (cmp_metric c) (strategy_base c) (benchmark_base c);
       ok = res_passed (strategy_base c) \<and> 0 \<le> base in
     case (strategy_stressed c, benchmark_stressed c) of
       (Some s, Some b) \<Rightarrow> let stressed = excess (cmp_metric c) s b in
         c\<lparr>cmp_metrics := [(''base_primary_excess'', base), (''stressed_primary_excess'', stressed)],
           cmp_passed := ok \<and> res_passed s \<and> 0 \<le> stressed\<rparr>
     | _ \<Rightarrow> c\<lparr>cmp_metrics := [(''base_primary_excess'', base)], cmp_passed := ok\<rparr>)"

definition mk_comparison :: "trial_comparison \<Rightarrow> trial_comparison res" where
  "mk_comparison c0 = guards (cmp_guards c0) (let c = decide c0 in Inr (c\<lparr>cmp_id := fields_id (cmp_material c)\<rparr>))"

definition comparison_broken :: "trial_comparison \<Rightarrow> bool \<times> py_exc" where
  "comparison_broken c = (cmp_id c \<noteq> fields_id (cmp_material c), eval_err ''evaluation comparison content identity failed'')"

end
