(* ===== verification/Engine.thy ===== *)
theory Engine
  imports Evaluation WalkForward Trials
begin

text \<open>
  The trial evaluation engine (second half of \<open>evaluation/engine.py\<close>): it runs the simulator over the intents of
  a registered trial inside the test folds of its walk-forward plan, prices the fills with the cost tariff,
  keeps the cash book of every session and judges the metrics against the registered thresholds.

  Stages: \<open>run_intent\<close> (one intent to a trade or none), \<open>check_overlap\<close>, \<open>fills_of\<close>, \<open>price_fills\<close>, \<open>book_session\<close>
  (one session of the cash book), \<open>equity_curve\<close>, \<open>evaluate\<close>, and \<open>compare\<close> for a strategy against its benchmark.
\<close>

section \<open>One intent\<close>

definition bar_on :: "simulation_bar list \<Rightarrow> date \<Rightarrow> simulation_bar option" where
  \<comment> \<open>\<open>{bar.session: bar for bar in bars}.get(session)\<close>\<close>
  "bar_on bars d = List.find (\<lambda>b. bar_session b = d) (rev bars)"

fun find_entry :: "limit_entry_order \<Rightarrow> simulation_bar list \<Rightarrow> decimal \<Rightarrow> date list \<Rightarrow> simulated_fill option res" where
  \<comment> \<open>the entry loop over the sessions of the dataset\<close>
  "find_entry e bars slip [] = Inr None"
| "find_entry e bars slip (d # ds) = (if d < first_eligible_session e then find_entry e bars slip ds
     else if expiry_session e < d then Inr None
     else case bar_on bars d of None \<Rightarrow> Inl (eval_err ''entry window contains a missing daily bar'')
       | Some b \<Rightarrow> bindE (simulate_limit_entry e b slip) (\<lambda>r. case r of Some f \<Rightarrow> Inr (Some f)
           | None \<Rightarrow> find_entry e bars slip ds))"

fun find_exit :: "protective_exit_order \<Rightarrow> simulation_bar list \<Rightarrow> decimal \<Rightarrow> date list \<Rightarrow> simulated_fill option res" where
  \<comment> \<open>the holding loop; the last session of the window is the horizon\<close>
  "find_exit p bars slip [] = Inr None"
| "find_exit p bars slip (d # ds) = (case bar_on bars d of
       None \<Rightarrow> Inl (eval_err ''holding window contains a missing daily bar'')
     | Some b \<Rightarrow> bindE (simulate_protective_exit p b slip) (\<lambda>r. case r of Some f \<Rightarrow> Inr (Some f)
         | None \<Rightarrow> if ds = [] then simulate_time_exit p b slip else find_exit p bars slip ds))"

definition exit_order :: "trade_intent \<Rightarrow> decimal \<Rightarrow> simulated_fill \<Rightarrow> protective_exit_order" where
  "exit_order i share f = \<lparr>exit_symbol = fill_symbol f, exit_quantity = fill_quantity f, entry_session = fill_session f,
     entry_price = fill_price f, stop_price = intent_stop i, target_price = intent_target i,
     exit_tick = entry_tick (intent_order i), exit_participation = share\<rparr>"

definition evaluate_intent ::
  "trade_intent \<Rightarrow> simulation_bar list \<Rightarrow> date list \<Rightarrow> execution_policy \<Rightarrow> decimal \<Rightarrow> evaluated_trade option res" where
  "evaluate_intent i bars sessions policy slip =
     bindE (find_entry (intent_order i) bars slip sessions) (\<lambda>entry. case entry of None \<Rightarrow> Inr None
     | Some f \<Rightarrow> let start = index_of sessions (fill_session f) in guards
         [(int (length sessions) \<le> int start + max_holding i - 1,
             eval_err ''dataset does not mature the full holding horizon'')]
         (bindE (mk_protective_exit_order (exit_order i (policy_participation policy) f)) (\<lambda>p.
          bindE (find_exit p bars slip (take (nat (max_holding i)) (drop start sessions))) (\<lambda>exit. case exit of
            None \<Rightarrow> Inl (eval_err ''position could not be liquidated by its horizon'')
          | Some x \<Rightarrow> bindE (mk_trade \<lparr>trade_intent_id = intent_id i, trade_isin = intent_isin i, trade_entry = f,
              trade_exit = x, gross_pnl = 0, evaluated_trade_id = []\<rparr>) (\<lambda>t. Inr (Some t))))))"

definition test_fold :: "plan \<Rightarrow> trade_intent \<Rightarrow> fold option" where
  "test_fold p i = List.find (\<lambda>f. signal_session (intent_order i) \<in> set (test f)) (folds p)"

definition fold_guards_of :: "fold \<Rightarrow> execution_policy \<Rightarrow> trade_intent \<Rightarrow> (bool \<times> py_exc) list" where
  "fold_guards_of f policy i = (let e = intent_order i in
     [(first_eligible_session e \<notin> set (test f) \<or> expiry_session e \<notin> set (test f),
         eval_err ''entry window must remain inside its preregistered test fold''),
      (\<not> deq (entry_participation e) (policy_participation policy),
         eval_err ''entry participation differs from execution policy'')])"

definition intent_guards :: "trial_registration \<Rightarrow> evaluation_dataset \<Rightarrow> trade_intent \<Rightarrow> (bool \<times> py_exc) list" where
  "intent_guards r ds i =
     [intent_broken i,
      (intent_universe i \<notin> set (ds_universes ds), eval_err ''intent universe is absent from dataset binding''),
      (label_horizon_sessions r < max_holding i, eval_err ''intent holding period exceeds registered label horizon'')]"

definition run_intent ::
  "trial_registration \<Rightarrow> plan \<Rightarrow> evaluation_dataset \<Rightarrow> execution_policy \<Rightarrow> decimal \<Rightarrow> trade_intent
    \<Rightarrow> evaluated_trade list res" where
  \<comment> \<open>the body of the loop over intents: the trades it appends\<close>
  "run_intent r p ds policy slip i = guards (intent_guards r ds i) (case test_fold p i of
       None \<Rightarrow> Inl (eval_err ''intent signal session is outside preregistered test windows'')
     | Some f \<Rightarrow> guards (fold_guards_of f policy i)
         (bindE (evaluate_intent i (filter (\<lambda>b. bar_symbol b = entry_symbol (intent_order i)) (ds_bars ds))
            (ds_sessions ds) policy slip) (\<lambda>outcome. case outcome of None \<Rightarrow> Inr []
          | Some t \<Rightarrow> guards
              [(fill_session (trade_entry t) \<notin> set (test f) \<or> fill_session (trade_exit t) \<notin> set (test f),
                  eval_err ''evaluated trade crossed its preregistered test-fold boundary'')] (Inr [t]))))"

section \<open>Overlaps and fills\<close>

definition last_exit :: "(string \<rightharpoonup> date) \<Rightarrow> string \<Rightarrow> date" where
  "last_exit m s = (case m s of None \<Rightarrow> Date 1 1 1 | Some d \<Rightarrow> d)"

definition track_exit :: "(string \<rightharpoonup> date) \<Rightarrow> evaluated_trade \<Rightarrow> (string \<rightharpoonup> date) res" where
  "track_exit m t = (let s = fill_symbol (trade_entry t) in guards
     [(fill_session (trade_entry t) \<le> last_exit m s, eval_err ''same-symbol evaluated positions overlap'')]
     (Inr (m(s \<mapsto> fill_session (trade_exit t)))))"

definition check_overlap :: "evaluated_trade list \<Rightarrow> unit res" where
  "check_overlap ts = bindE (foldE track_exit Map.empty ts) (\<lambda>_. Inr ())"

definition delivery_of :: "string \<Rightarrow> fill_side \<Rightarrow> simulated_fill \<Rightarrow> delivery_fill res" where
  "delivery_of i sd f = mk_delivery_fill (fill_session f) (fill_symbol f) i sd (fill_quantity f) (fill_price f) (fill_order_id f)"

definition fills_of :: "evaluated_trade list \<Rightarrow> delivery_fill list res" where
  "fills_of ts = bindE (mapE (\<lambda>t. mapE (\<lambda>(sd, f). delivery_of (trade_isin t) sd f)
     [(BUY, trade_entry t), (SELL, trade_exit t)]) ts) (\<lambda>fss. Inr (concat fss))"

definition price_fills ::
  "delivery_fill list \<Rightarrow> nse_delivery_cost_schedule \<Rightarrow> delivery_charge_breakdown option res" where
  "price_fills fs s = (if fs = [] then Inr None else case calculate_equity_cash_charges fs s of
       Inl (CostScheduleError _) \<Rightarrow> Inl (eval_err ''execution cannot be priced by the registered delivery schedule'')
     | Inl e \<Rightarrow> Inl e
     | Inr c \<Rightarrow> Inr (Some c))"

section \<open>The cash book\<close>

type_synonym position = "string \<times> int \<times> string"

record book =
  cash :: decimal
  positions :: "position list"
  peak :: decimal
  points :: "equity_point list"

definition enter :: "decimal \<times> position list \<Rightarrow> evaluated_trade \<Rightarrow> (decimal \<times> position list) res" where
  \<comment> \<open>a dictionary keeps the order in which its keys were inserted\<close>
  "enter s t = (let symb = fill_symbol (trade_entry t) in guards
     [(symb \<in> fst ` set (snd s), eval_err ''overlapping positions are unsupported'')]
     (Inr (fst s - fill_cost (trade_entry t), snd s @ [(symb, fill_quantity (trade_entry t), trade_intent_id t)])))"

definition leave :: "decimal \<times> position list \<Rightarrow> evaluated_trade \<Rightarrow> (decimal \<times> position list) res" where
  "leave s t = (let symb = fill_symbol (trade_exit t) in guards
     [(map_of (snd s) symb \<noteq> Some (fill_quantity (trade_exit t), trade_intent_id t),
         eval_err ''exit does not match an open position'')]
     (Inr (fst s + fill_cost (trade_exit t), filter (\<lambda>p. fst p \<noteq> symb) (snd s))))"

definition charge_on :: "delivery_charge_breakdown option \<Rightarrow> date \<Rightarrow> decimal" where
  \<comment> \<open>\<open>charges_by_session.get(session, ZERO)\<close>\<close>
  "charge_on c d = (case c of None \<Rightarrow> 0 | Some b \<Rightarrow>
     (case map_of (rev (map (\<lambda>l. (leg_date l, leg_total l)) (legs b))) d of None \<Rightarrow> 0 | Some v \<Rightarrow> v))"

definition bar_at :: "evaluation_dataset \<Rightarrow> date \<Rightarrow> string \<Rightarrow> simulation_bar option" where
  "bar_at ds d symb = List.find (\<lambda>b. bar_session b = d \<and> bar_symbol b = symb) (rev (ds_bars ds))"

definition mark :: "evaluation_dataset \<Rightarrow> date \<Rightarrow> decimal \<Rightarrow> position \<Rightarrow> decimal res" where
  "mark ds d acc = (\<lambda>(symb, q, _). case bar_at ds d symb of
       None \<Rightarrow> Inl (eval_err ''open position has no mark-to-market bar'')
     | Some b \<Rightarrow> Inr (acc + bar_close b * dec_of_int q))"

definition entries_on :: "evaluated_trade list \<Rightarrow> date \<Rightarrow> evaluated_trade list" where
  "entries_on ts d = filter (\<lambda>t. fill_session (trade_entry t) = d) ts"

definition exits_on :: "evaluated_trade list \<Rightarrow> date \<Rightarrow> evaluated_trade list" where
  "exits_on ts d = filter (\<lambda>t. fill_session (trade_exit t) = d) ts"

definition book_session ::
  "evaluation_dataset \<Rightarrow> evaluated_trade list \<Rightarrow> delivery_charge_breakdown option \<Rightarrow> book \<Rightarrow> date \<Rightarrow> book res" where
  "book_session ds ts c s d =
     bindE (foldE enter (cash s, positions s) (entries_on ts d)) (\<lambda>s1.
     bindE (foldE leave s1 (exits_on ts d)) (\<lambda>s2.
     let left = fst s2 - charge_on c d in guards
       [(left < 0, eval_err ''executed entries and charges exceed available cash'')]
       (bindE (foldE (mark ds d) 0 (snd s2)) (\<lambda>value. let total = left + value; top = py_max (peak s) total in
        bindE (mk_point \<lparr>point_session = d, equity = total, drawdown = fall total top\<rparr>) (\<lambda>pt.
        Inr \<lparr>cash = left, positions = snd s2, peak = top, points = points s @ [pt]\<rparr>)))))"

definition equity_curve ::
  "evaluation_dataset \<Rightarrow> date list \<Rightarrow> evaluated_trade list \<Rightarrow> delivery_charge_breakdown option \<Rightarrow> decimal
    \<Rightarrow> equity_point list res" where
  "equity_curve ds ps ts c capital =
     bindE (foldE (book_session ds ts c) \<lparr>cash = capital, positions = [], peak = capital, points = []\<rparr> ps) (\<lambda>s.
     guards [(positions s \<noteq> [], eval_err ''evaluation ended with open positions'')] (Inr (points s)))"

section \<open>The engine\<close>

definition trial_bindings ::
  "trial_registration \<Rightarrow> plan \<Rightarrow> evaluation_dataset \<Rightarrow> execution_policy \<Rightarrow> nse_delivery_cost_schedule
    \<Rightarrow> (bool \<times> py_exc) list" where
  \<comment> \<open>\<open>_validate_bindings\<close>\<close>
  "trial_bindings r p ds policy s =
     [(\<not> set (primary_metric r # secondary_metrics r) \<subseteq> set supported_metrics,
         eval_err ''registration requests an unsupported metric''),
      (list_ex (\<lambda>t. fst t \<notin> set threshold_metrics) (pass_thresholds r),
         eval_err ''registration uses an unsupported threshold direction''),
      (execution_policy_version r \<noteq> exec_version policy, eval_err ''execution policy version binding failed''),
      (execution_policy_hash r \<noteq> exec_policy_id policy, eval_err ''execution policy content binding failed''),
      (\<not> deq (base_slippage_bps r) (policy_slippage policy), eval_err ''registered base slippage binding failed''),
      (\<not> opt_deq (stressed_slippage_bps r) (policy_stressed policy), eval_err ''registered stressed slippage binding failed''),
      (cost_schedule_version r \<noteq> policy_version s, eval_err ''cost schedule version binding failed''),
      (cost_schedule_hash r \<noteq> schedule_id s, eval_err ''cost schedule content binding failed''),
      (data_snapshot_ids r \<noteq> ds_sources ds, eval_err ''data snapshot binding failed''),
      (universe_snapshot_ids r \<noteq> ds_universes ds, eval_err ''universe snapshot binding failed''),
      (synthetic r \<and> ds_readiness ds \<noteq> SYNTHETIC, eval_err ''synthetic trial requires a synthetic dataset''),
      (\<not> synthetic r \<and> ds_readiness ds \<noteq> POINT_IN_TIME_VERIFIED,
         eval_err ''reportable trial requires point-in-time verified data''),
      (split_plan_id r \<noteq> plan_id p, eval_err ''walk-forward split-plan binding failed''),
      (label_horizon_sessions r \<noteq> label_horizon p, eval_err ''registered label horizon differs from split plan''),
      (ds_sessions ds \<noteq> ordered_sessions p, eval_err ''dataset calendar differs from split plan''),
      (hd (ds_sessions ds) < evaluation_start r \<or> evaluation_end r < last (ds_sessions ds),
         eval_err ''dataset sessions exceed registered evaluation dates'')]"

definition select_slippage :: "execution_policy \<Rightarrow> bool \<Rightarrow> decimal res" where
  "select_slippage policy stressed = (if \<not> stressed then Inr (policy_slippage policy)
     else case policy_stressed policy of None \<Rightarrow> Inl (eval_err ''registered execution policy has no stress case'')
       | Some s \<Rightarrow> Inr s)"

definition intent_key :: "trade_intent \<Rightarrow> date \<times> string" where
  "intent_key i = (signal_session (intent_order i), intent_id i)"

definition position_in :: "date list \<Rightarrow> date \<Rightarrow> nat res" where
  \<comment> \<open>\<open>sessions.index(d)\<close>\<close>
  "position_in xs d = (if d \<in> set xs then Inr (index_of xs d) else Inl (ValueError ''tuple.index(x): x not in tuple''))"

definition performance_sessions :: "plan \<Rightarrow> evaluation_dataset \<Rightarrow> date list res" where
  "performance_sessions p ds = (let tested = concat (map test (folds p)) in
     if tested = [] then Inl (ValueError ''min() iterable argument is empty'')
     else bindE (position_in (ds_sessions ds) (Min (set tested))) (\<lambda>a.
       bindE (position_in (ds_sessions ds) (Max (set tested))) (\<lambda>b.
       Inr (drop a (take (Suc b) (ds_sessions ds))))))"

definition verify_inputs ::
  "trial_registration \<Rightarrow> plan \<Rightarrow> evaluation_dataset \<Rightarrow> execution_policy \<Rightarrow> nse_delivery_cost_schedule \<Rightarrow> decimal
    \<Rightarrow> unit res" where
  "verify_inputs r p ds policy s capital =
     bindE (verify_registration r) (\<lambda>_. bindE (verify_plan p) (\<lambda>_.
     guards ([dataset_broken ds, exec_policy_broken policy, eval_positive capital] @ trial_bindings r p ds policy s)
       (Inr ())))"

definition settle ::
  "trial_registration \<Rightarrow> plan \<Rightarrow> evaluation_dataset \<Rightarrow> execution_policy \<Rightarrow> nse_delivery_cost_schedule \<Rightarrow> decimal
    \<Rightarrow> evaluated_trade list \<Rightarrow> evaluation_result res" where
  \<comment> \<open>what \<open>evaluate\<close> does with the trades, in order of entry\<close>
  "settle r p ds policy s capital ts =
     bindE (check_overlap ts) (\<lambda>_. bindE (fills_of ts) (\<lambda>fs. bindE (price_fills fs s) (\<lambda>c.
     bindE (performance_sessions p ds) (\<lambda>ps. bindE (equity_curve ds ps ts c capital) (\<lambda>curve.
     let metrics = metric_values capital ts curve in mk_result
       \<lparr>res_trial = trial_id r, res_plan = plan_id p, res_dataset = dataset_id ds,
        res_policy = exec_policy_id policy, res_schedule = schedule_id s, res_capital = capital, res_trades = ts,
        res_charges = c, res_curve = curve, res_metrics = metrics, res_thresholds = pass_thresholds r,
        res_passed = list_all (meets metrics) (pass_thresholds r), result_id = []\<rparr>)))))"

definition evaluate ::
  "trial_registration \<Rightarrow> plan \<Rightarrow> evaluation_dataset \<Rightarrow> trade_intent list \<Rightarrow> execution_policy
    \<Rightarrow> nse_delivery_cost_schedule \<Rightarrow> decimal \<Rightarrow> bool \<Rightarrow> evaluation_result res" where
  "evaluate r p ds intents policy s capital stressed =
     bindE (verify_inputs r p ds policy s capital) (\<lambda>_. bindE (select_slippage policy stressed) (\<lambda>slip.
     guards [(intents \<noteq> sort_key intent_key intents, eval_err ''intents must be an ordered exact tuple'')]
     (bindE (mapE (run_intent r p ds policy slip) intents) (\<lambda>found.
        settle r p ds policy s capital (sort_key trade_key (concat found))))))"

definition compare ::
  "trial_registration \<Rightarrow> plan \<Rightarrow> evaluation_dataset \<Rightarrow> trade_intent list \<Rightarrow> trade_intent list \<Rightarrow> execution_policy
    \<Rightarrow> nse_delivery_cost_schedule \<Rightarrow> decimal \<Rightarrow> trial_comparison res" where
  "compare r p ds strategy benchmark policy s capital =
     bindE (evaluate r p ds strategy policy s capital False) (\<lambda>sb.
     bindE (evaluate r p ds benchmark policy s capital False) (\<lambda>bb.
     bindE (if policy_stressed policy = None then Inr (None, None)
        else bindE (evaluate r p ds strategy policy s capital True) (\<lambda>ss.
          bindE (evaluate r p ds benchmark policy s capital True) (\<lambda>bs. Inr (Some ss, Some bs)))) (\<lambda>(ss, bs).
     mk_comparison \<lparr>cmp_trial = trial_id r, strategy_id = model_bundle_id r, cmp_benchmark = benchmark_id r,
       cmp_metric = primary_metric r, cmp_base_slippage = base_slippage_bps r,
       cmp_stressed_slippage = stressed_slippage_bps r, strategy_base = sb, benchmark_base = bb,
       strategy_stressed = ss, benchmark_stressed = bs, cmp_metrics = [], cmp_passed = False, cmp_id = []\<rparr>)))"

section \<open>Where trades come from\<close>

lemma find_member: "List.find P xs = Some x \<Longrightarrow> x \<in> set xs \<and> P x"
  by (induction xs) (auto split: if_splits)

lemma bar_on_Some: "bar_on bars d = Some b \<Longrightarrow> b \<in> set bars \<and> bar_session b = d"
  by (auto simp: bar_on_def dest: find_member)

definition entered :: "limit_entry_order \<Rightarrow> decimal \<Rightarrow> simulated_fill \<Rightarrow> bool" where
  "entered e slip f = (fill_side_of f = BUY \<and> fill_symbol f = entry_symbol e \<and> fill_quantity f = entry_quantity e
     \<and> first_eligible_session e \<le> fill_session f \<and> fill_session f \<le> expiry_session e
     \<and> 0 < fill_price f \<and> fill_price f \<le> limit_price e \<and> slippage_bps f = slip
     \<and> fill_order_id f = entry_order_id e)"

definition exited :: "protective_exit_order \<Rightarrow> decimal \<Rightarrow> simulated_fill \<Rightarrow> bool" where
  "exited p slip f = (fill_side_of f = SELL \<and> fill_symbol f = exit_symbol p \<and> fill_quantity f = exit_quantity p
     \<and> entry_session p \<le> fill_session f \<and> 0 < fill_price f \<and> slippage_bps f = slip \<and> fill_exit_reason f \<noteq> None
     \<and> sha_text (fill_order_id f)
     \<and> (fill_exit_reason f = Some TARGET \<longrightarrow> target_price p \<le> fill_price f \<and> entry_session p < fill_session f))"

lemma simulated_entry:
  assumes "simulate_limit_entry e b slip = Inr (Some f)"
  shows "entered e slip f" "fill_session f = bar_session b"
  using assms by (auto simp: simulate_limit_entry_def guards_Inr_iff mk_simulated_fill_def res_simps Let_def
      price_guard_def entered_def le_iff_dval less_iff_dval dval_py_min split: if_splits option.splits)

lemma exit_fill_made:
  assumes "exit_fill oid p b t v slip reason = Inr (Some f)"
  shows "fill_side_of f = SELL" "fill_symbol f = bar_symbol b" "fill_quantity f = exit_quantity p" "fill_order_id f = oid"
    "fill_session f = bar_session b" "fill_price f = v" "0 < fill_price f" "slippage_bps f = slip" "fill_exit_reason f = Some reason"
  using assms by (auto simp: exit_fill_def res_simps mk_simulated_fill_def guards_Inr_iff price_guard_def
      le_iff_dval less_iff_dval)

lemma simulated_protective_exit:
  assumes "simulate_protective_exit p b slip = Inr (Some f)"
  shows "exited p slip f" "fill_session f = bar_session b" "fill_exit_reason f \<noteq> Some TIME"
proof -
  have g: "exit_symbol p = bar_symbol b" "\<not> bar_session b < entry_session p"
    using assms by (auto simp: simulate_protective_exit_def guards_Inr_iff Let_def split: if_splits)
  have "exited p slip f \<and> fill_session f = bar_session b \<and> fill_exit_reason f \<noteq> Some TIME"
  proof (cases "bar_low b \<le> stop_price p")
    case True
    then obtain m t v where "exit_fill (fields_id m) p b t v slip STOP = Inr (Some f)"
      using assms by (auto simp: simulate_protective_exit_def guards_Inr_iff Let_def split: if_splits)
    from exit_fill_made [OF this] show ?thesis using g by (simp add: exited_def)
  next
    case False
    then have d: "bar_session b \<noteq> entry_session p"
      and x: "exit_fill (fields_id (exit_material ''daily-protective-exit-order/v1'' p)) p b (target_trigger p b)
        (py_max (target_price p) (adverse_sell (target_trigger p b) slip (exit_tick p))) slip TARGET = Inr (Some f)"
      using assms by (auto simp: simulate_protective_exit_def guards_Inr_iff Let_def split: if_splits)
    from exit_fill_made [OF x] show ?thesis using g d by (auto simp: exited_def le_iff_dval dval_py_max)
  qed
  then show "exited p slip f" "fill_session f = bar_session b" "fill_exit_reason f \<noteq> Some TIME" by simp_all
qed

lemma simulated_time_exit:
  assumes "simulate_time_exit p b slip = Inr (Some f)"
  shows "exited p slip f" "fill_session f = bar_session b"
proof -
  have g: "exit_symbol p = bar_symbol b" "\<not> bar_session b < entry_session p"
    and x: "exit_fill (fields_id (exit_material ''daily-time-exit-order/v1'' p @ [(''exit_session'', PDate (bar_session b))])) p b
        (bar_close b) (adverse_sell (bar_close b) slip (exit_tick p)) slip TIME = Inr (Some f)"
    using assms by (auto simp: simulate_time_exit_def guards_Inr_iff split: if_splits)
  from exit_fill_made [OF x] show "exited p slip f" "fill_session f = bar_session b" using g by (simp_all add: exited_def)
qed

lemma find_entry_Some:
  "find_entry e bars slip ds = Inr (Some f) \<Longrightarrow> entered e slip f \<and> fill_session f \<in> set ds"
proof (induction ds)
  case (Cons d ds)
  show ?case
  proof (cases "d < first_eligible_session e")
    case False
    then obtain b r where b: "bar_on bars d = Some b" and r: "simulate_limit_entry e b slip = Inr r"
      using Cons.prems by (auto simp: res_simps split: if_splits option.splits)
    show ?thesis
    proof (cases r)
      case None
      then show ?thesis using Cons False b r by (simp split: if_splits)
    next
      case (Some g)
      then have "g = f" using Cons.prems False b r by (simp split: if_splits)
      then show ?thesis using simulated_entry [of e b slip f] r Some bar_on_Some [OF b] by simp
    qed
  qed (use Cons in simp)
qed simp

lemma find_exit_Some:
  "find_exit p bars slip ds = Inr (Some f) \<Longrightarrow> exited p slip f \<and> fill_session f \<in> set ds
     \<and> (fill_exit_reason f = Some TIME \<longrightarrow> fill_session f = last ds)"
proof (induction ds)
  case (Cons d ds)
  then obtain b r where b: "bar_on bars d = Some b" and r: "simulate_protective_exit p b slip = Inr r"
    by (auto simp: res_simps split: option.splits)
  show ?case
  proof (cases r)
    case None
    then show ?thesis
      using Cons b r simulated_time_exit [of p b slip f] bar_on_Some [OF b] by (auto split: if_splits)
  next
    case (Some g)
    then have "g = f" using Cons.prems b r by simp
    then show ?thesis using simulated_protective_exit [of p b slip f] r Some bar_on_Some [OF b] by simp
  qed
qed simp

definition trade_of :: "trade_intent \<Rightarrow> date list \<Rightarrow> decimal \<Rightarrow> evaluated_trade \<Rightarrow> bool" where
  \<comment> \<open>the trade an intent may become\<close>
  "trade_of i sessions slip t = (let e = intent_order i; a = trade_entry t; x = trade_exit t in
     trade_intent_id t = intent_id i \<and> trade_isin t = intent_isin i \<and> entered e slip a
     \<and> fill_side_of x = SELL \<and> fill_symbol x = entry_symbol e \<and> fill_quantity x = entry_quantity e
     \<and> 0 < fill_price x \<and> slippage_bps x = slip \<and> sha_text (fill_order_id x) \<and> fill_session a \<le> fill_session x
     \<and> index_of sessions (fill_session x) < index_of sessions (fill_session a) + nat (max_holding i)
     \<and> (fill_exit_reason x = Some TARGET \<longrightarrow> intent_target i \<le> fill_price x \<and> fill_session a < fill_session x))"

lemma index_of_nth_le: "n < length xs \<Longrightarrow> index_of xs (xs ! n) \<le> n"
  by (induction xs arbitrary: n) (auto simp: nth_Cons split: nat.splits)

lemma mk_trade_Inr:
  assumes "mk_trade t0 = Inr t"
  shows "t = t0\<lparr>gross_pnl := gross_pnl t, evaluated_trade_id := evaluated_trade_id t\<rparr>"
    "gross_pnl t = (fill_price (trade_exit t) - fill_price (trade_entry t)) * dec_of_int (fill_quantity (trade_entry t))"
    "\<forall>g \<in> set (trade_guards t). \<not> fst g"
  using assms by (auto simp: mk_trade_def guards_Inr_iff Let_def trade_guards_def)

definition consistent :: "evaluated_trade \<Rightarrow> bool" where
  \<comment> \<open>what the constructor of a trade has checked\<close>
  "consistent t = ((\<forall>g \<in> set (trade_guards t). \<not> fst g)
     \<and> gross_pnl t = (fill_price (trade_exit t) - fill_price (trade_entry t)) * dec_of_int (fill_quantity (trade_entry t)))"

lemma evaluate_intent_Some:
  assumes "evaluate_intent i bars sessions policy slip = Inr (Some t)"
  shows "trade_of i sessions slip t" "consistent t"
proof -
  obtain f p x t0 where f: "find_entry (intent_order i) bars slip sessions = Inr (Some f)"
    and p: "mk_protective_exit_order (exit_order i (policy_participation policy) f) = Inr p"
    and x: "find_exit p bars slip (take (nat (max_holding i)) (drop (index_of sessions (fill_session f)) sessions)) = Inr (Some x)"
    and t: "mk_trade t0 = Inr t" "t0 = \<lparr>trade_intent_id = intent_id i, trade_isin = intent_isin i, trade_entry = f,
      trade_exit = x, gross_pnl = 0, evaluated_trade_id = []\<rparr>"
    using assms by (auto simp: evaluate_intent_def res_simps guards_Inr_iff Let_def split: option.splits)
  have po: "p = exit_order i (policy_participation policy) f"
    using p by (auto simp: mk_protective_exit_order_def guards_Inr_iff res_simps)
  note a = find_entry_Some [OF f] and b = find_exit_Some [OF x] and m = mk_trade_Inr [OF t(1)]
  have tt: "trade_intent_id t = intent_id i" "trade_isin t = intent_isin i" "trade_entry t = f" "trade_exit t = x"
    using t(2) by (subst m(1), simp)+
  let ?s = "index_of sessions (fill_session f)"
  obtain k where k: "k < nat (max_holding i)" "?s + k < length sessions" "fill_session x = sessions ! (?s + k)"
    using b by (auto simp: in_set_conv_nth less_diff_conv ac_simps)
  have "index_of sessions (fill_session x) < ?s + nat (max_holding i)"
    using index_of_nth_le [OF k(2)] k(1,3) by simp
  then show "trade_of i sessions slip t"
    using a b tt by (auto simp: trade_of_def Let_def po exit_order_def exited_def entered_def)
  show "consistent t" using m by (simp add: consistent_def)
qed

lemma run_intent_Inr:
  assumes "run_intent r p ds policy slip i = Inr ts" and "t \<in> set ts"
  obtains f where "test_fold p i = Some f" "trade_of i (ds_sessions ds) slip t" "consistent t"
    "fill_session (trade_entry t) \<in> set (test f)" "fill_session (trade_exit t) \<in> set (test f)"
    "\<forall>g \<in> set (intent_guards r ds i @ fold_guards_of f policy i). \<not> fst g"
proof -
  let ?bars = "filter (\<lambda>b. bar_symbol b = entry_symbol (intent_order i)) (ds_bars ds)"
  obtain f outcome where f: "test_fold p i = Some f" "\<forall>g \<in> set (intent_guards r ds i). \<not> fst g"
      "\<forall>g \<in> set (fold_guards_of f policy i). \<not> fst g"
      "evaluate_intent i ?bars (ds_sessions ds) policy slip = Inr outcome"
    and ts: "(case outcome of None \<Rightarrow> Inr [] | Some t \<Rightarrow> guards
              [(fill_session (trade_entry t) \<notin> set (test f) \<or> fill_session (trade_exit t) \<notin> set (test f),
                  eval_err ''evaluated trade crossed its preregistered test-fold boundary'')] (Inr [t])) = Inr ts"
    using assms(1) by (auto simp: run_intent_def res_simps guards_Inr_iff split: option.splits)
  then have "outcome = Some t" "fill_session (trade_entry t) \<in> set (test f)" "fill_session (trade_exit t) \<in> set (test f)"
    using assms(2) by (auto split: option.splits if_splits)
  then show ?thesis using that f evaluate_intent_Some [of i ?bars "ds_sessions ds" policy slip t] by auto
qed

definition apart :: "evaluated_trade \<Rightarrow> evaluated_trade \<Rightarrow> bool" where
  \<comment> \<open>trades of one symbol follow one another\<close>
  "apart t u = (fill_symbol (trade_entry t) = fill_symbol (trade_entry u)
     \<longrightarrow> fill_session (trade_exit t) < fill_session (trade_entry u))"

lemma track_exit_Inr:
  "track_exit m t = Inr m' \<longleftrightarrow> last_exit m (fill_symbol (trade_entry t)) < fill_session (trade_entry t)
     \<and> m' = m(fill_symbol (trade_entry t) \<mapsto> fill_session (trade_exit t))"
  by (auto simp: track_exit_def Let_def)

lemma track_exit_apart:
  assumes "foldE track_exit m ts = Inr m'" and "\<forall>t \<in> set ts. fill_session (trade_entry t) \<le> fill_session (trade_exit t)"
  shows "(\<forall>t \<in> set ts. last_exit m (fill_symbol (trade_entry t)) < fill_session (trade_entry t)) \<and> sorted_wrt apart ts"
  using assms
proof (induction ts arbitrary: m)
  case (Cons t ts)
  let ?m = "m(fill_symbol (trade_entry t) \<mapsto> fill_session (trade_exit t))"
  have h: "last_exit m (fill_symbol (trade_entry t)) < fill_session (trade_entry t)" "foldE track_exit ?m ts = Inr m'"
    using Cons.prems(1) by (auto simp: res_simps track_exit_Inr)
  note ih = Cons.IH [OF h(2)]
  have le: "fill_session (trade_entry t) \<le> fill_session (trade_exit t)" using Cons.prems(2) by simp
  have step: "last_exit m (fill_symbol (trade_entry u)) < fill_session (trade_entry u) \<and> apart t u" if "u \<in> set ts" for u
  proof (cases "fill_symbol (trade_entry t) = fill_symbol (trade_entry u)")
    case True
    then have "fill_session (trade_exit t) < fill_session (trade_entry u)"
      using ih Cons.prems(2) that by (auto simp: last_exit_def)
    then show ?thesis using True h(1) le by (auto simp: apart_def)
  next
    case False
    then show ?thesis using ih Cons.prems(2) that by (auto simp: last_exit_def apart_def)
  qed
  then show ?case using h ih Cons.prems(2) by auto
qed simp

section \<open>What a result rests on\<close>

lemma mk_result_Inr:
  assumes "mk_result q = Inr res"
  shows "res = q\<lparr>result_id := result_id res\<rparr>" "\<not> fst (result_broken res)" "\<forall>g \<in> set (shape_guards q). \<not> fst g"
proof -
  have same: "result_material (q\<lparr>result_id := i\<rparr>) = result_material q" for i
    by (simp add: result_material_def)
  have "res = q\<lparr>result_id := fields_id (result_material q)\<rparr>" and g: "\<forall>g \<in> set (shape_guards q). \<not> fst g"
    using assms by (auto simp: mk_result_def guards_Inr_iff res_simps)
  then show "res = q\<lparr>result_id := result_id res\<rparr>" "\<not> fst (result_broken res)" "\<forall>g \<in> set (shape_guards q). \<not> fst g"
    by (simp_all add: result_broken_def same)
qed

lemma settle_Inr:
  assumes "settle r p ds policy s capital ts = Inr res"
  obtains fs c ps where "check_overlap ts = Inr ()" "fills_of ts = Inr fs" "price_fills fs s = Inr c"
    "performance_sessions p ds = Inr ps" "equity_curve ds ps ts c capital = Inr (res_curve res)"
    "res_trades res = ts" "res_charges res = c" "res_capital res = capital"
    "res_metrics res = metric_values capital ts (res_curve res)" "\<not> fst (result_broken res)"
    "res_passed res = list_all (meets (res_metrics res)) (pass_thresholds r)"
proof -
  obtain u fs c ps curve q where s: "check_overlap ts = Inr u" "fills_of ts = Inr fs" "price_fills fs s = Inr c"
    "performance_sessions p ds = Inr ps" "equity_curve ds ps ts c capital = Inr curve" "mk_result q = Inr res"
    and q: "res_trades q = ts" "res_charges q = c" "res_capital q = capital" "res_curve q = curve"
      "res_metrics q = metric_values capital ts curve" "res_passed q = list_all (meets (metric_values capital ts curve)) (pass_thresholds r)"
    using assms by (auto simp: settle_def res_simps Let_def)
  note m = mk_result_Inr [OF s(6)]
  have "res_trades res = ts" "res_charges res = c" "res_capital res = capital" "res_curve res = curve"
    "res_metrics res = metric_values capital ts curve"
    "res_passed res = list_all (meets (metric_values capital ts curve)) (pass_thresholds r)"
    by (subst m(1), simp add: q)+
  then show thesis using that s m(2) by auto
qed

lemma evaluate_Inr:
  assumes "evaluate r p ds intents policy s capital stressed = Inr res"
  obtains slip found where "verify_inputs r p ds policy s capital = Inr ()" "select_slippage policy stressed = Inr slip"
    "mapE (run_intent r p ds policy slip) intents = Inr found"
    "settle r p ds policy s capital (sort_key trade_key (concat found)) = Inr res"
  using assms by (auto simp: evaluate_def res_simps guards_Inr_iff)

definition held_in :: "trade_intent \<Rightarrow> fold \<Rightarrow> evaluated_trade \<Rightarrow> bool" where
  \<comment> \<open>signal, entry and exit in one test window, in that order\<close>
  "held_in i f t = (signal_session (intent_order i) \<in> set (test f) \<and> fill_session (trade_entry t) \<in> set (test f)
     \<and> fill_session (trade_exit t) \<in> set (test f) \<and> signal_session (intent_order i) < fill_session (trade_entry t)
     \<and> fill_session (trade_entry t) \<le> fill_session (trade_exit t))"

lemma found_trades:
  assumes "mapE (run_intent r p ds policy slip) intents = Inr found" and "t \<in> set (concat found)"
  obtains i f where "i \<in> set intents" "test_fold p i = Some f" "trade_of i (ds_sessions ds) slip t" "consistent t"
    "fill_session (trade_entry t) \<in> set (test f)" "fill_session (trade_exit t) \<in> set (test f)"
    "max_holding i \<le> label_horizon_sessions r" "intent_universe i \<in> set (ds_universes ds)" "\<not> fst (intent_broken i)"
proof -
  note goal = that
  obtain ts where ts: "ts \<in> set found" "t \<in> set ts" using assms(2) by auto
  then obtain i where i: "i \<in> set intents" "run_intent r p ds policy slip i = Inr ts"
    using mapE_set [OF assms(1)] by blast
  show thesis by (rule run_intent_Inr [OF i(2) ts(2)], rule goal [OF i(1)]) (auto simp: intent_guards_def)
qed

lemma check_overlap_apart:
  assumes "check_overlap ts = Inr ()" and "\<forall>t \<in> set ts. fill_session (trade_entry t) \<le> fill_session (trade_exit t)"
  shows "sorted_wrt apart ts"
  using assms track_exit_apart [of Map.empty ts] by (auto simp: check_overlap_def res_simps)

text \<open>C15: Every trade of a returned evaluation is the outcome of one of the intents and looks only ahead: signal,
  entry and exit lie in one preregistered test window in this order, the entry strictly after the signal and
  inside the order's window, the exit within the holding period, itself within the label horizon; the entry is
  a buy of the ordered quantity at no more than the limit, the exit sells the same quantity, a target at the
  target or better; both carry the selected slippage.  Trades of one symbol never overlap, and they are listed
  in order of entry.\<close>

theorem evaluated_trades_sound:
  assumes "evaluate r p ds intents policy s capital stressed = Inr res"
    and "\<forall>i \<in> set intents. \<exists>e0. mk_limit_entry_order e0 = Inr (intent_order i)"
  shows "(\<forall>t \<in> set (res_trades res). \<exists>i \<in> set intents. \<exists>f \<in> set (folds p).
        held_in i f t \<and> trade_of i (ds_sessions ds)
          (if stressed then the (policy_stressed policy) else policy_slippage policy) t
        \<and> max_holding i \<le> label_horizon_sessions r \<and> intent_universe i \<in> set (ds_universes ds))
    \<and> sorted_wrt apart (res_trades res) \<and> sorted (map trade_key (res_trades res)) \<and> \<not> fst (result_broken res)"
proof -
  obtain slip found where e: "select_slippage policy stressed = Inr slip"
    "mapE (run_intent r p ds policy slip) intents = Inr found"
    "settle r p ds policy s capital (sort_key trade_key (concat found)) = Inr res"
    using evaluate_Inr [OF assms(1)] by blast
  have slip: "slip = (if stressed then the (policy_stressed policy) else policy_slippage policy)"
    using e(1) by (auto simp: select_slippage_def split: if_splits option.splits)
  have st: "check_overlap (sort_key trade_key (concat found)) = Inr ()"
      "res_trades res = sort_key trade_key (concat found)" "\<not> fst (result_broken res)"
    by (rule settle_Inr [OF e(3)]; simp)+
  have trade: "\<exists>i \<in> set intents. \<exists>f \<in> set (folds p). held_in i f t \<and> trade_of i (ds_sessions ds) slip t
        \<and> max_holding i \<le> label_horizon_sessions r \<and> intent_universe i \<in> set (ds_universes ds)"
    if "t \<in> set (concat found)" for t
  proof -
    note t = that
    obtain i f where i: "i \<in> set intents" "test_fold p i = Some f" "trade_of i (ds_sessions ds) slip t"
      "fill_session (trade_entry t) \<in> set (test f)" "fill_session (trade_exit t) \<in> set (test f)"
      "max_holding i \<le> label_horizon_sessions r" "intent_universe i \<in> set (ds_universes ds)"
      by (rule found_trades [OF e(2) t])
    have "signal_session (intent_order i) < first_eligible_session (intent_order i)"
      using assms(2) i(1) validated_entry(1) by blast
    then have "held_in i f t" using i find_member [OF i(2) [unfolded test_fold_def]]
      by (auto simp: held_in_def trade_of_def entered_def Let_def)
    then show ?thesis using i find_member [OF i(2) [unfolded test_fold_def]] by blast
  qed
  moreover have "sorted_wrt apart (sort_key trade_key (concat found))"
    using st(1) trade by (intro check_overlap_apart) (auto simp: held_in_def)
  ultimately show ?thesis unfolding slip [symmetric] st(2) using st(3) by simp
qed

end
