(* ===== verification/ChargeBounds.thy ===== *)
theory ChargeBounds
  imports Costs
begin

text \<open>
  How large the charges of one day can be: with at most a thousand small fills and a small schedule, every leg
  that \<open>equity_leg\<close> returns is a whole number of hundredths of a paisa (\<open>grid\<close>) and at most 3 * 10^20 rupees,
  so that charges of a whole evaluation add up without rounding.
\<close>

lemma upto_grid:
  assumes "upto n v" and "-4 \<le> dexp v"
  shows "grid (n * 10 ^ 4) v"
proof -
  define k where "k = nat (daligned (-4) v)"
  have v: "dval v = of_int (daligned (-4) v) * 10 powi (-4)" using assms(2) by (rule dval_aligned)
  then have "0 \<le> daligned (-4) v" using assms(1) by (simp add: upto_def zero_le_mult_iff)
  then have k: "dval v = of_nat k * 10 powi (-4)" using v by (simp add: k_def)
  then have "of_nat k \<le> (of_nat (n * 10 ^ 4) :: rat)" using assms(1) by (simp add: upto_def power_int_def field_simps)
  then have "k \<le> n * 10 ^ 4" by (simp only: of_nat_le_iff)
  then show ?thesis using k by (auto simp: grid_def)
qed

lemma rounded_upto:
  assumes "upto n v" and "n < m" and "m \<le> 10 ^ 25"
  shows "paise v = Inr p \<Longrightarrow> upto m p" and "rupee v = Inr p \<Longrightarrow> upto m p"
  using paise_total [of n v] rupee_total [of n v] upto_mono [of "Suc n" p m] assms by auto

lemma sum_fold_upto:
  assumes "foldE (\<lambda>acc k. bindE (f k) (\<lambda>p. Inr (acc + p))) a ks = Inr r"
    and "\<And>k p. k \<in> set ks \<Longrightarrow> f k = Inr p \<Longrightarrow> upto (n k) p" and "upto m a" and "m + (\<Sum>k\<leftarrow>ks. n k) < 10 ^ 28"
  shows "upto (m + (\<Sum>k\<leftarrow>ks. n k)) r"
  using assms
proof (induction ks arbitrary: m a)
  case (Cons k ks)
  then obtain p where p: "f k = Inr p" "upto (n k) p" by (auto simp: res_simps)
  have "upto (m + n k) (a + p)" using Cons.prems p by (intro upto_plus) simp_all
  then show ?case using Cons.IH [of "a + p" "m + n k"] Cons.prems p by (simp add: res_simps algebra_simps)
qed simp

lemma total_turnover_count: "\<forall>f \<in> set fs. small_fill f \<Longrightarrow> length fs \<le> 10 ^ 3 \<Longrightarrow> upto (length fs * 10 ^ 16) (total_turnover fs)"
  using upto_dsum [of "map turnover fs" "10 ^ 16" "length fs"] small_fill_turnover by (simp add: total_turnover_def)

lemma of_nat_sums: "of_nat (\<Sum>x\<leftarrow>xs. f x) = (\<Sum>x\<leftarrow>xs. of_nat (f x) :: rat)"
  by (induction xs) simp_all

lemma counts_by_key: "(\<Sum>k\<leftarrow>uniq (map key xs). length (filter (\<lambda>x. key x = k) xs)) = length xs"
proof -
  have "of_nat (\<Sum>k\<leftarrow>uniq (map key xs). length (filter (\<lambda>x. key x = k) xs)) = (of_nat (length xs) :: rat)"
    using sum_by_key [where key = key and xs = xs and g = "\<lambda>_. 1"] by (simp add: of_nat_sums sum_list_triv)
  then show ?thesis by (simp only: of_nat_eq_iff)
qed

lemma stt_upto:
  assumes r: "stt_by_security rate fs = Inr r" and fs: "\<forall>f \<in> set fs. small_fill f" "length fs \<le> 10 ^ 3"
    and rate: "\<forall>k. upto 10000 (rate k)"
  shows "upto (10 ^ 19 + 10 ^ 3) r"
proof -
  let ?ks = "uniq (map security_key fs)" and ?n = "\<lambda>k. length (filter (\<lambda>f. security_key f = k) fs)"
  have s: "(\<Sum>k\<leftarrow>?ks. ?n k * 10 ^ 16 + 1) = length fs * 10 ^ 16 + length ?ks"
    unfolding sum_list_addf sum_list_mult_const counts_by_key by (simp add: sum_list_triv)
  have len: "length ?ks \<le> 10 ^ 3" using card_set_map_le [of security_key fs] fs by simp
  have p: "upto (?n k * 10 ^ 16 + 1) p" if "paise (bps (turnover_by security_key fs k) (rate k)) = Inr p" for k p
  proof -
    have n: "?n k \<le> 10 ^ 3" using fs(2) le_trans [OF length_filter_le] by blast
    then have "upto (?n k * 10 ^ 16) (turnover_by security_key fs k)"
      unfolding turnover_by_def using fs by (intro total_turnover_count) auto
    then have "upto (?n k * 10 ^ 16) (bps (turnover_by security_key fs k) (rate k))"
      using n by (intro upto_bps rate [rule_format]) simp_all
    from rounded_upto(1) [OF this _ _ that] show ?thesis using n by simp
  qed
  have "upto (0 + (\<Sum>k\<leftarrow>?ks. ?n k * 10 ^ 16 + 1)) r"
    by (rule sum_fold_upto [OF r [unfolded stt_by_security_def] p]) (use s len fs(2) in simp_all)
  then show ?thesis using s len fs(2) by (auto intro: upto_mono)
qed

lemma close_leg_grid:
  assumes l: "close_leg s d tot b x e st t n = Inr l" and s: "small_schedule s" and n: "n \<le> 10 ^ 3" and ok: "leg_ok l"
    and u: "upto (3 * 10 ^ 19) b" "upto (3 * 10 ^ 19) x" "upto (3 * 10 ^ 19) e" "upto (3 * 10 ^ 19) st" "upto (3 * 10 ^ 19) t"
  shows "grid (3 * 10 ^ 24) (leg_total l)"
proof -
  from l obtain g dp dpg tt where
    g: "paise ((b + x + e) * gst_rate s) = Inr g" and dp: "paise (dp_base_per_scrip s * dec_of_int (int n)) = Inr dp"
    and dpg: "paise (dp * gst_rate s) = Inr dpg"
    and l: "l = \<lparr>leg_date = d, leg_turnover = tt, brokerage = b, stt = t, exchange_and_ipft = x,
       sebi = e, stamp = st, gst = g, dp_base = dp, dp_gst = dpg\<rparr>"
    by (auto simp: close_leg_def res_simps)
  note r = small_rates [OF s]
  have "upto (9 * 10 ^ 19) (b + x + e)" using upto_plus [OF upto_plus [OF u(1,2)] u(3)] by simp
  then have "upto (9 * 10 ^ 19) ((b + x + e) * gst_rate s)" using upto_times [OF _ r(10)] by fastforce
  then have g': "upto (10 ^ 20) g" using rounded_upto(1) [OF _ _ _ g] by fastforce
  have "(of_nat n :: rat) \<le> of_nat (10 ^ 3)" using n by (simp only: of_nat_le_iff)
  then have "upto (10 ^ 3) (dec_of_int (int n))" by (simp add: upto_def)
  then have "upto (10 ^ 9) (dp_base_per_scrip s * dec_of_int (int n))" using upto_times [OF r(11)] by fastforce
  then have dp': "upto (10 ^ 10) dp" using rounded_upto(1) [OF _ _ _ dp] by fastforce
  then have "upto (10 ^ 10) (dp * gst_rate s)" using upto_times [OF _ r(10)] by fastforce
  then have dpg': "upto (10 ^ 11) dpg" using rounded_upto(1) [OF _ _ _ dpg] by fastforce
  have e: "-4 \<le> dexp b" "-4 \<le> dexp x" "-4 \<le> dexp e" "-4 \<le> dexp st" "-4 \<le> dexp t" "-4 \<le> dexp g" "-4 \<le> dexp dp" "-4 \<le> dexp dpg"
    using ok by (simp_all add: leg_ok_def l)
  note gr = upto_grid [OF u(1) e(1)] upto_grid [OF u(2) e(2)] upto_grid [OF u(3) e(3)] upto_grid [OF u(4) e(4)]
    upto_grid [OF u(5) e(5)] upto_grid [OF g' e(6)] upto_grid [OF dp' e(7)] upto_grid [OF dpg' e(8)]
  have "grid (15 * 10 ^ 23) (b + t + x + e + st)"
    using grid_plus(2) [OF grid_plus(2) [OF grid_plus(2) [OF grid_plus(2) [OF gr(1,5)] gr(2)] gr(3)] gr(4)] by simp
  then have "grid (15 * 10 ^ 23 + 10 ^ 24) (b + t + x + e + st + g)" using grid_plus(2) [OF _ gr(6)] by fastforce
  moreover have "grid (10 ^ 14 + 10 ^ 15) (dp + dpg)" using grid_plus(2) [OF gr(7,8)] by simp
  ultimately have "grid (15 * 10 ^ 23 + 10 ^ 24 + (10 ^ 14 + 10 ^ 15)) (leg_total l)"
    unfolding leg_total_def dp_total_def l using grid_plus(2) by fastforce
  then show ?thesis unfolding grid_def by (auto intro: le_trans)
qed

lemma equity_leg_grid:
  assumes leg: "equity_leg s d fs = Inr l" and s: "small_schedule s" and fs: "\<forall>f \<in> set fs. small_fill f" "length fs \<le> 10 ^ 3"
    and ok: "leg_ok l"
  shows "grid (3 * 10 ^ 24) (leg_total l)"
proof -
  let ?I = "intraday_fills fs"
  let ?tot = "total_turnover (on_side BUY fs) + total_turnover (on_side SELL fs)"
  let ?db = "total_turnover (on_side BUY fs) - total_turnover (on_side BUY ?I)"
  let ?ib = "total_turnover (on_side BUY ?I)"
  from leg obtain ob b x e st raw t where
    ob: "order_brokerage s ?I = Inr ob" and b: "paise (ob + bps (delivery_base fs) (brokerage_bps s)) = Inr b"
    and x: "paise (bps ?tot (exchange_and_ipft_bps s)) = Inr x" and e: "paise (bps ?tot (sebi_bps s)) = Inr e"
    and st: "rupee (bps ?db (stamp_buy_bps s) + bps ?ib (intraday_stamp_buy_bps s)) = Inr st"
    and raw: "stt_by_security (mixed_rate (set (intraday_scrips fs)) s) fs = Inr raw" and t: "rupee raw = Inr t"
    and l: "close_leg s d ?tot b x e st t (card (set (map scrip_of
      (filter (\<lambda>f. scrip_of f \<notin> set (intraday_scrips fs)) (on_side SELL fs))))) = Inr l"
    by (auto simp: equity_leg_def Let_def res_simps guards_Inr_iff)
  note r = small_rates [OF s]
  have I: "\<forall>f \<in> set ?I. small_fill f" "length ?I \<le> 10 ^ 3"
    using fs by (auto simp: intraday_fills_def intro: le_trans [OF length_filter_le])
  have turn: "upto (10 ^ 19) (total_turnover gs)" if "\<forall>f \<in> set gs. small_fill f" "length gs \<le> 10 ^ 3" for gs
    using total_turnover_count [OF that] that(2) by (auto intro: upto_mono)
  have side: "upto (10 ^ 19) (total_turnover (on_side sd gs))" if "\<forall>f \<in> set gs. small_fill f" "length gs \<le> 10 ^ 3" for sd gs
    by (rule turn [OF on_side_small [OF that(1)] length_on_side [OF that(2)]])
  have tot: "upto (2 * 10 ^ 19) ?tot" using upto_plus [OF side [OF fs] side [OF fs]] by simp
  have "upto (10 ^ 19) (delivery_base fs)"
  proof -
    let ?R = "filter (\<lambda>f. scrip_of f \<notin> set (intraday_scrips fs)) fs"
    have R: "\<forall>f \<in> set ?R. small_fill f" "length ?R \<le> 10 ^ 3" using fs by (auto intro: le_trans [OF length_filter_le])
    show ?thesis using turn [OF R] total_turnover_exact(1) [OF R] delivery_base_value [OF fs] by (simp add: upto_def)
  qed
  then have "upto (10 ^ 9 + 10 ^ 19) (ob + bps (delivery_base fs) (brokerage_bps s))"
    using order_brokerage_total [OF s I] ob by (intro upto_plus upto_bps r) simp_all
  from rounded_upto(1) [OF this _ _ b] have b': "upto (3 * 10 ^ 19) b" by simp
  from rounded_upto(1) [OF upto_bps [OF tot r(4)] _ _ x] have x': "upto (3 * 10 ^ 19) x" by simp
  from rounded_upto(1) [OF upto_bps [OF tot r(5)] _ _ e] have e': "upto (3 * 10 ^ 19) e" by simp
  have "upto (10 ^ 19) ?db"
    using minus_le [OF repr_of_nat, of "10 ^ 19" "total_turnover (on_side BUY fs)" ?ib] side [OF fs, of BUY] side [OF I, of BUY]
      delivery_buy_value [OF fs] by (simp add: upto_def)
  then have "upto (10 ^ 19 + 10 ^ 19) (bps ?db (stamp_buy_bps s) + bps ?ib (intraday_stamp_buy_bps s))"
    by (intro upto_plus upto_bps side [OF I] r) simp_all
  from rounded_upto(2) [OF this _ _ st] have st': "upto (3 * 10 ^ 19) st" by simp
  have "upto (10 ^ 19 + 10 ^ 3) raw"
    by (rule stt_upto [OF raw fs]) (use delivery_rate_upto(2) [OF s] in blast)
  from rounded_upto(2) [OF this _ _ t] have t': "upto (3 * 10 ^ 19) t" by simp
  have sold: "card (set (map scrip_of (filter (\<lambda>f. scrip_of f \<notin> set (intraday_scrips fs)) (on_side SELL fs)))) \<le> 10 ^ 3"
    by (rule le_trans [OF card_set_map_le le_trans [OF length_filter_le length_on_side [OF fs(2)]]])
  show ?thesis by (rule close_leg_grid [OF l s sold ok b' x' e' st' t'])
qed

end
