(* ===== verification/Ledger.thy ===== *)
theory Ledger
  imports Engine ChargeBounds
begin

text \<open>
  The cash book of the evaluation engine against an exact ledger of rational numbers.

  Every amount the engine adds is a whole number of hundredths of a paisa (\<open>sgrid\<close>), so within the bounds the
  rounded operations lose nothing.  \<open>enter_all\<close>, \<open>leave_all\<close>, \<open>mark_all\<close> and \<open>charge_step\<close> are the effect of each
  phase of one session, \<open>book_step\<close> composes them over the invariant \<open>booked\<close>, and the theorems are that the
  equity curve is the ledger and that the engine never trips over its own checks.
\<close>

section \<open>Amounts of either sign\<close>

definition sgrid :: "nat \<Rightarrow> decimal \<Rightarrow> bool" where
  \<comment> \<open>a multiple of a hundredth of a paisa, at most \<open>n\<close> of them either way\<close>
  "sgrid n d = (\<exists>k. \<bar>k\<bar> \<le> int n \<and> dval d = of_int k * 10 powi (-4))"

lemma sgrid_exact:
  assumes "\<bar>k\<bar> \<le> int n" and "n < 10 ^ 28" and "v = of_int k * 10 powi (-4)"
  shows "\<exists>m. repr m \<and> dval m = v"
proof -
  have "repr (Dec (k < 0) (nat \<bar>k\<bar>) (-4))" using assms by (simp add: repr_def prec_def)
  moreover have "dval (Dec (k < 0) (nat \<bar>k\<bar>) (-4)) = v" by (simp add: dval_Dec assms(3))
  ultimately show ?thesis by blast
qed

lemma sgrid_plus:
  assumes "sgrid m a" and "sgrid n b" and "m + n < 10 ^ 28"
  shows "dval (a + b) = dval a + dval b" and "sgrid (m + n) (a + b)"
proof -
  obtain i j where i: "\<bar>i\<bar> \<le> int m" "dval a = of_int i * 10 powi (-4)" and j: "\<bar>j\<bar> \<le> int n" "dval b = of_int j * 10 powi (-4)"
    using assms by (auto simp: sgrid_def)
  have ij: "\<bar>i + j\<bar> \<le> int (m + n)" using i(1) j(1) by linarith
  have v: "dval a + dval b = of_int (i + j) * 10 powi (-4)" using i(2) j(2) by (simp add: algebra_simps)
  obtain c where "repr c" "dval c = dval a + dval b" using sgrid_exact [OF ij assms(3) v] by blast
  then show "dval (a + b) = dval a + dval b" using plus_exact [of c a b] by simp
  then show "sgrid (m + n) (a + b)" using ij v by (auto simp: sgrid_def intro!: exI [of _ "i + j"])
qed

lemma sgrid_minus:
  assumes "sgrid m a" and "sgrid n b" and "m + n < 10 ^ 28"
  shows "dval (a - b) = dval a - dval b" and "sgrid (m + n) (a - b)"
proof -
  obtain i j where i: "\<bar>i\<bar> \<le> int m" "dval a = of_int i * 10 powi (-4)" and j: "\<bar>j\<bar> \<le> int n" "dval b = of_int j * 10 powi (-4)"
    using assms by (auto simp: sgrid_def)
  have ij: "\<bar>i - j\<bar> \<le> int (m + n)" using i(1) j(1) by linarith
  have v: "dval a - dval b = of_int (i - j) * 10 powi (-4)" using i(2) j(2) by (simp add: algebra_simps)
  obtain c where "repr c" "dval c = dval a - dval b" using sgrid_exact [OF ij assms(3) v] by blast
  then show "dval (a - b) = dval a - dval b" using minus_exact [of c a b] by simp
  then show "sgrid (m + n) (a - b)" using ij v by (auto simp: sgrid_def intro!: exI [of _ "i - j"])
qed

lemma sgrid_times:
  assumes "sgrid m a" and "\<bar>q\<bar> \<le> int n" and "m * n < 10 ^ 28"
  shows "dval (a * dec_of_int q) = dval a * of_int q" and "sgrid (m * n) (a * dec_of_int q)"
proof -
  obtain i where i: "\<bar>i\<bar> \<le> int m" "dval a = of_int i * 10 powi (-4)" using assms by (auto simp: sgrid_def)
  have iq: "\<bar>i * q\<bar> \<le> int (m * n)" using i(1) assms(2) by (simp add: abs_mult mult_mono)
  have v: "dval a * of_int q = of_int (i * q) * 10 powi (-4)" using i(2) by simp
  obtain c where "repr c" "dval c = dval a * of_int q" using sgrid_exact [OF iq assms(3) v] by blast
  then show "dval (a * dec_of_int q) = dval a * of_int q" using times_exact [of c a "dec_of_int q"] by simp
  then show "sgrid (m * n) (a * dec_of_int q)" using iq v by (auto simp: sgrid_def intro!: exI [of _ "i * q"])
qed

lemma sgrid_zero [simp]: "sgrid n 0"
  by (auto simp: sgrid_def intro: exI [of _ 0])

lemma sgrid_mono: "sgrid m d \<Longrightarrow> m \<le> n \<Longrightarrow> sgrid n d"
  by (fastforce simp: sgrid_def)

lemma grid_sgrid: "grid n d \<Longrightarrow> sgrid n d"
proof -
  assume "grid n d"
  then obtain k where "k \<le> n" "dval d = of_nat k * 10 powi (-4)" by (auto simp: grid_def)
  then show ?thesis by (auto simp: sgrid_def intro!: exI [of _ "int k"])
qed

lemma sgrid_fold:
  assumes "sgrid k a" and "\<forall>x \<in> set xs. sgrid n (f x)" and "k + length xs * n < 10 ^ 28"
  shows "dval (foldl (\<lambda>acc x. acc + f x) a xs) = dval a + (\<Sum>x\<leftarrow>xs. dval (f x))
      \<and> sgrid (k + length xs * n) (foldl (\<lambda>acc x. acc + f x) a xs)"
    and "dval (foldl (\<lambda>acc x. acc - f x) a xs) = dval a - (\<Sum>x\<leftarrow>xs. dval (f x))
      \<and> sgrid (k + length xs * n) (foldl (\<lambda>acc x. acc - f x) a xs)"
  using assms
proof (induction xs arbitrary: k a)
  case (Cons x xs)
  {
    case 1
    then have "sgrid (k + n) (a + f x)" "dval (a + f x) = dval a + dval (f x)" using sgrid_plus [of k a n "f x"] by simp_all
    then show ?case using Cons.IH(1) [of "k + n" "a + f x"] 1 by (simp add: algebra_simps)
  next
    case 2
    then have "sgrid (k + n) (a - f x)" "dval (a - f x) = dval a - dval (f x)" using sgrid_minus [of k a n "f x"] by simp_all
    then show ?case using Cons.IH(2) [of "k + n" "a - f x"] 2 by (simp add: algebra_simps)
  }
qed simp_all

section \<open>The phases of one session\<close>

definition small_sim_fill :: "simulated_fill \<Rightarrow> bool" where
  \<comment> \<open>at most a hundred million rupees and shares, prices in hundredths of a paisa\<close>
  "small_sim_fill f = (grid (10 ^ 12) (fill_price f) \<and> 0 < fill_quantity f \<and> fill_quantity f \<le> 10 ^ 8)"

definition worth :: "simulated_fill \<Rightarrow> rat" where
  "worth f = dval (fill_price f) * of_int (fill_quantity f)"

lemma fill_cost_exact:
  assumes "small_sim_fill f"
  shows "dval (fill_cost f) = worth f" "sgrid (10 ^ 20) (fill_cost f)"
  using sgrid_times [OF grid_sgrid, of "10 ^ 12" "fill_price f" "fill_quantity f" "10 ^ 8"] assms
  by (simp_all add: small_sim_fill_def fill_cost_def worth_def)

definition symb_of :: "evaluated_trade \<Rightarrow> string" where
  "symb_of t = fill_symbol (trade_entry t)"

definition position_of :: "evaluated_trade \<Rightarrow> position" where
  "position_of t = (symb_of t, fill_quantity (trade_entry t), trade_intent_id t)"

lemma fst_position [simp]: "fst (position_of t) = symb_of t" "fst \<circ> position_of = symb_of"
  by (auto simp: position_of_def)

lemma enter_all:
  assumes "distinct (map fst P @ map symb_of es)"
  shows "foldE enter (c, P) es = Inr (foldl (\<lambda>acc t. acc - fill_cost (trade_entry t)) c es, P @ map position_of es)"
  using assms
proof (induction es arbitrary: c P)
  case (Cons t es)
  then have "enter (c, P) t = Inr (c - fill_cost (trade_entry t), P @ [position_of t])"
    by (simp add: enter_def position_of_def symb_of_def Let_def)
  then show ?case using Cons by (simp add: position_of_def)
qed simp

lemma leave_all:
  assumes "distinct (map fst P)" and "distinct (map symb_of xs)"
    and "\<forall>t \<in> set xs. consistent t \<and> position_of t \<in> set P"
  shows "foldE leave (c, P) xs = Inr (foldl (\<lambda>acc t. acc + fill_cost (trade_exit t)) c xs,
      filter (\<lambda>p. fst p \<notin> symb_of ` set xs) P)"
  using assms
proof (induction xs arbitrary: c P)
  case (Cons t xs)
  have t: "fill_symbol (trade_exit t) = symb_of t" "fill_quantity (trade_exit t) = fill_quantity (trade_entry t)"
    using Cons.prems(3) by (simp_all add: consistent_def trade_guards_def symb_of_def)
  have "map_of P (symb_of t) = Some (fill_quantity (trade_entry t), trade_intent_id t)"
    using Cons.prems by (intro map_of_is_SomeI) (auto simp: position_of_def)
  then have l: "leave (c, P) t = Inr (c + fill_cost (trade_exit t), filter (\<lambda>p. fst p \<noteq> symb_of t) P)"
    by (simp add: leave_def t Let_def)
  have "distinct (map fst (filter (\<lambda>p. fst p \<noteq> symb_of t) P))" using Cons.prems(1) by (rule distinct_map_filter)
  moreover have "\<forall>u \<in> set xs. consistent u \<and> position_of u \<in> set (filter (\<lambda>p. fst p \<noteq> symb_of t) P)"
    using Cons.prems(2,3) by (auto simp: position_of_def intro: rev_image_eqI)
  ultimately have "foldE leave (c + fill_cost (trade_exit t), filter (\<lambda>p. fst p \<noteq> symb_of t) P) xs =
      Inr (foldl (\<lambda>acc t. acc + fill_cost (trade_exit t)) (c + fill_cost (trade_exit t)) xs,
        filter (\<lambda>p. fst p \<notin> symb_of ` set xs) (filter (\<lambda>p. fst p \<noteq> symb_of t) P))"
    using Cons.prems(2) by (intro Cons.IH) simp_all
  then show ?case using l by (simp add: conj_commute)
qed simp

definition price_at :: "evaluation_dataset \<Rightarrow> date \<Rightarrow> string \<Rightarrow> rat" where
  "price_at ds d s = (case bar_at ds d s of None \<Rightarrow> 0 | Some b \<Rightarrow> dval (bar_close b))"

definition no_cash :: py_exc where
  "no_cash = eval_err ''executed entries and charges exceed available cash''"

lemma mark_all:
  assumes "\<forall>b \<in> set (ds_bars ds). grid (10 ^ 12) (bar_close b)"
    and "\<forall>t \<in> set ts. small_sim_fill (trade_entry t) \<and> bar_at ds d (symb_of t) \<noteq> None"
    and "sgrid k acc" and "k + length ts * 10 ^ 20 < 10 ^ 28"
  shows "\<exists>v. foldE (mark ds d) acc (map position_of ts) = Inr v \<and> sgrid (k + length ts * 10 ^ 20) v
      \<and> dval v = dval acc + (\<Sum>t\<leftarrow>ts. price_at ds d (symb_of t) * of_int (fill_quantity (trade_entry t)))"
  using assms(2-)
proof (induction ts arbitrary: k acc)
  case (Cons t ts)
  then obtain b where b: "bar_at ds d (symb_of t) = Some b" by auto
  let ?v = "bar_close b * dec_of_int (fill_quantity (trade_entry t))"
  have "b \<in> set (ds_bars ds)" using b by (auto simp: bar_at_def dest: find_member)
  then have v: "dval ?v = dval (bar_close b) * of_int (fill_quantity (trade_entry t))" "sgrid (10 ^ 20) ?v"
    using sgrid_times [OF grid_sgrid, of "10 ^ 12" "bar_close b" "fill_quantity (trade_entry t)" "10 ^ 8"] assms(1) Cons.prems(1)
    by (simp_all add: small_sim_fill_def)
  have a: "sgrid (k + 10 ^ 20) (acc + ?v)" "dval (acc + ?v) = dval acc + dval ?v"
    using sgrid_plus [OF Cons.prems(2) v(2)] Cons.prems(3) by simp_all
  have "mark ds d acc (position_of t) = Inr (acc + ?v)" using b by (simp add: mark_def position_of_def)
  moreover have "dval acc + dval (bar_close b) * of_int (fill_quantity (trade_entry t)) = dval (acc + ?v)"
    using a(2) v(1) by simp
  ultimately show ?case
    using Cons.IH [of "k + 10 ^ 20" "acc + ?v"] Cons.prems a b
    by (auto simp: price_at_def ac_simps)
qed (auto simp: assms)

section \<open>The exact ledger\<close>

definition open_in :: "date set \<Rightarrow> evaluated_trade list \<Rightarrow> evaluated_trade list" where
  \<comment> \<open>the trades open after the sessions of \<open>S\<close>\<close>
  "open_in S ts = filter (\<lambda>t. fill_session (trade_entry t) \<in> S \<and> fill_session (trade_exit t) \<notin> S) ts"

definition legs_of :: "delivery_charge_breakdown option \<Rightarrow> delivery_leg_charges list" where
  "legs_of c = (case c of None \<Rightarrow> [] | Some b \<Rightarrow> legs b)"

definition exact_cash ::
  "decimal \<Rightarrow> evaluated_trade list \<Rightarrow> delivery_charge_breakdown option \<Rightarrow> date set \<Rightarrow> rat" where
  \<comment> \<open>capital less purchases and charges plus sales, over the sessions of \<open>S\<close>\<close>
  "exact_cash capital ts c S = dval capital
     - (\<Sum>t\<leftarrow>filter (\<lambda>t. fill_session (trade_entry t) \<in> S) ts. worth (trade_entry t))
     + (\<Sum>t\<leftarrow>filter (\<lambda>t. fill_session (trade_exit t) \<in> S) ts. worth (trade_exit t))
     - (\<Sum>l\<leftarrow>filter (\<lambda>l. leg_date l \<in> S) (legs_of c). dval (leg_total l))"

definition exact_equity ::
  "evaluation_dataset \<Rightarrow> decimal \<Rightarrow> evaluated_trade list \<Rightarrow> delivery_charge_breakdown option \<Rightarrow> date set \<Rightarrow> date \<Rightarrow> rat" where
  \<comment> \<open>with the open positions at the close of \<open>d\<close>\<close>
  "exact_equity ds capital ts c S d = exact_cash capital ts c S
     + (\<Sum>t\<leftarrow>open_in S ts. price_at ds d (symb_of t) * of_int (fill_quantity (trade_entry t)))"

definition orderly :: "date list \<Rightarrow> evaluated_trade list \<Rightarrow> bool" where
  "orderly ps ts = (strictly_sorted ps \<and> sorted_wrt apart ts \<and> sorted (map (\<lambda>t. fill_session (trade_entry t)) ts)
     \<and> (\<forall>t \<in> set ts. consistent t \<and> fill_session (trade_entry t) \<in> set ps \<and> fill_session (trade_exit t) \<in> set ps))"

definition quoted :: "evaluation_dataset \<Rightarrow> date list \<Rightarrow> evaluated_trade list \<Rightarrow> bool" where
  \<comment> \<open>every open position has a bar\<close>
  "quoted ds ps ts = (\<forall>t \<in> set ts. \<forall>d \<in> set ps.
     fill_session (trade_entry t) \<le> d \<and> d < fill_session (trade_exit t) \<longrightarrow> bar_at ds d (symb_of t) \<noteq> None)"

definition small_book ::
  "evaluation_dataset \<Rightarrow> decimal \<Rightarrow> evaluated_trade list \<Rightarrow> delivery_charge_breakdown option \<Rightarrow> bool" where
  \<comment> \<open>amounts on the grid: a capital of 10^23 rupees, 500 trades, charges of 3 * 10^20 rupees a day at most\<close>
  "small_book ds capital ts c = (0 < dval capital \<and> grid (10 ^ 27) capital \<and> length ts \<le> 500
     \<and> (\<forall>t \<in> set ts. small_sim_fill (trade_entry t) \<and> small_sim_fill (trade_exit t))
     \<and> (\<forall>b \<in> set (ds_bars ds). grid (10 ^ 12) (bar_close b))
     \<and> (\<forall>l \<in> set (legs_of c). grid (3 * 10 ^ 24) (leg_total l)) \<and> length (legs_of c) \<le> 1000
     \<and> distinct (map leg_date (legs_of c)))"

definition moved :: "evaluated_trade list \<Rightarrow> delivery_charge_breakdown option \<Rightarrow> date set \<Rightarrow> nat" where
  \<comment> \<open>how much has gone through the cash account at most, in hundredths of a paisa\<close>
  "moved ts c S = length (filter (\<lambda>t. fill_session (trade_entry t) \<in> S) ts) * 10 ^ 20
     + length (filter (\<lambda>t. fill_session (trade_exit t) \<in> S) ts) * 10 ^ 20
     + length (filter (\<lambda>l. leg_date l \<in> S) (legs_of c)) * (3 * 10 ^ 24)"

definition booked ::
  "decimal \<Rightarrow> evaluated_trade list \<Rightarrow> delivery_charge_breakdown option \<Rightarrow> date set \<Rightarrow> book \<Rightarrow> bool" where
  "booked capital ts c S s = (dval (cash s) = exact_cash capital ts c S
     \<and> sgrid (10 ^ 27 + moved ts c S) (cash s)
     \<and> positions s = map position_of (open_in S ts) \<and> 0 < dval (peak s))"

lemma sum_filter_insert:
  "d \<notin> S \<Longrightarrow> (\<Sum>x\<leftarrow>filter (\<lambda>x. f x \<in> insert d S) xs. g x) =
     (\<Sum>x\<leftarrow>filter (\<lambda>x. f x \<in> S) xs. g x) + (\<Sum>x\<leftarrow>filter (\<lambda>x. f x = d) xs. (g x :: rat))"
  by (induction xs) auto

lemma length_filter_insert:
  "d \<notin> S \<Longrightarrow> length (filter (\<lambda>x. f x \<in> insert d S) xs) = length (filter (\<lambda>x. f x \<in> S) xs) + length (filter (\<lambda>x. f x = d) xs)"
  by (induction xs) auto

lemma exact_cash_insert:
  assumes "d \<notin> S"
  shows "exact_cash capital ts c (insert d S) = exact_cash capital ts c S
    - (\<Sum>t\<leftarrow>entries_on ts d. worth (trade_entry t)) + (\<Sum>t\<leftarrow>exits_on ts d. worth (trade_exit t))
    - (\<Sum>l\<leftarrow>filter (\<lambda>l. leg_date l = d) (legs_of c). dval (leg_total l))"
  unfolding exact_cash_def sum_filter_insert [OF assms] entries_on_def exits_on_def by simp

lemma moved_insert:
  assumes "d \<notin> S"
  shows "moved ts c (insert d S) = moved ts c S + length (entries_on ts d) * 10 ^ 20 + length (exits_on ts d) * 10 ^ 20
    + length (filter (\<lambda>l. leg_date l = d) (legs_of c)) * (3 * 10 ^ 24)"
  unfolding moved_def length_filter_insert [OF assms] entries_on_def exits_on_def by simp

lemma moved_le:
  assumes "small_book ds capital ts c"
  shows "moved ts c S \<le> 4 * 10 ^ 27"
proof -
  have "length (filter P ts) \<le> 500" "length (filter Q (legs_of c)) \<le> 1000" for P Q
    using assms le_trans [OF length_filter_le] by (auto simp: small_book_def)
  note n = this(1) [of "\<lambda>t. fill_session (trade_entry t) \<in> S"] this(1) [of "\<lambda>t. fill_session (trade_exit t) \<in> S"]
    this(2) [of "\<lambda>l. leg_date l \<in> S"]
  show ?thesis unfolding moved_def using n by simp
qed

lemma one_leg:
  "distinct (map leg_date ls) \<Longrightarrow>
     (case map_of (rev (map (\<lambda>l. (leg_date l, leg_total l)) ls)) d of
        None \<Rightarrow> filter (\<lambda>l. leg_date l = d) ls = []
      | Some v \<Rightarrow> \<exists>l \<in> set ls. filter (\<lambda>l. leg_date l = d) ls = [l] \<and> v = leg_total l)"
proof (induction ls rule: rev_induct)
  case (snoc l ls)
  then show ?case by (auto simp: filter_empty_conv image_iff split: option.splits)
qed simp

lemma charge_on_leg:
  assumes "distinct (map leg_date (legs_of c))" and "\<forall>l \<in> set (legs_of c). grid (3 * 10 ^ 24) (leg_total l)"
  shows "dval (charge_on c d) = (\<Sum>l\<leftarrow>filter (\<lambda>l. leg_date l = d) (legs_of c). dval (leg_total l))"
    and "sgrid (length (filter (\<lambda>l. leg_date l = d) (legs_of c)) * (3 * 10 ^ 24)) (charge_on c d)"
  using one_leg [OF assms(1), of d] assms(2) grid_sgrid
  by (auto simp: charge_on_def legs_of_def split: option.splits)

lemma sorted_filter_split:
  assumes "sorted (map f xs)" and "\<forall>x \<in> S. x < d"
  shows "filter (\<lambda>x. f x \<in> insert d S \<and> R x) xs = filter (\<lambda>x. f x \<in> S \<and> R x) xs @ filter (\<lambda>x. f x = d \<and> R x) xs"
  using assms(1)
proof (induction xs)
  case (Cons x xs)
  show ?case
  proof (cases "f x = d")
    case True
    then have "filter (\<lambda>x. f x \<in> S \<and> R x) xs = []" using Cons.prems assms(2) by (fastforce simp: filter_empty_conv)
    then show ?thesis using Cons True assms(2) by auto
  qed (use Cons in auto)
qed simp

lemma consistent_order: "consistent t \<Longrightarrow> fill_session (trade_entry t) \<le> fill_session (trade_exit t)"
  by (simp add: consistent_def trade_guards_def not_less)

lemma distinct_map_sorted_wrt: "sorted_wrt (\<lambda>x y. f x \<noteq> f y) xs \<Longrightarrow> distinct (map f xs)"
  by (induction xs) auto

lemma session_positions:
  assumes o: "orderly ps ts" and d: "d \<in> set ps" and S: "S = {x \<in> set ps. x < d}"
  shows "filter (\<lambda>t. fill_session (trade_entry t) \<in> insert d S \<and> fill_session (trade_exit t) \<notin> S) ts
      = open_in S ts @ entries_on ts d" (is "?L = _")
    and "distinct (map symb_of (open_in S ts @ entries_on ts d))"
    and "set (exits_on ts d) \<subseteq> set (open_in S ts @ entries_on ts d)"
    and "distinct (map symb_of (exits_on ts d))"
    and "filter (\<lambda>t. symb_of t \<notin> symb_of ` set (exits_on ts d)) (open_in S ts @ entries_on ts d) = open_in (insert d S) ts"
proof -
  have mem: "fill_session (trade_entry t) \<in> set ps" "fill_session (trade_exit t) \<in> set ps"
    "fill_session (trade_entry t) \<le> fill_session (trade_exit t)" if "t \<in> set ts" for t
    using o that consistent_order by (auto simp: orderly_def)
  have "?L = filter (\<lambda>t. fill_session (trade_entry t) \<in> S \<and> fill_session (trade_exit t) \<notin> S) ts
      @ filter (\<lambda>t. fill_session (trade_entry t) = d \<and> fill_session (trade_exit t) \<notin> S) ts"
    using o S by (intro sorted_filter_split) (auto simp: orderly_def)
  moreover have "filter (\<lambda>t. fill_session (trade_entry t) = d \<and> fill_session (trade_exit t) \<notin> S) ts = entries_on ts d"
    unfolding entries_on_def using mem(3) S by (intro filter_cong) (auto simp: not_less)
  ultimately show L: "?L = open_in S ts @ entries_on ts d" by (simp add: open_in_def)
  have "sorted_wrt apart ?L" using o by (simp add: orderly_def sorted_wrt_filter)
  then have "sorted_wrt (\<lambda>t u. symb_of t \<noteq> symb_of u) ?L"
  proof (rule sorted_wrt_mono_rel [rotated])
    fix t u assume t: "t \<in> set ?L" and u: "u \<in> set ?L" and a: "apart t u"
    show "symb_of t \<noteq> symb_of u"
    proof
      assume "symb_of t = symb_of u"
      then have "fill_session (trade_exit t) < fill_session (trade_entry u)" using a by (simp add: apart_def symb_of_def)
      moreover have "fill_session (trade_entry u) \<le> d" using u S by auto
      ultimately have "fill_session (trade_exit t) \<in> S" using mem(2) t S by auto
      then show False using t by simp
    qed
  qed
  then show dist: "distinct (map symb_of (open_in S ts @ entries_on ts d))" unfolding L by (rule distinct_map_sorted_wrt)
  have ex: "exits_on ts d = filter (\<lambda>t. fill_session (trade_exit t) = d) ?L"
    unfolding exits_on_def filter_filter using mem S by (intro filter_cong) (force simp: not_less le_less)+
  then show sub: "set (exits_on ts d) \<subseteq> set (open_in S ts @ entries_on ts d)" unfolding L by auto
  show "distinct (map symb_of (exits_on ts d))" unfolding ex L using dist by (rule distinct_map_filter)
  have "filter (\<lambda>t. symb_of t \<notin> symb_of ` set (exits_on ts d)) ?L = filter (\<lambda>t. fill_session (trade_exit t) \<noteq> d) ?L"
  proof (rule filter_cong [OF refl])
    fix t assume t: "t \<in> set ?L"
    have "fill_session (trade_exit t) = d" if "u \<in> set (exits_on ts d)" "symb_of t = symb_of u" for u
    proof -
      have "inj_on symb_of (set ?L)" unfolding L using dist [unfolded distinct_map] by blast
      moreover have "u \<in> set ?L" using that(1) sub unfolding L by blast
      ultimately have "t = u" using that(2) t by (auto dest: inj_onD)
      then show ?thesis using that(1) by (simp add: exits_on_def)
    qed
    moreover have "t \<in> set (exits_on ts d)" if "fill_session (trade_exit t) = d" using t that by (simp add: ex)
    ultimately show "(symb_of t \<notin> symb_of ` set (exits_on ts d)) = (fill_session (trade_exit t) \<noteq> d)" by blast
  qed
  moreover have "filter (\<lambda>t. fill_session (trade_exit t) \<noteq> d) ?L = open_in (insert d S) ts"
    by (auto simp: open_in_def intro: filter_cong)
  ultimately show "filter (\<lambda>t. symb_of t \<notin> symb_of ` set (exits_on ts d)) (open_in S ts @ entries_on ts d) = open_in (insert d S) ts"
    unfolding L by simp
qed

definition exact_point ::
  "evaluation_dataset \<Rightarrow> decimal \<Rightarrow> evaluated_trade list \<Rightarrow> delivery_charge_breakdown option \<Rightarrow> date set \<Rightarrow> equity_point \<Rightarrow> bool" where
  "exact_point ds capital ts c S pt = (dval (equity pt) = exact_equity ds capital ts c S (point_session pt)
     \<and> dval (drawdown pt) \<le> 0)"

lemma fall_nonpos: "0 < dval high \<Longrightarrow> dval eq \<le> dval high \<Longrightarrow> dval (fall eq high) \<le> 0"
proof -
  assume t: "0 < dval high" "dval eq \<le> dval high"
  then have "\<not> dzero high" by (simp flip: dval_zero_iff)
  then have "dval (dquot eq high) \<le> 1" using dquot_le [of high 1 eq] t by (simp add: divide_le_eq)
  then show ?thesis using minus_le [of 0 "dquot eq high" 1] t by (simp add: fall_def less_iff_dval)
qed

lemma cash_step:
  assumes small: "small_book ds capital ts c" and d: "d \<notin> S" and b: "booked capital ts c S s"
  defines "k \<equiv> foldl (\<lambda>acc t. acc + fill_cost (trade_exit t))
    (foldl (\<lambda>acc t. acc - fill_cost (trade_entry t)) (cash s) (entries_on ts d)) (exits_on ts d) - charge_on c d"
  shows "dval k = exact_cash capital ts c (insert d S)" and "sgrid (10 ^ 27 + moved ts c (insert d S)) k"
proof -
  let ?es = "entries_on ts d" and ?xs = "exits_on ts d" and ?ls = "filter (\<lambda>l. leg_date l = d) (legs_of c)"
  let ?m = "moved ts c S" and ?a = "foldl (\<lambda>acc t. acc - fill_cost (trade_entry t)) (cash s) (entries_on ts d)"
  let ?b = "foldl (\<lambda>acc t. acc + fill_cost (trade_exit t)) ?a ?xs"
  have n: "?m + length ?es * 10 ^ 20 + length ?xs * 10 ^ 20 + length ?ls * (3 * 10 ^ 24) \<le> 4 * 10 ^ 27"
    using moved_le [OF small, of "insert d S"] moved_insert [OF d, of ts c] by simp
  have cost: "small_sim_fill (trade_entry t) \<and> small_sim_fill (trade_exit t)" if "t \<in> set ts" for t
    using small that by (simp add: small_book_def)
  have "\<forall>t \<in> set ?es. sgrid (10 ^ 20) (fill_cost (trade_entry t))" "\<forall>t \<in> set ?xs. sgrid (10 ^ 20) (fill_cost (trade_exit t))"
    using cost fill_cost_exact(2) by (simp_all add: entries_on_def exits_on_def)
  note es = this
  have s0: "sgrid (10 ^ 27 + ?m) (cash s)" "dval (cash s) = exact_cash capital ts c S"
    using b by (simp_all add: booked_def)
  have a: "dval ?a = dval (cash s) - (\<Sum>t\<leftarrow>?es. dval (fill_cost (trade_entry t)))"
    "sgrid (10 ^ 27 + ?m + length ?es * 10 ^ 20) ?a"
    using sgrid_fold(2) [OF s0(1) es(1)] n by simp_all
  have bb: "dval ?b = dval ?a + (\<Sum>t\<leftarrow>?xs. dval (fill_cost (trade_exit t)))"
    "sgrid (10 ^ 27 + ?m + length ?es * 10 ^ 20 + length ?xs * 10 ^ 20) ?b"
    using sgrid_fold(1) [OF a(2) es(2)] n by simp_all
  have ch: "dval (charge_on c d) = (\<Sum>l\<leftarrow>?ls. dval (leg_total l))" "sgrid (length ?ls * (3 * 10 ^ 24)) (charge_on c d)"
    by (rule charge_on_leg; use small in \<open>simp add: small_book_def\<close>)+
  have kk: "dval k = dval ?b - dval (charge_on c d)"
    "sgrid (10 ^ 27 + ?m + length ?es * 10 ^ 20 + length ?xs * 10 ^ 20 + length ?ls * (3 * 10 ^ 24)) k"
    unfolding k_def using sgrid_minus [OF bb(2) ch(2)] n by simp_all
  have "(\<Sum>t\<leftarrow>?es. dval (fill_cost (trade_entry t))) = (\<Sum>t\<leftarrow>?es. worth (trade_entry t))"
    "(\<Sum>t\<leftarrow>?xs. dval (fill_cost (trade_exit t))) = (\<Sum>t\<leftarrow>?xs. worth (trade_exit t))"
    using cost fill_cost_exact(1) by (auto simp: entries_on_def exits_on_def intro!: arg_cong [of _ _ sum_list])
  then show "dval k = exact_cash capital ts c (insert d S)"
    unfolding exact_cash_insert [OF d] kk(1) bb(1) a(1) s0(2) ch(1) by simp
  show "sgrid (10 ^ 27 + moved ts c (insert d S)) k"
    using kk(2) moved_insert [OF d, of ts c] by (simp add: algebra_simps)
qed

lemma book_step:
  assumes o: "orderly ps ts" and q: "quoted ds ps ts" and small: "small_book ds capital ts c" and d: "d \<in> set ps"
    and S: "S = {x \<in> set ps. x < d}" and b: "booked capital ts c S s"
  shows "if exact_cash capital ts c (insert d S) < 0 then book_session ds ts c s d = Inl no_cash else
    (\<exists>s' pt. book_session ds ts c s d = Inr s' \<and> booked capital ts c (insert d S) s' \<and> points s' = points s @ [pt]
      \<and> point_session pt = d \<and> exact_point ds capital ts c (insert d S) pt
      \<and> check_drawdown (peak s) pt = Inr (peak s'))"
proof -
  let ?S = "insert d S" and ?es = "entries_on ts d" and ?xs = "exits_on ts d"
  note sp = session_positions [OF o d S] and cs = cash_step [OF small _ b, of d]
  have dS: "d \<notin> S" using S by simp
  have pos: "positions s = map position_of (open_in S ts)" "0 < dval (peak s)" using b by (simp_all add: booked_def)
  have en: "foldE enter (cash s, positions s) ?es = Inr (foldl (\<lambda>acc t. acc - fill_cost (trade_entry t)) (cash s) ?es,
      map position_of (open_in S ts @ ?es))"
    using enter_all [of "positions s" ?es "cash s"] sp(2) by (simp add: pos)
  define a where "a = foldl (\<lambda>acc t. acc - fill_cost (trade_entry t)) (cash s) ?es"
  have le: "foldE leave (a, map position_of (open_in S ts @ ?es)) ?xs =
      Inr (foldl (\<lambda>acc t. acc + fill_cost (trade_exit t)) a ?xs, map position_of (open_in ?S ts))"
  proof -
    have "\<forall>t \<in> set ?xs. consistent t \<and> position_of t \<in> set (map position_of (open_in S ts @ ?es))"
      using sp(3) o by (auto simp: orderly_def exits_on_def)
    moreover have "filter (\<lambda>p. fst p \<notin> symb_of ` set ?xs) (map position_of (open_in S ts @ ?es)) = map position_of (open_in ?S ts)"
      unfolding sp(5) [symmetric] filter_map by (simp add: comp_def)
    ultimately show ?thesis using leave_all [of "map position_of (open_in S ts @ ?es)" ?xs a] sp(2,4) by simp
  qed
  define k where "k = foldl (\<lambda>acc t. acc + fill_cost (trade_exit t)) a ?xs - charge_on c d"
  have k: "dval k = exact_cash capital ts c ?S" "sgrid (10 ^ 27 + moved ts c ?S) k"
    using cs(1,2) [OF dS] unfolding k_def a_def by blast+
  have run: "book_session ds ts c s d = guards [(k < 0, no_cash)]
      (bindE (foldE (mark ds d) 0 (map position_of (open_in ?S ts))) (\<lambda>value. let eq = k + value; high = py_max (peak s) eq in
        bindE (mk_point \<lparr>point_session = d, equity = eq, drawdown = fall eq high\<rparr>) (\<lambda>pt.
        Inr \<lparr>cash = k, positions = map position_of (open_in ?S ts), peak = high, points = points s @ [pt]\<rparr>)))"
    using le unfolding book_session_def en a_def [symmetric] bindE_Inr by (simp add: Let_def k_def no_cash_def)
  have len: "length (open_in ?S ts) \<le> 500"
    using small le_trans [OF length_filter_le] by (fastforce simp: open_in_def small_book_def)
  have "bar_at ds d (symb_of t) \<noteq> None" if "t \<in> set (open_in ?S ts)" for t
    using q d S o that by (fastforce simp: quoted_def open_in_def orderly_def not_less le_less)
  then have "\<exists>v. foldE (mark ds d) 0 (map position_of (open_in ?S ts)) = Inr v \<and> sgrid (0 + length (open_in ?S ts) * 10 ^ 20) v
      \<and> dval v = dval 0 + (\<Sum>t\<leftarrow>open_in ?S ts. price_at ds d (symb_of t) * of_int (fill_quantity (trade_entry t)))"
    using small len by (intro mark_all) (auto simp: small_book_def open_in_def)
  then obtain v where some: "foldE (mark ds d) 0 (map position_of (open_in ?S ts)) = Inr v" "sgrid (length (open_in ?S ts) * 10 ^ 20) v"
      "dval v = (\<Sum>t\<leftarrow>open_in ?S ts. price_at ds d (symb_of t) * of_int (fill_quantity (trade_entry t)))"
    by auto
  define eq where "eq = k + v"
  define high where "high = py_max (peak s) eq"
  have t: "dval eq = exact_equity ds capital ts c ?S d"
    using sgrid_plus(1) [OF k(2) some(2)] moved_le [OF small, of ?S] len k(1) some(3)
    by (simp add: exact_equity_def eq_def)
  have high: "0 < dval high" "dval eq \<le> dval high" using pos(2) by (simp_all add: high_def dval_py_max)
  note dd = fall_nonpos [OF high]
  define pt where "pt = \<lparr>point_session = d, equity = eq, drawdown = fall eq high\<rparr>"
  define s' where "s' = \<lparr>cash = k, positions = map position_of (open_in ?S ts), peak = high, points = points s @ [pt]\<rparr>"
  have mk: "mk_point pt = Inr pt" using dd by (simp add: mk_point_def pt_def less_iff_dval)
  have r: "book_session ds ts c s d = guards [(k < 0, no_cash)] (Inr s')"
    using some(1) mk by (simp add: run Let_def pt_def eq_def [symmetric] high_def [symmetric] s'_def)
  show ?thesis
  proof (cases "k < 0")
    case False
    have "exact_point ds capital ts c ?S pt" using t dd by (simp add: exact_point_def pt_def)
    moreover have "booked capital ts c ?S s'" using k high by (simp add: booked_def s'_def)
    moreover have "check_drawdown (peak s) pt = Inr (peak s')"
      by (simp add: check_drawdown_def pt_def s'_def high_def [symmetric] Let_def)
    moreover have "book_session ds ts c s d = Inr s'" using False by (simp add: r)
    moreover have "points s' = points s @ [pt]" "point_session pt = d" by (simp_all add: s'_def pt_def)
    moreover have "\<not> exact_cash capital ts c ?S < 0" using False k(1) by (simp add: less_iff_dval)
    ultimately show ?thesis unfolding if_not_P [OF \<open>\<not> exact_cash capital ts c ?S < 0\<close>] by blast
  qed (use k(1) in \<open>simp add: r less_iff_dval\<close>)
qed

section \<open>All sessions\<close>

definition overdrawn ::
  "decimal \<Rightarrow> evaluated_trade list \<Rightarrow> delivery_charge_breakdown option \<Rightarrow> date list \<Rightarrow> bool" where
  \<comment> \<open>purchases and charges exceed capital and sales at the end of some session\<close>
  "overdrawn capital ts c ps = list_ex (\<lambda>d. exact_cash capital ts c {..d} < 0) ps"

lemma exact_upto:
  assumes "orderly ps ts" and "leg_date ` set (legs_of c) \<subseteq> set ps"
  shows "exact_cash capital ts c {x \<in> set ps. x \<le> d} = exact_cash capital ts c {..d}"
    and "exact_equity ds capital ts c {x \<in> set ps. x \<le> d} e = exact_equity ds capital ts c {..d} e"
proof -
  have "filter (\<lambda>t. fill_session (trade_entry t) \<in> {x \<in> set ps. x \<le> d}) ts = filter (\<lambda>t. fill_session (trade_entry t) \<in> {..d}) ts"
    "filter (\<lambda>t. fill_session (trade_exit t) \<in> {x \<in> set ps. x \<le> d}) ts = filter (\<lambda>t. fill_session (trade_exit t) \<in> {..d}) ts"
    "filter (\<lambda>l. leg_date l \<in> {x \<in> set ps. x \<le> d}) (legs_of c) = filter (\<lambda>l. leg_date l \<in> {..d}) (legs_of c)"
    "open_in {x \<in> set ps. x \<le> d} ts = open_in {..d} ts"
    unfolding open_in_def using assms by (auto simp: orderly_def intro!: filter_cong)
  then show "exact_cash capital ts c {x \<in> set ps. x \<le> d} = exact_cash capital ts c {..d}"
    "exact_equity ds capital ts c {x \<in> set ps. x \<le> d} e = exact_equity ds capital ts c {..d} e"
    by (simp_all only: exact_equity_def exact_cash_def)
qed

lemma book_sessions:
  assumes o: "orderly (as @ bs) ts" and q: "quoted ds (as @ bs) ts" and small: "small_book ds capital ts c"
    and lg: "leg_date ` set (legs_of c) \<subseteq> set (as @ bs)" and b: "booked capital ts c (set as) s"
  shows "if overdrawn capital ts c bs then foldE (book_session ds ts c) s bs = Inl no_cash else
    (\<exists>s' new. foldE (book_session ds ts c) s bs = Inr s' \<and> booked capital ts c (set (as @ bs)) s'
      \<and> points s' = points s @ new \<and> map point_session new = bs
      \<and> (\<forall>pt \<in> set new. exact_point ds capital ts c {..point_session pt} pt)
      \<and> foldE check_drawdown (peak s) new = Inr (peak s'))"
  using o q lg b
proof (induction bs arbitrary: as s)
  case (Cons d bs)
  have S: "set as = {x \<in> set (as @ d # bs). x < d}" "insert d (set as) = {x \<in> set (as @ d # bs). x \<le> d}"
    using Cons.prems(1) by (auto simp: orderly_def sorted_wrt_append)
  note ex = exact_upto [OF Cons.prems(1,3), where d = d, folded S(2)]
  have dm: "d \<in> set (as @ d # bs)" by simp
  note step = book_step [OF Cons.prems(1,2) small dm S(1) Cons.prems(4), unfolded ex(1)]
  show ?case
  proof (cases "exact_cash capital ts c {..d} < 0")
    case False
    then obtain s1 pt where some: "book_session ds ts c s d = Inr s1" "booked capital ts c (insert d (set as)) s1"
      "points s1 = points s @ [pt]" "point_session pt = d" "exact_point ds capital ts c (insert d (set as)) pt"
      "check_drawdown (peak s) pt = Inr (peak s1)"
      using step by auto
    have "orderly ((as @ [d]) @ bs) ts" "quoted ds ((as @ [d]) @ bs) ts" "leg_date ` set (legs_of c) \<subseteq> set ((as @ [d]) @ bs)"
      "booked capital ts c (set (as @ [d])) s1"
      using Cons.prems some(2) by simp_all
    note ih = Cons.IH [OF this]
    have eq: "foldE (book_session ds ts c) s (d # bs) = foldE (book_session ds ts c) s1 bs"
      "overdrawn capital ts c (d # bs) = overdrawn capital ts c bs"
      using some(1) False by (simp_all add: overdrawn_def)
    have "exact_point ds capital ts c {..point_session pt} pt" using some(4,5) ex(2) by (simp add: exact_point_def)
    moreover have "foldE check_drawdown (peak s) (pt # new) = foldE check_drawdown (peak s1) new" for new
      using some(6) by simp
    ultimately show ?thesis using ih some(3,4) unfolding eq
      by (auto split: if_splits intro!: exI [of _ "pt # new" for new])
  qed (use step in \<open>simp add: overdrawn_def\<close>)
qed (auto simp: overdrawn_def intro!: exI)

lemma equity_curve_outcome:
  assumes o: "orderly ps ts" and q: "quoted ds ps ts" and small: "small_book ds capital ts c"
    and lg: "leg_date ` set (legs_of c) \<subseteq> set ps"
  shows "if overdrawn capital ts c ps then equity_curve ds ps ts c capital = Inl no_cash else
    (\<exists>curve high. equity_curve ds ps ts c capital = Inr curve \<and> map point_session curve = ps
      \<and> (\<forall>pt \<in> set curve. exact_point ds capital ts c {..point_session pt} pt)
      \<and> foldE check_drawdown capital curve = Inr high)"
proof -
  define s0 where "s0 = \<lparr>cash = capital, positions = [], peak = capital, points = []\<rparr>"
  have s0: "peak s0 = capital" "points s0 = []" by (simp_all add: s0_def)
  have "sgrid (10 ^ 27 + moved ts c {}) capital"
    using small by (intro sgrid_mono [OF grid_sgrid, of "10 ^ 27"]) (simp_all add: small_book_def)
  then have h: "orderly ([] @ ps) ts" "quoted ds ([] @ ps) ts" "leg_date ` set (legs_of c) \<subseteq> set ([] @ ps)"
    "booked capital ts c (set []) s0"
    using o q lg small
    by (simp_all add: booked_def s0_def exact_cash_def open_in_def small_book_def)
  note run = book_sessions [OF h(1,2) small h(3,4)]
  show ?thesis
  proof (cases "overdrawn capital ts c ps")
    case False
    then obtain s' curve where some: "foldE (book_session ds ts c) s0 ps = Inr s'" "booked capital ts c (set ps) s'"
      "points s' = curve" "map point_session curve = ps"
      "\<forall>pt \<in> set curve. exact_point ds capital ts c {..point_session pt} pt"
      "foldE check_drawdown capital curve = Inr (peak s')"
      using run by (auto simp: s0)
    have "open_in (set ps) ts = []" using o by (auto simp: open_in_def filter_empty_conv orderly_def)
    then have "positions s' = []" using some(2) by (simp add: booked_def)
    then show ?thesis using some False by (auto simp: equity_curve_def s0_def [symmetric])
  qed (use run in \<open>simp add: equity_curve_def s0_def [symmetric]\<close>)
qed

section \<open>The window of the tests\<close>

definition built :: "plan \<Rightarrow> bool" where
  \<comment> \<open>a plan and its folds are constructed values\<close>
  "built p = (\<exists>p0 raw. mapE mk_fold raw = Inr (folds p0) \<and> mk_plan p0 = Inr p)"

lemma built_tests:
  assumes "built p"
  shows "strictly_sorted (ordered_sessions p)" "concat (map test (folds p)) \<noteq> []"
    "set (concat (map test (folds p))) \<subseteq> set (ordered_sessions p)"
proof -
  obtain p0 raw where p: "mapE mk_fold raw = Inr (folds p0)" "mk_plan p0 = Inr p" using assms by (auto simp: built_def)
  note m = mk_plan_Inr [OF p(2)] and g = plan_guardsD [OF mk_plan_Inr(1) [OF p(2)]]
  have eq: "folds p = folds p0" "ordered_sessions p = ordered_sessions p0" by (subst m(3); simp)+
  show "strictly_sorted (ordered_sessions p)" using g eq by simp
  obtain s where s: "foldE (walk p0) walk_start (folds p0) = Inr s" using m(2) by blast
  have "list_all (placed p0) (folds p0)" by (rule walk_places [OF s])
  then show "set (concat (map test (folds p))) \<subseteq> set (ordered_sessions p)"
    unfolding eq by (fastforce simp: list_all_iff placed_def Let_def)
  have "test f \<noteq> []" if "f \<in> set (folds p0)" for f
    using mapE_set [OF p(1) that] fold_okD(3) mk_fold_Inr(1) by metis
  then show "concat (map test (folds p)) \<noteq> []" using g(5) unfolding eq by (cases "folds p0") auto
qed

lemma strictly_sorted_index:
  assumes "strictly_sorted cal" and "x \<in> set cal" and "y \<in> set cal" and "x \<le> y"
  shows "index_of cal x \<le> index_of cal y"
  using sorted_wrt_nth_less [OF assms(1), of "index_of cal y" "index_of cal x"] nth_index_of [OF assms(2)]
    nth_index_of [OF assms(3)] assms(4) by force

lemma performance_window:
  assumes cal: "strictly_sorted (ds_sessions ds)" and ts: "concat (map test (folds p)) \<noteq> []"
    "set (concat (map test (folds p))) \<subseteq> set (ds_sessions ds)"
  obtains ps where "performance_sessions p ds = Inr ps" "strictly_sorted ps" "ps \<noteq> []" "set ps \<subseteq> set (ds_sessions ds)"
    "set (concat (map test (folds p))) \<subseteq> set ps"
proof -
  let ?t = "concat (map test (folds p))" and ?cal = "ds_sessions ds"
  let ?a = "index_of ?cal (Min (set ?t))" and ?b = "index_of ?cal (Max (set ?t))"
  define ps where "ps = drop ?a (take (Suc ?b) ?cal)"
  have mm: "Min (set ?t) \<in> set ?t" "Max (set ?t) \<in> set ?t" using ts(1) by (intro Min_in Max_in; simp)+
  have sub: "set ?t \<subseteq> set ps"
  proof
    fix x assume x: "x \<in> set ?t"
    then have xc: "x \<in> set ?cal" using ts(2) by blast
    have "?a \<le> index_of ?cal x" "index_of ?cal x \<le> ?b"
      using strictly_sorted_index [OF cal _ xc, of "Min (set ?t)"] strictly_sorted_index [OF cal xc, of "Max (set ?t)"] mm ts(2) x
      by (auto simp del: set_concat)
    then have "ps ! (index_of ?cal x - ?a) = x" "index_of ?cal x - ?a < length ps"
      using nth_index_of [OF xc] by (auto simp: ps_def intro: diff_less_mono)
    then show "x \<in> set ps" by (metis nth_mem)
  qed
  moreover have "performance_sessions p ds = Inr ps"
    using ts(1) subsetD [OF ts(2) mm(1)] subsetD [OF ts(2) mm(2)]
    by (simp add: performance_sessions_def position_in_def ps_def Let_def del: set_concat concat_eq_Nil_conv)
  moreover have "strictly_sorted ps" using cal by (simp add: ps_def sorted_wrt_drop sorted_wrt_take)
  moreover have "ps \<noteq> []" using sub mm(1) by (auto simp del: set_concat)
  moreover have "set ps \<subseteq> set ?cal" unfolding ps_def by (meson order_trans set_drop_subset set_take_subset)
  ultimately show ?thesis using that by blast
qed

end
