(* ===== verification/Settlement.thy ===== *)
theory Settlement
  imports Ledger
begin

text \<open>
  From the trades an evaluation has found to its result.

  Trades of constructed intents always make delivery fills (\<open>trades_delivered\<close>).  The fills of non-overlapping
  trades never net partially within a day, so the tariff prices them unless one of its own checks refuses
  (\<open>priced\<close>): its identity, the identities of the fills, its effective dates.  The ledger then decides
  (\<open>settle_outcome\<close>): the evaluation stops for want of cash, or it returns a result, and none of the result's own
  consistency checks can fail.
\<close>

section \<open>The fills of the trades\<close>

lemma delivery_of_Inr:
  assumes "delivery_of i sd f = Inr g"
  shows "trade_date g = fill_session f" "scrip_of g = (fill_symbol f, i)" "side g = sd" "quantity g = fill_quantity f"
    "price g = fill_price f"
  using assms by (auto simp: delivery_of_def mk_delivery_fill_def guards_Inr_iff Let_def scrip_of_def)

lemma fills_of_Nil [simp]: "fills_of [] = Inr []"
  by (simp add: fills_of_def)

lemma fills_of_Cons:
  assumes "fills_of (t # ts) = Inr fs"
  obtains b x gs where "delivery_of (trade_isin t) BUY (trade_entry t) = Inr b"
    "delivery_of (trade_isin t) SELL (trade_exit t) = Inr x" "fills_of ts = Inr gs" "fs = b # x # gs"
  using assms by (auto simp: fills_of_def res_simps)

definition dealt :: "(evaluated_trade \<Rightarrow> simulated_fill) \<Rightarrow> date \<Rightarrow> scrip \<Rightarrow> evaluated_trade \<Rightarrow> bool" where
  \<comment> \<open>this leg of the trade is a deal in the scrip on the day\<close>
  "dealt leg d k t = (fill_session (leg t) = d \<and> (fill_symbol (leg t), trade_isin t) = k)"

lemma fills_of_days:
  "fills_of ts = Inr fs \<Longrightarrow> length fs = 2 * length ts
     \<and> trade_date ` set fs = (\<lambda>t. fill_session (trade_entry t)) ` set ts \<union> (\<lambda>t. fill_session (trade_exit t)) ` set ts"
proof (induction ts arbitrary: fs)
  case (Cons t ts)
  obtain b x gs where f: "delivery_of (trade_isin t) BUY (trade_entry t) = Inr b"
    "delivery_of (trade_isin t) SELL (trade_exit t) = Inr x" "fills_of ts = Inr gs" "fs = b # x # gs"
    by (rule fills_of_Cons [OF Cons.prems])
  show ?case using Cons.IH [OF f(3)] f(4) delivery_of_Inr(1) [OF f(1)] delivery_of_Inr(1) [OF f(2)]
    by (simp add: insert_commute)
qed simp

lemma fills_of_quantities:
  "fills_of ts = Inr fs \<Longrightarrow>
     side_quantity (fills_on d fs) k BUY = (\<Sum>t\<leftarrow>filter (dealt trade_entry d k) ts. fill_quantity (trade_entry t))
     \<and> side_quantity (fills_on d fs) k SELL = (\<Sum>t\<leftarrow>filter (dealt trade_exit d k) ts. fill_quantity (trade_exit t))"
proof (induction ts arbitrary: fs)
  case (Cons t ts)
  obtain b x gs where f: "delivery_of (trade_isin t) BUY (trade_entry t) = Inr b"
    "delivery_of (trade_isin t) SELL (trade_exit t) = Inr x" "fills_of ts = Inr gs" "fs = b # x # gs"
    by (rule fills_of_Cons [OF Cons.prems])
  show ?case using Cons.IH [OF f(3)] f(4) delivery_of_Inr [OF f(1)] delivery_of_Inr [OF f(2)]
    by (simp add: side_quantity_def fills_on_def dealt_def)
qed (simp add: side_quantity_def fills_on_def)

lemma fills_of_source:
  "fills_of ts = Inr fs \<Longrightarrow> f \<in> set fs \<Longrightarrow> \<exists>t \<in> set ts.
     (side f = BUY \<and> dealt trade_entry (trade_date f) (scrip_of f) t) \<or> (side f = SELL \<and> dealt trade_exit (trade_date f) (scrip_of f) t)"
proof (induction ts arbitrary: fs)
  case (Cons t ts)
  obtain b x gs where g: "delivery_of (trade_isin t) BUY (trade_entry t) = Inr b"
    "delivery_of (trade_isin t) SELL (trade_exit t) = Inr x" "fills_of ts = Inr gs" "fs = b # x # gs"
    by (rule fills_of_Cons [OF Cons.prems(1)])
  then consider "f = b" | "f = x" | "f \<in> set gs" using Cons.prems(2) by auto
  then show ?case
    using Cons.IH [OF g(3)] delivery_of_Inr [OF g(1)] delivery_of_Inr [OF g(2)] by cases (auto simp: dealt_def)
qed simp

lemma fills_of_two_sided:
  assumes "fills_of ts = Inr fs" and "two_sided (fills_on d fs) k"
  shows "\<exists>t \<in> set ts. dealt trade_entry d k t" "\<exists>t \<in> set ts. dealt trade_exit d k t"
proof -
  obtain f g where "f \<in> set fs" "trade_date f = d" "scrip_of f = k" "side f = BUY"
    "g \<in> set fs" "trade_date g = d" "scrip_of g = k" "side g = SELL"
    using assms(2) by (auto simp: two_sided_def fills_on_def)
  then show "\<exists>t \<in> set ts. dealt trade_entry d k t" "\<exists>t \<in> set ts. dealt trade_exit d k t"
    using fills_of_source [OF assms(1), of f] fills_of_source [OF assms(1), of g] by auto
qed

lemma apart_same:
  assumes "sorted_wrt apart ts" and "t \<in> set ts" and "u \<in> set ts" and "\<forall>t \<in> set ts. consistent t"
    and "dealt trade_entry d k t" and "dealt trade_exit d k u \<or> dealt trade_entry d k u"
  shows "t = u"
proof (rule ccontr)
  assume "t \<noteq> u"
  then have "apart t u \<or> apart u t" using assms(1-3) by (induction ts) auto
  moreover have "fill_symbol (trade_exit u) = fill_symbol (trade_entry u)" "fill_session (trade_entry u) \<le> fill_session (trade_exit u)"
    "fill_session (trade_entry t) \<le> fill_session (trade_exit t)"
    using assms(2-4) by (auto simp: consistent_def trade_guards_def not_less)
  ultimately show False using assms(5,6) by (auto simp: apart_def dealt_def)
qed

lemma filter_one:
  assumes "distinct xs" and "t \<in> set xs" and "P t" and "\<And>u. u \<in> set xs \<Longrightarrow> P u \<Longrightarrow> u = t"
  shows "filter P xs = [t]"
proof -
  have s: "set (filter P xs) = {t}" unfolding set_filter using assms(2,3,4) by blast
  have "length (filter P xs) = 1" using distinct_card [of "filter P xs"] assms(1) unfolding s by simp
  then obtain y where "filter P xs = [y]" by (auto simp: length_Suc_conv)
  then show ?thesis using s by simp
qed

lemma fills_balance:
  assumes f: "fills_of ts = Inr fs" and a: "sorted_wrt apart ts" and c: "\<forall>t \<in> set ts. consistent t"
  shows "\<not> unbalanced_day (fills_on d fs)"
proof -
  have "distinct ts"
  proof -
    have "sorted_wrt (\<noteq>) ts"
      by (rule sorted_wrt_mono_rel [OF _ a]) (use c consistent_order in \<open>auto simp: apart_def dest: leD\<close>)
    then show ?thesis by (induction ts) auto
  qed
  note one = filter_one [OF this]
  have "side_quantity (fills_on d fs) k BUY = side_quantity (fills_on d fs) k SELL" if two: "two_sided (fills_on d fs) k" for k
  proof -
    obtain t u where t: "t \<in> set ts" "dealt trade_entry d k t" and u: "u \<in> set ts" "dealt trade_exit d k u"
      using fills_of_two_sided [OF f two] by blast
    have same: "v = t" if "v \<in> set ts" "dealt trade_exit d k v \<or> dealt trade_entry d k v" for v
      using apart_same [OF a t(1) that(1) c t(2) that(2)] by simp
    have "filter (dealt trade_entry d k) ts = [t]" "filter (dealt trade_exit d k) ts = [t]"
      using same t u by (intro one; blast)+
    moreover have "fill_quantity (trade_entry t) = fill_quantity (trade_exit t)"
      using c t(1) by (simp add: consistent_def trade_guards_def)
    ultimately show ?thesis using fills_of_quantities [OF f] by simp
  qed
  then show ?thesis by (auto simp: unbalanced_day_def list_ex_iff intraday_scrips_def)
qed

text \<open>A constructed intent trades under a normalized symbol and an ISIN, so its fills are delivery fills.\<close>

definition made_intent :: "trade_intent \<Rightarrow> bool" where
  \<comment> \<open>the intent and its order came out of their constructors\<close>
  "made_intent i = ((\<exists>i0. mk_intent i0 = Inr i) \<and> (\<exists>e0. mk_limit_entry_order e0 = Inr (intent_order i)))"

lemma sha_not_blank: "sha_text s \<Longrightarrow> \<not> blank s"
proof -
  assume s: "sha_text s"
  then obtain c cs where c: "s = c # cs" by (cases s) (simp_all add: sha_text_def)
  have "\<not> is_ws c" using s by (auto simp: sha_text_def c is_ws_def)
  then show ?thesis by (auto simp: blank_def strip_def c dropWhile_eq_Nil_conv)
qed

lemma made_intent_fields:
  assumes "made_intent i"
  shows "normalized_upper (intent_isin i)" "length (intent_isin i) = 12" "normalized_upper (entry_symbol (intent_order i))"
    "0 < entry_quantity (intent_order i)" "sha_text (entry_order_id (intent_order i))"
proof -
  obtain i0 e0 where i: "mk_intent i0 = Inr i" and e: "mk_limit_entry_order e0 = Inr (intent_order i)"
    using assms by (auto simp: made_intent_def)
  obtain j where "i = i0\<lparr>intent_id := j\<rparr>" "length (intent_isin i0) = 12" "intent_isin i0 = upper (strip (intent_isin i0))"
    using i by (auto simp: mk_intent_def guards_Inr_iff res_simps split: prod.splits)
  then show "normalized_upper (intent_isin i)" "length (intent_isin i) = 12"
    by (auto simp: normalized_upper_def)
  have "intent_order i = e0\<lparr>entry_order_id := fields_id (entry_material e0)\<rparr>" "normalized_upper (entry_symbol e0)"
    using e by (auto simp: mk_limit_entry_order_def guards_Inr_iff entry_guards_def symbol_guard_def res_simps)
  then show "normalized_upper (entry_symbol (intent_order i))" "sha_text (entry_order_id (intent_order i))" by simp_all
  show "0 < entry_quantity (intent_order i)" by (rule validated_entry(3) [OF e])
qed

lemma delivery_made:
  assumes "normalized_upper i" and "length i = 12" and "normalized_upper (fill_symbol f)" and "0 < fill_quantity f"
    and "0 < fill_price f" and "sha_text (fill_order_id f)"
  shows "\<exists>g. delivery_of i sd f = Inr g"
  using assms sha_not_blank [of "fill_order_id f"]
  by (simp add: delivery_of_def mk_delivery_fill_def positive_guard_def guards.simps Let_def le_iff_dval less_iff_dval)

lemma fills_of_made:
  "\<forall>t \<in> set ts. (\<exists>g. delivery_of (trade_isin t) BUY (trade_entry t) = Inr g) \<and> (\<exists>g. delivery_of (trade_isin t) SELL (trade_exit t) = Inr g)
    \<Longrightarrow> \<exists>fs. fills_of ts = Inr fs"
proof (induction ts)
  case (Cons t ts)
  then obtain gs where "fills_of ts = Inr gs" by auto
  then obtain gss where "mapE (\<lambda>t. mapE (\<lambda>(sd, f). delivery_of (trade_isin t) sd f)
     [(BUY, trade_entry t), (SELL, trade_exit t)]) ts = Inr gss" by (auto simp: fills_of_def res_simps)
  then show ?case using Cons.prems by (auto simp: fills_of_def)
qed simp

lemma trades_delivered:
  assumes found: "mapE (run_intent r p ds policy slip) intents = Inr found" and made: "\<forall>i \<in> set intents. made_intent i"
  shows "\<exists>fs. fills_of (sort_key trade_key (concat found)) = Inr fs"
proof (rule fills_of_made, rule ballI)
  fix t assume "t \<in> set (sort_key trade_key (concat found))"
  then have t: "t \<in> set (concat found)" by simp
  obtain i f where i: "i \<in> set intents" "trade_of i (ds_sessions ds) slip t" by (rule found_trades [OF found t])
  note m = made_intent_fields [OF bspec [OF made i(1)]]
  show "(\<exists>g. delivery_of (trade_isin t) BUY (trade_entry t) = Inr g) \<and> (\<exists>g. delivery_of (trade_isin t) SELL (trade_exit t) = Inr g)"
    by (intro conjI delivery_made) (use i(2) m in \<open>simp_all add: trade_of_def entered_def Let_def\<close>)
qed

section \<open>Size bounds\<close>

definition small_deal :: "simulated_fill \<Rightarrow> bool" where
  \<comment> \<open>at most a hundred million shares, at most a hundred million rupees each, in hundredths of a paisa\<close>
  "small_deal f = (-4 \<le> dexp (fill_price f) \<and> fill_price f \<le> dec_of_int (10 ^ 8) \<and> fill_quantity f \<le> 10 ^ 8)"

lemma small_deal_fill:
  assumes "delivery_of i sd f = Inr g" and "small_deal f"
  shows "small_fill g" "small_sim_fill f"
proof -
  note d = delivery_of_Inr [OF assms(1)]
  show s: "small_fill g"
    using assms(2) d mk_delivery_fill_ok [OF assms(1) [unfolded delivery_of_def]] by (simp add: small_fill_def small_deal_def)
  then have "grid (10 ^ 8 * 10 ^ 4) (price g)"
    by (intro upto_grid) (simp_all add: small_fill_def fill_ok_def upto_def le_iff_dval less_iff_dval)
  then show "small_sim_fill f" using s d by (simp add: small_sim_fill_def small_fill_def fill_ok_def)
qed

lemma small_deals:
  "fills_of ts = Inr fs \<Longrightarrow> \<forall>t \<in> set ts. small_deal (trade_entry t) \<and> small_deal (trade_exit t) \<Longrightarrow>
     (\<forall>f \<in> set fs. small_fill f) \<and> (\<forall>t \<in> set ts. small_sim_fill (trade_entry t) \<and> small_sim_fill (trade_exit t))"
proof (induction ts arbitrary: fs)
  case (Cons t ts)
  obtain b x gs where f: "delivery_of (trade_isin t) BUY (trade_entry t) = Inr b"
    "delivery_of (trade_isin t) SELL (trade_exit t) = Inr x" "fills_of ts = Inr gs" "fs = b # x # gs"
    by (rule fills_of_Cons [OF Cons.prems(1)])
  then show ?case using Cons.IH [OF f(3)] Cons.prems(2) small_deal_fill [OF f(1)] small_deal_fill [OF f(2)] by auto
qed simp

definition within_bounds :: "evaluation_dataset \<Rightarrow> nse_delivery_cost_schedule \<Rightarrow> decimal \<Rightarrow> evaluated_trade list \<Rightarrow> bool" where
  \<comment> \<open>sizes only: a capital of 10^23 rupees at most, closes on the grid, 500 small trades, a tariff of bounded rates\<close>
  "within_bounds ds s capital ts = (grid (10 ^ 27) capital \<and> (\<forall>b \<in> set (ds_bars ds). grid (10 ^ 12) (bar_close b))
     \<and> length ts \<le> 500 \<and> (\<forall>t \<in> set ts. small_deal (trade_entry t) \<and> small_deal (trade_exit t))
     \<and> (ts = [] \<or> small_schedule s))"

section \<open>Pricing\<close>

lemma charges_with_legs:
  assumes "charges_with leg fs s = Inr b"
  shows "mapE (\<lambda>d. leg s d (fills_on d fs)) (fill_dates fs) = Inr (legs b)"
  using assms by (auto simp: charges_with_def mk_breakdown_def res_simps guards_Inr_iff)

abbreviation unpriced :: py_exc where
  "unpriced \<equiv> eval_err ''execution cannot be priced by the registered delivery schedule''"

definition refused :: "nse_delivery_cost_schedule \<Rightarrow> evaluated_trade list \<Rightarrow> delivery_fill list \<Rightarrow> bool" where
  \<comment> \<open>the tariff's own checks: its identity, the fills' identities, its effective dates\<close>
  "refused s ts fs = (ts \<noteq> [] \<and> (schedule_id s \<noteq> schedule_calculated_id s \<or> \<not> distinct (map fill_id fs)
     \<or> (\<exists>t \<in> set ts. \<exists>d \<in> {fill_session (trade_entry t), fill_session (trade_exit t)}.
          d < effective_from s \<or> (\<exists>e. effective_to s = Some e \<and> e < d))))"

lemma refused_iff:
  "refused s ts fs \<longleftrightarrow> ts \<noteq> [] \<and> (schedule_id s \<noteq> schedule_calculated_id s \<or> \<not> distinct (map fill_id fs)
     \<or> (\<exists>t \<in> set ts. \<not> applies_on s (fill_session (trade_entry t)) \<or> \<not> applies_on s (fill_session (trade_exit t))))"
  by (simp add: refused_def not_in_force)

lemma refused_unpriced:
  assumes f: "fills_of ts = Inr fs" and r: "refused s ts fs"
  shows "price_fills fs s = Inl unpriced"
proof -
  have ts: "ts \<noteq> []" using r by (simp add: refused_iff)
  then have ne: "fs \<noteq> []" using fills_of_days [OF f] by auto
  have dates: "(\<exists>t \<in> set ts. \<not> applies_on s (fill_session (trade_entry t)) \<or> \<not> applies_on s (fill_session (trade_exit t)))
      \<Longrightarrow> \<exists>g \<in> set fs. \<not> applies_on s (trade_date g)"
  proof -
    assume "\<exists>t \<in> set ts. \<not> applies_on s (fill_session (trade_entry t)) \<or> \<not> applies_on s (fill_session (trade_exit t))"
    then obtain d where "d \<in> trade_date ` set fs" "\<not> applies_on s d" using fills_of_days [OF f] by blast
    then show ?thesis by blast
  qed
  have "\<exists>m. calculate_equity_cash_charges fs s = Inl (CostScheduleError m)"
    using charges_with_checks(2-4) [OF ne, of s equity_leg] r dates
    unfolding calculate_equity_cash_charges_def refused_iff by blast
  then show ?thesis using ne by (auto simp: price_fills_def)
qed

lemma priced:
  assumes fs: "fills_of ts = Inr fs" and w: "within_bounds ds s capital ts" and a: "sorted_wrt apart ts"
    and co: "\<forall>t \<in> set ts. consistent t" and cap: "0 < dval capital" and ok: "\<not> refused s ts fs"
  obtains c where "price_fills fs s = Inr c" "c = None \<longleftrightarrow> ts = []"
    "map leg_date (legs_of c) = fill_dates fs" "small_book ds capital ts c"
proof -
  note days = fills_of_days [OF fs]
  show ?thesis
  proof (cases "ts = []")
    case True
    then have "fs = []" using days by simp
    then show ?thesis using fs True w cap
      by (intro that [of None]) (simp_all add: price_fills_def legs_of_def fill_dates_def small_book_def within_bounds_def)
  next
    case False
    then have ne: "fs \<noteq> []" using days by auto
    have sm: "\<forall>f \<in> set fs. small_fill f" "\<forall>t \<in> set ts. small_sim_fill (trade_entry t) \<and> small_sim_fill (trade_exit t)"
      using small_deals [OF fs] w by (simp_all add: within_bounds_def)
    have len: "length ts \<le> 500" "length fs \<le> 10 ^ 3" "small_schedule s" using w False days by (simp_all add: within_bounds_def)
    have "\<forall>f \<in> set fs. applies_on s (trade_date f)"
    proof
      fix f assume "f \<in> set fs"
      then have "trade_date f \<in> (\<lambda>t. fill_session (trade_entry t)) ` set ts \<union> (\<lambda>t. fill_session (trade_exit t)) ` set ts"
        using days by blast
      then show "applies_on s (trade_date f)" using ok False by (auto simp: refused_iff)
    qed
    then have p: "priceable fs s"
      using ok False ne sm(1) len by (simp add: priceable_def refused_iff verify_schedule_def list_all_iff)
    have "if \<exists>d \<in> set (fill_dates fs). unbalanced_day (fills_on d fs) then charges_with equity_leg fs s = Inl no_cash
      else \<exists>b. charges_with equity_leg fs s = Inr b \<and> priced_ok fs b"
      by (rule charges_with_outcome [OF p, where bad = unbalanced_day])
        (simp add: fills_balance [OF fs a co], rule equity_leg_good [OF len(3) fills_on_small [OF p]])
    then obtain b where b: "calculate_equity_cash_charges fs s = Inr b" "priced_ok fs b"
      using fills_balance [OF fs a co] by (auto simp: calculate_equity_cash_charges_def)
    have dates: "map leg_date (legs b) = fill_dates fs" using b(2) by (simp add: priced_ok_def)
    have "grid (3 * 10 ^ 24) (leg_total l)" if mem: "l \<in> set (legs b)" for l
    proof -
      obtain d where "equity_leg s d (fills_on d fs) = Inr l"
        using mapE_set [OF charges_with_legs [OF b(1) [unfolded calculate_equity_cash_charges_def]] mem] by blast
      then show ?thesis
        using equity_leg_grid [OF _ len(3), of d "fills_on d fs" l] fills_on_small [OF p, of d] b(2) mem
        by (auto simp: priced_ok_def list_all_iff)
    qed
    moreover have "length (legs b) \<le> 1000"
    proof -
      have "length (legs b) = card (trade_date ` set fs)"
        using arg_cong [OF dates, of length] by (simp add: fill_dates_def length_remdups_card_conv)
      then show ?thesis using len(2) card_image_le [of "set fs" trade_date] card_length [of fs] by simp
    qed
    moreover have "distinct (map leg_date (legs b))" unfolding dates by (simp add: fill_dates_def)
    ultimately have "small_book ds capital ts (Some b)"
      using w cap sm(2) by (simp add: small_book_def legs_of_def within_bounds_def)
    moreover have "price_fills fs s = Inr (Some b)" using b(1) ne by (simp add: price_fills_def)
    ultimately show ?thesis using dates False by (intro that [of "Some b"]) (simp_all add: legs_of_def)
  qed
qed

section \<open>Open positions have bars\<close>

lemma find_exit_quoted:
  "find_exit p bars slip ds = Inr (Some f) \<Longrightarrow> strictly_sorted ds \<Longrightarrow> d \<in> set ds \<Longrightarrow> d \<le> fill_session f \<Longrightarrow> bar_on bars d \<noteq> None"
proof (induction ds)
  case (Cons e ds)
  then obtain b r where b: "bar_on bars e = Some b" and r: "simulate_protective_exit p b slip = Inr r"
    by (auto simp: res_simps split: option.splits)
  show ?case
  proof (cases "d = e")
    case False
    then have d: "d \<in> set ds" "e < d" using Cons.prems by auto
    show ?thesis
    proof (cases r)
      case None
      then have "find_exit p bars slip ds = Inr (Some f)" using Cons.prems(1) b r d(1) by (auto split: if_splits)
      then show ?thesis using Cons d by simp
    next
      case (Some g)
      then have "fill_session f = e" using Cons.prems(1) b r simulated_protective_exit(2) [of p b slip f] bar_on_Some [OF b] by simp
      then show ?thesis using d Cons.prems(4) by simp
    qed
  qed (use b in simp)
qed simp

lemma evaluate_intent_quoted:
  assumes "evaluate_intent i bars sessions policy slip = Inr (Some t)" and s: "strictly_sorted sessions"
    and d: "d \<in> set sessions" "fill_session (trade_entry t) \<le> d" "d \<le> fill_session (trade_exit t)"
  shows "bar_on bars d \<noteq> None"
proof -
  obtain f p x t0 where f: "find_entry (intent_order i) bars slip sessions = Inr (Some f)"
    and x: "find_exit p bars slip (take (nat (max_holding i)) (drop (index_of sessions (fill_session f)) sessions)) = Inr (Some x)"
    and t: "mk_trade t0 = Inr t" "t0 = \<lparr>trade_intent_id = intent_id i, trade_isin = intent_isin i, trade_entry = f,
      trade_exit = x, gross_pnl = 0, evaluated_trade_id = []\<rparr>"
    using assms(1) by (auto simp: evaluate_intent_def res_simps guards_Inr_iff Let_def split: option.splits)
  have tt: "trade_entry t = f" "trade_exit t = x" using t(2) by (subst mk_trade_Inr(1) [OF t(1)], simp)+
  let ?s = "index_of sessions (fill_session f)" and ?n = "nat (max_holding i)"
  have f_mem: "fill_session f \<in> set sessions" using find_entry_Some [OF f] by simp
  have x_mem: "fill_session x \<in> set (take ?n (drop ?s sessions))" using find_exit_Some [OF x] by simp
  then obtain k where k: "k < ?n" "?s + k < length sessions" "fill_session x = sessions ! (?s + k)"
    by (auto simp: in_set_conv_nth less_diff_conv ac_simps)
  have "fill_session x \<in> set sessions" using k by simp
  then have "?s \<le> index_of sessions d" "index_of sessions d \<le> ?s + k"
    using strictly_sorted_index [OF s f_mem d(1)] strictly_sorted_index [OF s d(1)] d tt k index_of_nth_le [OF k(2)] by fastforce+
  then have "take ?n (drop ?s sessions) ! (index_of sessions d - ?s) = d" "index_of sessions d - ?s < length (take ?n (drop ?s sessions))"
    using k nth_index_of [OF d(1)] by (auto simp: min_def)
  then have "d \<in> set (take ?n (drop ?s sessions))" by (metis nth_mem)
  moreover have "strictly_sorted (take ?n (drop ?s sessions))" using s by (simp add: sorted_wrt_take sorted_wrt_drop)
  ultimately show ?thesis using find_exit_quoted [OF x] d(3) tt(2) by simp
qed

lemma run_intent_quoted:
  assumes r: "run_intent r p ds policy slip i = Inr ts" "t \<in> set ts" and s: "strictly_sorted (ds_sessions ds)"
    and d: "d \<in> set (ds_sessions ds)" "fill_session (trade_entry t) \<le> d" "d \<le> fill_session (trade_exit t)"
  shows "bar_at ds d (symb_of t) \<noteq> None"
proof -
  let ?bars = "filter (\<lambda>b. bar_symbol b = entry_symbol (intent_order i)) (ds_bars ds)"
  have run: "evaluate_intent i ?bars (ds_sessions ds) policy slip = Inr (Some t)"
    using r by (auto simp: run_intent_def res_simps guards_Inr_iff split: option.splits if_splits)
  then obtain b where b: "bar_on ?bars d = Some b" using evaluate_intent_quoted [OF _ s d] by blast
  then have "b \<in> set (ds_bars ds)" "bar_symbol b = symb_of t" "bar_session b = d"
    using evaluate_intent_Some(1) [OF run] bar_on_Some [OF b] by (auto simp: trade_of_def entered_def symb_of_def Let_def)
  then show ?thesis by (auto simp: bar_at_def find_None_iff)
qed

section \<open>The result\<close>

definition exact_total :: "decimal \<Rightarrow> evaluated_trade list \<Rightarrow> delivery_charge_breakdown option \<Rightarrow> rat" where
  "exact_total capital ts c = dval capital + (\<Sum>t\<leftarrow>ts. worth (trade_exit t) - worth (trade_entry t))
     - (\<Sum>l\<leftarrow>legs_of c. dval (leg_total l))"

lemma exact_equity_all:
  assumes "\<forall>t \<in> set ts. fill_session (trade_entry t) \<in> S \<and> fill_session (trade_exit t) \<in> S" and "leg_date ` set (legs_of c) \<subseteq> S"
  shows "exact_equity ds capital ts c S d = exact_total capital ts c"
proof -
  have "filter (\<lambda>t. fill_session (trade_entry t) \<in> S) ts = ts" "filter (\<lambda>t. fill_session (trade_exit t) \<in> S) ts = ts"
    "open_in S ts = []" "filter (\<lambda>l. leg_date l \<in> S) (legs_of c) = legs_of c"
    using assms by (auto simp: open_in_def filter_id_conv filter_empty_conv)
  then show ?thesis by (simp add: exact_equity_def exact_cash_def exact_total_def sum_list_subtractf)
qed

lemma gross_exact:
  assumes "consistent t" and "small_sim_fill (trade_entry t)" and "small_sim_fill (trade_exit t)"
  shows "dval (gross_pnl t) = worth (trade_exit t) - worth (trade_entry t)" "sgrid (2 * 10 ^ 20) (gross_pnl t)"
proof -
  let ?d = "fill_price (trade_exit t) - fill_price (trade_entry t)" and ?q = "fill_quantity (trade_entry t)"
  have g: "gross_pnl t = ?d * dec_of_int ?q" "fill_quantity (trade_exit t) = ?q"
    using assms(1) by (simp_all add: consistent_def trade_guards_def)
  have d: "dval ?d = dval (fill_price (trade_exit t)) - dval (fill_price (trade_entry t))" "sgrid (2 * 10 ^ 12) ?d"
    using sgrid_minus [OF grid_sgrid grid_sgrid, of "10 ^ 12" "fill_price (trade_exit t)" "10 ^ 12" "fill_price (trade_entry t)"] assms(2,3)
    by (simp_all add: small_sim_fill_def)
  have "dval (?d * dec_of_int ?q) = dval ?d * of_int ?q" "sgrid (2 * 10 ^ 12 * 10 ^ 8) (?d * dec_of_int ?q)"
    using sgrid_times [OF d(2), of ?q "10 ^ 8"] assms(2) by (simp_all add: small_sim_fill_def)
  then show "dval (gross_pnl t) = worth (trade_exit t) - worth (trade_entry t)" "sgrid (2 * 10 ^ 20) (gross_pnl t)"
    using d(1) g by (simp_all add: worth_def left_diff_distrib)
qed

lemma expected_final_exact:
  assumes small: "small_book ds (res_capital q) (res_trades q) (res_charges q)" and co: "\<forall>t \<in> set (res_trades q). consistent t"
  shows "dval (expected_final q) = exact_total (res_capital q) (res_trades q) (res_charges q)"
proof -
  let ?ts = "res_trades q" and ?ls = "legs_of (res_charges q)"
  have g: "\<forall>t \<in> set ?ts. dval (gross_pnl t) = worth (trade_exit t) - worth (trade_entry t) \<and> sgrid (2 * 10 ^ 20) (gross_pnl t)"
    using gross_exact co small by (simp add: small_book_def)
  have len: "length ?ts \<le> 500" "length ?ls \<le> 1000" using small by (simp_all add: small_book_def)
  have sum: "dval (dsum (map gross_pnl ?ts)) = (\<Sum>t\<leftarrow>?ts. dval (gross_pnl t))" "sgrid (0 + length ?ts * (2 * 10 ^ 20)) (dsum (map gross_pnl ?ts))"
    using sgrid_fold(1) [of 0 0 ?ts "2 * 10 ^ 20" gross_pnl] g len by (simp_all add: dsum_def foldl_map)
  have ch: "charge_total (res_charges q) = dsum (map leg_total ?ls)"
    by (simp add: charge_total_def legs_of_def breakdown_total_def split: option.split)
  have ls: "dval (dsum (map leg_total ?ls)) = (\<Sum>l\<leftarrow>?ls. dval (leg_total l))" "sgrid (0 + length ?ls * (3 * 10 ^ 24)) (dsum (map leg_total ?ls))"
    using sgrid_fold(1) [of 0 0 ?ls "3 * 10 ^ 24" leg_total] small grid_sgrid len by (simp_all add: dsum_def foldl_map small_book_def)
  have cap: "sgrid (10 ^ 27) (res_capital q)" using small by (simp add: small_book_def grid_sgrid)
  have 1: "dval (res_capital q + dsum (map gross_pnl ?ts)) = dval (res_capital q) + (\<Sum>t\<leftarrow>?ts. dval (gross_pnl t))"
    "sgrid (10 ^ 27 + length ?ts * (2 * 10 ^ 20)) (res_capital q + dsum (map gross_pnl ?ts))"
    using sgrid_plus [OF cap sum(2)] sum(1) len by simp_all
  have "dval (expected_final q) = dval (res_capital q) + (\<Sum>t\<leftarrow>?ts. dval (gross_pnl t)) - (\<Sum>l\<leftarrow>?ls. dval (leg_total l))"
    unfolding expected_final_def ch using sgrid_minus(1) [OF 1(2) ls(2)] 1(1) ls(1) len by simp
  moreover have "map (\<lambda>t. dval (gross_pnl t)) ?ts = map (\<lambda>t. worth (trade_exit t) - worth (trade_entry t)) ?ts" using g by simp
  ultimately show ?thesis unfolding exact_total_def by simp
qed

definition exact_ledger :: "evaluation_dataset \<Rightarrow> evaluation_result \<Rightarrow> bool" where
  \<comment> \<open>the equity curve is the exact ledger of the trades and charges\<close>
  "exact_ledger ds q = (let ts = res_trades q; c = res_charges q; curve = res_curve q in
     curve \<noteq> [] \<and> orderly (map point_session curve) ts
     \<and> (\<forall>pt \<in> set curve. exact_point ds (res_capital q) ts c {..point_session pt} pt
          \<and> 0 \<le> exact_cash (res_capital q) ts c {..point_session pt})
     \<and> dval (equity (last curve)) = exact_total (res_capital q) ts c)"

lemma ledger_exact:
  assumes o: "orderly ps ts" "ps \<noteq> []" and lg: "leg_date ` set (legs_of (res_charges q)) \<subseteq> set ps"
    and over: "\<not> overdrawn (res_capital q) ts (res_charges q) ps"
    and c: "map point_session (res_curve q) = ps" "\<forall>pt \<in> set (res_curve q). exact_point ds (res_capital q) ts (res_charges q) {..point_session pt} pt"
    and q: "res_trades q = ts"
  shows "exact_ledger ds q"
proof -
  let ?p = "last (res_curve q)"
  have ne: "res_curve q \<noteq> []" using o c by auto
  then have p: "?p \<in> set (res_curve q)" "point_session ?p = last ps" using c(1) last_map [of "res_curve q" point_session] by auto
  have le: "x \<le> last ps" if "x \<in> set ps" for x using strictly_sorted_last [OF _ that] o by (simp add: orderly_def)
  have "exact_equity ds (res_capital q) ts (res_charges q) {..last ps} (last ps) = exact_total (res_capital q) ts (res_charges q)"
    using o lg le by (intro exact_equity_all) (auto simp: orderly_def)
  then have "dval (equity ?p) = exact_total (res_capital q) ts (res_charges q)"
    using c(2) p by (auto simp: exact_point_def)
  moreover have "point_session pt \<in> set ps" if "pt \<in> set (res_curve q)" for pt using c(1) that by auto
  ultimately show ?thesis
    using o c ne over q by (auto simp: exact_ledger_def Let_def overdrawn_def list_ex_iff not_less)
qed

section \<open>Settling\<close>

definition traded :: "plan \<Rightarrow> evaluation_dataset \<Rightarrow> evaluated_trade list \<Rightarrow> bool" where
  \<comment> \<open>what the loop over the intents leaves: trades of test sessions, in order, with bars while they are open\<close>
  "traded p ds ts = (sorted (map trade_key ts) \<and> quoted ds (ds_sessions ds) ts
     \<and> (\<forall>t \<in> set ts. consistent t \<and> fill_session (trade_entry t) \<in> set (concat (map test (folds p)))
         \<and> fill_session (trade_exit t) \<in> set (concat (map test (folds p)))))"

lemma verified_inputs:
  assumes "verify_inputs r p ds policy s capital = Inr ()"
  shows "0 < dval capital" "ds_sessions ds = ordered_sessions p" "verify_plan p = Inr ()" "\<not> fst (dataset_broken ds)"
    "\<not> fst (exec_policy_broken policy)" "cost_schedule_hash r = schedule_id s"
    "\<forall>t \<in> set (pass_thresholds r). fst t \<in> set threshold_metrics"
  using assms by (auto simp: verify_inputs_def res_simps guards_Inr_iff trial_bindings_def eval_positive_def le_iff_dval
      not_le list_ex_iff)

lemma settle_books:
  assumes v: "verify_inputs r p ds policy s capital = Inr ()" and b: "built p" and tr: "traded p ds ts"
    and ov: "check_overlap ts = Inr ()" and w: "within_bounds ds s capital ts"
    and f: "fills_of ts = Inr fs" and ok: "\<not> refused s ts fs"
  obtains c ps where "price_fills fs s = Inr c" "performance_sessions p ds = Inr ps"
    "c = None \<longleftrightarrow> ts = []" "small_book ds capital ts c" "orderly ps ts" "ps \<noteq> []" "leg_date ` set (legs_of c) \<subseteq> set ps"
    "if overdrawn capital ts c ps then equity_curve ds ps ts c capital = Inl no_cash else
      (\<exists>curve high. equity_curve ds ps ts c capital = Inr curve \<and> map point_session curve = ps
        \<and> (\<forall>pt \<in> set curve. exact_point ds capital ts c {..point_session pt} pt)
        \<and> foldE check_drawdown capital curve = Inr high)"
proof -
  note v' = verified_inputs [OF v] and bt = built_tests [OF b]
  have co: "\<forall>t \<in> set ts. consistent t" using tr by (simp add: traded_def)
  have a: "sorted_wrt apart ts" using ov co consistent_order by (intro check_overlap_apart) auto
  obtain c where fc: "price_fills fs s = Inr c" "c = None \<longleftrightarrow> ts = []"
    "map leg_date (legs_of c) = fill_dates fs" "small_book ds capital ts c"
    using priced [OF f w a co v'(1) ok] by blast
  obtain ps where ps: "performance_sessions p ds = Inr ps" "strictly_sorted ps" "ps \<noteq> []" "set ps \<subseteq> set (ds_sessions ds)"
    "set (concat (map test (folds p))) \<subseteq> set ps"
    using performance_window [of ds p] bt v'(2) by metis
  have "sorted (map (\<lambda>t. fill_session (trade_entry t)) ts)"
    using tr by (auto simp: traded_def trade_key_def sorted_map less_eq_prod_def elim: sorted_wrt_mono_rel [rotated])
  then have o: "orderly ps ts" using ps(2,5) a tr by (auto simp: orderly_def traded_def simp del: set_concat)
  have q: "quoted ds ps ts" using tr ps(4) by (auto simp: traded_def quoted_def)
  have "leg_date ` set (legs_of c) = set (fill_dates fs)" using fc(3) by (metis set_map)
  then have lg: "leg_date ` set (legs_of c) \<subseteq> set ps"
    using fills_of_days [OF f] fill_dates_props(2) [of fs] o by (auto simp: orderly_def)
  show ?thesis by (rule that [OF fc(1) ps(1) fc(2,4) o ps(3) lg equity_curve_outcome [OF o q fc(4) lg]])
qed

lemma result_accepted:
  assumes v: "verify_inputs r p ds policy s capital = Inr ()" and reg: "mk_registration r0 moment = Inr r"
    and tr: "sorted (map trade_key ts)" and c: "c = None \<longleftrightarrow> ts = []"
    and curve: "curve \<noteq> []" "strictly_sorted (map point_session curve)" "foldE check_drawdown capital curve = Inr high"
    and q: "q = \<lparr>res_trial = trial_id r, res_plan = plan_id p, res_dataset = dataset_id ds,
        res_policy = exec_policy_id policy, res_schedule = schedule_id s, res_capital = capital, res_trades = ts,
        res_charges = c, res_curve = curve, res_metrics = metric_values capital ts curve, res_thresholds = pass_thresholds r,
        res_passed = list_all (meets (metric_values capital ts curve)) (pass_thresholds r), result_id = []\<rparr>"
    and final: "dval (equity (last curve)) = dval (expected_final q)"
  shows "mk_result q = Inr (q\<lparr>result_id := fields_id (result_material q)\<rparr>)"
proof -
  note v' = verified_inputs [OF v] and g = mk_registration_Inr [OF reg]
  have ids: "sha_text (trial_id r)" "sha_text (plan_id p)" "sha_text (dataset_id ds)" "sha_text (exec_policy_id policy)"
    "sha_text (schedule_id s)"
    using g(1,3) v'(3-6) by (auto simp: verify_plan_def guards_Inr_iff dataset_broken_def exec_policy_broken_def
        registration_guards_def sha_guard_def)
  have th: "pass_thresholds r \<noteq> []" "strictly_sorted (map fst (pass_thresholds r))"
    using g(1) by (auto simp: registration_guards_def)
  have sorted: "sort_key trade_key ts = ts" using tr by (rule sort_key_id_if_sorted)
  have names: "map fst (metric_values capital ts curve) = supported_metrics"
    by (simp add: metric_values_def supported_metrics_def Let_def)
  have "\<forall>g \<in> set (shape_guards q). \<not> fst g"
    using ids th sorted names c curve(1,2) final v'(1,7)
    by (auto simp: shape_guards_def q eval_sha_def eval_positive_def le_iff_dval deq_iff_dval)
  moreover have "\<forall>g \<in> set (metric_guards q). \<not> fst g"
    by (auto simp: metric_guards_def q Let_def intro!: list.rel_refl)
  ultimately show ?thesis using curve(3) by (simp add: mk_result_def guards_Inr_iff q)
qed

lemma settle_refused:
  assumes "check_overlap ts = Inr ()" and f: "fills_of ts = Inr fs" and r: "refused s ts fs"
  shows "settle r p ds policy s capital ts = Inl unpriced"
  using assms(1) refused_unpriced [OF f r] by (simp add: settle_def f)

lemma settle_outcome:
  assumes v: "verify_inputs r p ds policy s capital = Inr ()" and b: "built p" and reg: "mk_registration r0 moment = Inr r"
    and tr: "traded p ds ts" and ov: "check_overlap ts = Inr ()" and w: "within_bounds ds s capital ts"
    and f: "fills_of ts = Inr fs" and ok: "\<not> refused s ts fs"
  shows "\<exists>c ps. price_fills fs s = Inr c \<and> performance_sessions p ds = Inr ps
    \<and> (if overdrawn capital ts c ps then settle r p ds policy s capital ts = Inl no_cash
       else \<exists>res. settle r p ds policy s capital ts = Inr res \<and> res_trades res = ts \<and> res_charges res = c
         \<and> res_capital res = capital \<and> map point_session (res_curve res) = ps \<and> exact_ledger ds res)"
proof -
  obtain c ps where s: "fills_of ts = Inr fs" "price_fills fs s = Inr c" "performance_sessions p ds = Inr ps"
    "c = None \<longleftrightarrow> ts = []" "small_book ds capital ts c" "orderly ps ts" "ps \<noteq> []" "leg_date ` set (legs_of c) \<subseteq> set ps"
    and curve: "if overdrawn capital ts c ps then equity_curve ds ps ts c capital = Inl no_cash else
      (\<exists>curve high. equity_curve ds ps ts c capital = Inr curve \<and> map point_session curve = ps
        \<and> (\<forall>pt \<in> set curve. exact_point ds capital ts c {..point_session pt} pt)
        \<and> foldE check_drawdown capital curve = Inr high)"
    by (rule settle_books [OF v b tr ov w f ok]) (use f in blast)
  show ?thesis
  proof (cases "overdrawn capital ts c ps")
    case True
    then have "settle r p ds policy s capital ts = Inl no_cash" using s curve ov by (simp add: settle_def)
    then show ?thesis using s True by auto
  next
    case False
    then obtain curve high where c: "equity_curve ds ps ts c capital = Inr curve" "map point_session curve = ps"
      "\<forall>pt \<in> set curve. exact_point ds capital ts c {..point_session pt} pt" "foldE check_drawdown capital curve = Inr high"
      using curve by auto
    define q where "q = \<lparr>res_trial = trial_id r, res_plan = plan_id p, res_dataset = dataset_id ds,
        res_policy = exec_policy_id policy, res_schedule = schedule_id s, res_capital = capital, res_trades = ts,
        res_charges = c, res_curve = curve, res_metrics = metric_values capital ts curve, res_thresholds = pass_thresholds r,
        res_passed = list_all (meets (metric_values capital ts curve)) (pass_thresholds r), result_id = []\<rparr>"
    define res where "res = q\<lparr>result_id := fields_id (result_material q)\<rparr>"
    have f: "res_trades res = ts" "res_charges res = c" "res_capital res = capital" "res_curve res = curve"
      "res_trades q = ts" "res_charges q = c" "res_capital q = capital" "res_curve q = curve"
      by (simp_all add: res_def q_def)
    have l: "exact_ledger ds q" "exact_ledger ds res"
      by (intro ledger_exact [OF s(6,7)]; use s(8) False c(2,3) in \<open>simp add: f\<close>)+
    have "dval (equity (last curve)) = dval (expected_final q)"
      using l(1) expected_final_exact [of ds q] s(5) tr f by (simp add: exact_ledger_def Let_def traded_def)
    moreover have "curve \<noteq> []" "strictly_sorted (map point_session curve)" "sorted (map trade_key ts)"
      using s(6,7) c(2) tr by (auto simp: orderly_def traded_def)
    ultimately have "mk_result q = Inr res" unfolding res_def
      by (intro result_accepted [OF v reg _ s(4) _ _ c(4) q_def])
    then have "settle r p ds policy s capital ts = Inr res"
      using s ov c(1) unfolding q_def by (simp add: settle_def Let_def)
    then show ?thesis using s False f l(2) c(2) by auto
  qed
qed

lemma found_traded:
  assumes found: "mapE (run_intent r p ds policy slip) intents = Inr found" and b: "built p" and cal: "ds_sessions ds = ordered_sessions p"
  shows "traded p ds (sort_key trade_key (concat found))"
proof -
  have trade: "consistent t \<and> fill_session (trade_entry t) \<in> set (concat (map test (folds p)))
      \<and> fill_session (trade_exit t) \<in> set (concat (map test (folds p)))" if t: "t \<in> set (concat found)" for t
  proof -
    obtain i f where f: "test_fold p i = Some f" "consistent t" "fill_session (trade_entry t) \<in> set (test f)"
      "fill_session (trade_exit t) \<in> set (test f)"
      by (rule found_trades [OF found t])
    then show ?thesis using find_member [OF f(1) [unfolded test_fold_def]] by auto
  qed
  have "bar_at ds d (symb_of t) \<noteq> None"
    if t: "t \<in> set (concat found)" and d: "d \<in> set (ds_sessions ds)" "fill_session (trade_entry t) \<le> d" "d < fill_session (trade_exit t)" for t d
  proof -
    obtain ts where ts: "ts \<in> set found" "t \<in> set ts" using t by auto
    then obtain i where "run_intent r p ds policy slip i = Inr ts" using mapE_set [OF found] by blast
    then show ?thesis using run_intent_quoted [OF _ ts(2) _ d(1,2)] built_tests(1) [OF b] d(3) by (simp add: cal)
  qed
  then show ?thesis using trade by (auto simp: traded_def quoted_def simp del: set_concat)
qed

text \<open>C2: When an evaluation returns a result and its amounts are within the bounds, the equity curve is the exact
  ledger in rational numbers, although every step was rounded to 28 digits: at each session of the test window the
  equity is the capital less all purchases and charges so far plus all sales so far plus the open positions at
  the close; the cash is never negative and the drawdown never positive; every entry and exit falls on a session of
  the curve; and the last equity is the capital plus the exact gross profits less the charges.\<close>

theorem evaluation_ledger_exact:
  assumes "evaluate r p ds intents policy s capital stressed = Inr res" and "built p"
    and "within_bounds ds s capital (res_trades res)"
  shows "exact_ledger ds res"
proof -
  obtain slip found where e: "verify_inputs r p ds policy s capital = Inr ()" "mapE (run_intent r p ds policy slip) intents = Inr found"
    "settle r p ds policy s capital (sort_key trade_key (concat found)) = Inr res"
    by (rule evaluate_Inr [OF assms(1)])
  let ?ts = "sort_key trade_key (concat found)"
  obtain fs c ps where st: "check_overlap ?ts = Inr ()" "fills_of ?ts = Inr fs" "price_fills fs s = Inr c"
    "performance_sessions p ds = Inr ps" "equity_curve ds ps ?ts c capital = Inr (res_curve res)"
    "res_trades res = ?ts" "res_charges res = c" "res_capital res = capital"
    by (rule settle_Inr [OF e(3)])
  have tr: "traded p ds ?ts" by (rule found_traded [OF e(2) assms(2) verified_inputs(2) [OF e(1)]])
  have w: "within_bounds ds s capital ?ts" using assms(3) st(6) by simp
  have a: "sorted_wrt apart ?ts" and co: "\<forall>t \<in> set ?ts. consistent t"
    using tr consistent_order by (auto simp: traded_def intro!: check_overlap_apart [OF st(1)])
  have ok: "\<not> refused s ?ts fs" using refused_unpriced [OF st(2)] st(3) by fastforce
  obtain c' ps' where b: "price_fills fs s = Inr c'" "performance_sessions p ds = Inr ps'"
    "orderly ps' ?ts" "ps' \<noteq> []" "leg_date ` set (legs_of c') \<subseteq> set ps'"
    and curve: "if overdrawn capital ?ts c' ps' then equity_curve ds ps' ?ts c' capital = Inl no_cash else
      (\<exists>curve high. equity_curve ds ps' ?ts c' capital = Inr curve \<and> map point_session curve = ps'
        \<and> (\<forall>pt \<in> set curve. exact_point ds capital ?ts c' {..point_session pt} pt)
        \<and> foldE check_drawdown capital curve = Inr high)"
    by (rule settle_books [OF e(1) assms(2) tr st(1) w st(2) ok])
  have same: "c' = c" "ps' = ps" using b(1,2) st(3,4) by simp_all
  show ?thesis
    by (rule ledger_exact [OF b(3,4)]) (use b(5) curve st(5-8) same in \<open>auto split: if_splits\<close>)
qed

text \<open>C1: Once the inputs verify and every intent (as its constructor made it) has run, an evaluation whose amounts
  are within the size bounds can end in four ways only.  Overlapping trades of one symbol are refused with the
  overlap error.  Else, if there are trades and the tariff refuses them (its identity does not verify, an entry or
  exit falls outside its effective dates, or two fills have one identity), it ends in the error "execution cannot be
  priced by the registered delivery schedule".  Else, if at the end of some session of the test window purchases and
  charges exceed capital and sales, it stops with the cash error.  Else it returns a result with exactly those trades
  and the exact ledger.  Making the delivery fills never fails, pricing never meets partially netted days, no open
  position lacks a bar or stays open, and none of the result's consistency checks fails.\<close>

theorem evaluation_outcome:
  assumes "verify_inputs r p ds policy s capital = Inr ()" and "select_slippage policy stressed = Inr slip"
    and "intents = sort_key intent_key intents" and "mapE (run_intent r p ds policy slip) intents = Inr found"
    and "built p" and "mk_registration r0 moment = Inr r" and "\<forall>i \<in> set intents. made_intent i"
    and "within_bounds ds s capital (sort_key trade_key (concat found))"
  defines "ts \<equiv> sort_key trade_key (concat found)" and "run \<equiv> evaluate r p ds intents policy s capital stressed"
  shows "case check_overlap ts of Inl e \<Rightarrow> run = Inl e | Inr _ \<Rightarrow>
    (\<exists>fs. fills_of ts = Inr fs
      \<and> (if refused s ts fs then run = Inl unpriced
         else \<exists>c ps. price_fills fs s = Inr c \<and> performance_sessions p ds = Inr ps
           \<and> (if overdrawn capital ts c ps then run = Inl no_cash
              else \<exists>res. run = Inr res \<and> res_trades res = ts \<and> map point_session (res_curve res) = ps \<and> exact_ledger ds res)))"
proof -
  have run: "run = settle r p ds policy s capital ts"
    using assms(1-4) by (simp add: run_def evaluate_def ts_def guards.simps)
  show ?thesis
  proof (cases "check_overlap ts")
    case (Inl e)
    then show ?thesis by (simp add: run settle_def)
  next
    case (Inr u)
    have tr: "traded p ds ts" unfolding ts_def by (rule found_traded [OF assms(4,5) verified_inputs(2) [OF assms(1)]])
    have ov: "check_overlap ts = Inr ()" using Inr by simp
    obtain fs where f: "fills_of ts = Inr fs" using trades_delivered [OF assms(4,7)] unfolding ts_def by blast
    have w: "within_bounds ds s capital ts" using assms(8) by (simp add: ts_def)
    show ?thesis
    proof (cases "refused s ts fs")
      case True
      then show ?thesis using settle_refused [OF ov f True] f by (simp add: Inr run)
    next
      case False
      from settle_outcome [OF assms(1,5,6) tr ov w f False] show ?thesis
        unfolding Inr run using f False by (auto split: if_splits)
    qed
  qed
qed

end
