(* ===== verification/Comparison.thy ===== *)
theory Comparison
  imports Engine
begin

text \<open>
  The verdict of the comparison engine: a strategy against its benchmark, at the base slippage and, when the policy
  has one, at the stressed slippage.
\<close>

lemma minus_nonneg_iff: "0 \<le> a - b \<longleftrightarrow> b \<le> (a :: decimal)"
proof -
  have "dval a = dval b" if "dval (a - b) = 0"
    using dec_fix_zero [OF that [unfolded minus_decimal_def]] by (simp add: dval_plus_exact)
  then show ?thesis using minus_ge [of 0 a b] minus_le [of 0 a b] by (force simp: le_iff_dval)
qed

definition beats :: "string \<Rightarrow> evaluation_result \<Rightarrow> evaluation_result \<Rightarrow> bool" where
  \<comment> \<open>the strategy meets its thresholds and is no worse than the benchmark\<close>
  "beats name strategy benchmark = (res_passed strategy \<and> metric_of name benchmark \<le> metric_of name strategy)"

lemma mk_comparison_Inr:
  assumes "mk_comparison c0 = Inr c"
  shows "c = (decide c0)\<lparr>cmp_id := cmp_id c\<rparr>" "\<not> fst (comparison_broken c)" "\<forall>g \<in> set (cmp_guards c0). \<not> fst g"
proof -
  have same: "cmp_material (q\<lparr>cmp_id := i\<rparr>) = cmp_material q" for q :: trial_comparison and i
    by (simp add: cmp_material_def)
  have "c = (decide c0)\<lparr>cmp_id := fields_id (cmp_material (decide c0))\<rparr>" and g: "\<forall>g \<in> set (cmp_guards c0). \<not> fst g"
    using assms by (auto simp: mk_comparison_def guards_Inr_iff Let_def)
  then show "c = (decide c0)\<lparr>cmp_id := cmp_id c\<rparr>" "\<not> fst (comparison_broken c)" "\<forall>g \<in> set (cmp_guards c0). \<not> fst g"
    by (simp_all add: comparison_broken_def same)
qed

lemma decided:
  assumes "strategy_stressed c0 = None \<longleftrightarrow> benchmark_stressed c0 = None"
  shows "cmp_passed (decide c0) \<longleftrightarrow> beats (cmp_metric c0) (strategy_base c0) (benchmark_base c0)
    \<and> (\<forall>s b. strategy_stressed c0 = Some s \<and> benchmark_stressed c0 = Some b \<longrightarrow> beats (cmp_metric c0) s b)"
    and "strategy_base (decide c0) = strategy_base c0" "benchmark_base (decide c0) = benchmark_base c0"
    "strategy_stressed (decide c0) = strategy_stressed c0" "benchmark_stressed (decide c0) = benchmark_stressed c0"
  using assms by (auto simp: decide_def Let_def excess_def minus_nonneg_iff beats_def split: option.split)

text \<open>C16: A returned comparison is what the engine says it is: the base results are the evaluations of the
  strategy's and the benchmark's intents at the base slippage, the stressed ones, present exactly when the policy
  has a stress case, those at the stressed slippage; and it passes exactly when in each scenario the strategy meets
  its registered thresholds and its primary metric is no worse than the benchmark's.  A missed threshold or a lost
  scenario cannot be averaged away.\<close>

theorem comparison_verdict:
  assumes "compare r p ds strategy benchmark policy s capital = Inr c"
  shows "evaluate r p ds strategy policy s capital False = Inr (strategy_base c)
    \<and> evaluate r p ds benchmark policy s capital False = Inr (benchmark_base c)
    \<and> (case (strategy_stressed c, benchmark_stressed c) of
         (None, None) \<Rightarrow> policy_stressed policy = None
           \<and> (cmp_passed c \<longleftrightarrow> beats (primary_metric r) (strategy_base c) (benchmark_base c))
       | (Some ss, Some bs) \<Rightarrow> policy_stressed policy \<noteq> None
           \<and> evaluate r p ds strategy policy s capital True = Inr ss \<and> evaluate r p ds benchmark policy s capital True = Inr bs
           \<and> (cmp_passed c \<longleftrightarrow> beats (primary_metric r) (strategy_base c) (benchmark_base c) \<and> beats (primary_metric r) ss bs)
       | _ \<Rightarrow> False)
    \<and> (\<forall>q \<in> {strategy_base c, benchmark_base c}. res_passed q \<longleftrightarrow>
         list_all (\<lambda>(name, bound). \<exists>v. map_of (res_metrics q) name = Some v \<and> bound \<le> v) (pass_thresholds r))
    \<and> \<not> fst (comparison_broken c)"
proof -
  obtain sb bb ss bs c0 where run: "evaluate r p ds strategy policy s capital False = Inr sb"
    "evaluate r p ds benchmark policy s capital False = Inr bb"
    "policy_stressed policy = None \<and> ss = None \<and> bs = None \<or> (\<exists>s1 b1. policy_stressed policy \<noteq> None \<and> ss = Some s1 \<and> bs = Some b1
       \<and> evaluate r p ds strategy policy s capital True = Inr s1 \<and> evaluate r p ds benchmark policy s capital True = Inr b1)"
    and c: "mk_comparison c0 = Inr c" "strategy_base c0 = sb" "benchmark_base c0 = bb" "strategy_stressed c0 = ss"
      "benchmark_stressed c0 = bs" "cmp_metric c0 = primary_metric r"
    using assms by (auto simp: compare_def res_simps split: if_splits)
  note m = mk_comparison_Inr [OF c(1)]
  have both: "strategy_stressed c0 = None \<longleftrightarrow> benchmark_stressed c0 = None" using run(3) c by auto
  have f: "strategy_base c = sb" "benchmark_base c = bb" "strategy_stressed c = ss" "benchmark_stressed c = bs"
    "cmp_passed c = cmp_passed (decide c0)"
    by (subst m(1), simp add: decided [OF both] c)+
  have th: "res_passed q \<longleftrightarrow> list_all (\<lambda>(name, bound). \<exists>v. map_of (res_metrics q) name = Some v \<and> bound \<le> v) (pass_thresholds r)"
    if q: "evaluate r p ds intents policy s capital stressed = Inr q" for q intents stressed
  proof -
    obtain ts where "settle r p ds policy s capital ts = Inr q" using evaluate_Inr [OF q] by blast
    then have "res_passed q = list_all (meets (res_metrics q)) (pass_thresholds r)" by (rule settle_Inr)
    moreover have "meets (res_metrics q) = (\<lambda>(name, bound). \<exists>v. map_of (res_metrics q) name = Some v \<and> bound \<le> v)"
      by (auto simp: meets_def fun_eq_iff split: option.splits)
    ultimately show ?thesis by simp
  qed
  show ?thesis
    using run(1,2) th [OF run(1)] th [OF run(2)] m(2) run(3) decided(1) [OF both] unfolding f c(2-6) by auto
qed

end
