(* ===== verification/EngineDemo.thy ===== *)
theory EngineDemo
  imports Settlement Comparison
begin

text \<open>
  One evaluation worked out: 25 sessions of March 2026, one fold that tests on the last three, one bar.

  The signal of the 23rd enters on the 24th at its limit; the same bar falls through the stop, so the trade
  leaves at the stop the same day.  The witnesses of the engine's properties run on it.
\<close>

section \<open>The plan and the order\<close>

definition trial_layout :: layout where
  "trial_layout = \<lparr>initial_sessions = 1, validation_width = 1, test_width = 3, step_width = 3\<rparr>"

definition trial_plan :: plan where
  "trial_plan = (let p = laid_plan ''NSE'' (demo_cal 25) trial_layout 10 10 in p\<lparr>plan_id := fields_id (plan_material p)\<rparr>)"

definition trial_fold :: fold where
  "trial_fold = sealed_fold (demo_cal 25) trial_layout 10 0"

lemma trial_laid: "well_laid trial_layout 10" "test_end trial_layout 10 0 \<le> int (length (demo_cal 25))"
    "fold_count (demo_cal 25) trial_layout 10 = 1"
  by (simp_all add: well_laid_def trial_layout_def test_end_def fold_count_def demo_cal_sorted)

lemma trial_plan_fields: "folds trial_plan = [trial_fold]" "ordered_sessions trial_plan = demo_cal 25" "label_horizon trial_plan = 10"
  by (simp_all add: trial_plan_def Let_def laid_plan_def trial_laid(3) trial_fold_def nth_fold_def)

lemma trial_plan_built: "built trial_plan" "verify_plan trial_plan = Inr ()"
proof -
  define p where "p = laid_plan ''NSE'' (demo_cal 25) trial_layout 10 10"
  have made: "mk_plan p = Inr trial_plan"
    using laid_plan_accepted(1) [where horizon = 10, OF trial_laid(1) demo_cal_sorted(1) demo_laid(2) _ _ trial_laid(2) _ p_def]
    by (simp add: trial_laid(3) trial_plan_def flip: p_def)
  have f: "folds p = [trial_fold]" by (simp add: p_def laid_plan_def trial_laid(3) trial_fold_def nth_fold_def)
  have raw: "mapE mk_fold [fold_at (demo_cal 25) trial_layout 10 0] = Inr (folds p)"
    using mk_fold_sealed [OF trial_laid(1) _ trial_laid(2) demo_cal_sorted(1)] by (simp add: f trial_fold_def)
  show "built trial_plan" unfolding built_def using raw made by blast
  have "mk_fold (fold_at (demo_cal 25) trial_layout 10 0) = Inr trial_fold" using raw by (auto simp: f res_simps)
  then have "\<not> fst (fold_broken trial_fold)" by (rule mk_fold_Inr)
  then show "verify_plan trial_plan = Inr ()"
    using mk_plan_Inr(4) [OF made] by (simp add: verify_plan_def trial_plan_fields guards_Inr_iff)
qed

lemma trial_cal: "demo_cal 25 = demo_cal 22 @ [Date 2026 3 23, Date 2026 3 24, Date 2026 3 25]"
  by (simp add: demo_cal_def upt_rec)

lemma trial_test: "test trial_fold = [Date 2026 3 23, Date 2026 3 24, Date 2026 3 25]"
proof -
  have "window (demo_cal 25) 22 3 = [Date 2026 3 23, Date 2026 3 24, Date 2026 3 25]"
    by (simp add: window_def trial_cal demo_cal_sorted)
  then show ?thesis using sealed_fold_fields(3) [OF trial_laid(1) _ trial_laid(2)] by (simp add: trial_fold_def trial_layout_def)
qed

definition trial_bar :: simulation_bar where
  "trial_bar = (let b = demo_bar\<lparr>bar_session := Date 2026 3 24, bar_open := Dec False 10050 (-2)\<rparr> in
     b\<lparr>bar_id := fields_id (bar_material b)\<rparr>)"

definition trial_order :: limit_entry_order where
  "trial_order = (let e = demo_entry\<lparr>signal_session := Date 2026 3 23, first_eligible_session := Date 2026 3 24,
     expiry_session := Date 2026 3 24\<rparr> in e\<lparr>entry_order_id := fields_id (entry_material e)\<rparr>)"

definition trial_intent :: trade_intent where
  "trial_intent = (let i = \<lparr>intent_signal = demo_sha, intent_universe = demo_sha, intent_isin = ''INE467B01029'',
     intent_order = trial_order, intent_stop = Dec False 9500 (-2), intent_target = Dec False 11000 (-2),
     max_holding = 1, intent_id = []\<rparr> in i\<lparr>intent_id := fields_id (intent_material i)\<rparr>)"

definition trial_data :: evaluation_dataset where
  "trial_data = (let d = \<lparr>ds_sessions = demo_cal 25, ds_bars = [trial_bar], ds_sources = [demo_sha], ds_universes = [demo_sha],
     ds_readiness = SYNTHETIC, dataset_id = []\<rparr> in d\<lparr>dataset_id := fields_id (dataset_material d)\<rparr>)"

definition trial_policy :: execution_policy where
  "trial_policy = (let p = \<lparr>policy_slippage = 0, policy_participation = Dec False 25 (-4), policy_stressed = None,
     exec_version = ''v1'', exec_policy_id = []\<rparr> in p\<lparr>exec_policy_id := fields_id (exec_policy_material p)\<rparr>)"

lemma trial_fields [simp]:
  "bar_session trial_bar = Date 2026 3 24" "bar_symbol trial_bar = ''TCS''" "bar_open trial_bar = Dec False 10050 (-2)"
  "bar_low trial_bar = Dec False 9400 (-2)" "bar_close trial_bar = Dec False 10000 (-2)" "tradable trial_bar"
  "\<not> lower_circuit_sell_locked trial_bar" "bar_volume trial_bar = 1000000" "length (bar_id trial_bar) = 64"
  "entry_symbol trial_order = ''TCS''" "signal_session trial_order = Date 2026 3 23" "first_eligible_session trial_order = Date 2026 3 24"
  "expiry_session trial_order = Date 2026 3 24" "entry_quantity trial_order = 100" "limit_price trial_order = Dec False 10000 (-2)"
  "entry_tick trial_order = Dec False 5 (-2)" "entry_participation trial_order = Dec False 25 (-4)"
  "length (entry_order_id trial_order) = 64"
  "intent_universe trial_intent = demo_sha" "intent_isin trial_intent = ''INE467B01029''" "intent_order trial_intent = trial_order"
  "intent_stop trial_intent = Dec False 9500 (-2)" "intent_target trial_intent = Dec False 11000 (-2)" "max_holding trial_intent = 1"
  "ds_sessions trial_data = demo_cal 25" "ds_bars trial_data = [trial_bar]" "ds_universes trial_data = [demo_sha]"
  "ds_sources trial_data = [demo_sha]" "ds_readiness trial_data = SYNTHETIC"
  "policy_slippage trial_policy = 0" "policy_participation trial_policy = Dec False 25 (-4)" "policy_stressed trial_policy = None"
  "exec_version trial_policy = ''v1''"
  by (simp_all add: trial_bar_def trial_order_def trial_intent_def trial_data_def trial_policy_def Let_def)
    (simp_all add: demo_bar_def demo_entry_def)

lemma trial_sealed: "\<not> fst (dataset_broken trial_data)" "\<not> fst (exec_policy_broken trial_policy)" "\<not> fst (intent_broken trial_intent)"
    "sha_text (intent_id trial_intent)"
  by (simp_all add: trial_data_def trial_policy_def trial_intent_def dataset_broken_def exec_policy_broken_def intent_broken_def
      Let_def dataset_material_def exec_policy_material_def intent_material_def)

lemma trial_order_made: "\<exists>e0. mk_limit_entry_order e0 = Inr trial_order"
  by (rule exI [of _ "demo_entry\<lparr>signal_session := Date 2026 3 23, first_eligible_session := Date 2026 3 24,
        expiry_session := Date 2026 3 24\<rparr>"])
    (simp add: mk_limit_entry_order_def entry_guards_def symbol_guard_def price_guard_def participation_guard_def
      demo_entry_def demo_symbol demo_on_tick le_iff_dval less_iff_dval dval_Dec trial_order_def Let_def)

section \<open>The trade\<close>

definition trial_sold_at :: decimal where
  "trial_sold_at = adverse_sell (Dec False 9500 (-2)) 0 (Dec False 5 (-2))"

definition trial_entry_fill :: simulated_fill where
  "trial_entry_fill = (let f = \<lparr>fill_order_id = entry_order_id trial_order, fill_bar_id = bar_id trial_bar, fill_session = Date 2026 3 24,
     fill_symbol = ''TCS'', fill_side_of = BUY, fill_quantity = 100, trigger_price = Dec False 10000 (-2),
     fill_price = Dec False 10000 (-2), slippage_bps = 0, fill_exit_reason = None, simulated_fill_id = []\<rparr> in
     f\<lparr>simulated_fill_id := fields_id (simulated_fill_material f)\<rparr>)"

definition trial_protection :: protective_exit_order where
  "trial_protection = exit_order trial_intent (Dec False 25 (-4)) trial_entry_fill"

definition trial_exit_fill :: simulated_fill where
  "trial_exit_fill = (let f = \<lparr>fill_order_id = fields_id (exit_material ''daily-protective-exit-order/v1'' trial_protection),
     fill_bar_id = bar_id trial_bar, fill_session = Date 2026 3 24,
     fill_symbol = ''TCS'', fill_side_of = SELL, fill_quantity = 100, trigger_price = Dec False 9500 (-2),
     fill_price = trial_sold_at, slippage_bps = 0, fill_exit_reason = Some STOP, simulated_fill_id = []\<rparr> in
     f\<lparr>simulated_fill_id := fields_id (simulated_fill_material f)\<rparr>)"

lemma trial_fill_fields [simp]:
  "fill_session trial_entry_fill = Date 2026 3 24" "fill_symbol trial_entry_fill = ''TCS''" "fill_side_of trial_entry_fill = BUY"
  "fill_quantity trial_entry_fill = 100" "fill_price trial_entry_fill = Dec False 10000 (-2)"
  "fill_order_id trial_entry_fill = entry_order_id trial_order"
  "fill_session trial_exit_fill = Date 2026 3 24" "fill_symbol trial_exit_fill = ''TCS''" "fill_side_of trial_exit_fill = SELL"
  "fill_quantity trial_exit_fill = 100" "fill_price trial_exit_fill = trial_sold_at"
  "exit_symbol trial_protection = ''TCS''" "exit_quantity trial_protection = 100" "entry_session trial_protection = Date 2026 3 24"
  "entry_price trial_protection = Dec False 10000 (-2)" "stop_price trial_protection = Dec False 9500 (-2)"
  "target_price trial_protection = Dec False 11000 (-2)" "exit_tick trial_protection = Dec False 5 (-2)"
  "exit_participation trial_protection = Dec False 25 (-4)"
  by (simp_all add: trial_entry_fill_def trial_exit_fill_def trial_protection_def exit_order_def Let_def)

lemma dexp_dec_fix: "dexp d \<le> dexp (dec_fix d)"
  by (auto simp: dec_fix_def Let_def)

lemma trial_sold: "dval trial_sold_at = 95" "-4 \<le> dexp trial_sold_at"
proof -
  show "dval trial_sold_at = 95"
    using adverse_sell_no_slip [of "Dec False 9500 (-2)" "Dec False 5 (-2)" 0] demo_ticks(1)
    by (simp add: trial_sold_at_def less_iff_dval dval_Dec)
  have "0 \<le> dexp (to_integral Floor d)" for d by (simp add: to_integral_def)
  then have "-2 \<le> dexp (tick_floor d (Dec False 5 (-2)))" for d
    using order_trans [OF _ dexp_dec_fix] by (fastforce simp: tick_floor_def times_decimal_def dtimes_exact_def)
  then show "-4 \<le> dexp trial_sold_at" unfolding trial_sold_at_def adverse_sell_def Let_def by (rule order_trans [rotated]) simp
qed

lemma trial_volume: "within_participation 100 trial_bar (Dec False 25 (-4))"
  by (simp add: within_participation_def times_decimal_def dtimes_exact_def dec_of_int_def
      dec_fix_exact repr_def prec_def dec_int_def)

lemma trial_entered: "simulate_limit_entry trial_order trial_bar 0 = Inr (Some trial_entry_fill)"
proof -
  have "ticks (Dec False 10000 (-2)) (Dec False 5 (-2))" using demo_ticks(2) by simp
  then have "\<not> adverse_buy (Dec False 10000 (-2)) 0 (Dec False 5 (-2)) < Dec False 10000 (-2)"
    using adverse_buy_ge [of "Dec False 10000 (-2)" "Dec False 5 (-2)" 0] by (simp add: less_iff_dval le_iff_dval dval_Dec)
  then show ?thesis
    by (simp add: simulate_limit_entry_def trial_volume less_iff_dval le_iff_dval dval_Dec py_min_def mk_simulated_fill_def
        price_guard_def trial_entry_fill_def Let_def)
qed

lemma trial_stopped: "simulate_protective_exit trial_protection trial_bar 0 = Inr (Some trial_exit_fill)"
  using trial_sold(1) trial_volume
  by (simp add: simulate_protective_exit_def less_iff_dval le_iff_dval dval_Dec exit_fill_def mk_simulated_fill_def stop_trigger_def
      price_guard_def trial_exit_fill_def Let_def flip: trial_sold_at_def)

lemma trial_protected: "mk_protective_exit_order trial_protection = Inr trial_protection"
  by (simp add: mk_protective_exit_order_def exit_guards_def symbol_guard_def price_guard_def
      participation_guard_def demo_symbol demo_on_tick le_iff_dval less_iff_dval dval_Dec)

definition trial_trade :: evaluated_trade where
  "trial_trade = (let t = \<lparr>trade_intent_id = intent_id trial_intent, trade_isin = ''INE467B01029'', trade_entry = trial_entry_fill,
     trade_exit = trial_exit_fill, gross_pnl = (trial_sold_at - Dec False 10000 (-2)) * dec_of_int 100, evaluated_trade_id = []\<rparr> in
     t\<lparr>evaluated_trade_id := fields_id (trade_material t)\<rparr>)"

lemma trial_trade_fields [simp]:
  "trade_isin trial_trade = ''INE467B01029''" "trade_entry trial_trade = trial_entry_fill" "trade_exit trial_trade = trial_exit_fill"
  by (simp_all add: trial_trade_def Let_def)

lemma find_entry_skip:
  "\<forall>d \<in> set ds. d < first_eligible_session e \<Longrightarrow> find_entry e bars slip (ds @ es) = find_entry e bars slip es"
  by (induction ds) auto

lemma trial_ran: "evaluate_intent trial_intent [trial_bar] (demo_cal 25) trial_policy 0 = Inr (Some trial_trade)"
proof -
  have cal: "demo_cal 25 = demo_cal 23 @ [Date 2026 3 24, Date 2026 3 25]" by (simp add: demo_cal_def upt_rec)
  have "\<forall>d \<in> set (demo_cal 23). d < Date 2026 3 24" by (auto simp: demo_cal_def)
  then have entry: "find_entry trial_order [trial_bar] 0 (demo_cal 25) = Inr (Some trial_entry_fill)"
    unfolding cal by (subst find_entry_skip) (simp_all add: bar_on_def trial_entered)
  have "demo_cal 25 ! 23 = Date 2026 3 24" by (simp add: cal nth_append demo_cal_sorted)
  then have ix: "index_of (demo_cal 25) (Date 2026 3 24) = 23"
    using index_of_nth [of "demo_cal 25" 23] demo_cal_sorted [of 25] by (simp add: strict_sorted_iff)
  have window: "take 1 (drop 23 (demo_cal 25)) = [Date 2026 3 24]" by (simp add: cal demo_cal_sorted)
  have exit: "find_exit trial_protection [trial_bar] 0 [Date 2026 3 24] = Inr (Some trial_exit_fill)"
    by (simp add: bar_on_def trial_stopped)
  have "mk_trade \<lparr>trade_intent_id = intent_id trial_intent, trade_isin = ''INE467B01029'', trade_entry = trial_entry_fill,
      trade_exit = trial_exit_fill, gross_pnl = 0, evaluated_trade_id = []\<rparr> = Inr trial_trade"
    using trial_sealed(4) by (simp add: mk_trade_def trade_guards_def eval_sha_def trial_trade_def Let_def)
  then show ?thesis
    using trial_protected window
    by (simp add: evaluate_intent_def entry exit ix Let_def demo_cal_sorted del: find_exit.simps flip: trial_protection_def)
qed

section \<open>The registration\<close>

definition trial_request :: trial_registration where
  "trial_request = demo_registration\<lparr>stage := EXPLORATORY, evaluation_start := Date 2026 3 1, evaluation_end := Date 2026 3 31,
     split_plan_id := plan_id trial_plan, primary_metric := ''net_return'', secondary_metrics := [],
     execution_policy_hash := exec_policy_id trial_policy, cost_schedule_version := ''zerodha-nse-equity-cash-cost/v2'',
     cost_schedule_hash := schedule_id demo_schedule, base_slippage_bps := 0, stressed_slippage_bps := None,
     pass_thresholds := [(''net_return'', 0)], holdout_id := None, holdout_sealed := False, synthetic := True\<rparr>"

definition trial_registered :: trial_registration where
  "trial_registered = trial_request\<lparr>trial_id := fields_id (registration_material trial_request)\<rparr>"

lemma trial_registered_made: "mk_registration trial_request (PyDatetime 0 (Some 0)) = Inr trial_registered"
proof -
  have c: "commit_text ''abcdef0''" by code_simp
  have n: "canonical_text ''net_return''" "canonical_text ''zerodha-nse-equity-cash-cost/v2''" by code_simp+
  have s: "sha_text (plan_id trial_plan)" "sha_text (exec_policy_id trial_policy)" "sha_text (schedule_id demo_schedule)"
    by (simp_all add: trial_plan_def trial_policy_def demo_schedule_def Let_def schedule_calculated_id_def)
  have "\<forall>g \<in> set (registration_guards trial_request). \<not> fst g"
    by (simp add: registration_guards_def slippage_guards_def trial_request_def demo_registration_def text_guard_def sha_guard_def
        id_tuple_def opt_guard_def demo_texts demo_sha_text c n s le_iff_dval less_iff_dval dval_Dec)
  moreover have "trial_request\<lparr>registered_at := 0\<rparr> = trial_request" by (simp add: trial_request_def demo_registration_def)
  ultimately show ?thesis
    by (simp add: mk_registration_def to_utc_def guards_Inr_iff trial_registered_def)
qed

lemma trial_verified:
  assumes "0 < dval capital"
  shows "verify_inputs trial_registered trial_plan trial_data trial_policy demo_schedule capital = Inr ()"
proof -
  have v: "policy_version demo_schedule = ''zerodha-nse-equity-cash-cost/v2''"
    by (simp add: demo_schedule_def Let_def rate_card_2026_def)
  have "hd (demo_cal 25) = Date 2026 3 1" "last (demo_cal 25) = Date 2026 3 25" by (simp_all add: demo_cal_def upt_rec)
  moreover have "verify_registration trial_registered = Inr ()" using mk_registration_Inr(2) [OF trial_registered_made] .
  moreover have "\<forall>g \<in> set (trial_bindings trial_registered trial_plan trial_data trial_policy demo_schedule). \<not> fst g"
    using calculation v by (simp add: trial_bindings_def trial_registered_def)
      (simp add: trial_request_def demo_registration_def supported_metrics_def threshold_metrics_def trial_plan_fields)
  ultimately show ?thesis using trial_plan_built(2) trial_sealed assms
    by (simp add: verify_inputs_def guards_Inr_iff eval_positive_def le_iff_dval dval_Dec ball_Un)
qed

section \<open>The evaluation\<close>

abbreviation trial_run :: "decimal \<Rightarrow> trade_intent list \<Rightarrow> evaluation_result res" where
  "trial_run capital intents \<equiv> evaluate trial_registered trial_plan trial_data intents trial_policy demo_schedule capital False"

abbreviation large :: decimal where
  "large \<equiv> Dec False 1 22"

abbreviation hundred :: decimal where
  "hundred \<equiv> Dec False 1 2"

lemma trial_intent_ran: "mapE (run_intent trial_registered trial_plan trial_data trial_policy 0) [trial_intent] = Inr [[trial_trade]]"
proof -
  have "test_fold trial_plan trial_intent = Some trial_fold" by (simp add: test_fold_def trial_plan_fields trial_test)
  moreover have "\<forall>g \<in> set (intent_guards trial_registered trial_data trial_intent). \<not> fst g"
    using trial_sealed(3) by (simp add: intent_guards_def trial_registered_def trial_request_def demo_registration_def)
  moreover have "\<forall>g \<in> set (fold_guards_of trial_fold trial_policy trial_intent). \<not> fst g"
    by (simp add: fold_guards_of_def trial_test Let_def)
  ultimately have "run_intent trial_registered trial_plan trial_data trial_policy 0 trial_intent = Inr [trial_trade]"
    using trial_ran by (simp add: run_intent_def guards_Inr_iff trial_test)
  then show ?thesis by simp
qed

definition trial_buy :: delivery_fill where
  "trial_buy = (let f = \<lparr>trade_date = Date 2026 3 24, symbol = ''TCS'', isin = ''INE467B01029'', side = BUY, quantity = 100,
     price = Dec False 10000 (-2), order_id = entry_order_id trial_order, fill_id = []\<rparr> in f\<lparr>fill_id := fields_id (fill_material f)\<rparr>)"

definition trial_sell :: delivery_fill where
  "trial_sell = (let f = \<lparr>trade_date = Date 2026 3 24, symbol = ''TCS'', isin = ''INE467B01029'', side = SELL, quantity = 100,
     price = trial_sold_at, order_id = fill_order_id trial_exit_fill, fill_id = []\<rparr> in f\<lparr>fill_id := fields_id (fill_material f)\<rparr>)"

lemma trial_fills: "fills_of [trial_trade] = Inr [trial_buy, trial_sell]"
proof -
  have u: "normalized_upper ''INE467B01029''" by code_simp
  have id: "\<not> blank (entry_order_id trial_order)" "\<not> blank (fill_order_id trial_exit_fill)"
    by (intro sha_not_blank; simp add: trial_order_def trial_exit_fill_def Let_def)+
  show ?thesis
    using u id trial_sold(1)
    by (simp add: fills_of_def delivery_of_def mk_delivery_fill_def demo_symbol positive_guard_def le_iff_dval dval_Dec Let_def
        trial_buy_def trial_sell_def)
qed

lemma trial_fill_ids:
  assumes "fill_id trial_buy = fill_id trial_sell"
  shows "collision_of (fill_material trial_buy) (fill_material trial_sell)"
proof -
  have "fill_id trial_buy = fields_id (fill_material trial_buy)" "fill_id trial_sell = fields_id (fill_material trial_sell)"
    by (simp_all add: trial_buy_def trial_sell_def Let_def fill_material_def)
  moreover have "map (canon \<circ> snd) (fill_material trial_buy) \<noteq> map (canon \<circ> snd) (fill_material trial_sell)"
  proof -
    have "canon (side_val BUY) \<noteq> canon (side_val SELL)" by code_simp
    then show ?thesis by (simp add: fill_material_def trial_buy_def trial_sell_def Let_def del: side_val.simps)
  qed
  ultimately show ?thesis using fill_identity.sealed_same_fields assms by metis
qed

definition late_schedule :: nse_delivery_cost_schedule where
  \<comment> \<open>the registered tariff, in force from April only\<close>
  "late_schedule = demo_schedule\<lparr>effective_from := Date 2026 4 1\<rparr>"

lemma late_schedule_small: "small_schedule late_schedule"
proof -
  have "effective_to demo_schedule = None" by (rule demo_schedule_fields)
  then have "schedule_ok late_schedule = schedule_ok demo_schedule"
    by (simp add: late_schedule_def schedule_ok_def schedule_guards_def)
  then show ?thesis using demo_schedule_ok(1) by (simp add: small_schedule_def) (simp add: late_schedule_def)
qed

lemma late_verified:
  assumes "0 < dval capital"
  shows "verify_inputs trial_registered trial_plan trial_data trial_policy late_schedule capital = Inr ()"
proof -
  have "trial_bindings trial_registered trial_plan trial_data trial_policy late_schedule
      = trial_bindings trial_registered trial_plan trial_data trial_policy demo_schedule"
    by (simp add: trial_bindings_def late_schedule_def)
  then show ?thesis using trial_verified [OF assms] by (simp add: verify_inputs_def)
qed

lemma late_refused: "refused late_schedule [trial_trade] fs"
  by (simp add: refused_def late_schedule_def)

lemma trial_bounds:
  assumes "capital \<in> {large, hundred}" and "s \<in> {demo_schedule, late_schedule}" and "ts \<in> {[], [trial_trade]}"
  shows "within_bounds trial_data s capital ts"
proof -
  have "grid (10 ^ 27) capital" "grid (10 ^ 12) (Dec False 10000 (-2))"
    using upto_grid [of "10 ^ 23" capital] upto_grid [of "10 ^ 8" "Dec False 10000 (-2)"] assms(1)
    by (auto simp: upto_def dval_Dec)
  moreover have "small_deal trial_entry_fill" "small_deal trial_exit_fill"
    using trial_sold by (simp_all add: small_deal_def le_iff_dval dval_Dec)
  moreover have "small_schedule s" using assms(2) demo_schedule_ok(1) late_schedule_small by auto
  ultimately show ?thesis using assms(3) by (auto simp: within_bounds_def)
qed

lemma trial_accepted:
  assumes "\<not> collision_of (fill_material trial_buy) (fill_material trial_sell)"
  shows "\<not> refused demo_schedule [trial_trade] [trial_buy, trial_sell]"
proof -
  have "fill_id trial_buy \<noteq> fill_id trial_sell" using assms trial_fill_ids by blast
  then show ?thesis using demo_schedule_ok(2) demo_schedule_fields
    by (simp add: refused_def verify_schedule_iff)
qed

lemma trial_made: "made_intent trial_intent"
proof -
  have s: "intent_signal trial_intent = demo_sha" by (simp add: trial_intent_def Let_def)
  have l: "limit_price trial_order = Dec False 10000 (-2)" by (simp add: trial_order_def demo_entry_def Let_def)
  have u: "''INE467B01029'' = upper (strip ''INE467B01029'')" by code_simp
  have "mk_intent trial_intent = Inr (trial_intent\<lparr>intent_id := fields_id (intent_material trial_intent)\<rparr>)"
    by (simp add: mk_intent_def eval_sha_def demo_sha_text intent_price_def eval_positive_def s l demo_on_tick u [symmetric] guards.simps
        le_iff_dval less_iff_dval dval_Dec)
  moreover have "trial_intent\<lparr>intent_id := fields_id (intent_material trial_intent)\<rparr> = trial_intent"
    using trial_sealed(3) by (simp add: intent_broken_def)
  ultimately show ?thesis using trial_order_made by (auto simp: made_intent_def)
qed

lemma trial_overlap: "check_overlap [] = Inr ()" "check_overlap [trial_trade] = Inr ()"
  by (simp_all add: check_overlap_def track_exit_def last_exit_def Let_def)

lemma trial_cash:
  assumes "\<not> collision_of (fill_material trial_buy) (fill_material trial_sell)"
    and c: "price_fills [trial_buy, trial_sell] demo_schedule = Inr c"
  shows "\<not> overdrawn large [trial_trade] c ps" and "Date 2026 3 24 \<in> set ps \<Longrightarrow> overdrawn hundred [trial_trade] c ps"
proof -
  have co: "\<forall>t \<in> set [trial_trade]. consistent t" using evaluate_intent_Some(2) [OF trial_ran] by simp
  obtain c' where c': "price_fills [trial_buy, trial_sell] demo_schedule = Inr c'"
    "map leg_date (legs_of c') = fill_dates [trial_buy, trial_sell]" "small_book trial_data large [trial_trade] c'"
    using priced [OF trial_fills trial_bounds _ co _ trial_accepted [OF assms(1)], of large] by (auto simp: dval_Dec)
  have "fill_dates [trial_buy, trial_sell] = [Date 2026 3 24]"
    by (simp add: fill_dates_def trial_buy_def trial_sell_def Let_def)
  then obtain l where l: "legs_of c = [l]" using c'(1,2) c by auto
  have "grid (3 * 10 ^ 24) (leg_total l)" using c'(1,3) c l by (simp add: small_book_def)
  then obtain k where k: "k \<le> 3 * 10 ^ 24" "dval (leg_total l) = of_nat k * 10 powi (-4)" by (auto simp: grid_def)
  have "(of_nat k :: rat) \<le> of_nat (3 * 10 ^ 24)" using k(1) by (simp only: of_nat_le_iff)
  then have leg: "dval (leg_total l) \<le> 3 * 10 ^ 20" "0 \<le> dval (leg_total l)" using k(2) by (simp_all add: power_int_def field_simps)
  have w: "worth trial_entry_fill = 10 ^ 4" "worth trial_exit_fill = 9500"
    using trial_sold(1) by (simp_all add: worth_def dval_Dec)
  have "0 \<le> exact_cash large [trial_trade] c S" for S using leg w by (simp add: exact_cash_def l dval_Dec)
  then show "\<not> overdrawn large [trial_trade] c ps" by (simp add: overdrawn_def list_ex_iff not_less)
  have "exact_cash hundred [trial_trade] c {..Date 2026 3 24} < 0" using leg w by (simp add: exact_cash_def l dval_Dec)
  then show "overdrawn hundred [trial_trade] c ps" if "Date 2026 3 24 \<in> set ps"
    using that by (auto simp: overdrawn_def list_ex_iff)
qed

lemma trial_returns:
  assumes run: "mapE (run_intent trial_registered trial_plan trial_data trial_policy 0) intents = Inr found"
    and i: "intents = sort_key intent_key intents" and ts: "sort_key trade_key (concat found) = ts"
    and w: "within_bounds trial_data demo_schedule large ts" and ov: "check_overlap ts = Inr ()"
    and f: "fills_of ts = Inr fs" and ok: "\<not> refused demo_schedule ts fs"
    and cash: "\<And>c ps. price_fills fs demo_schedule = Inr c \<Longrightarrow> \<not> overdrawn large ts c ps"
  shows "\<exists>res. trial_run large intents = Inr res \<and> res_trades res = ts"
proof -
  have tr: "traded trial_plan trial_data ts"
    using found_traded [OF run trial_plan_built(1)] trial_plan_fields(2) ts by simp
  have "trial_run large intents = settle trial_registered trial_plan trial_data trial_policy demo_schedule large ts"
    using i trial_verified [of large] run ts by (simp add: dval_Dec evaluate_def select_slippage_def guards.simps)
  then show ?thesis
    using settle_outcome [OF trial_verified trial_plan_built(1) trial_registered_made tr ov w f ok] cash
    by (auto simp: dval_Dec split: if_splits)
qed

lemma trial_traded:
  assumes "\<not> collision_of (fill_material trial_buy) (fill_material trial_sell)"
  shows "\<exists>res. trial_run large [trial_intent] = Inr res \<and> res_trades res = [trial_trade]"
  by (rule trial_returns [OF trial_intent_ran _ _ trial_bounds trial_overlap(2) trial_fills trial_accepted [OF assms]
        trial_cash(1) [OF assms]]) simp_all

lemma trial_idle: "\<exists>res. trial_run large [] = Inr res \<and> res_trades res = []"
proof (rule trial_returns)
  show "within_bounds trial_data demo_schedule large []" by (rule trial_bounds) simp_all
  show "\<not> refused demo_schedule [] []" by (simp add: refused_def)
qed (auto simp: trial_overlap overdrawn_def exact_cash_def list_ex_iff dval_Dec price_fills_def legs_of_def)

section \<open>A gap through the stop\<close>

text \<open>
  An intent only promises stop < limit < target.  A bar that opens at or below the stop fills the entry from
  the open, and the protective order is then refused: the evaluation of the whole trial ends in a \<open>ValueError\<close>.
\<close>

lemma gap_below_stop_aborts:
  assumes i: "mk_intent i0 = Inr i" and e: "mk_limit_entry_order e0 = Inr (intent_order i)"
    and f: "find_entry (intent_order i) bars slip sessions = Inr (Some f)"
    and gap: "fill_price f \<le> intent_stop i"
    and mature: "int (index_of sessions (fill_session f)) + max_holding i \<le> int (length sessions)"
  shows "evaluate_intent i bars sessions policy slip
    = Inl (ValueError ''protective prices must satisfy stop < entry < target'')"
proof -
  obtain j where "i = i0\<lparr>intent_id := j\<rparr>" "0 < intent_stop i0" "0 < intent_target i0"
    using i by (auto simp: mk_intent_def guards_Inr_iff res_simps intent_price_def eval_positive_def le_iff_dval less_iff_dval
        split: prod.splits)
  then have pos: "0 < intent_stop i" "0 < intent_target i" by simp_all
  have s: "normalized_upper (entry_symbol (intent_order i))"
    using e by (auto simp: mk_limit_entry_order_def guards_Inr_iff entry_guards_def symbol_guard_def res_simps
        dest!: arg_cong [of _ "intent_order i" entry_symbol])
  note v = validated_entry [OF e]
  have "fill_symbol f = entry_symbol (intent_order i)" "fill_quantity f = entry_quantity (intent_order i)" "0 < fill_price f"
    using find_entry_Some [OF f] by (simp_all add: entered_def)
  then have "mk_protective_exit_order (exit_order i (policy_participation policy) f)
      = Inl (ValueError ''protective prices must satisfy stop < entry < target'')"
    using s v pos gap by (simp add: mk_protective_exit_order_def exit_guards_def exit_order_def symbol_guard_def price_guard_def
        guards.simps le_iff_dval less_iff_dval not_le)
  then show ?thesis using mature by (simp add: evaluate_intent_def f Let_def guards.simps)
qed

section \<open>Witnesses\<close>

theorem evaluated_trades_sound_witness:
  "(\<exists>res. trial_run large [trial_intent] = Inr res \<and> res_trades res = [trial_trade] \<and> held_in trial_intent trial_fold trial_trade
      \<and> trade_of trial_intent (demo_cal 25) 0 trial_trade)
    \<or> collision_of (fill_material trial_buy) (fill_material trial_sell)"
proof (rule disjCI)
  assume "\<not> collision_of (fill_material trial_buy) (fill_material trial_sell)"
  then obtain res where r: "trial_run large [trial_intent] = Inr res" "res_trades res = [trial_trade]" using trial_traded by blast
  show "\<exists>res. trial_run large [trial_intent] = Inr res \<and> res_trades res = [trial_trade] \<and> held_in trial_intent trial_fold trial_trade
      \<and> trade_of trial_intent (demo_cal 25) 0 trial_trade"
    using evaluated_trades_sound [OF r(1)] r trial_order_made by (auto simp: trial_plan_fields)
qed

theorem evaluation_ledger_exact_witness:
  "(\<exists>res. trial_run large [] = Inr res \<and> exact_ledger trial_data res)
    \<and> ((\<exists>res. trial_run large [trial_intent] = Inr res \<and> res_trades res = [trial_trade] \<and> exact_ledger trial_data res)
      \<or> collision_of (fill_material trial_buy) (fill_material trial_sell))"
proof (intro conjI disjCI)
  show "\<exists>res. trial_run large [] = Inr res \<and> exact_ledger trial_data res"
    using trial_idle evaluation_ledger_exact [OF _ trial_plan_built(1)] trial_bounds by (metis insertI1)
  assume no: "\<not> collision_of (fill_material trial_buy) (fill_material trial_sell)"
  show "\<exists>res. trial_run large [trial_intent] = Inr res \<and> res_trades res = [trial_trade] \<and> exact_ledger trial_data res"
    using trial_traded [OF no] evaluation_ledger_exact [OF _ trial_plan_built(1)] trial_bounds by (metis insertI1 insertI2)
qed

theorem evaluation_outcome_witness:
  "(\<exists>res. trial_run large [] = Inr res \<and> exact_ledger trial_data res)
    \<and> evaluate trial_registered trial_plan trial_data [trial_intent] trial_policy late_schedule large False = Inl unpriced
    \<and> ((\<exists>res. trial_run large [trial_intent] = Inr res \<and> res_trades res = [trial_trade] \<and> exact_ledger trial_data res)
        \<and> trial_run hundred [trial_intent] = Inl no_cash
      \<or> collision_of (fill_material trial_buy) (fill_material trial_sell))"
proof (intro conjI disjCI)
  have verified: "verify_inputs trial_registered trial_plan trial_data trial_policy s capital = Inr ()"
    if "capital \<in> {large, hundred}" "s \<in> {demo_schedule, late_schedule}" for s capital
    using that trial_verified [of capital] late_verified [of capital] by (auto simp: dval_Dec)
  note outcome = evaluation_outcome [OF verified _ _ _ trial_plan_built(1) trial_registered_made, where stressed = False and slip = 0]
  show "\<exists>res. trial_run large [] = Inr res \<and> exact_ledger trial_data res"
    using outcome [of large demo_schedule "[]" "[]"] trial_bounds [of large demo_schedule "[]"] trial_idle
    by (auto simp: trial_overlap select_slippage_def refused_def split: if_splits)
  note one = outcome [OF _ _ _ _ trial_intent_ran]
  show "evaluate trial_registered trial_plan trial_data [trial_intent] trial_policy late_schedule large False = Inl unpriced"
    using one [of large late_schedule] trial_bounds [of large late_schedule "[trial_trade]"] trial_made trial_fills late_refused
    by (simp add: trial_overlap select_slippage_def)
  assume no: "\<not> collision_of (fill_material trial_buy) (fill_material trial_sell)"
  show "\<exists>res. trial_run large [trial_intent] = Inr res \<and> res_trades res = [trial_trade] \<and> exact_ledger trial_data res"
    using one [of large demo_schedule] trial_bounds [of large demo_schedule "[trial_trade]"] trial_cash(1) [OF no]
      trial_fills trial_made trial_accepted [OF no]
    by (auto simp: trial_overlap select_slippage_def split: if_splits)
  obtain ps where ps: "performance_sessions trial_plan trial_data = Inr ps" "set (concat (map test (folds trial_plan))) \<subseteq> set ps"
    by (rule performance_window [of trial_data trial_plan])
      (use built_tests [OF trial_plan_built(1)] trial_plan_fields(2) in \<open>simp_all del: set_concat concat_eq_Nil_conv\<close>)
  then have "Date 2026 3 24 \<in> set ps" by (simp add: trial_plan_fields trial_test)
  then show "trial_run hundred [trial_intent] = Inl no_cash"
    using one [of hundred demo_schedule] trial_bounds [of hundred demo_schedule "[trial_trade]"] trial_cash(2) [OF no]
      trial_fills ps(1) trial_made trial_accepted [OF no]
    by (auto simp: trial_overlap select_slippage_def split: if_splits)
qed

lemma trial_compared: "\<exists>c. compare trial_registered trial_plan trial_data [] [] trial_policy demo_schedule large = Inr c"
proof -
  obtain res where r: "trial_run large [] = Inr res" "res_trades res = []" using trial_idle by blast
  obtain ts where "settle trial_registered trial_plan trial_data trial_policy demo_schedule large ts = Inr res"
    by (rule evaluate_Inr [OF r(1)])
  then obtain q where q: "mk_result q = Inr res" "res_trial q = trial_id trial_registered"
    by (auto simp: settle_def res_simps Let_def)
  have b: "res_trial res = trial_id trial_registered" using q(2) by (subst mk_result_Inr(1) [OF q(1)]) simp
  note b = b mk_result_Inr(2) [OF q(1)]
  have n: "\<not> blank ''m1''" "\<not> blank ''nifty''" "\<not> blank ''net_return''" by code_simp+
  have f: "model_bundle_id trial_registered = ''m1''" "benchmark_id trial_registered = ''nifty''"
    "primary_metric trial_registered = ''net_return''" "stressed_slippage_bps trial_registered = None"
    by (simp_all add: trial_registered_def trial_request_def) (simp_all add: demo_registration_def)
  have "sha_text (trial_id trial_registered)" by (simp add: trial_registered_def)
  then show ?thesis
    using r b n by (simp add: compare_def f mk_comparison_def guards_Inr_iff cmp_guards_def eval_sha_def threshold_metrics_def
        supported_metrics_def binding_guards_def wrong_slippage_def optional_def Let_def)
qed

theorem comparison_verdict_witness:
  "\<exists>c. compare trial_registered trial_plan trial_data [] [] trial_policy demo_schedule large = Inr c
    \<and> strategy_base c = benchmark_base c \<and> cmp_passed c = res_passed (strategy_base c) \<and> strategy_stressed c = None"
proof -
  obtain c where c: "compare trial_registered trial_plan trial_data [] [] trial_policy demo_schedule large = Inr c"
    using trial_compared by blast
  show ?thesis using comparison_verdict [OF c] c by (auto simp: beats_def le_iff_dval split: option.splits)
qed

end
