(* ===== verification/Gregorian.thy ===== *)
theory Gregorian
  imports PyDate
begin

text \<open>
  The proleptic Gregorian calendar behind \<open>date.toordinal\<close> and \<open>date.fromordinal\<close>.

  On the dates Python can construct (\<open>valid_date\<close>) the two functions are inverse to each other and
  \<open>toordinal\<close> is strictly monotone, so the \<open>i\<close>-th day after a date is later than the ones before it.
\<close>

definition valid_date :: "date \<Rightarrow> bool" where
  \<comment> \<open>what the constructor of \<open>date\<close> accepts, without the upper bound on the year\<close>
  "valid_date d = (1 \<le> year d \<and> 1 \<le> month d \<and> month d \<le> 12 \<and> 1 \<le> day d
     \<and> day d \<le> days_in_month (year d) (month d))"

definition year_start :: "int \<Rightarrow> int" where
  \<comment> \<open>the days before the year after \<open>y\<close>\<close>
  "year_start y = y * 365 + y div 4 - y div 100 + y div 400"

definition year_day :: "date \<Rightarrow> int" where
  \<comment> \<open>the days of the year before a date\<close>
  "year_day d = int (sum_list (map (days_in_month (year d)) [1..<month d]) + day d) - 1"

lemma toordinal_split: "toordinal d = year_start (int (year d) - 1) + year_day d + 1"
  by (simp add: toordinal_def year_start_def year_day_def Let_def)

lemma month_cases:
  assumes "1 \<le> m" and "m \<le> (12 :: nat)"
  shows "m = 1 \<or> m = 2 \<or> m = 3 \<or> m = 4 \<or> m = 5 \<or> m = 6 \<or> m = 7 \<or> m = 8 \<or> m = 9 \<or> m = 10 \<or> m = 11 \<or> m = 12"
  using assms by presburger

lemma month_split_year_day:
  assumes "valid_date d"
  shows "month_split (year d) [1, 2, 3, 4, 5, 6, 7, 8, 9, 10, 11, 12] (nat (year_day d)) = (month d, day d)"
    and "0 \<le> year_day d" and "year_day d < (if leap_year (year d) then 366 else 365)"
proof -
  obtain y m k where d: "d = Date y m k" by (cases d)
  from assms have m: "1 \<le> m" "m \<le> 12" and k: "1 \<le> k" "k \<le> days_in_month y m" by (simp_all add: valid_date_def d)
  have *: "month_split y [1, 2, 3, 4, 5, 6, 7, 8, 9, 10, 11, 12] (nat (year_day d)) = (m, k)
    \<and> 0 \<le> year_day d \<and> year_day d < (if leap_year y then 366 else 365)"
    using month_cases [OF m] k
    by (elim disjE; cases "leap_year y") (simp_all add: d year_day_def days_in_month_def upt_rec nat_diff_distrib nat_add_distrib)
  then show "month_split (year d) [1, 2, 3, 4, 5, 6, 7, 8, 9, 10, 11, 12] (nat (year_day d)) = (month d, day d)"
    "0 \<le> year_day d" "year_day d < (if leap_year (year d) then 366 else 365)"
    by (simp_all add: d)
qed

text \<open>A year as cycles of 400, 100, 4 and 1 years.\<close>

lemma split_unique:
  fixes x m q r :: nat
  assumes "x = m * q + r" and "r < m"
  shows "x mod m = r" and "x div m = q"
  using assms by simp_all

lemma year_cycles:
  fixes y :: nat
  obtains a b c e where "y = 400 * a + 100 * b + 4 * c + e" and "b \<le> 3" and "c \<le> 24" and "e \<le> 3"
proof
  let ?r = "y mod 400"
  let ?s = "?r mod 100"
  have "y = 400 * (y div 400) + ?r" "?r = 100 * (?r div 100) + ?s" "?s = 4 * (?s div 4) + ?s mod 4"
    by (simp_all only: mult_div_mod_eq)
  then show "y = 400 * (y div 400) + 100 * (?r div 100) + 4 * (?s div 4) + ?s mod 4" by linarith
  have "?r div 100 < 4" "?s div 4 < 25" "?s mod 4 < 4" by (simp_all add: div_less_iff_less_mult)
  then show "?r div 100 \<le> 3" "?s div 4 \<le> 24" "?s mod 4 \<le> 3" by linarith+
qed

lemma year_start_cycles:
  assumes "y = 400 * a + 100 * b + 4 * c + e" and "b \<le> 3" and "c \<le> 24" and "e \<le> (3 :: nat)"
  shows "year_start (int y) = int (146097 * a + 36524 * b + 1461 * c + 365 * e)"
proof -
  have y: "y = 4 * (100 * a + 25 * b + c) + e" "y = 100 * (4 * a + b) + (4 * c + e)"
    "y = 400 * a + (100 * b + 4 * c + e)" by (simp_all add: assms(1))
  have "y div 4 = 100 * a + 25 * b + c" by (rule split_unique(2) [OF y(1)]) (use assms in simp)
  moreover have "y div 100 = 4 * a + b" by (rule split_unique(2) [OF y(2)]) (use assms in simp)
  moreover have "y div 400 = a" by (rule split_unique(2) [OF y(3)]) (use assms in simp)
  ultimately have "int y div 4 = int (100 * a + 25 * b + c)" "int y div 100 = int (4 * a + b)" "int y div 400 = int a"
    by (metis of_nat_numeral zdiv_int)+
  then show ?thesis by (simp add: year_start_def assms(1))
qed

lemma leap_cycles:
  assumes "y = 400 * a + 100 * b + 4 * c + e" and "b \<le> 3" and "c \<le> 24" and "e \<le> (3 :: nat)"
  shows "leap_year (Suc y) \<longleftrightarrow> e = 3 \<and> (c \<noteq> 24 \<or> b = 3)"
proof -
  have 1: "Suc y mod 4 = Suc e mod 4" "Suc y mod 100 = Suc (4 * c + e) mod 100"
    "Suc y mod 400 = Suc (100 * b + 4 * c + e) mod 400"
    using mod_mult_self4 [of 4 "100 * a + 25 * b + c" "Suc e"] mod_mult_self4 [of 100 "4 * a + b" "Suc (4 * c + e)"]
      mod_mult_self4 [of 400 a "Suc (100 * b + 4 * c + e)"] by (simp_all add: assms(1) algebra_simps)
  have z: "Suc n mod m = 0 \<longleftrightarrow> Suc n = m" if "Suc n \<le> m" for n m :: nat
    using that by (cases "Suc n = m") simp_all
  have "Suc y mod 4 = 0 \<longleftrightarrow> Suc e = 4" unfolding 1 by (rule z) (use assms in linarith)
  moreover have "Suc y mod 100 = 0 \<longleftrightarrow> Suc (4 * c + e) = 100" unfolding 1 by (rule z) (use assms in linarith)
  moreover have "Suc y mod 400 = 0 \<longleftrightarrow> Suc (100 * b + 4 * c + e) = 400" unfolding 1 by (rule z) (use assms in linarith)
  moreover have "Suc (4 * c + e) = 100 \<longleftrightarrow> e = 3 \<and> c = 24" "Suc (100 * b + 4 * c + e) = 400 \<longleftrightarrow> e = 3 \<and> c = 24 \<and> b = 3"
    using assms(2-4) by presburger+
  ultimately show ?thesis unfolding leap_year_def by auto
qed

lemma from_cycles:
  fixes a b c e k :: nat
  assumes "b \<le> 3" and "c \<le> 24" and "e \<le> 3" and "k < (if e = 3 \<and> (c \<noteq> 24 \<or> b = 3) then 366 else 365)"
  defines "n \<equiv> 146097 * a + 36524 * b + 1461 * c + 365 * e + k"
  shows "date_of_ordinal (Suc n) = (let (m, d) = (if k = 365 then (12, 31)
      else month_split (400 * a + 100 * b + 4 * c + e + 1) [1, 2, 3, 4, 5, 6, 7, 8, 9, 10, 11, 12] k)
    in Date (400 * a + 100 * b + 4 * c + e + 1) m d)"
proof (cases "k = 365")
  case False
  then have k: "k < 365" using assms(4) by (simp split: if_splits)
  let ?r1 = "365 * e + k"
  let ?r4 = "1461 * c + ?r1"
  let ?r100 = "36524 * b + ?r4"
  have n: "n = 146097 * a + ?r100" by (simp add: n_def)
  have "?r1 < 1461" "?r4 < 36524" "?r100 < 146097" using assms(1-3) k by linarith+
  note r = split_unique [OF n this(3)] split_unique [OF refl this(2)] split_unique [OF refl this(1)]
    split_unique [OF refl k]
  show ?thesis unfolding date_of_ordinal_def Let_def diff_Suc_1 r using assms(1,3) False
    by (simp add: ac_simps del: month_split.simps)
next
  case True
  then have e: "e = 3" "c \<noteq> 24 \<or> b = 3" using assms(4) by (auto split: if_splits)
  show ?thesis
  proof (cases "c = 24")
    case c: True
    have "n = 146097 * a + 146096" using e True c by (simp add: n_def)
    note r400 = split_unique [OF this]
    show ?thesis using True e c by (simp add: date_of_ordinal_def Let_def r400)
  next
    case False
    let ?r4 = "1461 * c + 1460 :: nat"
    have n: "n = 146097 * a + (36524 * b + ?r4)" using e True by (simp add: n_def)
    have "?r4 < 36524" "36524 * b + ?r4 < 146097" using assms(1,2) False by linarith+
    note r = split_unique [OF n this(2)] split_unique [OF refl this(1)]
    have r4: "?r4 mod 1461 = 1460" "?r4 div 1461 = c" by (rule split_unique [OF refl], simp)+
    show ?thesis unfolding date_of_ordinal_def Let_def diff_Suc_1 r r4 using True e assms(1)
      by (simp add: ac_simps)
  qed
qed

theorem date_of_ordinal_toordinal:
  assumes "valid_date d"
  shows "date_of_ordinal (nat (toordinal d)) = d" and "1 \<le> toordinal d"
proof -
  obtain y where y: "year d = Suc y" using assms by (cases "year d") (simp_all add: valid_date_def)
  obtain a b c e where p: "y = 400 * a + 100 * b + 4 * c + e" "b \<le> 3" "c \<le> 24" "e \<le> 3" by (rule year_cycles)
  define k where "k = nat (year_day d)"
  note q = month_split_year_day [OF assms]
  have k: "year_day d = int k" "k < (if e = 3 \<and> (c \<noteq> 24 \<or> b = 3) then 366 else 365)"
    using q(2,3) by (auto simp: k_def y leap_cycles [OF p])
  have "toordinal d = int (Suc (146097 * a + 36524 * b + 1461 * c + 365 * e + k))"
    by (simp add: toordinal_split y year_start_cycles [OF p] k(1))
  then have n: "nat (toordinal d) = Suc (146097 * a + 36524 * b + 1461 * c + 365 * e + k)" "1 \<le> toordinal d" by simp_all
  have last: "(month d, day d) = (12, 31)" if "k = 365"
    using q(1) k that unfolding k_def [symmetric] y
    by (cases "leap_year (Suc y)") (simp_all add: days_in_month_def leap_cycles [OF p] split: if_splits)
  show "date_of_ordinal (nat (toordinal d)) = d"
    using q(1) last y unfolding n(1) from_cycles [OF p(2-4) k(2)] k_def [symmetric]
    by (cases d) (auto simp: p(1) simp del: month_split.simps)
  show "1 \<le> toordinal d" by (rule n(2))
qed

text \<open>The next day: every ordinal is the ordinal of a date.\<close>

definition next_day :: "date \<Rightarrow> date" where
  "next_day d = (if day d < days_in_month (year d) (month d) then Date (year d) (month d) (day d + 1)
     else if month d < 12 then Date (year d) (month d + 1) 1 else Date (year d + 1) 1 1)"

lemma year_start_Suc: "year_start (int (Suc y)) = year_start (int y) + (if leap_year (Suc y) then 366 else 365)"
proof -
  have d: "int (Suc y) div int m = int y div int m + (if Suc y mod m = 0 then 1 else 0)" for m
  proof -
    have "int (Suc y) div int m = int (Suc y div m)" "int y div int m = int (y div m)" by (simp_all only: of_nat_div)
    then show ?thesis by (simp add: div_Suc)
  qed
  note q = d [of 4, unfolded of_nat_numeral] d [of 100, unfolded of_nat_numeral] d [of 400, unfolded of_nat_numeral]
  have m: "Suc y mod 100 = 0 \<Longrightarrow> Suc y mod 4 = 0" "Suc y mod 400 = 0 \<Longrightarrow> Suc y mod 100 = 0" by presburger+
  show ?thesis unfolding year_start_def q leap_year_def
    by (cases "Suc y mod 4 = 0"; cases "Suc y mod 100 = 0"; cases "Suc y mod 400 = 0") (use m in simp_all)
qed

lemma days_in_month_pos: "1 \<le> days_in_month y m"
  by (simp add: days_in_month_def)

lemma next_day_ordinal:
  assumes "valid_date d"
  shows "valid_date (next_day d)" and "toordinal (next_day d) = toordinal d + 1"
proof -
  obtain y m k where d: "d = Date (Suc y) m k" using assms by (cases d; cases "year d") (simp_all add: valid_date_def)
  from assms have m: "1 \<le> m" "m \<le> 12" and k: "1 \<le> k" "k \<le> days_in_month (Suc y) m" by (simp_all add: valid_date_def d)
  have "valid_date (next_day d) \<and> toordinal (next_day d) = toordinal d + 1"
  proof (cases "k < days_in_month (Suc y) m \<or> m < 12")
    case True
    have "[1..<m + 1] = [1..<m] @ [m]" using m by simp
    then show ?thesis using True m k days_in_month_pos
      by (auto simp: next_day_def valid_date_def toordinal_split year_day_def d simp del: upt_Suc)
  next
    case False
    then have mk: "m = 12" "k = 31" using m k by (auto simp: days_in_month_def)
    show ?thesis
      by (simp add: next_day_def valid_date_def toordinal_split year_day_def d mk days_in_month_def upt_rec
          year_start_Suc [unfolded of_nat_Suc])
  qed
  then show "valid_date (next_day d)" "toordinal (next_day d) = toordinal d + 1" by simp_all
qed

lemma ordinal_surj: "\<exists>d. valid_date d \<and> toordinal d = int (Suc n)"
proof (induction n)
  case 0
  have "valid_date (Date 1 1 1)" by (simp add: valid_date_def days_in_month_def)
  moreover have "toordinal (Date 1 1 1) = int (Suc 0)" unfolding toordinal_examples(1) by simp
  ultimately show ?case by blast
next
  case (Suc n)
  then obtain d where "valid_date d" "toordinal d = int (Suc n)" by blast
  with next_day_ordinal [OF this(1)] show ?case by (intro exI [of _ "next_day d"]) simp
qed

theorem toordinal_date_of_ordinal:
  assumes "1 \<le> n"
  shows "toordinal (date_of_ordinal n) = int n" and "valid_date (date_of_ordinal n)"
proof -
  obtain d where d: "valid_date d" "toordinal d = int n" using ordinal_surj [of "n - 1"] assms by auto
  then have "date_of_ordinal n = d" using date_of_ordinal_toordinal(1) [OF d(1)] by simp
  then show "toordinal (date_of_ordinal n) = int n" "valid_date (date_of_ordinal n)" using d by simp_all
qed

text \<open>The order of dates is the order of their ordinals.\<close>

lemma year_start_mono: "x \<le> y \<Longrightarrow> year_start (int x) \<le> year_start (int y)"
  by (induction y rule: dec_induct) (simp_all add: year_start_Suc del: of_nat_Suc)

lemma toordinal_less:
  assumes "valid_date a" and "valid_date b" and "a < b"
  shows "toordinal a < toordinal b"
proof -
  obtain y m k where a: "a = Date (Suc y) m k" using assms(1) by (cases a; cases "year a") (simp_all add: valid_date_def)
  obtain y' m' k' where b: "b = Date (Suc y') m' k'" using assms(2) by (cases b; cases "year b") (simp_all add: valid_date_def)
  consider (year) "y < y'" | (month) "y = y'" "m < m'" | (day) "y = y'" "m = m'" "k < k'"
    using assms(3) by (auto simp: a b)
  then show ?thesis
  proof cases
    case year
    have "year_start (int y) + (if leap_year (Suc y) then 366 else 365) \<le> year_start (int y')"
      using year_start_mono [of "Suc y" y'] year year_start_Suc [of y] by simp
    then show ?thesis
      using month_split_year_day(3) [OF assms(1)] month_split_year_day(2) [OF assms(2)]
      by (simp add: toordinal_split a b split: if_splits)
  next
    case month
    then have "[1..<m'] = [1..<m] @ m # [Suc m..<m']"
      using assms(1) upt_add_eq_append [of 1 m "m' - m"] by (simp add: valid_date_def a upt_rec)
    then show ?thesis using month assms(1,2) by (simp add: toordinal_split year_day_def a b valid_date_def)
  next
    case day
    then show ?thesis by (simp add: toordinal_split year_day_def a b)
  qed
qed

lemma toordinal_less_iff: "valid_date a \<Longrightarrow> valid_date b \<Longrightarrow> toordinal a < toordinal b \<longleftrightarrow> a < b"
  by (metis linorder_neqE order_less_asym order_less_irrefl toordinal_less)

lemma date_of_ordinal_less: "1 \<le> m \<Longrightarrow> 1 \<le> n \<Longrightarrow> date_of_ordinal m < date_of_ordinal n \<longleftrightarrow> m < n"
  using toordinal_less_iff [OF toordinal_date_of_ordinal(2) toordinal_date_of_ordinal(2)]
  by (simp add: toordinal_date_of_ordinal)

end
