(* ===== verification/Calendar.thy ===== *)
theory Calendar
  imports Reference Gregorian
begin

text \<open>
  The exchange calendar (\<open>reference/calendar.py\<close>).

  A calendar snapshot lists one \<open>calendar_day\<close> for every date it covers; a trading day carries its session
  windows, in the order of the clock.  The operations look a date up, step to the next and the previous
  session, advance by a number of sessions, and place an entry and its expiry in one live window.
\<close>

section \<open>Session windows\<close>

datatype day_kind = REGULAR | SPECIAL | HOLIDAY | WEEKEND | UNSCHEDULED_CLOSURE

fun day_kind_name :: "day_kind \<Rightarrow> string" where
  "day_kind_name REGULAR = ''REGULAR''"
| "day_kind_name SPECIAL = ''SPECIAL''"
| "day_kind_name HOLIDAY = ''HOLIDAY''"
| "day_kind_name WEEKEND = ''WEEKEND''"
| "day_kind_name UNSCHEDULED_CLOSURE = ''UNSCHEDULED_CLOSURE''"

datatype window_phase = LIVE_CONTINUOUS | PRE_OPEN | CALL_AUCTION | CLOSING_AUCTION | MOCK_TEST

fun phase_name :: "window_phase \<Rightarrow> string" where
  "phase_name LIVE_CONTINUOUS = ''LIVE_CONTINUOUS''"
| "phase_name PRE_OPEN = ''PRE_OPEN''"
| "phase_name CALL_AUCTION = ''CALL_AUCTION''"
| "phase_name CLOSING_AUCTION = ''CLOSING_AUCTION''"
| "phase_name MOCK_TEST = ''MOCK_TEST''"

definition india_offset :: int where
  \<comment> \<open>five and a half hours, in microseconds\<close>
  "india_offset = 19800 * 1000000"

definition india_date :: "pydatetime \<Rightarrow> date" where
  \<comment> \<open>\<open>value.astimezone(INDIA_STANDARD_TIME).date()\<close>\<close>
  "india_date v = date_of_micros (utc_moment v + india_offset)"

definition require_offset :: "pydatetime \<Rightarrow> bool \<times> py_exc" where
  "require_offset v = (utc_offset v \<noteq> Some india_offset, ValueError ''must use the Asia/Kolkata offset'')"

definition require_ist_session_time :: "pydatetime \<Rightarrow> date \<Rightarrow> (bool \<times> py_exc) list" where
  "require_ist_session_time v d =
     [require_aware v, require_offset v,
      (india_date v \<noteq> d, ValueError ''must belong to the calendar day in India'')]"

record session_window =
  opens_at :: pydatetime
  closes_at :: pydatetime
  phase :: window_phase

definition calendar_err :: "string \<Rightarrow> py_exc" where
  "calendar_err msg = CalendarIntegrityError msg"

definition window_guards :: "session_window \<Rightarrow> (bool \<times> py_exc) list" where
  "window_guards w =
     [require_aware (opens_at w), require_aware (closes_at w), require_offset (opens_at w), require_offset (closes_at w),
      (india_date (opens_at w) \<noteq> india_date (closes_at w),
         calendar_err ''session window open and close must belong to the same India date''),
      (utc_moment (closes_at w) \<le> utc_moment (opens_at w), calendar_err ''session window must satisfy open < close'')]"

definition mk_window :: "session_window \<Rightarrow> session_window res" where
  "mk_window w = guards (window_guards w) (Inr w)"

definition executable :: "session_window \<Rightarrow> bool" where
  "executable w = (phase w = LIVE_CONTINUOUS)"

section \<open>Days\<close>

record calendar_day =
  cal_date :: date
  cal_kind :: day_kind
  cal_reference :: record_ref
  session_windows :: "session_window list"
  data_ready_at :: "pydatetime option"

definition is_session :: "calendar_day \<Rightarrow> bool" where
  "is_session c = (cal_kind c \<in> {REGULAR, SPECIAL})"

definition walk_window :: "date \<Rightarrow> session_window option \<Rightarrow> session_window \<Rightarrow> session_window option res" where
  \<comment> \<open>one pass of the loop over the windows; the state is the previous one\<close>
  "walk_window d before w = guards
     (require_ist_session_time (opens_at w) d @ require_ist_session_time (closes_at w) d
      @ [(case before of None \<Rightarrow> False | Some p \<Rightarrow> utc_moment (opens_at w) < utc_moment (closes_at p),
           calendar_err ''session windows must be sorted and non-overlapping'')])
     (Inr (Some w))"

definition ready_guards :: "calendar_day \<Rightarrow> (bool \<times> py_exc) list" where
  "ready_guards c = (case data_ready_at c of None \<Rightarrow> []
     | Some t \<Rightarrow> require_ist_session_time t (cal_date c)
         @ [(utc_moment t \<le> utc_moment (closes_at (last (session_windows c))),
              calendar_err ''data-ready time must be after the final session-window close'')])"

definition mk_day :: "calendar_day \<Rightarrow> calendar_day res" where
  "mk_day c = guards
     [(india_date (ref_event_time (cal_reference c)) \<noteq> cal_date c,
         calendar_err ''calendar reference event_time must belong to its exchange date'')]
     (if is_session c then guards
        [(session_windows c = [], calendar_err ''trading sessions require at least one window''),
         (\<not> list_ex executable (session_windows c),
            calendar_err ''trading sessions require an executable live-continuous window'')]
        (bindE (foldE (walk_window (cal_date c)) None (session_windows c)) (\<lambda>_. guards (ready_guards c) (Inr c)))
      else guards
        [(session_windows c \<noteq> [] \<or> data_ready_at c \<noteq> None,
            calendar_err ''closed calendar dates cannot carry session windows or a data-ready time'')]
        (Inr c))"

definition covers :: "session_window \<Rightarrow> bool \<Rightarrow> instant \<Rightarrow> bool" where
  "covers w include_close t = (utc_moment (opens_at w) \<le> t
     \<and> (if include_close then t \<le> utc_moment (closes_at w) else t < utc_moment (closes_at w)))"

definition session_window_containing ::
  "calendar_day \<Rightarrow> pydatetime \<Rightarrow> bool \<Rightarrow> bool \<Rightarrow> session_window option res" where
  "session_window_containing c v include_close executable_only = (if \<not> is_session c then Inr None
     else guards (require_ist_session_time v (cal_date c))
       (Inr (List.find (\<lambda>w. \<not> (executable_only \<and> \<not> executable w) \<and> covers w include_close (utc_moment v)) (session_windows c))))"

definition require_same_session_window :: "calendar_day \<Rightarrow> pydatetime \<Rightarrow> pydatetime \<Rightarrow> session_window res" where
  "require_same_session_window c entry expiry = guards
     ([(\<not> is_session c, NotTradingSessionError ''is not a trading session'')]
      @ require_ist_session_time entry (cal_date c) @ require_ist_session_time expiry (cal_date c)
      @ [(utc_moment expiry \<le> utc_moment entry, OutsideSessionWindowError ''entry_at must precede expiry_at'')])
     (bindE (session_window_containing c entry False True) (\<lambda>found. case found of
        Some w \<Rightarrow> if utc_moment expiry \<le> utc_moment (closes_at w) then Inr w
          else Inl (OutsideSessionWindowError ''entry and expiry must lie inside the same session window'')
      | None \<Rightarrow> Inl (OutsideSessionWindowError ''entry and expiry must lie inside the same session window'')))"

section \<open>Snapshots\<close>

record calendar =
  exchange :: string
  segment :: string
  cal_cutoff :: instant
  cal_start :: date
  cal_end :: date
  cal_days :: "calendar_day list"
  cal_sources :: "string list"
  cal_readiness :: readiness
  cal_schema :: string
  cal_id :: string
  cal_version :: string

definition calendar_schema_version :: string where
  "calendar_schema_version = ''reference-calendar/v4''"

definition window_val :: "session_window \<Rightarrow> pyval" where
  "window_val w = PDataclass ''india_swing.reference.calendar.SessionWindow''
     [(''opens_at'', PDatetime (utc_moment (opens_at w))), (''closes_at'', PDatetime (utc_moment (closes_at w))),
      (''phase'', PEnum ''india_swing.reference.calendar.SessionWindowPhase'' (PStr (phase_name (phase w))))]"

definition calendar_day_val :: "calendar_day \<Rightarrow> pyval" where
  "calendar_day_val c = PDataclass ''india_swing.reference.calendar.CalendarDay''
     [(''day'', PDate (cal_date c)),
      (''kind'', PEnum ''india_swing.reference.calendar.CalendarDayKind'' (PStr (day_kind_name (cal_kind c)))),
      (''reference'', record_ref_val (cal_reference c)),
      (''session_windows'', PTuple (map window_val (session_windows c))),
      (''data_ready_at'', popt (\<lambda>t. PDatetime (utc_moment t)) (data_ready_at c))]"

definition calendar_material :: "calendar \<Rightarrow> (string \<times> pyval) list" where
  "calendar_material k =
     [(''schema_version'', PStr (cal_schema k)),
      (''exchange'', PStr (exchange k)),
      (''segment'', PStr (segment k)),
      (''cutoff'', PDatetime (cal_cutoff k)),
      (''coverage_start'', PDate (cal_start k)),
      (''coverage_end'', PDate (cal_end k)),
      (''days'', PTuple (map calendar_day_val (cal_days k))),
      (''source_snapshot_ids'', PTuple (map PStr (cal_sources k))),
      (''readiness'', PEnum ''india_swing.reference.models.ReferenceReadiness''
         (PStr (readiness_name (cal_readiness k))))]"

definition days_between :: "date \<Rightarrow> date \<Rightarrow> int" where
  \<comment> \<open>\<open>(b - a).days\<close>\<close>
  "days_between a b = toordinal b - toordinal a"

definition add_days :: "date \<Rightarrow> nat \<Rightarrow> date" where
  \<comment> \<open>\<open>d + timedelta(days=n)\<close>\<close>
  "add_days d n = date_of_ordinal (nat (toordinal d) + n)"

definition head_guards :: "calendar \<Rightarrow> (bool \<times> py_exc) list" where
  \<comment> \<open>the checks before the cutoff is converted\<close>
  "head_guards k =
     [(blank (exchange k), ValueError ''calendar exchange is required''),
      (exchange k \<noteq> upper (strip (exchange k)), ValueError ''calendar exchange must be normalized uppercase text''),
      (blank (segment k), ValueError ''calendar segment is required''),
      (segment k \<noteq> upper (strip (segment k)), ValueError ''calendar segment must be normalized uppercase text'')]"

definition day_guards :: "calendar \<Rightarrow> nat \<times> calendar_day \<Rightarrow> (bool \<times> py_exc) list" where
  "day_guards k = (\<lambda>(i, c).
     [(cal_date c \<noteq> add_days (cal_start k) i,
         CalendarCoverageError ''calendar days must be unique, ordered, and contiguous''),
      (cal_cutoff k < utc_moment (ref_knowledge_time (cal_reference c)),
         calendar_err ''calendar contains a reference record known after its cutoff'')])"

definition coverage_guards :: "calendar \<Rightarrow> (bool \<times> py_exc) list" where
  "coverage_guards k =
     [(cal_end k < cal_start k, CalendarCoverageError ''calendar coverage_end precedes coverage_start''),
      (cal_readiness k = POINT_IN_TIME_VERIFIED,
         calendar_err ''point-in-time calendar verification is unavailable until the official artifact importer exists''),
      (cal_schema k \<noteq> calendar_schema_version, calendar_err ''unsupported calendar schema version''),
      (int (length (cal_days k)) \<noteq> days_between (cal_start k) (cal_end k) + 1,
         CalendarCoverageError ''calendar must contain one explicit CalendarDay for every covered date'')]
     @ concat (map (day_guards k) (enumerate 0 (cal_days k)))
     @ [(cal_sources k = [], calendar_err ''calendar source_snapshot_ids are required''),
        (\<not> sorted_unique (cal_sources k), calendar_err ''calendar source_snapshot_ids must be unique and sorted''),
        (cal_sources k \<noteq> sort (remdups (map (\<lambda>c. ref_snapshot (cal_reference c)) (cal_days k))),
           calendar_err ''calendar source_snapshot_ids do not match its day references'')]"

definition seal_calendar :: "calendar \<Rightarrow> calendar" where
  "seal_calendar k = (let i = fields_id (calendar_material k) in
     k\<lparr>cal_id := i, cal_version := cal_schema k @ ''@sha256:'' @ i\<rparr>)"

definition mk_calendar :: "calendar \<Rightarrow> pydatetime \<Rightarrow> calendar res" where
  \<comment> \<open>the constructor; the datetime argument is the cutoff as given\<close>
  "mk_calendar k0 cutoff = guards (head_guards k0 @ [require_aware cutoff])
     (let k = k0\<lparr>cal_cutoff := utc_moment cutoff\<rparr> in guards (coverage_guards k) (Inr (seal_calendar k)))"

definition verify_calendar :: "calendar \<Rightarrow> unit res" where
  "verify_calendar k = guards
     [(cal_id k \<noteq> fields_id (calendar_material k)
         \<or> cal_version k \<noteq> cal_schema k @ ''@sha256:'' @ fields_id (calendar_material k), calendar_err ''calendar content identity verification failed'')] (Inr ())"

section \<open>Lookups\<close>

definition lookup_day :: "calendar \<Rightarrow> date \<Rightarrow> calendar_day res" where
  \<comment> \<open>\<open>CalendarSnapshot.day\<close>\<close>
  "lookup_day k d = guards
     [(d < cal_start k \<or> cal_end k < d, CalendarCoverageError ''calendar lookup falls outside declared coverage'')]
     (Inr (cal_days k ! nat (days_between (cal_start k) d)))"

definition require_session :: "calendar \<Rightarrow> date \<Rightarrow> calendar_day res" where
  "require_session k d = bindE (lookup_day k d) (\<lambda>c.
     guards [(\<not> is_session c, NotTradingSessionError ''is not a trading session'')] (Inr c))"

definition first_session :: "calendar_day list \<Rightarrow> string \<Rightarrow> calendar_day res" where
  \<comment> \<open>the loop that returns the first trading day it meets\<close>
  "first_session cs msg = (case List.find is_session cs of None \<Rightarrow> Inl (CalendarCoverageError msg) | Some c \<Rightarrow> Inr c)"

definition next_session :: "calendar \<Rightarrow> date \<Rightarrow> calendar_day res" where
  "next_session k d = bindE (lookup_day k d) (\<lambda>_.
     first_session (drop (nat (days_between (cal_start k) d + 1)) (cal_days k))
       ''no next trading session exists within calendar coverage'')"

definition previous_session :: "calendar \<Rightarrow> date \<Rightarrow> calendar_day res" where
  "previous_session k d = bindE (lookup_day k d) (\<lambda>_.
     first_session (rev (take (nat (days_between (cal_start k) d)) (cal_days k)))
       ''no previous trading session exists within calendar coverage'')"

fun advance_from :: "calendar \<Rightarrow> calendar_day \<Rightarrow> nat \<Rightarrow> calendar_day res" where
  "advance_from k c 0 = Inr c"
| "advance_from k c (Suc n) = bindE (next_session k (cal_date c)) (\<lambda>c'. advance_from k c' n)"

definition advance_sessions :: "calendar \<Rightarrow> date \<Rightarrow> int \<Rightarrow> calendar_day res" where
  "advance_sessions k d n = guards [(n < 0, ValueError ''sessions must be a non-negative integer'')]
     (bindE (require_session k d) (\<lambda>c. advance_from k c (nat n)))"

section \<open>A built calendar\<close>

lemma enumerate_member: "(i, x) \<in> set (enumerate 0 xs) \<longleftrightarrow> i < length xs \<and> x = xs ! i"
  by (auto simp: in_set_enumerate_eq)

definition built_calendar :: "calendar \<Rightarrow> bool" where
  \<comment> \<open>a snapshot its constructor returned, over dates Python can construct\<close>
  "built_calendar k = (valid_date (cal_start k) \<and> valid_date (cal_end k) \<and> (\<forall>g \<in> set (coverage_guards k). \<not> fst g))"

lemma mk_calendar_built:
  assumes "mk_calendar k0 t = Inr k" and "valid_date (cal_start k0)" and "valid_date (cal_end k0)"
  shows "built_calendar k" and "verify_calendar k = Inr ()"
proof -
  let ?k = "k0\<lparr>cal_cutoff := utc_moment t\<rparr>"
  have k: "k = seal_calendar ?k" and g: "\<forall>g \<in> set (coverage_guards ?k). \<not> fst g"
    using assms(1) by (auto simp: mk_calendar_def guards_Inr_iff Let_def)
  have "coverage_guards k = coverage_guards ?k"
    by (simp add: k seal_calendar_def Let_def coverage_guards_def day_guards_def)
  then show "built_calendar k" using g assms(2,3) by (simp add: built_calendar_def k seal_calendar_def Let_def)
  have "calendar_material k = calendar_material ?k" by (simp add: k seal_calendar_def Let_def calendar_material_def)
  then show "verify_calendar k = Inr ()" by (simp add: verify_calendar_def k seal_calendar_def Let_def)
qed

lemma built_days:
  assumes "built_calendar k"
  shows "cal_start k \<le> cal_end k"
    and "int (length (cal_days k)) = days_between (cal_start k) (cal_end k) + 1"
    and "i < length (cal_days k) \<Longrightarrow> cal_date (cal_days k ! i) = add_days (cal_start k) i"
proof -
  have "\<forall>p \<in> set (enumerate 0 (cal_days k)). \<forall>g \<in> set (day_guards k p). \<not> fst g"
    using assms unfolding built_calendar_def coverage_guards_def set_append set_concat set_map by blast
  then have *: "\<forall>(i, c) \<in> set (enumerate 0 (cal_days k)). cal_date c = add_days (cal_start k) i"
    by (fastforce simp: day_guards_def)
  show "cal_start k \<le> cal_end k" "int (length (cal_days k)) = days_between (cal_start k) (cal_end k) + 1"
    using assms by (auto simp: built_calendar_def coverage_guards_def)
  show "cal_date (cal_days k ! i) = add_days (cal_start k) i" if "i < length (cal_days k)"
    using * that by (auto simp: enumerate_member)
qed

definition by_date :: "calendar_day list \<Rightarrow> bool" where
  "by_date cs = sorted_wrt (\<lambda>a b. cal_date a < cal_date b) cs"

lemma built_by_date:
  assumes "built_calendar k"
  shows "by_date (cal_days k)"
proof -
  have "1 \<le> toordinal (cal_start k)"
    using assms by (intro date_of_ordinal_toordinal) (simp add: built_calendar_def)
  then show ?thesis
    by (auto simp: by_date_def sorted_wrt_iff_nth_less built_days [OF assms] add_days_def intro!: date_of_ordinal_less [THEN iffD2])
qed

lemma lookup_found:
  assumes "built_calendar k" and "valid_date d" and "cal_start k \<le> d" and "d \<le> cal_end k"
  defines "i \<equiv> nat (days_between (cal_start k) d)"
  shows "i < length (cal_days k)" and "cal_date (cal_days k ! i) = d" and "lookup_day k d = Inr (cal_days k ! i)"
    and "0 \<le> days_between (cal_start k) d"
proof -
  have v: "valid_date (cal_start k)" "valid_date (cal_end k)" using assms(1) by (simp_all add: built_calendar_def)
  have le: "toordinal (cal_start k) \<le> toordinal d" "toordinal d \<le> toordinal (cal_end k)"
    using assms(3,4) toordinal_less_iff v assms(2) by (metis leD leI)+
  show "0 \<le> days_between (cal_start k) d" using le by (simp add: days_between_def)
  show i: "i < length (cal_days k)" using built_days(2) [OF assms(1)] le by (simp add: i_def days_between_def)
  have "nat (toordinal (cal_start k)) + i = nat (toordinal d)"
    using le date_of_ordinal_toordinal(2) [OF v(1)] by (simp add: i_def days_between_def)
  then show "cal_date (cal_days k ! i) = d"
    by (simp add: built_days(3) [OF assms(1) i] add_days_def date_of_ordinal_toordinal(1) [OF assms(2)])
  show "lookup_day k d = Inr (cal_days k ! i)" using assms(3,4) by (simp add: lookup_day_def i_def not_less)
qed

lemma by_date_split:
  assumes "by_date cs" and "i < length cs"
  shows "drop (Suc i) cs = filter (\<lambda>c. cal_date (cs ! i) < cal_date c) cs"
    and "take i cs = filter (\<lambda>c. cal_date c < cal_date (cs ! i)) cs"
proof -
  let ?c = "cs ! i"
  have cs: "cs = take i cs @ ?c # drop (Suc i) cs" using assms(2) by (simp add: id_take_nth_drop)
  have "by_date (take i cs @ ?c # drop (Suc i) cs)" using assms(1) cs by simp
  then have a: "\<forall>c \<in> set (take i cs). cal_date c < cal_date ?c" "\<forall>c \<in> set (drop (Suc i) cs). cal_date ?c < cal_date c"
    by (auto simp: by_date_def sorted_wrt_append)
  have e: "filter P cs = filter P (take i cs) @ (if P ?c then [?c] else []) @ filter P (drop (Suc i) cs)" for P
    by (subst cs) simp
  show "drop (Suc i) cs = filter (\<lambda>c. cal_date ?c < cal_date c) cs"
    unfolding e using a by (auto simp: filter_empty_conv filter_id_conv dest: less_asym)
  show "take i cs = filter (\<lambda>c. cal_date c < cal_date ?c) cs"
    unfolding e using a by (auto simp: filter_empty_conv filter_id_conv dest: less_asym)
qed

definition later_sessions :: "calendar \<Rightarrow> date \<Rightarrow> calendar_day list" where
  "later_sessions k d = filter (\<lambda>c. is_session c \<and> d < cal_date c) (cal_days k)"

definition earlier_sessions :: "calendar \<Rightarrow> date \<Rightarrow> calendar_day list" where
  "earlier_sessions k d = filter (\<lambda>c. is_session c \<and> cal_date c < d) (cal_days k)"

lemma find_filter: "List.find P xs = (case filter P xs of [] \<Rightarrow> None | x # _ \<Rightarrow> Some x)"
  by (induction xs) auto

lemma find_rev_filter: "List.find P (rev xs) = (if filter P xs = [] then None else Some (last (filter P xs)))"
  by (cases "filter P xs" rule: rev_cases) (simp_all add: find_filter flip: rev_filter)

definition no_next :: py_exc where
  "no_next = CalendarCoverageError ''no next trading session exists within calendar coverage''"

definition no_previous :: py_exc where
  "no_previous = CalendarCoverageError ''no previous trading session exists within calendar coverage''"

lemma next_session_eq:
  assumes "built_calendar k" and "valid_date d" and "cal_start k \<le> d" and "d \<le> cal_end k"
  shows "next_session k d = (case later_sessions k d of [] \<Rightarrow> Inl no_next | c # _ \<Rightarrow> Inr c)"
proof -
  note l = lookup_found [OF assms]
  have "nat (days_between (cal_start k) d + 1) = Suc (nat (days_between (cal_start k) d))" using l(4) by simp
  then have "drop (nat (days_between (cal_start k) d + 1)) (cal_days k) = filter (\<lambda>c. d < cal_date c) (cal_days k)"
    using by_date_split(1) [OF built_by_date [OF assms(1)] l(1)] by (simp add: l(2))
  then show ?thesis
    by (simp add: next_session_def l(3) first_session_def find_filter later_sessions_def conj_commute no_next_def
        split: list.splits)
qed

lemma previous_session_eq:
  assumes "built_calendar k" and "valid_date d" and "cal_start k \<le> d" and "d \<le> cal_end k"
  shows "previous_session k d =
    (if earlier_sessions k d = [] then Inl no_previous else Inr (last (earlier_sessions k d)))"
proof -
  note l = lookup_found [OF assms]
  have "take (nat (days_between (cal_start k) d)) (cal_days k) = filter (\<lambda>c. cal_date c < d) (cal_days k)"
    using by_date_split(2) [OF built_by_date [OF assms(1)] l(1)] by (simp add: l(2))
  then show ?thesis
    by (simp add: previous_session_def l(3) first_session_def find_rev_filter earlier_sessions_def conj_commute no_previous_def)
qed

lemma calendar_member:
  assumes "built_calendar k" and "c \<in> set (cal_days k)"
  shows "valid_date (cal_date c)" and "cal_start k \<le> cal_date c" and "cal_date c \<le> cal_end k"
proof -
  obtain i where i: "i < length (cal_days k)" "c = cal_days k ! i" using assms(2) by (auto simp: in_set_conv_nth)
  have v: "valid_date (cal_start k)" "valid_date (cal_end k)" using assms(1) by (simp_all add: built_calendar_def)
  note s = date_of_ordinal_toordinal [OF v(1)] and e = date_of_ordinal_toordinal [OF v(2)]
  have d: "cal_date c = date_of_ordinal (nat (toordinal (cal_start k)) + i)"
    using built_days(3) [OF assms(1) i(1)] by (simp add: i(2) add_days_def)
  show "valid_date (cal_date c)" using s(2) by (simp add: d toordinal_date_of_ordinal)
  have "\<not> cal_date c < date_of_ordinal (nat (toordinal (cal_start k)))"
    using s(2) by (simp add: d date_of_ordinal_less)
  then show "cal_start k \<le> cal_date c" by (simp add: s(1))
  have "\<not> date_of_ordinal (nat (toordinal (cal_end k))) < cal_date c"
    using s(2) e(2) i(1) built_days(2) [OF assms(1)] by (simp add: d date_of_ordinal_less days_between_def)
  then show "cal_date c \<le> cal_end k" by (simp add: e(1))
qed

definition session_days :: "calendar \<Rightarrow> calendar_day list" where
  "session_days k = filter is_session (cal_days k)"

lemma session_list:
  assumes "built_calendar k" and "i < length (session_days k)"
  shows "later_sessions k (cal_date (session_days k ! i)) = drop (Suc i) (session_days k)"
    and "earlier_sessions k (cal_date (session_days k ! i)) = take i (session_days k)"
    and "session_days k ! i \<in> set (cal_days k)"
proof -
  have "by_date (session_days k)"
    using built_by_date [OF assms(1)] by (simp add: by_date_def session_days_def sorted_wrt_filter)
  note p = by_date_split [OF this assms(2)]
  show "later_sessions k (cal_date (session_days k ! i)) = drop (Suc i) (session_days k)"
    "earlier_sessions k (cal_date (session_days k ! i)) = take i (session_days k)"
    by (simp_all add: p later_sessions_def earlier_sessions_def)
      (simp_all add: session_days_def conj_commute)
  show "session_days k ! i \<in> set (cal_days k)" using nth_mem [OF assms(2)] by (simp add: session_days_def)
qed

lemma session_steps:
  assumes "built_calendar k" and "i < length (session_days k)"
  defines "d \<equiv> cal_date (session_days k ! i)"
  shows "next_session k d = (if Suc i < length (session_days k) then Inr (session_days k ! Suc i) else Inl no_next)"
    and "previous_session k d = (if 0 < i then Inr (session_days k ! (i - 1)) else Inl no_previous)"
proof -
  note l = session_list [OF assms(1,2)]
  note m = calendar_member [OF assms(1) l(3)]
  show "next_session k d = (if Suc i < length (session_days k) then Inr (session_days k ! Suc i) else Inl no_next)"
    unfolding d_def next_session_eq [OF assms(1) m] l(1) by (simp add: Cons_nth_drop_Suc [symmetric])
  show "previous_session k d = (if 0 < i then Inr (session_days k ! (i - 1)) else Inl no_previous)"
    unfolding d_def previous_session_eq [OF assms(1) m] l(2) using assms(2)
    by (cases i) (simp_all add: take_Suc_conv_app_nth)
qed

lemma session_nth:
  assumes "c \<in> set (cal_days k)" and "is_session c"
  obtains i where "i < length (session_days k)" and "session_days k ! i = c"
  using assms by (metis (no_types, lifting) filter_set in_set_conv_nth mem_Collect_eq session_days_def set_filter)

lemma session_index:
  assumes "built_calendar k" and "i < length (session_days k)" and "j < length (session_days k)"
    and "cal_date (session_days k ! i) = cal_date (session_days k ! j)"
  shows "i = j"
proof -
  have "by_date (session_days k)"
    using built_by_date [OF assms(1)] by (simp add: by_date_def session_days_def sorted_wrt_filter)
  then show ?thesis using assms(2-4)
    by (metis by_date_def linorder_neqE_nat order_less_irrefl sorted_wrt_nth_less)
qed

lemma advance_index:
  assumes "built_calendar k"
  shows "i < length (session_days k) \<Longrightarrow> advance_from k (session_days k ! i) n =
    (if i + n < length (session_days k) then Inr (session_days k ! (i + n)) else Inl no_next)"
  by (induction n arbitrary: i) (simp_all add: session_steps [OF assms])

lemma drop_sorted_from:
  assumes "built_calendar k" and "i < length (session_days k)"
  shows "filter (\<lambda>c. cal_date (session_days k ! i) \<le> cal_date c) (session_days k) = drop i (session_days k)"
proof -
  let ?S = "session_days k"
  have s: "by_date ?S"
    using built_by_date [OF assms(1)] by (simp add: by_date_def session_days_def sorted_wrt_filter)
  have S: "?S = take i ?S @ drop i ?S" by simp
  have "\<forall>c \<in> set (take i ?S). cal_date c < cal_date (?S ! i)"
    unfolding by_date_split(2) [OF s assms(2)] by simp
  then have a: "filter (\<lambda>c. cal_date (?S ! i) \<le> cal_date c) (take i ?S) = []"
    by (auto simp: filter_empty_conv)
  have "\<forall>c \<in> set (drop (Suc i) ?S). cal_date (?S ! i) < cal_date c"
    unfolding by_date_split(1) [OF s assms(2)] by simp
  then have b: "filter (\<lambda>c. cal_date (?S ! i) \<le> cal_date c) (drop i ?S) = drop i ?S"
    using assms(2) by (auto simp: Cons_nth_drop_Suc [symmetric] filter_id_conv)
  show ?thesis by (subst S) (simp only: filter_append a b append_Nil)
qed

section \<open>Stepping through the sessions\<close>

text \<open>C23: Let a calendar be built over valid coverage dates. Advancing from a date by \<open>n\<close> sessions raises on a negative
\<open>n\<close>, outside the coverage and on a date without trading; otherwise it returns the \<open>n\<close>-th trading day after the date
(the date's own for \<open>n = 0\<close>), and the coverage error exactly when the calendar has fewer.\<close>

theorem sessions_advance:
  assumes "mk_calendar k0 t = Inr k" and "valid_date (cal_start k0)" and "valid_date (cal_end k0)" and "valid_date d"
  defines "from_d \<equiv> filter (\<lambda>c. is_session c \<and> d \<le> cal_date c) (cal_days k)"
  shows "advance_sessions k d n =
    (if n < 0 then Inl (ValueError ''sessions must be a non-negative integer'')
     else if d < cal_start k \<or> cal_end k < d
       then Inl (CalendarCoverageError ''calendar lookup falls outside declared coverage'')
     else if \<forall>c \<in> set (cal_days k). is_session c \<longrightarrow> cal_date c \<noteq> d
       then Inl (NotTradingSessionError ''is not a trading session'')
     else if int (length from_d) \<le> n
       then Inl (CalendarCoverageError ''no next trading session exists within calendar coverage'')
     else Inr (from_d ! nat n))"
proof (cases "n < 0 \<or> d < cal_start k \<or> cal_end k < d")
  case True
  then show ?thesis by (auto simp: advance_sessions_def require_session_def lookup_day_def)
next
  case False
  note b = mk_calendar_built(1) [OF assms(1-3)]
  define i0 where "i0 = nat (days_between (cal_start k) d)"
  have l: "i0 < length (cal_days k)" "cal_date (cal_days k ! i0) = d" "lookup_day k d = Inr (cal_days k ! i0)"
    using lookup_found [OF b assms(4)] False by (auto simp: i0_def not_less)
  show ?thesis
  proof (cases "is_session (cal_days k ! i0)")
    case no: False
    have "\<not> is_session c" if "c \<in> set (cal_days k)" "cal_date c = d" for c
    proof -
      obtain j where j: "j < length (cal_days k)" "c = cal_days k ! j" using \<open>c \<in> _\<close> by (auto simp: in_set_conv_nth)
      have "j = i0" using built_by_date [OF b] j l(1,2) that(2)
        by (metis by_date_def linorder_neqE_nat order_less_irrefl sorted_wrt_nth_less)
      then show ?thesis using no j by simp
    qed
    then show ?thesis using False no by (auto simp: advance_sessions_def require_session_def l(3))
  next
    case True
    then obtain i where i: "i < length (session_days k)" "session_days k ! i = cal_days k ! i0"
      using session_nth [OF nth_mem [OF l(1)] True] by blast
    have f: "from_d = drop i (session_days k)"
      using drop_sorted_from [OF b i(1)] unfolding i(2) l(2)
      by (simp add: from_d_def session_days_def conj_commute)
    have e: "\<exists>c \<in> set (cal_days k). is_session c \<and> cal_date c = d"
      using True l(1,2) nth_mem by blast
    have "advance_sessions k d n = advance_from k (session_days k ! i) (nat n)"
      using False True by (simp add: advance_sessions_def require_session_def l(3) i(2))
    then show ?thesis using False e advance_index [OF b i(1), of "nat n"] i(1)
      by (auto simp: f no_next_def)
  qed
qed

text \<open>C24: In a calendar built over valid coverage dates the next session of a session is the trading day after it with
none between, and the two lookups are inverse to each other: \<open>b\<close> is the next session of \<open>a\<close> exactly when \<open>a\<close> is the
previous session of \<open>b\<close>.\<close>

theorem next_previous_inverse:
  assumes "mk_calendar k0 t = Inr k" and "valid_date (cal_start k0)" and "valid_date (cal_end k0)"
    and "a \<in> set (cal_days k)" and "is_session a" and "b \<in> set (cal_days k)" and "is_session b"
  shows "(next_session k (cal_date a) = Inr b \<longleftrightarrow> previous_session k (cal_date b) = Inr a)
    \<and> (next_session k (cal_date a) = Inr b \<longleftrightarrow> cal_date a < cal_date b
        \<and> \<not> (\<exists>c \<in> set (cal_days k). is_session c \<and> cal_date a < cal_date c \<and> cal_date c < cal_date b))"
proof -
  note bk = mk_calendar_built(1) [OF assms(1-3)]
  let ?S = "session_days k"
  obtain i j where i: "i < length ?S" "a = ?S ! i" and j: "j < length ?S" "b = ?S ! j"
    using session_nth [OF assms(4,5)] session_nth [OF assms(6,7)] by metis
  have inj: "?S ! m = ?S ! n \<longleftrightarrow> m = n" if "m < length ?S" "n < length ?S" for m n
    using session_index [OF bk that] by metis
  have s: "by_date ?S" using built_by_date [OF bk] by (simp add: by_date_def session_days_def sorted_wrt_filter)
  have less: "cal_date (?S ! m) < cal_date (?S ! n) \<longleftrightarrow> m < n" if "m < length ?S" "n < length ?S" for m n
    using s that by (metis by_date_def linorder_neqE_nat order_less_asym order_less_irrefl sorted_wrt_nth_less)
  have n: "next_session k (cal_date a) = Inr b \<longleftrightarrow> j = Suc i"
    using session_steps(1) [OF bk i(1)] inj j by (auto simp: i(2))
  have p: "previous_session k (cal_date b) = Inr a \<longleftrightarrow> j = Suc i"
    using session_steps(2) [OF bk j(1)] inj [of "j - 1" i] i j by (auto simp: j(2))
  have between: "(\<exists>c \<in> set (cal_days k). is_session c \<and> cal_date a < cal_date c \<and> cal_date c < cal_date b)
    \<longleftrightarrow> (\<exists>m. i < m \<and> m < j)" (is "?l = ?r")
  proof
    assume ?l
    then obtain m where "m < length ?S" "cal_date a < cal_date (?S ! m)" "cal_date (?S ! m) < cal_date b"
      using session_nth by metis
    then show ?r using less i j by blast
  next
    assume ?r
    then obtain m where m: "i < m" "m < j" by blast
    then have "?S ! m \<in> set ?S" using j(1) by simp
    then show ?l using m less i j by (intro bexI [of _ "?S ! m"]) (auto simp: session_days_def)
  qed
  show ?thesis unfolding n p between using less i j by auto
qed

section \<open>One live window\<close>

lemma walk_windows:
  assumes "foldE (walk_window d) before ws = Inr q" and "\<forall>w \<in> set ws. utc_moment (opens_at w) < utc_moment (closes_at w)"
  shows "sorted_wrt (\<lambda>v w. utc_moment (closes_at v) \<le> utc_moment (opens_at w)) ws
    \<and> (\<forall>p w. before = Some p \<longrightarrow> w \<in> set ws \<longrightarrow> utc_moment (closes_at p) \<le> utc_moment (opens_at w))"
  using assms
proof (induction ws arbitrary: before)
  case (Cons w ws)
  obtain u where u: "walk_window d before w = Inr u" "foldE (walk_window d) u ws = Inr q"
    using Cons.prems(1) by (auto simp: res_simps)
  then have "u = Some w" and before: "\<forall>p. before = Some p \<longrightarrow> utc_moment (closes_at p) \<le> utc_moment (opens_at w)"
    by (auto simp: walk_window_def guards_Inr_iff)
  note step = u(2) [unfolded this(1)] before
  have "\<forall>v \<in> set ws. utc_moment (closes_at w) \<le> utc_moment (opens_at v)" "sorted_wrt (\<lambda>v w. utc_moment (closes_at v) \<le> utc_moment (opens_at w)) ws"
    using Cons.IH [OF step(1)] Cons.prems(2) by auto
  then show ?case using step(2) Cons.prems(2) by fastforce
qed simp

definition on_day :: "pydatetime \<Rightarrow> date \<Rightarrow> bool" where
  \<comment> \<open>an aware datetime with the Indian offset that belongs to the day\<close>
  "on_day v d = (utc_offset v = Some india_offset \<and> india_date v = d)"

lemma ist_guards: "(\<forall>g \<in> set (require_ist_session_time v d). \<not> fst g) \<longleftrightarrow> on_day v d"
  by (auto simp: require_ist_session_time_def require_aware_def require_offset_def on_day_def)

abbreviation holds_entry :: "pydatetime \<Rightarrow> session_window \<Rightarrow> bool" where
  "holds_entry entry w \<equiv> \<not> (True \<and> \<not> executable w) \<and> covers w False (utc_moment entry)"

lemma window_unique:
  assumes "mk_day c0 = Inr c" and w: "\<forall>w \<in> set (session_windows c). utc_moment (opens_at w) < utc_moment (closes_at w)"
    and "is_session c" "w \<in> set (session_windows c)" "holds_entry entry w" "v \<in> set (session_windows c)" "holds_entry entry v"
  shows "v = w"
proof -
  have c: "c = c0" using assms(1) by (auto simp: mk_day_def guards_Inr_iff res_simps split: if_splits)
  then have "is_session c0" using assms(3) by simp
  then obtain q where "foldE (walk_window (cal_date c)) None (session_windows c) = Inr q"
    using assms(1) unfolding c mk_day_def guards_Inr_iff by (auto simp: guards_Inr_iff res_simps)
  then have s: "sorted_wrt (\<lambda>v w. utc_moment (closes_at v) \<le> utc_moment (opens_at w)) (session_windows c)"
    using walk_windows w by blast
  obtain i j where "i < length (session_windows c)" "w = session_windows c ! i"
    "j < length (session_windows c)" "v = session_windows c ! j" using assms(4,6) by (metis in_set_conv_nth)
  with s show ?thesis using assms(5,7)
    by (cases i j rule: linorder_cases) (auto simp: covers_def dest: sorted_wrt_nth_less)
qed

lemma window_found:
  "require_same_session_window c entry expiry = Inr w \<longleftrightarrow> is_session c \<and> on_day entry (cal_date c)
    \<and> on_day expiry (cal_date c) \<and> utc_moment entry < utc_moment expiry
    \<and> List.find (holds_entry entry) (session_windows c) = Some w \<and> utc_moment expiry \<le> utc_moment (closes_at w)"
    (is "?l \<longleftrightarrow> _")
proof (cases "is_session c \<and> on_day entry (cal_date c) \<and> on_day expiry (cal_date c) \<and> utc_moment entry < utc_moment expiry")
  case True
  let ?found = "List.find (holds_entry entry) (session_windows c)"
  have "session_window_containing c entry False True = guards (require_ist_session_time entry (cal_date c)) (Inr ?found)"
    using True by (simp add: session_window_containing_def)
  also have "\<dots> = Inr ?found" using True ist_guards by (simp only: guards_Inr_iff simp_thms)
  finally have x: "session_window_containing c entry False True = Inr ?found" .
  have "require_same_session_window c entry expiry = (case ?found of
      Some w \<Rightarrow> if utc_moment expiry \<le> utc_moment (closes_at w) then Inr w
        else Inl (OutsideSessionWindowError ''entry and expiry must lie inside the same session window'')
    | None \<Rightarrow> Inl (OutsideSessionWindowError ''entry and expiry must lie inside the same session window''))"
    unfolding require_same_session_window_def x bindE_Inr
    by (rule guards_pass) (use True ist_guards in \<open>simp only: ball_Un set_append; simp\<close>)
  then show ?thesis using True by (auto split: option.splits)
next
  case False
  have "\<not> ?l" unfolding require_same_session_window_def guards_Inr_iff set_append ball_Un ist_guards
    using False by auto
  then show ?thesis using False by blast
qed

text \<open>C25: On a checked calendar day of checked windows an entry and its expiry are placed in a window exactly when the
day trades, both times belong to it, and the window is a live one that opens at or before the entry and closes at or
after the later expiry; in every other case the call raises.\<close>

theorem same_window_exact:
  assumes "mk_day c0 = Inr c" and "\<forall>w \<in> set (session_windows c0). mk_window w = Inr w"
  shows "require_same_session_window c entry expiry = Inr w \<longleftrightarrow>
    is_session c \<and> on_day entry (cal_date c) \<and> on_day expiry (cal_date c) \<and> w \<in> set (session_windows c)
    \<and> phase w = LIVE_CONTINUOUS \<and> utc_moment (opens_at w) \<le> utc_moment entry \<and> utc_moment entry < utc_moment expiry
    \<and> utc_moment expiry \<le> utc_moment (closes_at w)"
    (is "?l = ?r")
proof
  assume ?l
  then have f: "is_session c \<and> on_day entry (cal_date c) \<and> on_day expiry (cal_date c) \<and> utc_moment entry < utc_moment expiry
    \<and> List.find (holds_entry entry) (session_windows c) = Some w \<and> utc_moment expiry \<le> utc_moment (closes_at w)"
    unfolding window_found .
  then have "w \<in> set (session_windows c) \<and> holds_entry entry w" by (metis (no_types, lifting) find_Some_iff nth_mem)
  then show ?r using f by (auto simp: executable_def covers_def)
next
  assume r: ?r
  have c: "c = c0" using assms(1) by (auto simp: mk_day_def guards_Inr_iff res_simps split: if_splits)
  have w: "\<forall>w \<in> set (session_windows c). utc_moment (opens_at w) < utc_moment (closes_at w)"
    using assms(2) by (auto simp: c mk_window_def guards_Inr_iff window_guards_def)
  have "holds_entry entry w" using r by (auto simp: executable_def covers_def)
  then have "List.find (holds_entry entry) (session_windows c) = Some w"
    using r window_unique [OF assms(1) w] by (intro find_unique) auto
  then show ?l using r unfolding window_found by simp
qed

section \<open>A weekend\<close>

text \<open>Friday 2026-03-06 to Monday 2026-03-09, with one live window on each of the two trading days.\<close>

definition india_time :: "date \<Rightarrow> int \<Rightarrow> int \<Rightarrow> pydatetime" where
  "india_time d h m = PyDatetime ((toordinal d - 1) * day_micros + (h * 3600 + m * 60) * 1000000) (Some india_offset)"

lemma india_date_time:
  assumes "valid_date d" and "0 \<le> h * 3600 + m * 60" and "h * 3600 + m * 60 < 86400"
  shows "india_date (india_time d h m) = d"
proof -
  have "0 \<le> toordinal d - 1" using date_of_ordinal_toordinal(2) [OF assms(1)] by simp
  moreover have "((toordinal d - 1) * day_micros + (h * 3600 + m * 60) * 1000000) div day_micros = toordinal d - 1"
    using assms(2,3) by (simp add: day_micros_def)
  ultimately show ?thesis using date_of_ordinal_toordinal(1) [OF assms(1)]
    by (simp add: india_date_def utc_moment_def india_time_def date_of_micros_def Suc_nat_eq_nat_zadd1 flip: Suc_eq_plus1)
qed

definition demo_window :: "date \<Rightarrow> session_window" where
  "demo_window d = \<lparr>opens_at = india_time d 9 15, closes_at = india_time d 15 30, phase = LIVE_CONTINUOUS\<rparr>"

definition demo_day :: "nat \<Rightarrow> calendar_day" where
  "demo_day n = (let d = Date 2026 3 n; open_day = n \<in> {6, 9} in
     \<lparr>cal_date = d, cal_kind = (if open_day then REGULAR else WEEKEND),
      cal_reference = \<lparr>ref_event_time = india_time d 0 0, ref_knowledge_time = india_time (Date 2026 1 1) 0 0,
        ref_source = ''NSE'', ref_content_hash = replicate 64 (CHR ''a''), ref_snapshot = replicate 64 (CHR ''b'')\<rparr>,
      session_windows = (if open_day then [demo_window d] else []), data_ready_at = None\<rparr>)"

definition demo_calendar :: calendar where
  "demo_calendar = \<lparr>exchange = ''NSE'', segment = ''CM'', cal_cutoff = 0, cal_start = Date 2026 3 6, cal_end = Date 2026 3 9,
     cal_days = map demo_day [6, 7, 8, 9], cal_sources = [replicate 64 (CHR ''b'')], cal_readiness = SYNTHETIC_TEST,
     cal_schema = calendar_schema_version, cal_id = [], cal_version = []\<rparr>"

lemma demo_valid: "n \<in> {6, 7, 8, 9} \<Longrightarrow> valid_date (Date 2026 3 n)"
  by (auto simp: valid_date_def days_in_month_def)

lemma demo_ordinal: "n \<in> {6, 7, 8, 9} \<Longrightarrow> toordinal (Date 2026 3 n) = 739675 + int n"
  by (auto simp: toordinal_def upt_rec days_in_month_def leap_year_def)

lemma demo_add_days: "n \<in> {0, 1, 2, 3} \<Longrightarrow> add_days (Date 2026 3 6) n = Date 2026 3 (6 + n)"
  using demo_valid [of "6 + n"] demo_ordinal [of "6 + n"] demo_ordinal [of 6] date_of_ordinal_toordinal(1) [of "Date 2026 3 (6 + n)"]
  by (auto simp: add_days_def nat_add_distrib)

lemma demo_known: "utc_moment (india_time (Date 2026 1 1) 0 0) < utc_moment (india_time (Date 2026 3 6) 0 0)"
  by (simp add: utc_moment_def india_time_def toordinal_def upt_rec days_in_month_def leap_year_def day_micros_def)

lemma demo_calendar_built: "mk_calendar demo_calendar (india_time (Date 2026 3 6) 0 0) = Inr (seal_calendar
    (demo_calendar\<lparr>cal_cutoff := utc_moment (india_time (Date 2026 3 6) 0 0)\<rparr>))"
proof -
  let ?k = "demo_calendar\<lparr>cal_cutoff := utc_moment (india_time (Date 2026 3 6) 0 0)\<rparr>"
  have h: "\<forall>g \<in> set (head_guards demo_calendar @ [require_aware (india_time (Date 2026 3 6) 0 0)]). \<not> fst g"
    by (simp add: head_guards_def require_aware_def demo_calendar_def india_time_def) code_simp
  have days: "enumerate 0 (cal_days ?k) = [(0, demo_day 6), (1, demo_day 7), (2, demo_day 8), (3, demo_day 9)]"
    by (simp add: demo_calendar_def)
  have src: "map (\<lambda>c. ref_snapshot (cal_reference c)) (cal_days ?k) = replicate 4 (replicate 64 (CHR ''b''))"
    by (simp add: demo_calendar_def demo_day_def Let_def)
  have one: "sort (remdups (replicate 4 x)) = [x]" for x :: string by simp
  have dates: "cal_date (demo_day n) = Date 2026 3 n" "ref_knowledge_time (cal_reference (demo_day n)) = india_time (Date 2026 1 1) 0 0" for n
    by (simp_all add: demo_day_def Let_def)
  have "\<forall>g \<in> set (coverage_guards ?k). \<not> fst g"
    unfolding coverage_guards_def days src one
    using demo_add_days [of 0] demo_add_days [of 1] demo_add_days [of 2] demo_add_days [of 3] demo_known
      demo_ordinal [of 6] demo_ordinal [of 9]
    by (simp add: day_guards_def dates demo_calendar_def days_between_def del: replicate_numeral)
  then show ?thesis by (simp only: mk_calendar_def guards_pass [OF h] Let_def guards_pass)
qed

lemma demo_session: "is_session (demo_day n) \<longleftrightarrow> n \<in> {6, 9}"
  by (simp add: demo_day_def Let_def is_session_def)

definition demo_snapshot :: calendar where
  "demo_snapshot = seal_calendar (demo_calendar\<lparr>cal_cutoff := utc_moment (india_time (Date 2026 3 6) 0 0)\<rparr>)"

lemma demo_snapshot_days: "cal_days demo_snapshot = [demo_day 6, demo_day 7, demo_day 8, demo_day 9]"
    "cal_start demo_snapshot = Date 2026 3 6" "cal_end demo_snapshot = Date 2026 3 9"
  by (simp_all add: demo_snapshot_def seal_calendar_def Let_def demo_calendar_def)

lemma demo_dates: "cal_date (demo_day n) = Date 2026 3 n"
  by (simp add: demo_day_def Let_def)

lemma demo_coverage: "valid_date (cal_start demo_calendar)" "valid_date (cal_end demo_calendar)"
  using demo_valid [of 6] demo_valid [of 9] by (simp_all add: demo_calendar_def)

lemmas demo_simps = demo_snapshot_days demo_dates demo_session

theorem sessions_advance_witness:
  "advance_sessions demo_snapshot (Date 2026 3 6) 1 = Inr (demo_day 9)
    \<and> advance_sessions demo_snapshot (Date 2026 3 6) 2
      = Inl (CalendarCoverageError ''no next trading session exists within calendar coverage'')
    \<and> advance_sessions demo_snapshot (Date 2026 3 7) 0 = Inl (NotTradingSessionError ''is not a trading session'')"
  unfolding sessions_advance [OF demo_calendar_built demo_coverage demo_valid [of 6, simplified], folded demo_snapshot_def]
    sessions_advance [OF demo_calendar_built demo_coverage demo_valid [of 7, simplified], folded demo_snapshot_def]
  by (simp add: demo_simps)

theorem next_previous_inverse_witness:
  "next_session demo_snapshot (Date 2026 3 6) = Inr (demo_day 9)
    \<and> previous_session demo_snapshot (Date 2026 3 9) = Inr (demo_day 6)"
  using next_previous_inverse [OF demo_calendar_built demo_coverage, folded demo_snapshot_def, of "demo_day 6" "demo_day 9"]
  by (auto simp: demo_simps)

lemma demo_window_checked: "valid_date d \<Longrightarrow> mk_window (demo_window d) = Inr (demo_window d)"
  using india_date_time [of d 9 15] india_date_time [of d 15 30]
  by (simp add: mk_window_def window_guards_def demo_window_def require_aware_def require_offset_def utc_moment_def
      guards_Inr_iff) (simp add: india_time_def)

lemma demo_day_checked: "mk_day (demo_day 6) = Inr (demo_day 6)"
proof -
  have d: "on_day (india_time (Date 2026 3 6) h 15) (Date 2026 3 6)" "on_day (india_time (Date 2026 3 6) h 30) (Date 2026 3 6)"
    if "h \<in> {9, 15}" for h
    using india_date_time [OF demo_valid [of 6, simplified], of h 15] india_date_time [OF demo_valid [of 6, simplified], of h 30] that
    by (auto simp: on_day_def) (simp_all add: india_time_def)
  have e: "india_date (india_time (Date 2026 3 6) 0 0) = Date 2026 3 6"
    by (rule india_date_time [OF demo_valid [of 6, simplified]]) simp_all
  have "walk_window (Date 2026 3 6) None (demo_window (Date 2026 3 6)) = Inr (Some (demo_window (Date 2026 3 6)))"
    unfolding walk_window_def guards_Inr_iff set_append ball_Un ist_guards using d by (simp add: demo_window_def)
  then show ?thesis
    using e by (simp add: mk_day_def demo_day_def Let_def is_session_def guards_Inr_iff ready_guards_def executable_def
        demo_window_def)
qed

theorem same_window_exact_witness:
  "require_same_session_window (demo_day 6) (india_time (Date 2026 3 6) 10 0) (india_time (Date 2026 3 6) 11 0)
    = Inr (demo_window (Date 2026 3 6))"
proof -
  have w: "\<forall>w \<in> set (session_windows (demo_day 6)). mk_window w = Inr w"
    using demo_window_checked [OF demo_valid [of 6, simplified]] by (simp add: demo_day_def Let_def)
  have "on_day (india_time (Date 2026 3 6) h 0) (Date 2026 3 6)" if "h \<in> {10, 11}" for h
    using india_date_time [OF demo_valid [of 6, simplified], of h 0] that
    by (auto simp: on_day_def) (simp_all add: india_time_def)
  then show ?thesis
    using same_window_exact [OF demo_day_checked w]
    by (simp add: demo_simps) (simp add: demo_day_def Let_def demo_window_def utc_moment_def india_time_def)
qed

end
