(* ===== verification/Baselines.thy ===== *)
theory Baselines
  imports Engine
begin

text \<open>
  The values of the deterministic baselines (first half of \<open>evaluation/baselines.py\<close>): point-in-time instruments, the
  two generator configurations, signal decisions, batches of generated intents, and \<open>generated_intent\<close>, the
  price levels and the quantity of one intent.

  A batch accepts its decisions and intents only in their canonical order, without duplicates, and when the selected
  decisions are exactly those that became intents.  The generators are in \<open>Generators\<close>.
\<close>

section \<open>Checks\<close>

definition base_err :: "string \<Rightarrow> py_exc" where
  "base_err msg = DeterministicBaselineError msg"

definition base_sha :: "string \<Rightarrow> bool \<times> py_exc" where
  "base_sha s = (\<not> sha_text s, base_err ''must be a full lowercase SHA-256'')"

definition base_positive :: "decimal \<Rightarrow> bool \<times> py_exc" where
  "base_positive v = (v \<le> 0, base_err ''must be a finite positive Decimal'')"

definition base_fraction :: "decimal \<Rightarrow> (bool \<times> py_exc) list" where
  "base_fraction v = [base_positive v, (1 \<le> v, base_err ''must be below one'')]"

definition positive_integer :: "int \<Rightarrow> bool \<times> py_exc" where
  "positive_integer n = (n \<le> 0, base_err ''must be a positive integer'')"

definition normalized_text :: "string \<Rightarrow> bool \<times> py_exc" where
  "normalized_text s = (s = [] \<or> s \<noteq> strip s, base_err ''must be normalized non-empty text'')"

section \<open>Instruments\<close>

record pit_instrument =
  pit_symbol :: string
  pit_isin :: string
  pit_universe :: string
  eligible_sessions :: "date list"
  pit_tick :: decimal
  pit_stable :: "string option"
  eligibility_bindings :: "(date \<times> string) list"
  pit_id :: string

definition instrument_material :: "pit_instrument \<Rightarrow> (string \<times> pyval) list" where
  "instrument_material i =
     [(''schema'', PStr ''point-in-time-evaluation-instrument/v1''),
      (''symbol'', PStr (pit_symbol i)),
      (''isin'', PStr (pit_isin i)),
      (''universe_snapshot_id'', PStr (pit_universe i)),
      (''eligible_sessions'', PTuple (map PDate (eligible_sessions i))),
      (''tick_size'', PDecimal (pit_tick i)),
      (''stable_instrument_id'', popt PStr (pit_stable i)),
      (''eligibility_bindings'', PTuple (map (\<lambda>(d, s). PTuple [PDate d, PStr s]) (eligibility_bindings i)))]"

definition instrument_guards :: "pit_instrument \<Rightarrow> (bool \<times> py_exc) list" where
  "instrument_guards i =
     [(pit_symbol i = [] \<or> pit_symbol i \<noteq> upper (strip (pit_symbol i)),
         base_err ''symbol must be normalized uppercase text''),
      (length (pit_isin i) \<noteq> 12 \<or> pit_isin i \<noteq> upper (strip (pit_isin i)),
         base_err ''isin must be normalized 12-character text''),
      base_sha (pit_universe i),
      (eligible_sessions i = [] \<or> \<not> sorted_unique (eligible_sessions i),
         base_err ''eligible_sessions must be a sorted unique non-empty tuple''),
      base_positive (pit_tick i),
      (case pit_stable i of None \<Rightarrow> False | Some s \<Rightarrow> blank s,
         base_err ''stable_instrument_id must be non-empty text when supplied'')]
     @ (if eligibility_bindings i = [] then [] else
         [(map fst (eligibility_bindings i) \<noteq> eligible_sessions i,
             base_err ''eligibility bindings must cover every eligible session exactly once'')]
         @ map (\<lambda>b. base_sha (snd b)) (eligibility_bindings i)
         @ [(pit_universe i \<noteq> snd (hd (eligibility_bindings i)),
              base_err ''primary universe snapshot must equal the first eligibility binding'')])"

definition mk_instrument :: "pit_instrument \<Rightarrow> pit_instrument res" where
  "mk_instrument i = guards (instrument_guards i) (Inr (i\<lparr>pit_id := fields_id (instrument_material i)\<rparr>))"

definition instrument_broken :: "pit_instrument \<Rightarrow> bool \<times> py_exc" where
  "instrument_broken i = (pit_id i \<noteq> fields_id (instrument_material i), base_err ''instrument content identity failed'')"

section \<open>Configurations\<close>

record momentum_config =
  lookback_sessions :: int
  maximum_positions :: int
  momentum_exposure :: decimal
  minimum_momentum :: decimal
  momentum_stop :: decimal
  momentum_target :: decimal
  momentum_holding :: int
  momentum_version :: string
  momentum_id :: string

definition momentum_material :: "momentum_config \<Rightarrow> (string \<times> pyval) list" where
  "momentum_material c =
     [(''schema'', PStr ''deterministic-momentum-baseline-config/v1''),
      (''lookback_sessions'', PInt (lookback_sessions c)),
      (''maximum_positions'', PInt (maximum_positions c)),
      (''gross_exposure_fraction'', PDecimal (momentum_exposure c)),
      (''minimum_momentum'', PDecimal (minimum_momentum c)),
      (''stop_loss_fraction'', PDecimal (momentum_stop c)),
      (''target_gain_fraction'', PDecimal (momentum_target c)),
      (''maximum_holding_sessions'', PInt (momentum_holding c)),
      (''version'', PStr (momentum_version c)),
      (''ranking'', PStr ''MOMENTUM_DESC_THEN_SIGNAL_TURNOVER_DESC_THEN_SYMBOL''),
      (''signal_timing'', PStr ''TEST_FOLD_FIRST_SESSION_CLOSE''),
      (''entry_timing'', PStr ''NEXT_SESSION_LIMIT_AT_SIGNAL_CLOSE'')]"

definition momentum_guards :: "momentum_config \<Rightarrow> (bool \<times> py_exc) list" where
  "momentum_guards c =
     [positive_integer (lookback_sessions c), positive_integer (maximum_positions c)]
     @ base_fraction (momentum_exposure c) @ base_fraction (momentum_stop c)
     @ [base_positive (momentum_target c), positive_integer (momentum_holding c), normalized_text (momentum_version c)]"

definition mk_momentum_config :: "momentum_config \<Rightarrow> momentum_config res" where
  "mk_momentum_config c = guards (momentum_guards c) (Inr (c\<lparr>momentum_id := fields_id (momentum_material c)\<rparr>))"

definition momentum_broken :: "momentum_config \<Rightarrow> bool \<times> py_exc" where
  "momentum_broken c = (momentum_id c \<noteq> fields_id (momentum_material c),
     base_err ''strategy config content identity failed'')"

record weight_config =
  maximum_constituents :: int
  weight_exposure :: decimal
  weight_stop :: decimal
  weight_target :: decimal
  weight_holding :: int
  weight_version :: string
  weight_id :: string

definition weight_material :: "weight_config \<Rightarrow> (string \<times> pyval) list" where
  "weight_material c =
     [(''schema'', PStr ''deterministic-equal-weight-benchmark-config/v1''),
      (''maximum_constituents'', PInt (maximum_constituents c)),
      (''gross_exposure_fraction'', PDecimal (weight_exposure c)),
      (''stop_loss_fraction'', PDecimal (weight_stop c)),
      (''target_gain_fraction'', PDecimal (weight_target c)),
      (''maximum_holding_sessions'', PInt (weight_holding c)),
      (''version'', PStr (weight_version c)),
      (''selection'', PStr ''SIGNAL_TURNOVER_DESC_THEN_SYMBOL''),
      (''weighting'', PStr ''EQUAL_SLOT_NOTIONAL''),
      (''signal_timing'', PStr ''TEST_FOLD_FIRST_SESSION_CLOSE''),
      (''entry_timing'', PStr ''NEXT_SESSION_LIMIT_AT_SIGNAL_CLOSE'')]"

definition weight_guards :: "weight_config \<Rightarrow> (bool \<times> py_exc) list" where
  "weight_guards c =
     [positive_integer (maximum_constituents c)]
     @ base_fraction (weight_exposure c) @ base_fraction (weight_stop c)
     @ [base_positive (weight_target c), positive_integer (weight_holding c), normalized_text (weight_version c)]"

definition mk_weight_config :: "weight_config \<Rightarrow> weight_config res" where
  "mk_weight_config c = guards (weight_guards c) (Inr (c\<lparr>weight_id := fields_id (weight_material c)\<rparr>))"

definition weight_broken :: "weight_config \<Rightarrow> bool \<times> py_exc" where
  "weight_broken c = (weight_id c \<noteq> fields_id (weight_material c), base_err ''benchmark config content identity failed'')"

section \<open>Decisions\<close>

datatype intent_role = STRATEGY | BENCHMARK

fun role_val :: "intent_role \<Rightarrow> pyval" where
  "role_val STRATEGY = PEnum ''india_swing.evaluation.baselines.GeneratedIntentRole'' (PStr ''STRATEGY'')"
| "role_val BENCHMARK = PEnum ''india_swing.evaluation.baselines.GeneratedIntentRole'' (PStr ''BENCHMARK'')"

record signal_decision =
  decided_by :: string
  decided_role :: intent_role
  decided_fold :: string
  decided_session :: date
  decided_instrument :: string
  decided_symbol :: string
  score_name :: string
  score :: "decimal option"
  selected :: bool
  reason :: string
  evidence :: "string list"
  decision_id :: string

definition decision_material :: "signal_decision \<Rightarrow> (string \<times> pyval) list" where
  "decision_material d =
     [(''schema'', PStr ''generated-evaluation-signal-decision/v1''),
      (''generator_id'', PStr (decided_by d)),
      (''role'', role_val (decided_role d)),
      (''fold_id'', PStr (decided_fold d)),
      (''signal_session'', PDate (decided_session d)),
      (''instrument_id'', PStr (decided_instrument d)),
      (''symbol'', PStr (decided_symbol d)),
      (''score_name'', PStr (score_name d)),
      (''score'', popt PDecimal (score d)),
      (''selected'', PBool (selected d)),
      (''reason'', PStr (reason d)),
      (''evidence_bar_ids'', PTuple (map PStr (evidence d)))]"

definition decision_guards :: "signal_decision \<Rightarrow> (bool \<times> py_exc) list" where
  "decision_guards d =
     [base_sha (decided_by d), base_sha (decided_fold d), base_sha (decided_instrument d),
      (decided_symbol d \<noteq> upper (strip (decided_symbol d)), base_err ''decision symbol must be normalized''),
      normalized_text (score_name d), normalized_text (reason d),
      (\<not> distinct (evidence d), base_err ''evidence bar IDs must be an exact unique tuple'')]
     @ map base_sha (evidence d)
     @ [(selected d \<noteq> (reason d = ''SELECTED''), base_err ''selected flag and reason disagree'')]"

definition mk_decision :: "signal_decision \<Rightarrow> signal_decision res" where
  "mk_decision d = guards (decision_guards d) (Inr (d\<lparr>decision_id := fields_id (decision_material d)\<rparr>))"

definition decision_broken :: "signal_decision \<Rightarrow> bool \<times> py_exc" where
  "decision_broken d = (decision_id d \<noteq> fields_id (decision_material d),
     base_err ''signal decision content identity failed'')"

section \<open>Batches\<close>

record intent_batch =
  batch_by :: string
  batch_role :: intent_role
  batch_plan :: string
  batch_sources :: "string list"
  batch_decisions :: "signal_decision list"
  batch_intents :: "trade_intent list"
  intent_batch_id :: string

definition decision_key :: "signal_decision \<Rightarrow> date \<times> string" where
  "decision_key d = (decided_session d, decided_symbol d)"

definition candidate_key :: "signal_decision \<Rightarrow> string \<times> date \<times> string" where
  "candidate_key d = (decided_fold d, decided_session d, decided_instrument d)"

definition selected_keys :: "intent_batch \<Rightarrow> (date \<times> string \<times> string) list" where
  "selected_keys b = map (\<lambda>d. (decided_session d, decided_symbol d, decision_id d)) (filter selected (batch_decisions b))"

definition intent_keys :: "intent_batch \<Rightarrow> (date \<times> string \<times> string) list" where
  "intent_keys b = map (\<lambda>i. (signal_session (intent_order i), entry_symbol (intent_order i), intent_signal i)) (batch_intents b)"

definition decision_val :: "signal_decision \<Rightarrow> pyval" where
  "decision_val d = PDataclass ''india_swing.evaluation.baselines.GeneratedSignalDecision''
     (tl (decision_material d) @ [(''decision_id'', PStr (decision_id d))])"

definition intent_val :: "trade_intent \<Rightarrow> pyval" where
  "intent_val i = PDataclass ''india_swing.evaluation.engine.EvaluationTradeIntent''
     (tl (intent_material i) @ [(''intent_id'', PStr (intent_id i))])"

definition batch_material :: "intent_batch \<Rightarrow> (string \<times> pyval) list" where
  "batch_material b =
     [(''schema'', PStr ''generated-evaluation-intent-batch/v1''),
      (''generator_id'', PStr (batch_by b)),
      (''role'', role_val (batch_role b)),
      (''split_plan_id'', PStr (batch_plan b)),
      (''source_snapshot_ids'', PTuple (map PStr (batch_sources b))),
      (''decisions'', PTuple (map decision_val (batch_decisions b))),
      (''intents'', PTuple (map intent_val (batch_intents b)))]"

definition batch_guards :: "intent_batch \<Rightarrow> (bool \<times> py_exc) list" where
  "batch_guards b =
     [base_sha (batch_by b), base_sha (batch_plan b),
      (batch_sources b = [] \<or> \<not> sorted_unique (batch_sources b), base_err ''source snapshots must be sorted and unique'')]
     @ map base_sha (batch_sources b)
     @ [(batch_decisions b = [] \<or> batch_decisions b \<noteq> sort_key decision_key (batch_decisions b),
           base_err ''decisions must be an ordered exact tuple''),
        (\<not> distinct (map candidate_key (batch_decisions b)), base_err ''decisions cannot contain duplicate candidates'')]
     @ concat (map (\<lambda>d. [decision_broken d,
         (decided_by d \<noteq> batch_by b \<or> decided_role d \<noteq> batch_role b, base_err ''decision binding differs from batch'')])
         (batch_decisions b))
     @ [(batch_intents b \<noteq> sort_key intent_key (batch_intents b), base_err ''intents must be an ordered exact tuple'')]
     @ map intent_broken (batch_intents b)
     @ [(set (selected_keys b) \<noteq> set (intent_keys b), base_err ''selected decisions and intents disagree'')]"

definition mk_batch :: "intent_batch \<Rightarrow> intent_batch res" where
  "mk_batch b = guards (batch_guards b) (Inr (b\<lparr>intent_batch_id := fields_id (batch_material b)\<rparr>))"

definition batch_broken :: "intent_batch \<Rightarrow> bool \<times> py_exc" where
  "batch_broken b = (intent_batch_id b \<noteq> fields_id (batch_material b), base_err ''intent batch content identity failed'')"

section \<open>One generated intent\<close>

definition generated_intent ::
  "signal_decision \<Rightarrow> pit_instrument \<Rightarrow> simulation_bar \<Rightarrow> date \<Rightarrow> decimal \<Rightarrow> decimal \<Rightarrow> decimal \<Rightarrow> int \<Rightarrow> decimal
    \<Rightarrow> trade_intent res" where
  \<comment> \<open>\<open>_intent\<close>\<close>
  "generated_intent d i b entry slot stop_loss gain holding share =
     (let tick = pit_tick i; lim = tick_floor (bar_close b) tick; q = dec_int (dquot slot lim);
          st = tick_floor (lim * (1 - stop_loss)) tick; tg = tick_ceiling (lim * (1 + gain)) tick in
      guards
        [(lim \<le> 0, base_err ''signal close cannot produce a positive limit''),
         (q \<le> 0, base_err ''selected instrument is unaffordable''),
         (st \<le> 0 \<or> \<not> (st < lim \<and> lim < tg), base_err ''configured exits are invalid at the signal price'')]
        (bindE (mk_limit_entry_order \<lparr>entry_symbol = pit_symbol i, signal_session = decided_session d,
            first_eligible_session = entry, expiry_session = entry, entry_quantity = q, limit_price = lim,
            entry_tick = tick, entry_participation = share, entry_order_id = []\<rparr>) (\<lambda>e.
         mk_intent \<lparr>intent_signal = decision_id d, intent_universe = pit_universe i, intent_isin = pit_isin i,
            intent_order = e, intent_stop = st, intent_target = tg, max_holding = holding, intent_id = []\<rparr>)))"

end
