(* ===== verification/Generators.thy ===== *)
theory Generators
  imports Baselines
begin

text \<open>
  The two intent generators of \<open>evaluation/baselines.py\<close>: cross-sectional momentum and the equal-weight benchmark.

  On the first session of every test fold a generator screens each instrument, ranks the candidates, selects the
  first of the affordable ones, records one decision per instrument and turns the selected decisions into intents for
  the next session.  \<open>screen_momentum\<close> and \<open>screen_weight\<close> are the screening loops' bodies, \<open>select_momentum\<close> is one
  pass of the selection loop, and \<open>fold_batch\<close> is what both generators do with the reasons of a fold.
\<close>

section \<open>Inputs\<close>

definition unique_member :: "string set \<times> string set \<Rightarrow> pit_instrument \<Rightarrow> bool \<times> py_exc" where
  "unique_member seen i = (pit_symbol i \<in> fst seen \<or> pit_isin i \<in> snd seen,
     base_err ''instrument symbols and ISINs must be unique'')"

definition admit_instrument ::
  "evaluation_dataset \<Rightarrow> string set \<times> string set \<Rightarrow> pit_instrument \<Rightarrow> (string set \<times> string set) res" where
  \<comment> \<open>one pass of the loop over the instruments, with the symbols and ISINs seen so far\<close>
  "admit_instrument ds seen i = guards
     [instrument_broken i, unique_member seen i,
      (pit_universe i \<notin> set (ds_universes ds), base_err ''instrument universe is absent from dataset''),
      (list_ex (\<lambda>b. snd b \<notin> set (ds_universes ds)) (eligibility_bindings i),
         base_err ''instrument eligibility binding is absent from dataset''),
      (list_ex (\<lambda>d. d \<notin> set (ds_sessions ds)) (eligible_sessions i),
         base_err ''instrument eligibility exceeds dataset calendar'')]
     (Inr (insert (pit_symbol i) (fst seen), insert (pit_isin i) (snd seen)))"

definition validate_inputs :: "plan \<Rightarrow> evaluation_dataset \<Rightarrow> pit_instrument list \<Rightarrow> decimal \<Rightarrow> int \<Rightarrow> unit res" where
  "validate_inputs p ds is capital holding = bindE (verify_plan p) (\<lambda>_. guards
     [dataset_broken ds, base_positive capital,
      (ds_sessions ds \<noteq> ordered_sessions p, base_err ''dataset calendar differs from split plan''),
      (is = [] \<or> is \<noteq> sort_key pit_symbol is, base_err ''instruments must be a non-empty symbol-ordered tuple'')]
     (bindE (foldE (admit_instrument ds) ({}, {}) is) (\<lambda>_. guards
        (map (\<lambda>f. (int (length (test f)) < holding + 1,
           base_err ''test fold cannot contain the registered next-session holding horizon'')) (folds p))
        (Inr ()))))"

section \<open>Screening and ranking\<close>

type_synonym verdict = "string \<times> decimal option \<times> string list"

datatype 'k screening = Ruled_Out verdict | Candidate 'k

record ranked =
  cand_momentum :: decimal
  cand_turnover :: decimal
  cand_instrument :: pit_instrument
  cand_evidence :: "string list"

definition bar_turnover :: "simulation_bar \<Rightarrow> decimal" where
  "bar_turnover b = bar_close b * dec_of_int (bar_volume b)"

definition screen_momentum ::
  "momentum_config \<Rightarrow> evaluation_dataset \<Rightarrow> date \<Rightarrow> int \<Rightarrow> pit_instrument \<Rightarrow> ranked screening" where
  \<comment> \<open>the body of the first loop; the signal session has the position \<open>n\<close> in the calendar\<close>
  "screen_momentum c ds d n i = (let lookback = n - lookback_sessions c in
     if d \<notin> set (eligible_sessions i) then Ruled_Out (''NOT_POINT_IN_TIME_ELIGIBLE'', None, [])
     else if lookback < 0 then Ruled_Out (''INSUFFICIENT_LOOKBACK'', None, [])
     else let start = bar_at ds (ds_sessions ds ! nat lookback) (pit_symbol i); signal = bar_at ds d (pit_symbol i) in
       case (start, signal) of
         (Some a, Some b) \<Rightarrow> (let found = [bar_id a, bar_id b]; momentum = dquot (bar_close b) (bar_close a) - 1 in
            if \<not> tradable b \<or> bar_volume b \<le> 0 then Ruled_Out (''NOT_TRADABLE_AT_SIGNAL_CLOSE'', Some momentum, found)
            else if momentum < minimum_momentum c then Ruled_Out (''BELOW_MINIMUM_MOMENTUM'', Some momentum, found)
            else Candidate \<lparr>cand_momentum = momentum, cand_turnover = bar_turnover b, cand_instrument = i,
              cand_evidence = found\<rparr>)
       | _ \<Rightarrow> Ruled_Out (''MISSING_AS_OF_BAR'', None, map bar_id (optional start @ optional signal)))"

definition momentum_rank :: "ranked \<Rightarrow> rat \<times> rat \<times> string" where
  \<comment> \<open>the sort key; decimals compare by value\<close>
  "momentum_rank k = (dval (- cand_momentum k), dval (- cand_turnover k), pit_symbol (cand_instrument k))"

definition affordable :: "decimal \<Rightarrow> pit_instrument \<Rightarrow> simulation_bar \<Rightarrow> bool" where
  "affordable slot i b = (let lim = tick_floor (bar_close b) (pit_tick i) in
     \<not> (lim \<le> 0 \<or> dec_int (dquot slot lim) \<le> 0))"

definition can_buy :: "evaluation_dataset \<Rightarrow> date \<Rightarrow> decimal \<Rightarrow> ranked \<Rightarrow> bool" where
  \<comment> \<open>a candidate has a bar on the signal session\<close>
  "can_buy ds d slot k = (case bar_at ds d (pit_symbol (cand_instrument k)) of None \<Rightarrow> False
     | Some b \<Rightarrow> affordable slot (cand_instrument k) b)"

definition select_momentum ::
  "momentum_config \<Rightarrow> (ranked \<Rightarrow> bool) \<Rightarrow> string set \<times> (string \<rightharpoonup> verdict) \<Rightarrow> ranked \<Rightarrow> string set \<times> (string \<rightharpoonup> verdict)" where
  \<comment> \<open>one pass of the selection loop over the ranked candidates\<close>
  "select_momentum c ok = (\<lambda>(chosen, m) k. let x = pit_id (cand_instrument k); note = (\<lambda>r. (r, Some (cand_momentum k), cand_evidence k)) in
     if \<not> ok k then (chosen, m(x \<mapsto> note ''INSUFFICIENT_SLOT_NOTIONAL''))
     else if maximum_positions c \<le> int (card chosen) then (chosen, m(x \<mapsto> note ''OUTSIDE_POSITION_RANK''))
     else (insert x chosen, m(x \<mapsto> note ''SELECTED'')))"

definition ruled_out :: "(pit_instrument \<Rightarrow> 'k screening) \<Rightarrow> pit_instrument list \<Rightarrow> (string \<times> verdict) list" where
  "ruled_out screen is = concat (map (\<lambda>i. case screen i of Ruled_Out v \<Rightarrow> [(pit_id i, v)] | Candidate _ \<Rightarrow> []) is)"

definition candidates :: "(pit_instrument \<Rightarrow> 'k screening) \<Rightarrow> pit_instrument list \<Rightarrow> 'k list" where
  "candidates screen is = concat (map (\<lambda>i. case screen i of Ruled_Out _ \<Rightarrow> [] | Candidate k \<Rightarrow> [k]) is)"

definition record_all :: "(string \<times> verdict) list \<Rightarrow> string \<rightharpoonup> verdict" where
  \<comment> \<open>the assignments to the dictionary, in order\<close>
  "record_all vs = map_of (rev vs)"

definition momentum_reasons ::
  "momentum_config \<Rightarrow> evaluation_dataset \<Rightarrow> pit_instrument list \<Rightarrow> decimal \<Rightarrow> date \<Rightarrow> int \<Rightarrow> string \<rightharpoonup> verdict" where
  "momentum_reasons c ds is slot d n = (let screen = screen_momentum c ds d n in
     snd (foldl (select_momentum c (can_buy ds d slot)) ({}, record_all (ruled_out screen is))
       (sort_key momentum_rank (candidates screen is))))"

record weighed =
  weight_turnover :: decimal
  weight_instrument :: pit_instrument
  weight_evidence :: "string list"

definition screen_weight :: "evaluation_dataset \<Rightarrow> decimal \<Rightarrow> date \<Rightarrow> pit_instrument \<Rightarrow> weighed screening" where
  "screen_weight ds slot d i =
     (if d \<notin> set (eligible_sessions i) then Ruled_Out (''NOT_POINT_IN_TIME_ELIGIBLE'', None, [])
      else case bar_at ds d (pit_symbol i) of None \<Rightarrow> Ruled_Out (''MISSING_AS_OF_BAR'', None, [])
        | Some b \<Rightarrow> if \<not> tradable b \<or> bar_volume b \<le> 0
            then Ruled_Out (''NOT_TRADABLE_AT_SIGNAL_CLOSE'', Some (bar_turnover b), [bar_id b])
          else if \<not> affordable slot i b then Ruled_Out (''INSUFFICIENT_SLOT_NOTIONAL'', Some (bar_turnover b), [bar_id b])
          else Candidate \<lparr>weight_turnover = bar_turnover b, weight_instrument = i, weight_evidence = [bar_id b]\<rparr>)"

definition weight_rank :: "weighed \<Rightarrow> rat \<times> string" where
  "weight_rank k = (dval (- weight_turnover k), pit_symbol (weight_instrument k))"

definition weigh_candidate :: "string set \<Rightarrow> weighed \<Rightarrow> string \<times> verdict" where
  \<comment> \<open>the reason of a candidate once the selected identities are known\<close>
  "weigh_candidate chosen k = (let x = pit_id (weight_instrument k) in
     (x, (if x \<in> chosen then ''SELECTED'' else ''OUTSIDE_CONSTITUENT_RANK''), Some (weight_turnover k), weight_evidence k))"

definition weight_reasons ::
  "weight_config \<Rightarrow> evaluation_dataset \<Rightarrow> pit_instrument list \<Rightarrow> decimal \<Rightarrow> date \<Rightarrow> string \<rightharpoonup> verdict" where
  "weight_reasons c ds is slot d = (let screen = screen_weight ds slot d; ks = sort_key weight_rank (candidates screen is);
       chosen = set (map (\<lambda>k. pit_id (weight_instrument k)) (take (nat (maximum_constituents c)) ks)) in
     record_all (ruled_out screen is @ map (weigh_candidate chosen) ks))"

section \<open>Decisions and intents of a fold\<close>

definition decide_instrument ::
  "string \<Rightarrow> intent_role \<Rightarrow> string \<Rightarrow> string \<Rightarrow> date \<Rightarrow> (string \<rightharpoonup> verdict) \<Rightarrow> pit_instrument \<Rightarrow> signal_decision res" where
  "decide_instrument gen role sname f d m i = (case m (pit_id i) of
       None \<Rightarrow> Inl (KeyError (pit_id i))
     | Some (r, v, ids) \<Rightarrow> mk_decision \<lparr>decided_by = gen, decided_role = role, decided_fold = f, decided_session = d,
         decided_instrument = pit_id i, decided_symbol = pit_symbol i, score_name = sname, score = v,
         selected = (r = ''SELECTED''), reason = r, evidence = ids, decision_id = []\<rparr>)"

definition by_id :: "pit_instrument list \<Rightarrow> string \<Rightarrow> pit_instrument option" where
  \<comment> \<open>\<open>{value.instrument_id: value for value in instruments}\<close>\<close>
  "by_id is x = List.find (\<lambda>i. pit_id i = x) (rev is)"

definition intent_for ::
  "evaluation_dataset \<Rightarrow> pit_instrument list \<Rightarrow> decimal \<Rightarrow> decimal \<Rightarrow> decimal \<Rightarrow> int \<Rightarrow> decimal \<Rightarrow> date \<Rightarrow> signal_decision
    \<Rightarrow> trade_intent res" where
  "intent_for ds is slot stop_loss gain holding share entry d = (case by_id is (decided_instrument d) of
       None \<Rightarrow> Inl (KeyError (decided_instrument d))
     | Some i \<Rightarrow> (case bar_at ds (decided_session d) (pit_symbol i) of None \<Rightarrow> Inl (KeyError (pit_symbol i))
         | Some b \<Rightarrow> generated_intent d i b entry slot stop_loss gain holding share))"

definition fold_batch ::
  "string \<Rightarrow> intent_role \<Rightarrow> string \<Rightarrow> pit_instrument list \<Rightarrow> (signal_decision \<Rightarrow> trade_intent res) \<Rightarrow> fold
    \<Rightarrow> (string \<rightharpoonup> verdict) \<Rightarrow> (signal_decision list \<times> trade_intent list) res" where
  "fold_batch gen role sname is intent f m =
     bindE (mapE (decide_instrument gen role sname (fold_id f) (hd (test f)) m) is) (\<lambda>decisions.
     bindE (mapE intent (filter selected decisions)) (\<lambda>intents. Inr (decisions, intents)))"

definition seal_batch ::
  "string \<Rightarrow> intent_role \<Rightarrow> plan \<Rightarrow> evaluation_dataset \<Rightarrow> (signal_decision list \<times> trade_intent list) list
    \<Rightarrow> intent_batch res" where
  "seal_batch gen role p ds parts = mk_batch \<lparr>batch_by = gen, batch_role = role, batch_plan = plan_id p,
     batch_sources = ds_sources ds, batch_decisions = sort_key decision_key (concat (map fst parts)),
     batch_intents = sort_key intent_key (concat (map snd parts)), intent_batch_id = []\<rparr>"

definition session_position :: "evaluation_dataset \<Rightarrow> date \<Rightarrow> int res" where
  \<comment> \<open>\<open>session_positions[d]\<close>\<close>
  "session_position ds d = (if d \<in> set (ds_sessions ds) then Inr (int (index_of (ds_sessions ds) d))
     else Inl (KeyError (date_iso d)))"

definition momentum_slot :: "momentum_config \<Rightarrow> decimal \<Rightarrow> decimal" where
  "momentum_slot c capital = dquot (capital * momentum_exposure c) (dec_of_int (maximum_positions c))"

definition weight_slot :: "weight_config \<Rightarrow> decimal \<Rightarrow> decimal" where
  "weight_slot c capital = dquot (capital * weight_exposure c) (dec_of_int (maximum_constituents c))"

definition momentum_fold ::
  "momentum_config \<Rightarrow> evaluation_dataset \<Rightarrow> pit_instrument list \<Rightarrow> execution_policy \<Rightarrow> decimal \<Rightarrow> fold
    \<Rightarrow> (signal_decision list \<times> trade_intent list) res" where
  \<comment> \<open>the body of the loop over folds; a test window has at least two sessions\<close>
  "momentum_fold c ds is policy capital f = (let d = hd (test f); slot = momentum_slot c capital in
     bindE (session_position ds d) (\<lambda>n. fold_batch (momentum_id c) STRATEGY ''CLOSE_MOMENTUM'' is
       (intent_for ds is slot (momentum_stop c) (momentum_target c) (momentum_holding c) (policy_participation policy)
         (test f ! 1))
       f (momentum_reasons c ds is slot d n)))"

definition generate_momentum ::
  "momentum_config \<Rightarrow> plan \<Rightarrow> evaluation_dataset \<Rightarrow> pit_instrument list \<Rightarrow> execution_policy \<Rightarrow> decimal
    \<Rightarrow> intent_batch res" where
  "generate_momentum c p ds is policy capital = guards
     [momentum_broken c, exec_policy_broken policy,
      (label_horizon p < momentum_holding c, base_err ''strategy holding period exceeds label horizon'')]
     (bindE (validate_inputs p ds is capital (momentum_holding c)) (\<lambda>_.
      bindE (mapE (momentum_fold c ds is policy capital) (folds p)) (seal_batch (momentum_id c) STRATEGY p ds)))"

definition weight_fold ::
  "weight_config \<Rightarrow> evaluation_dataset \<Rightarrow> pit_instrument list \<Rightarrow> execution_policy \<Rightarrow> decimal \<Rightarrow> fold
    \<Rightarrow> (signal_decision list \<times> trade_intent list) res" where
  "weight_fold c ds is policy capital f = (let d = hd (test f); slot = weight_slot c capital in
     fold_batch (weight_id c) BENCHMARK ''SIGNAL_TURNOVER'' is
       (intent_for ds is slot (weight_stop c) (weight_target c) (weight_holding c) (policy_participation policy) (test f ! 1))
       f (weight_reasons c ds is slot d))"

definition generate_weight ::
  "weight_config \<Rightarrow> plan \<Rightarrow> evaluation_dataset \<Rightarrow> pit_instrument list \<Rightarrow> execution_policy \<Rightarrow> decimal
    \<Rightarrow> intent_batch res" where
  "generate_weight c p ds is policy capital = guards
     [weight_broken c, exec_policy_broken policy,
      (label_horizon p < weight_holding c, base_err ''benchmark holding period exceeds label horizon'')]
     (bindE (validate_inputs p ds is capital (weight_holding c)) (\<lambda>_.
      bindE (mapE (weight_fold c ds is policy capital) (folds p)) (seal_batch (weight_id c) BENCHMARK p ds)))"

section \<open>What a fold's decisions are stamped with\<close>

lemma decide_instrument_Inr:
  assumes "decide_instrument gen role sname f d m i = Inr x"
  obtains r v ids where "m (pit_id i) = Some (r, v, ids)" "decided_session x = d" "decided_fold x = f"
    "decided_instrument x = pit_id i" "decided_symbol x = pit_symbol i" "decided_by x = gen" "decided_role x = role"
    "selected x \<longleftrightarrow> r = ''SELECTED''" "reason x = r" "score x = v" "evidence x = ids"
  using assms by (auto simp: decide_instrument_def mk_decision_def guards_Inr_iff split: option.splits)

lemma generated_intent_Inr:
  assumes "generated_intent d i b entry slot stop_loss gain holding share = Inr t"
  shows "signal_session (intent_order t) = decided_session d" "entry_symbol (intent_order t) = pit_symbol i"
    "first_eligible_session (intent_order t) = entry" "expiry_session (intent_order t) = entry"
    "entry_quantity (intent_order t) = dec_int (dquot slot (limit_price (intent_order t)))"
    "limit_price (intent_order t) = tick_floor (bar_close b) (pit_tick i)" "0 < limit_price (intent_order t)"
    "0 < entry_quantity (intent_order t)"
    "entry_participation (intent_order t) = share" "max_holding t = holding" "intent_universe t = pit_universe i"
    "intent_isin t = pit_isin i" "intent_signal t = decision_id d" "\<not> fst (intent_broken t)"
  using assms by (auto simp: generated_intent_def Let_def guards_Inr_iff res_simps mk_limit_entry_order_def mk_intent_def
      intent_broken_def intent_material_def le_iff_dval less_iff_dval)

lemma intent_for_Inr:
  assumes "intent_for ds is slot stop_loss gain holding share entry d = Inr t"
  obtains i b where "by_id is (decided_instrument d) = Some i" "bar_at ds (decided_session d) (pit_symbol i) = Some b"
    "generated_intent d i b entry slot stop_loss gain holding share = Inr t"
  using assms by (auto simp: intent_for_def split: option.splits)

lemma fold_batch_Inr:
  assumes "fold_batch gen role sname is intent f m = Inr (xs, ts)"
  shows "list_all2 (\<lambda>i x. decide_instrument gen role sname (fold_id f) (hd (test f)) m i = Inr x) is xs"
    and "list_all2 (\<lambda>x t. intent x = Inr t) (filter selected xs) ts"
  using assms by (auto simp: fold_batch_def res_simps mapE_eq_Inr)

definition stamped :: "fold \<Rightarrow> signal_decision list \<times> trade_intent list \<Rightarrow> bool" where
  \<comment> \<open>everything a fold produced carries the signal session of that fold\<close>
  "stamped f part = ((\<forall>x \<in> set (fst part). decided_session x = hd (test f))
     \<and> (\<forall>t \<in> set (snd part). signal_session (intent_order t) = hd (test f)))"

lemma list_all2_member2:
  assumes "list_all2 P xs ys" and "y \<in> set ys"
  obtains x where "x \<in> set xs" and "P x y"
  using assms by (metis in_set_conv_nth list_all2_conv_all_nth)

lemma list_all2_member1:
  assumes "list_all2 P xs ys" and "x \<in> set xs"
  obtains y where "y \<in> set ys" and "P x y"
  using assms by (metis in_set_conv_nth list_all2_conv_all_nth)

lemma fold_batch_stamped:
  assumes "fold_batch gen role sname is (intent_for ds is slot stop_loss gain holding share entry) f m = Inr part"
  shows "stamped f part"
proof -
  obtain xs ts where part: "part = (xs, ts)" by (cases part)
  note f = fold_batch_Inr [OF assms [unfolded part]]
  have x: "decided_session x = hd (test f)" if x: "x \<in> set xs" for x
    using list_all2_member2 [OF f(1) x] decide_instrument_Inr by metis
  have "signal_session (intent_order t) = hd (test f)" if t: "t \<in> set ts" for t
  proof -
    obtain d where d: "d \<in> set (filter selected xs)" "intent_for ds is slot stop_loss gain holding share entry d = Inr t"
      using list_all2_member2 [OF f(2) t] by metis
    from intent_for_Inr [OF this(2)] show ?thesis using x d(1) by (metis filter_is_subset generated_intent_Inr(1) subsetD)
  qed
  then show ?thesis using x by (simp add: part stamped_def)
qed

section \<open>No look-ahead\<close>

definition agree_until :: "date \<Rightarrow> evaluation_dataset \<Rightarrow> evaluation_dataset \<Rightarrow> bool" where
  \<comment> \<open>the same calendar and sources, and the same bars up to a date\<close>
  "agree_until d ds ds' = (ds_sessions ds = ds_sessions ds' \<and> ds_sources ds = ds_sources ds'
     \<and> filter (\<lambda>b. bar_session b \<le> d) (ds_bars ds) = filter (\<lambda>b. bar_session b \<le> d) (ds_bars ds'))"

lemma find_restrict:
  assumes "\<And>x. P x \<Longrightarrow> Q x"
  shows "List.find P (filter Q xs) = List.find P xs"
  using assms by (induction xs) auto

lemma bar_at_agree:
  assumes "agree_until D ds ds'" and "d \<le> D"
  shows "bar_at ds d s = bar_at ds' d s"
proof -
  have *: "bar_at x d s = List.find (\<lambda>b. bar_session b = d \<and> bar_symbol b = s) (rev (filter (\<lambda>b. bar_session b \<le> D) (ds_bars x)))" for x
    unfolding bar_at_def rev_filter using assms(2) by (intro find_restrict [symmetric]) auto
  show ?thesis using assms(1) by (simp add: * agree_until_def)
qed

definition until :: "date \<Rightarrow> signal_decision list \<Rightarrow> signal_decision list" where
  "until d xs = filter (\<lambda>x. decided_session x \<le> d) xs"

definition intents_until :: "date \<Rightarrow> trade_intent list \<Rightarrow> trade_intent list" where
  "intents_until d ts = filter (\<lambda>t. signal_session (intent_order t) \<le> d) ts"

lemma stamped_until:
  assumes "stamped f part"
  shows "until d (fst part) = (if hd (test f) \<le> d then fst part else [])"
    and "intents_until d (snd part) = (if hd (test f) \<le> d then snd part else [])"
  using assms by (auto simp: stamped_def until_def intents_until_def filter_empty_conv filter_id_conv)

text \<open>The contract of a generator that works fold by fold: what it does on a fold depends on the bars up to the signal
session only, and is stamped with that session.\<close>

locale point_in_time_generator =
  fixes run :: "evaluation_dataset \<Rightarrow> fold \<Rightarrow> (signal_decision list \<times> trade_intent list) res"
    and usable :: "evaluation_dataset \<Rightarrow> bool"
  assumes local_run: "usable ds \<Longrightarrow> agree_until d ds ds' \<Longrightarrow> hd (test f) \<le> d \<Longrightarrow> run ds f = run ds' f"
    and stamps: "run ds f = Inr part \<Longrightarrow> stamped f part"
begin

lemma parts_agree:
  assumes "usable ds" and "agree_until d ds ds'"
  shows "mapE (run ds) fs = Inr ps \<Longrightarrow> mapE (run ds') fs = Inr qs \<Longrightarrow>
    until d (concat (map fst ps)) = until d (concat (map fst qs))
    \<and> intents_until d (concat (map snd ps)) = intents_until d (concat (map snd qs))"
proof (induction fs arbitrary: ps qs)
  case (Cons f fs)
  then obtain x xs y ys where p: "ps = x # xs" "run ds f = Inr x" "mapE (run ds) fs = Inr xs"
    and q: "qs = y # ys" "run ds' f = Inr y" "mapE (run ds') fs = Inr ys"
    by (auto simp: res_simps)
  have "until d (fst x) = until d (fst y) \<and> intents_until d (snd x) = intents_until d (snd y)"
  proof (cases "hd (test f) \<le> d")
    case True
    then show ?thesis using local_run [OF assms True] p(2) q(2) by simp
  next
    case False
    then show ?thesis using stamps [OF p(2)] stamps [OF q(2)] by (simp add: stamped_until)
  qed
  moreover note Cons.IH [OF p(3) q(3)]
  ultimately show ?case unfolding p(1) q(1) by (simp add: until_def intents_until_def)
qed (simp add: until_def intents_until_def)

lemma batches_agree:
  assumes "usable ds" and "agree_until d ds ds'"
    and "bindE (mapE (run ds) fs) (seal_batch gen role p ds) = Inr b"
    and "bindE (mapE (run ds') fs) (seal_batch gen role p ds') = Inr b'"
  shows "until d (batch_decisions b) = until d (batch_decisions b')
    \<and> intents_until d (batch_intents b) = intents_until d (batch_intents b')"
proof -
  obtain ps qs where p: "mapE (run ds) fs = Inr ps" "seal_batch gen role p ds ps = Inr b"
    and q: "mapE (run ds') fs = Inr qs" "seal_batch gen role p ds' qs = Inr b'"
    using assms(3,4) by (auto simp: res_simps)
  have b: "batch_decisions b = sort_key decision_key (concat (map fst ps))" "batch_intents b = sort_key intent_key (concat (map snd ps))"
    "batch_decisions b' = sort_key decision_key (concat (map fst qs))" "batch_intents b' = sort_key intent_key (concat (map snd qs))"
    using p(2) q(2) by (auto simp: seal_batch_def mk_batch_def guards_Inr_iff)
  show ?thesis using parts_agree [OF assms(1,2) p(1) q(1)] by (simp add: b until_def intents_until_def filter_sort)
qed

end

lemma fold_batch_cong:
  assumes "\<And>x. decided_session x = hd (test f) \<Longrightarrow> intent x = intent' x"
  shows "fold_batch gen role sname is intent f m = fold_batch gen role sname is intent' f m"
proof (cases "mapE (decide_instrument gen role sname (fold_id f) (hd (test f)) m) is")
  case (Inr xs)
  have "mapE intent (filter selected xs) = mapE intent' (filter selected xs)"
  proof (rule mapE_cong [OF refl])
    fix x assume "x \<in> set (filter selected xs)"
    then show "intent x = intent' x" using mapE_set [OF Inr] decide_instrument_Inr assms by (metis filter_is_subset subsetD)
  qed
  then show ?thesis by (simp add: fold_batch_def Inr)
qed (simp add: fold_batch_def)

lemma intent_for_agree:
  assumes "agree_until D ds ds'" and "hd (test f) \<le> D" and "decided_session x = hd (test f)"
  shows "intent_for ds is slot a g h sh e x = intent_for ds' is slot a g h sh e x"
  using bar_at_agree [OF assms(1,2)] assms(3) by (simp add: intent_for_def cong: option.case_cong)

lemma screen_weight_agree:
  "agree_until D ds ds' \<Longrightarrow> d \<le> D \<Longrightarrow> screen_weight ds slot d = screen_weight ds' slot d"
  by (rule ext) (simp add: screen_weight_def bar_at_agree)

lemma weight_fold_local:
  assumes "agree_until D ds ds'" and "hd (test f) \<le> D"
  shows "weight_fold c ds is policy capital f = weight_fold c ds' is policy capital f"
  unfolding weight_fold_def weight_reasons_def Let_def screen_weight_agree [OF assms]
  by (rule fold_batch_cong) (rule intent_for_agree [OF assms])

definition ordered_calendar :: "evaluation_dataset \<Rightarrow> bool" where
  "ordered_calendar ds = strictly_sorted (ds_sessions ds)"

lemma mk_dataset_ordered: "mk_dataset ds0 = Inr ds \<Longrightarrow> ordered_calendar ds"
  by (auto simp: mk_dataset_def guards_Inr_iff dataset_guards_def ordered_calendar_def)

lemma screen_momentum_agree:
  assumes "ordered_calendar ds" and "agree_until D ds ds'" and "d \<le> D" and "session_position ds d = Inr n"
    and "0 < lookback_sessions c"
  shows "screen_momentum c ds d n = screen_momentum c ds' d n"
proof (rule ext)
  fix i :: pit_instrument
  have s: "ds_sessions ds' = ds_sessions ds" using assms(2) by (simp add: agree_until_def)
  have "bar_at ds (ds_sessions ds ! nat (n - lookback_sessions c)) (pit_symbol i)
      = bar_at ds' (ds_sessions ds ! nat (n - lookback_sessions c)) (pit_symbol i)" if "\<not> n - lookback_sessions c < 0"
  proof (rule bar_at_agree [OF assms(2)])
    have n: "n = int (index_of (ds_sessions ds) d)" "d \<in> set (ds_sessions ds)"
      using assms(4) by (auto simp: session_position_def split: if_splits)
    then have "nat (n - lookback_sessions c) < index_of (ds_sessions ds) d" using assms(5) that by simp
    then have "ds_sessions ds ! nat (n - lookback_sessions c) < d"
      using assms(1) nth_index_of [OF n(2)] by (metis ordered_calendar_def sorted_wrt_nth_less)
    then show "ds_sessions ds ! nat (n - lookback_sessions c) \<le> D" using assms(3) by simp
  qed
  then show "screen_momentum c ds d n i = screen_momentum c ds' d n i"
    using bar_at_agree [OF assms(2,3)] by (simp add: screen_momentum_def s Let_def)
qed

lemma momentum_fold_local:
  assumes "ordered_calendar ds" and "agree_until D ds ds'" and "hd (test f) \<le> D" and "0 < lookback_sessions c"
  shows "momentum_fold c ds is policy capital f = momentum_fold c ds' is policy capital f"
proof (cases "session_position ds (hd (test f))")
  case (Inl e)
  then show ?thesis using assms(2) by (simp add: momentum_fold_def session_position_def agree_until_def Let_def split: if_splits)
next
  case (Inr n)
  then have n: "session_position ds' (hd (test f)) = Inr n"
    using assms(2) by (simp add: session_position_def agree_until_def split: if_splits)
  have buy: "can_buy ds (hd (test f)) slot = can_buy ds' (hd (test f)) slot" for slot
    by (rule ext) (simp add: can_buy_def bar_at_agree [OF assms(2,3)])
  show ?thesis
    unfolding momentum_fold_def momentum_reasons_def Let_def Inr n bindE_Inr buy
      screen_momentum_agree [OF assms(1-3) Inr assms(4)]
    by (rule fold_batch_cong) (rule intent_for_agree [OF assms(2,3)])
qed

definition momentum_usable :: "momentum_config \<Rightarrow> evaluation_dataset \<Rightarrow> bool" where
  "momentum_usable c ds = (ordered_calendar ds \<and> 0 < lookback_sessions c)"

interpretation momentum: point_in_time_generator "\<lambda>ds. momentum_fold c ds is policy capital" "momentum_usable c"
  for c "is" policy capital
proof
  show "momentum_usable c ds \<Longrightarrow> agree_until d ds ds' \<Longrightarrow> hd (test f) \<le> d
      \<Longrightarrow> momentum_fold c ds is policy capital f = momentum_fold c ds' is policy capital f" for ds d ds' f
    by (simp add: momentum_usable_def momentum_fold_local)
  show "momentum_fold c ds is policy capital f = Inr part \<Longrightarrow> stamped f part" for ds f part
    by (auto simp: momentum_fold_def Let_def res_simps intro: fold_batch_stamped)
qed

interpretation weight: point_in_time_generator "\<lambda>ds. weight_fold c ds is policy capital" "\<lambda>_. True"
  for c "is" policy capital
  by unfold_locales (auto simp: weight_fold_local, simp add: weight_fold_def Let_def fold_batch_stamped)

lemma mk_momentum_config_Inr:
  assumes "mk_momentum_config c0 = Inr c"
  shows "0 < lookback_sessions c" "0 < maximum_positions c" "0 < momentum_holding c" "0 < dval (momentum_exposure c)"
    "dval (momentum_exposure c) < 1"
  using assms by (auto simp: mk_momentum_config_def guards_Inr_iff momentum_guards_def positive_integer_def
      base_fraction_def base_positive_def le_iff_dval)

lemma generate_momentum_Inr:
  assumes "generate_momentum c p ds is policy capital = Inr b"
  shows "bindE (mapE (momentum_fold c ds is policy capital) (folds p)) (seal_batch (momentum_id c) STRATEGY p ds) = Inr b"
    and "validate_inputs p ds is capital (momentum_holding c) = Inr ()" and "momentum_holding c \<le> label_horizon p"
  using assms by (auto simp: generate_momentum_def guards_Inr_iff res_simps)

lemma generate_weight_Inr:
  assumes "generate_weight c p ds is policy capital = Inr b"
  shows "bindE (mapE (weight_fold c ds is policy capital) (folds p)) (seal_batch (weight_id c) BENCHMARK p ds) = Inr b"
    and "validate_inputs p ds is capital (weight_holding c) = Inr ()" and "weight_holding c \<le> label_horizon p"
  using assms by (auto simp: generate_weight_def guards_Inr_iff res_simps)

text \<open>C4: Momentum does not look ahead: on two datasets with the same calendar and sources that agree on the bars up to a
date, two returned batches have the same decisions (scores, reasons and evidence included) and the same intents for
every signal session up to that date.\<close>

theorem momentum_no_lookahead:
  assumes "mk_momentum_config c0 = Inr c" and "mk_dataset ds0 = Inr ds" and "agree_until d ds ds'"
    and "generate_momentum c p ds is policy capital = Inr b"
    and "generate_momentum c p ds' is policy capital = Inr b'"
  shows "filter (\<lambda>x. decided_session x \<le> d) (batch_decisions b) = filter (\<lambda>x. decided_session x \<le> d) (batch_decisions b')
    \<and> filter (\<lambda>t. signal_session (intent_order t) \<le> d) (batch_intents b)
      = filter (\<lambda>t. signal_session (intent_order t) \<le> d) (batch_intents b')"
proof -
  have "momentum_usable c ds"
    using mk_momentum_config_Inr(1) [OF assms(1)] mk_dataset_ordered [OF assms(2)] by (simp add: momentum_usable_def)
  then show ?thesis
    using momentum.batches_agree [OF _ assms(3) generate_momentum_Inr(1) [OF assms(4)] generate_momentum_Inr(1) [OF assms(5)]]
    by (simp add: until_def intents_until_def)
qed

lemma weight_no_lookahead:
  assumes "agree_until d ds ds'" and "generate_weight c p ds is policy capital = Inr b"
    and "generate_weight c p ds' is policy capital = Inr b'"
  shows "until d (batch_decisions b) = until d (batch_decisions b')
    \<and> intents_until d (batch_intents b) = intents_until d (batch_intents b')"
  by (rule weight.batches_agree [OF _ assms(1) generate_weight_Inr(1) [OF assms(2)] generate_weight_Inr(1) [OF assms(3)]]) simp

end
