(* ===== verification/Selection.thy ===== *)
theory Selection
  imports Generators Ledger
begin

text \<open>
  What a returned momentum batch selected: one decision per instrument and fold, and an instrument is selected
  exactly when it qualifies and fewer than the maximum number of qualifying instruments rank before it.
\<close>

section \<open>The decisions of one fold\<close>

lemma distinct_map_sort: "distinct (map g (sort_key f xs)) \<longleftrightarrow> distinct (map g xs)"
  using mset_eq_imp_distinct_iff [of "map g (sort_key f xs)" "map g xs"] by simp

lemma distinct_map_refine:
  assumes "distinct (map g xs)" and "\<And>x y. f x = f y \<Longrightarrow> g x = g y"
  shows "distinct (map f xs)"
  using assms unfolding distinct_map inj_on_def by blast

lemma seal_batch_Inr:
  assumes "seal_batch gen role p ds parts = Inr b"
  shows "batch_decisions b = sort_key decision_key (concat (map fst parts))"
    and "batch_intents b = sort_key intent_key (concat (map snd parts))"
    and "distinct (map candidate_key (concat (map fst parts)))"
proof -
  have d: "distinct (map candidate_key (sort_key decision_key (concat (map fst parts))))"
    and b: "batch_decisions b = sort_key decision_key (concat (map fst parts))"
      "batch_intents b = sort_key intent_key (concat (map snd parts))"
    using assms by (auto simp: seal_batch_def mk_batch_def guards_Inr_iff batch_guards_def)
  show "batch_decisions b = sort_key decision_key (concat (map fst parts))"
    "batch_intents b = sort_key intent_key (concat (map snd parts))" by (rule b)+
  show "distinct (map candidate_key (concat (map fst parts)))" using d by (simp add: distinct_map_sort)
qed

lemma admit_all:
  "foldE (admit_instrument ds) seen is = Inr seen' \<Longrightarrow>
    distinct (map pit_symbol is) \<and> set (map pit_symbol is) \<inter> fst seen = {}
    \<and> (\<forall>i \<in> set is. pit_universe i \<in> set (ds_universes ds))"
proof (induction "is" arbitrary: seen)
  case (Cons i "is")
  then obtain s where s: "admit_instrument ds seen i = Inr s" "foldE (admit_instrument ds) s is = Inr seen'"
    by (auto simp: res_simps)
  from s(1) have "fst s = insert (pit_symbol i) (fst seen)" "pit_symbol i \<notin> fst seen" "pit_universe i \<in> set (ds_universes ds)"
    by (auto simp: admit_instrument_def guards_Inr_iff unique_member_def)
  then show ?case using Cons.IH [OF s(2)] by auto
qed simp

lemma validate_inputs_Inr:
  assumes "validate_inputs p ds is capital holding = Inr u"
  shows "distinct (map pit_symbol is)" and "sorted (map pit_symbol is)"
    and "\<forall>i \<in> set is. pit_universe i \<in> set (ds_universes ds)"
    and "ds_sessions ds = ordered_sessions p" and "\<forall>f \<in> set (folds p). holding + 1 \<le> int (length (test f))"
    and "0 < dval capital"
proof -
  obtain s where s: "foldE (admit_instrument ds) ({}, {}) is = Inr s"
    and t: "is = sort_key pit_symbol is" "ds_sessions ds = ordered_sessions p"
      "\<forall>f \<in> set (folds p). holding + 1 \<le> int (length (test f))" "0 < dval capital"
    using assms unfolding validate_inputs_def guards_Inr_iff bindE_eq_Inr
    by (fastforce simp: base_positive_def le_iff_dval not_less not_le)
  have "sorted (map pit_symbol (sort_key pit_symbol is))" by simp
  then show "sorted (map pit_symbol is)" using t(1) by metis
  show "distinct (map pit_symbol is)" "\<forall>i \<in> set is. pit_universe i \<in> set (ds_universes ds)"
    using admit_all [OF s] by auto
  show "ds_sessions ds = ordered_sessions p" "\<forall>f \<in> set (folds p). holding + 1 \<le> int (length (test f))" "0 < dval capital"
    using t by auto
qed

lemma built_folds:
  assumes "built p"
  shows "distinct (map fold_id (folds p))" and "strictly_sorted (concat (map test (folds p)))"
    and "\<forall>f \<in> set (folds p). fold_ok f \<and> placed p f"
proof -
  obtain p0 raw where p: "mapE mk_fold raw = Inr (folds p0)" "mk_plan p0 = Inr p" using assms by (auto simp: built_def)
  note m = mk_plan_Inr [OF p(2)]
  have eq: "folds p = folds p0" "placed p = placed p0" by (subst m(3), simp add: placed_def fun_eq_iff)+
  obtain s where s: "foldE (walk p0) walk_start (folds p0) = Inr s" using m(2) by blast
  have "walked s" using walking.run_inv [OF walked_start] construct_walk_fold [OF p(1), of p0 walk_start] s by metis
  moreover have "seen_ids s = map fold_id (folds p0)" "seen_tests s = concat (map test (folds p0))"
    using walk_collects [OF s] by (simp_all add: walk_start_def)
  ultimately show "distinct (map fold_id (folds p))" "strictly_sorted (concat (map test (folds p)))"
    by (simp_all add: walked_def eq)
  have "fold_ok f" if "f \<in> set (folds p0)" for f using mapE_set [OF p(1) that] mk_fold_Inr(1) by metis
  then show "\<forall>f \<in> set (folds p). fold_ok f \<and> placed p f" using walk_places [OF s] by (simp add: eq list_all_iff)
qed

definition fold_stamped :: "fold \<Rightarrow> signal_decision list \<times> trade_intent list \<Rightarrow> bool" where
  "fold_stamped f part = (\<forall>x \<in> set (fst part). decided_fold x = fold_id f)"

lemma heads_distinct:
  assumes "distinct (concat (map h fs))" and "\<forall>f \<in> set fs. h f \<noteq> []"
  shows "distinct (map (\<lambda>f. hd (h f)) fs)"
  using assms
proof (induction fs)
  case (Cons f fs)
  have "hd (h f) \<noteq> hd (h g)" if "g \<in> set fs" for g
  proof -
    have "hd (h f) \<in> set (h f)" "hd (h g) \<in> set (h g)" using Cons.prems(2) that by simp_all
    moreover have "set (h f) \<inter> set (h g) = {}" using Cons.prems(1) that by auto
    ultimately show ?thesis by auto
  qed
  then show ?case using Cons by auto
qed simp

text \<open>A fold's share of a concatenation is found again by its tag.\<close>

lemma parts_filter:
  assumes "list_all2 (\<lambda>f part. \<forall>x \<in> set (sel part). key x = tag f) fs ps" and "distinct (map tag fs)" and "k < length fs"
  shows "filter (\<lambda>x. key x = tag (fs ! k)) (concat (map sel ps)) = sel (ps ! k)"
  using assms
proof (induction fs ps arbitrary: k rule: list_all2_induct)
  case (Cons f fs part ps)
  have x: "\<forall>x \<in> set (sel part). key x = tag f" using Cons.hyps(1) .
  show ?case
  proof (cases k)
    case 0
    have "\<forall>x \<in> set (concat (map sel ps)). key x \<noteq> tag f"
    proof
      fix x assume "x \<in> set (concat (map sel ps))"
      then obtain q where "q \<in> set ps" "x \<in> set (sel q)" by auto
      then obtain g where "g \<in> set fs" "key x = tag g" using list_all2_member2 [OF Cons.hyps(2)] by metis
      then show "key x \<noteq> tag f" using Cons.prems(1) by (metis distinct.simps(2) image_eqI list.map(2) list.set_map)
    qed
    then show ?thesis using x 0 by (simp add: filter_id_conv filter_empty_conv)
  next
    case (Suc j)
    then have "tag (fs ! j) \<in> tag ` set fs" using Cons.prems(2) by simp
    then have "tag (fs ! j) \<noteq> tag f" using Cons.prems(1) by auto
    then show ?thesis using x Suc Cons.IH [of j] Cons.prems by (simp add: filter_empty_conv)
  qed
qed simp

lemma fold_batch_decisions:
  assumes "fold_batch gen role sname is intent f m = Inr (xs, ts)" and "sorted (map pit_symbol is)"
  shows "map decided_instrument xs = map pit_id is" and "sort_key decision_key xs = xs" and "fold_stamped f (xs, ts)"
    and "i \<in> set is \<Longrightarrow> \<exists>x \<in> set xs. \<exists>v ids. decided_instrument x = pit_id i \<and> m (pit_id i) = Some (reason x, v, ids)
      \<and> (selected x \<longleftrightarrow> reason x = ''SELECTED'')"
proof -
  note f = fold_batch_Inr(1) [OF assms(1)]
  have eqs: "decided_instrument x = pit_id i" "decided_symbol x = pit_symbol i" "decided_session x = hd (test f)"
    "decided_fold x = fold_id f" "\<exists>v ids. m (pit_id i) = Some (reason x, v, ids)" "selected x \<longleftrightarrow> reason x = ''SELECTED''"
    if "decide_instrument gen role sname (fold_id f) (hd (test f)) m i = Inr x" for i x
    using decide_instrument_Inr [OF that] by metis+
  show "map decided_instrument xs = map pit_id is"
    using f by (induction rule: list_all2_induct) (simp_all add: eqs)
  have "map decision_key xs = map (Pair (hd (test f))) (map pit_symbol is)"
    using f by (induction rule: list_all2_induct) (simp_all add: eqs decision_key_def)
  moreover have "sorted (map (Pair (hd (test f))) (map pit_symbol is))"
    using assms(2) by (simp add: sorted_map sorted_wrt_map)
  ultimately have "sorted (map decision_key xs)" by simp
  then show "sort_key decision_key xs = xs" by (rule sort_key_id_if_sorted)
  show "fold_stamped f (xs, ts)"
    using f eqs(4) by (auto simp: fold_stamped_def elim: list_all2_member2)
  show "\<exists>x \<in> set xs. \<exists>v ids. decided_instrument x = pit_id i \<and> m (pit_id i) = Some (reason x, v, ids)
      \<and> (selected x \<longleftrightarrow> reason x = ''SELECTED'')" if i: "i \<in> set is"
    using list_all2_member1 [OF f i] eqs by metis
qed


section \<open>The selection loop\<close>

definition chosen_of :: "int \<Rightarrow> (ranked \<Rightarrow> bool) \<Rightarrow> ranked list \<Rightarrow> ranked list" where
  "chosen_of n ok ks = take (nat n) (filter ok ks)"

definition cand_id :: "ranked \<Rightarrow> string" where
  "cand_id k = pit_id (cand_instrument k)"

definition fate :: "int \<Rightarrow> (ranked \<Rightarrow> bool) \<Rightarrow> ranked list \<Rightarrow> ranked \<Rightarrow> string" where
  \<comment> \<open>the reason a candidate ends with\<close>
  "fate n ok ks k = (if \<not> ok k then ''INSUFFICIENT_SLOT_NOTIONAL''
     else if k \<in> set (chosen_of n ok ks) then ''SELECTED'' else ''OUTSIDE_POSITION_RANK'')"

definition fated :: "int \<Rightarrow> (ranked \<Rightarrow> bool) \<Rightarrow> ranked list \<Rightarrow> (string \<rightharpoonup> verdict) \<Rightarrow> ranked \<Rightarrow> bool" where
  "fated n ok ks m k = (\<exists>v ids. m (cand_id k) = Some (fate n ok ks k, v, ids))"

lemma select_loop:
  assumes "distinct (map cand_id ks)"
  shows "\<exists>m'. foldl (select_momentum c ok) ({}, m) ks = (set (map cand_id (chosen_of (maximum_positions c) ok ks)), m')
    \<and> (\<forall>k \<in> set ks. fated (maximum_positions c) ok ks m' k) \<and> (\<forall>x. x \<notin> set (map cand_id ks) \<longrightarrow> m' x = m x)"
  using assms
proof (induction ks rule: rev_induct)
  case Nil
  then show ?case by (simp add: chosen_of_def)
next
  case (snoc k ks)
  let ?n = "maximum_positions c"
  let ?old = "chosen_of ?n ok ks"
  obtain m' where m': "foldl (select_momentum c ok) ({}, m) ks = (set (map cand_id ?old), m')"
    "\<forall>k \<in> set ks. fated ?n ok ks m' k" "\<forall>x. x \<notin> set (map cand_id ks) \<longrightarrow> m' x = m x"
    using snoc by auto
  have fresh: "cand_id k \<notin> set (map cand_id ks)" "k \<notin> set ks" using snoc.prems by auto
  have "distinct (map cand_id (filter ok ks))" using snoc.prems by (simp add: distinct_map_filter)
  then have "distinct (map cand_id ?old)" by (simp add: chosen_of_def flip: take_map)
  then have card: "card (set (map cand_id ?old)) = length ?old" using distinct_card by fastforce
  have old: "length ?old = min (length (filter ok ks)) (nat ?n)" by (simp add: chosen_of_def)
  have new: "chosen_of ?n ok (ks @ [k]) = ?old @ (if ok k \<and> length (filter ok ks) < nat ?n then [k] else [])"
    by (auto simp: chosen_of_def)
  have sub: "set ?old \<subseteq> set ks" by (auto simp: chosen_of_def dest: in_set_takeD)
  have "\<exists>v ids. select_momentum c ok (set (map cand_id ?old), m') k
      = (set (map cand_id (chosen_of ?n ok (ks @ [k]))), m'(cand_id k \<mapsto> (fate ?n ok (ks @ [k]) k, v, ids)))"
    unfolding select_momentum_def fate_def new card [symmetric] using sub fresh(2) card old
    by (auto simp: Let_def cand_id_def)
  then obtain v ids where s: "select_momentum c ok (set (map cand_id ?old), m') k
      = (set (map cand_id (chosen_of ?n ok (ks @ [k]))), m'(cand_id k \<mapsto> (fate ?n ok (ks @ [k]) k, v, ids)))" by blast
  define m2 where "m2 = m'(cand_id k \<mapsto> (fate ?n ok (ks @ [k]) k, v, ids))"
  have f: "foldl (select_momentum c ok) ({}, m) (ks @ [k]) = (set (map cand_id (chosen_of ?n ok (ks @ [k]))), m2)"
    using s by (simp add: m'(1) m2_def)
  have "fated ?n ok (ks @ [k]) m2 j" if "j \<in> set ks" for j
  proof -
    have "cand_id j \<noteq> cand_id k" using that fresh(1) by (metis imageI list.set_map)
    moreover have "fate ?n ok (ks @ [k]) j = fate ?n ok ks j" using that fresh by (auto simp: fate_def new)
    ultimately show ?thesis using m'(2) that by (simp add: fated_def m2_def)
  qed
  moreover have "fated ?n ok (ks @ [k]) m2 k" by (simp add: fated_def m2_def)
  moreover have "\<forall>x. x \<notin> set (map cand_id (ks @ [k])) \<longrightarrow> m2 x = m x" using m'(3) by (simp add: m2_def)
  ultimately show ?case using f by auto
qed

lemma taken_iff_fewer_before:
  fixes r :: "'a \<Rightarrow> 'b :: linorder"
  assumes "sorted_wrt (\<lambda>a b. r a < r b) xs" and "x \<in> set xs"
  shows "x \<in> set (take n xs) \<longleftrightarrow> card {y \<in> set xs. r y < r x} < n"
proof -
  obtain i where i: "i < length xs" "x = xs ! i" using assms(2) by (auto simp: in_set_conv_nth)
  have less: "r (xs ! j) < r (xs ! k) \<longleftrightarrow> j < k" if "j < length xs" "k < length xs" for j k
    using sorted_wrt_nth_less [OF assms(1)] that by (metis linorder_neqE_nat order_less_asym order_less_irrefl)
  have inj: "xs ! j = xs ! k \<longleftrightarrow> j = k" if "j < length xs" "k < length xs" for j k
    using less that by (metis linorder_neqE_nat order_less_irrefl)
  have "{y \<in> set xs. r y < r x} = nth xs ` {0..<i}"
    using less i by (auto simp: in_set_conv_nth) (metis order_less_trans)
  then have "{y \<in> set xs. r y < r x} = set (take i xs)" using nth_image [of i xs] i(1) by simp
  moreover have "distinct (take i xs)" using inj by (auto simp: distinct_conv_nth)
  ultimately have c: "card {y \<in> set xs. r y < r x} = i" using distinct_card [of "take i xs"] i(1) by simp
  have "x \<in> set (take n xs) \<longleftrightarrow> i < n"
    using inj i by (auto simp: in_set_conv_nth intro: exI [of _ i])
  then show ?thesis by (simp add: c)
qed

section \<open>Who is selected\<close>

definition momentum_bars ::
  "momentum_config \<Rightarrow> evaluation_dataset \<Rightarrow> date \<Rightarrow> pit_instrument \<Rightarrow> (simulation_bar \<times> simulation_bar) option" where
  \<comment> \<open>the bars at the start and at the end of the lookback, when there are both\<close>
  "momentum_bars c ds d i = (let n = int (index_of (ds_sessions ds) d) - lookback_sessions c in
     if n < 0 then None
     else case (bar_at ds (ds_sessions ds ! nat n) (pit_symbol i), bar_at ds d (pit_symbol i)) of
       (Some a, Some b) \<Rightarrow> Some (a, b) | _ \<Rightarrow> None)"

definition momentum_of :: "momentum_config \<Rightarrow> evaluation_dataset \<Rightarrow> date \<Rightarrow> pit_instrument \<Rightarrow> decimal" where
  "momentum_of c ds d i = (case momentum_bars c ds d i of None \<Rightarrow> 0
     | Some (a, b) \<Rightarrow> dquot (bar_close b) (bar_close a) - 1)"

definition turnover_of :: "momentum_config \<Rightarrow> evaluation_dataset \<Rightarrow> date \<Rightarrow> pit_instrument \<Rightarrow> decimal" where
  "turnover_of c ds d i = (case momentum_bars c ds d i of None \<Rightarrow> 0 | Some (a, b) \<Rightarrow> bar_turnover b)"

definition rising :: "momentum_config \<Rightarrow> evaluation_dataset \<Rightarrow> date \<Rightarrow> pit_instrument \<Rightarrow> bool" where
  \<comment> \<open>eligible and traded on the date, with a momentum above the minimum\<close>
  "rising c ds d i = (d \<in> set (eligible_sessions i) \<and> (case momentum_bars c ds d i of None \<Rightarrow> False
     | Some (a, b) \<Rightarrow> tradable b \<and> 0 < bar_volume b \<and> minimum_momentum c \<le> momentum_of c ds d i))"

definition qualifies :: "momentum_config \<Rightarrow> evaluation_dataset \<Rightarrow> decimal \<Rightarrow> date \<Rightarrow> pit_instrument \<Rightarrow> bool" where
  \<comment> \<open>and one tick-rounded share is within the slot\<close>
  "qualifies c ds slot d i = (rising c ds d i \<and> (case momentum_bars c ds d i of None \<Rightarrow> False
     | Some (a, b) \<Rightarrow> affordable slot i b))"

definition outranks :: "momentum_config \<Rightarrow> evaluation_dataset \<Rightarrow> date \<Rightarrow> pit_instrument \<Rightarrow> pit_instrument \<Rightarrow> bool" where
  \<comment> \<open>higher momentum, then higher turnover, then the symbol\<close>
  "outranks c ds d j i = (momentum_of c ds d i < momentum_of c ds d j
     \<or> (deq (momentum_of c ds d i) (momentum_of c ds d j)
        \<and> (turnover_of c ds d i < turnover_of c ds d j
          \<or> (deq (turnover_of c ds d i) (turnover_of c ds d j) \<and> pit_symbol j < pit_symbol i))))"

definition ranked_at :: "momentum_config \<Rightarrow> evaluation_dataset \<Rightarrow> date \<Rightarrow> pit_instrument \<Rightarrow> ranked" where
  "ranked_at c ds d i = \<lparr>cand_momentum = momentum_of c ds d i, cand_turnover = turnover_of c ds d i, cand_instrument = i,
     cand_evidence = (case momentum_bars c ds d i of None \<Rightarrow> [] | Some (a, b) \<Rightarrow> [bar_id a, bar_id b])\<rparr>"

lemma screen_momentum_cases:
  assumes "n = int (index_of (ds_sessions ds) d)"
  shows "rising c ds d i \<Longrightarrow> screen_momentum c ds d n i = Candidate (ranked_at c ds d i)"
    and "\<not> rising c ds d i \<Longrightarrow> \<exists>r v ids. screen_momentum c ds d n i = Ruled_Out (r, v, ids) \<and> r \<noteq> ''SELECTED''"
proof -
  let ?k = "n - lookback_sessions c"
  have b: "momentum_bars c ds d i = (if ?k < 0 then None
     else case (bar_at ds (ds_sessions ds ! nat ?k) (pit_symbol i), bar_at ds d (pit_symbol i)) of
       (Some a, Some b) \<Rightarrow> Some (a, b) | _ \<Rightarrow> None)"
    by (simp add: momentum_bars_def Let_def assms)
  show "screen_momentum c ds d n i = Candidate (ranked_at c ds d i)" if "rising c ds d i"
  proof -
    obtain a x where m: "momentum_bars c ds d i = Some (a, x)" and r: "d \<in> set (eligible_sessions i)" "tradable x"
      "0 < bar_volume x" "minimum_momentum c \<le> momentum_of c ds d i"
      using \<open>rising c ds d i\<close> by (auto simp: rising_def split: option.splits)
    have k: "\<not> ?k < 0" "bar_at ds (ds_sessions ds ! nat ?k) (pit_symbol i) = Some a" "bar_at ds d (pit_symbol i) = Some x"
      using m unfolding b by (auto split: if_splits option.splits)
    show ?thesis using r k m
      by (simp add: screen_momentum_def Let_def ranked_at_def momentum_of_def turnover_of_def le_iff_dval less_iff_dval)
  qed
  show "\<exists>r v ids. screen_momentum c ds d n i = Ruled_Out (r, v, ids) \<and> r \<noteq> ''SELECTED''" if no: "\<not> rising c ds d i"
  proof (cases "momentum_bars c ds d i")
    case None
    then show ?thesis unfolding b by (auto simp: screen_momentum_def Let_def split: if_splits option.splits)
  next
    case (Some p)
    obtain a x where p: "p = (a, x)" by (cases p)
    have k: "\<not> ?k < 0" "bar_at ds (ds_sessions ds ! nat ?k) (pit_symbol i) = Some a" "bar_at ds d (pit_symbol i) = Some x"
      using Some p unfolding b by (auto split: if_splits option.splits)
    show ?thesis using no k Some p
      by (auto simp: screen_momentum_def Let_def rising_def momentum_of_def le_iff_dval less_iff_dval)
  qed
qed

lemma candidates_momentum:
  assumes "n = int (index_of (ds_sessions ds) d)"
  shows "candidates (screen_momentum c ds d n) is = map (ranked_at c ds d) (filter (rising c ds d) is)"
proof (induction "is")
  case (Cons i "is")
  show ?case
  proof (cases "rising c ds d i")
    case True
    then show ?thesis using Cons screen_momentum_cases(1) [OF assms True] by (simp add: candidates_def)
  next
    case False
    then show ?thesis using Cons screen_momentum_cases(2) [OF assms False] by (auto simp: candidates_def)
  qed
qed (simp add: candidates_def)

lemma rank_outranks:
  "momentum_rank (ranked_at c ds d j) < momentum_rank (ranked_at c ds d i) \<longleftrightarrow> outranks c ds d j i"
proof -
  have r: "repr (momentum_of c ds d k)" "repr (turnover_of c ds d k)" for k
    by (auto simp: momentum_of_def turnover_of_def bar_turnover_def split: option.splits)
  show ?thesis
    by (auto simp: momentum_rank_def ranked_at_def outranks_def dval_uminus [OF r(1)] dval_uminus [OF r(2)]
        less_prod_def' less_iff_dval deq_iff_dval)
qed


lemma ruled_keys: "set (map fst (ruled_out screen is)) \<subseteq> set (map pit_id is)"
  by (induction "is") (auto simp: ruled_out_def split: screening.splits)

lemma ruled_distinct: "distinct (map pit_id is) \<Longrightarrow> distinct (map fst (ruled_out screen is))"
proof (induction "is")
  case (Cons i "is")
  then have "pit_id i \<notin> set (map fst (ruled_out screen is))" using ruled_keys [of screen "is"] by auto
  then show ?case using Cons by (cases "screen i") (simp_all add: ruled_out_def)
qed (simp add: ruled_out_def)

lemma ruled_lookup:
  assumes "distinct (map pit_id is)" and "i \<in> set is" and "screen i = Ruled_Out v"
  shows "record_all (ruled_out screen is) (pit_id i) = Some v"
proof -
  have "(pit_id i, v) \<in> set (case screen i of Ruled_Out v \<Rightarrow> [(pit_id i, v)] | Candidate _ \<Rightarrow> [])" by (simp add: assms(3))
  then have "(pit_id i, v) \<in> set (ruled_out screen is)" using assms(2) unfolding ruled_out_def set_concat set_map by blast
  moreover have "distinct (map fst (rev (ruled_out screen is)))"
    using ruled_distinct [OF assms(1)] by (simp flip: rev_map)
  ultimately show ?thesis by (simp add: record_all_def map_of_eq_Some_iff)
qed

lemma qualifies_buy: "qualifies c ds slot d i \<longleftrightarrow> rising c ds d i \<and> can_buy ds d slot (ranked_at c ds d i)"
proof (cases "momentum_bars c ds d i")
  case None
  then show ?thesis by (simp add: qualifies_def rising_def)
next
  case (Some p)
  then obtain a b where "p = (a, b)" "bar_at ds d (pit_symbol i) = Some b"
    by (auto simp: momentum_bars_def Let_def split: if_splits option.splits)
  then show ?thesis using Some by (simp add: qualifies_def can_buy_def ranked_at_def)
qed

lemma chosen_iff:
  assumes "distinct (map pit_symbol is)" and "i \<in> set is" and "rising c ds d i"
  shows "ranked_at c ds d i \<in> set (chosen_of n (can_buy ds d slot)
      (sort_key momentum_rank (map (ranked_at c ds d) (filter (rising c ds d) is))))
    \<longleftrightarrow> qualifies c ds slot d i \<and> int (card {j \<in> set is. qualifies c ds slot d j \<and> outranks c ds d j i}) < n"
proof -
  let ?at = "ranked_at c ds d" and ?Q = "filter (qualifies c ds slot d) is"
  let ?xs = "sort_key momentum_rank (map ?at ?Q)"
  have "qualifies c ds slot d = (\<lambda>x. rising c ds d x \<and> can_buy ds d slot (?at x))" by (rule ext) (rule qualifies_buy)
  then have "filter (can_buy ds d slot) (map ?at (filter (rising c ds d) is)) = map ?at ?Q"
    by (simp add: filter_map comp_def)
  then have xs: "filter (can_buy ds d slot) (sort_key momentum_rank (map ?at (filter (rising c ds d) is))) = ?xs"
    by (simp add: filter_sort)
  have rank: "momentum_rank (?at j) = momentum_rank (?at k) \<Longrightarrow> pit_symbol j = pit_symbol k" for j k
    by (simp add: momentum_rank_def ranked_at_def)
  have inj: "?at j = ?at k \<longleftrightarrow> j = k" for j k by (auto simp: ranked_at_def)
  have "distinct (map pit_symbol ?Q)" using assms(1) by (simp add: distinct_map_filter)
  then have "distinct (map (momentum_rank \<circ> ?at) ?Q)" by (rule distinct_map_refine) (unfold comp_apply, rule rank)
  then have "distinct (map momentum_rank ?xs)" unfolding distinct_map_sort map_map .
  moreover have "sorted (map momentum_rank ?xs)" by simp
  ultimately have "strictly_sorted (map momentum_rank ?xs)" by (simp add: strict_sorted_iff)
  then have sorted: "sorted_wrt (\<lambda>a b. momentum_rank a < momentum_rank b) ?xs" by (simp add: sorted_wrt_map)
  show ?thesis
  proof (cases "qualifies c ds slot d i")
    case False
    then have "?at i \<notin> set ?xs" using inj by auto
    then show ?thesis using False unfolding chosen_of_def xs by (auto dest: in_set_takeD)
  next
    case True
    then have "?at i \<in> set ?xs" using assms(2) by auto
    note iff = taken_iff_fewer_before [OF sorted this, of "nat n"]
    have "{y \<in> set ?xs. momentum_rank y < momentum_rank (?at i)}
        = ?at ` {j \<in> set is. qualifies c ds slot d j \<and> outranks c ds d j i}"
      using rank_outranks [of c ds d _ i] by auto
    then have "card {y \<in> set ?xs. momentum_rank y < momentum_rank (?at i)}
        = card {j \<in> set is. qualifies c ds slot d j \<and> outranks c ds d j i}"
      using inj by (simp add: card_image inj_on_def)
    then show ?thesis using True iff unfolding chosen_of_def xs by auto
  qed
qed

lemma momentum_reason_of:
  assumes "distinct (map pit_id is)" and "distinct (map pit_symbol is)" and "i \<in> set is"
    and "n = int (index_of (ds_sessions ds) d)"
  shows "\<exists>r v ids. momentum_reasons c ds is slot d n (pit_id i) = Some (r, v, ids)
    \<and> (r = ''SELECTED'' \<longleftrightarrow> qualifies c ds slot d i
        \<and> int (card {j \<in> set is. qualifies c ds slot d j \<and> outranks c ds d j i}) < maximum_positions c)"
proof -
  let ?at = "ranked_at c ds d" and ?screen = "screen_momentum c ds d n" and ?ok = "can_buy ds d slot"
  define ks where "ks = sort_key momentum_rank (map ?at (filter (rising c ds d) is))"
  have ids: "cand_id (?at j) = pit_id j" for j by (simp add: cand_id_def ranked_at_def)
  have members: "set ks = ?at ` {j \<in> set is. rising c ds d j}" by (auto simp: ks_def)
  have "distinct (map (cand_id \<circ> ?at) (filter (rising c ds d) is))"
    using assms(1) by (simp add: comp_def ids distinct_map_filter)
  then have dist: "distinct (map cand_id ks)" unfolding ks_def distinct_map_sort map_map .
  obtain m where m: "momentum_reasons c ds is slot d n = m" "\<forall>k \<in> set ks. fated (maximum_positions c) ?ok ks m k"
    "\<forall>x. x \<notin> set (map cand_id ks) \<longrightarrow> m x = record_all (ruled_out ?screen is) x"
    using select_loop [OF dist, of c ?ok "record_all (ruled_out ?screen is)"]
    unfolding momentum_reasons_def Let_def candidates_momentum [OF assms(4)] ks_def by auto
  have chosen: "rising c ds d i \<Longrightarrow> ?at i \<in> set (chosen_of (maximum_positions c) ?ok ks) \<longleftrightarrow> qualifies c ds slot d i
      \<and> int (card {j \<in> set is. qualifies c ds slot d j \<and> outranks c ds d j i}) < maximum_positions c"
    unfolding ks_def by (rule chosen_iff [OF assms(2,3)])
  show ?thesis
  proof (cases "rising c ds d i")
    case True
    then have "?at i \<in> set ks" using assms(3) members by auto
    then obtain v ids where x: "m (pit_id i) = Some (fate (maximum_positions c) ?ok ks (?at i), v, ids)"
      using m(2) ids by (metis fated_def)
    have "fate (maximum_positions c) ?ok ks (?at i) = ''SELECTED'' \<longleftrightarrow> ?ok (?at i) \<and> ?at i \<in> set (chosen_of (maximum_positions c) ?ok ks)"
      by (simp add: fate_def)
    then show ?thesis using chosen [OF True] qualifies_buy [of c ds slot d i] x unfolding m(1) by auto
  next
    case False
    have "pit_id i \<notin> set (map cand_id ks)"
    proof
      assume "pit_id i \<in> set (map cand_id ks)"
      then obtain j where "j \<in> set is" "rising c ds d j" "pit_id j = pit_id i" by (auto simp: members ids)
      then show False using False assms(1,3) by (metis distinct_map inj_on_def)
    qed
    then have eq: "m (pit_id i) = record_all (ruled_out ?screen is) (pit_id i)" using m(3) by blast
    obtain r v ids where r: "?screen i = Ruled_Out (r, v, ids)" "r \<noteq> ''SELECTED''"
      using screen_momentum_cases(2) [OF assms(4) False] by blast
    have "m (pit_id i) = Some (r, v, ids)" using ruled_lookup [OF assms(1,3), of ?screen] r(1) eq by simp
    then show ?thesis using r(2) False unfolding m(1) by (auto simp: qualifies_def)
  qed
qed


definition momentum_part ::
  "momentum_config \<Rightarrow> evaluation_dataset \<Rightarrow> pit_instrument list \<Rightarrow> execution_policy \<Rightarrow> decimal \<Rightarrow> fold
    \<Rightarrow> signal_decision list \<times> trade_intent list \<Rightarrow> bool" where
  \<comment> \<open>what a fold contributed, and at which position of the calendar its signal session is\<close>
  "momentum_part c ds is policy capital f part = (\<exists>n. session_position ds (hd (test f)) = Inr n \<and> stamped f part \<and>
     fold_batch (momentum_id c) STRATEGY ''CLOSE_MOMENTUM'' is
       (intent_for ds is (momentum_slot c capital) (momentum_stop c) (momentum_target c) (momentum_holding c)
         (policy_participation policy) (test f ! 1))
       f (momentum_reasons c ds is (momentum_slot c capital) (hd (test f)) n) = Inr part)"

lemma momentum_part_stamped:
  assumes "momentum_part c ds is policy capital f part" and "sorted (map pit_symbol is)"
  shows "\<forall>x \<in> set (fst part). decided_fold x = fold_id f"
proof -
  obtain xs ts where part: "part = (xs, ts)" by (cases part)
  from assms(1) obtain intent m where "fold_batch (momentum_id c) STRATEGY ''CLOSE_MOMENTUM'' is intent f m = Inr (xs, ts)"
    unfolding momentum_part_def part by blast
  from fold_batch_decisions(3) [OF this assms(2)] show ?thesis by (simp add: fold_stamped_def part)
qed

lemma momentum_parts:
  assumes "built p" and "generate_momentum c p ds is policy capital = Inr b"
  obtains ps where "batch_decisions b = sort_key decision_key (concat (map fst ps))"
    and "batch_intents b = sort_key intent_key (concat (map snd ps))"
    and "distinct (map candidate_key (concat (map fst ps)))"
    and "list_all2 (momentum_part c ds is policy capital) (folds p) ps"
proof -
  obtain ps where ps: "mapE (momentum_fold c ds is policy capital) (folds p) = Inr ps"
    and seal: "seal_batch (momentum_id c) STRATEGY p ds ps = Inr b"
    using generate_momentum_Inr(1) [OF assms(2)] by (auto simp: res_simps)
  have "list_all2 (\<lambda>f part. momentum_fold c ds is policy capital f = Inr part) (folds p) ps"
    using ps by (simp add: mapE_eq_Inr)
  then have "list_all2 (momentum_part c ds is policy capital) (folds p) ps"
    by (rule list_all2_mono) (auto simp: momentum_part_def momentum_fold_def Let_def res_simps intro: fold_batch_stamped)
  then show ?thesis using that seal_batch_Inr [OF seal] by blast
qed

lemma momentum_fold_part:
  assumes "built p" and "generate_momentum c p ds is policy capital = Inr b" and "f \<in> set (folds p)"
  obtains xs ts n where "n = int (index_of (ds_sessions ds) (hd (test f)))" and "stamped f (xs, ts)"
    and "fold_batch (momentum_id c) STRATEGY ''CLOSE_MOMENTUM'' is
       (intent_for ds is (momentum_slot c capital) (momentum_stop c) (momentum_target c) (momentum_holding c)
         (policy_participation policy) (test f ! 1))
       f (momentum_reasons c ds is (momentum_slot c capital) (hd (test f)) n) = Inr (xs, ts)"
    and "filter (\<lambda>x. decided_fold x = fold_id f) (batch_decisions b) = xs"
    and "mset (filter (\<lambda>t. signal_session (intent_order t) = hd (test f)) (batch_intents b)) = mset ts"
    and "distinct (map pit_id is)"
proof -
  obtain ps where ps: "batch_decisions b = sort_key decision_key (concat (map fst ps))"
    "batch_intents b = sort_key intent_key (concat (map snd ps))" "distinct (map candidate_key (concat (map fst ps)))"
    and all: "list_all2 (momentum_part c ds is policy capital) (folds p) ps"
    by (rule momentum_parts [OF assms(1,2)])
  obtain k where k: "k < length (folds p)" "f = folds p ! k" using assms(3) by (auto simp: in_set_conv_nth)
  obtain xs ts where part: "ps ! k = (xs, ts)" by (cases "ps ! k")
  have "momentum_part c ds is policy capital f (xs, ts)" using list_all2_nthD [OF all k(1)] k(2) part by simp
  then obtain n where n: "session_position ds (hd (test f)) = Inr n" "stamped f (xs, ts)"
    and fb: "fold_batch (momentum_id c) STRATEGY ''CLOSE_MOMENTUM'' is
       (intent_for ds is (momentum_slot c capital) (momentum_stop c) (momentum_target c) (momentum_holding c)
         (policy_participation policy) (test f ! 1))
       f (momentum_reasons c ds is (momentum_slot c capital) (hd (test f)) n) = Inr (xs, ts)"
    by (auto simp: momentum_part_def)
  note v = validate_inputs_Inr(2) [OF generate_momentum_Inr(2) [OF assms(2)]]
  note fd = fold_batch_decisions [OF fb v]
  have "list_all2 (\<lambda>f part. \<forall>x \<in> set (fst part). decided_fold x = fold_id f) (folds p) ps"
    using all by (rule list_all2_mono) (rule momentum_part_stamped [OF _ v])
  from parts_filter [OF this built_folds(1) [OF assms(1)] k(1)]
  have x: "filter (\<lambda>x. decided_fold x = fold_id f) (concat (map fst ps)) = xs" by (simp add: part k(2))
  have "distinct (concat (map test (folds p)))" using built_folds(2) [OF assms(1)] by (simp add: strict_sorted_iff)
  moreover have "\<forall>g \<in> set (folds p). test g \<noteq> []" using built_folds(3) [OF assms(1)] fold_okD(3) by blast
  ultimately have "distinct (map (\<lambda>g. hd (test g)) (folds p))" by (rule heads_distinct)
  moreover have "list_all2 (\<lambda>f part. \<forall>t \<in> set (snd part). signal_session (intent_order t) = hd (test f)) (folds p) ps"
    using all by (rule list_all2_mono) (auto simp: momentum_part_def stamped_def)
  ultimately have "filter (\<lambda>t. signal_session (intent_order t) = hd (test f)) (concat (map snd ps)) = ts"
    using parts_filter [of snd "\<lambda>t. signal_session (intent_order t)" "\<lambda>g. hd (test g)" "folds p" ps k] k part by simp
  then have t: "mset (filter (\<lambda>t. signal_session (intent_order t) = hd (test f)) (batch_intents b)) = mset ts"
    by (simp add: ps(2) filter_sort)
  have "distinct (map candidate_key (filter (\<lambda>x. decided_fold x = fold_id f) (concat (map fst ps))))"
    using ps(3) by (rule distinct_map_filter)
  then have "distinct (map candidate_key xs)" by (simp add: x)
  moreover have "\<forall>x \<in> set xs. decided_session x = hd (test f) \<and> decided_fold x = fold_id f"
    using n(2) fd(3) by (simp add: stamped_def fold_stamped_def)
  ultimately have "distinct (map decided_instrument xs)"
    by (auto simp: distinct_map inj_on_def candidate_key_def)
  then have "distinct (map pit_id is)" using fd(1) by simp
  then show ?thesis
    using that [OF _ n(2) fb _ t] n(1) x by (auto simp: session_position_def ps(1) filter_sort fd(2) split: if_splits)
qed

text \<open>C5: A returned momentum batch has, for every fold of the plan, exactly one decision per instrument in the order of
the instruments, and an instrument is selected exactly when it qualifies (point-in-time eligible, traded at the signal
close, momentum at least the minimum, one share within the slot) and fewer than the maximum number of qualifying
instruments outrank it.\<close>

theorem momentum_selects_best:
  assumes "built p" and "generate_momentum c p ds is policy capital = Inr b" and "f \<in> set (folds p)" and "i \<in> set is"
  defines "d \<equiv> hd (test f)" and "slot \<equiv> dquot (capital * momentum_exposure c) (dec_of_int (maximum_positions c))"
  shows "map decided_instrument (filter (\<lambda>x. decided_fold x = fold_id f) (batch_decisions b)) = map pit_id is
    \<and> (\<exists>x \<in> set (batch_decisions b). decided_fold x = fold_id f \<and> decided_instrument x = pit_id i
      \<and> (selected x \<longleftrightarrow> qualifies c ds slot d i
          \<and> int (card {j \<in> set is. qualifies c ds slot d j \<and> outranks c ds d j i}) < maximum_positions c))"
proof -
  obtain xs ts n where n: "n = int (index_of (ds_sessions ds) d)"
    and fb: "fold_batch (momentum_id c) STRATEGY ''CLOSE_MOMENTUM'' is
       (intent_for ds is slot (momentum_stop c) (momentum_target c) (momentum_holding c) (policy_participation policy) (test f ! 1))
       f (momentum_reasons c ds is slot d n) = Inr (xs, ts)"
    and own: "filter (\<lambda>x. decided_fold x = fold_id f) (batch_decisions b) = xs" and ids: "distinct (map pit_id is)"
    using momentum_fold_part [OF assms(1-3)] unfolding d_def slot_def momentum_slot_def by metis
  note v = validate_inputs_Inr [OF generate_momentum_Inr(2) [OF assms(2)]]
  note fd = fold_batch_decisions [OF fb v(2)]
  obtain x u w where x: "x \<in> set xs" "decided_instrument x = pit_id i"
    "momentum_reasons c ds is slot d n (pit_id i) = Some (reason x, u, w)" "selected x \<longleftrightarrow> reason x = ''SELECTED''"
    using fd(4) [OF assms(4)] by blast
  obtain r v' ids' where "momentum_reasons c ds is slot d n (pit_id i) = Some (r, v', ids')"
    "r = ''SELECTED'' \<longleftrightarrow> qualifies c ds slot d i
        \<and> int (card {j \<in> set is. qualifies c ds slot d j \<and> outranks c ds d j i}) < maximum_positions c"
    using momentum_reason_of [OF ids v(1) assms(4) n] by blast
  then have "selected x \<longleftrightarrow> qualifies c ds slot d i
        \<and> int (card {j \<in> set is. qualifies c ds slot d j \<and> outranks c ds d j i}) < maximum_positions c" using x(3,4) by simp
  then show ?thesis using x(1,2) fd(1) own by (metis (mono_tags, lifting) filter_set mem_Collect_eq set_filter)
qed

end
