(* ===== verification/Admission.thy ===== *)
theory Admission
  imports Selection
begin

text \<open>
  The momentum generator and the evaluation engine together: every generated intent passes all of the engine's admission
  checks and its trade stays in its test window, and the orders of one fold respect the configured exposure.
\<close>

section \<open>Sessions of a test window\<close>

lemma contiguous_nth:
  assumes "contiguous cal xs" and "xs \<noteq> []" and "set xs \<subseteq> set cal" and "j < length xs"
  shows "xs ! j = cal ! (index_of cal (hd xs) + j)" and "index_of cal (hd xs) + j < length cal"
proof -
  let ?ps = "map (index_of cal) xs"
  have ps: "?ps = [index_of cal (hd xs)..<last ?ps + 1]"
    using assms(1) hd_map [OF assms(2), of "index_of cal"] unfolding contiguous_def Let_def by simp
  then have len: "length xs = last ?ps + 1 - index_of cal (hd xs)" by (metis length_map length_upt)
  have "?ps ! j = [index_of cal (hd xs)..<last ?ps + 1] ! j" by (rule arg_cong [OF ps, of "\<lambda>l. l ! j"])
  also have "\<dots> = index_of cal (hd xs) + j" by (rule nth_upt) (use assms(4) len in linarith)
  finally have "?ps ! j = index_of cal (hd xs) + j" .
  then have "index_of cal (xs ! j) = index_of cal (hd xs) + j" using assms(4) by simp
  then show "xs ! j = cal ! (index_of cal (hd xs) + j)" "index_of cal (hd xs) + j < length cal"
    using nth_index_of [of "xs ! j" cal] assms(3) nth_mem [OF assms(4)] by auto
qed

lemma index_of_absent: "x \<notin> set xs \<Longrightarrow> index_of xs x = length xs"
  by (induction xs) auto

lemma concat_disjoint:
  "distinct (concat (map h fs)) \<Longrightarrow> f \<in> set fs \<Longrightarrow> g \<in> set fs \<Longrightarrow> x \<in> set (h f) \<Longrightarrow> x \<in> set (h g) \<Longrightarrow> f = g"
  by (induction fs) auto

lemma test_fold_is:
  assumes "built p" and "f \<in> set (folds p)" and "signal_session (intent_order t) \<in> set (test f)"
  shows "test_fold p t = Some f"
proof -
  have "distinct (concat (map test (folds p)))" using built_folds(2) [OF assms(1)] by (simp add: strict_sorted_iff)
  note one = concat_disjoint [OF this assms(2)]
  show ?thesis unfolding test_fold_def by (rule find_unique) (use assms(2,3) one in \<open>blast+\<close>)
qed

section \<open>Admission\<close>

lemma generated_admitted:
  assumes p: "built p" "ds_sessions ds = ordered_sessions p" and f: "f \<in> set (folds p)" "holding + 1 \<le> int (length (test f))"
    and t: "signal_session (intent_order t) = hd (test f)" "first_eligible_session (intent_order t) = test f ! 1"
      "expiry_session (intent_order t) = test f ! 1" "entry_participation (intent_order t) = policy_participation policy"
      "max_holding t = holding" "intent_universe t \<in> set (ds_universes ds)" "\<not> fst (intent_broken t)" "0 < holding"
    and r: "label_horizon_sessions r = label_horizon p" "holding \<le> label_horizon p"
  shows "run_intent r p ds policy slip t =
    bindE (evaluate_intent t (filter (\<lambda>b. bar_symbol b = entry_symbol (intent_order t)) (ds_bars ds)) (ds_sessions ds) policy slip)
      (\<lambda>outcome. Inr (optional outcome))"
proof -
  let ?bars = "filter (\<lambda>b. bar_symbol b = entry_symbol (intent_order t)) (ds_bars ds)" and ?cal = "ds_sessions ds"
  have len: "1 < length (test f)" using f(2) t(8) by linarith
  then have ne: "test f \<noteq> []" by auto
  have "strictly_sorted ?cal" using built_tests(1) [OF p(1)] p(2) by simp
  then have dist: "distinct ?cal" by (simp add: strict_sorted_iff)
  have pl: "contiguous ?cal (test f)" "set (test f) \<subseteq> set ?cal"
    using built_folds(3) [OF p(1)] f(1) by (auto simp: placed_def Let_def p(2))
  note nth = contiguous_nth [OF pl(1) ne pl(2)]
  have fold: "test_fold p t = Some f" using test_fold_is [OF p(1) f(1)] t(1) ne by simp
  have g1: "\<forall>g \<in> set (intent_guards r ds t). \<not> fst g" using t(5-7) r by (simp add: intent_guards_def)
  have g2: "\<forall>g \<in> set (fold_guards_of f policy t). \<not> fst g" using t(2-4) len by (simp add: fold_guards_of_def Let_def)
  have inside: "fill_session (trade_entry x) \<in> set (test f) \<and> fill_session (trade_exit x) \<in> set (test f)"
    if x: "evaluate_intent t ?bars ?cal policy slip = Inr (Some x)" for x
  proof -
    have tr: "trade_of t ?cal slip x" using evaluate_intent_Some(1) [OF x] .
    then have e: "fill_session (trade_entry x) = test f ! 1" using t(2,3) by (auto simp: trade_of_def Let_def entered_def)
    let ?h = "index_of ?cal (hd (test f))"
    have h: "index_of ?cal (test f ! 1) = ?h + 1" using nth(1) [OF len] nth(2) [OF len] dist by simp
    then have b: "index_of ?cal (fill_session (trade_exit x)) < ?h + 1 + nat holding"
      using tr by (simp add: trade_of_def Let_def e t(5))
    have "?h + (length (test f) - 1) < length ?cal" using nth(2) [of "length (test f) - 1"] ne by simp
    then have "index_of ?cal (fill_session (trade_exit x)) < length ?cal" using b f(2) by linarith
    then have x_in: "fill_session (trade_exit x) \<in> set ?cal" using index_of_absent by force
    have "index_of ?cal (test f ! 1) \<le> index_of ?cal (fill_session (trade_exit x))"
      using strictly_sorted_index [OF \<open>strictly_sorted ?cal\<close> _ x_in] pl(2) nth_mem [OF len] tr
      by (auto simp: trade_of_def Let_def e)
    moreover have "nat holding + 1 \<le> length (test f)" using f(2) t(8) by linarith
    moreover define j where "j = index_of ?cal (fill_session (trade_exit x)) - ?h"
    ultimately have j: "index_of ?cal (fill_session (trade_exit x)) = ?h + j" "j < length (test f)"
      using b h by linarith+
    then have "fill_session (trade_exit x) = test f ! j" using nth_index_of [OF x_in] nth(1) [OF j(2)] by simp
    then show ?thesis using e len j(2) by simp
  qed
  show ?thesis
    unfolding run_intent_def guards_pass [OF g1] fold option.simps guards_pass [OF g2]
  proof (cases "evaluate_intent t ?bars ?cal policy slip")
    case (Inr o')
    then show "bindE (evaluate_intent t ?bars ?cal policy slip) (\<lambda>outcome. case outcome of None \<Rightarrow> Inr []
          | Some t \<Rightarrow> guards
              [(fill_session (trade_entry t) \<notin> set (test f) \<or> fill_session (trade_exit t) \<notin> set (test f),
                  eval_err ''evaluated trade crossed its preregistered test-fold boundary'')] (Inr [t]))
      = bindE (evaluate_intent t ?bars ?cal policy slip) (\<lambda>outcome. Inr (optional outcome))"
      using inside by (cases o') (auto simp: optional_def)
  qed simp
qed

section \<open>Exposure\<close>

text \<open>A rounded quotient or product exceeds the exact one by less than one part in \<open>10 ^ 27\<close>.\<close>

lemma dquot_upper:
  assumes "0 < dval b" and "0 < dval (dquot a b)"
  shows "dval (dquot a b) * (1 - 1 / 10 ^ 27) \<le> dval a / dval b"
proof -
  let ?q = "dquot a b"
  define c j where "c = dcoeff ?q" and "j = 28 - ndigits c"
  have neg: "\<not> dneg ?q" using assms(2) dval_sign(1) [of ?q] by force
  have c0: "0 < c" using assms(2) dval_zero_iff [of ?q] by (simp add: c_def dzero_def)
  have nd: "ndigits c \<le> 28" using repr_dquot [of a b] c0 ndigits_le_iff [of 28 c] by (simp add: repr_def prec_def c_def)
  define C e where "C = c * 10 ^ j" and "e = dexp ?q - int j"
  have "c * 10 ^ j < 10 ^ ndigits c * 10 ^ j" using ndigits_upper [of c] by simp
  also have "\<dots> = 10 ^ 28" using nd by (simp add: j_def flip: power_add)
  finally have hi: "C < 10 ^ 28" by (simp add: C_def)
  have "ndigits c - 1 + j = 27" using nd ndigits_pos [of c] unfolding j_def by linarith
  then have "10 ^ 27 = (10 :: nat) ^ (ndigits c - 1) * 10 ^ j" by (metis power_add)
  also have "\<dots> \<le> C" unfolding C_def using ndigits_lower [OF c0] by (rule mult_right_mono) simp
  finally have lo: "10 ^ 27 \<le> C" .
  have q: "dval ?q = of_nat C * 10 powi e"
  proof -
    have "dexp ?q = e + int j" by (simp add: e_def)
    then have "(10 :: rat) powi dexp ?q = 10 ^ j * 10 powi e" using powi10_add_nat [of e j] by simp
    then show ?thesis using neg by (simp add: dval_def dint_def C_def c_def)
  qed
  define m where "m = Dec False (C - 1) e"
  have mv: "dval m = dval ?q - 10 powi e" using lo by (simp add: m_def dval_Dec q of_nat_diff algebra_simps)
  have "\<not> dval a / dval b \<le> dval m"
  proof
    assume "dval a / dval b \<le> dval m"
    moreover have "repr m" using hi by (simp add: m_def repr_def prec_def)
    ultimately have "dval ?q \<le> dval m" using assms(1) by (intro dquot_le) (simp_all flip: dval_zero_iff)
    then show False using mv powi10_pos [of e] by linarith
  qed
  moreover have "10 powi e \<le> dval ?q / 10 ^ 27"
  proof -
    have "(10 ^ 27 :: rat) \<le> of_nat C" using lo by (metis of_nat_le_iff of_nat_numeral of_nat_power)
    then have "10 ^ 27 * 10 powi e \<le> dval ?q" unfolding q by (rule mult_right_mono) simp
    then show ?thesis by (simp add: field_simps)
  qed
  moreover have "dval ?q * (1 - 1 / 10 ^ 27) = dval ?q - dval ?q / 10 ^ 27" by (simp only: right_diff_distrib) simp
  ultimately show ?thesis using mv by linarith
qed

lemma times_upper:
  assumes "0 \<le> dval a * dval b"
  shows "dval (a * b) \<le> dval a * dval b * (1 + 1 / 10 ^ 27)"
proof -
  have "2 * 10 ^ (prec - 1) * \<bar>dval (a * b) - dval a * dval b\<bar> \<le> \<bar>dval a * dval b\<bar>"
    using dec_fix_err [of "dtimes_exact a b"] by (simp add: times_decimal_def dval_times_exact)
  then have "2 * 10 ^ 27 * \<bar>dval (a * b) - dval a * dval b\<bar> \<le> dval a * dval b" using assms by (simp add: prec_def)
  then show ?thesis using assms by (simp add: field_simps abs_if split: if_splits)
qed

definition notional :: "trade_intent \<Rightarrow> rat" where
  "notional t = of_int (entry_quantity (intent_order t)) * dval (limit_price (intent_order t))"

lemma slot_order:
  assumes "0 < dval slot" and "dval lp = l" and "0 < l" and "q = dec_int (dquot slot lp)"
  shows "of_int q * l * (1 - 1 / 10 ^ 27) \<le> dval slot"
proof -
  have pos: "0 < dval (dquot slot lp)" using assms(1-3) by (intro dquot_pos) (auto simp flip: dval_zero_iff)
  have "of_int q * (1 - 1 / 10 ^ 27) \<le> dval (dquot slot lp) * (1 - 1 / 10 ^ 27)"
    using dec_int_value [of "dquot slot lp"] pos unfolding assms(4) by (intro mult_right_mono) auto
  also have "\<dots> \<le> dval slot / l" using dquot_upper [OF _ pos] assms(2,3) by simp
  finally show ?thesis using assms(3) by (simp add: field_simps)
qed

section \<open>The intents of a momentum batch\<close>

lemma momentum_intent:
  assumes "built p" and "generate_momentum c p ds is policy capital = Inr b" and "t \<in> set (batch_intents b)"
  obtains f x i bar where "f \<in> set (folds p)" "decided_session x = hd (test f)" "i \<in> set is"
    "generated_intent x i bar (test f ! 1) (momentum_slot c capital) (momentum_stop c) (momentum_target c)
      (momentum_holding c) (policy_participation policy) = Inr t"
proof -
  obtain ps where ps: "batch_intents b = sort_key intent_key (concat (map snd ps))"
    and all: "list_all2 (momentum_part c ds is policy capital) (folds p) ps"
    by (rule momentum_parts [OF assms(1,2)])
  obtain part where part: "part \<in> set ps" "t \<in> set (snd part)" using assms(3) ps by auto
  obtain xs ts where xt: "part = (xs, ts)" by (cases part)
  obtain f where f: "f \<in> set (folds p)" "momentum_part c ds is policy capital f (xs, ts)"
    using list_all2_member2 [OF all part(1)] unfolding xt by metis
  then obtain n where "stamped f (xs, ts)" and fb: "fold_batch (momentum_id c) STRATEGY ''CLOSE_MOMENTUM'' is
        (intent_for ds is (momentum_slot c capital) (momentum_stop c) (momentum_target c) (momentum_holding c)
          (policy_participation policy) (test f ! 1))
        f (momentum_reasons c ds is (momentum_slot c capital) (hd (test f)) n) = Inr (xs, ts)"
    by (auto simp: momentum_part_def)
  obtain x where x: "x \<in> set (filter selected xs)" "intent_for ds is (momentum_slot c capital) (momentum_stop c) (momentum_target c)
      (momentum_holding c) (policy_participation policy) (test f ! 1) x = Inr t"
    using list_all2_member2 [OF fold_batch_Inr(2) [OF fb]] part(2) xt by (metis snd_conv)
  obtain i bar where i: "by_id is (decided_instrument x) = Some i"
    "generated_intent x i bar (test f ! 1) (momentum_slot c capital) (momentum_stop c) (momentum_target c)
      (momentum_holding c) (policy_participation policy) = Inr t"
    using intent_for_Inr [OF x(2)] by metis
  have "i \<in> set is" using i(1) find_member by (fastforce simp: by_id_def)
  moreover have "decided_session x = hd (test f)" using \<open>stamped f (xs, ts)\<close> x(1) by (simp add: stamped_def)
  ultimately show ?thesis using that f(1) i(2) by blast
qed

text \<open>C13: Every intent of a returned momentum batch is admitted by the evaluation engine: with a registration of the plan's
label horizon none of the engine's own checks (identity, universe, holding period, test window, participation, fold
boundary of the trade) raises, so that running the intent is just simulating it.\<close>

theorem momentum_intents_admitted:
  assumes "built p" and "mk_momentum_config c0 = Inr c" and "generate_momentum c p ds is policy capital = Inr b"
    and "label_horizon_sessions r = label_horizon p" and "t \<in> set (batch_intents b)"
  shows "run_intent r p ds policy slip t =
    bindE (evaluate_intent t (filter (\<lambda>b. bar_symbol b = entry_symbol (intent_order t)) (ds_bars ds)) (ds_sessions ds) policy slip)
      (\<lambda>outcome. Inr (case outcome of None \<Rightarrow> [] | Some x \<Rightarrow> [x]))"
proof -
  note v = validate_inputs_Inr [OF generate_momentum_Inr(2) [OF assms(3)]]
  obtain f x i bar where f: "f \<in> set (folds p)" "decided_session x = hd (test f)" "i \<in> set is"
    and g: "generated_intent x i bar (test f ! 1) (momentum_slot c capital) (momentum_stop c) (momentum_target c)
      (momentum_holding c) (policy_participation policy) = Inr t"
    by (rule momentum_intent [OF assms(1,3,5)])
  note gi = generated_intent_Inr [OF g]
  show ?thesis
    unfolding optional_def [symmetric]
    by (rule generated_admitted [OF assms(1) v(4) f(1), where holding = "momentum_holding c"])
      (use v(3,5) f gi mk_momentum_config_Inr(3) [OF assms(2)] assms(4) generate_momentum_Inr(3) [OF assms(3)] in auto)
qed

section \<open>The exposure of a fold\<close>

lemma selected_at_most:
  assumes "distinct (map pit_id is)" and "distinct (map pit_symbol is)" and n: "n = int (index_of (ds_sessions ds) d)"
    and "0 \<le> maximum_positions c"
  shows "int (card {i \<in> set is. \<exists>v ids. momentum_reasons c ds is slot d n (pit_id i) = Some (''SELECTED'', v, ids)})
    \<le> maximum_positions c"
proof -
  let ?S = "{i \<in> set is. \<exists>v ids. momentum_reasons c ds is slot d n (pit_id i) = Some (''SELECTED'', v, ids)}"
  let ?C = "chosen_of (maximum_positions c) (can_buy ds d slot)
      (sort_key momentum_rank (map (ranked_at c ds d) (filter (rising c ds d) is)))"
  have "ranked_at c ds d i \<in> set ?C" if sel: "i \<in> ?S" for i
  proof -
    have q: "qualifies c ds slot d i \<and> int (card {j \<in> set is. qualifies c ds slot d j \<and> outranks c ds d j i}) < maximum_positions c"
    proof -
      have i: "i \<in> set is" using sel by simp
      obtain v ids where s: "momentum_reasons c ds is slot d n (pit_id i) = Some (''SELECTED'', v, ids)" using sel by blast
      obtain r v' ids' where r: "momentum_reasons c ds is slot d n (pit_id i) = Some (r, v', ids')"
        and iff: "r = ''SELECTED'' \<longleftrightarrow> qualifies c ds slot d i
          \<and> int (card {j \<in> set is. qualifies c ds slot d j \<and> outranks c ds d j i}) < maximum_positions c"
        using momentum_reason_of [OF assms(1,2) i n] by blast
      have "r = ''SELECTED''" using r s by simp
      then show ?thesis using iff by blast
    qed
    then have "rising c ds d i" by (simp add: qualifies_def)
    moreover have "i \<in> set is" using sel by simp
    ultimately show ?thesis using chosen_iff [OF assms(2)] q by blast
  qed
  then have "ranked_at c ds d ` ?S \<subseteq> set ?C" by blast
  moreover have "inj_on (ranked_at c ds d) ?S" by (auto simp: inj_on_def ranked_at_def)
  ultimately have "card ?S \<le> card (set ?C)" using card_inj_on_le [of "ranked_at c ds d" ?S "set ?C"] by blast
  also have "\<dots> \<le> length ?C" by (rule card_length)
  also have "\<dots> \<le> nat (maximum_positions c)" by (simp add: chosen_of_def)
  finally show ?thesis using assms(4) by linarith
qed

lemma fold_intents_at_most:
  assumes fb: "fold_batch gen role sname is intent f (momentum_reasons c ds is slot d n) = Inr (xs, ts)"
    and v: "distinct (map pit_id is)" "distinct (map pit_symbol is)" "sorted (map pit_symbol is)"
    and "n = int (index_of (ds_sessions ds) d)" "0 \<le> maximum_positions c"
  shows "int (length ts) \<le> maximum_positions c"
proof -
  let ?m = "momentum_reasons c ds is slot d n"
  let ?S = "{i \<in> set is. \<exists>v ids. ?m (pit_id i) = Some (''SELECTED'', v, ids)}"
  note all = fold_batch_Inr(1) [OF fb]
  have "distinct (map decided_instrument xs)" using fold_batch_decisions(1) [OF fb v(3)] v(1) by simp
  then have "distinct (map decided_instrument (filter selected xs))" by (rule distinct_map_filter)
  then have "length (filter selected xs) = card (decided_instrument ` set (filter selected xs))"
    by (metis distinct_card length_map list.set_map)
  moreover have "decided_instrument ` set (filter selected xs) \<subseteq> pit_id ` ?S"
  proof
    fix y assume "y \<in> decided_instrument ` set (filter selected xs)"
    then obtain x where x: "x \<in> set xs" "selected x" "y = decided_instrument x" by auto
    obtain i where i: "i \<in> set is" "decide_instrument gen role sname (fold_id f) (hd (test f)) ?m i = Inr x"
      using list_all2_member2 [OF all x(1)] by metis
    show "y \<in> pit_id ` ?S"
      by (rule decide_instrument_Inr [OF i(2)]) (use x i(1) in blast)
  qed
  then have "card (decided_instrument ` set (filter selected xs)) \<le> card (pit_id ` ?S)" by (intro card_mono) simp_all
  moreover have "card (pit_id ` ?S) \<le> card ?S" by (rule card_image_le) simp
  ultimately have "length (filter selected xs) \<le> card ?S" by linarith
  moreover have "length ts = length (filter selected xs)" using fold_batch_Inr(2) [OF fb] by (simp add: list_all2_lengthD)
  ultimately show ?thesis using selected_at_most [OF v(1,2) assms(5,6), of slot] by linarith
qed

text \<open>The three roundings of the slot, of the capital times the fraction and of the quotients, together cost less than one
part in \<open>10 ^ 26\<close>.\<close>

lemma slot_total:
  fixes x s :: rat
  assumes "0 < m" and "0 \<le> x" and "s * (1 - 1 / 10 ^ 27) \<le> x * (1 + 1 / 10 ^ 27) / of_int m" and "0 \<le> s"
    and "\<forall>w \<in> set ws. w * (1 - 1 / 10 ^ 27) \<le> s" and "int (length ws) \<le> m"
  shows "sum_list ws \<le> x * (1 + 1 / 10 ^ 26)"
proof -
  have "sum_list ws * (1 - 1 / 10 ^ 27) \<le> of_nat (length ws) * s"
    using assms(5) by (induction ws) (auto simp: algebra_simps)
  also have "\<dots> \<le> of_int m * s"
  proof (rule mult_right_mono [OF _ assms(4)])
    have "(of_nat (length ws) :: rat) = of_int (int (length ws))" by simp
    also have "\<dots> \<le> of_int m" using assms(6) by (simp only: of_int_le_iff)
    finally show "(of_nat (length ws) :: rat) \<le> of_int m" .
  qed
  finally have "sum_list ws * (1 - 1 / 10 ^ 27) * (1 - 1 / 10 ^ 27) \<le> of_int m * s * (1 - 1 / 10 ^ 27)"
    by (rule mult_right_mono) simp
  also have "\<dots> = of_int m * (s * (1 - 1 / 10 ^ 27))" by (simp only: mult.assoc)
  also have "\<dots> \<le> of_int m * (x * (1 + 1 / 10 ^ 27) / of_int m)"
    using assms(1,3) by (intro mult_left_mono) simp_all
  also have "\<dots> = x * (1 + 1 / 10 ^ 27)" using assms(1) by simp
  also have "\<dots> \<le> x * ((1 + 1 / 10 ^ 26) * (1 - 1 / 10 ^ 27) * (1 - 1 / 10 ^ 27))"
    by (rule mult_left_mono [OF _ assms(2)]) (simp add: field_simps)
  finally have "sum_list ws * ((1 - 1 / 10 ^ 27) * (1 - 1 / 10 ^ 27))
      \<le> (x * (1 + 1 / 10 ^ 26)) * ((1 - 1 / 10 ^ 27) * (1 - 1 / 10 ^ 27))" by (simp only: mult.assoc)
  moreover have "(0 :: rat) < (1 - 1 / 10 ^ 27) * (1 - 1 / 10 ^ 27)" by (intro mult_pos_pos) simp_all
  ultimately show ?thesis by (simp only: mult_le_cancel_right_pos)
qed

text \<open>C14: The intents that a momentum batch places on one test fold number at most the configured maximum, and their total
value at the limit prices, quantity times limit, is at most the configured fraction of the capital, up to one part in
\<open>10 ^ 26\<close> for the rounding of decimals.\<close>

theorem momentum_exposure_bound:
  assumes "built p" and "mk_momentum_config c0 = Inr c" and "generate_momentum c p ds is policy capital = Inr b"
    and "f \<in> set (folds p)"
  defines "orders \<equiv> map intent_order (filter (\<lambda>t. signal_session (intent_order t) = hd (test f)) (batch_intents b))"
  shows "int (length orders) \<le> maximum_positions c
    \<and> (\<Sum>e\<leftarrow>orders. of_int (entry_quantity e) * dval (limit_price e)) \<le> dval capital * dval (momentum_exposure c) * (1 + 1 / 10 ^ 26)"
proof -
  let ?slot = "momentum_slot c capital"
  obtain xs ts n where n: "n = int (index_of (ds_sessions ds) (hd (test f)))"
    and fb: "fold_batch (momentum_id c) STRATEGY ''CLOSE_MOMENTUM'' is
       (intent_for ds is ?slot (momentum_stop c) (momentum_target c) (momentum_holding c) (policy_participation policy) (test f ! 1))
       f (momentum_reasons c ds is ?slot (hd (test f)) n) = Inr (xs, ts)"
    and own: "mset (filter (\<lambda>t. signal_session (intent_order t) = hd (test f)) (batch_intents b)) = mset ts"
    and ids: "distinct (map pit_id is)"
    by (rule momentum_fold_part [OF assms(1,3,4)])
  note v = validate_inputs_Inr [OF generate_momentum_Inr(2) [OF assms(3)]] and cfg = mk_momentum_config_Inr [OF assms(2)]
  have len: "int (length ts) \<le> maximum_positions c" using fold_intents_at_most [OF fb ids v(1,2) n] cfg(2) by simp
  have os: "mset orders = mset (map intent_order ts)" unfolding orders_def mset_map own by simp
  have x: "0 < dval (capital * momentum_exposure c)" by (rule times_pos [OF v(6) cfg(4)])
  have nz: "\<not> dzero (dec_of_int (maximum_positions c))" "0 < dval (dec_of_int (maximum_positions c))"
    using cfg(2) dval_zero_iff [of "dec_of_int (maximum_positions c)"] by auto
  have slot: "0 < dval ?slot" unfolding momentum_slot_def by (rule dquot_pos [OF nz x])
  have "dval ?slot * (1 - 1 / 10 ^ 27) \<le> dval (capital * momentum_exposure c) / of_int (maximum_positions c)"
    using dquot_upper [OF nz(2) slot [unfolded momentum_slot_def]] by (simp only: momentum_slot_def dval_of_int)
  also have "\<dots> \<le> dval capital * dval (momentum_exposure c) * (1 + 1 / 10 ^ 27) / of_int (maximum_positions c)"
    using times_upper [of capital "momentum_exposure c"] v(6) cfg(2,4) by (intro divide_right_mono) simp_all
  finally have s: "dval ?slot * (1 - 1 / 10 ^ 27)
      \<le> dval capital * dval (momentum_exposure c) * (1 + 1 / 10 ^ 27) / of_int (maximum_positions c)" .
  have one: "notional t * (1 - 1 / 10 ^ 27) \<le> dval ?slot" if t: "t \<in> set ts" for t
  proof -
    obtain y where "intent_for ds is ?slot (momentum_stop c) (momentum_target c) (momentum_holding c)
        (policy_participation policy) (test f ! 1) y = Inr t"
      using list_all2_member2 [OF fold_batch_Inr(2) [OF fb] t] by metis
    then obtain i bar where g: "generated_intent y i bar (test f ! 1) ?slot (momentum_stop c) (momentum_target c)
        (momentum_holding c) (policy_participation policy) = Inr t"
      by (rule intent_for_Inr)
    note gi = generated_intent_Inr [OF g]
    have "0 < dval (limit_price (intent_order t))" using gi(7) by (simp add: less_iff_dval)
    from slot_order [OF slot refl this gi(5)] show ?thesis by (simp add: notional_def)
  qed
  have "sum_list (map notional ts) \<le> dval capital * dval (momentum_exposure c) * (1 + 1 / 10 ^ 26)"
    by (rule slot_total [OF cfg(2) _ s]) (use v(6) cfg(4) slot one len in auto)
  moreover have "(\<Sum>e\<leftarrow>orders. of_int (entry_quantity e) * dval (limit_price e)) = sum_list (map notional ts)"
  proof -
    have "mset (map g orders) = mset (map g (map intent_order ts))" for g :: "limit_entry_order \<Rightarrow> rat"
      unfolding mset_map [of g] os by simp
    then have "sum_list (map g orders) = sum_list (map g (map intent_order ts))" for g :: "limit_entry_order \<Rightarrow> rat"
      by (metis sum_mset_sum_list)
    moreover have "notional = (\<lambda>t. of_int (entry_quantity (intent_order t)) * dval (limit_price (intent_order t)))"
      by (rule ext) (simp add: notional_def)
    ultimately show ?thesis by (simp add: comp_def)
  qed
  moreover have "length orders = length ts" using arg_cong [OF os, of size] by simp
  ultimately show ?thesis using len by simp
qed

end
