(* ===== verification/BaselineRun.thy ===== *)
theory BaselineRun
  imports Admission Comparison
begin

text \<open>
  The comparison run of \<open>evaluation/baselines.py\<close>: the metrics of each test fold, the fold summaries, and the run that
  generates both batches, compares them on the evaluation engine and seals everything together.

  The constructor of a run recomputes every fold summary from the comparison it holds and checks the batches against it.
  \<open>baseline_run_outcome\<close> shows that, once the comparison has returned, none of these checks can fail but one: a fold
  that starts with no equity.
\<close>

section \<open>Metrics of a fold\<close>

type_synonym metric_table = "(string \<times> decimal) list"

definition fold_drawdown :: "decimal \<times> decimal \<Rightarrow> equity_point \<Rightarrow> decimal \<times> decimal" where
  \<comment> \<open>one pass of the loop over the points, with the peak and the deepest fall so far\<close>
  "fold_drawdown = (\<lambda>(peak0, low) p. let peak = py_max peak0 (equity p) in
     (peak, py_min low (dquot (equity p) peak - 1)))"

definition fold_values :: "evaluated_trade list \<Rightarrow> equity_point list \<Rightarrow> metric_table" where
  "fold_values ts pts = (let start = equity (hd pts); final = equity (last pts); profit = final - start;
       elapsed = max (toordinal (point_session (last pts)) - toordinal (point_session (hd pts))) 1 in
     [(''max_drawdown'', snd (foldl fold_drawdown (start, 0) pts)),
      (''net_cagr'', net_cagr start final elapsed),
      (''net_profit'', profit),
      (''net_return'', dquot profit start),
      (''trade_count'', dec_of_int (int (length ts))),
      (''turnover'', dquot (turnover_value ts) start)])"

definition fold_points :: "evaluation_result \<Rightarrow> date list \<Rightarrow> equity_point list" where
  "fold_points res days = filter (\<lambda>p. point_session p \<in> set days) (res_curve res)"

definition fold_trades :: "evaluation_result \<Rightarrow> intent_batch \<Rightarrow> date list \<Rightarrow> evaluated_trade list" where
  "fold_trades res b days = (let ids = intent_id ` {i \<in> set (batch_intents b). signal_session (intent_order i) \<in> set days} in
     filter (\<lambda>t. trade_intent_id t \<in> ids) (res_trades res))"

definition fold_metrics :: "evaluation_result \<Rightarrow> intent_batch \<Rightarrow> date list \<Rightarrow> metric_table res" where
  \<comment> \<open>the sessions of a fold are not empty\<close>
  "fold_metrics res b days = (let pts = fold_points res days in guards
     [(map point_session pts \<noteq> days, base_err ''evaluation curve does not cover every fold session''),
      (equity (hd pts) \<le> 0, base_err ''fold start equity must be positive'')]
     (Inr (fold_values (fold_trades res b days) pts)))"

type_synonym scenario_metrics = "metric_table \<times> metric_table \<times> metric_table option \<times> metric_table option"

definition optional_metrics :: "evaluation_result option \<Rightarrow> intent_batch \<Rightarrow> date list \<Rightarrow> metric_table option res" where
  "optional_metrics res b days = (case res of None \<Rightarrow> Inr None
     | Some q \<Rightarrow> bindE (fold_metrics q b days) (\<lambda>m. Inr (Some m)))"

definition scenario_values :: "trial_comparison \<Rightarrow> intent_batch \<Rightarrow> intent_batch \<Rightarrow> date list \<Rightarrow> scenario_metrics res" where
  \<comment> \<open>the four tables of a fold, in the order of the calls\<close>
  "scenario_values c sb bb days =
     bindE (fold_metrics (strategy_base c) sb days) (\<lambda>s. bindE (fold_metrics (benchmark_base c) bb days) (\<lambda>b.
     bindE (optional_metrics (strategy_stressed c) sb days) (\<lambda>ss.
     bindE (optional_metrics (benchmark_stressed c) bb days) (\<lambda>bs. Inr (s, b, ss, bs)))))"

section \<open>Fold summaries\<close>

record fold_summary =
  sum_fold :: string
  sum_first :: date
  sum_last :: date
  sum_metric :: string
  sum_strategy :: metric_table
  sum_benchmark :: metric_table
  sum_strategy_stressed :: "metric_table option"
  sum_benchmark_stressed :: "metric_table option"
  sum_comparison :: metric_table
  outperformed :: bool
  summary_id :: string

definition summary_material :: "fold_summary \<Rightarrow> (string \<times> pyval) list" where
  "summary_material s =
     [(''schema'', PStr ''deterministic-fold-comparison-summary/v1''),
      (''fold_id'', PStr (sum_fold s)),
      (''first_session'', PDate (sum_first s)),
      (''last_session'', PDate (sum_last s)),
      (''primary_metric'', PStr (sum_metric s)),
      (''strategy_base_metrics'', named_values (sum_strategy s)),
      (''benchmark_base_metrics'', named_values (sum_benchmark s)),
      (''strategy_stressed_metrics'', popt named_values (sum_strategy_stressed s)),
      (''benchmark_stressed_metrics'', popt named_values (sum_benchmark_stressed s)),
      (''comparison_metrics'', named_values (sum_comparison s)),
      (''outperformed'', PBool (outperformed s))]"

definition complete_table :: "metric_table \<Rightarrow> bool \<times> py_exc" where
  \<comment> \<open>\<open>_validate_metric_tuple\<close>; the values of the model are finite\<close>
  "complete_table ms = (map fst ms \<noteq> supported_metrics, base_err ''must contain the complete metric set'')"

definition summary_guards :: "fold_summary \<Rightarrow> (bool \<times> py_exc) list" where
  "summary_guards s =
     [base_sha (sum_fold s),
      (sum_last s < sum_first s, base_err ''fold summary sessions are invalid''),
      (sum_metric s \<notin> set supported_metrics - {''turnover''}, base_err ''fold primary metric is unsupported''),
      complete_table (sum_strategy s), complete_table (sum_benchmark s),
      ((sum_strategy_stressed s = None) \<noteq> (sum_benchmark_stressed s = None),
         base_err ''fold stress metrics must both be present or absent'')]
     @ map complete_table (optional (sum_strategy_stressed s) @ optional (sum_benchmark_stressed s))"

definition table_value :: "metric_table \<Rightarrow> string \<Rightarrow> decimal" where
  \<comment> \<open>\<open>dict(metrics)[name]\<close>; the table has been checked to be complete\<close>
  "table_value ms name = (case map_of ms name of None \<Rightarrow> 0 | Some v \<Rightarrow> v)"

definition judge_fold :: "fold_summary \<Rightarrow> fold_summary" where
  "judge_fold s = (let base = table_value (sum_strategy s) (sum_metric s) - table_value (sum_benchmark s) (sum_metric s) in
     case (sum_strategy_stressed s, sum_benchmark_stressed s) of
       (Some a, Some b) \<Rightarrow> let stressed = table_value a (sum_metric s) - table_value b (sum_metric s) in
         s\<lparr>sum_comparison := [(''base_primary_excess'', base), (''stressed_primary_excess'', stressed)],
           outperformed := 0 \<le> base \<and> 0 \<le> stressed\<rparr>
     | _ \<Rightarrow> s\<lparr>sum_comparison := [(''base_primary_excess'', base)], outperformed := 0 \<le> base\<rparr>)"

definition mk_summary :: "fold_summary \<Rightarrow> fold_summary res" where
  "mk_summary s0 = guards (summary_guards s0) (let s = judge_fold s0 in Inr (s\<lparr>summary_id := fields_id (summary_material s)\<rparr>))"

definition summary_broken :: "fold_summary \<Rightarrow> bool \<times> py_exc" where
  "summary_broken s = (summary_id s \<noteq> fields_id (summary_material s), base_err ''fold summary content identity failed'')"

definition summarize_fold :: "intent_batch \<Rightarrow> intent_batch \<Rightarrow> trial_comparison \<Rightarrow> fold \<Rightarrow> fold_summary res" where
  "summarize_fold sb bb c f = bindE (scenario_values c sb bb (test f)) (\<lambda>(s, b, ss, bs). mk_summary
     \<lparr>sum_fold = fold_id f, sum_first = hd (test f), sum_last = last (test f), sum_metric = cmp_metric c,
      sum_strategy = s, sum_benchmark = b, sum_strategy_stressed = ss, sum_benchmark_stressed = bs,
      sum_comparison = [], outperformed = False, summary_id = []\<rparr>)"

definition build_summaries :: "plan \<Rightarrow> intent_batch \<Rightarrow> intent_batch \<Rightarrow> trial_comparison \<Rightarrow> fold_summary list res" where
  "build_summaries p sb bb c = mapE (summarize_fold sb bb c) (folds p)"

section \<open>The comparison run\<close>

record comparison_run =
  run_strategy :: intent_batch
  run_benchmark :: intent_batch
  run_comparison :: trial_comparison
  run_folds :: "fold_summary list"
  run_id :: string

definition run_material :: "comparison_run \<Rightarrow> (string \<times> pyval) list" where
  "run_material q =
     [(''schema'', PStr ''deterministic-comparison-run/v1''),
      (''strategy_batch_id'', PStr (intent_batch_id (run_strategy q))),
      (''benchmark_batch_id'', PStr (intent_batch_id (run_benchmark q))),
      (''comparison_id'', PStr (cmp_id (run_comparison q))),
      (''fold_summary_ids'', PTuple (map (\<lambda>s. PStr (summary_id s)) (run_folds q)))]"

definition same_table :: "metric_table \<Rightarrow> metric_table \<Rightarrow> bool" where
  \<comment> \<open>equality of tuples; decimals compare by value\<close>
  "same_table = list_all2 (\<lambda>(n, a) (m, b). n = m \<and> deq a b)"

definition same_metrics :: "scenario_metrics \<Rightarrow> scenario_metrics \<Rightarrow> bool" where
  "same_metrics = (\<lambda>(s, b, ss, bs) (s', b', ss', bs'). same_table s s' \<and> same_table b b'
     \<and> rel_option same_table ss ss' \<and> rel_option same_table bs bs')"

definition check_summary :: "comparison_run \<Rightarrow> fold_summary \<Rightarrow> unit res" where
  \<comment> \<open>one pass of the loop over the fold summaries\<close>
  "check_summary q s = (let mine = \<lambda>b. filter (\<lambda>x. decided_fold x = sum_fold s) (batch_decisions b);
       sd = mine (run_strategy q); bd = mine (run_benchmark q);
       days = filter (\<lambda>d. sum_first s \<le> d \<and> d \<le> sum_last s) (map point_session (res_curve (strategy_base (run_comparison q)))) in
     guards
       [summary_broken s,
        (sum_metric s \<noteq> cmp_metric (run_comparison q), base_err ''fold summary primary metric differs''),
        (sd = [] \<or> bd = [], base_err ''fold summary has no generated decisions''),
        (list_ex (\<lambda>x. decided_session x \<noteq> sum_first s) (sd @ bd), base_err ''fold summary signal boundary differs''),
        (days = [] \<or> hd days \<noteq> sum_first s \<or> last days \<noteq> sum_last s, base_err ''fold summary curve boundary differs'')]
       (bindE (scenario_values (run_comparison q) (run_strategy q) (run_benchmark q) days) (\<lambda>expected. guards
         [(\<not> same_metrics (sum_strategy s, sum_benchmark s, sum_strategy_stressed s, sum_benchmark_stressed s) expected,
             base_err ''fold summary metrics differ from evaluation evidence'')] (Inr ()))))"

definition run_guards :: "comparison_run \<Rightarrow> (bool \<times> py_exc) list" where
  "run_guards q = (let sb = run_strategy q; bb = run_benchmark q; c = run_comparison q in
     [batch_broken sb, batch_broken bb, comparison_broken c,
      (batch_role sb \<noteq> STRATEGY, base_err ''strategy batch has the wrong role''),
      (batch_role bb \<noteq> BENCHMARK, base_err ''benchmark batch has the wrong role''),
      (strategy_id c \<noteq> batch_by sb, base_err ''comparison strategy differs from its batch''),
      (cmp_benchmark c \<noteq> batch_by bb, base_err ''comparison benchmark differs from its batch''),
      (batch_plan sb \<noteq> res_plan (strategy_base c) \<or> batch_plan bb \<noteq> res_plan (benchmark_base c),
         base_err ''comparison split differs from generated batches'')])"

definition mk_run :: "comparison_run \<Rightarrow> comparison_run res" where
  "mk_run q = guards
     [(run_folds q = [] \<or> run_folds q \<noteq> sort_key sum_first (run_folds q),
         base_err ''fold summaries must be an ordered exact tuple''),
      (\<not> distinct (map sum_fold (run_folds q)), base_err ''fold summaries cannot repeat a fold'')]
     (bindE (mapE (check_summary q) (run_folds q)) (\<lambda>_. guards (run_guards q)
       (Inr (q\<lparr>run_id := fields_id (run_material q)\<rparr>))))"

definition verify_run :: "comparison_run \<Rightarrow> unit res" where
  "verify_run q = guards
     ([batch_broken (run_strategy q), batch_broken (run_benchmark q), comparison_broken (run_comparison q)]
      @ map summary_broken (run_folds q)
      @ [(run_id q \<noteq> fields_id (run_material q), base_err ''deterministic run content identity failed'')]) (Inr ())"

definition evaluate_baselines ::
  "trial_registration \<Rightarrow> momentum_config \<Rightarrow> weight_config \<Rightarrow> plan \<Rightarrow> evaluation_dataset \<Rightarrow> pit_instrument list
    \<Rightarrow> execution_policy \<Rightarrow> nse_delivery_cost_schedule \<Rightarrow> decimal \<Rightarrow> comparison_run res" where
  "evaluate_baselines r sc bc p ds is policy tariff capital =
     bindE (verify_registration r) (\<lambda>_. guards
     [momentum_broken sc, weight_broken bc,
      (model_bundle_id r \<noteq> momentum_id sc, base_err ''registration does not bind the strategy generator''),
      (benchmark_id r \<noteq> weight_id bc, base_err ''registration does not bind the benchmark generator'')]
     (bindE (generate_momentum sc p ds is policy capital) (\<lambda>sb.
      bindE (generate_weight bc p ds is policy capital) (\<lambda>bb.
      bindE (compare r p ds (batch_intents sb) (batch_intents bb) policy tariff capital) (\<lambda>c.
      bindE (build_summaries p sb bb c) (\<lambda>fs. mk_run
        \<lparr>run_strategy = sb, run_benchmark = bb, run_comparison = c, run_folds = fs, run_id = []\<rparr>))))))"

section \<open>Sessions of an equity curve\<close>

lemma book_session_point:
  "book_session ds ts c s d = Inr s' \<Longrightarrow> map point_session (points s') = map point_session (points s) @ [d]"
  by (auto simp: book_session_def Let_def res_simps guards_Inr_iff mk_point_def)

lemma booked_points:
  "foldE (book_session ds ts c) s ps = Inr s' \<Longrightarrow> map point_session (points s') = map point_session (points s) @ ps"
  by (induction ps arbitrary: s) (auto simp: res_simps dest: book_session_point)

lemma curve_sessions: "equity_curve ds ps ts c capital = Inr curve \<Longrightarrow> map point_session curve = ps"
  by (auto simp: equity_curve_def res_simps guards_Inr_iff dest: booked_points)

lemma evaluated_curve:
  assumes "evaluate r p ds intents policy s capital stressed = Inr q"
  shows "performance_sessions p ds = Inr (map point_session (res_curve q))" and "res_plan q = plan_id p"
proof -
  obtain ts where s: "settle r p ds policy s capital ts = Inr q" using evaluate_Inr [OF assms] by blast
  then show "performance_sessions p ds = Inr (map point_session (res_curve q))" using settle_Inr curve_sessions by metis
  obtain q0 where "mk_result q0 = Inr q" "res_plan q0 = plan_id p" using s by (auto simp: settle_def res_simps Let_def)
  then show "res_plan q = plan_id p" by (metis evaluation_result.select_convs(2) evaluation_result.surjective
        evaluation_result.update_convs(13) mk_result_Inr(1))
qed

lemma strictly_sorted_ends: "strictly_sorted xs \<Longrightarrow> d \<in> set xs \<Longrightarrow> hd xs \<le> d \<and> d \<le> last xs"
proof (induction xs)
  case (Cons x xs)
  then show ?case by (cases xs) (auto intro: less_imp_le less_le_trans)
qed simp

lemma performance_fold:
  assumes "built p" and "ds_sessions ds = ordered_sessions p" and "performance_sessions p ds = Inr ps" and "f \<in> set (folds p)"
  shows "filter (\<lambda>d. d \<in> set (test f)) ps = test f"
    and "filter (\<lambda>d. hd (test f) \<le> d \<and> d \<le> last (test f)) ps = test f"
proof -
  let ?cal = "ds_sessions ds" and ?t = "test f"
  note b = built_tests [OF assms(1), folded assms(2)]
  have ps: "strictly_sorted ps" "set ps \<subseteq> set ?cal" "set (concat (map test (folds p))) \<subseteq> set ps"
    using performance_window [OF b(1) b(2) b(3)] assms(3) by (metis Inr_inject)+
  have t: "?t \<noteq> []" "strictly_sorted ?t" "contiguous ?cal ?t" "set ?t \<subseteq> set ?cal"
    using built_folds(3) [OF assms(1)] assms(2,4) fold_okD by (auto simp: placed_def Let_def)
  have sub: "set ?t \<subseteq> set ps" using ps(3) assms(4) by auto
  show "filter (\<lambda>d. d \<in> set ?t) ps = ?t"
    using sub ps(1) t(2) by (intro strict_sorted_equal) (auto simp: sorted_wrt_filter)
  note nth = contiguous_nth [OF t(3,1,4)]
  define h where "h = index_of ?cal (hd ?t)"
  have dist: "distinct ?cal" using b(1) by (simp add: strict_sorted_iff)
  have in_t: "d \<in> set ?t" if d: "d \<in> set ps" "hd ?t \<le> d" "d \<le> last ?t" for d
  proof -
    have dc: "d \<in> set ?cal" using d(1) ps(2) by blast
    have l: "last ?t = ?cal ! (h + (length ?t - 1))" "h + (length ?t - 1) < length ?cal"
      using nth [of "length ?t - 1"] t(1) by (simp_all add: last_conv_nth h_def)
    then have il: "index_of ?cal (last ?t) = h + (length ?t - 1)" using dist by simp
    have ends: "hd ?t \<in> set ?cal" "last ?t \<in> set ?cal" using t(1,4) by auto
    have "h \<le> index_of ?cal d" "index_of ?cal d \<le> h + (length ?t - 1)"
      using strictly_sorted_index [OF b(1) ends(1) dc] strictly_sorted_index [OF b(1) dc ends(2)] d(2,3)
      by (simp_all add: h_def il [unfolded h_def])
    then have "index_of ?cal d = h + (index_of ?cal d - h)" "index_of ?cal d - h < length ?t" using t(1) by (cases ?t; simp)+
    then have "?t ! (index_of ?cal d - h) = d" using nth(1) [of "index_of ?cal d - h"] nth_index_of [OF dc] by (simp add: h_def)
    then show ?thesis using \<open>index_of ?cal d - h < length ?t\<close> nth_mem by metis
  qed
  have "hd ?t \<le> d \<and> d \<le> last ?t" if "d \<in> set ?t" for d
    using that t(2) by (rule strictly_sorted_ends [rotated])
  then show "filter (\<lambda>d. hd ?t \<le> d \<and> d \<le> last ?t) ps = ?t"
    using sub ps(1) t(2) in_t by (intro strict_sorted_equal) (auto simp: sorted_wrt_filter)
qed

section \<open>Decisions of a fold\<close>

lemma sealed_fields:
  assumes "seal_batch gen role p ds parts = Inr b"
  shows "batch_by b = gen" "batch_role b = role" "batch_plan b = plan_id p" "\<not> fst (batch_broken b)"
  using assms by (auto simp: seal_batch_def mk_batch_def guards_Inr_iff batch_broken_def batch_material_def)

lemma decided_part:
  assumes "built p" and "seal_batch gen role p ds ps = Inr b"
    and all: "list_all2 (\<lambda>f part. stamped f part \<and> (\<exists>intent m. fold_batch gen role sname is intent f m = Inr part)) (folds p) ps"
    and v: "sorted (map pit_symbol is)" "is \<noteq> []" and f: "f \<in> set (folds p)"
  shows "filter (\<lambda>x. decided_fold x = fold_id f) (batch_decisions b) \<noteq> []"
    and "\<forall>x \<in> set (filter (\<lambda>x. decided_fold x = fold_id f) (batch_decisions b)). decided_session x = hd (test f)"
proof -
  have own: "\<forall>x \<in> set (fst part). decided_fold x = fold_id g" and ne: "fst part \<noteq> []"
    if fb: "fold_batch gen role sname is intent g m = Inr part" for g part intent m
  proof -
    obtain xs ts where part: "part = (xs, ts)" by (cases part)
    note fd = fold_batch_decisions [OF fb [unfolded part] v(1)]
    show "\<forall>x \<in> set (fst part). decided_fold x = fold_id g" using fd(3) by (simp add: part fold_stamped_def)
    show "fst part \<noteq> []" using fd(1) v(2) by (auto simp: part)
  qed
  obtain k where k: "k < length (folds p)" "f = folds p ! k" using f by (auto simp: in_set_conv_nth)
  have "list_all2 (\<lambda>f part. \<forall>x \<in> set (fst part). decided_fold x = fold_id f) (folds p) ps"
    using all by (rule list_all2_mono) (use own in blast)
  from parts_filter [OF this built_folds(1) [OF assms(1)] k(1)]
  have x: "filter (\<lambda>x. decided_fold x = fold_id f) (concat (map fst ps)) = fst (ps ! k)" by (simp add: k(2))
  have part: "stamped f (ps ! k)" "fst (ps ! k) \<noteq> []" using list_all2_nthD [OF all k(1)] ne unfolding k(2) by blast+
  have "filter (\<lambda>x. decided_fold x = fold_id f) (batch_decisions b) = sort_key decision_key (fst (ps ! k))"
    using seal_batch_Inr(1) [OF assms(2)] x by (simp add: filter_sort)
  moreover have "sort_key decision_key (fst (ps ! k)) \<noteq> []" using part(2) by (metis length_0_conv length_sort)
  ultimately show "filter (\<lambda>x. decided_fold x = fold_id f) (batch_decisions b) \<noteq> []"
    and "\<forall>x \<in> set (filter (\<lambda>x. decided_fold x = fold_id f) (batch_decisions b)). decided_session x = hd (test f)"
    using part(1) by (auto simp: stamped_def)
qed

text \<open>What a returned batch of either generator brings to a run.\<close>

definition bound_batch :: "string \<Rightarrow> intent_role \<Rightarrow> plan \<Rightarrow> intent_batch \<Rightarrow> bool" where
  "bound_batch gen role p b = (batch_by b = gen \<and> batch_role b = role \<and> batch_plan b = plan_id p \<and> \<not> fst (batch_broken b)
     \<and> (\<forall>f \<in> set (folds p). filter (\<lambda>x. decided_fold x = fold_id f) (batch_decisions b) \<noteq> []
         \<and> (\<forall>x \<in> set (batch_decisions b). decided_fold x = fold_id f \<longrightarrow> decided_session x = hd (test f))))"

lemma bound_batchI:
  assumes "built p" and parts: "mapE (run ds) (folds p) = Inr ps" and seal: "seal_batch gen role p ds ps = Inr b"
    and run: "\<And>f part. run ds f = Inr part \<Longrightarrow> stamped f part \<and> (\<exists>intent m. fold_batch gen role sname is intent f m = Inr part)"
    and "sorted (map pit_symbol is)" "is \<noteq> []"
  shows "bound_batch gen role p b"
proof -
  have "list_all2 (\<lambda>f part. stamped f part \<and> (\<exists>intent m. fold_batch gen role sname is intent f m = Inr part)) (folds p) ps"
    using parts unfolding mapE_eq_Inr by (rule list_all2_mono) (rule run)
  from decided_part [OF assms(1) seal this assms(5,6)] show ?thesis
    using sealed_fields [OF seal] by (simp add: bound_batch_def)
qed

lemma validated_instruments: "validate_inputs p ds is capital holding = Inr u \<Longrightarrow> is \<noteq> []"
  by (auto simp: validate_inputs_def guards_Inr_iff res_simps)

lemma momentum_bound:
  assumes "built p" and "generate_momentum c p ds is policy capital = Inr b"
  shows "bound_batch (momentum_id c) STRATEGY p b"
proof -
  obtain ps where "mapE (momentum_fold c ds is policy capital) (folds p) = Inr ps" "seal_batch (momentum_id c) STRATEGY p ds ps = Inr b"
    using generate_momentum_Inr(1) [OF assms(2)] by (auto simp: res_simps)
  moreover note v = generate_momentum_Inr(2) [OF assms(2)]
  moreover have "stamped f part \<and> (\<exists>intent m. fold_batch (momentum_id c) STRATEGY ''CLOSE_MOMENTUM'' is intent f m = Inr part)"
    if "momentum_fold c ds is policy capital f = Inr part" for f part
    using momentum.stamps [OF that] that by (auto simp: momentum_fold_def Let_def res_simps)
  ultimately show ?thesis
    using bound_batchI [where run = "\<lambda>ds. momentum_fold c ds is policy capital"] assms(1) validate_inputs_Inr(2) [OF v]
      validated_instruments [OF v] by blast
qed

lemma weight_bound:
  assumes "built p" and "generate_weight c p ds is policy capital = Inr b"
  shows "bound_batch (weight_id c) BENCHMARK p b"
proof -
  obtain ps where "mapE (weight_fold c ds is policy capital) (folds p) = Inr ps" "seal_batch (weight_id c) BENCHMARK p ds ps = Inr b"
    using generate_weight_Inr(1) [OF assms(2)] by (auto simp: res_simps)
  moreover note v = generate_weight_Inr(2) [OF assms(2)]
  moreover have "stamped f part \<and> (\<exists>intent m. fold_batch (weight_id c) BENCHMARK ''SIGNAL_TURNOVER'' is intent f m = Inr part)"
    if "weight_fold c ds is policy capital f = Inr part" for f part
    using weight.stamps [OF that] that by (auto simp: weight_fold_def Let_def)
  ultimately show ?thesis
    using bound_batchI [where run = "\<lambda>ds. weight_fold c ds is policy capital"] assms(1) validate_inputs_Inr(2) [OF v]
      validated_instruments [OF v] by blast
qed

section \<open>The comparison a run holds\<close>

definition scenarios :: "trial_comparison \<Rightarrow> evaluation_result list" where
  "scenarios c = [strategy_base c, benchmark_base c] @ optional (strategy_stressed c) @ optional (benchmark_stressed c)"

lemma decide_keeps:
  "strategy_id (decide c) = strategy_id c" "cmp_benchmark (decide c) = cmp_benchmark c" "cmp_metric (decide c) = cmp_metric c"
  "strategy_base (decide c) = strategy_base c" "benchmark_base (decide c) = benchmark_base c"
  "strategy_stressed (decide c) = strategy_stressed c" "benchmark_stressed (decide c) = benchmark_stressed c"
  by (auto simp: decide_def Let_def split: option.splits)

lemma compare_Inr:
  assumes "compare r p ds strategy benchmark policy s capital = Inr c"
  shows "\<forall>q \<in> set (scenarios c). \<exists>intents stressed. evaluate r p ds intents policy s capital stressed = Inr q"
    and "strategy_stressed c = None \<longleftrightarrow> benchmark_stressed c = None"
    and "strategy_id c = model_bundle_id r" "cmp_benchmark c = benchmark_id r" "cmp_metric c \<in> set threshold_metrics"
    and "cmp_metric c = primary_metric r"
    and "\<not> fst (comparison_broken c)"
proof -
  obtain c0 where c0: "mk_comparison c0 = Inr c" "strategy_id c0 = model_bundle_id r" "cmp_benchmark c0 = benchmark_id r"
    "strategy_stressed c0 = None \<longleftrightarrow> benchmark_stressed c0 = None" "cmp_metric c0 = primary_metric r"
    and ev: "\<forall>q \<in> set (scenarios c0). \<exists>intents stressed. evaluate r p ds intents policy s capital stressed = Inr q"
    using assms by (fastforce simp: compare_def res_simps scenarios_def optional_def split: if_splits)
  note m = mk_comparison_Inr [OF c0(1)]
  have eq: "scenarios c = scenarios c0" "strategy_stressed c = strategy_stressed c0" "benchmark_stressed c = benchmark_stressed c0"
    "strategy_id c = strategy_id c0" "cmp_benchmark c = cmp_benchmark c0" "cmp_metric c = cmp_metric c0"
    by (subst m(1), simp add: scenarios_def decide_keeps)+
  show "\<forall>q \<in> set (scenarios c). \<exists>intents stressed. evaluate r p ds intents policy s capital stressed = Inr q"
    "strategy_stressed c = None \<longleftrightarrow> benchmark_stressed c = None"
    "strategy_id c = model_bundle_id r" "cmp_benchmark c = benchmark_id r" "cmp_metric c = primary_metric r"
    "\<not> fst (comparison_broken c)"
    using ev c0(2-5) m(2) by (simp_all add: eq)
  show "cmp_metric c \<in> set threshold_metrics" using m(3) by (auto simp: eq cmp_guards_def)
qed

section \<open>The summary of a fold\<close>

definition solvent :: "evaluation_result \<Rightarrow> fold \<Rightarrow> bool" where
  "solvent q f = (\<not> (\<exists>pt \<in> set (res_curve q). point_session pt = hd (test f) \<and> equity pt \<le> 0))"

definition tables :: "trial_comparison \<Rightarrow> intent_batch \<Rightarrow> intent_batch \<Rightarrow> date list \<Rightarrow> scenario_metrics" where
  "tables c sb bb days = (let value = \<lambda>q b. fold_values (fold_trades q b days) (fold_points q days) in
     (value (strategy_base c) sb, value (benchmark_base c) bb, map_option (\<lambda>q. value q sb) (strategy_stressed c),
      map_option (\<lambda>q. value q bb) (benchmark_stressed c)))"

definition no_start :: py_exc where
  "no_start = base_err ''fold start equity must be positive''"

lemma fold_metrics_covered:
  assumes "filter (\<lambda>d. d \<in> set (test f)) (map point_session (res_curve q)) = test f" and "test f \<noteq> []" "distinct (test f)"
  shows "fold_metrics q b (test f) = (if solvent q f then Inr (fold_values (fold_trades q b (test f)) (fold_points q (test f)))
    else Inl no_start)"
proof -
  have pts: "map point_session (fold_points q (test f)) = test f"
    using assms(1) by (simp add: fold_points_def filter_map comp_def)
  let ?pt = "hd (fold_points q (test f))"
  have ne: "fold_points q (test f) \<noteq> []" using pts assms(2) by auto
  then have h: "?pt \<in> set (fold_points q (test f))" "point_session ?pt = hd (test f)" using pts hd_map [OF ne, of point_session] by simp_all
  have "pt = ?pt" if "pt \<in> set (res_curve q)" "point_session pt = hd (test f)" for pt
  proof -
    have "pt \<in> set (fold_points q (test f))" using that assms(2) by (simp add: fold_points_def)
    moreover have "inj_on point_session (set (fold_points q (test f)))" using pts assms(3) by (metis distinct_map)
    ultimately show ?thesis using h that(2) by (metis inj_onD)
  qed
  then have "equity ?pt \<le> 0 \<longleftrightarrow> \<not> solvent q f" using h by (auto simp: solvent_def fold_points_def)
  then show ?thesis by (simp add: fold_metrics_def Let_def pts guards.simps no_start_def)
qed

lemma scenario_values_covered:
  assumes "\<forall>q \<in> set (scenarios c). filter (\<lambda>d. d \<in> set (test f)) (map point_session (res_curve q)) = test f"
    and "test f \<noteq> []" "distinct (test f)"
  shows "scenario_values c sb bb (test f) =
    (if \<forall>q \<in> set (scenarios c). solvent q f then Inr (tables c sb bb (test f)) else Inl no_start)"
proof -
  have m: "fold_metrics q b (test f) = (if solvent q f then Inr (fold_values (fold_trades q b (test f)) (fold_points q (test f)))
    else Inl no_start)" if "q \<in> set (scenarios c)" for q b
    using assms(1) that by (intro fold_metrics_covered [OF _ assms(2,3)]) blast
  show ?thesis using m [unfolded scenarios_def]
    by (cases "strategy_stressed c"; cases "benchmark_stressed c")
      (simp_all add: scenario_values_def optional_metrics_def tables_def scenarios_def optional_def)
qed

definition summary_of :: "trial_comparison \<Rightarrow> intent_batch \<Rightarrow> intent_batch \<Rightarrow> fold \<Rightarrow> fold_summary" where
  "summary_of c sb bb f = (case tables c sb bb (test f) of (s, b, ss, bs) \<Rightarrow>
     let r = judge_fold \<lparr>sum_fold = fold_id f, sum_first = hd (test f), sum_last = last (test f), sum_metric = cmp_metric c,
       sum_strategy = s, sum_benchmark = b, sum_strategy_stressed = ss, sum_benchmark_stressed = bs,
       sum_comparison = [], outperformed = False, summary_id = []\<rparr> in
     r\<lparr>summary_id := fields_id (summary_material r)\<rparr>)"

lemma judge_keeps:
  "sum_fold (judge_fold s) = sum_fold s" "sum_first (judge_fold s) = sum_first s" "sum_last (judge_fold s) = sum_last s"
  "sum_metric (judge_fold s) = sum_metric s" "sum_strategy (judge_fold s) = sum_strategy s"
  "sum_benchmark (judge_fold s) = sum_benchmark s" "sum_strategy_stressed (judge_fold s) = sum_strategy_stressed s"
  "sum_benchmark_stressed (judge_fold s) = sum_benchmark_stressed s"
  by (auto simp: judge_fold_def Let_def split: option.splits)

lemma summary_of_fields:
  "sum_fold (summary_of c sb bb f) = fold_id f" "sum_first (summary_of c sb bb f) = hd (test f)"
  "sum_last (summary_of c sb bb f) = last (test f)" "sum_metric (summary_of c sb bb f) = cmp_metric c"
  "(sum_strategy (summary_of c sb bb f), sum_benchmark (summary_of c sb bb f), sum_strategy_stressed (summary_of c sb bb f),
     sum_benchmark_stressed (summary_of c sb bb f)) = tables c sb bb (test f)"
  "\<not> fst (summary_broken (summary_of c sb bb f))"
  by (simp_all add: summary_of_def judge_keeps Let_def summary_broken_def summary_material_def split: prod.splits)

definition no_worse :: "string \<Rightarrow> metric_table \<Rightarrow> metric_table \<Rightarrow> bool" where
  "no_worse m strategy benchmark = (table_value benchmark m \<le> table_value strategy m)"

lemma outperformed_summary:
  assumes "strategy_stressed c = None \<longleftrightarrow> benchmark_stressed c = None" and "s = summary_of c sb bb f"
  shows "outperformed s \<longleftrightarrow> no_worse (sum_metric s) (sum_strategy s) (sum_benchmark s)
    \<and> (\<forall>a b. sum_strategy_stressed s = Some a \<longrightarrow> sum_benchmark_stressed s = Some b \<longrightarrow> no_worse (sum_metric s) a b)"
  using assms by (cases "strategy_stressed c"; cases "benchmark_stressed c")
    (auto simp: summary_of_def tables_def judge_fold_def Let_def no_worse_def minus_nonneg_iff)

lemma summarize_covered:
  assumes "\<forall>q \<in> set (scenarios c). filter (\<lambda>d. d \<in> set (test f)) (map point_session (res_curve q)) = test f"
    and t: "test f \<noteq> []" "strictly_sorted (test f)" and "sha_text (fold_id f)" "cmp_metric c \<in> set threshold_metrics"
    and both: "strategy_stressed c = None \<longleftrightarrow> benchmark_stressed c = None"
  shows "summarize_fold sb bb c f = (if \<forall>q \<in> set (scenarios c). solvent q f then Inr (summary_of c sb bb f) else Inl no_start)"
proof -
  have d: "distinct (test f)" using t(2) by (simp add: strict_sorted_iff)
  have names: "map fst (fold_values ts pts) = supported_metrics" for ts pts
    by (simp add: fold_values_def Let_def supported_metrics_def)
  have m: "cmp_metric c \<in> set supported_metrics - {''turnover''}"
    using assms(5) by (auto simp: threshold_metrics_def supported_metrics_def)
  have "hd (test f) \<le> last (test f)" using strictly_sorted_ends [OF t(2) last_in_set [OF t(1)]] by simp
  then show ?thesis
    using assms(4) m both unfolding summarize_fold_def scenario_values_covered [OF assms(1) t(1) d]
    by (cases "strategy_stressed c"; cases "benchmark_stressed c")
      (simp_all add: mk_summary_def summary_of_def guards_Inr_iff guards_pass summary_guards_def base_sha_def tables_def Let_def
        names complete_table_def optional_def guards.simps not_less)
qed

lemma same_metrics_refl: "same_metrics x x"
proof -
  have "same_table m m" for m by (auto simp: same_table_def deq_iff_dval intro: list.rel_refl)
  then show ?thesis by (cases x) (auto simp: same_metrics_def intro: option.rel_refl)
qed

lemma check_covered:
  assumes "\<forall>q \<in> set (scenarios c). filter (\<lambda>d. d \<in> set (test f)) (map point_session (res_curve q)) = test f"
    and window: "filter (\<lambda>d. hd (test f) \<le> d \<and> d \<le> last (test f)) (map point_session (res_curve (strategy_base c))) = test f"
    and t: "test f \<noteq> []" "strictly_sorted (test f)" and f: "f \<in> set (folds p)" and "\<forall>q \<in> set (scenarios c). solvent q f"
    and b: "bound_batch g STRATEGY p sb" "bound_batch h BENCHMARK p bb"
    and q: "run_strategy q = sb" "run_benchmark q = bb" "run_comparison q = c"
  shows "check_summary q (summary_of c sb bb f) = Inr ()"
proof -
  let ?s = "summary_of c sb bb f"
  have d: "distinct (test f)" using t(2) by (simp add: strict_sorted_iff)
  have v: "scenario_values c sb bb (test f) = Inr (tables c sb bb (test f))"
    using scenario_values_covered [OF assms(1) t(1) d] assms(6) by simp
  have own: "filter (\<lambda>x. decided_fold x = fold_id f) (batch_decisions b) \<noteq> []"
    "\<forall>x \<in> set (batch_decisions b). decided_fold x = fold_id f \<longrightarrow> decided_session x = hd (test f)" if "b \<in> {sb, bb}" for b
    using b f that by (auto simp: bound_batch_def)
  have no: "\<not> list_ex (\<lambda>x. decided_session x \<noteq> hd (test f))
      (filter (\<lambda>x. decided_fold x = fold_id f) (batch_decisions sb) @ filter (\<lambda>x. decided_fold x = fold_id f) (batch_decisions bb))"
    using own by (auto simp: list_ex_iff)
  show ?thesis
    unfolding check_summary_def Let_def q summary_of_fields window v bindE_Inr
    using own(1) no t(1) same_metrics_refl [of "tables c sb bb (test f)"]
    by (simp add: guards_Inr_iff summary_of_fields)
qed

section \<open>The run\<close>

lemma mapE_or:
  assumes "\<And>x. x \<in> set xs \<Longrightarrow> f x = (if P x then Inr (g x) else Inl e)"
  shows "mapE f xs = (if \<forall>x \<in> set xs. P x then Inr (map g xs) else Inl e)"
  using assms by (induction xs) auto

lemma mapE_passes: "(\<And>x. x \<in> set xs \<Longrightarrow> f x = Inr ()) \<Longrightarrow> \<exists>us. mapE f xs = Inr us"
  by (induction xs) auto

lemma heads_sorted:
  "strictly_sorted (concat (map h fs)) \<Longrightarrow> \<forall>f \<in> set fs. h f \<noteq> [] \<Longrightarrow> sorted (map (\<lambda>f. hd (h f)) fs)"
  by (induction fs) (fastforce simp: sorted_wrt_append intro: less_imp_le)+

lemma mk_run_covered:
  assumes p: "built p" and fs: "run_folds q = map (summary_of c sb bb) (folds p)"
    and q: "run_strategy q = sb" "run_benchmark q = bb" "run_comparison q = c"
    and checks: "\<And>f. f \<in> set (folds p) \<Longrightarrow> check_summary q (summary_of c sb bb f) = Inr ()"
    and b: "bound_batch (strategy_id c) STRATEGY p sb" "bound_batch (cmp_benchmark c) BENCHMARK p bb"
    and plans: "res_plan (strategy_base c) = plan_id p" "res_plan (benchmark_base c) = plan_id p" and c: "\<not> fst (comparison_broken c)"
  shows "mk_run q = Inr (q\<lparr>run_id := fields_id (run_material q)\<rparr>)"
proof -
  have "folds p \<noteq> []" using built_tests(2) [OF p] by auto
  moreover have "\<forall>f \<in> set (folds p). test f \<noteq> []" using built_folds(3) [OF p] fold_okD(3) by blast
  then have "sorted (map (\<lambda>f. hd (test f)) (folds p))" by (rule heads_sorted [OF built_folds(2) [OF p]])
  then have "sorted (map sum_first (run_folds q))" by (simp add: fs comp_def summary_of_fields)
  then have "sort_key sum_first (run_folds q) = run_folds q" by (rule sort_key_id_if_sorted)
  moreover have "distinct (map sum_fold (run_folds q))" using built_folds(1) [OF p] by (simp add: fs comp_def summary_of_fields)
  moreover obtain us where "mapE (check_summary q) (run_folds q) = Inr us"
    using mapE_passes [of "run_folds q" "check_summary q"] checks by (auto simp: fs)
  moreover have "\<forall>g \<in> set (run_guards q). \<not> fst g"
    using b plans c by (simp add: run_guards_def Let_def q bound_batch_def)
  ultimately show ?thesis by (simp add: mk_run_def guards_Inr_iff res_simps fs)
qed

text \<open>C6: Once the batches of both generators and their comparison have returned, a comparison run of a registration that
binds the two generators ends in one of two ways: with the error of a fold that starts without equity, exactly when one
of the evaluations has no positive equity on the first session of some test fold; otherwise with a run that holds the two
batches and the comparison, summarises every fold of the plan in order, calls a fold outperformed exactly when in every
scenario its primary metric is no worse than the benchmark's, and verifies.\<close>

theorem baseline_run_outcome:
  assumes "built p" and "model_bundle_id r = momentum_id sc" and "benchmark_id r = weight_id bc"
    and sb: "generate_momentum sc p ds is policy capital = Inr sb" and bb: "generate_weight bc p ds is policy capital = Inr bb"
    and c: "compare r p ds (batch_intents sb) (batch_intents bb) policy tariff capital = Inr c"
  shows "if \<exists>f \<in> set (folds p). \<exists>q \<in> set (scenarios c). \<exists>pt \<in> set (res_curve q). point_session pt = hd (test f) \<and> equity pt \<le> 0
    then evaluate_baselines r sc bc p ds is policy tariff capital = Inl (base_err ''fold start equity must be positive'')
    else \<exists>q. evaluate_baselines r sc bc p ds is policy tariff capital = Inr q \<and> run_strategy q = sb \<and> run_benchmark q = bb
      \<and> run_comparison q = c \<and> map sum_fold (run_folds q) = map fold_id (folds p) \<and> verify_run q = Inr ()
      \<and> (\<forall>s \<in> set (run_folds q). outperformed s \<longleftrightarrow> no_worse (primary_metric r) (sum_strategy s) (sum_benchmark s)
          \<and> (\<forall>a b. sum_strategy_stressed s = Some a \<longrightarrow> sum_benchmark_stressed s = Some b \<longrightarrow> no_worse (primary_metric r) a b))"
proof -
  note cmp = compare_Inr [OF c]
  note v = validate_inputs_Inr(4) [OF generate_momentum_Inr(2) [OF sb]]
  have ev: "performance_sessions p ds = Inr (map point_session (res_curve q))" "res_plan q = plan_id p"
    "verify_registration r = Inr ()" if q: "q \<in> set (scenarios c)" for q
  proof -
    obtain intents stressed where e: "evaluate r p ds intents policy tariff capital stressed = Inr q" using cmp(1) q by blast
    show "performance_sessions p ds = Inr (map point_session (res_curve q))" "res_plan q = plan_id p"
      by (rule evaluated_curve [OF e])+
    have "verify_inputs r p ds policy tariff capital = Inr ()" using evaluate_Inr [OF e] by blast
    then show "verify_registration r = Inr ()" by (auto simp: verify_inputs_def res_simps)
  qed
  have base: "strategy_base c \<in> set (scenarios c)" "benchmark_base c \<in> set (scenarios c)" by (simp_all add: scenarios_def)
  note window = performance_fold [OF assms(1) v ev(1)]
  have cover: "\<forall>q \<in> set (scenarios c). filter (\<lambda>d. d \<in> set (test f)) (map point_session (res_curve q)) = test f"
    if "f \<in> set (folds p)" for f using window(1) that by blast
  have t: "test f \<noteq> []" "strictly_sorted (test f)" "sha_text (fold_id f)" if f: "f \<in> set (folds p)" for f
    using built_folds(3) [OF assms(1)] fold_okD f by (auto simp: placed_def Let_def fold_broken_def)
  have sums: "summarize_fold sb bb c f = (if \<forall>q \<in> set (scenarios c). solvent q f then Inr (summary_of c sb bb f) else Inl no_start)"
    if "f \<in> set (folds p)" for f
    by (rule summarize_covered [OF cover [OF that] t [OF that] cmp(5,2)])
  have built: "build_summaries p sb bb c = (if \<forall>f \<in> set (folds p). \<forall>q \<in> set (scenarios c). solvent q f
      then Inr (map (summary_of c sb bb) (folds p)) else Inl no_start)"
    unfolding build_summaries_def by (rule mapE_or) (rule sums)
  let ?q = "\<lparr>run_strategy = sb, run_benchmark = bb, run_comparison = c, run_folds = map (summary_of c sb bb) (folds p), run_id = []\<rparr>"
  have sound: "\<not> fst (momentum_broken sc)" "\<not> fst (weight_broken bc)"
    using sb bb by (simp_all add: generate_momentum_def generate_weight_def guards_Inr_iff)
  have run: "evaluate_baselines r sc bc p ds is policy tariff capital = bindE (build_summaries p sb bb c) (\<lambda>fs. mk_run
      \<lparr>run_strategy = sb, run_benchmark = bb, run_comparison = c, run_folds = fs, run_id = []\<rparr>)"
    unfolding evaluate_baselines_def ev(3) [OF base(1)] bindE_Inr
    by (subst guards_pass) (use sound assms(2,3) in \<open>simp_all add: sb bb c\<close>)
  show ?thesis
  proof (cases "\<forall>f \<in> set (folds p). \<forall>q \<in> set (scenarios c). solvent q f")
    case True
    note bound = momentum_bound [OF assms(1) sb] weight_bound [OF assms(1) bb]
    have made: "mk_run ?q = Inr (?q\<lparr>run_id := fields_id (run_material ?q)\<rparr>)"
    proof (rule mk_run_covered [OF assms(1)])
      show "check_summary ?q (summary_of c sb bb f) = Inr ()" if f: "f \<in> set (folds p)" for f
        by (rule check_covered [OF cover [OF f] window(2) [OF base(1) f] t(1,2) [OF f] f _ bound]) (use True f in auto)
    qed (use bound cmp(3,4,7) ev(2) base assms(2,3) in simp_all)
    have "verify_run (?q\<lparr>run_id := fields_id (run_material ?q)\<rparr>) = Inr ()"
      using bound cmp(7) by (auto simp: verify_run_def guards_Inr_iff bound_batch_def summary_of_fields run_material_def)
    moreover note cmp(6) outperformed_summary [OF cmp(2) refl, where sb = sb and bb = bb]
    ultimately show ?thesis using True run built made by (auto simp: solvent_def comp_def summary_of_fields)
  qed (use run built in \<open>auto simp: solvent_def no_start_def\<close>)
qed

end
