(* ===== verification/BaselineDemo.thy ===== *)
theory BaselineDemo
  imports Admission EngineDemo
begin

text \<open>
  One momentum batch worked out on the plan of \<open>EngineDemo\<close>: an instrument whose close doubles between the session
  before the test window and its first session.  It is selected, and the witnesses of the generator's properties run on it;
  on a dataset without these bars the same call returns a batch with no intent.
\<close>

section \<open>The instrument, the configuration and the bars\<close>

definition drift_instrument :: pit_instrument where
  "drift_instrument = (let i = \<lparr>pit_symbol = ''TCS'', pit_isin = ''INE467B01029'', pit_universe = demo_sha,
     eligible_sessions = [Date 2026 3 23], pit_tick = Dec False 5 (-2), pit_stable = None, eligibility_bindings = [],
     pit_id = []\<rparr> in i\<lparr>pit_id := fields_id (instrument_material i)\<rparr>)"

definition drift_request :: momentum_config where
  "drift_request = \<lparr>lookback_sessions = 1, maximum_positions = 1, momentum_exposure = Dec False 5 (-1),
     minimum_momentum = 0, momentum_stop = Dec False 5 (-2), momentum_target = Dec False 10 (-2), momentum_holding = 1,
     momentum_version = ''v1'', momentum_id = []\<rparr>"

definition drift_config :: momentum_config where
  "drift_config = drift_request\<lparr>momentum_id := fields_id (momentum_material drift_request)\<rparr>"

definition drift_bar :: "nat \<Rightarrow> nat \<Rightarrow> simulation_bar" where
  \<comment> \<open>the demonstration bar on another day of March 2026, with another close\<close>
  "drift_bar d c = (let b = demo_bar\<lparr>bar_session := Date 2026 3 d, bar_close := Dec False c (-2)\<rparr> in
     b\<lparr>bar_id := fields_id (bar_material b)\<rparr>)"

definition drift_data :: "simulation_bar list \<Rightarrow> evaluation_dataset" where
  "drift_data bs = (let d = \<lparr>ds_sessions = demo_cal 25, ds_bars = bs, ds_sources = [demo_sha], ds_universes = [demo_sha],
     ds_readiness = SYNTHETIC, dataset_id = []\<rparr> in d\<lparr>dataset_id := fields_id (dataset_material d)\<rparr>)"

abbreviation drift_capital :: decimal where
  "drift_capital \<equiv> Dec False 1 5"

abbreviation drift_run :: "simulation_bar list \<Rightarrow> intent_batch res" where
  "drift_run bs \<equiv> generate_momentum drift_config trial_plan (drift_data bs) [drift_instrument] trial_policy drift_capital"

lemma drift_fields [simp]:
  "pit_symbol drift_instrument = ''TCS''" "pit_isin drift_instrument = ''INE467B01029''" "pit_universe drift_instrument = demo_sha"
  "eligible_sessions drift_instrument = [Date 2026 3 23]" "pit_tick drift_instrument = Dec False 5 (-2)"
  "eligibility_bindings drift_instrument = []" "sha_text (pit_id drift_instrument)"
  "lookback_sessions drift_config = 1" "maximum_positions drift_config = 1" "momentum_exposure drift_config = Dec False 5 (-1)"
  "minimum_momentum drift_config = 0" "momentum_stop drift_config = Dec False 5 (-2)"
  "momentum_target drift_config = Dec False 10 (-2)" "momentum_holding drift_config = 1" "sha_text (momentum_id drift_config)"
  "bar_session (drift_bar d c) = Date 2026 3 d" "bar_symbol (drift_bar d c) = ''TCS''" "bar_close (drift_bar d c) = Dec False c (-2)"
  "bar_volume (drift_bar d c) = 1000000" "tradable (drift_bar d c)" "sha_text (bar_id (drift_bar d c))"
  "ds_sessions (drift_data bs) = demo_cal 25" "ds_bars (drift_data bs) = bs" "ds_sources (drift_data bs) = [demo_sha]"
  "ds_universes (drift_data bs) = [demo_sha]"
  by (simp_all add: drift_instrument_def drift_config_def drift_bar_def drift_data_def Let_def)
    (simp_all add: drift_request_def demo_bar_def)

lemma drift_sealed: "\<not> fst (dataset_broken (drift_data bs))" "\<not> fst (instrument_broken drift_instrument)"
    "\<not> fst (momentum_broken drift_config)"
  by (simp_all add: drift_data_def drift_instrument_def drift_config_def dataset_broken_def instrument_broken_def momentum_broken_def
      Let_def dataset_material_def instrument_material_def momentum_material_def)

lemma drift_config_made: "mk_momentum_config drift_request = Inr drift_config"
proof -
  have "normalized_text ''v1'' = (False, base_err ''must be normalized non-empty text'')" by code_simp
  then show ?thesis
    by (simp add: mk_momentum_config_def guards_Inr_iff momentum_guards_def positive_integer_def base_fraction_def
        base_positive_def drift_config_def drift_request_def le_iff_dval dval_Dec)
qed

lemma drift_valid: "validate_inputs trial_plan (drift_data bs) [drift_instrument] drift_capital 1 = Inr ()"
  using drift_sealed trial_plan_built(2)
  by (simp add: validate_inputs_def guards_Inr_iff res_simps base_positive_def le_iff_dval dval_Dec trial_plan_fields
      trial_test admit_instrument_def unique_member_def demo_cal_def)

lemma drift_days: "demo_cal 25 ! 22 = Date 2026 3 23" "demo_cal 25 ! 21 = Date 2026 3 22"
    "session_position (drift_data bs) (Date 2026 3 23) = Inr 22"
proof -
  show d: "demo_cal 25 ! 22 = Date 2026 3 23" "demo_cal 25 ! 21 = Date 2026 3 22" by (simp_all add: demo_cal_def)
  have "index_of (demo_cal 25) (Date 2026 3 23) = 22"
    using index_of_nth [of "demo_cal 25" 22] demo_cal_sorted [of 25] d by (simp add: strict_sorted_iff)
  moreover have "Date 2026 3 23 \<in> set (demo_cal 25)" by (simp add: demo_cal_def)
  ultimately show "session_position (drift_data bs) (Date 2026 3 23) = Inr 22" by (simp add: session_position_def)
qed

section \<open>One decision makes a batch\<close>

abbreviation drift_slot :: decimal where
  "drift_slot \<equiv> momentum_slot drift_config drift_capital"

abbreviation drift_decide :: "simulation_bar list \<Rightarrow> signal_decision res" where
  "drift_decide bs \<equiv> decide_instrument (momentum_id drift_config) STRATEGY ''CLOSE_MOMENTUM'' (fold_id trial_fold)
     (Date 2026 3 23) (momentum_reasons drift_config (drift_data bs) [drift_instrument] drift_slot (Date 2026 3 23) 22)
     drift_instrument"

abbreviation drift_intent :: "simulation_bar list \<Rightarrow> signal_decision \<Rightarrow> trade_intent res" where
  "drift_intent bs \<equiv> intent_for (drift_data bs) [drift_instrument] drift_slot (Dec False 5 (-2)) (Dec False 10 (-2)) 1
     (Dec False 25 (-4)) (Date 2026 3 24)"

lemma decide_sealed: "decide_instrument gen role sname f d m i = Inr x \<Longrightarrow> \<not> fst (decision_broken x)"
  by (auto simp: decide_instrument_def mk_decision_def decision_broken_def decision_material_def split: option.splits if_splits
      simp: guards_Inr_iff)

lemma drift_batch:
  assumes x: "drift_decide bs = Inr x"
    and t: "if selected x then \<exists>t. drift_intent bs x = Inr t \<and> ts = [t] else ts = []"
  shows "\<exists>b. drift_run bs = Inr b \<and> batch_decisions b = [x] \<and> batch_intents b = ts"
proof -
  have fold: "momentum_fold drift_config (drift_data bs) [drift_instrument] trial_policy drift_capital trial_fold = Inr ([x], ts)"
    using x t by (auto simp: momentum_fold_def Let_def trial_test drift_days fold_batch_def split: if_splits)
  have d: "decided_by x = momentum_id drift_config" "decided_role x = STRATEGY" "decided_symbol x = ''TCS''"
    "decided_session x = Date 2026 3 23"
    using decide_instrument_Inr [OF x] by auto
  have "\<not> fst (intent_broken t) \<and> signal_session (intent_order t) = Date 2026 3 23 \<and> entry_symbol (intent_order t) = ''TCS''
      \<and> intent_signal t = decision_id x" if t: "drift_intent bs x = Inr t" for t
    by (rule intent_for_Inr [OF t]) (use d generated_intent_Inr in \<open>auto simp: by_id_def split: if_splits\<close>)
  then have k: "\<forall>t \<in> set ts. \<not> fst (intent_broken t)" "selected x \<longrightarrow> map (\<lambda>i. (signal_session (intent_order i),
      entry_symbol (intent_order i), intent_signal i)) ts = [(Date 2026 3 23, ''TCS'', decision_id x)]"
    using t by (auto split: if_splits)
  have "sha_text (plan_id trial_plan)" by (simp add: trial_plan_def Let_def)
  moreover have "ts = sort_key intent_key ts" using t by (auto split: if_splits)
  moreover have "\<not> selected x \<Longrightarrow> ts = []" using t by simp
  ultimately have "\<exists>b. seal_batch (momentum_id drift_config) STRATEGY trial_plan (drift_data bs) [([x], ts)] = Inr b
      \<and> batch_decisions b = [x] \<and> batch_intents b = ts"
    using decide_sealed [OF x] k d
    by (auto simp: seal_batch_def mk_batch_def guards_Inr_iff batch_guards_def base_sha_def selected_keys_def intent_keys_def
        demo_sha_text)
  then show ?thesis
    using drift_sealed(3) trial_sealed(2) drift_valid fold
    by (simp add: generate_momentum_def guards_Inr_iff trial_plan_fields guards.simps)
qed

lemma drift_texts:
  "normalized_text ''CLOSE_MOMENTUM'' = (False, base_err ''must be normalized non-empty text'')"
  "normalized_text ''MISSING_AS_OF_BAR'' = (False, base_err ''must be normalized non-empty text'')"
  "normalized_text ''SELECTED'' = (False, base_err ''must be normalized non-empty text'')"
  "''TCS'' = upper (strip ''TCS'')"
  by code_simp+

lemma drift_decided:
  assumes "momentum_reasons drift_config (drift_data bs) [drift_instrument] drift_slot (Date 2026 3 23) 22
      (pit_id drift_instrument) = Some (r, v, ids)"
    and "r \<in> {''MISSING_AS_OF_BAR'', ''SELECTED''}" "distinct ids" "\<forall>s \<in> set ids. sha_text s"
  shows "\<exists>x. drift_decide bs = Inr x \<and> selected x = (r = ''SELECTED'') \<and> reason x = r \<and> decided_session x = Date 2026 3 23
    \<and> decided_instrument x = pit_id drift_instrument \<and> sha_text (decision_id x)"
proof -
  have "sha_text (fold_id trial_fold)" by (simp add: trial_fold_def sealed_fold_def Let_def)
  then show ?thesis using assms drift_texts
    by (auto simp: decide_instrument_def mk_decision_def guards_Inr_iff decision_guards_def base_sha_def)
qed

lemma drift_idle:
  assumes "bar_at (drift_data bs) (Date 2026 3 23) ''TCS'' = None" "bar_at (drift_data bs) (Date 2026 3 22) ''TCS'' = None"
  shows "\<exists>b x. drift_run bs = Inr b \<and> batch_decisions b = [x] \<and> batch_intents b = [] \<and> reason x = ''MISSING_AS_OF_BAR''"
proof -
  have "screen_momentum drift_config (drift_data bs) (Date 2026 3 23) 22 drift_instrument = Ruled_Out (''MISSING_AS_OF_BAR'', None, [])"
    using assms by (simp add: screen_momentum_def drift_days Let_def optional_def)
  then have "momentum_reasons drift_config (drift_data bs) [drift_instrument] drift_slot (Date 2026 3 23) 22
      (pit_id drift_instrument) = Some (''MISSING_AS_OF_BAR'', None, [])"
    by (simp add: momentum_reasons_def Let_def candidates_def ruled_out_def record_all_def)
  from drift_decided [OF this] obtain x where "drift_decide bs = Inr x" "\<not> selected x" "reason x = ''MISSING_AS_OF_BAR''" by auto
  then show ?thesis using drift_batch [of bs x "[]"] by fastforce
qed

section \<open>The order of the selected instrument\<close>

text \<open>A whole number of ticks passes the tick check.\<close>

lemma on_tick_value:
  assumes "0 < dval tick" and "dval v = of_nat k * dval tick" and "k < 10 ^ 28"
  shows "on_tick v tick = Inr True"
proof -
  define e where "e = min (dexp v) (dexp tick)"
  have v: "dval v = of_int (daligned e v) * 10 powi e" "dval tick = of_int (daligned e tick) * 10 powi e"
    by (intro dval_aligned, simp add: e_def)+
  have y: "0 < daligned e tick" using zero_less_mult_pos2 [OF assms(1) [unfolded v(2)] powi10_pos] by simp
  have "of_int (daligned e v) * 10 powi e = (of_int (int k * daligned e tick) :: rat) * 10 powi e"
    using assms(2) unfolding v by simp
  then have "(of_int (daligned e v) :: rat) = of_int (int k * daligned e tick)" using powi10_pos [of e] by simp
  then have x: "daligned e v = int k * daligned e tick" by (simp only: of_int_eq_iff)
  have n: "nat \<bar>daligned e v\<bar> = k * nat \<bar>daligned e tick\<bar>" using y unfolding x by (simp add: abs_mult nat_mult_distrib)
  have nz: "\<not> dzero tick" using assms(1) dval_zero_iff [of tick] by force
  have t: "nat \<bar>daligned e tick\<bar> \<noteq> 0" using y by simp
  have "dmod v tick = Inr (dec_fix (Dec (dneg v) 0 e))"
    using t assms(3) by (simp add: dmod_def nz Let_def n prec_def flip: e_def)
  moreover have "deq (dec_fix (Dec (dneg v) 0 e)) 0" by (simp add: dec_fix_exact repr_def prec_def deq_iff_dval dval_Dec)
  ultimately show ?thesis by (simp add: on_tick_def)
qed

abbreviation drift_limit :: decimal where
  "drift_limit \<equiv> tick_floor (Dec False 10000 (-2)) (Dec False 5 (-2))"

abbreviation drift_stop :: decimal where
  "drift_stop \<equiv> tick_floor (drift_limit * (1 - Dec False 5 (-2))) (Dec False 5 (-2))"

abbreviation drift_goal :: decimal where
  "drift_goal \<equiv> tick_ceiling (drift_limit * (1 + Dec False 10 (-2))) (Dec False 5 (-2))"

lemma drift_levels: "dval drift_limit = 100" "dval drift_stop = 95" "dval drift_goal = 110"
    "on_tick drift_limit (Dec False 5 (-2)) = Inr True" "on_tick drift_stop (Dec False 5 (-2)) = Inr True"
    "on_tick drift_goal (Dec False 5 (-2)) = Inr True"
proof -
  let ?t = "Dec False 5 (-2)"
  have tick: "dval ?t = of_nat 5 * 10 powi (-2)" by (simp add: dval_Dec)
  show l: "dval drift_limit = 100"
    using tick_floor_grid [of "Dec False 10000 (-2)" 10000 "-2" ?t 5] tick by (simp add: dval_Dec power_int_minus)
  have f: "dval (1 - ?t) = 95 / 100"
    using minus_exact [of "Dec False 95 (-2)" 1 ?t] by (simp add: repr_def prec_def dval_Dec power_int_minus)
  have g: "dval (1 + Dec False 10 (-2)) = 11 / 10"
    using plus_exact [of "Dec False 11 (-1)" 1 "Dec False 10 (-2)"] by (simp add: repr_def prec_def dval_Dec power_int_minus)
  have sv: "dval (drift_limit * (1 - ?t)) = of_nat 9500 * 10 powi (-2)"
    using times_exact [of "Dec False 9500 (-2)" drift_limit "1 - ?t"] by (simp add: l f repr_def prec_def dval_Dec power_int_minus)
  have gv: "dval (drift_limit * (1 + Dec False 10 (-2))) = of_nat 11000 * 10 powi (-2)"
    using times_exact [of "Dec False 11000 (-2)" drift_limit "1 + Dec False 10 (-2)"]
    by (simp add: l g repr_def prec_def dval_Dec power_int_minus)
  show s: "dval drift_stop = 95" using tick_floor_grid [OF sv tick] by (simp add: dval_Dec power_int_minus)
  show t: "dval drift_goal = 110" using tick_ceiling_grid [OF gv tick] by (simp add: ceil_div_def dval_Dec power_int_minus)
  note on = on_tick_value [where tick = ?t]
  show "on_tick drift_limit ?t = Inr True" by (rule on [where k = 2000]) (simp_all add: l dval_Dec power_int_minus)
  show "on_tick drift_stop ?t = Inr True" by (rule on [where k = 1900]) (simp_all add: s dval_Dec power_int_minus)
  show "on_tick drift_goal ?t = Inr True" by (rule on [where k = 2200]) (simp_all add: t dval_Dec power_int_minus)
qed

lemma drift_quantity: "dval drift_slot = 50000" "0 < dec_int (dquot drift_slot drift_limit)"
proof -
  have m: "dval (drift_capital * Dec False 5 (-1)) = 50000"
    using times_exact [of "Dec False 5 4" drift_capital "Dec False 5 (-1)"] by (simp add: repr_def prec_def dval_Dec power_int_minus)
  show s: "dval drift_slot = 50000"
    unfolding momentum_slot_def drift_fields
    by (subst dquot_exact [of _ "Dec False 5 4"]) (simp_all add: m repr_def prec_def dval_Dec dzero_def dec_of_int_def del: One_nat_def)
  have "\<not> dzero drift_limit" using drift_levels(1) dval_zero_iff [of drift_limit] by force
  then have "dval (dquot drift_slot drift_limit) = 500"
    using dquot_exact [of drift_limit "Dec False 500 0" drift_slot] drift_levels(1) s by (simp add: repr_def prec_def dval_Dec)
  then show "0 < dec_int (dquot drift_slot drift_limit)" using dec_int_value [of "dquot drift_slot drift_limit"] by simp
qed

abbreviation drift_lookback :: simulation_bar where
  "drift_lookback \<equiv> drift_bar 22 5000"

abbreviation drift_signal :: simulation_bar where
  "drift_signal \<equiv> drift_bar 23 10000"

lemma drift_selected:
  assumes "bar_at (drift_data bs) (Date 2026 3 22) ''TCS'' = Some drift_lookback"
    and "bar_at (drift_data bs) (Date 2026 3 23) ''TCS'' = Some drift_signal"
  shows "\<exists>v. momentum_reasons drift_config (drift_data bs) [drift_instrument] drift_slot (Date 2026 3 23) 22
      (pit_id drift_instrument) = Some (''SELECTED'', v, [bar_id drift_lookback, bar_id drift_signal])"
proof -
  let ?m = "dquot (Dec False 10000 (-2)) (Dec False 5000 (-2))"
  have "dval ?m = 2" using dquot_exact [of "Dec False 5000 (-2)" "Dec False 2 0" "Dec False 10000 (-2)"]
    by (simp add: dzero_def repr_def prec_def dval_Dec)
  then have "dval (?m - 1) = 1" using minus_exact [of 1 ?m 1] by simp
  then have m: "\<not> ?m - 1 < 0" by (simp add: less_iff_dval)
  have "can_buy (drift_data bs) (Date 2026 3 23) drift_slot k" if "cand_instrument k = drift_instrument" for k
    using assms(2) drift_levels(1) drift_quantity(2) that by (simp add: can_buy_def affordable_def Let_def le_iff_dval)
  then show ?thesis
    using assms m by (simp add: momentum_reasons_def Let_def candidates_def ruled_out_def record_all_def screen_momentum_def
        drift_days select_momentum_def)
qed

lemma drift_ordered:
  assumes "bar_at (drift_data bs) (Date 2026 3 23) ''TCS'' = Some drift_signal"
    and x: "decided_session x = Date 2026 3 23" "decided_instrument x = pit_id drift_instrument" "sha_text (decision_id x)"
  shows "\<exists>t. drift_intent bs x = Inr t"
proof -
  note l = drift_levels drift_quantity(2)
  have isin: "''INE467B01029'' = upper (strip ''INE467B01029'')" by code_simp
  show ?thesis
    using l assms isin
    by (simp add: intent_for_def by_id_def generated_intent_def Let_def guards_Inr_iff res_simps mk_limit_entry_order_def
        entry_guards_def symbol_guard_def price_guard_def participation_guard_def demo_symbol mk_intent_def eval_sha_def
        demo_sha_text intent_price_def eval_positive_def le_iff_dval less_iff_dval dval_Dec)
qed

lemma drift_traded:
  assumes bars: "bar_at (drift_data bs) (Date 2026 3 22) ''TCS'' = Some drift_lookback"
    "bar_at (drift_data bs) (Date 2026 3 23) ''TCS'' = Some drift_signal"
    and no: "\<not> collision_of (bar_material drift_lookback) (bar_material drift_signal)"
  shows "\<exists>b x t. drift_run bs = Inr b \<and> batch_decisions b = [x] \<and> selected x \<and> batch_intents b = [t]
    \<and> entry_symbol (intent_order t) = ''TCS'' \<and> signal_session (intent_order t) = Date 2026 3 23"
proof -
  have "canon (PDate (Date 2026 3 22)) \<noteq> canon (PDate (Date 2026 3 23))" by code_simp
  then have "map (canon \<circ> snd) (bar_material drift_lookback) \<noteq> map (canon \<circ> snd) (bar_material drift_signal)"
    by (simp add: bar_material_def)
  moreover have "bar_id (drift_bar d c) = fields_id (bar_material (drift_bar d c))" for d c
    by (simp add: drift_bar_def Let_def bar_material_def)
  ultimately have "bar_id drift_lookback \<noteq> bar_id drift_signal" using bar_identity.sealed_same_fields no by metis
  then obtain x where x: "drift_decide bs = Inr x" "selected x" "decided_session x = Date 2026 3 23"
    "decided_instrument x = pit_id drift_instrument" "sha_text (decision_id x)"
    using drift_selected [OF bars] drift_decided [of bs "''SELECTED''"] by fastforce
  obtain t where t: "drift_intent bs x = Inr t" using drift_ordered [OF bars(2) x(3-5)] by blast
  have "entry_symbol (intent_order t) = ''TCS'' \<and> signal_session (intent_order t) = Date 2026 3 23"
    by (rule intent_for_Inr [OF t]) (use generated_intent_Inr(1,2) x(3) in \<open>auto simp: by_id_def split: if_splits\<close>)
  then show ?thesis using drift_batch [OF x(1), of "[t]"] x(2) t by auto
qed

section \<open>Witnesses\<close>

abbreviation drift_bars :: "simulation_bar list" where
  "drift_bars \<equiv> [drift_lookback, drift_signal]"

lemma find_append: "List.find P (xs @ ys) = (case List.find P xs of Some x \<Rightarrow> Some x | None \<Rightarrow> List.find P ys)"
  by (induction xs) auto

lemma drift_at:
  "bar_at (drift_data (drift_bars @ bs)) d ''TCS'' = (case bar_at (drift_data bs) d ''TCS'' of Some b \<Rightarrow> Some b
     | None \<Rightarrow> if d = Date 2026 3 23 then Some drift_signal else if d = Date 2026 3 22 then Some drift_lookback else None)"
  "bar_at (drift_data []) d ''TCS'' = None"
  "bar_at (drift_data [trial_bar]) d ''TCS'' = (if d = Date 2026 3 24 then Some trial_bar else None)"
  by (auto simp: bar_at_def find_append split: option.splits)

lemma drift_data_made: "\<exists>ds0. mk_dataset ds0 = Inr (drift_data drift_bars)"
proof -
  have d: "Date 2026 3 22 \<in> set (demo_cal 25)" "Date 2026 3 23 \<in> set (demo_cal 25)" "demo_cal 25 \<noteq> []"
    by (simp_all add: demo_cal_def)
  have "mk_dataset ((drift_data drift_bars)\<lparr>dataset_id := []\<rparr>) = Inr (drift_data drift_bars)"
    using demo_cal_sorted [of 25] d
    by (simp add: mk_dataset_def guards_Inr_iff dataset_guards_def bar_place_def eval_ids_def eval_sha_def demo_sha_text)
      (simp add: drift_data_def Let_def dataset_material_def)
  then show ?thesis by blast
qed

theorem momentum_no_lookahead_witness:
  "(\<exists>b b'. drift_run drift_bars = Inr b \<and> drift_run (drift_bars @ [trial_bar]) = Inr b'
      \<and> batch_intents b' \<noteq> [] \<and> filter (\<lambda>x. decided_session x \<le> Date 2026 3 23) (batch_decisions b)
        = filter (\<lambda>x. decided_session x \<le> Date 2026 3 23) (batch_decisions b'))
    \<or> collision_of (bar_material drift_lookback) (bar_material drift_signal)"
proof (rule disjCI)
  assume no: "\<not> collision_of (bar_material drift_lookback) (bar_material drift_signal)"
  obtain b t where b: "drift_run drift_bars = Inr b" "batch_intents b = [t]"
    using drift_traded [OF _ _ no, of drift_bars] drift_at(1) [of "[]"] drift_at(2) by auto
  obtain b' t' where b': "drift_run (drift_bars @ [trial_bar]) = Inr b'" "batch_intents b' = [t']"
    using drift_traded [OF _ _ no, of "drift_bars @ [trial_bar]"] drift_at(1) [of "[trial_bar]"] drift_at(3) by auto
  obtain ds0 where made: "mk_dataset ds0 = Inr (drift_data drift_bars)" using drift_data_made by blast
  have "agree_until (Date 2026 3 23) (drift_data drift_bars) (drift_data (drift_bars @ [trial_bar]))"
    by (simp add: agree_until_def)
  from momentum_no_lookahead [OF drift_config_made made this b(1) b'(1)] b b' show "\<exists>b b'. drift_run drift_bars = Inr b
      \<and> drift_run (drift_bars @ [trial_bar]) = Inr b' \<and> batch_intents b' \<noteq> []
      \<and> filter (\<lambda>x. decided_session x \<le> Date 2026 3 23) (batch_decisions b)
        = filter (\<lambda>x. decided_session x \<le> Date 2026 3 23) (batch_decisions b')" by auto
qed

theorem momentum_selects_best_witness:
  "(\<exists>b. drift_run [] = Inr b \<and> map decided_instrument (filter (\<lambda>x. decided_fold x = fold_id trial_fold) (batch_decisions b))
      = [pit_id drift_instrument])
    \<and> ((\<exists>b x. drift_run drift_bars = Inr b \<and> x \<in> set (batch_decisions b) \<and> selected x
      \<and> qualifies drift_config (drift_data drift_bars) drift_slot (Date 2026 3 23) drift_instrument)
    \<or> collision_of (bar_material drift_lookback) (bar_material drift_signal))"
proof (intro conjI disjCI)
  note best = momentum_selects_best [OF trial_plan_built(1), where f = trial_fold and i = drift_instrument]
  obtain b where "drift_run [] = Inr b" using drift_idle [of "[]"] by (auto simp: drift_at(2))
  then show "\<exists>b. drift_run [] = Inr b \<and> map decided_instrument (filter (\<lambda>x. decided_fold x = fold_id trial_fold) (batch_decisions b))
      = [pit_id drift_instrument]" using best [of drift_config "drift_data []"] by (auto simp: trial_plan_fields)
  assume no: "\<not> collision_of (bar_material drift_lookback) (bar_material drift_signal)"
  obtain b t x where b: "drift_run drift_bars = Inr b" "batch_decisions b = [x]" "selected x"
    using drift_traded [OF _ _ no, of drift_bars] drift_at(1) [of "[]"] drift_at(2) by auto
  have "qualifies drift_config (drift_data drift_bars) drift_slot (Date 2026 3 23) drift_instrument"
    using best [OF b(1)] b(2,3) by (auto simp: trial_plan_fields trial_test momentum_slot_def)
  then show "\<exists>b x. drift_run drift_bars = Inr b \<and> x \<in> set (batch_decisions b) \<and> selected x
      \<and> qualifies drift_config (drift_data drift_bars) drift_slot (Date 2026 3 23) drift_instrument" using b by auto
qed

theorem momentum_intents_admitted_witness:
  "(\<exists>b t. drift_run drift_bars = Inr b \<and> batch_intents b = [t]
      \<and> run_intent trial_registered trial_plan (drift_data drift_bars) trial_policy 0 t
        = bindE (evaluate_intent t drift_bars (demo_cal 25) trial_policy 0)
            (\<lambda>outcome. Inr (case outcome of None \<Rightarrow> [] | Some x \<Rightarrow> [x])))
    \<or> collision_of (bar_material drift_lookback) (bar_material drift_signal)"
proof (rule disjCI)
  assume no: "\<not> collision_of (bar_material drift_lookback) (bar_material drift_signal)"
  obtain b t where b: "drift_run drift_bars = Inr b" "batch_intents b = [t]" "entry_symbol (intent_order t) = ''TCS''"
    using drift_traded [OF _ _ no, of drift_bars] drift_at(1) [of "[]"] drift_at(2) by auto
  have "label_horizon_sessions trial_registered = label_horizon trial_plan"
    by (simp add: trial_plan_fields trial_registered_def trial_request_def demo_registration_def)
  from momentum_intents_admitted [OF trial_plan_built(1) drift_config_made b(1) this] b
  show "\<exists>b t. drift_run drift_bars = Inr b \<and> batch_intents b = [t]
      \<and> run_intent trial_registered trial_plan (drift_data drift_bars) trial_policy 0 t
        = bindE (evaluate_intent t drift_bars (demo_cal 25) trial_policy 0)
            (\<lambda>outcome. Inr (case outcome of None \<Rightarrow> [] | Some x \<Rightarrow> [x]))" by (auto intro!: exI [of _ b] exI [of _ t])
qed

theorem momentum_exposure_bound_witness:
  "(\<exists>b. drift_run [] = Inr b \<and> length (filter (\<lambda>t. signal_session (intent_order t) = Date 2026 3 23) (batch_intents b)) \<le> 1)
    \<and> ((\<exists>b t. drift_run drift_bars = Inr b \<and> batch_intents b = [t]
        \<and> of_int (entry_quantity (intent_order t)) * dval (limit_price (intent_order t)) \<le> 50000 * (1 + 1 / 10 ^ 26))
      \<or> collision_of (bar_material drift_lookback) (bar_material drift_signal))"
proof (intro conjI disjCI)
  note bound = momentum_exposure_bound [OF trial_plan_built(1) drift_config_made, where f = trial_fold]
  obtain b where "drift_run [] = Inr b" using drift_idle [of "[]"] by (auto simp: drift_at(2))
  then show "\<exists>b. drift_run [] = Inr b \<and> length (filter (\<lambda>t. signal_session (intent_order t) = Date 2026 3 23) (batch_intents b)) \<le> 1"
    using bound [of "drift_data []"] by (auto simp: trial_plan_fields trial_test)
  assume no: "\<not> collision_of (bar_material drift_lookback) (bar_material drift_signal)"
  obtain b t where b: "drift_run drift_bars = Inr b" "batch_intents b = [t]" "signal_session (intent_order t) = Date 2026 3 23"
    using drift_traded [OF _ _ no, of drift_bars] drift_at(1) [of "[]"] drift_at(2) by auto
  then show "\<exists>b t. drift_run drift_bars = Inr b \<and> batch_intents b = [t]
      \<and> of_int (entry_quantity (intent_order t)) * dval (limit_price (intent_order t)) \<le> 50000 * (1 + 1 / 10 ^ 26)"
    using bound [OF b(1)] by (auto simp: trial_plan_fields trial_test dval_Dec power_int_minus)
qed

end
