(* ===== verification/RunDemo.thy ===== *)
theory RunDemo
  imports BaselineRun BaselineDemo
begin

text \<open>
  A comparison run worked out: on the dataset of \<open>EngineDemo\<close> neither generator has a bar on the signal session, both
  batches hold one unselected decision, and the run ends with one summary in which the strategy is no worse than the
  benchmark.
\<close>

section \<open>The benchmark's batch\<close>

definition drift_weight_request :: weight_config where
  "drift_weight_request = \<lparr>maximum_constituents = 1, weight_exposure = Dec False 5 (-1), weight_stop = Dec False 5 (-2),
     weight_target = Dec False 10 (-2), weight_holding = 1, weight_version = ''v1'', weight_id = []\<rparr>"

definition drift_weight :: weight_config where
  "drift_weight = drift_weight_request\<lparr>weight_id := fields_id (weight_material drift_weight_request)\<rparr>"

lemma drift_weight_fields [simp]:
  "weight_holding drift_weight = 1" "weight_target drift_weight = Dec False 10 (-2)" "weight_stop drift_weight = Dec False 5 (-2)"
  "sha_text (weight_id drift_weight)" "\<not> fst (weight_broken drift_weight)" "maximum_constituents drift_weight = 1"
  by (simp_all add: drift_weight_def drift_weight_request_def weight_broken_def weight_material_def)

lemma trial_data_drift: "trial_data = drift_data [trial_bar]"
  by (simp add: trial_data_def drift_data_def)

lemma idle_batch:
  assumes x: "decide_instrument gen role sname (fold_id trial_fold) (Date 2026 3 23) m drift_instrument = Inr x"
    and "\<not> selected x" "sha_text gen"
  shows "\<exists>b. seal_batch gen role trial_plan (drift_data bs) [([x], [])] = Inr b \<and> batch_intents b = []"
proof -
  have "decided_by x = gen" "decided_role x = role" using decide_instrument_Inr [OF x] by auto
  moreover have "sha_text (plan_id trial_plan)" by (simp add: trial_plan_def Let_def)
  ultimately show ?thesis using decide_sealed [OF x] assms(2,3)
    by (auto simp: seal_batch_def mk_batch_def guards_Inr_iff batch_guards_def base_sha_def selected_keys_def intent_keys_def
        demo_sha_text)
qed

lemma weight_idle: "\<exists>b. generate_weight drift_weight trial_plan trial_data [drift_instrument] trial_policy drift_capital = Inr b
    \<and> batch_intents b = []"
proof -
  have t: "normalized_text ''SIGNAL_TURNOVER'' = (False, base_err ''must be normalized non-empty text'')" by code_simp
  have s: "sha_text (fold_id trial_fold)" by (simp add: trial_fold_def sealed_fold_def Let_def)
  have m: "weight_reasons drift_weight trial_data [drift_instrument] slot (Date 2026 3 23) (pit_id drift_instrument)
      = Some (''MISSING_AS_OF_BAR'', None, [])" for slot
    by (simp add: weight_reasons_def Let_def screen_weight_def trial_data_drift drift_at candidates_def ruled_out_def record_all_def)
  let ?decide = "decide_instrument (weight_id drift_weight) BENCHMARK ''SIGNAL_TURNOVER'' (fold_id trial_fold) (Date 2026 3 23)
      (weight_reasons drift_weight trial_data [drift_instrument] (weight_slot drift_weight drift_capital) (Date 2026 3 23))
      drift_instrument"
  have "\<exists>x. ?decide = Inr x \<and> \<not> selected x"
    using t s drift_texts m
    by (simp add: decide_instrument_def mk_decision_def guards_Inr_iff decision_guards_def base_sha_def)
  then obtain x where x: "?decide = Inr x" "\<not> selected x" by blast
  then have "weight_fold drift_weight trial_data [drift_instrument] trial_policy drift_capital trial_fold = Inr ([x], [])"
    by (simp add: weight_fold_def Let_def trial_test fold_batch_def)
  then show ?thesis
    using idle_batch [OF x, of "[trial_bar]"] trial_sealed(2) drift_valid [of "[trial_bar]"]
    by (simp add: generate_weight_def guards_Inr_iff trial_plan_fields guards.simps flip: trial_data_drift)
qed

section \<open>The comparison\<close>

definition run_request :: trial_registration where
  "run_request = trial_request\<lparr>model_bundle_id := momentum_id drift_config, benchmark_id := weight_id drift_weight\<rparr>"

definition run_registered :: trial_registration where
  "run_registered = run_request\<lparr>trial_id := fields_id (registration_material run_request)\<rparr>"

lemma sha_canonical: "sha_text s \<Longrightarrow> canonical_text s"
proof -
  assume s: "sha_text s"
  have hex: "c \<in> set ''0123456789abcdef''" if "c \<in> set s" for c
    using s that unfolding sha_text_def list_all_iff by blast
  have no: "\<not> is_ws c" "32 \<le> (of_char c :: nat)" if c: "c \<in> set s" for c
    using hex [OF c] by (auto simp: is_ws_def)
  have "dropWhile is_ws xs = xs" if "set xs \<subseteq> set s" for xs using that no(1) by (cases xs) auto
  then have "strip s = s" by (simp add: strip_def)
  moreover have "length s = 64" using s unfolding sha_text_def by blast
  then have "s \<noteq> []" by fastforce
  moreover have "list_all (\<lambda>c. 32 \<le> (of_char c :: nat)) s" using no(2) by (simp only: list_all_iff) blast
  ultimately show ?thesis unfolding canonical_text_def by metis
qed

lemma run_registered_made: "mk_registration run_request (PyDatetime 0 (Some 0)) = Inr run_registered"
proof -
  have same: "trial_request\<lparr>registered_at := 0\<rparr> = trial_request" by (simp add: trial_request_def demo_registration_def)
  have "\<forall>g \<in> set (registration_guards trial_request). \<not> fst g"
    using trial_registered_made by (simp add: mk_registration_def to_utc_def guards_Inr_iff same)
  moreover have "canonical_text (momentum_id drift_config)" "canonical_text (weight_id drift_weight)" by (simp_all add: sha_canonical)
  moreover have "stage trial_request = EXPLORATORY" by (simp add: trial_request_def)
  ultimately have "\<forall>g \<in> set (registration_guards run_request). \<not> fst g"
    by (simp add: registration_guards_def slippage_guards_def run_request_def text_guard_def)
  moreover have "run_request\<lparr>registered_at := 0\<rparr> = run_request" by (simp add: run_request_def trial_request_def demo_registration_def)
  ultimately show ?thesis by (simp add: mk_registration_def to_utc_def guards_Inr_iff run_registered_def)
qed

lemma run_verified: "verify_inputs run_registered trial_plan trial_data trial_policy demo_schedule drift_capital = Inr ()"
proof -
  have "\<forall>g \<in> set (trial_bindings trial_registered trial_plan trial_data trial_policy demo_schedule). \<not> fst g"
    "verify_plan trial_plan = Inr ()" "\<not> fst (dataset_broken trial_data)" "\<not> fst (exec_policy_broken trial_policy)"
    using trial_verified [of drift_capital] by (auto simp: verify_inputs_def guards_Inr_iff res_simps dval_Dec)
  moreover have "trial_bindings run_registered trial_plan trial_data trial_policy demo_schedule
      = trial_bindings trial_registered trial_plan trial_data trial_policy demo_schedule"
    by (simp add: trial_bindings_def run_registered_def run_request_def trial_registered_def)
  moreover have "verify_registration run_registered = Inr ()" using mk_registration_Inr(2) [OF run_registered_made] .
  ultimately show ?thesis
    by (simp add: verify_inputs_def guards_Inr_iff eval_positive_def le_iff_dval dval_Dec ball_Un)
qed

lemma run_evaluated: "\<exists>res. evaluate run_registered trial_plan trial_data [] trial_policy demo_schedule drift_capital False = Inr res
    \<and> res_trades res = [] \<and> (\<forall>pt \<in> set (res_curve res). 0 < dval (equity pt))"
proof -
  have w: "within_bounds trial_data demo_schedule drift_capital []"
  proof -
    have "grid (10 ^ 27) drift_capital" using upto_grid [of "10 ^ 23" drift_capital] by (simp add: upto_def dval_Dec)
    then show ?thesis using trial_bounds [of hundred demo_schedule "[]"] by (simp add: within_bounds_def)
  qed
  have tr: "traded trial_plan trial_data []"
    using found_traded [OF _ trial_plan_built(1), of run_registered trial_data trial_policy 0 "[]" "[]"] trial_plan_fields(2) by simp
  have e: "evaluate run_registered trial_plan trial_data [] trial_policy demo_schedule drift_capital False
      = settle run_registered trial_plan trial_data trial_policy demo_schedule drift_capital []"
    by (simp add: evaluate_def run_verified select_slippage_def guards.simps del: One_nat_def)
  obtain c res where "price_fills [] demo_schedule = Inr c"
    "settle run_registered trial_plan trial_data trial_policy demo_schedule drift_capital [] = Inr res"
    "res_trades res = []" "res_charges res = c" "res_capital res = drift_capital" "exact_ledger trial_data res"
    using settle_outcome [OF run_verified trial_plan_built(1) run_registered_made tr trial_overlap(1) w fills_of_Nil]
    by (auto simp: refused_def overdrawn_def exact_cash_def list_ex_iff dval_Dec price_fills_def legs_of_def split: if_splits)
  then show ?thesis unfolding e
    by (auto simp: exact_ledger_def Let_def exact_point_def exact_equity_def exact_cash_def price_fills_def legs_of_def dval_Dec open_in_def)
qed

lemma run_compared: "\<exists>c. compare run_registered trial_plan trial_data [] [] trial_policy demo_schedule drift_capital = Inr c
    \<and> (\<forall>q \<in> set (scenarios c). \<forall>pt \<in> set (res_curve q). 0 < dval (equity pt))"
proof -
  obtain res where r: "evaluate run_registered trial_plan trial_data [] trial_policy demo_schedule drift_capital False = Inr res"
    "res_trades res = []" and pos: "\<forall>pt \<in> set (res_curve res). 0 < dval (equity pt)" using run_evaluated by blast
  obtain ts where "settle run_registered trial_plan trial_data trial_policy demo_schedule drift_capital ts = Inr res"
    by (rule evaluate_Inr [OF r(1)])
  then obtain q where q: "mk_result q = Inr res" "res_trial q = trial_id run_registered"
    by (auto simp: settle_def res_simps Let_def)
  have b: "res_trial res = trial_id run_registered" using q(2) by (subst mk_result_Inr(1) [OF q(1)]) simp
  note b = b mk_result_Inr(2) [OF q(1)]
  have f: "model_bundle_id run_registered = momentum_id drift_config" "benchmark_id run_registered = weight_id drift_weight"
    "primary_metric run_registered = ''net_return''" "stressed_slippage_bps run_registered = None"
    by (simp_all add: run_registered_def run_request_def trial_request_def)
  have n: "\<not> blank (momentum_id drift_config)" "\<not> blank (weight_id drift_weight)" by (simp_all add: sha_not_blank)
  have m: "\<not> blank ''net_return''" by code_simp
  have "sha_text (trial_id run_registered)" by (simp add: run_registered_def)
  then show ?thesis
    using r b n m pos by (simp add: compare_def f mk_comparison_def guards_Inr_iff cmp_guards_def eval_sha_def threshold_metrics_def
        supported_metrics_def binding_guards_def wrong_slippage_def optional_def Let_def scenarios_def decide_keeps del: One_nat_def)
qed

section \<open>Witness\<close>

theorem baseline_run_outcome_witness:
  "\<exists>q. evaluate_baselines run_registered drift_config drift_weight trial_plan trial_data [drift_instrument] trial_policy
      demo_schedule drift_capital = Inr q \<and> map sum_fold (run_folds q) = [fold_id trial_fold] \<and> verify_run q = Inr ()"
proof -
  have at: "bar_at (drift_data [trial_bar]) (Date 2026 3 d) ''TCS'' = None" if "d \<noteq> 24" for d
    using that by (simp add: drift_at)
  obtain sb where sb: "drift_run [trial_bar] = Inr sb" "batch_intents sb = []"
    using drift_idle [OF at [of 23] at [of 22]] by auto
  obtain bb where bb: "generate_weight drift_weight trial_plan trial_data [drift_instrument] trial_policy drift_capital = Inr bb"
    "batch_intents bb = []" using weight_idle by blast
  obtain c where c: "compare run_registered trial_plan trial_data (batch_intents sb) (batch_intents bb) trial_policy demo_schedule
      drift_capital = Inr c" "\<forall>q \<in> set (scenarios c). \<forall>pt \<in> set (res_curve q). 0 < dval (equity pt)"
    using run_compared by (auto simp: sb bb)
  have "model_bundle_id run_registered = momentum_id drift_config" "benchmark_id run_registered = weight_id drift_weight"
    by (simp_all add: run_registered_def run_request_def)
  note out = baseline_run_outcome [OF trial_plan_built(1) this sb(1) [folded trial_data_drift] bb(1) c(1)]
  have "\<not> (\<exists>f \<in> set (folds trial_plan). \<exists>q \<in> set (scenarios c). \<exists>pt \<in> set (res_curve q). point_session pt = hd (test f) \<and> equity pt \<le> 0)"
    using c(2) by (fastforce simp: le_iff_dval)
  note run = out [unfolded if_not_P [OF this]]
  have "map fold_id (folds trial_plan) = [fold_id trial_fold]" by (simp add: trial_plan_fields)
  then show ?thesis using run by (elim exE conjE) (intro exI conjI, assumption, simp_all only:)
qed

end
