(* ===== verification/Family.thy ===== *)
theory Family
  imports BaselineRun
begin

text \<open>
  The evaluation of a whole trial family (\<open>evaluation/family_aggregation.py\<close>): one comparison run per registered trial,
  an exact sign test on its folds in both slippage scenarios, and Holm's step-down procedure over the family.

  Of the run store's \<open>require_persisted\<close> the check of the run's identity is modelled; whether the files on disk hold the
  same run is an argument, \<open>persisted\<close>.  The registry is the one of
  \<open>Trials\<close>.
\<close>

section \<open>The sign test\<close>

definition holm_policy :: string where
  "holm_policy = ''holm-familywise-primary-fold-sign-v1''"

definition holm_alpha :: decimal where
  "holm_alpha = Dec False 5 (-2)"

definition fam_err :: "string \<Rightarrow> py_exc" where
  "fam_err msg = TrialFamilyAggregationError msg"

definition fam_sha :: "string \<Rightarrow> bool \<times> py_exc" where
  "fam_sha s = (\<not> sha_text s, fam_err ''must be a full lowercase SHA-256'')"

definition tail_count :: "nat \<Rightarrow> nat \<Rightarrow> nat" where
  "tail_count w n = sum_list (map (\<lambda>k. n choose k) [w..<n + 1])"

definition exact_sign_tail :: "int \<Rightarrow> int \<Rightarrow> decimal res" where
  "exact_sign_tail w n = guards [(n \<le> 0 \<or> w < 0 \<or> n < w, fam_err ''sign-test counts are invalid'')]
     (Inr (dquot (dec_of_int (int (tail_count (nat w) (nat n)))) (dec_of_int (2 ^ nat n))))"

section \<open>Decisions\<close>

record family_decision =
  family_trial :: string
  family_comparison :: string
  fold_total :: int
  base_wins :: int
  stressed_wins :: int
  base_p :: decimal
  stressed_p :: decimal
  raw_p :: decimal
  holm_rank :: int
  holm_threshold :: decimal
  hypothesis_rejected :: bool
  compared_passed :: bool
  trial_eligible :: bool
  family_decision_id :: string

definition family_decision_material :: "family_decision \<Rightarrow> (string \<times> pyval) list" where
  "family_decision_material d =
     [(''schema'', PStr ''family-trial-holm-decision/v1''),
      (''trial_id'', PStr (family_trial d)),
      (''comparison_id'', PStr (family_comparison d)),
      (''fold_count'', PInt (fold_total d)),
      (''base_wins'', PInt (base_wins d)),
      (''stressed_wins'', PInt (stressed_wins d)),
      (''base_p_value'', PDecimal (base_p d)),
      (''stressed_p_value'', PDecimal (stressed_p d)),
      (''raw_p_value'', PDecimal (raw_p d)),
      (''holm_rank'', PInt (holm_rank d)),
      (''holm_threshold'', PDecimal (holm_threshold d)),
      (''hypothesis_rejected'', PBool (hypothesis_rejected d)),
      (''comparison_passed'', PBool (compared_passed d)),
      (''eligible'', PBool (trial_eligible d))]"

definition count_guards :: "family_decision \<Rightarrow> (bool \<times> py_exc) list" where
  "count_guards d =
     [fam_sha (family_trial d), fam_sha (family_comparison d), (fold_total d \<le> 0, fam_err ''fold_count must be positive'')]
     @ map (\<lambda>w. (w < 0 \<or> fold_total d < w, fam_err ''is invalid'')) [base_wins d, stressed_wins d]
     @ map (\<lambda>v. (\<not> (0 \<le> v \<and> v \<le> 1), fam_err ''must be between zero and one''))
         [base_p d, stressed_p d, raw_p d, holm_threshold d]
     @ [(\<not> deq (raw_p d) (py_max (base_p d) (stressed_p d)), fam_err ''raw p-value must be the conservative scenario maximum'')]"

definition mk_family_decision :: "family_decision \<Rightarrow> family_decision res" where
  \<comment> \<open>the counts have been checked before the second tail is computed, so it raises nothing\<close>
  "mk_family_decision d = guards (count_guards d)
     (bindE (exact_sign_tail (base_wins d) (fold_total d)) (\<lambda>b. bindE (exact_sign_tail (stressed_wins d) (fold_total d)) (\<lambda>s.
      guards
        [(\<not> deq (base_p d) b \<or> \<not> deq (stressed_p d) s, fam_err ''p-values differ from exact fold-sign evidence''),
         (holm_rank d \<le> 0, fam_err ''holm_rank must be positive''),
         (trial_eligible d \<noteq> (hypothesis_rejected d \<and> compared_passed d),
            fam_err ''eligible status differs from statistical and trade gates'')]
        (Inr (d\<lparr>family_decision_id := fields_id (family_decision_material d)\<rparr>)))))"

definition family_decision_broken :: "family_decision \<Rightarrow> bool \<times> py_exc" where
  "family_decision_broken d = (family_decision_id d \<noteq> fields_id (family_decision_material d),
     fam_err ''family trial decision identity failed'')"

section \<open>Aggregates\<close>

record family_result =
  agg_family :: string
  agg_policy :: string
  agg_alpha :: decimal
  agg_registered :: "string list"
  agg_decisions :: "family_decision list"
  agg_eligible :: "string list"
  agg_passed :: bool
  agg_id :: string

definition family_decision_val :: "family_decision \<Rightarrow> pyval" where
  "family_decision_val d = PDataclass ''india_swing.evaluation.family_aggregation.FamilyTrialDecision''
     (tl (family_decision_material d) @ [(''decision_id'', PStr (family_decision_id d))])"

definition aggregate_material :: "family_result \<Rightarrow> (string \<times> pyval) list" where
  "aggregate_material a =
     [(''schema'', PStr ''trial-family-evaluation-aggregate/v1''),
      (''strategy_family_id'', PStr (agg_family a)),
      (''policy'', PStr (agg_policy a)),
      (''alpha'', PDecimal (agg_alpha a)),
      (''registered_trial_ids'', PTuple (map PStr (agg_registered a))),
      (''decisions'', PTuple (map family_decision_val (agg_decisions a))),
      (''eligible_trial_ids'', PTuple (map PStr (agg_eligible a))),
      (''passed'', PBool (agg_passed a))]"

definition step_threshold :: "decimal \<Rightarrow> nat \<Rightarrow> nat \<Rightarrow> decimal" where
  "step_threshold alpha m rank = dquot alpha (dec_of_int (int m - int rank + 1))"

definition check_step :: "decimal \<Rightarrow> nat \<Rightarrow> bool \<Rightarrow> nat \<times> family_decision \<Rightarrow> bool res" where
  \<comment> \<open>one pass of the step-down loop, with \<open>continue_rejecting\<close>\<close>
  "check_step alpha m go = (\<lambda>(rank, d). let threshold = step_threshold alpha m rank; rejected = go \<and> raw_p d \<le> threshold in
     guards [(\<not> deq (holm_threshold d) threshold \<or> hypothesis_rejected d \<noteq> rejected,
         fam_err ''Holm decision differs from step-down policy'')]
       (Inr (if rejected then go else False)))"

definition holm_order :: "family_decision \<Rightarrow> rat \<times> string" where
  "holm_order d = (dval (raw_p d), family_trial d)"

definition aggregate_guards :: "family_result \<Rightarrow> (bool \<times> py_exc) list" where
  "aggregate_guards a =
     [(blank (agg_family a), fam_err ''strategy_family_id is required''),
      (agg_policy a \<noteq> holm_policy \<or> \<not> deq (agg_alpha a) holm_alpha, fam_err ''unsupported familywise policy or alpha''),
      (agg_registered a = [] \<or> \<not> sorted_unique (agg_registered a), fam_err ''registered trial IDs must be sorted and unique'')]
     @ map fam_sha (agg_registered a)
     @ [(agg_decisions a = [] \<or> agg_decisions a \<noteq> sort_key (\<lambda>d. (holm_rank d, family_trial d)) (agg_decisions a),
           fam_err ''family decisions must be ordered by Holm rank''),
        (set (map family_trial (agg_decisions a)) \<noteq> set (agg_registered a),
           fam_err ''family decisions must cover every registered trial'')]
     @ concat (map (\<lambda>(rank, d). [family_decision_broken d,
         (holm_rank d \<noteq> int rank, fam_err ''Holm ranks must be consecutive'')]) (enumerate 1 (agg_decisions a)))
     @ [(agg_decisions a \<noteq> sort_key holm_order (agg_decisions a), fam_err ''Holm decisions are not p-value ordered'')]"

definition mk_aggregate :: "family_result \<Rightarrow> family_result res" where
  "mk_aggregate a0 = guards (aggregate_guards a0)
     (bindE (foldE (check_step (agg_alpha a0) (length (agg_decisions a0))) True (enumerate 1 (agg_decisions a0))) (\<lambda>_.
      let won = sort (map family_trial (filter trial_eligible (agg_decisions a0)));
          a = a0\<lparr>agg_eligible := won, agg_passed := won \<noteq> []\<rparr> in
      Inr (a\<lparr>agg_id := fields_id (aggregate_material a)\<rparr>)))"

definition aggregate_broken :: "family_result \<Rightarrow> bool \<times> py_exc" where
  "aggregate_broken a = (agg_id a \<noteq> fields_id (aggregate_material a), fam_err ''family aggregate content identity failed'')"

section \<open>The aggregator\<close>

record tested_run =
  tested_p :: decimal
  tested_trial :: string
  tested_of :: comparison_run
  tested_base :: int
  tested_stressed :: int
  tested_base_p :: decimal
  tested_stressed_p :: decimal

definition fold_wins :: "string \<Rightarrow> comparison_run \<Rightarrow> int" where
  \<comment> \<open>a summary always has the base excess, and the stressed one has been checked\<close>
  "fold_wins name q = int (length (filter (\<lambda>s. 0 < table_value (sum_comparison s) name) (run_folds q)))"

definition test_run :: "registry \<Rightarrow> (comparison_run \<Rightarrow> unit res) \<Rightarrow> string \<Rightarrow> comparison_run \<Rightarrow> tested_run res" where
  \<comment> \<open>the body of the loop over the runs\<close>
  "test_run rs persisted fid q = bindE (bindE (verify_run q) (\<lambda>_. persisted q)) (\<lambda>_.
     bindE (registry_get rs (cmp_trial (run_comparison q))) (\<lambda>r. guards
       [(strategy_family_id r \<noteq> fid \<or> primary_metric r \<noteq> cmp_metric (run_comparison q),
           fam_err ''run differs from its family registration''),
        (list_ex (\<lambda>s. map_of (sum_comparison s) ''stressed_primary_excess'' = None) (run_folds q),
           fam_err ''Holm fold-sign policy requires stressed folds'')]
       (let n = int (length (run_folds q)); b = fold_wins ''base_primary_excess'' q;
            s = fold_wins ''stressed_primary_excess'' q in
        bindE (exact_sign_tail b n) (\<lambda>bp. bindE (exact_sign_tail s n) (\<lambda>sp.
        Inr \<lparr>tested_p = py_max bp sp, tested_trial = trial_id r, tested_of = q, tested_base = b, tested_stressed = s,
          tested_base_p = bp, tested_stressed_p = sp\<rparr>)))))"

definition decide_trial :: "nat \<Rightarrow> bool \<times> family_decision list \<Rightarrow> nat \<times> tested_run \<Rightarrow> (bool \<times> family_decision list) res" where
  \<comment> \<open>one pass of the loop over the ranked runs\<close>
  "decide_trial m = (\<lambda>(go, ds) (rank, t). let threshold = step_threshold holm_alpha m rank; rejected = go \<and> tested_p t \<le> threshold;
       c = run_comparison (tested_of t) in
     bindE (mk_family_decision
       \<lparr>family_trial = tested_trial t, family_comparison = cmp_id c, fold_total = int (length (run_folds (tested_of t))),
        base_wins = tested_base t, stressed_wins = tested_stressed t, base_p = tested_base_p t,
        stressed_p = tested_stressed_p t, raw_p = tested_p t, holm_rank = int rank, holm_threshold = threshold,
        hypothesis_rejected = rejected, compared_passed = cmp_passed c, trial_eligible = rejected \<and> cmp_passed c,
        family_decision_id = []\<rparr>) (\<lambda>d. Inr (if rejected then go else False, ds @ [d])))"

definition family_aggregate_of :: "string \<Rightarrow> trial_registration list \<Rightarrow> tested_run list \<Rightarrow> family_result res" where
  \<comment> \<open>from the sort of the tested runs on\<close>
  "family_aggregate_of fid regs raw0 = (let raw = sort_key (\<lambda>t. (dval (tested_p t), tested_trial t)) raw0 in
     bindE (foldE (decide_trial (length raw)) (True, []) (enumerate 1 raw)) (\<lambda>(_, ds). mk_aggregate
       \<lparr>agg_family = fid, agg_policy = holm_policy, agg_alpha = holm_alpha, agg_registered = sort (remdups (map trial_id regs)),
        agg_decisions = ds, agg_eligible = [], agg_passed = False, agg_id = []\<rparr>))"

definition aggregate_runs :: "registry \<Rightarrow> (comparison_run \<Rightarrow> unit res) \<Rightarrow> string \<Rightarrow> comparison_run list \<Rightarrow> family_result res" where
  "aggregate_runs rs persisted fid runs = bindE (registrations_for_family rs fid) (\<lambda>regs.
     let ids = map (\<lambda>q. cmp_trial (run_comparison q)) runs in guards
     [(regs = [], fam_err ''trial family is not registered''),
      (list_ex (\<lambda>r. multiple_testing_policy r \<noteq> holm_policy) regs,
         fam_err ''every family registration must preregister the supported Holm fold-sign policy''),
      (\<not> distinct ids \<or> set ids \<noteq> set (map trial_id regs), fam_err ''runs must cover every registered family trial exactly once'')]
     (bindE (mapE (test_run rs persisted fid) runs) (family_aggregate_of fid regs)))"

section \<open>The tail of the sign test\<close>

lemma tail_count_le: "tail_count w n \<le> 2 ^ n"
proof -
  have "tail_count w n = (\<Sum>k \<in> {w..<n + 1}. n choose k)"
    unfolding tail_count_def by (simp only: interv_sum_list_conv_sum_set_nat set_upt)
  also have "\<dots> \<le> (\<Sum>k \<in> {..n}. n choose k)" by (rule sum_mono2) auto
  also have "\<dots> = 2 ^ n" by (rule choose_row_sum)
  finally show ?thesis .
qed

lemma sign_tail_Inr:
  assumes "exact_sign_tail w n = Inr p"
  shows "0 < n" "0 \<le> w" "w \<le> n" "0 \<le> dval p" "dval p \<le> 1"
proof -
  have p: "p = dquot (dec_of_int (int (tail_count (nat w) (nat n)))) (dec_of_int (2 ^ nat n))"
    and "0 < n" "0 \<le> w" "w \<le> n"
    using assms by (auto simp: exact_sign_tail_def guards_Inr_iff)
  then show "0 < n" "0 \<le> w" "w \<le> n" by simp_all
  have b: "dval (dec_of_int (2 ^ nat n)) = 2 ^ nat n" by simp
  then have nz: "\<not> dzero (dec_of_int (2 ^ nat n))" using dval_zero_iff [of "dec_of_int (2 ^ nat n)"] by auto
  show "0 \<le> dval p" unfolding p by (rule dquot_nonneg [OF nz]) simp_all
  have "(of_nat (tail_count (nat w) (nat n)) :: rat) \<le> of_nat (2 ^ nat n)"
    using tail_count_le by (simp only: of_nat_le_iff)
  then have "dval (dec_of_int (int (tail_count (nat w) (nat n)))) / dval (dec_of_int (2 ^ nat n)) \<le> dval 1" by simp
  then have "dval p \<le> dval 1" unfolding p by (intro dquot_le [OF nz]) (simp_all add: repr_def prec_def one_decimal_def)
  then show "dval p \<le> 1" by simp
qed

definition positive_patterns :: "nat \<Rightarrow> nat \<Rightarrow> nat set set" where
  \<comment> \<open>the ways in which at least \<open>w\<close> of \<open>n\<close> folds are positive\<close>
  "positive_patterns w n = {A. A \<subseteq> {..<n} \<and> w \<le> card A}"

lemma tail_count_patterns: "tail_count w n = card (positive_patterns w n)"
proof -
  have fin: "finite {A. A \<subseteq> {..<n} \<and> card A = k}" for k by (rule finite_subset [of _ "Pow {..<n}"]) auto
  have "positive_patterns w n = (\<Union>k \<in> {w..<n + 1}. {A. A \<subseteq> {..<n} \<and> card A = k})"
  proof (rule set_eqI)
    fix A
    have "A \<subseteq> {..<n} \<Longrightarrow> card A \<le> n" using card_mono [of "{..<n}" A] by simp
    then show "A \<in> positive_patterns w n \<longleftrightarrow> A \<in> (\<Union>k \<in> {w..<n + 1}. {A. A \<subseteq> {..<n} \<and> card A = k})"
      by (simp add: positive_patterns_def) (metis less_Suc_eq_le)
  qed
  also have "card \<dots> = (\<Sum>k \<in> {w..<n + 1}. card {A. A \<subseteq> {..<n} \<and> card A = k})"
    by (rule card_UN_disjoint) (use fin in auto)
  also have "\<dots> = (\<Sum>k \<in> {w..<n + 1}. n choose k)" by (simp add: n_subsets)
  finally show ?thesis unfolding tail_count_def by (simp only: interv_sum_list_conv_sum_set_nat set_upt)
qed

definition above_level :: decimal where
  \<comment> \<open>the next representable number above a twentieth\<close>
  "above_level = Dec False 5000000000000000000000000001 (-29)"

lemma above_level: "repr above_level" "dval above_level = 1 / 20 + 1 / 10 ^ 29"
  by (simp_all add: above_level_def repr_def prec_def dval_Dec power_int_minus)

lemma level_exact:
  assumes "n \<le> 90"
  shows "dquot (dec_of_int (int k)) (dec_of_int (2 ^ n)) \<le> holm_alpha \<longleftrightarrow> 20 * k \<le> 2 ^ n"
proof -
  let ?b = "dec_of_int (2 ^ n)"
  let ?p = "dquot (dec_of_int (int k)) ?b"
  have b: "dval ?b = 2 ^ n" by simp
  then have nz: "\<not> dzero ?b" using dval_zero_iff [of ?b] by auto
  have "dval ?p \<le> 1 / 20" if "20 * k \<le> 2 ^ n"
  proof -
    have "of_nat (20 * k) \<le> (of_nat (2 ^ n) :: rat)" using that by (simp only: of_nat_le_iff)
    then have "dval (dec_of_int (int k)) / dval ?b \<le> dval holm_alpha"
      by (simp add: holm_alpha_def dval_Dec power_int_minus divide_le_eq)
    then show ?thesis using dquot_le [OF nz, of holm_alpha] by (simp add: repr_def prec_def holm_alpha_def dval_Dec power_int_minus)
  qed
  moreover have "1 / 20 < dval ?p" if "\<not> 20 * k \<le> 2 ^ n"
  proof -
    have "2 ^ n + 1 \<le> 20 * k" using that by simp
    then have "of_nat (2 ^ n + 1) \<le> (of_nat (20 * k) :: rat)" by (simp only: of_nat_le_iff)
    then have "(2 ^ n + 1) / (20 * 2 ^ n) \<le> (20 * of_nat k :: rat) / (20 * 2 ^ n)" by (intro divide_right_mono) simp_all
    then have step: "1 / 20 + 1 / (20 * 2 ^ n) \<le> (of_nat k :: rat) / 2 ^ n" by (simp add: add_divide_distrib)
    have "(2 :: rat) ^ n \<le> 2 ^ 90" using assms by (intro power_increasing) simp_all
    then have "(1 :: rat) / 10 ^ 29 \<le> 1 / (20 * 2 ^ n)" by (intro divide_left_mono) simp_all
    then have "dval above_level \<le> of_nat k / 2 ^ n"
      unfolding above_level(2) by (rule order_trans [OF add_left_mono step])
    then have "dval above_level \<le> dval (dec_of_int (int k)) / dval ?b" by simp
    from dquot_ge [OF nz above_level(1) this] show ?thesis by (simp add: above_level(2))
  qed
  ultimately have "dval ?p \<le> 1 / 20 \<longleftrightarrow> 20 * k \<le> 2 ^ n" by (meson not_le)
  moreover have "dval holm_alpha = 1 / 20" by (simp add: holm_alpha_def dval_Dec power_int_minus)
  ultimately show ?thesis unfolding le_iff_dval by metis
qed

lemma sign_tail_level:
  "exact_sign_tail (int w) (int n) = Inr p \<Longrightarrow> n \<le> 90 \<Longrightarrow> p \<le> holm_alpha \<longleftrightarrow> 20 * card (positive_patterns w n) \<le> 2 ^ n"
  using level_exact [of n "card (positive_patterns w n)"] by (auto simp: exact_sign_tail_def tail_count_patterns guards_Inr_iff)

text \<open>C12: The sign test decides exactly: on up to ninety folds, the rounded p-value is at most the level of a twentieth
precisely when at most one in twenty of the sign patterns of the folds has as many positive ones.\<close>

theorem sign_test_exact:
  assumes "0 < n" and "n \<le> 90" and "w \<le> n"
  shows "\<exists>p. exact_sign_tail (int w) (int n) = Inr p \<and> (p \<le> holm_alpha \<longleftrightarrow> 20 * card (positive_patterns w n) \<le> 2 ^ n)"
proof -
  obtain p where "exact_sign_tail (int w) (int n) = Inr p" using assms by (simp add: exact_sign_tail_def guards.simps)
  then show ?thesis using sign_tail_level assms(2) by blast
qed

theorem sign_test_exact_witness:
  "\<exists>p q. exact_sign_tail 7 8 = Inr p \<and> p \<le> holm_alpha \<and> exact_sign_tail 6 8 = Inr q \<and> \<not> q \<le> holm_alpha"
proof -
  have "card (positive_patterns 7 8) = 9" "card (positive_patterns 6 8) = 37"
    unfolding tail_count_patterns [symmetric] by code_simp+
  then show ?thesis using sign_test_exact [of 8 7] sign_test_exact [of 8 6] by auto
qed

section \<open>Step-down\<close>

lemma check_step_Inr:
  "check_step alpha m go (rank, d) = Inr g \<longleftrightarrow> deq (holm_threshold d) (step_threshold alpha m rank)
     \<and> (hypothesis_rejected d \<longleftrightarrow> go \<and> raw_p d \<le> step_threshold alpha m rank) \<and> (g \<longleftrightarrow> go \<and> raw_p d \<le> step_threshold alpha m rank)"
  by (auto simp: check_step_def guards_Inr_iff Let_def)

lemma checked_steps:
  assumes "foldE (check_step alpha m) go (enumerate k ds) = Inr g" and "j < length ds"
  shows "hypothesis_rejected (ds ! j) \<longleftrightarrow> go \<and> (\<forall>i \<le> j. raw_p (ds ! i) \<le> step_threshold alpha m (k + i))"
  using assms
proof (induction ds arbitrary: go k j)
  case (Cons d ds)
  let ?go = "go \<and> raw_p d \<le> step_threshold alpha m k"
  have d: "hypothesis_rejected d \<longleftrightarrow> ?go" and rest: "foldE (check_step alpha m) ?go (enumerate (Suc k) ds) = Inr g"
    using Cons.prems(1) by (auto simp: check_step_Inr res_simps)
  show ?case
  proof (cases j)
    case 0
    then show ?thesis using d by simp
  next
    case (Suc i)
    have all: "(\<forall>l \<le> Suc i. P l) \<longleftrightarrow> P 0 \<and> (\<forall>l \<le> i. P (Suc l))" for P by (metis Suc_le_mono not0_implies_Suc zero_le)
    show ?thesis using Cons.IH [OF rest, of i] Cons.prems(2) unfolding Suc all by auto
  qed
qed simp

lemma mk_aggregate_Inr:
  assumes "mk_aggregate a0 = Inr a"
  shows "agg_decisions a = agg_decisions a0" "agg_alpha a = agg_alpha a0" "dval (agg_alpha a) = 1 / 20"
    "\<exists>g. foldE (check_step (agg_alpha a) (length (agg_decisions a))) True (enumerate 1 (agg_decisions a)) = Inr g"
    "agg_eligible a = sort (map family_trial (filter trial_eligible (agg_decisions a)))" "agg_passed a \<longleftrightarrow> agg_eligible a \<noteq> []"
    "sorted (map holm_order (agg_decisions a))" "set (map family_trial (agg_decisions a)) = set (agg_registered a)"
    "\<not> fst (aggregate_broken a)"
proof -
  have s: "agg_decisions a0 = sort_key holm_order (agg_decisions a0)" and al: "dval (agg_alpha a0) = 1 / 20"
    using assms by (auto simp: mk_aggregate_def guards_Inr_iff aggregate_guards_def deq_iff_dval holm_alpha_def dval_Dec power_int_minus)
  show "agg_decisions a = agg_decisions a0" "agg_alpha a = agg_alpha a0" "dval (agg_alpha a) = 1 / 20"
    "\<exists>g. foldE (check_step (agg_alpha a) (length (agg_decisions a))) True (enumerate 1 (agg_decisions a)) = Inr g"
    "agg_eligible a = sort (map family_trial (filter trial_eligible (agg_decisions a)))" "agg_passed a \<longleftrightarrow> agg_eligible a \<noteq> []"
    "set (map family_trial (agg_decisions a)) = set (agg_registered a)" "\<not> fst (aggregate_broken a)"
    using assms al by (auto simp: mk_aggregate_def guards_Inr_iff aggregate_guards_def res_simps Let_def aggregate_broken_def
        aggregate_material_def)
  then show "sorted (map holm_order (agg_decisions a))" using s by (metis sorted_sort_key)
qed

text \<open>C8: Holm's step-down, decision by decision: in an accepted aggregate of checked decisions, ordered by p-value, the
hypothesis at each rank is rejected exactly when its own p-value and every smaller one is within the threshold of its
rank, alpha over the number of hypotheses not yet passed; eligible are exactly the trials whose hypothesis is rejected
and whose comparison passed; and the family passes exactly when there is one.\<close>

theorem holm_step_down:
  assumes "mk_aggregate a0 = Inr a" and "\<forall>d \<in> set (agg_decisions a0). \<exists>d0. mk_family_decision d0 = Inr d"
  defines "ds \<equiv> agg_decisions a"
  shows "sorted (map (\<lambda>d. (dval (raw_p d), family_trial d)) ds)
    \<and> (\<forall>j < length ds. hypothesis_rejected (ds ! j) \<longleftrightarrow>
         (\<forall>i \<le> j. raw_p (ds ! i) \<le> dquot (agg_alpha a) (dec_of_int (int (length ds) - int i))))
    \<and> agg_eligible a = sort (map family_trial (filter (\<lambda>d. hypothesis_rejected d \<and> compared_passed d) ds))
    \<and> (agg_passed a \<longleftrightarrow> (\<exists>d \<in> set ds. hypothesis_rejected d \<and> compared_passed d))"
proof -
  note a = mk_aggregate_Inr [OF assms(1), folded ds_def]
  obtain g where "foldE (check_step (agg_alpha a) (length ds)) True (enumerate 1 ds) = Inr g" using a(4) by blast
  from checked_steps [OF this] have steps: "hypothesis_rejected (ds ! j) \<longleftrightarrow>
      (\<forall>i \<le> j. raw_p (ds ! i) \<le> dquot (agg_alpha a) (dec_of_int (int (length ds) - int i)))" if "j < length ds" for j
    using that by (simp add: step_threshold_def)
  have "trial_eligible d \<longleftrightarrow> hypothesis_rejected d \<and> compared_passed d" if "d \<in> set ds" for d
    using assms(2) that a(1) by (auto simp: mk_family_decision_def guards_Inr_iff res_simps)
  then have won: "filter trial_eligible ds = filter (\<lambda>d. hypothesis_rejected d \<and> compared_passed d) ds" by (intro filter_cong refl)
  have "(\<lambda>d. (dval (raw_p d), family_trial d)) = holm_order" by (simp add: holm_order_def fun_eq_iff)
  moreover have "agg_passed a \<longleftrightarrow> filter trial_eligible ds \<noteq> []"
    unfolding a(5,6) by (metis length_0_conv length_map length_sort)
  then have "agg_passed a \<longleftrightarrow> (\<exists>d \<in> set ds. hypothesis_rejected d \<and> compared_passed d)" by (auto simp: won filter_empty_conv)
  ultimately show ?thesis using a(5,7) steps by (simp add: won)
qed

text \<open>C10: The deterministic core of Holm's familywise error bound: take any set of trials of an accepted aggregate, such
as the trials without an edge.  If the procedure rejects one of them, then one of them has a p-value of at most alpha
over the size of the set (up to the rounding of the threshold, one part in \<open>10 ^ 27\<close>): a false rejection needs an event
that Bonferroni's bound already limits to probability alpha.\<close>

theorem holm_family_error:
  assumes "mk_aggregate a0 = Inr a" and "T \<subseteq> set (agg_decisions a)" and "d \<in> T" and "hypothesis_rejected d"
  shows "\<exists>e \<in> T. dval (raw_p e) * (1 - 1 / 10 ^ 27) \<le> 1 / 20 / of_nat (card T)"
proof -
  let ?ds = "agg_decisions a" and ?m = "length (agg_decisions a)"
  note a = mk_aggregate_Inr [OF assms(1)]
  obtain g where g: "foldE (check_step (agg_alpha a) ?m) True (enumerate 1 ?ds) = Inr g" using a(4) by blast
  obtain n where n: "n < ?m" "?ds ! n = d" using assms(2,3) by (meson in_mono in_set_conv_nth)
  define j where "j = (LEAST j. j < ?m \<and> ?ds ! j \<in> T)"
  have j: "j < ?m" "?ds ! j \<in> T" "j \<le> n"
    using LeastI [of "\<lambda>j. j < ?m \<and> ?ds ! j \<in> T" n] Least_le [of "\<lambda>j. j < ?m \<and> ?ds ! j \<in> T" n] n assms(3) by (auto simp: j_def)
  have "T \<subseteq> set (drop j ?ds)"
  proof
    fix e assume e: "e \<in> T"
    then obtain i where i: "i < ?m" "?ds ! i = e" using assms(2) by (meson in_mono in_set_conv_nth)
    then have "j \<le> i" unfolding j_def using e by (intro Least_le) simp
    then have "drop j ?ds ! (i - j) = e" "i - j < length (drop j ?ds)" using i by simp_all
    then show "e \<in> set (drop j ?ds)" by (metis nth_mem)
  qed
  then have card: "card T \<le> ?m - j" by (metis card_length card_mono finite_set length_drop order_trans)
  have pos: "0 < card T" using assms(2,3) by (metis List.finite_set card_gt_0_iff empty_iff finite_subset)
  let ?q = "step_threshold (agg_alpha a) ?m (1 + j)"
  have k: "dval (dec_of_int (int ?m - int (1 + j) + 1)) = of_nat (?m - j)" using j(1) by (simp add: of_nat_diff)
  have p: "raw_p (?ds ! j) \<le> ?q" using checked_steps [OF g n(1)] assms(4) n(2) j(3) by simp
  have kp: "0 < dval (dec_of_int (int ?m - int (1 + j) + 1))" unfolding k using j(1) by simp
  have "0 < dval ?q" unfolding step_threshold_def
    by (rule dquot_pos [OF _ kp]) (use kp a(3) in \<open>auto simp flip: dval_zero_iff\<close>)
  then have "dval ?q * (1 - 1 / 10 ^ 27) \<le> 1 / 20 / of_nat (?m - j)"
    using dquot_upper [OF kp, of "agg_alpha a"] unfolding k a(3) step_threshold_def by blast
  also have "\<dots> \<le> 1 / 20 / of_nat (card T)" using card pos by (intro divide_left_mono) simp_all
  finally have "dval ?q * (1 - 1 / 10 ^ 27) \<le> 1 / 20 / of_nat (card T)" .
  moreover have "dval (raw_p (?ds ! j)) * (1 - 1 / 10 ^ 27) \<le> dval ?q * (1 - 1 / 10 ^ 27)"
    by (rule mult_right_mono) (use p in \<open>simp_all add: le_iff_dval\<close>)
  ultimately show ?thesis using j(2) by (meson order_trans)
qed

section \<open>Aggregation\<close>

definition tested_ok :: "tested_run \<Rightarrow> bool" where
  "tested_ok t = (let q = tested_of t; n = int (length (run_folds q)) in
     tested_trial t = cmp_trial (run_comparison q) \<and> sha_text (tested_trial t) \<and> sha_text (cmp_id (run_comparison q))
     \<and> tested_p t = py_max (tested_base_p t) (tested_stressed_p t)
     \<and> tested_base t = fold_wins ''base_primary_excess'' q \<and> tested_stressed t = fold_wins ''stressed_primary_excess'' q
     \<and> exact_sign_tail (tested_base t) n = Inr (tested_base_p t) \<and> exact_sign_tail (tested_stressed t) n = Inr (tested_stressed_p t))"

lemma test_run_ok:
  assumes "test_run rs persisted fid q = Inr t"
  shows "tested_of t = q" "tested_ok t"
proof -
  obtain r where v: "verify_run q = Inr ()" and r: "registry_get rs (cmp_trial (run_comparison q)) = Inr r" "tested_trial t = trial_id r"
    and t: "tested_of t = q" "tested_p t = py_max (tested_base_p t) (tested_stressed_p t)"
      "tested_base t = fold_wins ''base_primary_excess'' q" "tested_stressed t = fold_wins ''stressed_primary_excess'' q"
      "exact_sign_tail (tested_base t) (int (length (run_folds q))) = Inr (tested_base_p t)"
      "exact_sign_tail (tested_stressed t) (int (length (run_folds q))) = Inr (tested_stressed_p t)"
    using assms by (auto simp: test_run_def res_simps guards_Inr_iff Let_def)
  have "trial_id r = cmp_trial (run_comparison q)" "sha_text (cmp_trial (run_comparison q))"
    using r(1) find_member by (fastforce simp: registry_get_def guards_Inr_iff path_guard_def split: option.splits)+
  moreover have "sha_text (cmp_id (run_comparison q))"
    using v by (auto simp: verify_run_def guards_Inr_iff comparison_broken_def)
  ultimately show "tested_of t = q" "tested_ok t" using t r(2) by (simp_all add: tested_ok_def Let_def)
qed

lemma threshold_unit:
  assumes "0 < rank" and "rank \<le> m"
  shows "0 \<le> step_threshold holm_alpha m rank" "step_threshold holm_alpha m rank \<le> 1"
proof -
  let ?b = "dec_of_int (int m - int rank + 1)"
  have b: "1 \<le> dval ?b" using assms by (simp flip: of_int_1_le_iff)
  then have nz: "\<not> dzero ?b" using dval_zero_iff [of ?b] by auto
  have al: "dval holm_alpha = 1 / 20" by (simp add: holm_alpha_def dval_Dec power_int_minus)
  show "0 \<le> step_threshold holm_alpha m rank"
    using dquot_nonneg [OF nz, of holm_alpha] al b by (simp add: step_threshold_def le_iff_dval)
  have "dval holm_alpha / dval ?b \<le> dval 1" using b al by (simp add: divide_le_eq del: dval_of_int)
  then show "step_threshold holm_alpha m rank \<le> 1"
    unfolding step_threshold_def le_iff_dval by (intro dquot_le [OF nz]) (simp_all add: repr_def prec_def one_decimal_def)
qed

definition made :: "nat \<Rightarrow> bool \<Rightarrow> nat \<Rightarrow> tested_run \<Rightarrow> family_decision" where
  \<comment> \<open>the decision on a tested run at its rank\<close>
  "made m go rank t = (let threshold = step_threshold holm_alpha m rank; rejected = go \<and> tested_p t \<le> threshold;
       c = run_comparison (tested_of t);
       d = \<lparr>family_trial = tested_trial t, family_comparison = cmp_id c, fold_total = int (length (run_folds (tested_of t))),
        base_wins = tested_base t, stressed_wins = tested_stressed t, base_p = tested_base_p t,
        stressed_p = tested_stressed_p t, raw_p = tested_p t, holm_rank = int rank, holm_threshold = threshold,
        hypothesis_rejected = rejected, compared_passed = cmp_passed c, trial_eligible = rejected \<and> cmp_passed c,
        family_decision_id = []\<rparr> in d\<lparr>family_decision_id := fields_id (family_decision_material d)\<rparr>)"

lemma made_fields:
  "family_trial (made m go rank t) = tested_trial t" "raw_p (made m go rank t) = tested_p t" "holm_rank (made m go rank t) = int rank"
  "holm_threshold (made m go rank t) = step_threshold holm_alpha m rank"
  "hypothesis_rejected (made m go rank t) \<longleftrightarrow> go \<and> tested_p t \<le> step_threshold holm_alpha m rank"
  "\<not> fst (family_decision_broken (made m go rank t))" "base_wins (made m go rank t) = tested_base t"
  "stressed_wins (made m go rank t) = tested_stressed t" "compared_passed (made m go rank t) = cmp_passed (run_comparison (tested_of t))"
  "family_comparison (made m go rank t) = cmp_id (run_comparison (tested_of t))"
  "fold_total (made m go rank t) = int (length (run_folds (tested_of t)))"
  "trial_eligible (made m go rank t) \<longleftrightarrow> hypothesis_rejected (made m go rank t) \<and> compared_passed (made m go rank t)"
  by (simp_all add: made_def Let_def family_decision_broken_def family_decision_material_def)

lemma decide_trial_made:
  assumes "tested_ok t" and "0 < rank" "rank \<le> m"
  shows "decide_trial m (go, ds) (rank, t)
    = Inr (go \<and> tested_p t \<le> step_threshold holm_alpha m rank, ds @ [made m go rank t])"
proof -
  note th = threshold_unit [OF assms(2,3)]
  have e: "exact_sign_tail (tested_base t) (int (length (run_folds (tested_of t)))) = Inr (tested_base_p t)"
    "exact_sign_tail (tested_stressed t) (int (length (run_folds (tested_of t)))) = Inr (tested_stressed_p t)"
    and s: "sha_text (tested_trial t)" "sha_text (cmp_id (run_comparison (tested_of t)))"
      "tested_p t = py_max (tested_base_p t) (tested_stressed_p t)"
    using assms(1) unfolding tested_ok_def Let_def by blast+
  note b = sign_tail_Inr [OF e(1)] and z = sign_tail_Inr [OF e(2)]
  have p: "0 \<le> tested_base_p t \<and> tested_base_p t \<le> 1" "0 \<le> tested_stressed_p t \<and> tested_stressed_p t \<le> 1"
    "0 \<le> tested_p t \<and> tested_p t \<le> 1" using b(4,5) z(4,5) by (simp_all add: s(3) le_iff_dval dval_py_max)
  show ?thesis
    using s(1,2) th p b(1-3) z(1-3) assms(2) e
    by (simp add: decide_trial_def mk_family_decision_def guards_Inr_iff count_guards_def fam_sha_def Let_def
        made_def deq_iff_dval res_simps s(3) [symmetric])
qed

lemma decide_all:
  assumes "\<forall>t \<in> set raw. tested_ok t" and "0 < k" and "k + length raw \<le> m + 1"
  shows "\<exists>g ds. foldE (decide_trial m) (go, ds0) (enumerate k raw) = Inr (g, ds0 @ ds)
    \<and> foldE (check_step holm_alpha m) go (enumerate k ds) = Inr g
    \<and> list_all2 (\<lambda>(rank, t) d. \<exists>go. d = made m go rank t) (enumerate k raw) ds"
  using assms
proof (induction raw arbitrary: k go ds0)
  case (Cons t raw)
  let ?go = "go \<and> tested_p t \<le> step_threshold holm_alpha m k"
  have k: "0 < k" "k \<le> m" using Cons.prems by simp_all
  note one = decide_trial_made [of t k m go ds0, OF _ k]
  obtain g ds where rest: "foldE (decide_trial m) (?go, ds0 @ [made m go k t]) (enumerate (Suc k) raw) = Inr (g, (ds0 @ [made m go k t]) @ ds)"
    "foldE (check_step holm_alpha m) ?go (enumerate (Suc k) ds) = Inr g"
    "list_all2 (\<lambda>(rank, t) d. \<exists>go. d = made m go rank t) (enumerate (Suc k) raw) ds"
    using Cons.IH [of "Suc k" ?go "ds0 @ [made m go k t]"] Cons.prems by fastforce
  have "check_step holm_alpha m go (k, made m go k t) = Inr ?go"
    by (auto simp: check_step_def Let_def made_fields deq_iff_dval guards.simps)
  then show ?case using rest one Cons.prems(1)
    by (intro exI [of _ g] exI [of _ "made m go k t # ds"]) auto
qed simp

lemma made_lists:
  assumes "list_all2 (\<lambda>(rank, t) d. \<exists>go. d = made m go rank t) (enumerate k raw) ds"
  shows "length ds = length raw" "map holm_rank ds = map int [k..<k + length raw]" "map family_trial ds = map tested_trial raw"
    "map raw_p ds = map tested_p raw"
    and "\<forall>(rank, d) \<in> set (enumerate k ds). \<not> fst (family_decision_broken d) \<and> holm_rank d = int rank"
    and "\<forall>d \<in> set ds. \<exists>t \<in> set raw. \<exists>go rank. d = made m go rank t"
proof -
  show len: "length ds = length raw" using list_all2_lengthD [OF assms] by simp
  have at: "\<exists>go. ds ! i = made m go (k + i) (raw ! i)" if "i < length raw" for i
    using list_all2_nthD [OF assms, of i] that by (simp add: nth_enumerate_eq)
  have f: "holm_rank (ds ! i) = int (k + i) \<and> family_trial (ds ! i) = tested_trial (raw ! i) \<and> raw_p (ds ! i) = tested_p (raw ! i)
      \<and> \<not> fst (family_decision_broken (ds ! i))" if "i < length raw" for i
    using at [OF that] made_fields by metis
  show "map holm_rank ds = map int [k..<k + length raw]" "map family_trial ds = map tested_trial raw" "map raw_p ds = map tested_p raw"
    by (rule nth_equalityI, simp add: len, simp add: f len del: of_nat_add)+
  show "\<forall>(rank, d) \<in> set (enumerate k ds). \<not> fst (family_decision_broken d) \<and> holm_rank d = int rank"
    using f by (auto simp: in_set_enumerate_eq len)
  show "\<forall>d \<in> set ds. \<exists>t \<in> set raw. \<exists>go rank. d = made m go rank t"
    using at by (metis in_set_conv_nth len)
qed

lemma rank_ordered:
  assumes "map holm_rank ds = map int [k..<k + length ds]"
  shows "sort_key (\<lambda>d. (holm_rank d, family_trial d)) ds = ds"
proof (rule sort_key_id_if_sorted)
  have "holm_rank (ds ! i) = int (k + i)" if "i < length ds" for i
    using arg_cong [OF assms, of "\<lambda>xs. xs ! i"] that by simp
  then show "sorted (map (\<lambda>d. (holm_rank d, family_trial d)) ds)"
    by (simp add: sorted_iff_nth_mono_less less_eq_prod_simp)
qed

lemma p_ordered:
  assumes "map family_trial ds = map tested_trial raw" "map raw_p ds = map tested_p raw"
    and "sorted (map (\<lambda>t. (dval (tested_p t), tested_trial t)) raw)"
  shows "sort_key holm_order ds = ds"
proof (rule sort_key_id_if_sorted)
  have "map holm_order ds = map (\<lambda>t. (dval (tested_p t), tested_trial t)) raw"
    using assms(1,2) by (simp add: list_eq_iff_nth_eq holm_order_def)
  then show "sorted (map holm_order ds)" using assms(3) by simp
qed

definition decided_on :: "family_decision \<Rightarrow> comparison_run \<Rightarrow> bool" where
  \<comment> \<open>what a decision has to say of the run it is about\<close>
  "decided_on d q = (let n = int (length (run_folds q)) in
     family_trial d = cmp_trial (run_comparison q) \<and> family_comparison d = cmp_id (run_comparison q)
     \<and> compared_passed d = cmp_passed (run_comparison q) \<and> (trial_eligible d \<longleftrightarrow> hypothesis_rejected d \<and> compared_passed d)
     \<and> base_wins d = int (length (filter (\<lambda>s. 0 < table_value (sum_comparison s) ''base_primary_excess'') (run_folds q)))
     \<and> stressed_wins d = int (length (filter (\<lambda>s. 0 < table_value (sum_comparison s) ''stressed_primary_excess'') (run_folds q)))
     \<and> (\<exists>b s. exact_sign_tail (base_wins d) n = Inr b \<and> exact_sign_tail (stressed_wins d) n = Inr s \<and> raw_p d = py_max b s))"

lemma made_on: "tested_ok t \<Longrightarrow> decided_on (made m go rank t) (tested_of t)"
  by (auto simp: decided_on_def made_fields tested_ok_def fold_wins_def Let_def)

lemma tested_runs:
  assumes "mapE (test_run rs persisted fid) runs = Inr tested"
  shows "\<forall>t \<in> set tested. tested_ok t \<and> tested_of t \<in> set runs"
    "map tested_trial tested = map (\<lambda>q. cmp_trial (run_comparison q)) runs"
proof -
  have "list_all2 (\<lambda>q t. q \<in> set runs \<and> test_run rs persisted fid q = Inr t) runs tested"
    using assms unfolding mapE_eq_Inr list_all2_conv_all_nth by simp
  then have all: "list_all2 (\<lambda>q t. tested_of t = q \<and> tested_ok t) runs tested"
    by (rule list_all2_mono) (use test_run_ok in blast)
  show "\<forall>t \<in> set tested. tested_ok t \<and> tested_of t \<in> set runs" using list_all2_member2 [OF all] by metis
  show "map tested_trial tested = map (\<lambda>q. cmp_trial (run_comparison q)) runs"
    using all by (induction rule: list_all2_induct) (simp_all add: tested_ok_def Let_def)
qed

lemma mk_aggregate_returns:
  assumes "\<not> blank (agg_family a0)" "agg_policy a0 = holm_policy" "agg_alpha a0 = holm_alpha" "agg_registered a0 \<noteq> []"
    "sorted_unique (agg_registered a0)" "\<forall>s \<in> set (agg_registered a0). sha_text s"
    and "set (map family_trial (agg_decisions a0)) = set (agg_registered a0)"
    and made: "list_all2 (\<lambda>(rank, t) d. \<exists>go. d = made m go rank t) (enumerate 1 raw) (agg_decisions a0)"
    and "sorted (map (\<lambda>t. (dval (tested_p t), tested_trial t)) raw)"
    and "foldE (check_step holm_alpha (length raw)) True (enumerate 1 (agg_decisions a0)) = Inr g"
  shows "\<exists>a. mk_aggregate a0 = Inr a \<and> agg_decisions a = agg_decisions a0"
proof -
  note m = made_lists [OF made]
  have by_rank: "sort_key (\<lambda>d. (holm_rank d, family_trial d)) (agg_decisions a0) = agg_decisions a0" using rank_ordered m(1,2) by metis
  note by_p = p_ordered [OF m(3,4) assms(9)]
  have "agg_decisions a0 \<noteq> []" using assms(4,7) by auto
  then have "\<forall>g \<in> set (aggregate_guards a0). \<not> fst g"
    using m(5) assms(1-7) by (auto simp: aggregate_guards_def fam_sha_def by_rank by_p deq_refl)
  then show ?thesis using assms(3,10) m(1) by (simp add: mk_aggregate_def guards_Inr_iff Let_def)
qed

lemma family_built:
  assumes "\<not> blank fid" "regs \<noteq> []" "set (map (\<lambda>q. cmp_trial (run_comparison q)) runs) = set (map trial_id regs)"
    and "mapE (test_run rs persisted fid) runs = Inr tested"
  shows "\<exists>a. family_aggregate_of fid regs tested = Inr a
    \<and> mset (map family_trial (agg_decisions a)) = mset (map (\<lambda>q. cmp_trial (run_comparison q)) runs)
    \<and> (\<forall>d \<in> set (agg_decisions a). \<exists>q \<in> set runs. decided_on d q)"
proof -
  note tested = tested_runs [OF assms(4)]
  define raw where "raw = sort_key (\<lambda>t. (dval (tested_p t), tested_trial t)) tested"
  have raw: "\<forall>t \<in> set raw. tested_ok t \<and> tested_of t \<in> set runs" "mset (map tested_trial raw) = mset (map tested_trial tested)"
    using tested(1) by (simp_all add: raw_def)
  obtain g ds where ds: "foldE (decide_trial (length raw)) (True, []) (enumerate 1 raw) = Inr (g, ds)"
    "foldE (check_step holm_alpha (length raw)) True (enumerate 1 ds) = Inr g"
    "list_all2 (\<lambda>(rank, t) d. \<exists>go. d = made (length raw) go rank t) (enumerate 1 raw) ds"
    using decide_all [of raw 1 "length raw" True "[]"] raw(1) by auto
  note m = made_lists [OF ds(3)]
  have ids: "mset (map family_trial ds) = mset (map (\<lambda>q. cmp_trial (run_comparison q)) runs)"
    using raw(2) by (simp only: m(3) tested(2))
  have set_ids: "set (map family_trial ds) = set (map trial_id regs)" using mset_eq_setD [OF ids] assms(3) by simp
  have sha: "\<forall>s \<in> set (map trial_id regs). sha_text s"
    using raw(1) unfolding set_ids [symmetric] m(3) by (auto simp: tested_ok_def Let_def)
  have "sort (remdups (map trial_id regs)) \<noteq> []" using assms(2) by (auto simp flip: set_empty)
  moreover let ?a0 = "\<lparr>agg_family = fid, agg_policy = holm_policy, agg_alpha = holm_alpha,
      agg_registered = sort (remdups (map trial_id regs)), agg_decisions = ds, agg_eligible = [], agg_passed = False, agg_id = []\<rparr>"
  have "sorted (map (\<lambda>t. (dval (tested_p t), tested_trial t)) raw)" by (simp add: raw_def)
  ultimately obtain a where "mk_aggregate ?a0 = Inr a" "agg_decisions a = ds"
    using mk_aggregate_returns [of ?a0 "length raw" raw g] assms(1) ds(2,3) set_ids sha by (auto simp: sorted_unique_iff)
  moreover have "\<exists>q \<in> set runs. decided_on d q" if d: "d \<in> set ds" for d
  proof -
    obtain t go rank where "t \<in> set raw" "d = made (length raw) go rank t" using m(6) d by blast
    then show ?thesis using made_on raw(1) by blast
  qed
  ultimately show ?thesis using ds(1) ids by (simp add: family_aggregate_of_def raw_def)
qed

text \<open>C11: The aggregation of a family never fails in its own constructors: when the runs cover the registered trials of the
family once each, the trials preregistered the policy, and each run passes the store, the registry and the sign test, the
aggregate is built.  It has one decision per run, which counts as wins exactly the folds with a positive excess in the
scenario, carries the larger of the two tail probabilities and the verdict of the comparison.\<close>

theorem aggregate_returns:
  assumes "registrations_for_family rs fid = Inr regs" and "regs \<noteq> []" and "\<forall>r \<in> set regs. multiple_testing_policy r = holm_policy"
    and "distinct (map (\<lambda>q. cmp_trial (run_comparison q)) runs)"
    and "set (map (\<lambda>q. cmp_trial (run_comparison q)) runs) = set (map trial_id regs)"
    and "mapE (test_run rs persisted fid) runs = Inr tested"
  shows "\<exists>a. aggregate_runs rs persisted fid runs = Inr a
    \<and> mset (map family_trial (agg_decisions a)) = mset (map (\<lambda>q. cmp_trial (run_comparison q)) runs)
    \<and> (\<forall>d \<in> set (agg_decisions a). \<exists>q \<in> set runs. decided_on d q)"
proof -
  have "\<not> blank fid" using assms(1) by (simp add: registrations_for_family_def guards_Inr_iff)
  from family_built [OF this assms(2,5,6)] show ?thesis
    using assms by (auto simp: aggregate_runs_def guards_Inr_iff Let_def list_ex_iff guards.simps)
qed

lemma aggregate_runs_Inr:
  assumes "aggregate_runs rs persisted fid runs = Inr a"
  shows "\<forall>d \<in> set (agg_decisions a). \<exists>q \<in> set runs. decided_on d q \<and> persisted q = Inr () \<and> verify_run q = Inr ()"
    "inj_on (\<lambda>q. cmp_trial (run_comparison q)) (set runs)" "\<exists>a0. mk_aggregate a0 = Inr a"
    "agg_family a = fid" "registrations_for_family rs fid = Inr registered \<Longrightarrow> agg_registered a = sort (remdups (map trial_id registered))"
proof -
  obtain regs tested where regs: "\<not> blank fid" "regs \<noteq> []" "set (map (\<lambda>q. cmp_trial (run_comparison q)) runs) = set (map trial_id regs)"
    and tested: "mapE (test_run rs persisted fid) runs = Inr tested" and a: "family_aggregate_of fid regs tested = Inr a"
    and ids: "distinct (map (\<lambda>q. cmp_trial (run_comparison q)) runs)" and found: "registrations_for_family rs fid = Inr regs"
    using assms by (auto simp: aggregate_runs_def res_simps guards_Inr_iff Let_def registrations_for_family_def)
  have "persisted q = Inr () \<and> verify_run q = Inr ()" if "q \<in> set runs" for q
    using tested that unfolding mapE_eq_Inr by (auto simp: list_all2_conv_all_nth in_set_conv_nth test_run_def res_simps)
  then show "\<forall>d \<in> set (agg_decisions a). \<exists>q \<in> set runs. decided_on d q \<and> persisted q = Inr () \<and> verify_run q = Inr ()"
    using family_built [OF regs tested] a by auto
  show "inj_on (\<lambda>q. cmp_trial (run_comparison q)) (set runs)" using ids by (simp add: distinct_map)
  obtain a0 where a0: "mk_aggregate a0 = Inr a" "agg_family a0 = fid" "agg_registered a0 = sort (remdups (map trial_id regs))"
    using a by (auto simp: family_aggregate_of_def res_simps Let_def)
  then show "\<exists>a0. mk_aggregate a0 = Inr a" by blast
  have "agg_family a = agg_family a0" "agg_registered a = agg_registered a0"
    using a0(1) by (auto simp: mk_aggregate_def guards_Inr_iff res_simps Let_def)
  then show "agg_family a = fid" "registrations_for_family rs fid = Inr registered \<Longrightarrow> agg_registered a = sort (remdups (map trial_id registered))"
    using a0(2,3) found by simp_all
qed

lemma rejected_small:
  assumes "mk_aggregate a0 = Inr a" and "d \<in> set (agg_decisions a)" and "hypothesis_rejected d"
  shows "dval (raw_p d) \<le> 1 / 20"
proof -
  note a = mk_aggregate_Inr [OF assms(1)]
  let ?m = "length (agg_decisions a)"
  obtain g where g: "foldE (check_step (agg_alpha a) ?m) True (enumerate 1 (agg_decisions a)) = Inr g" using a(4) by blast
  obtain j where j: "j < ?m" "agg_decisions a ! j = d" using assms(2) by (meson in_set_conv_nth)
  let ?b = "dec_of_int (int ?m - int (1 + j) + 1)"
  have b: "1 \<le> dval ?b" using j(1) by (simp flip: of_int_1_le_iff)
  then have nz: "\<not> dzero ?b" using dval_zero_iff [of ?b] by auto
  have "dval (agg_alpha a) / dval ?b \<le> dval holm_alpha"
    using b a(3) by (simp add: divide_le_eq holm_alpha_def dval_Dec power_int_minus del: dval_of_int)
  then have "dval (step_threshold (agg_alpha a) ?m (1 + j)) \<le> dval holm_alpha"
    unfolding step_threshold_def by (intro dquot_le [OF nz]) (simp_all add: repr_def prec_def holm_alpha_def)
  moreover have "raw_p d \<le> step_threshold (agg_alpha a) ?m (1 + j)" using checked_steps [OF g j(1)] assms(3) j(2) by auto
  ultimately show ?thesis by (simp add: le_iff_dval holm_alpha_def dval_Dec power_int_minus)
qed

section \<open>Witnesses\<close>

definition demo_tail :: "int \<Rightarrow> decimal" where
  \<comment> \<open>the tail of \<open>w\<close> wins in six folds\<close>
  "demo_tail w = dquot (dec_of_int (int (tail_count (nat w) 6))) (dec_of_int 64)"

definition demo_family_decision :: "string \<Rightarrow> int \<Rightarrow> nat \<Rightarrow> bool \<Rightarrow> family_decision" where
  "demo_family_decision t w rank ok = (let d =
     \<lparr>family_trial = t, family_comparison = demo_sha, fold_total = 6, base_wins = 6, stressed_wins = w,
      base_p = demo_tail 6, stressed_p = demo_tail w, raw_p = demo_tail w, holm_rank = int rank,
      holm_threshold = step_threshold holm_alpha 2 rank, hypothesis_rejected = ok, compared_passed = True, trial_eligible = ok,
      family_decision_id = []\<rparr> in d\<lparr>family_decision_id := fields_id (family_decision_material d)\<rparr>)"

definition demo_other :: string where
  "demo_other = replicate 64 (CHR ''b'')"

definition demo_family :: family_result where
  "demo_family = \<lparr>agg_family = ''swing'', agg_policy = holm_policy, agg_alpha = holm_alpha,
     agg_registered = [demo_sha, demo_other],
     agg_decisions = [demo_family_decision demo_sha 6 1 True, demo_family_decision demo_other 5 2 False],
     agg_eligible = [], agg_passed = False, agg_id = []\<rparr>"

lemma demo_counts: "tail_count 6 6 = 1" "tail_count 5 6 = 7"
  by code_simp+

lemma demo_quotients:
  "dval (demo_tail 6) = 1 / 64" "dval (demo_tail 5) = 7 / 64"
  "dval (step_threshold holm_alpha 2 1) = 1 / 40" "dval (step_threshold holm_alpha 2 2) = 1 / 20"
proof -
  have q: "dval (dquot a (dec_of_int b)) = dval m" if "b \<noteq> 0" "repr m" "dval m = dval a / of_int b" for a b m
    using dquot_exact [of "dec_of_int b" m a] that by (simp flip: dval_zero_iff)
  show "dval (demo_tail 6) = 1 / 64" "dval (demo_tail 5) = 7 / 64"
    unfolding demo_tail_def
    using q [of 64 "Dec False 15625 (-6)" "dec_of_int 1"] q [of 64 "Dec False 109375 (-6)" "dec_of_int 7"]
    by (simp_all add: demo_counts repr_def prec_def dval_Dec power_int_minus)
  show "dval (step_threshold holm_alpha 2 1) = 1 / 40" "dval (step_threshold holm_alpha 2 2) = 1 / 20"
    unfolding step_threshold_def holm_alpha_def
    using q [of 2 "Dec False 25 (-3)" "Dec False 5 (-2)"] q [of 1 "Dec False 5 (-2)" "Dec False 5 (-2)"]
    by (simp_all add: repr_def prec_def dval_Dec power_int_minus)
qed

lemma demo_family_decision_fields [simp]:
  "family_trial (demo_family_decision t w rank ok) = t" "family_comparison (demo_family_decision t w rank ok) = demo_sha"
  "fold_total (demo_family_decision t w rank ok) = 6" "base_wins (demo_family_decision t w rank ok) = 6"
  "stressed_wins (demo_family_decision t w rank ok) = w" "base_p (demo_family_decision t w rank ok) = demo_tail 6"
  "stressed_p (demo_family_decision t w rank ok) = demo_tail w" "raw_p (demo_family_decision t w rank ok) = demo_tail w"
  "holm_rank (demo_family_decision t w rank ok) = int rank"
  "holm_threshold (demo_family_decision t w rank ok) = step_threshold holm_alpha 2 rank"
  "hypothesis_rejected (demo_family_decision t w rank ok) = ok" "compared_passed (demo_family_decision t w rank ok)"
  "trial_eligible (demo_family_decision t w rank ok) = ok" "\<not> fst (family_decision_broken (demo_family_decision t w rank ok))"
  "demo_family_decision t w rank ok\<lparr>family_decision_id := fields_id (family_decision_material (demo_family_decision t w rank ok))\<rparr>
    = demo_family_decision t w rank ok"
  by (simp_all add: demo_family_decision_def Let_def family_decision_broken_def family_decision_material_def)

lemma demo_family_decision_made:
  assumes "w \<in> {5, 6}" "rank \<in> {1, 2}" "sha_text t"
  shows "mk_family_decision (demo_family_decision t w rank ok) = Inr (demo_family_decision t w rank ok)"
proof -
  have tail: "exact_sign_tail w 6 = Inr (demo_tail w)" if "w \<in> {5, 6}" for w
    using that by (auto simp: exact_sign_tail_def demo_tail_def guards.simps)
  show ?thesis
    using assms demo_quotients tail [of 6] tail [of w]
    by (auto simp: mk_family_decision_def guards_Inr_iff count_guards_def fam_sha_def demo_sha_text le_iff_dval deq_iff_dval dval_py_max)
qed

lemma demo_other: "sha_text demo_other" "demo_sha < demo_other"
  by (simp_all add: sha_text_def demo_other_def list_all_iff) code_simp

lemma demo_family_made:
  "\<exists>a. mk_aggregate demo_family = Inr a \<and> agg_decisions a = agg_decisions demo_family"
proof -
  let ?a = "demo_family_decision demo_sha 6 1 True" and ?b = "demo_family_decision demo_other 5 2 False"
  have ids: "sorted_unique [demo_sha, demo_other]" using demo_other(2) by (simp add: sorted_unique_iff)
  have s: "\<not> blank ''swing''" by code_simp
  have le: "holm_order ?a \<le> holm_order ?b" by (simp add: holm_order_def demo_quotients less_eq_prod_simp)
  have "\<forall>g \<in> set (aggregate_guards demo_family). \<not> fst g"
    using ids s by (simp add: aggregate_guards_def demo_family_def le less_eq_prod_simp fam_sha_def demo_other demo_sha_text del: One_nat_def)
  moreover have "foldE (check_step holm_alpha 2) True [(1, ?a), (2, ?b)] = Inr False"
  proof -
    have "check_step holm_alpha 2 True (1, ?a) = Inr True" "check_step holm_alpha 2 True (2, ?b) = Inr False"
      unfolding check_step_Inr by (simp_all add: le_iff_dval demo_quotients del: One_nat_def)
    then show ?thesis by simp
  qed
  ultimately show ?thesis
    by (simp add: mk_aggregate_def guards_Inr_iff Let_def) (simp add: demo_family_def numeral_2_eq_2)
qed

theorem holm_step_down_witness:
  "\<exists>a. mk_aggregate demo_family = Inr a \<and> agg_eligible a = [demo_sha] \<and> agg_passed a"
proof -
  obtain a where a: "mk_aggregate demo_family = Inr a" "agg_decisions a = agg_decisions demo_family" using demo_family_made by blast
  have "\<forall>d \<in> set (agg_decisions demo_family). \<exists>d0. mk_family_decision d0 = Inr d"
    using demo_family_decision_made demo_other(1) demo_sha_text(1) by (simp add: demo_family_def) blast
  from holm_step_down [OF a(1) this] show ?thesis using a by (simp add: demo_family_def)
qed

theorem holm_family_error_witness:
  "\<exists>a. mk_aggregate demo_family = Inr a
    \<and> (\<exists>e \<in> set (agg_decisions a). dval (raw_p e) * (1 - 1 / 10 ^ 27) \<le> 1 / 20 / of_nat (card (set (agg_decisions a))))"
proof -
  obtain a where a: "mk_aggregate demo_family = Inr a" "agg_decisions a = agg_decisions demo_family" using demo_family_made by blast
  have "\<exists>d \<in> set (agg_decisions a). hypothesis_rejected d" by (simp add: a(2)) (simp add: demo_family_def)
  then show ?thesis using holm_family_error [OF a(1) subset_refl] a(1) by blast
qed

end
