(* ===== verification/Promotion.thy ===== *)
theory Promotion
  imports Family Lifecycle
begin

text \<open>
  The lifecycle store and the family aggregation together: what stands behind a trial that the store promotes
  (\<open>evaluation/lifecycle_store.py\<close> on aggregates built by \<open>evaluation/family_aggregation.py\<close>).
\<close>

section \<open>The aggregate as the lifecycle store reads it\<close>

definition aggregate_view :: "bool \<Rightarrow> family_result \<Rightarrow> aggregate" where
  \<comment> \<open>the attributes that \<open>append\<close> reads, and whether the aggregate store holds the same aggregate\<close>
  "aggregate_view stored_same a = \<lparr>aggregate_family = agg_family a, aggregate_trials = agg_registered a,
     eligible_trials = agg_eligible a, decisions = map (\<lambda>d. (family_trial d, family_comparison d)) (agg_decisions a),
     aggregate_id = agg_id a, aggregate_persisted = stored_same\<rparr>"

text \<open>C7: A promoted trial has earned its significance: when the lifecycle store promotes a trial on an aggregate that the
aggregator built, one of the aggregated runs is that trial's, was found in the run store, passed its comparison, and is the
comparison the trial completed with; and in both slippage scenarios its positive folds are so many that the sign test gives
at most one in twenty, exactly so on up to ninety folds.\<close>

theorem promotion_significant:
  assumes "aggregate_runs g persisted fid runs = Inr a" and "request_aggregate q0 = Some (aggregate_view stored_same a)"
    and "request_kind q0 = TRIAL_PROMOTED" and "registry_get g (request_trial q0) = Inr r"
    and "append_event g configured st q0 = Inr (st', e)"
  shows "\<exists>q \<in> set runs. cmp_trial (run_comparison q) = request_trial q0 \<and> persisted q = Inr () \<and> verify_run q = Inr ()
    \<and> cmp_passed (run_comparison q) \<and> family_aggregate e = Some (agg_id a)
    \<and> (\<exists>c \<in> set (st (request_trial q0)). kind c = TRIAL_COMPLETED \<and> evaluation_result c = Some (cmp_id (run_comparison q)))
    \<and> (\<forall>name \<in> {''base_primary_excess'', ''stressed_primary_excess''}.
        let n = length (run_folds q); w = length (filter (\<lambda>s. 0 < table_value (sum_comparison s) name) (run_folds q)) in
        (\<exists>p. exact_sign_tail (int w) (int n) = Inr p \<and> p \<le> holm_alpha)
        \<and> (n \<le> 90 \<longrightarrow> 20 * card (positive_patterns w n) \<le> 2 ^ n))"
proof -
  obtain v d c where v: "request_aggregate q0 = Some v" "family_aggregate e = Some (aggregate_id v)"
    "request_trial q0 \<in> set (eligible_trials v)" "(request_trial q0, d) \<in> set (decisions v)"
    and c: "c \<in> set (st (request_trial q0))" "kind c = TRIAL_COMPLETED" "evaluation_result c = Some d"
    by (rule appended_promotion [OF assms(4,5,3)])
  have v': "v = aggregate_view stored_same a" using v(1) assms(2) by simp
  note runs = aggregate_runs_Inr [OF assms(1)]
  obtain a0 where a0: "mk_aggregate a0 = Inr a" using runs(3) by blast
  obtain x where x: "x \<in> set (agg_decisions a)" "family_trial x = request_trial q0" "trial_eligible x"
    using v(3) mk_aggregate_Inr(5) [OF a0] by (auto simp: v' aggregate_view_def)
  obtain y where y: "y \<in> set (agg_decisions a)" "family_trial y = request_trial q0" "family_comparison y = d"
    using v(4) by (auto simp: v' aggregate_view_def)
  obtain q where q: "q \<in> set runs" "decided_on x q" "persisted q = Inr ()" "verify_run q = Inr ()" using runs(1) x(1) by blast
  obtain q' where "q' \<in> set runs" "decided_on y q'" using runs(1) y(1) by blast
  then have same: "d = cmp_id (run_comparison q)"
    using inj_onD [OF runs(2), of q' q] q(1,2) x(2) y(2,3) by (auto simp: decided_on_def Let_def)
  have rej: "hypothesis_rejected x" "cmp_passed (run_comparison q)" using q(2) x(3) by (auto simp: decided_on_def Let_def)
  have small: "raw_p x \<le> holm_alpha"
    using rejected_small [OF a0 x(1) rej(1)] by (simp add: le_iff_dval holm_alpha_def dval_Dec power_int_minus)
  have sig: "(\<exists>p. exact_sign_tail (int w) (int n) = Inr p \<and> p \<le> holm_alpha) \<and> (n \<le> 90 \<longrightarrow> 20 * card (positive_patterns w n) \<le> 2 ^ n)"
    if "n = length (run_folds q)" "w = length (filter (\<lambda>s. 0 < table_value (sum_comparison s) name) (run_folds q))"
      "name \<in> {''base_primary_excess'', ''stressed_primary_excess''}" for name w n
  proof -
    have "\<exists>b s. exact_sign_tail (base_wins x) (int n) = Inr b \<and> exact_sign_tail (stressed_wins x) (int n) = Inr s \<and> raw_p x = py_max b s"
      using q(2) unfolding decided_on_def Let_def that(1) by (elim conjE)
    then obtain b s where t: "exact_sign_tail (base_wins x) (int n) = Inr b" "exact_sign_tail (stressed_wins x) (int n) = Inr s"
      "raw_p x = py_max b s" by blast
    have "dval b \<le> dval (raw_p x)" "dval s \<le> dval (raw_p x)" by (simp_all add: t(3) dval_py_max)
    moreover have "int w = base_wins x \<or> int w = stressed_wins x" using q(2) that(2,3) by (auto simp: decided_on_def Let_def)
    ultimately obtain p where "exact_sign_tail (int w) (int n) = Inr p" "dval p \<le> dval (raw_p x)" using t(1,2) by metis
    moreover from this have "p \<le> holm_alpha" using small by (simp add: le_iff_dval)
    ultimately show ?thesis using sign_tail_level by blast
  qed
  show ?thesis
    using q x(2) c same rej(2) v(2) sig by (intro bexI [of _ q]) (auto simp: decided_on_def Let_def v' aggregate_view_def)
qed

section \<open>Witnesses\<close>

definition demo_outcome :: evaluation_result where
  "demo_outcome = \<lparr>res_trial = trial_id demo_trial, res_plan = demo_sha, res_dataset = demo_sha, res_policy = demo_sha,
     res_schedule = demo_sha, res_capital = Dec False 1 6, res_trades = [], res_charges = None, res_curve = [], res_metrics = [],
     res_thresholds = [], res_passed = True, result_id = demo_sha\<rparr>"

definition demo_comparison :: trial_comparison where
  "demo_comparison = (let c =
     \<lparr>cmp_trial = trial_id demo_trial, strategy_id = ''m1'', cmp_benchmark = ''nifty'', cmp_metric = ''sharpe'',
      cmp_base_slippage = Dec False 5 0, cmp_stressed_slippage = Some (Dec False 15 0), strategy_base = demo_outcome,
      benchmark_base = demo_outcome, strategy_stressed = Some demo_outcome, benchmark_stressed = Some demo_outcome,
      cmp_metrics = [], cmp_passed = True, cmp_id = []\<rparr> in c\<lparr>cmp_id := fields_id (cmp_material c)\<rparr>)"

definition demo_fold_summary :: fold_summary where
  "demo_fold_summary = (let s =
     \<lparr>sum_fold = demo_sha, sum_first = Date 2026 3 2, sum_last = Date 2026 3 27, sum_metric = ''sharpe'',
      sum_strategy = [], sum_benchmark = [], sum_strategy_stressed = Some [], sum_benchmark_stressed = Some [],
      sum_comparison = [(''base_primary_excess'', Dec False 2 0), (''stressed_primary_excess'', Dec False 1 0)],
      outperformed = True, summary_id = []\<rparr> in s\<lparr>summary_id := fields_id (summary_material s)\<rparr>)"

definition demo_batch :: "intent_role \<Rightarrow> intent_batch" where
  "demo_batch role = (let b = \<lparr>batch_by = demo_sha, batch_role = role, batch_plan = demo_sha, batch_sources = [demo_sha],
     batch_decisions = [], batch_intents = [], intent_batch_id = []\<rparr> in b\<lparr>intent_batch_id := fields_id (batch_material b)\<rparr>)"

definition demo_run :: comparison_run where
  "demo_run = (let q = \<lparr>run_strategy = demo_batch STRATEGY, run_benchmark = demo_batch BENCHMARK,
     run_comparison = demo_comparison, run_folds = replicate 5 demo_fold_summary, run_id = []\<rparr> in
     q\<lparr>run_id := fields_id (run_material q)\<rparr>)"

lemma demo_run_fields [simp]:
  "cmp_trial (run_comparison demo_run) = trial_id demo_trial" "run_folds demo_run = replicate 5 demo_fold_summary"
  "cmp_metric (run_comparison demo_run) = ''sharpe''" "cmp_passed (run_comparison demo_run)"
  "sha_text (cmp_id (run_comparison demo_run))"
  by (simp_all add: demo_run_def demo_comparison_def Let_def)

lemma demo_run_verified: "verify_run demo_run = Inr ()"
  by (simp add: verify_run_def guards_Inr_iff demo_run_def demo_comparison_def demo_batch_def demo_fold_summary_def Let_def
      batch_broken_def batch_material_def comparison_broken_def cmp_material_def summary_broken_def summary_material_def run_material_def)

lemma demo_family_registered: "registrations_for_family [demo_trial] ''swing'' = Inr [demo_trial]"
proof -
  have "\<not> blank ''swing''" by code_simp
  then show ?thesis by (simp add: registrations_for_family_def)
qed

lemma demo_tested: "\<exists>t. mapE (test_run [demo_trial] (\<lambda>_. Inr ()) ''swing'') [demo_run] = Inr [t]"
proof -
  have "table_value (sum_comparison demo_fold_summary) ''base_primary_excess'' = Dec False 2 0"
    "map_of (sum_comparison demo_fold_summary) ''stressed_primary_excess'' = Some (Dec False 1 0)"
    "table_value (sum_comparison demo_fold_summary) ''stressed_primary_excess'' = Dec False 1 0"
    by (simp_all add: demo_fold_summary_def Let_def table_value_def)
  then show ?thesis
    by (simp add: test_run_def demo_run_verified demo_get fold_wins_def exact_sign_tail_def guards.simps Let_def
        list_ex_iff less_iff_dval dval_Dec filter_replicate)
qed

lemma demo_preregistered: "multiple_testing_policy demo_trial = holm_policy"
  by (simp add: demo_trial_def demo_registration_def holm_policy_def)

theorem aggregate_returns_witness:
  "\<exists>a. aggregate_runs [demo_trial] (\<lambda>_. Inr ()) ''swing'' [demo_run] = Inr a \<and> map family_trial (agg_decisions a) = [trial_id demo_trial]"
proof -
  obtain t where "mapE (test_run [demo_trial] (\<lambda>_. Inr ()) ''swing'') [demo_run] = Inr [t]" using demo_tested by blast
  from aggregate_returns [OF demo_family_registered _ _ _ _ this]
  obtain a where "aggregate_runs [demo_trial] (\<lambda>_. Inr ()) ''swing'' [demo_run] = Inr a"
    "mset (map family_trial (agg_decisions a)) = mset [trial_id demo_trial]" using demo_preregistered by auto
  then show ?thesis by (metis mset_single_iff mset_single_iff_right mset.simps)
qed

lemma demo_wins:
  "length (filter (\<lambda>s. 0 < table_value (sum_comparison s) ''base_primary_excess'') (replicate 5 demo_fold_summary)) = 5"
  "length (filter (\<lambda>s. 0 < table_value (sum_comparison s) ''stressed_primary_excess'') (replicate 5 demo_fold_summary)) = 5"
  by (simp_all add: demo_fold_summary_def Let_def table_value_def less_iff_dval dval_Dec filter_replicate)

lemma demo_rejected:
  assumes "mk_aggregate a0 = Inr a" and "agg_decisions a = [d]" and "decided_on d demo_run"
  shows "hypothesis_rejected d"
proof -
  note a = mk_aggregate_Inr [OF assms(1)]
  have thirty_two: "\<not> dzero (dec_of_int 32)" "\<not> dzero (dec_of_int 1)" by (simp_all flip: dval_zero_iff)
  have "exact_sign_tail 5 5 = Inr (raw_p d)"
    using assms(3) unfolding decided_on_def Let_def demo_run_fields(2) demo_wins length_replicate by (auto simp: py_max_def)
  then have "raw_p d = dquot (dec_of_int 1) (dec_of_int 32)"
    by (simp add: exact_sign_tail_def guards_Inr_iff tail_count_def)
  then have "dval (raw_p d) \<le> dval (Dec False 3125 (-5))"
    using dquot_le [OF thirty_two(1), of "Dec False 3125 (-5)" "dec_of_int 1"] by (simp add: repr_def prec_def dval_Dec power_int_minus)
  also have "\<dots> \<le> dval (step_threshold (agg_alpha a) 1 1)"
    unfolding step_threshold_def
    using dquot_ge [OF thirty_two(2), of "Dec False 3125 (-5)" "agg_alpha a"] a(3) by (simp add: repr_def prec_def dval_Dec power_int_minus)
  finally have "raw_p d \<le> step_threshold (agg_alpha a) 1 1" unfolding le_iff_dval .
  then show ?thesis using a(4) by (auto simp: assms(2) check_step_Inr res_simps)
qed

lemma demo_aggregated:
  "\<exists>a. aggregate_runs [demo_trial] (\<lambda>_. Inr ()) ''swing'' [demo_run] = Inr a \<and> agg_eligible a = [trial_id demo_trial]
    \<and> map (\<lambda>d. (family_trial d, family_comparison d)) (agg_decisions a) = [(trial_id demo_trial, cmp_id (run_comparison demo_run))]
    \<and> sha_text (agg_id a)"
proof -
  obtain t where t: "mapE (test_run [demo_trial] (\<lambda>_. Inr ()) ''swing'') [demo_run] = Inr [t]" using demo_tested by blast
  have "\<not> blank ''swing''" by code_simp
  from family_built [OF this _ _ t, of "[demo_trial]"]
  obtain a where a: "family_aggregate_of ''swing'' [demo_trial] [t] = Inr a"
    "mset (map family_trial (agg_decisions a)) = {#trial_id demo_trial#}" "\<forall>d \<in> set (agg_decisions a). decided_on d demo_run" by auto
  have run: "aggregate_runs [demo_trial] (\<lambda>_. Inr ()) ''swing'' [demo_run] = Inr a"
    using t a(1) demo_preregistered by (simp add: aggregate_runs_def demo_family_registered guards.simps)
  obtain a0 where a0: "mk_aggregate a0 = Inr a" using aggregate_runs_Inr(3) [OF run] by blast
  have "map family_trial (agg_decisions a) = [trial_id demo_trial]" using a(2) by (metis mset_single_iff)
  then obtain d where d: "agg_decisions a = [d]" "family_trial d = trial_id demo_trial" by auto
  then have on: "decided_on d demo_run" using a(3) by simp
  have "trial_eligible d" "family_comparison d = cmp_id (run_comparison demo_run)"
    using on demo_rejected [OF a0 d(1) on] unfolding decided_on_def Let_def by (metis demo_run_fields(4))+
  moreover have "agg_id a = fields_id (aggregate_material a)" using mk_aggregate_Inr(9) [OF a0] by (simp add: aggregate_broken_def)
  then have "sha_text (agg_id a)" by simp
  ultimately show ?thesis using run mk_aggregate_Inr(5) [OF a0] d by simp
qed

theorem promotion_significant_witness:
  "\<exists>a st' e. aggregate_runs [demo_trial] (\<lambda>_. Inr ()) ''swing'' [demo_run] = Inr a
    \<and> append_event [demo_trial] True (\<lambda>_. demo_history_of (cmp_id (run_comparison demo_run))) (demo_promote_on (aggregate_view True a))
      = Inr (st', e) \<and> kind e = TRIAL_PROMOTED \<and> family_aggregate e = Some (agg_id a)"
proof -
  obtain a where a: "aggregate_runs [demo_trial] (\<lambda>_. Inr ()) ''swing'' [demo_run] = Inr a" "agg_eligible a = [trial_id demo_trial]"
    "map (\<lambda>d. (family_trial d, family_comparison d)) (agg_decisions a) = [(trial_id demo_trial, cmp_id (run_comparison demo_run))]"
    "sha_text (agg_id a)" using demo_aggregated by (elim exE conjE)
  have reg: "agg_registered a = [trial_id demo_trial]" using aggregate_runs_Inr(5) [OF a(1) demo_family_registered] by simp
  have find: "List.find (\<lambda>d. fst d = trial_id demo_trial) (decisions (aggregate_view True a))
      = Some (trial_id demo_trial, cmp_id (run_comparison demo_run))" by (simp add: aggregate_view_def a(3))
  have seen: "sha_text (aggregate_id (aggregate_view True a))" "aggregate_persisted (aggregate_view True a)"
    "aggregate_family (aggregate_view True a) = ''swing''" "aggregate_trials (aggregate_view True a) = [trial_id demo_trial]"
    "trial_id demo_trial \<in> set (eligible_trials (aggregate_view True a))"
    using a(2,4) reg aggregate_runs_Inr(4) [OF a(1)] by (simp_all add: aggregate_view_def)
  obtain st' e where e: "append_event [demo_trial] True (\<lambda>_. demo_history_of (cmp_id (run_comparison demo_run)))
      (demo_promote_on (aggregate_view True a)) = Inr (st', e)" "kind e = TRIAL_PROMOTED"
    using demo_promoted [OF demo_run_fields(5), of "aggregate_view True a", OF seen find] by blast
  have q: "request_trial (demo_promote_on v) = trial_id demo_trial" "request_kind (demo_promote_on v) = TRIAL_PROMOTED"
    "request_aggregate (demo_promote_on v) = Some v" for v
    by (simp_all add: demo_promote_on_def demo_start_def)
  have get: "registry_get [demo_trial] (request_trial (demo_promote_on (aggregate_view True a))) = Inr demo_trial"
    unfolding q(1) by (rule demo_get)
  have "family_aggregate e = Some (agg_id a)"
    using promotion_significant [OF a(1) q(3,2) get e(1)] by (elim bexE conjE)
  then show ?thesis using a(1) e by blast
qed

end
