(* ===== verification/Spec2Isabelle.thy ===== *)
theory Spec2Isabelle
  imports Costs Simulator QuoteGate Sizing WalkForward Lifecycle Adjustments Settlement Comparison EngineDemo
    Calendar Admission BaselineRun RunDemo Promotion
begin

text \<open>
  A verification development of the India swing-trading system.

  The program is a point-in-time research pipeline written in Python: end-of-day histories are
  turned into signals and trade levels, live quotes gate the proposals, the passing ones are ranked
  and sized against a portfolio, entries and exits are simulated on daily bars, and Indian
  transaction costs are charged.  Every artefact is a frozen dataclass whose constructor validates
  its fields and seals a content identity, and every downstream step verifies that identity and
  replays the computation.  The development models those steps as HOL functions over
  records, with exceptions as values.

  The theories, in the order of the calls:

    \<^item> \<open>Prelude\<close>: results and exceptions (\<open>py_exc\<close>, \<open>bindE\<close>, \<open>guards\<close>, \<open>mapE\<close>, \<open>foldE\<close>), ordered
      sets, ASCII text, and the locale \<open>guarded_machine\<close>.
    \<^item> \<open>PyDate\<close>: dates and aware datetimes; an aware datetime is its UTC instant in microseconds.
    \<^item> \<open>PyDecimal\<close>: \<open>decimal.Decimal\<close> with the default context, 28 digits, half-even: sign,
      coefficient and exponent, exact constructors and rounded operations, \<open>quantize\<close>,
      \<open>to_integral_value\<close> and \<open>str\<close>; the error and monotonicity lemmas of the rounding.
    \<^item> \<open>Ticks\<close>: decimals on a grid, where the rounded operations are exact; rounding to ticks.
    \<^item> \<open>Sha256\<close> and \<open>Identity\<close> (\<open>identity.py\<close>): canonical JSON of identity values, its
      injectivity, content identifiers, and the locale \<open>content_addressed\<close>.
    \<^item> \<open>Costs\<close> (\<open>execution/costs.py\<close>), \<open>Simulator\<close> (\<open>execution/simulator.py\<close>).
    \<^item> \<open>Signals\<close> (\<open>signals/deterministic_swing.py\<close>), \<open>QuoteGate\<close> (\<open>market_data/models.py\<close>,
      \<open>signals/quote_quality.py\<close>, \<open>signals/quote_gate.py\<close>), \<open>Ranking\<close>
      (\<open>signals/opportunity_ranking.py\<close>), \<open>Sizing\<close> (\<open>risk/swing_portfolio.py\<close>).
    \<^item> \<open>RawBars\<close> (\<open>historical_prices/models.py\<close>, the ISIN check of \<open>reference_data/models.py\<close>),
      \<open>CorporateActions\<close> (\<open>corporate_actions/models.py\<close>) and \<open>Adjustments\<close>
      (\<open>corporate_actions/adjustments.py\<close>): exchange bars, the ledger of corporate actions known at a
      cutoff, and the histories scaled by the actions that follow each bar.
    \<^item> \<open>WalkForward\<close> (\<open>evaluation/models.py\<close>, \<open>evaluation/splits.py\<close>): purged walk-forward plans, the loop of
      their constructor and the open-ended loop of their builder (\<open>partial_function\<close>, proved to return).
    \<^item> \<open>Trials\<close> (\<open>evaluation/trials.py\<close>, \<open>evaluation/trial_store.py\<close>) and \<open>Lifecycle\<close>
      (\<open>evaluation/lifecycle.py\<close>, \<open>evaluation/lifecycle_store.py\<close>): the registry as the list of its
      registrations, the event store as one list of events per trial; the history validator refines an
      abstract machine of phases (\<open>moves\<close>).
    \<^item> \<open>Evaluation\<close> and \<open>Engine\<close> (\<open>evaluation/engine.py\<close>): the values of an evaluation with the checks of their
      constructors, and the engine: intents through the simulator, overlaps, fills, charges, the cash book of every
      session, metrics and verdict (\<open>run_intent\<close>, \<open>settle\<close>, \<open>evaluate\<close>), and the comparison with a benchmark
      (\<open>compare\<close>).  \<open>PyMath\<close>: \<open>Decimal.ln\<close> and \<open>Decimal.exp\<close> as correctly rounded real functions.
    \<^item> \<open>Gregorian\<close>, \<open>Reference\<close> (\<open>reference/models.py\<close>) and \<open>Calendar\<close> (\<open>reference/calendar.py\<close>): ordinals of valid dates and
      their inverse, record references, and the exchange calendar with its session windows and lookups: advancing by
      sessions is indexing into the trading days, next and previous session are inverse.
    \<^item> \<open>Baselines\<close>, \<open>Generators\<close> and \<open>BaselineRun\<close> (\<open>evaluation/baselines.py\<close>): instruments, configurations, decisions and
      batches; the momentum and the equal-weight generator (\<open>generate_momentum\<close>, \<open>generate_weight\<close>); fold metrics, fold
      summaries and the comparison run (\<open>evaluate_baselines\<close>).  \<open>Selection\<close>: who is selected; \<open>Admission\<close>: generated
      intents pass the engine's checks and keep the exposure; \<open>BaselineDemo\<close> and \<open>RunDemo\<close>: a batch and a run worked out.
    \<^item> \<open>Family\<close> (\<open>evaluation/family_aggregation.py\<close>): the exact sign test on the folds of a run, Holm's step-down over the
      runs of a trial family, and the aggregator (\<open>aggregate_runs\<close>); \<open>Promotion\<close>: what stands behind a trial that the
      lifecycle store promotes on such an aggregate.
    \<^item> \<open>ChargeBounds\<close>, \<open>Ledger\<close> and \<open>Settlement\<close>: the cash book refines an exact ledger of rational numbers
      (\<open>exact_cash\<close>, \<open>exact_equity\<close>), session by session over the invariant \<open>booked\<close>, and the ways an evaluation
      can end; \<open>Comparison\<close>: the verdict; \<open>EngineDemo\<close>: one evaluation worked out, with the witnesses.

  Conventions.  A dataclass is a record; its constructor is \<open>mk_<name>\<close>, taking the fields (the
  sealed identifier is overwritten) and, where the source normalises a datetime, the datetime as
  written; \<open>verify_<name>\<close> is its \<open>verify_content_identity\<close>; \<open><name>_material\<close> is the
  dictionary that \<open>content_id\<close> is computed from.  The checks \<open>type(x) is T\<close> are the types of the
  model.  An exception carries the literal part of its message.

  Bounds.  They bound sizes only, of values that came out of their constructors.  The cost theorems hold for at most 1000 fills of at most 10^8 shares at prices of at most
  four decimals and 10^8 rupees, and tariffs of the size of the published ones, where 28 digits
  leave every intermediate exact (the theorem on the delivery tariff alone is for inputs that pass the checks before
  the loop over the days, \<open>priceable\<close>; that on the mixed tariff has those checks as cases); the level theorem for prices up to 10^6 on ticks of up to four
  decimals; the sizing bounds for quantities up to 10^9, with the rounding of the quotients as an
  explicit 10^-18 of one share; the price of an exit by the open for opens that share a decimal unit with the tick, in
  27 digits (\<open>priced_in\<close>); the delivery percentage for volumes up to 10^20; the ledger of an evaluation
  for a capital of 10^23 rupees, 500 trades within the bounds of the cost theorems and closes of at most four
  decimals and 10^8 rupees (\<open>within_bounds\<close>), where every sum is a whole number of hundredths of a paisa below 10^28; the
  calendar theorems for coverage dates that are valid dates; the exposure of a fold up to one part in 10^26; the sign
  test decides exactly on up to ninety folds, where a twentieth is further from every other tail than the rounding.

  Locales.  \<open>content_addressed\<close> (equal identifiers give equal canonical fields or a SHA-256
  collision) is interpreted on the tariff, the fill, the fold and the bar; \<open>point_in_time_generator\<close> (what a generator
  does on a fold depends on the bars up to its signal session) on both generators; \<open>guarded_machine\<close> (a step that may raise
  and an invariant) on the allocation loop, the loop of the plan constructor, the trial registry, the lifecycle
  store and the amendment loop of a corporate-action snapshot.

  What the proofs found.  The constructor of an adjusted bar asks that the price factor times the volume factor
  is one exactly, while the volume factor is the rounded reciprocal; for an action of one share into three
  the product is \<open>1 - 10^-28\<close>, so a history is always rejected when it holds a session after which this is the only
  active action of the instrument (\<open>one_for_three_rejected\<close>; with two such actions on one date the rounded values
  multiply back to one, \<open>ninth_product\<close>).  An entry whose
  bar opens at or below the stop fills below the stop, the protective order is then refused and the whole evaluation
  ends in a \<open>ValueError\<close> (\<open>gap_below_stop_aborts\<close>).  In return, several errors of the engine cannot occur once
  the intents have run: no fill that its constructor refuses, no partially netted day, no open position without a bar or
  left open, no inconsistent result; what remains are overlapping trades, a tariff that refuses the trades (it is not in
  force on a trade date, its identity is broken, or two fills have one identity) and an overdrawn account
  (\<open>evaluation_outcome\<close>).

  Not modelled.  Decimals that are not finite and the exponent limits of the context; text outside
  Latin-1; the proposal batch and the calendar a plan or a proposal cites, whose verification results are data of the
  records that carry them; what the comparison and aggregate stores answer to the lifecycle store, which is data of
  the request; the JSON files and locks of the stores; report references, session artifacts and manifests;
  the stores of baseline runs and family aggregates (whether the files hold the same value is an argument), the promoted
  walk-forward experiments; the regime-ensemble forecasts and the intents generated from them; network collection, the quality pilot, publication, notifications, command lines and orchestration.
\<close>

end
